(* ===== verification/Prelude.thy ===== *)
theory Prelude
  imports Main "HOL-Library.AList" "HOL-Library.List_Lexorder" "HOL-Library.Char_ord"
    "HOL-Library.Product_Lexorder"
begin

text \<open>
  Shared vocabulary of the development: Rust's unsigned integers with their
  overflow behaviour, hash maps as association lists, the string operations the
  sources use, and the result type of fallible operations.  The collections
  \<open>hm_simps\<close> and \<open>arith_defs\<close> are extended here and used by every component.
\<close>

named_theorems hm_simps \<open>lookup laws of the hash-map operations\<close>
named_theorems arith_defs \<open>unfoldings of the machine-integer operations\<close>


subsection \<open>Unsigned integers\<close>

text \<open>
  A \<open>u64\<close>, \<open>u32\<close> or \<open>usize\<close> value is a natural number; the operations that can
  leave the range of the type are written out.  Release builds wrap on \<open>+\<close>.
\<close>

type_synonym u64 = nat
type_synonym u32 = nat
type_synonym usize = nat

definition u64_max :: nat where
  "u64_max = 2 ^ 64 - 1"

definition u32_max :: nat where
  "u32_max = 2 ^ 32 - 1"

definition u64_saturating_add :: "u64 \<Rightarrow> u64 \<Rightarrow> u64" where [arith_defs]:
  "u64_saturating_add a b = min (a + b) u64_max"

definition u32_saturating_add :: "u32 \<Rightarrow> u32 \<Rightarrow> u32" where [arith_defs]:
  "u32_saturating_add a b = min (a + b) u32_max"

text \<open>\<open>saturating_sub\<close> stops at zero, which is what subtraction on \<^typ>\<open>nat\<close> does.\<close>

definition u64_saturating_sub :: "u64 \<Rightarrow> u64 \<Rightarrow> u64" where [arith_defs]:
  "u64_saturating_sub a b = a - b"

definition u64_add :: "u64 \<Rightarrow> u64 \<Rightarrow> u64" where
  "u64_add a b = (a + b) mod 2 ^ 64"

lemma u64_add_exact [simp]: "a + b \<le> u64_max \<Longrightarrow> u64_add a b = a + b"
  by (simp add: u64_add_def u64_max_def)

lemma u64_add_bound: "u64_add a b \<le> u64_max"
proof -
  have "u64_add a b < 2 ^ 64" by (simp add: u64_add_def)
  then show ?thesis by (simp add: u64_max_def)
qed

lemma u64_saturating_add_bound: "u64_saturating_add a b \<le> u64_max"
  by (simp add: u64_saturating_add_def)

lemma u64_saturating_add_exact: "a + b \<le> u64_max \<Longrightarrow> u64_saturating_add a b = a + b"
  by (simp add: u64_saturating_add_def)

lemma u64_saturating_add_mono: "a \<le> u64_max \<Longrightarrow> a \<le> u64_saturating_add a b"
  by (simp add: u64_saturating_add_def)

text \<open>\<open>Ord::clamp\<close> on unsigned values (\<open>lo \<le> hi\<close> at every call site).\<close>

definition clamp :: "nat \<Rightarrow> nat \<Rightarrow> nat \<Rightarrow> nat" where
  "clamp v lo hi = max lo (min hi v)"

lemma clamp_bounds: "lo \<le> hi \<Longrightarrow> lo \<le> clamp v lo hi \<and> clamp v lo hi \<le> hi"
  by (auto simp: clamp_def)

definition div_ceil :: "nat \<Rightarrow> nat \<Rightarrow> nat" where
  "div_ceil a b = (a + b - 1) div b"


subsection \<open>Results\<close>

text \<open>\<open>Result<T, E>\<close> with \<open>Inl\<close> for \<open>Err\<close> and \<open>Inr\<close> for \<open>Ok\<close>.\<close>

type_synonym ('e, 'a) result = "'e + 'a"

abbreviation Ok :: "'a \<Rightarrow> ('e, 'a) result" where
  "Ok \<equiv> Inr"

abbreviation Err :: "'e \<Rightarrow> ('e, 'a) result" where
  "Err \<equiv> Inl"

definition is_ok :: "('e, 'a) result \<Rightarrow> bool" where
  "is_ok r = (case r of Inl _ \<Rightarrow> False | Inr _ \<Rightarrow> True)"

lemma is_ok_simps [simp]: "is_ok (Inr x)" "\<not> is_ok (Inl e)"
  by (simp_all add: is_ok_def)


subsection \<open>Hash maps\<close>

text \<open>
  A \<open>HashMap\<close> is an association list with distinct keys.  Its iteration order is
  the order of the list; Rust leaves that order unspecified, and the statements
  below hold for every list, hence for every iteration order.
\<close>

type_synonym ('k, 'v) hashmap = "('k \<times> 'v) list"

definition hm_get :: "('k, 'v) hashmap \<Rightarrow> 'k \<Rightarrow> 'v option" where
  "hm_get m k = map_of m k"

definition hm_insert :: "'k \<Rightarrow> 'v \<Rightarrow> ('k, 'v) hashmap \<Rightarrow> ('k, 'v) hashmap" where
  "hm_insert k v m = AList.update k v m"

definition hm_remove :: "'k \<Rightarrow> ('k, 'v) hashmap \<Rightarrow> ('k, 'v) hashmap" where
  "hm_remove k m = AList.delete k m"

definition hm_contains :: "('k, 'v) hashmap \<Rightarrow> 'k \<Rightarrow> bool" where
  "hm_contains m k = (hm_get m k \<noteq> None)"

definition hm_keys :: "('k, 'v) hashmap \<Rightarrow> 'k list" where
  "hm_keys m = map fst m"

definition hm_values :: "('k, 'v) hashmap \<Rightarrow> 'v list" where
  "hm_values m = map snd m"

definition hm_ok :: "('k, 'v) hashmap \<Rightarrow> bool" where
  "hm_ok m = distinct (map fst m)"

text \<open>\<open>retain\<close> on keys and values, and a change of every value through \<open>get_mut\<close>.\<close>

definition hm_retain :: "('k \<Rightarrow> 'v \<Rightarrow> bool) \<Rightarrow> ('k, 'v) hashmap \<Rightarrow> ('k, 'v) hashmap" where
  "hm_retain p m = filter (\<lambda>(k, v). p k v) m"

definition hm_map :: "('k \<Rightarrow> 'v \<Rightarrow> 'v) \<Rightarrow> ('k, 'v) hashmap \<Rightarrow> ('k, 'v) hashmap" where
  "hm_map f m = map (\<lambda>(k, v). (k, f k v)) m"

lemma hm_get_Nil [simp, hm_simps]: "hm_get [] k = None"
  by (simp add: hm_get_def)

lemma hm_get_Cons: "hm_get ((k', v) # m) k = (if k = k' then Some v else hm_get m k)"
  by (auto simp: hm_get_def)

lemma hm_get_insert [simp, hm_simps]:
  "hm_get (hm_insert k v m) k' = (if k' = k then Some v else hm_get m k')"
  by (auto simp: hm_get_def hm_insert_def update_conv')

lemma hm_get_remove [simp, hm_simps]:
  "hm_get (hm_remove k m) k' = (if k' = k then None else hm_get m k')"
  by (auto simp: hm_get_def hm_remove_def delete_conv')

lemma hm_get_map [simp, hm_simps]: "hm_get (hm_map f m) k = map_option (f k) (hm_get m k)"
  by (induction m) (auto simp: hm_get_def hm_map_def)

lemma hm_get_retain [hm_simps]:
  "hm_ok m \<Longrightarrow> hm_get (hm_retain p m) k
     = (case hm_get m k of None \<Rightarrow> None | Some v \<Rightarrow> if p k v then Some v else None)"
proof (induction m)
  case (Cons kv m)
  obtain k' v where kv: "kv = (k', v)" by force
  show ?case
  proof (cases "k = k'")
    case True
    have "hm_get m k' = None"
      using Cons.prems by (auto simp: hm_ok_def hm_get_def kv map_of_eq_None_iff)
    then show ?thesis
      using Cons True by (auto simp: hm_retain_def hm_ok_def hm_get_Cons kv)
  next
    case False
    then show ?thesis
      using Cons by (auto simp: hm_retain_def hm_ok_def hm_get_Cons kv)
  qed
qed (simp add: hm_retain_def)

lemma hm_ok_Nil [simp]: "hm_ok []"
  by (simp add: hm_ok_def)

lemma hm_ok_insert [simp, intro]: "hm_ok m \<Longrightarrow> hm_ok (hm_insert k v m)"
  unfolding hm_ok_def hm_insert_def by (rule distinct_update)

lemma hm_ok_remove [simp, intro]: "hm_ok m \<Longrightarrow> hm_ok (hm_remove k m)"
  unfolding hm_ok_def hm_remove_def by (rule distinct_delete)

lemma hm_ok_map [simp]: "hm_ok (hm_map f m) = hm_ok m"
  by (simp add: hm_ok_def hm_map_def comp_def case_prod_beta)

lemma hm_ok_retain [simp, intro]: "hm_ok m \<Longrightarrow> hm_ok (hm_retain p m)"
  unfolding hm_ok_def hm_retain_def by (induction m) auto

lemma hm_keys_iff: "k \<in> set (hm_keys m) \<longleftrightarrow> hm_get m k \<noteq> None"
  by (simp add: hm_keys_def hm_get_def map_of_eq_None_iff)

lemma hm_values_get: "hm_get m k = Some v \<Longrightarrow> v \<in> set (hm_values m)"
  by (force simp: hm_values_def hm_get_def dest: map_of_SomeD)

lemma hm_values_iff: "hm_ok m \<Longrightarrow> v \<in> set (hm_values m) \<longleftrightarrow> (\<exists>k. hm_get m k = Some v)"
  by (auto simp: hm_values_def hm_ok_def hm_get_def intro: rev_image_eqI dest: map_of_SomeD)

lemma hm_entry_iff: "hm_ok m \<Longrightarrow> (k, v) \<in> set m \<longleftrightarrow> hm_get m k = Some v"
  by (auto simp: hm_ok_def hm_get_def dest: map_of_SomeD)

lemma hm_length_insert:
  "length (hm_insert k v m) = (if hm_contains m k then length m else Suc (length m))"
proof (induction m)
  case (Cons kv m)
  then show ?case
    by (cases kv) (auto simp: hm_insert_def hm_contains_def hm_get_def)
qed (simp add: hm_insert_def hm_contains_def)

lemma hm_length_remove: "length (hm_remove k m) \<le> length m"
  by (simp add: hm_remove_def length_delete_le)

lemma hm_length_map [simp]: "length (hm_map f m) = length m"
  by (simp add: hm_map_def)

lemma hm_length_retain: "length (hm_retain p m) \<le> length m"
  by (simp add: hm_retain_def)


subsection \<open>Hash sets\<close>

text \<open>A \<open>HashSet\<close> is a list without duplicates.\<close>

type_synonym 'a hashset = "'a list"

definition hs_insert :: "'a \<Rightarrow> 'a hashset \<Rightarrow> 'a hashset" where
  "hs_insert x s = (if x \<in> set s then s else s @ [x])"

definition hs_remove :: "'a \<Rightarrow> 'a hashset \<Rightarrow> 'a hashset" where
  "hs_remove x s = filter (\<lambda>y. y \<noteq> x) s"

lemma set_hs_insert [simp]: "set (hs_insert x s) = insert x (set s)"
  by (auto simp: hs_insert_def)

lemma set_hs_remove [simp]: "set (hs_remove x s) = set s - {x}"
  by (auto simp: hs_remove_def)

lemma distinct_hs_insert [simp, intro]: "distinct s \<Longrightarrow> distinct (hs_insert x s)"
  by (simp add: hs_insert_def)

lemma distinct_hs_remove [simp, intro]: "distinct s \<Longrightarrow> distinct (hs_remove x s)"
  by (simp add: hs_remove_def)


subsection \<open>Strings\<close>

text \<open>
  A \<open>String\<close> is a list of characters; an Isabelle \<^typ>\<open>char\<close> is one of the first
  256 code points, and \<open>str\<close>'s order is the lexicographic order of \<open>List_Lexorder\<close>.
\<close>

definition starts_with :: "string \<Rightarrow> string \<Rightarrow> bool" where
  "starts_with s p = (take (length p) s = p)"

definition strip_prefix :: "string \<Rightarrow> string \<Rightarrow> string option" where
  "strip_prefix s p = (if starts_with s p then Some (drop (length p) s) else None)"

lemma starts_with_append [simp]: "starts_with (p @ s) p"
  by (simp add: starts_with_def)

lemma starts_with_iff: "starts_with s p \<longleftrightarrow> (\<exists>t. s = p @ t)"
  unfolding starts_with_def by (metis append_eq_conv_conj append_take_drop_id)

lemma strip_prefix_Some: "strip_prefix s p = Some t \<longleftrightarrow> s = p @ t"
  by (auto simp: strip_prefix_def starts_with_iff)

text \<open>Decimal formatting of an unsigned integer (\<open>format!("{n}")\<close>).\<close>

definition digit_char :: "nat \<Rightarrow> char" where
  "digit_char d = char_of (48 + d)"

fun dec :: "nat \<Rightarrow> string" where
  "dec n = (if n < 10 then [digit_char n] else dec (n div 10) @ [digit_char (n mod 10)])"

declare dec.simps [simp del]

lemma digit_char_code: "d < 10 \<Longrightarrow> (of_char (digit_char d) :: nat) = 48 + d"
  unfolding digit_char_def of_char_of by (rule mod_less) simp

lemma digit_char_inj: "a < 10 \<Longrightarrow> b < 10 \<Longrightarrow> digit_char a = digit_char b \<Longrightarrow> a = b"
  by (metis add_left_cancel digit_char_code)

lemma dec_nonempty [simp]: "dec n \<noteq> []"
  by (subst dec.simps) simp

lemma dec_single: "length (dec n) = 1 \<Longrightarrow> n < 10"
  by (rule ccontr) (simp add: dec.simps [of n])

lemma dec_inj: "dec a = dec b \<Longrightarrow> a = b"
proof (induction a arbitrary: b rule: dec.induct)
  case (1 a)
  show ?case
  proof (cases "a < 10")
    case True
    then have "length (dec b) = 1" by (simp add: 1(2) [symmetric] dec.simps [of a])
    then have "b < 10" by (rule dec_single)
    with True 1 show ?thesis by (simp add: dec.simps [of a] dec.simps [of b] digit_char_inj)
  next
    case False
    then have "\<not> b < 10" using 1(2) dec_single [of a] by (auto simp: dec.simps [of b])
    with False 1(2) have "dec (a div 10) = dec (b div 10)" "a mod 10 = b mod 10"
      by (simp_all add: dec.simps [of a] dec.simps [of b] digit_char_inj)
    with 1(1) False have "a div 10 = b div 10" by blast
    with \<open>a mod 10 = b mod 10\<close> show ?thesis by (metis div_mult_mod_eq)
  qed
qed

lemma digit_char_not_colon: "d < 10 \<Longrightarrow> CHR '':'' \<noteq> digit_char d"
proof
  assume d: "d < 10" and eq: "CHR '':'' = digit_char d"
  have "(of_char (CHR '':'') :: nat) = 58" by simp
  with eq digit_char_code [OF d] d show False by simp
qed

lemma dec_no_colon: "CHR '':'' \<notin> set (dec n)"
proof (induction n rule: dec.induct)
  case (1 n)
  then show ?case
    using digit_char_not_colon [of n] digit_char_not_colon [of "n mod 10"]
    by (auto simp: dec.simps [of n])
qed

text \<open>Splitting a string at a separator predicate, as \<open>str::split\<close> does.\<close>

fun split_by :: "(char \<Rightarrow> bool) \<Rightarrow> string \<Rightarrow> string list" where
  "split_by sep [] = [[]]"
| "split_by sep (c # cs) =
     (if sep c then [] # split_by sep cs
      else (case split_by sep cs of [] \<Rightarrow> [[c]] | w # ws \<Rightarrow> (c # w) # ws))"

text \<open>\<open>join\<close> of a slice of strings.\<close>

fun join_with :: "string \<Rightarrow> string list \<Rightarrow> string" where
  "join_with sep [] = []"
| "join_with sep [s] = s"
| "join_with sep (s # t # ts) = s @ sep @ join_with sep (t # ts)"

text \<open>
  Characters.  The predicates and the lower-case map are those of \<open>char\<close> in Rust,
  restricted to the first 256 code points; \<open>len\<close> of a string counts its UTF-8 bytes.
\<close>

abbreviation code_point :: "char \<Rightarrow> nat" where
  "code_point c \<equiv> of_char c"

definition is_ascii_alphanumeric :: "char \<Rightarrow> bool" where
  "is_ascii_alphanumeric c = (let n = code_point c in
     (48 \<le> n \<and> n \<le> 57) \<or> (65 \<le> n \<and> n \<le> 90) \<or> (97 \<le> n \<and> n \<le> 122))"

definition is_alphanumeric :: "char \<Rightarrow> bool" where
  "is_alphanumeric c = (let n = code_point c in is_ascii_alphanumeric c
     \<or> n \<in> {170, 178, 179, 181, 185, 186, 188, 189, 190}
     \<or> (192 \<le> n \<and> n \<noteq> 215 \<and> n \<noteq> 247))"

definition is_whitespace :: "char \<Rightarrow> bool" where
  "is_whitespace c = (let n = code_point c in (9 \<le> n \<and> n \<le> 13) \<or> n \<in> {32, 133, 160})"

definition is_control :: "char \<Rightarrow> bool" where
  "is_control c = (let n = code_point c in n < 32 \<or> (127 \<le> n \<and> n < 160))"

definition to_lower_char :: "char \<Rightarrow> char" where
  "to_lower_char c = (let n = code_point c in
     if (65 \<le> n \<and> n \<le> 90) \<or> (192 \<le> n \<and> n \<le> 222 \<and> n \<noteq> 215) then char_of (n + 32) else c)"

definition to_lowercase :: "string \<Rightarrow> string" where
  "to_lowercase s = map to_lower_char s"

definition to_ascii_lower_char :: "char \<Rightarrow> char" where
  "to_ascii_lower_char c = (let n = code_point c in if 65 \<le> n \<and> n \<le> 90 then char_of (n + 32) else c)"

definition eq_ignore_ascii_case :: "string \<Rightarrow> string \<Rightarrow> bool" where
  "eq_ignore_ascii_case s t = (map to_ascii_lower_char s = map to_ascii_lower_char t)"

definition str_trim :: "string \<Rightarrow> string" where
  "str_trim s = rev (dropWhile is_whitespace (rev (dropWhile is_whitespace s)))"

definition str_len :: "string \<Rightarrow> nat" where
  "str_len s = sum_list (map (\<lambda>c. if code_point c < 128 then 1 else 2) s)"

text \<open>\<open>str::parse::<u64>\<close>: an optional plus sign and decimal digits that fit.\<close>

fun digits_value :: "nat \<Rightarrow> string \<Rightarrow> nat option" where
  "digits_value acc [] = Some acc"
| "digits_value acc (c # cs) =
     (if 48 \<le> code_point c \<and> code_point c \<le> 57
      then digits_value (acc * 10 + (code_point c - 48)) cs else None)"

definition parse_u64 :: "string \<Rightarrow> u64 option" where
  "parse_u64 s = (let ds = (case s of c # cs \<Rightarrow> if c = CHR ''+'' then cs else s | [] \<Rightarrow> [])
     in if ds = [] then None
        else case digits_value 0 ds of Some v \<Rightarrow> if v \<le> u64_max then Some v else None | None \<Rightarrow> None)"

text \<open>Keys sorted and then deduplicated: \<open>sort\<close> followed by \<open>dedup\<close>.\<close>

definition sort_dedup :: "'a :: linorder list \<Rightarrow> 'a list" where
  "sort_dedup xs = remdups_adj (sort xs)"

lemma set_sort_dedup [simp]: "set (sort_dedup xs) = set xs"
  by (simp add: sort_dedup_def)

lemma sorted_sort_dedup: "sorted (sort_dedup xs)"
  by (simp add: sort_dedup_def)

lemma distinct_remdups_adj_sorted: "sorted xs \<Longrightarrow> distinct (remdups_adj xs)"
  by (induction xs rule: remdups_adj.induct) auto

lemma distinct_sort_dedup: "distinct (sort_dedup xs)"
  by (simp add: sort_dedup_def distinct_remdups_adj_sorted)

lemma sort_dedup_empty [simp]: "sort_dedup xs = [] \<longleftrightarrow> xs = []"
  by (metis set_empty set_sort_dedup)


subsection \<open>Invariants of step relations\<close>

text \<open>
  A component's operations form a step relation; what every step keeps holds after
  any sequence of steps.
\<close>

locale step_invariant =
  fixes step :: "'s \<Rightarrow> 's \<Rightarrow> bool" and I :: "'s \<Rightarrow> bool"
  assumes step_keeps: "I s \<Longrightarrow> step s s' \<Longrightarrow> I s'"
begin

lemma reach_keeps:
  assumes "step\<^sup>*\<^sup>* s s'" and "I s"
  shows "I s'"
  using assms by (induction rule: rtranclp_induct) (auto intro: step_keeps)

end

end
