(* ===== verification/Protocol.thy ===== *)
theory Protocol
  imports Prelude
begin

text \<open>
  The wire types of \<^verbatim>\<open>crates/protocol/src/lib.rs\<close>: one record per struct and one
  datatype per enum, in the order of the source.  Field names carry a prefix of
  their struct, because record selectors are global constants.  The functions are
  the ones the crate itself defines: the default settings, the origin of a care
  envelope and the memory frame.
\<close>

subsection \<open>Messages\<close>

datatype SenderType = Agent | User

datatype MessageKind = Say | Announce

record attachment =
  at_id :: string
  at_sha256 :: string
  at_name :: string
  at_mime :: string
  at_size :: u64

record message =
  m_id :: u64
  m_room :: string
  m_sender :: string
  m_sender_type :: SenderType
  m_target :: "string option"
  m_text :: string
  m_kind :: MessageKind
  m_reply_to :: "u64 option"
  m_reply_to_sender :: "string option"
  m_ts :: u64
  m_attachments :: "attachment list"

record member_view =
  mv_name :: string
  mv_kind :: SenderType

record post_message =
  pm_kind :: MessageKind
  pm_sender :: string
  pm_sender_type :: SenderType
  pm_target :: "string option"
  pm_text :: string
  pm_reply_to :: "u64 option"
  pm_op_id :: "string option"
  pm_attachments :: "string list"

record message_reaction =
  re_message_id :: u64
  re_emoji :: string
  re_actors :: "string list"

record message_reaction_event =
  rv_message_id :: u64
  rv_emoji :: string
  rv_actors :: "string list"
  rv_owner :: string
  rv_reactor :: string
  rv_active :: bool
  rv_ts :: u64

subsection \<open>Room state\<close>

datatype ChatMode =
    Free
  | Restricted "string list"
  | RoundRobin "string list" usize
  | Paused

datatype ReminderRecipient = RecLead | RecAll | RecPerson string

record room_settings =
  st_lead :: "string option"
  st_rate_limit :: u32
  st_rate_window_secs :: u32
  st_live :: bool
  st_archived :: bool
  st_live_timeout_secs :: u32
  st_operators :: "string list"
  st_turn_max_messages :: u32
  st_turn_idle_ms :: u32
  st_turn_max_wait_ms :: u32
  st_care_wait_secs :: u32
  st_care_cooldown_secs :: u32
  st_care_max_attempts :: u32
  st_care_context_messages :: u32
  st_care_recipient :: ReminderRecipient
  st_care_goal_secs :: u32
  st_care_task_secs :: u32
  st_care_silence_secs :: u32

definition default_settings_value :: room_settings where
  "default_settings_value =
    \<lparr> st_lead = None, st_rate_limit = 10, st_rate_window_secs = 30, st_live = False,
      st_archived = False, st_live_timeout_secs = 120, st_operators = [],
      st_turn_max_messages = 4, st_turn_idle_ms = 5000, st_turn_max_wait_ms = 15000,
      st_care_wait_secs = 120, st_care_cooldown_secs = 300, st_care_max_attempts = 2,
      st_care_context_messages = 8, st_care_recipient = RecLead, st_care_goal_secs = 0,
      st_care_task_secs = 0, st_care_silence_secs = 0 \<rparr>"

text \<open>The body of a settings update; a field left \<^const>\<open>None\<close> keeps its value.\<close>

record set_settings_body =
  ss_rate_limit :: "u32 option"
  ss_rate_window_secs :: "u32 option"
  ss_live :: "bool option"
  ss_archived :: "bool option"
  ss_live_timeout_secs :: "u32 option"
  ss_operators :: "string list option"
  ss_turn_max_messages :: "u32 option"
  ss_turn_idle_ms :: "u32 option"
  ss_turn_max_wait_ms :: "u32 option"
  ss_care_wait_secs :: "u32 option"
  ss_care_cooldown_secs :: "u32 option"
  ss_care_max_attempts :: "u32 option"
  ss_care_context_messages :: "u32 option"
  ss_care_recipient :: "ReminderRecipient option"
  ss_care_goal_secs :: "u32 option"
  ss_care_task_secs :: "u32 option"
  ss_care_silence_secs :: "u32 option"

subsection \<open>Notes and journal\<close>

record room_note =
  n_key :: string
  n_title :: string
  n_body :: string
  n_can_write :: "string list"
  n_updated_by :: string
  n_updated_at :: u64
  n_rev :: u64

record create_note_body =
  cn_key :: string
  cn_title :: string
  cn_body :: string
  cn_by :: string
  cn_can_write :: "string list"

record update_note_body =
  un_title :: "string option"
  un_body :: "string option"
  un_by :: string
  un_can_write :: "string list option"

record journal_entry =
  j_id :: u64
  j_room :: string
  j_by :: string
  j_by_type :: SenderType
  j_text :: string
  j_at :: u64

subsection \<open>Declared work\<close>

datatype TaskStatus = TaskOpen | TaskTaken | TaskDone | TaskCancelled

record task =
  t_id :: u64
  t_room :: string
  t_title :: string
  t_created_by :: string
  t_from_message :: "u64 option"
  t_assigned_to :: "string option"
  t_status :: TaskStatus
  t_created_at :: u64
  t_progress_at :: u64
  t_closed_at :: "u64 option"

record create_task_body =
  ct_title :: string
  ct_from_message :: "u64 option"
  ct_assigned_to :: "string option"
  ct_by :: string

record update_task_body =
  ut_status :: "TaskStatus option"
  ut_assigned_to :: "string option"
  ut_by :: string

datatype GoalCompletion = Manual | AllTasks

datatype GoalStatus = GoalActive | GoalAchieved | GoalCancelled

record goal =
  g_id :: u64
  g_room :: string
  g_outcome :: string
  g_checkpoint :: "string option"
  g_stale_after_secs :: "u32 option"
  g_created_by :: string
  g_completion :: GoalCompletion
  g_task_ids :: "u64 list"
  g_status :: GoalStatus
  g_created_at :: u64
  g_progress_at :: u64
  g_closed_at :: "u64 option"

record create_goal_body =
  cg_outcome :: string
  cg_checkpoint :: "string option"
  cg_stale_after_secs :: "u32 option"
  cg_completion :: GoalCompletion
  cg_task_ids :: "u64 list"
  cg_by :: string

record update_goal_body =
  ug_outcome :: "string option"
  ug_checkpoint :: "string option"
  ug_stale_after_secs :: "u32 option option"
  ug_completion :: "GoalCompletion option"
  ug_task_ids :: "u64 list option"
  ug_status :: "GoalStatus option"
  ug_by :: string

record wait_state =
  w_room :: string
  w_waiter :: string
  w_waiting_for :: string
  w_reason :: string
  w_since :: u64
  w_last_signal_at :: "u64 option"
  w_signal_count :: u32

record set_wait_body =
  sw_waiting_for :: string
  sw_reason :: string
  sw_by :: string

subsection \<open>Attention and care\<close>

datatype CareReason =
    CareManual
  | DirectSummon
  | WaitOverdue
  | WaitCycle
  | WaitReplied
  | GoalReminder
  | TaskReminder
  | RoomSilence

datatype AttentionAudience = AudLead | AudPerson string | AudGroup "string list"

datatype AttentionStatus = AttOpen | AttClaimed | AttResolved

record attention =
  a_id :: string
  a_room :: string
  a_reason :: CareReason
  a_subject :: string
  a_audience :: AttentionAudience
  a_owner :: "string option"
  a_group :: "string option"
  a_participants :: "string list"
  a_created_by :: string
  a_created_at :: u64
  a_attempt :: u32
  a_escalated :: bool
  a_status :: AttentionStatus
  a_delivered_at :: "u64 option"
  a_claimed_by :: "string option"
  a_claimed_at :: "u64 option"
  a_resolved_at :: "u64 option"

record create_attention_body =
  ca_subject :: string
  ca_audience :: AttentionAudience
  ca_by :: string

datatype ReminderState = Running | Overdue | Stalled

record care_signal =
  c_id :: string
  c_attention_id :: string
  c_room :: string
  c_source_room :: string
  c_reason :: CareReason
  c_audience :: AttentionAudience
  c_owner :: "string option"
  c_owner_principal_id :: "string option"
  c_group :: "string option"
  c_target :: "string option"
  c_participants :: "string list"
  c_subject :: string
  c_created_by :: string
  c_context :: "message list"
  c_attempt :: u32
  c_at :: u64
  c_escalated :: bool
  c_state :: ReminderState

definition origin_room :: "care_signal \<Rightarrow> string" where
  "origin_room s = (if c_source_room s = [] then c_room s else c_source_room s)"

text \<open>
  The \<open>Attention\<close> a care envelope stands for when no ledger row exists yet; the
  hub builds this value with the same fields at every one of its call sites.
\<close>

definition attention_of_signal :: "string \<Rightarrow> string \<Rightarrow> care_signal \<Rightarrow> attention" where
  "attention_of_signal aid room s =
    \<lparr> a_id = aid, a_room = room, a_reason = c_reason s, a_subject = c_subject s,
      a_audience = c_audience s, a_owner = c_owner s, a_group = c_group s,
      a_participants = c_participants s, a_created_by = c_created_by s,
      a_created_at = c_at s, a_attempt = c_attempt s, a_escalated = c_escalated s,
      a_status = AttOpen, a_delivered_at = None, a_claimed_by = None,
      a_claimed_at = None, a_resolved_at = None \<rparr>"

subsection \<open>Moderation\<close>

datatype ModAction = Mute | Unmute | Kick | Ban | Release | Unban

record mod_state =
  ms_muted :: "string list"
  ms_banned :: "string list"

subsection \<open>Loca memory\<close>

datatype LocaMemoryStatus = MemReady | MemAbsent | MemEmpty | MemInconsistent

record loca_memory =
  lm_room :: string
  lm_owner :: "string option"
  lm_short :: string
  lm_long :: string
  lm_short_updated_at :: "u64 option"
  lm_long_updated_at :: "u64 option"
  lm_over_budget :: bool
  lm_version :: u64

record loca_memory_snapshot =
  ls_memory :: loca_memory
  ls_provenance_inconsistent :: bool
  ls_long_truncated :: bool
  ls_long_omitted_bytes :: usize
  ls_long_omitted_entries :: usize
  ls_long_uninjectable_entry_ids :: "u64 list"

record memory_frame =
  mf_room :: string
  mf_owner :: "string option"
  mf_status :: LocaMemoryStatus
  mf_short :: string
  mf_long :: string
  mf_short_updated_at :: "u64 option"
  mf_long_updated_at :: "u64 option"
  mf_over_budget :: bool
  mf_version :: u64
  mf_long_truncated :: bool
  mf_long_omitted_bytes :: usize
  mf_long_omitted_entries :: usize
  mf_long_uninjectable_entries :: usize
  mf_long_uninjectable_entry_ids :: "u64 list"

subsection \<open>Frames pushed to the clients of a room\<close>

datatype ServerFrame =
    FHistory "message list"
  | FMemory memory_frame
  | FMemoryVersion string u64
  | FMsg message
  | FReaction message_reaction_event
  | FCaretaker message
  | FTurn "message list"
  | FMembers "member_view list"
  | FControl string
  | FNote room_note
  | FNoteWarn string string "string list"
  | FMode ChatMode
  | FSettings room_settings
  | FTyping string bool
  | FKicked string bool
  | FEvicted string string u64
  | FMod mod_state
  | FJournal journal_entry
  | FTask task
  | FGoal goal
  | FCare care_signal
  | FAttention attention
  | FWait string "wait_state option"

definition memory_frame_of :: "string \<Rightarrow> loca_memory_snapshot option \<Rightarrow> ServerFrame" where
  "memory_frame_of room snapshot = (case snapshot of
     None \<Rightarrow> FMemory
       \<lparr> mf_room = room, mf_owner = None, mf_status = MemAbsent, mf_short = [], mf_long = [],
         mf_short_updated_at = None, mf_long_updated_at = None, mf_over_budget = False,
         mf_version = 0, mf_long_truncated = False, mf_long_omitted_bytes = 0,
         mf_long_omitted_entries = 0, mf_long_uninjectable_entries = 0,
         mf_long_uninjectable_entry_ids = [] \<rparr>
   | Some s \<Rightarrow>
       (let m = ls_memory s;
            status = (if ls_provenance_inconsistent s then MemInconsistent
                      else if lm_short m = [] \<and> lm_long m = [] then MemEmpty else MemReady)
        in FMemory
          \<lparr> mf_room = lm_room m, mf_owner = lm_owner m, mf_status = status,
            mf_short = lm_short m, mf_long = lm_long m,
            mf_short_updated_at = lm_short_updated_at m,
            mf_long_updated_at = lm_long_updated_at m,
            mf_over_budget = lm_over_budget m, mf_version = lm_version m,
            mf_long_truncated = ls_long_truncated s,
            mf_long_omitted_bytes = ls_long_omitted_bytes s,
            mf_long_omitted_entries = ls_long_omitted_entries s,
            mf_long_uninjectable_entries = length (ls_long_uninjectable_entry_ids s),
            mf_long_uninjectable_entry_ids = ls_long_uninjectable_entry_ids s \<rparr>))"

subsection \<open>Access\<close>

record invite =
  iv_token :: string
  iv_room :: string
  iv_member :: string
  iv_name :: string
  iv_kind :: string
  iv_issued_at :: u64
  iv_issued_by :: string

record membership =
  mb_token :: string
  mb_name :: string
  mb_kind :: string
  mb_joined_at :: u64
  mb_admitted_by :: string

record runtime_health =
  rh_wake :: string
  rh_ack :: string
  rh_delivery_id :: "string option"
  rh_attention_id :: "string option"
  rh_stored :: bool
  rh_accepted :: bool
  rh_first_response :: bool
  rh_final_response :: bool
  rh_turn_completed :: bool
  rh_seen_at :: u64
  rh_progress_at :: u64
  rh_ready :: bool

record runtime_health_update =
  ru_wake :: string
  ru_ack :: string
  ru_delivery_id :: "string option"
  ru_attention_id :: "string option"
  ru_stored :: bool
  ru_accepted :: bool
  ru_first_response :: bool
  ru_final_response :: bool
  ru_turn_completed :: bool

record resident =
  rs_suspended :: bool
  rs_membership_id :: "string option"
  rs_name :: string
  rs_kind :: string
  rs_locas :: "string list"
  rs_online :: bool
  rs_runtime :: "runtime_health option"

end
