(* ===== verification/Wiki_Tables.thy ===== *)
theory Wiki_Tables
  imports Prelude
begin

text \<open>
  The tables of the wiki (\<^verbatim>\<open>crates/server/src/store.rs\<close>, schema) and the structures of
  \<^verbatim>\<open>store/wiki.rs\<close>, \<^verbatim>\<open>store/wiki_maintenance.rs\<close> and \<^verbatim>\<open>store/wiki_context.rs\<close>.  They are one field
  of the database, because the rest of the server only reads past them.
\<close>

subsection \<open>Pages and reviews\<close>

record wiki_page =
  wp_slug :: string
  wp_title :: string
  wp_body :: string
  wp_sources :: "u64 list"
  wp_revision :: u64

record wiki_commit =
  wc_expected_revision :: u64
  wc_reviewed_through :: u64
  wc_reason :: string
  wc_pages :: "wiki_page list"

record wiki_page_edit =
  we_expected_revision :: u64
  we_title :: string
  we_body :: string

record wiki_page_removal =
  wd_expected_revision :: u64
  wd_reason :: string

record wiki_lease =
  wl_batch_id :: u64
  wl_epoch :: u64

record wiki_context_selection =
  wx_slugs :: "string list"
  wx_reason :: string

record wiki_context_ack =
  wa_context_id :: string
  wa_packet_id :: string
  wa_revision :: u64
  wa_selection_version :: u64

subsection \<open>Rows\<close>

record wiki_row =
  wi_editor :: string
  wi_enabled :: bool
  wi_interval :: u64
  wi_revision :: u64
  wi_reviewed_through :: u64
  wi_reviewed_at :: "u64 option"
  wi_edited_at :: "u64 option"

record wiki_page_row =
  gw_title :: string
  gw_body :: string
  gw_sources :: "u64 list"
  gw_revision :: u64

record wiki_history_row =
  hw_title :: string
  hw_body :: string
  hw_sources :: "u64 list"
  hw_editor :: string
  hw_reason :: string
  hw_edited_at :: u64

record wiki_batch_row =
  bw_room :: string
  bw_editor :: string
  bw_after :: u64
  bw_through :: u64
  bw_status :: string
  bw_reason :: string
  bw_created_at :: u64
  bw_epoch :: u64
  bw_attempts :: u64
  bw_expires :: u64

record wiki_receipt_row =
  rw_editor :: string
  rw_request :: wiki_commit
  rw_revision :: u64

record wiki_selection_row =
  vw_slugs :: "string list"
  vw_reason :: string
  vw_version :: u64
  vw_requested_at :: u64

record wiki_context_receipt =
  cw_revision :: u64
  cw_selection_version :: u64
  cw_accepted_at :: u64

subsection \<open>Tables\<close>

text \<open>
  \<open>wk_leases\<close> maps a batch and an epoch to the time it was claimed, \<open>wk_runtime\<close> a room
  and a principal to his runtime and the time of its last heartbeat.  The receipts of
  contexts are in the order of their \<open>rowid\<close>.
\<close>

record wiki_tables =
  wk_config :: "(string, wiki_row) hashmap"
  wk_pages :: "(string \<times> string, wiki_page_row) hashmap"
  wk_history :: "(string \<times> string \<times> u64, wiki_history_row) hashmap"
  wk_batches :: "(u64, wiki_batch_row) hashmap"
  wk_leases :: "(u64 \<times> u64, u64) hashmap"
  wk_receipts :: "(string \<times> u64 \<times> u64, wiki_receipt_row) hashmap"
  wk_runtime :: "(string \<times> string, string \<times> u64) hashmap"
  wk_selection :: "(string \<times> string, wiki_selection_row) hashmap"
  wk_context_receipts :: "(string \<times> string \<times> string \<times> string, wiki_context_receipt) hashmap"

definition empty_wiki :: wiki_tables where
  "empty_wiki = \<lparr> wk_config = [], wk_pages = [], wk_history = [], wk_batches = [], wk_leases = [],
     wk_receipts = [], wk_runtime = [], wk_selection = [], wk_context_receipts = [] \<rparr>"

end
