(* ===== verification/Database.thy ===== *)
theory Database
  imports Protocol Wiki_Tables
begin

text \<open>
  The SQLite database behind \<^verbatim>\<open>crates/server/src/store.rs\<close>: the tables the modelled
  operations use, and what a transaction is.  A table is a hash map from its
  primary key to its row, so \<open>INSERT OR REPLACE\<close> is \<^const>\<open>hm_insert\<close>, an \<open>UPDATE .. WHERE\<close>
  is \<^const>\<open>hm_map\<close> and a \<open>DELETE\<close> by key is \<^const>\<open>hm_remove\<close>.  Columns that hold JSON hold
  the value itself: \<open>serde_json\<close> is not part of the repository.
\<close>

subsection \<open>Rows\<close>

record task_row =
  tr_title :: string
  tr_created_by :: string
  tr_from_message :: "u64 option"
  tr_assigned_to :: "string option"
  tr_status :: string
  tr_created_at :: u64
  tr_progress_at :: u64
  tr_closed_at :: "u64 option"

record goal_row =
  gr_outcome :: string
  gr_checkpoint :: "string option"
  gr_stale_after_secs :: "u32 option"
  gr_created_by :: string
  gr_completion :: string
  gr_task_ids :: "u64 list"
  gr_status :: string
  gr_created_at :: u64
  gr_progress_at :: u64
  gr_closed_at :: "u64 option"

record wait_row =
  wr_waiting_for :: string
  wr_reason :: string
  wr_since :: u64
  wr_last_signal_at :: "u64 option"
  wr_signal_count :: u32

record attention_row =
  ar_room :: string
  ar_signal :: care_signal
  ar_owner :: "string option"
  ar_created_at :: u64
  ar_delivered_at :: "u64 option"
  ar_claimed_by :: "string option"
  ar_claimed_at :: "u64 option"
  ar_resolved_at :: "u64 option"

record outbox_row =
  ob_attention_id :: string
  ob_delivery_room :: string
  ob_owner :: string
  ob_owner_principal_id :: "string option"
  ob_signal :: care_signal
  ob_created_at :: u64
  ob_acked_at :: "u64 option"

record message_row =
  mr_room :: string
  mr_sender :: string
  mr_sender_type :: string
  mr_target :: "string option"
  mr_text :: string
  mr_reply_to :: "u64 option"
  mr_ts :: u64
  mr_kind :: string
  mr_principal :: "string option"
  mr_op_id :: "string option"
  mr_attachments :: "attachment list option"

record room_row =
  rr_mode :: ChatMode
  rr_settings :: room_settings
  rr_sealed_at :: "u64 option"

record pending_row =
  pr_uploader :: string
  pr_name :: string
  pr_mime :: string
  pr_size :: u64
  pr_created_at :: u64

record ref_row =
  rf_name :: string
  rf_mime :: string
  rf_size :: u64
  rf_created_at :: u64

record blob_row =
  bl_mime :: string
  bl_size :: u64
  bl_created_at :: u64

record stock_row =
  sk_minted_by :: string
  sk_created_at :: u64
  sk_expires_at :: u64
  sk_consumed_at :: "u64 option"
  sk_consumed_by_name :: "string option"

record join_row =
  jr_secret_hash :: string
  jr_name :: string
  jr_kind :: string
  jr_status :: string
  jr_created_at :: u64
  jr_decided_by :: "string option"
  jr_decided_at :: "u64 option"
  jr_mb_token :: "string option"
  jr_bootstrap_delivered_at :: "u64 option"
  jr_bootstrap_acked_at :: "u64 option"

record member_row =
  me_name :: string
  me_kind :: string
  me_joined_at :: u64
  me_admitted_by :: string
  me_revoked_at :: "u64 option"

record principal_row =
  pp_display_name :: string
  pp_kind :: string
  pp_building_role :: string
  pp_created_at :: u64
  pp_disabled_at :: "u64 option"

record credential_row =
  cr_principal_id :: string
  cr_label :: string
  cr_secret_hash :: string
  cr_created_at :: u64
  cr_last_used_at :: "u64 option"
  cr_revoked_at :: "u64 option"
  cr_legacy_source :: "string option"

record invite_row =
  in_invite :: invite
  in_revoked_at :: "u64 option"

record smaster_row =
  sm_name :: string
  sm_issued_at :: u64
  sm_revoked_at :: "u64 option"

record principal_session_row =
  ps_principal_id :: string
  ps_credential_id :: string
  ps_created_at :: u64
  ps_expires_at :: u64
  ps_revoked_at :: "u64 option"

record admin_session_row =
  as_name :: string
  as_kind :: string
  as_expires_at :: u64

record operator_row =
  op_room :: string
  op_principal_id :: string
  op_appointed_by_principal_id :: string
  op_appointed_by_role :: string
  op_appointed_at :: u64
  op_revoked_at :: "u64 option"

record memory_row =
  my_owner :: "string option"
  my_owner_principal_id :: "string option"
  my_short :: string
  my_long :: string
  my_short_updated_at :: "u64 option"
  my_long_updated_at :: "u64 option"
  my_version :: u64

record memory_entry_row =
  ey_room :: string
  ey_text :: string
  ey_decided_by :: string
  ey_decided_at :: u64

datatype BuildingRole = Master | Smaster | MemberRole

subsection \<open>Tables\<close>

text \<open>
  \<open>db_tasks\<close>, \<open>db_goals\<close>, \<open>db_waits\<close> and \<open>db_care_marks\<close> are keyed by the room and the
  object, as their \<open>PRIMARY KEY\<close> clauses say; \<open>db_attentions\<close>, \<open>db_outbox\<close> and
  \<open>db_messages\<close> are keyed by a global id.
\<close>

record db =
  db_messages :: "(u64, message_row) hashmap"
  db_notes :: "(string \<times> string, room_note) hashmap"
  db_note_revisions :: "(string \<times> string \<times> u64, room_note) hashmap"
  db_tasks :: "(string \<times> u64, task_row) hashmap"
  db_goals :: "(string \<times> u64, goal_row) hashmap"
  db_waits :: "(string \<times> string, wait_row) hashmap"
  db_care_marks :: "(string \<times> string, u64 \<times> u32) hashmap"
  db_outbox :: "(string, outbox_row) hashmap"
  db_attentions :: "(string, attention_row) hashmap"
  db_rooms :: "(string, room_row) hashmap"
  db_journal :: "(string \<times> u64, journal_entry) hashmap"
  db_invites :: "(string, invite_row) hashmap"
  db_members :: "(string, member_row) hashmap"
  db_bans :: "(string \<times> string \<times> string, u64) hashmap"
  db_suspensions :: "(string, u64 \<times> string) hashmap"
  db_stock :: "(string, stock_row) hashmap"
  db_join_requests :: "(string, join_row) hashmap"
  db_pending :: "(string \<times> string, pending_row) hashmap"
  db_refs :: "(string \<times> u64 \<times> string, ref_row) hashmap"
  db_blobs :: "(string, blob_row) hashmap"
  db_principals :: "(string, principal_row) hashmap"
  db_credentials :: "(string, credential_row) hashmap"
  db_reactions :: "(string \<times> u64 \<times> string \<times> string, string \<times> u64) hashmap"
  db_smasters :: "(string, smaster_row) hashmap"
  db_principal_sessions :: "(string, principal_session_row) hashmap"
  db_admin_sessions :: "(string, admin_session_row) hashmap"
  db_operators :: "(u64, operator_row) hashmap"
  db_memory :: "(string, memory_row) hashmap"
  db_memory_entries :: "(u64, memory_entry_row) hashmap"
  db_wiki :: wiki_tables

definition empty_db :: db where
  "empty_db =
    \<lparr> db_messages = [], db_notes = [], db_note_revisions = [], db_tasks = [], db_goals = [],
      db_waits = [], db_care_marks = [], db_outbox = [], db_attentions = [], db_rooms = [],
      db_journal = [], db_invites = [], db_members = [], db_bans = [], db_suspensions = [],
      db_stock = [], db_join_requests = [], db_pending = [], db_refs = [], db_blobs = [],
      db_principals = [], db_credentials = [], db_reactions = [],
      db_smasters = [], db_principal_sessions = [], db_admin_sessions = [], db_operators = [],
      db_memory = [], db_memory_entries = [], db_wiki = empty_wiki \<rparr>"

subsection \<open>Transactions\<close>

text \<open>
  \<open>Store\<close> holds an optional connection (\<open>None\<close> is the memory-only server, whose
  writes succeed without doing anything).  Whether SQLite can complete a
  transaction is not up to the program: \<open>sto_faults\<close> lists the outcomes of the
  coming transactions (\<^const>\<open>True\<close> is a failure; past the end everything works), so
  a statement over all stores covers every pattern of storage failures.  A failed
  transaction, or one whose body returns an error, rolls back.
\<close>

datatype sql_error = SqliteFailure | InvalidParameterName string | InvalidQuery
  | StatementChangedRows nat | ConstraintViolation

record store =
  sto_conn :: "db option"
  sto_faults :: "bool list"

definition is_persistent :: "store \<Rightarrow> bool" where
  "is_persistent s = (sto_conn s \<noteq> None)"

definition run_txn ::
  "'a \<Rightarrow> (db \<Rightarrow> (sql_error, 'a \<times> db) result) \<Rightarrow> store \<Rightarrow> (sql_error, 'a) result \<times> store" where
  "run_txn memory_only body s = (case sto_conn s of
     None \<Rightarrow> (Ok memory_only, s)
   | Some d \<Rightarrow>
       (case sto_faults s of
          True # fs \<Rightarrow> (Err SqliteFailure, s\<lparr>sto_faults := fs\<rparr>)
        | fs \<Rightarrow>
            (case body d of
               Inl e \<Rightarrow> (Err e, s\<lparr>sto_faults := tl fs\<rparr>)
             | Inr (x, d') \<Rightarrow> (Ok x, s\<lparr>sto_conn := Some d', sto_faults := tl fs\<rparr>))))"

text \<open>A transaction whose body cannot fail by itself.\<close>

definition run_write :: "(db \<Rightarrow> db) \<Rightarrow> store \<Rightarrow> (sql_error, unit) result \<times> store" where
  "run_write f = run_txn () (\<lambda>d. Ok ((), f d))"

text \<open>
  A transaction whose body answers with an error type of its own: \<open>offline\<close> is the
  answer of a memory-only store and \<open>storage\<close> the one when SQLite fails.
\<close>

definition answer_txn ::
  "'e \<Rightarrow> 'e \<Rightarrow> (db \<Rightarrow> ('e, 'a \<times> db) result) \<Rightarrow> store \<Rightarrow> ('e, 'a) result \<times> store" where
  "answer_txn offline storage body s = (case sto_conn s of
     None \<Rightarrow> (Err offline, s)
   | Some d \<Rightarrow>
       (case sto_faults s of
          True # fs \<Rightarrow> (Err storage, s\<lparr>sto_faults := fs\<rparr>)
        | fs \<Rightarrow>
            (case body d of
               Inl e \<Rightarrow> (Err e, s\<lparr>sto_faults := tl fs\<rparr>)
             | Inr (x, d') \<Rightarrow> (Ok x, s\<lparr>sto_conn := Some d', sto_faults := tl fs\<rparr>))))"

lemma answer_txn_okD:
  "answer_txn o' st body s = (Ok x, s') \<Longrightarrow>
     \<exists>d d'. sto_conn s = Some d \<and> body d = Ok (x, d') \<and> sto_conn s' = Some d'"
  by (auto simp: answer_txn_def split: option.splits list.splits bool.splits sum.splits)

lemma answer_txn_errD: "answer_txn o' st body s = (Err e, s') \<Longrightarrow> sto_conn s' = sto_conn s"
  by (auto simp: answer_txn_def split: option.splits list.splits bool.splits sum.splits)

lemma answer_txn_err_body:
  "answer_txn o' st body s = (Err e, s') \<Longrightarrow>
     e = o' \<and> sto_conn s = None \<or> e = st \<or> (\<exists>d. sto_conn s = Some d \<and> body d = Err e)"
  by (auto simp: answer_txn_def split: option.splits list.splits bool.splits sum.splits)

lemma answer_txn_no_fault:
  "sto_conn s = Some d \<Longrightarrow> sto_faults s = [] \<Longrightarrow> body d = Ok (x, d') \<Longrightarrow>
     answer_txn o' st body s = (Ok x, s\<lparr>sto_conn := Some d'\<rparr>)"
  by (cases s) (simp add: answer_txn_def)

lemma run_txn_err_keeps_db: "run_txn v body s = (Err e, s') \<Longrightarrow> sto_conn s' = sto_conn s"
  by (auto simp: run_txn_def split: option.splits list.splits bool.splits sum.splits)

lemma run_txn_ok_memory_only:
  "sto_conn s = None \<Longrightarrow> run_txn v body s = (Ok v, s)"
  by (simp add: run_txn_def)

lemma run_txn_okD:
  "run_txn v body s = (Ok x, s') \<Longrightarrow> sto_conn s = Some d \<Longrightarrow>
     \<exists>d'. body d = Ok (x, d') \<and> sto_conn s' = Some d'"
  by (auto simp: run_txn_def split: list.splits bool.splits sum.splits)

lemma run_write_okD:
  "run_write f s = (Ok u, s') \<Longrightarrow> sto_conn s' = map_option f (sto_conn s)"
  by (auto simp: run_write_def run_txn_def split: option.splits list.splits bool.splits)

lemma run_write_errD: "run_write f s = (Err e, s') \<Longrightarrow> sto_conn s' = sto_conn s"
  by (simp add: run_write_def run_txn_err_keeps_db)

lemma run_txn_persistent:
  "run_txn v body s = (r, s') \<Longrightarrow> is_persistent s' = is_persistent s"
  by (auto simp: run_txn_def is_persistent_def
      split: option.splits list.splits bool.splits sum.splits)

lemma run_write_no_fault:
  "sto_faults s = [] \<Longrightarrow> run_write f s = (Ok (), s\<lparr>sto_conn := map_option f (sto_conn s)\<rparr>)"
  by (cases s) (auto simp: run_write_def run_txn_def split: option.splits)

text \<open>
  What the hub relies on when it writes through: an operation of the store that
  reports an error has left the durable tables as they were, and a memory-only
  store never reports one.
\<close>

locale durable_write =
  fixes op :: "store \<Rightarrow> (sql_error, 'a) result \<times> store"
  assumes err_rolls_back: "op s = (Err e, s') \<Longrightarrow> sto_conn s' = sto_conn s"
    and memory_only_ok: "sto_conn s = None \<Longrightarrow> \<exists>x. op s = (Ok x, s)"
begin

lemma failed_write_keeps_rows:
  assumes "op s = (r, s')" and "\<not> is_ok r"
  shows "sto_conn s' = sto_conn s"
  using assms err_rolls_back by (cases r) auto

lemma memory_only_never_fails: "sto_conn s = None \<Longrightarrow> is_ok (fst (op s))"
  using memory_only_ok by (metis fst_conv is_ok_simps(1))

end

interpretation txn: durable_write "run_txn v body" for v body
  by unfold_locales (auto simp: run_txn_err_keeps_db run_txn_ok_memory_only)

interpretation wr: durable_write "run_write f" for f
  by unfold_locales (auto simp: run_write_errD run_write_def run_txn_ok_memory_only)

end
