(* ===== verification/Store_Work.thy ===== *)
theory Store_Work
  imports Store_Attention
begin

text \<open>
  \<^verbatim>\<open>crates/server/src/store/work.rs\<close>: tasks, goals and waits on disk.  Status and
  completion are stored as text, so the read side parses what the write side
  printed; the round trips are proved here.
\<close>

subsection \<open>Text encodings\<close>

definition task_status_str :: "TaskStatus \<Rightarrow> string" where
  "task_status_str st = (case st of TaskOpen \<Rightarrow> ''open'' | TaskTaken \<Rightarrow> ''taken''
     | TaskDone \<Rightarrow> ''done'' | TaskCancelled \<Rightarrow> ''cancelled'')"

definition parse_task_status :: "string \<Rightarrow> TaskStatus" where
  "parse_task_status s = (if s = ''taken'' then TaskTaken else if s = ''done'' then TaskDone
     else if s = ''cancelled'' then TaskCancelled else TaskOpen)"

definition goal_completion_str :: "GoalCompletion \<Rightarrow> string" where
  "goal_completion_str c = (case c of Manual \<Rightarrow> ''manual'' | AllTasks \<Rightarrow> ''all_tasks'')"

definition parse_goal_completion :: "string \<Rightarrow> GoalCompletion" where
  "parse_goal_completion s = (if s = ''all_tasks'' then AllTasks else Manual)"

definition goal_status_str :: "GoalStatus \<Rightarrow> string" where
  "goal_status_str st = (case st of GoalActive \<Rightarrow> ''active'' | GoalAchieved \<Rightarrow> ''achieved''
     | GoalCancelled \<Rightarrow> ''cancelled'')"

definition parse_goal_status :: "string \<Rightarrow> GoalStatus" where
  "parse_goal_status s = (if s = ''achieved'' then GoalAchieved
     else if s = ''cancelled'' then GoalCancelled else GoalActive)"

subsection \<open>Writes\<close>

definition task_to_row :: "task \<Rightarrow> task_row" where
  "task_to_row t =
    \<lparr> tr_title = t_title t, tr_created_by = t_created_by t, tr_from_message = t_from_message t,
      tr_assigned_to = t_assigned_to t, tr_status = task_status_str (t_status t),
      tr_created_at = t_created_at t, tr_progress_at = t_progress_at t,
      tr_closed_at = t_closed_at t \<rparr>"

definition write_task :: "task \<Rightarrow> db \<Rightarrow> db" where
  "write_task t d = d\<lparr>db_tasks := hm_insert (t_room t, t_id t) (task_to_row t) (db_tasks d)\<rparr>"

definition goal_to_row :: "goal \<Rightarrow> goal_row" where
  "goal_to_row g =
    \<lparr> gr_outcome = g_outcome g, gr_checkpoint = g_checkpoint g,
      gr_stale_after_secs = g_stale_after_secs g, gr_created_by = g_created_by g,
      gr_completion = goal_completion_str (g_completion g), gr_task_ids = g_task_ids g,
      gr_status = goal_status_str (g_status g), gr_created_at = g_created_at g,
      gr_progress_at = g_progress_at g, gr_closed_at = g_closed_at g \<rparr>"

text \<open>
  \<open>INSERT OR REPLACE\<close> deletes every row that conflicts with the new one on a unique
  index; besides the primary key there is \<open>goals_one_active\<close>, so writing an active
  goal removes any other active goal of the room.
\<close>

definition write_goal :: "goal \<Rightarrow> db \<Rightarrow> db" where
  "write_goal g d = d\<lparr>db_goals := hm_insert (g_room g, g_id g) (goal_to_row g)
     (hm_retain (\<lambda>(room, i) r. \<not> (g_status g = GoalActive \<and> room = g_room g \<and> i \<noteq> g_id g
          \<and> gr_status r = ''active'')) (db_goals d))\<rparr>"

definition upsert_task :: "task \<Rightarrow> store \<Rightarrow> (sql_error, unit) result \<times> store" where
  "upsert_task t = run_write (write_task t)"

definition upsert_goal :: "goal \<Rightarrow> store \<Rightarrow> (sql_error, unit) result \<times> store" where
  "upsert_goal g = run_write (write_goal g)"

definition goal_care_write :: "goal \<Rightarrow> bool \<Rightarrow> db \<Rightarrow> db" where
  "goal_care_write g clear_care d =
     (let d1 = write_goal g d
      in if clear_care then retire_condition (g_room g) (''goal:'' @ dec (g_id g)) (g_progress_at g) d1
         else d1)"

definition upsert_goal_with_care_reset ::
  "goal \<Rightarrow> bool \<Rightarrow> store \<Rightarrow> (sql_error, unit) result \<times> store" where
  "upsert_goal_with_care_reset g clear_care = run_write (goal_care_write g clear_care)"

definition task_goal_write :: "task \<Rightarrow> goal option \<Rightarrow> bool \<Rightarrow> db \<Rightarrow> db" where
  "task_goal_write t goal clear_task_care d =
     (let d1 = write_task t d;
          d2 = (case goal of None \<Rightarrow> d1 | Some g \<Rightarrow> write_goal g d1);
          d3 = (if clear_task_care
                then retire_condition (t_room t) (''task:'' @ dec (t_id t)) (t_progress_at t) d2 else d2)
      in case goal of None \<Rightarrow> d3
         | Some g \<Rightarrow> retire_condition (g_room g) (''goal:'' @ dec (g_id g)) (g_progress_at g) d3)"

definition upsert_task_with_goal_progress ::
  "task \<Rightarrow> goal option \<Rightarrow> bool \<Rightarrow> store \<Rightarrow> (sql_error, unit) result \<times> store" where
  "upsert_task_with_goal_progress t goal clear_task_care = run_write (task_goal_write t goal clear_task_care)"

definition wait_care_write :: "wait_state \<Rightarrow> u64 \<Rightarrow> db \<Rightarrow> db" where
  "wait_care_write w at d =
     db_resolve_wait_attentions (w_room w) (w_waiter w) at
       (delete_mark (w_room w) (''wait:'' @ w_waiter w) (write_wait w d))"

definition replace_wait_with_care ::
  "wait_state \<Rightarrow> u64 \<Rightarrow> store \<Rightarrow> (sql_error, unit) result \<times> store" where
  "replace_wait_with_care w at = run_write (wait_care_write w at)"

definition wait_delete_write :: "string \<Rightarrow> string \<Rightarrow> u64 \<Rightarrow> db \<Rightarrow> db" where
  "wait_delete_write room waiter at d =
     db_resolve_wait_attentions room waiter at
       (delete_mark room (''wait:'' @ waiter)
         (d\<lparr>db_waits := hm_remove (room, waiter) (db_waits d)\<rparr>))"

definition store_delete_wait ::
  "string \<Rightarrow> string \<Rightarrow> u64 \<Rightarrow> store \<Rightarrow> (sql_error, unit) result \<times> store" where
  "store_delete_wait room waiter at = run_write (wait_delete_write room waiter at)"

subsection \<open>Reads\<close>

definition row_to_task :: "string \<Rightarrow> u64 \<Rightarrow> task_row \<Rightarrow> task" where
  "row_to_task room i r =
    \<lparr> t_id = i, t_room = room, t_title = tr_title r, t_created_by = tr_created_by r,
      t_from_message = tr_from_message r, t_assigned_to = tr_assigned_to r,
      t_status = parse_task_status (tr_status r), t_created_at = tr_created_at r,
      t_progress_at = tr_progress_at r, t_closed_at = tr_closed_at r \<rparr>"

definition load_tasks :: "store \<Rightarrow> string \<Rightarrow> task list" where
  "load_tasks s room = (case sto_conn s of None \<Rightarrow> []
     | Some d \<Rightarrow> map (\<lambda>((_, i), r). row_to_task room i r)
         (sort_key (\<lambda>((_, i), _). i) (filter (\<lambda>((rm, _), _). rm = room) (db_tasks d))))"

definition row_to_goal :: "string \<Rightarrow> u64 \<Rightarrow> goal_row \<Rightarrow> goal" where
  "row_to_goal room i r =
    \<lparr> g_id = i, g_room = room, g_outcome = gr_outcome r, g_checkpoint = gr_checkpoint r,
      g_stale_after_secs = gr_stale_after_secs r, g_created_by = gr_created_by r,
      g_completion = parse_goal_completion (gr_completion r), g_task_ids = gr_task_ids r,
      g_status = parse_goal_status (gr_status r), g_created_at = gr_created_at r,
      g_progress_at = gr_progress_at r, g_closed_at = gr_closed_at r \<rparr>"

definition load_goals :: "store \<Rightarrow> string \<Rightarrow> goal list" where
  "load_goals s room = (case sto_conn s of None \<Rightarrow> []
     | Some d \<Rightarrow> map (\<lambda>((_, i), r). row_to_goal room i r)
         (sort_key (\<lambda>((_, i), _). i) (filter (\<lambda>((rm, _), _). rm = room) (db_goals d))))"

definition row_to_wait :: "string \<Rightarrow> string \<Rightarrow> wait_row \<Rightarrow> wait_state" where
  "row_to_wait room waiter r =
    \<lparr> w_room = room, w_waiter = waiter, w_waiting_for = wr_waiting_for r, w_reason = wr_reason r,
      w_since = wr_since r, w_last_signal_at = wr_last_signal_at r,
      w_signal_count = wr_signal_count r \<rparr>"

definition load_waits :: "store \<Rightarrow> string \<Rightarrow> wait_state list" where
  "load_waits s room = (case sto_conn s of None \<Rightarrow> []
     | Some d \<Rightarrow> map (\<lambda>((_, w), r). row_to_wait room w r)
         (sort_key (\<lambda>((_, w), _). w) (filter (\<lambda>((rm, _), _). rm = room) (db_waits d))))"

subsection \<open>Round trips\<close>

lemma task_status_roundtrip [simp]: "parse_task_status (task_status_str st) = st"
  by (cases st) (simp_all add: parse_task_status_def task_status_str_def)

lemma goal_completion_roundtrip [simp]: "parse_goal_completion (goal_completion_str c) = c"
  by (cases c) (simp_all add: parse_goal_completion_def goal_completion_str_def)

lemma goal_status_roundtrip [simp]: "parse_goal_status (goal_status_str st) = st"
  by (cases st) (simp_all add: parse_goal_status_def goal_status_str_def)

lemma goal_status_str_active [simp]: "goal_status_str st = ''active'' \<longleftrightarrow> st = GoalActive"
  by (cases st) (simp_all add: goal_status_str_def)

lemma row_to_task_of_row [simp]: "row_to_task (t_room t) (t_id t) (task_to_row t) = t"
  by (cases t) (simp add: row_to_task_def task_to_row_def)

lemma row_to_goal_of_row [simp]: "row_to_goal (g_room g) (g_id g) (goal_to_row g) = g"
  by (cases g) (simp add: row_to_goal_def goal_to_row_def)

lemma row_to_wait_of_row [simp]: "row_to_wait (w_room w) (w_waiter w) (wait_to_row w) = w"
  by (cases w) (simp add: row_to_wait_def wait_to_row_def)

subsection \<open>What the work writes leave alone\<close>

lemma delete_mark_frame [simp]:
  "db_tasks (delete_mark room key d) = db_tasks d" "db_goals (delete_mark room key d) = db_goals d"
  "db_waits (delete_mark room key d) = db_waits d"
  by (simp_all add: delete_mark_def)

lemma write_wait_frame [simp]:
  "db_tasks (write_wait w d) = db_tasks d" "db_goals (write_wait w d) = db_goals d"
  by (simp_all add: write_wait_def)

lemma write_task_frame [simp]:
  "db_goals (write_task t d) = db_goals d" "db_waits (write_task t d) = db_waits d"
  by (simp_all add: write_task_def)

lemma write_goal_frame [simp]:
  "db_tasks (write_goal g d) = db_tasks d" "db_waits (write_goal g d) = db_waits d"
  by (simp_all add: write_goal_def)

lemma retire_condition_frame [simp]:
  "db_tasks (retire_condition room key at d) = db_tasks d"
  "db_goals (retire_condition room key at d) = db_goals d"
  "db_waits (retire_condition room key at d) = db_waits d"
  by (simp_all add: retire_condition_def Let_def ack_rows_def resolve_rows_def delete_mark_def)

lemma resolve_cycle_id_frame [simp]:
  "db_tasks (resolve_cycle_id room at i d) = db_tasks d"
  "db_goals (resolve_cycle_id room at i d) = db_goals d"
  "db_waits (resolve_cycle_id room at i d) = db_waits d"
  by (simp_all add: resolve_cycle_id_def ack_rows_def resolve_rows_def delete_mark_def
      split: option.split)

lemma fold_resolve_cycle_id_frame [simp]:
  "db_tasks (fold (resolve_cycle_id room at) ids d) = db_tasks d"
  "db_goals (fold (resolve_cycle_id room at) ids d) = db_goals d"
  "db_waits (fold (resolve_cycle_id room at) ids d) = db_waits d"
  by (induction ids arbitrary: d) simp_all

lemma db_resolve_wait_attentions_frame [simp]:
  "db_tasks (db_resolve_wait_attentions room waiter at d) = db_tasks d"
  "db_goals (db_resolve_wait_attentions room waiter at d) = db_goals d"
  "db_waits (db_resolve_wait_attentions room waiter at d) = db_waits d"
  by (simp_all add: db_resolve_wait_attentions_def Let_def ack_rows_def resolve_rows_def)

end
