(* ===== verification/Hub_State.thy ===== *)
theory Hub_State
  imports Store_Work
begin

text \<open>
  The in-memory state of \<^verbatim>\<open>crates/server/src/hub.rs\<close>: \<open>Room\<close> and \<open>Hub\<close> with every field
  the modelled operations touch, the constructor of a room and the helpers every
  operation uses.  The broadcast channel \<open>tx\<close> of a room is the list of the frames
  sent on it so far, oldest first.  The operating system's random source is the
  field \<open>h_rng\<close> (the hexadecimal strings it will deliver), and the clock reading is
  an argument \<open>now\<close> of the operations that read it.
\<close>

subsection \<open>Rooms\<close>

record care_mark =
  ck_last_signal_at :: u64
  ck_signal_count :: u32

record room =
  r_history :: "message list"
  r_operations :: "(string \<times> string, message) hashmap"
  r_operation_order :: "(string \<times> string) list"
  r_tx :: "ServerFrame list"
  r_members :: "(string, string \<times> SenderType \<times> usize) hashmap"
  r_notes :: "(string, room_note) hashmap"
  r_journal :: "journal_entry list"
  r_next_journal_id :: u64
  r_next_rev :: u64
  r_mode :: ChatMode
  r_settings :: room_settings
  r_post_times :: "(string, u64 list) hashmap"
  r_muted :: "string hashset"
  r_banned :: "string hashset"
  r_last_msg_ms :: u64
  r_tasks :: "(u64, task) hashmap"
  r_next_task_id :: u64
  r_goals :: "(u64, goal) hashmap"
  r_next_goal_id :: u64
  r_waits :: "(string, wait_state) hashmap"
  r_care_marks :: "(string, care_mark) hashmap"
  r_attentions :: "(string, attention) hashmap"

definition room_with :: "ChatMode \<Rightarrow> room_settings \<Rightarrow> u64 \<Rightarrow> room" where
  "room_with mode settings next_rev =
    \<lparr> r_history = [], r_operations = [], r_operation_order = [], r_tx = [], r_members = [],
      r_notes = [], r_journal = [], r_next_journal_id = 1, r_next_rev = next_rev, r_mode = mode,
      r_settings = settings, r_post_times = [], r_muted = [], r_banned = [], r_last_msg_ms = 0,
      r_tasks = [], r_next_task_id = 1, r_goals = [], r_next_goal_id = 1, r_waits = [],
      r_care_marks = [], r_attentions = [] \<rparr>"

definition member_list :: "room \<Rightarrow> member_view list" where
  "member_list r = sort_key mv_name
     (map (\<lambda>(name, kind, _). \<lparr> mv_name = name, mv_kind = kind \<rparr>) (hm_values (r_members r)))"

definition send :: "ServerFrame \<Rightarrow> room \<Rightarrow> room" where
  "send f r = r\<lparr>r_tx := r_tx r @ [f]\<rparr>"

subsection \<open>The hub\<close>

record runtime_record =
  rt_wake :: string
  rt_ack :: string
  rt_delivery_id :: "string option"
  rt_attention_id :: "string option"
  rt_stored :: bool
  rt_accepted :: bool
  rt_first_response :: bool
  rt_final_response :: bool
  rt_turn_completed :: bool
  rt_seen_at :: u64
  rt_progress_at :: u64

record session_identity =
  si_principal_id :: "string option"
  si_building_role :: BuildingRole
  si_name :: string
  si_kind :: SenderType
  si_loca :: "string option"
  si_member :: "string option"
  si_admin :: bool
  si_expires_at :: u64

record admin_pairing =
  ap_code :: string
  ap_session_ttl_ms :: u64
  ap_expires_at_ms :: u64

datatype LobbyEvent =
    Called string string string
  | MembershipRevoked string
  | MembershipSuspended string

record hub =
  h_rooms :: "(string, room) hashmap"
  h_deleted :: "string hashset"
  h_next_id :: u64
  h_condition_generation :: u64
  h_admin_token :: string
  h_room_token :: string
  h_store :: store
  h_default_settings :: room_settings
  h_members :: "(string, membership) hashmap"
  h_smasters :: "(string, string) hashmap"
  h_sessions :: "(string, session_identity) hashmap"
  h_admin_pairing :: admin_pairing
  h_join_create_times :: "(string, u64 list) hashmap"
  h_require_sessions :: bool
  h_require_invite :: bool
  h_invites :: "(string, invite) hashmap"
  h_lobby_tx :: "LobbyEvent list"
  h_lobby_online :: "(string, usize) hashmap"
  h_runtime_health :: "(string, runtime_record) hashmap"
  h_care_deliveries :: "(string, string) hashmap"
  h_home_room :: string
  h_reserved_room :: string
  h_caretakers :: "string hashset"
  h_rng :: "nat \<Rightarrow> string"

definition HISTORY_LIMIT :: nat where
  "HISTORY_LIMIT = 200"

definition LOCA_KAPASITE :: nat where
  "LOCA_KAPASITE = 7"

text \<open>\<open>room_mut\<close>: the room, created with the defaults when it does not exist.\<close>

definition room_mut :: "string \<Rightarrow> hub \<Rightarrow> room" where
  "room_mut name h = (case hm_get (h_rooms h) name of
     Some r \<Rightarrow> r | None \<Rightarrow> room_with Free (h_default_settings h) 1)"

definition put_room :: "string \<Rightarrow> room \<Rightarrow> hub \<Rightarrow> hub" where
  "put_room name r h = h\<lparr>h_rooms := hm_insert name r (h_rooms h)\<rparr>"

definition get_room :: "hub \<Rightarrow> string \<Rightarrow> room option" where
  "get_room h name = hm_get (h_rooms h) name"

definition is_deleted :: "hub \<Rightarrow> string \<Rightarrow> bool" where
  "is_deleted h room = (room \<noteq> h_home_room h \<and> room \<in> set (h_deleted h))"

definition is_archived :: "hub \<Rightarrow> string \<Rightarrow> bool" where
  "is_archived h room = (case get_room h room of None \<Rightarrow> False | Some r \<Rightarrow> st_archived (r_settings r))"

definition is_writable :: "hub \<Rightarrow> string \<Rightarrow> bool" where
  "is_writable h room = (\<not> is_deleted h room \<and> \<not> is_archived h room)"

definition secure_token :: "string \<Rightarrow> hub \<Rightarrow> string \<times> hub" where
  "secure_token prefix h = (prefix @ h_rng h 0, h\<lparr>h_rng := \<lambda>n. h_rng h (Suc n)\<rparr>)"

text \<open>
  The monotonic product-state generation.  Every caller holds the lock on the
  rooms, so the compare-and-exchange succeeds on the value it has just read.
\<close>

definition next_condition_generation :: "u64 \<Rightarrow> u64 \<Rightarrow> hub \<Rightarrow> u64 \<times> hub" where
  "next_condition_generation now previous h =
     (let floor_v = max now (u64_saturating_add previous 1);
          next_v = max floor_v (u64_saturating_add (h_condition_generation h) 1)
      in (next_v, h\<lparr>h_condition_generation := next_v\<rparr>))"

text \<open>A store call inside an operation of the hub.\<close>

definition with_store :: "(store \<Rightarrow> 'r \<times> store) \<Rightarrow> hub \<Rightarrow> 'r \<times> hub" where
  "with_store f h = (let (r, s) = f (h_store h) in (r, h\<lparr>h_store := s\<rparr>))"

subsection \<open>Laws of the helpers\<close>

lemma get_room_put [simp]:
  "get_room (put_room n r h) m = (if m = n then Some r else get_room h m)"
  by (simp add: get_room_def put_room_def)

lemma put_room_frame [simp]:
  "h_deleted (put_room n r h) = h_deleted h" "h_next_id (put_room n r h) = h_next_id h"
  "h_condition_generation (put_room n r h) = h_condition_generation h"
  "h_store (put_room n r h) = h_store h" "h_home_room (put_room n r h) = h_home_room h"
  "h_default_settings (put_room n r h) = h_default_settings h"
  "h_members (put_room n r h) = h_members h" "h_invites (put_room n r h) = h_invites h"
  "h_sessions (put_room n r h) = h_sessions h" "h_rng (put_room n r h) = h_rng h"
  "h_caretakers (put_room n r h) = h_caretakers h"
  "h_care_deliveries (put_room n r h) = h_care_deliveries h"
  "h_runtime_health (put_room n r h) = h_runtime_health h"
  "h_admin_token (put_room n r h) = h_admin_token h"
  "h_room_token (put_room n r h) = h_room_token h"
  "h_reserved_room (put_room n r h) = h_reserved_room h"
  "h_require_invite (put_room n r h) = h_require_invite h"
  "h_smasters (put_room n r h) = h_smasters h"
  by (simp_all add: put_room_def)

lemma hm_ok_put_room [simp, intro]: "hm_ok (h_rooms h) \<Longrightarrow> hm_ok (h_rooms (put_room n r h))"
  by (simp add: put_room_def)

lemma room_mut_present [simp]: "get_room h n = Some r \<Longrightarrow> room_mut n h = r"
  by (simp add: room_mut_def get_room_def)

lemma send_frame [simp]:
  "r_tasks (send f r) = r_tasks r" "r_goals (send f r) = r_goals r" "r_waits (send f r) = r_waits r"
  "r_settings (send f r) = r_settings r" "r_attentions (send f r) = r_attentions r"
  "r_care_marks (send f r) = r_care_marks r" "r_members (send f r) = r_members r"
  "r_history (send f r) = r_history r" "r_mode (send f r) = r_mode r"
  "r_next_task_id (send f r) = r_next_task_id r" "r_next_goal_id (send f r) = r_next_goal_id r"
  "r_notes (send f r) = r_notes r" "r_next_rev (send f r) = r_next_rev r"
  "r_journal (send f r) = r_journal r" "r_next_journal_id (send f r) = r_next_journal_id r"
  "r_muted (send f r) = r_muted r" "r_banned (send f r) = r_banned r"
  "r_last_msg_ms (send f r) = r_last_msg_ms r" "r_post_times (send f r) = r_post_times r"
  "r_operations (send f r) = r_operations r" "r_operation_order (send f r) = r_operation_order r"
  "r_tx (send f r) = r_tx r @ [f]"
  by (simp_all add: send_def)

lemma with_store_frame:
  "with_store f h = (r, h') \<Longrightarrow> h' = h\<lparr>h_store := h_store h'\<rparr>"
  by (auto simp: with_store_def split: prod.splits)

lemma with_storeE:
  assumes "with_store f h = (r, h')"
  obtains s where "f (h_store h) = (r, s)" and "h' = h\<lparr>h_store := s\<rparr>"
  using assms by (auto simp: with_store_def split: prod.splits)

lemma with_store_rooms:
  assumes "with_store f h = (r, h')"
  shows "h_rooms h' = h_rooms h" and "get_room h' n = get_room h n" and "room_mut n h' = room_mut n h"
    and "h_condition_generation h' = h_condition_generation h"
  using assms by (auto simp: with_store_def get_room_def room_mut_def split: prod.splits option.split)

lemma with_store_store:
  "with_store f h = (r, h') \<Longrightarrow> f (h_store h) = (r, h_store h')"
  by (auto simp: with_store_def split: prod.splits)

lemma next_condition_generation_ge:
  "next_condition_generation now previous h = (g, h') \<Longrightarrow>
     now \<le> g \<and> h_condition_generation h' = g \<and> h' = h\<lparr>h_condition_generation := g\<rparr>"
  by (auto simp: next_condition_generation_def Let_def)

lemma next_condition_generation_rooms:
  assumes "next_condition_generation now previous h = (g, h')"
  shows "h_rooms h' = h_rooms h" and "get_room h' n = get_room h n" and "room_mut n h' = room_mut n h"
    and "h_store h' = h_store h"
  using assms by (auto simp: next_condition_generation_def Let_def get_room_def room_mut_def
      split: option.split)

lemma next_condition_generation_gt:
  assumes "next_condition_generation now previous h = (g, h')"
    and "previous < u64_max" and "h_condition_generation h < u64_max"
  shows "previous < g \<and> h_condition_generation h < g"
proof -
  have "u64_saturating_add previous 1 = previous + 1"
    "u64_saturating_add (h_condition_generation h) 1 = h_condition_generation h + 1"
    using assms(2,3) by (simp_all add: u64_saturating_add_exact)
  with assms(1) show ?thesis by (auto simp: next_condition_generation_def Let_def)
qed

lemma next_condition_generation_bound:
  "next_condition_generation now previous h = (g, h') \<Longrightarrow> now \<le> u64_max \<Longrightarrow> g \<le> u64_max"
  by (auto simp: next_condition_generation_def Let_def u64_saturating_add_bound)

end
