(* ===== verification/Conditions.thy ===== *)
theory Conditions
  imports Hub_State
begin

text \<open>
  The two functions of \<^verbatim>\<open>crates/server/src/hub/attention/lifecycle.rs\<close> that retire the
  in-memory attentions of a condition that has made progress.  Both walk the
  matching ids and resolve every attention that is not resolved yet, sending one
  frame for each.
\<close>

subsection \<open>Definitions\<close>

definition mark_resolved :: "u64 \<Rightarrow> attention \<Rightarrow> attention" where
  "mark_resolved at a = (if a_status a = AttResolved then a
     else a\<lparr>a_status := AttResolved, a_resolved_at := Some at\<rparr>)"

definition resolve_one :: "u64 \<Rightarrow> string \<Rightarrow> room \<Rightarrow> room" where
  "resolve_one at i r = (case hm_get (r_attentions r) i of
     None \<Rightarrow> r
   | Some a \<Rightarrow>
       if a_status a = AttResolved then r
       else send (FAttention (mark_resolved at a))
              (r\<lparr>r_attentions := hm_insert i (mark_resolved at a) (r_attentions r)\<rparr>))"

definition resolve_condition_attention :: "string \<Rightarrow> string \<Rightarrow> u64 \<Rightarrow> room \<Rightarrow> room" where
  "resolve_condition_attention room_name key at r =
     (let i = ''attention:'' @ room_name @ '':'' @ key
      in fold (resolve_one at) (filter (id_matches i) (hm_keys (r_attentions r))) r)"

definition wait_attention_matches :: "string \<Rightarrow> string \<Rightarrow> string \<Rightarrow> attention \<Rightarrow> bool" where
  "wait_attention_matches room_name waiter i a =
     (id_matches (''attention:'' @ room_name @ '':wait:'' @ waiter) i
      \<or> (a_reason a = WaitCycle \<and> waiter \<in> set (a_participants a)))"

definition drop_cycle_mark :: "string \<Rightarrow> string \<Rightarrow> room \<Rightarrow> room" where
  "drop_cycle_mark room_name i r = (case strip_prefix i (''attention:'' @ room_name @ '':'') of
     None \<Rightarrow> r | Some key \<Rightarrow> r\<lparr>r_care_marks := hm_remove key (r_care_marks r)\<rparr>)"

definition resolve_wait_one :: "string \<Rightarrow> u64 \<Rightarrow> string \<Rightarrow> room \<Rightarrow> room" where
  "resolve_wait_one room_name at i r = (case hm_get (r_attentions r) i of
     None \<Rightarrow> r
   | Some a \<Rightarrow>
       if a_status a = AttResolved then r
       else let r1 = r\<lparr>r_attentions := hm_insert i (mark_resolved at a) (r_attentions r)\<rparr>;
                r2 = (if a_reason a = WaitCycle then drop_cycle_mark room_name i r1 else r1)
            in send (FAttention (mark_resolved at a)) r2)"

definition resolve_wait_attentions :: "string \<Rightarrow> string \<Rightarrow> u64 \<Rightarrow> room \<Rightarrow> room" where
  "resolve_wait_attentions room_name waiter at r =
     fold (resolve_wait_one room_name at)
       (map fst (filter (\<lambda>(i, a). wait_attention_matches room_name waiter i a) (r_attentions r))) r"

subsection \<open>What they do and what they leave alone\<close>

lemma resolve_one_get:
  "hm_get (r_attentions (resolve_one at i r)) j
     = map_option (\<lambda>a. if j = i then mark_resolved at a else a) (hm_get (r_attentions r) j)"
  by (cases "hm_get (r_attentions r) j"; cases "hm_get (r_attentions r) i")
    (auto simp: resolve_one_def mark_resolved_def)

lemma resolve_wait_one_get:
  "hm_get (r_attentions (resolve_wait_one room at i r)) j
     = map_option (\<lambda>a. if j = i then mark_resolved at a else a) (hm_get (r_attentions r) j)"
  by (cases "hm_get (r_attentions r) j"; cases "hm_get (r_attentions r) i")
    (auto simp: resolve_wait_one_def mark_resolved_def drop_cycle_mark_def Let_def split: option.split)

lemma mark_resolved_idem [simp]: "mark_resolved at (mark_resolved at' a) = mark_resolved at' a"
  by (simp add: mark_resolved_def)

lemma fold_resolve_one_get:
  "hm_get (r_attentions (fold (resolve_one at) ids r)) j
     = map_option (\<lambda>a. if j \<in> set ids then mark_resolved at a else a) (hm_get (r_attentions r) j)"
  by (induction ids arbitrary: r) (auto simp: resolve_one_get option.map_comp comp_def option.map_ident
      intro!: option.map_cong)

lemma fold_resolve_wait_one_get:
  "hm_get (r_attentions (fold (resolve_wait_one room at) ids r)) j
     = map_option (\<lambda>a. if j \<in> set ids then mark_resolved at a else a) (hm_get (r_attentions r) j)"
  by (induction ids arbitrary: r) (auto simp: resolve_wait_one_get option.map_comp comp_def
      option.map_ident intro!: option.map_cong)

lemma resolve_condition_attention_get:
  "hm_get (r_attentions (resolve_condition_attention room key at r)) j
     = map_option (\<lambda>a. if id_matches (''attention:'' @ room @ '':'' @ key) j then mark_resolved at a else a)
         (hm_get (r_attentions r) j)"
  by (auto simp: resolve_condition_attention_def Let_def fold_resolve_one_get hm_keys_iff
      intro!: option.map_cong)

lemma resolve_wait_attentions_get:
  assumes "hm_ok (r_attentions r)"
  shows "hm_get (r_attentions (resolve_wait_attentions room waiter at r)) j
     = map_option (\<lambda>a. if wait_attention_matches room waiter j a then mark_resolved at a else a)
         (hm_get (r_attentions r) j)"
proof (cases "hm_get (r_attentions r) j")
  case None
  then show ?thesis by (simp add: resolve_wait_attentions_def fold_resolve_wait_one_get)
next
  case (Some a)
  have "j \<in> set (map fst (filter (\<lambda>(i, a). wait_attention_matches room waiter i a) (r_attentions r)))
      \<longleftrightarrow> wait_attention_matches room waiter j a"
    using hm_entry_iff [OF assms] Some by (force simp: image_iff)
  with Some show ?thesis by (simp add: resolve_wait_attentions_def fold_resolve_wait_one_get)
qed

lemma resolve_one_frame [simp]:
  "r_tasks (resolve_one at i r) = r_tasks r" "r_goals (resolve_one at i r) = r_goals r"
  "r_waits (resolve_one at i r) = r_waits r" "r_settings (resolve_one at i r) = r_settings r"
  "r_care_marks (resolve_one at i r) = r_care_marks r" "r_members (resolve_one at i r) = r_members r"
  "r_history (resolve_one at i r) = r_history r" "r_mode (resolve_one at i r) = r_mode r"
  "r_next_task_id (resolve_one at i r) = r_next_task_id r"
  "r_next_goal_id (resolve_one at i r) = r_next_goal_id r"
  "r_operations (resolve_one at i r) = r_operations r"
  "r_operation_order (resolve_one at i r) = r_operation_order r"
  "r_last_msg_ms (resolve_one at i r) = r_last_msg_ms r"
  "r_post_times (resolve_one at i r) = r_post_times r"
  "r_muted (resolve_one at i r) = r_muted r" "r_banned (resolve_one at i r) = r_banned r"
  by (simp_all add: resolve_one_def split: option.split)

lemma resolve_wait_one_frame [simp]:
  "r_tasks (resolve_wait_one room at i r) = r_tasks r"
  "r_goals (resolve_wait_one room at i r) = r_goals r"
  "r_waits (resolve_wait_one room at i r) = r_waits r"
  "r_settings (resolve_wait_one room at i r) = r_settings r"
  "r_members (resolve_wait_one room at i r) = r_members r"
  "r_history (resolve_wait_one room at i r) = r_history r"
  "r_mode (resolve_wait_one room at i r) = r_mode r"
  "r_next_task_id (resolve_wait_one room at i r) = r_next_task_id r"
  "r_next_goal_id (resolve_wait_one room at i r) = r_next_goal_id r"
  "r_operations (resolve_wait_one room at i r) = r_operations r"
  "r_operation_order (resolve_wait_one room at i r) = r_operation_order r"
  "r_last_msg_ms (resolve_wait_one room at i r) = r_last_msg_ms r"
  "r_post_times (resolve_wait_one room at i r) = r_post_times r"
  "r_muted (resolve_wait_one room at i r) = r_muted r"
  "r_banned (resolve_wait_one room at i r) = r_banned r"
  by (simp_all add: resolve_wait_one_def drop_cycle_mark_def Let_def split: option.split)

lemma fold_resolve_one_frame [simp]:
  "r_tasks (fold (resolve_one at) ids r) = r_tasks r"
  "r_goals (fold (resolve_one at) ids r) = r_goals r"
  "r_waits (fold (resolve_one at) ids r) = r_waits r"
  "r_settings (fold (resolve_one at) ids r) = r_settings r"
  "r_care_marks (fold (resolve_one at) ids r) = r_care_marks r"
  "r_members (fold (resolve_one at) ids r) = r_members r"
  "r_history (fold (resolve_one at) ids r) = r_history r"
  "r_mode (fold (resolve_one at) ids r) = r_mode r"
  "r_next_task_id (fold (resolve_one at) ids r) = r_next_task_id r"
  "r_next_goal_id (fold (resolve_one at) ids r) = r_next_goal_id r"
  "r_operations (fold (resolve_one at) ids r) = r_operations r"
  "r_operation_order (fold (resolve_one at) ids r) = r_operation_order r"
  "r_last_msg_ms (fold (resolve_one at) ids r) = r_last_msg_ms r"
  "r_post_times (fold (resolve_one at) ids r) = r_post_times r"
  "r_muted (fold (resolve_one at) ids r) = r_muted r"
  "r_banned (fold (resolve_one at) ids r) = r_banned r"
  by (induction ids arbitrary: r) simp_all

lemma fold_resolve_wait_one_frame [simp]:
  "r_tasks (fold (resolve_wait_one room at) ids r) = r_tasks r"
  "r_goals (fold (resolve_wait_one room at) ids r) = r_goals r"
  "r_waits (fold (resolve_wait_one room at) ids r) = r_waits r"
  "r_settings (fold (resolve_wait_one room at) ids r) = r_settings r"
  "r_members (fold (resolve_wait_one room at) ids r) = r_members r"
  "r_history (fold (resolve_wait_one room at) ids r) = r_history r"
  "r_mode (fold (resolve_wait_one room at) ids r) = r_mode r"
  "r_next_task_id (fold (resolve_wait_one room at) ids r) = r_next_task_id r"
  "r_next_goal_id (fold (resolve_wait_one room at) ids r) = r_next_goal_id r"
  "r_operations (fold (resolve_wait_one room at) ids r) = r_operations r"
  "r_operation_order (fold (resolve_wait_one room at) ids r) = r_operation_order r"
  "r_last_msg_ms (fold (resolve_wait_one room at) ids r) = r_last_msg_ms r"
  "r_post_times (fold (resolve_wait_one room at) ids r) = r_post_times r"
  "r_muted (fold (resolve_wait_one room at) ids r) = r_muted r"
  "r_banned (fold (resolve_wait_one room at) ids r) = r_banned r"
  by (induction ids arbitrary: r) simp_all

lemma resolve_condition_attention_frame [simp]:
  "r_tasks (resolve_condition_attention room key at r) = r_tasks r"
  "r_goals (resolve_condition_attention room key at r) = r_goals r"
  "r_waits (resolve_condition_attention room key at r) = r_waits r"
  "r_settings (resolve_condition_attention room key at r) = r_settings r"
  "r_care_marks (resolve_condition_attention room key at r) = r_care_marks r"
  "r_members (resolve_condition_attention room key at r) = r_members r"
  "r_history (resolve_condition_attention room key at r) = r_history r"
  "r_mode (resolve_condition_attention room key at r) = r_mode r"
  "r_next_task_id (resolve_condition_attention room key at r) = r_next_task_id r"
  "r_next_goal_id (resolve_condition_attention room key at r) = r_next_goal_id r"
  "r_operations (resolve_condition_attention room key at r) = r_operations r"
  "r_operation_order (resolve_condition_attention room key at r) = r_operation_order r"
  "r_last_msg_ms (resolve_condition_attention room key at r) = r_last_msg_ms r"
  "r_post_times (resolve_condition_attention room key at r) = r_post_times r"
  "r_muted (resolve_condition_attention room key at r) = r_muted r"
  "r_banned (resolve_condition_attention room key at r) = r_banned r"
  by (simp_all add: resolve_condition_attention_def Let_def)

lemma resolve_wait_attentions_frame [simp]:
  "r_tasks (resolve_wait_attentions room waiter at r) = r_tasks r"
  "r_goals (resolve_wait_attentions room waiter at r) = r_goals r"
  "r_waits (resolve_wait_attentions room waiter at r) = r_waits r"
  "r_settings (resolve_wait_attentions room waiter at r) = r_settings r"
  "r_members (resolve_wait_attentions room waiter at r) = r_members r"
  "r_history (resolve_wait_attentions room waiter at r) = r_history r"
  "r_mode (resolve_wait_attentions room waiter at r) = r_mode r"
  "r_next_task_id (resolve_wait_attentions room waiter at r) = r_next_task_id r"
  "r_next_goal_id (resolve_wait_attentions room waiter at r) = r_next_goal_id r"
  "r_operations (resolve_wait_attentions room waiter at r) = r_operations r"
  "r_operation_order (resolve_wait_attentions room waiter at r) = r_operation_order r"
  "r_last_msg_ms (resolve_wait_attentions room waiter at r) = r_last_msg_ms r"
  "r_post_times (resolve_wait_attentions room waiter at r) = r_post_times r"
  "r_muted (resolve_wait_attentions room waiter at r) = r_muted r"
  "r_banned (resolve_wait_attentions room waiter at r) = r_banned r"
  by (simp_all add: resolve_wait_attentions_def)

lemma resolve_one_ok [intro]:
  "hm_ok (r_attentions r) \<Longrightarrow> hm_ok (r_attentions (resolve_one at i r))"
  by (simp add: resolve_one_def split: option.split)

lemma resolve_wait_one_ok [intro]:
  "hm_ok (r_attentions r) \<Longrightarrow> hm_ok (r_attentions (resolve_wait_one room at i r))"
  by (simp add: resolve_wait_one_def drop_cycle_mark_def Let_def split: option.split)

lemma resolve_condition_attention_ok [simp, intro]:
  "hm_ok (r_attentions r) \<Longrightarrow> hm_ok (r_attentions (resolve_condition_attention room key at r))"
proof -
  have "hm_ok (r_attentions r) \<Longrightarrow> hm_ok (r_attentions (fold (resolve_one at) ids r))" for ids
    by (induction ids arbitrary: r) auto
  then show "hm_ok (r_attentions r) \<Longrightarrow> ?thesis"
    by (simp add: resolve_condition_attention_def Let_def)
qed

lemma resolve_wait_attentions_ok [simp, intro]:
  "hm_ok (r_attentions r) \<Longrightarrow> hm_ok (r_attentions (resolve_wait_attentions room waiter at r))"
proof -
  have "hm_ok (r_attentions r) \<Longrightarrow> hm_ok (r_attentions (fold (resolve_wait_one room at) ids r))" for ids
    by (induction ids arbitrary: r) auto
  then show "hm_ok (r_attentions r) \<Longrightarrow> ?thesis"
    by (simp add: resolve_wait_attentions_def)
qed

end
