(* ===== verification/Work.thy ===== *)
theory Work
  imports Conditions
begin

text \<open>
  \<^verbatim>\<open>crates/server/src/hub/work/{task,goal,policy}.rs\<close>: declared tasks and the one active
  goal of a room.  The invariant \<open>work_ok\<close> says what the panel of a room relies on:
  at most one active goal, an active goal only while the room has a lead, linked
  tasks that exist, no active goal whose tasks are all done, and closing times
  exactly on closed objects.  Every operation keeps it, and on a persistent store
  every operation keeps the rows equal to the memory.
\<close>

datatype TaskError = TaskNotFound | TaskForbidden | TaskStorage

datatype GoalError = GoalNotFound | ActiveExists | LeadRequired | InvalidTasks | GoalStorage

subsection \<open>Policy\<close>

definition normalize_goal_tasks ::
  "room \<Rightarrow> GoalCompletion \<Rightarrow> u64 list \<Rightarrow> (GoalError, u64 list) result" where
  "normalize_goal_tasks r completion task_ids =
     (let ids = sort_dedup task_ids
      in if completion = Manual then Ok []
         else if ids = [] \<or> (\<exists>i \<in> set ids. \<not> hm_contains (r_tasks r) i) then Err InvalidTasks
         else Ok ids)"

definition task_done :: "room \<Rightarrow> u64 \<Rightarrow> bool" where
  "task_done r i = (case hm_get (r_tasks r) i of None \<Rightarrow> False | Some t \<Rightarrow> t_status t = TaskDone)"

definition all_goal_tasks_done :: "room \<Rightarrow> goal \<Rightarrow> bool" where
  "all_goal_tasks_done r g = (g_completion g = AllTasks \<and> g_task_ids g \<noteq> []
     \<and> (\<forall>i \<in> set (g_task_ids g). task_done r i))"

definition linked_goal_after_task_progress ::
  "room \<Rightarrow> task \<Rightarrow> u64 \<Rightarrow> hub \<Rightarrow> goal option \<times> hub" where
  "linked_goal_after_task_progress r t now h =
     (case find (\<lambda>g. g_status g = GoalActive \<and> t_id t \<in> set (g_task_ids g)) (hm_values (r_goals r)) of
        None \<Rightarrow> (None, h)
      | Some found \<Rightarrow>
          (case hm_get (r_goals r) (g_id found) of
             None \<Rightarrow> (None, h)
           | Some goal \<Rightarrow>
               let (p, h') = next_condition_generation now (g_progress_at goal) h;
                   goal' = goal\<lparr>g_progress_at := p\<rparr>;
                   all_done = (\<forall>i \<in> set (g_task_ids goal').
                      if i = t_id t then t_status t = TaskDone else task_done r i)
               in (Some (if all_done then goal'\<lparr>g_status := GoalAchieved, g_closed_at := Some now\<rparr>
                         else goal'), h')))"

subsection \<open>Tasks\<close>

definition tasks_view :: "hub \<Rightarrow> string \<Rightarrow> task list" where
  "tasks_view h room = (case get_room h room of None \<Rightarrow> []
     | Some r \<Rightarrow> sort_key t_id (hm_values (r_tasks r)))"

definition create_task ::
  "string \<Rightarrow> create_task_body \<Rightarrow> u64 \<Rightarrow> hub \<Rightarrow> (sql_error, task) result \<times> hub" where
  "create_task room req now h =
     (let i = (case get_room h room of None \<Rightarrow> 1 | Some r \<Rightarrow> r_next_task_id r);
          t = \<lparr> t_id = i, t_room = room, t_title = ct_title req, t_created_by = ct_by req,
                t_from_message = ct_from_message req, t_assigned_to = ct_assigned_to req,
                t_status = TaskOpen, t_created_at = now, t_progress_at = now, t_closed_at = None \<rparr>;
          (res, h1) = with_store (upsert_task t) h
      in case res of
           Inl e \<Rightarrow> (Err e, h1)
         | Inr _ \<Rightarrow>
             let r = room_mut room h1
             in (Ok t, put_room room (send (FTask t)
                   (r\<lparr>r_next_task_id := u64_add i 1, r_tasks := hm_insert i t (r_tasks r)\<rparr>)) h1))"

definition task_assign :: "update_task_body \<Rightarrow> bool \<Rightarrow> task \<Rightarrow> (TaskError, task \<times> bool) result" where
  "task_assign req is_operator out = (case ut_assigned_to req of
     None \<Rightarrow> Ok (out, False)
   | Some assignee \<Rightarrow>
       if \<not> is_operator \<and> t_assigned_to out \<noteq> None \<and> t_assigned_to out \<noteq> Some (ut_by req)
       then Err TaskForbidden
       else if \<not> is_operator \<and> assignee \<noteq> ut_by req then Err TaskForbidden
       else Ok (out\<lparr>t_assigned_to := Some assignee\<rparr>, t_assigned_to out \<noteq> Some assignee))"

definition status_allowed :: "TaskStatus \<Rightarrow> bool \<Rightarrow> bool \<Rightarrow> bool" where
  "status_allowed st is_operator mine = (case st of
     TaskTaken \<Rightarrow> is_operator \<or> mine | TaskDone \<Rightarrow> is_operator \<or> mine
   | TaskCancelled \<Rightarrow> is_operator | TaskOpen \<Rightarrow> is_operator)"

definition task_set_status ::
  "update_task_body \<Rightarrow> bool \<Rightarrow> u64 \<Rightarrow> task \<Rightarrow> (TaskError, task \<times> bool) result" where
  "task_set_status req is_operator now out = (case ut_status req of
     None \<Rightarrow> Ok (out, False)
   | Some st \<Rightarrow>
       if \<not> status_allowed st is_operator (t_assigned_to out = Some (ut_by req))
       then Err TaskForbidden
       else let changed = (t_status out \<noteq> st);
                closed = (if st = TaskDone \<or> st = TaskCancelled then Some now else None)
            in Ok (out\<lparr>t_status := st, t_closed_at := (if changed then closed else t_closed_at out)\<rparr>,
                   changed))"

text \<open>The request applied to the task: authority checks first, then the two changes.\<close>

definition task_transition ::
  "update_task_body \<Rightarrow> bool \<Rightarrow> u64 \<Rightarrow> task \<Rightarrow> (TaskError, task \<times> bool) result" where
  "task_transition req is_operator now out = (case task_assign req is_operator out of
     Inl e \<Rightarrow> Err e
   | Inr (t1, p1) \<Rightarrow>
       (case task_set_status req is_operator now t1 of
          Inl e \<Rightarrow> Err e
        | Inr (t2, p2) \<Rightarrow> Ok (t2, p1 \<or> p2)))"

text \<open>Mirroring a committed task change into the room: marks, attentions, task, goal.\<close>

definition mirror_task :: "string \<Rightarrow> task \<Rightarrow> goal option \<Rightarrow> bool \<Rightarrow> room \<Rightarrow> room" where
  "mirror_task room out linked progressed r =
     (let key = ''task:'' @ dec (t_id out);
          r1 = (if progressed
                then resolve_condition_attention room key (t_progress_at out)
                       (r\<lparr>r_care_marks := hm_remove key (r_care_marks r)\<rparr>)
                else r);
          r2 = send (FTask out) (r1\<lparr>r_tasks := hm_insert (t_id out) out (r_tasks r1)\<rparr>)
      in case linked of None \<Rightarrow> r2
         | Some g \<Rightarrow>
             let gkey = ''goal:'' @ dec (g_id g);
                 r3 = resolve_condition_attention room gkey (g_progress_at g)
                        (r2\<lparr>r_care_marks := hm_remove gkey (r_care_marks r2)\<rparr>)
             in send (FGoal g) (r3\<lparr>r_goals := hm_insert (g_id g) g (r_goals r3)\<rparr>))"

definition update_task ::
  "string \<Rightarrow> u64 \<Rightarrow> update_task_body \<Rightarrow> bool \<Rightarrow> u64 \<Rightarrow> hub \<Rightarrow> (TaskError, task) result \<times> hub" where
  "update_task room i req is_operator now h = (case get_room h room of
     None \<Rightarrow> (Err TaskNotFound, h)
   | Some r \<Rightarrow>
       (case hm_get (r_tasks r) i of
          None \<Rightarrow> (Err TaskNotFound, h)
        | Some old \<Rightarrow>
            (case task_transition req is_operator now old of
               Inl e \<Rightarrow> (Err e, h)
             | Inr (t, progressed) \<Rightarrow>
                 let (t', h1) = (if progressed
                        then (let (p, h1) = next_condition_generation now (t_progress_at t) h
                              in (t\<lparr>t_progress_at := p\<rparr>, h1))
                        else (t, h));
                     (linked, h2) = (if progressed
                        then linked_goal_after_task_progress r t' (t_progress_at t') h1
                        else (None, h1));
                     (res, h3) = with_store (upsert_task_with_goal_progress t' linked progressed) h2
                 in case res of
                      Inl _ \<Rightarrow> (Err TaskStorage, h3)
                    | Inr _ \<Rightarrow> (Ok t', put_room room (mirror_task room t' linked progressed r) h3))))"

subsection \<open>Goals\<close>

definition goals_view :: "hub \<Rightarrow> string \<Rightarrow> goal list" where
  "goals_view h room = (case get_room h room of None \<Rightarrow> []
     | Some r \<Rightarrow> sort_key g_id (hm_values (r_goals r)))"

text \<open>The goal that \<open>create_goal\<close> writes.\<close>

definition new_goal :: "string \<Rightarrow> room \<Rightarrow> create_goal_body \<Rightarrow> u64 list \<Rightarrow> u64 \<Rightarrow> goal" where
  "new_goal room r req ids now =
     (let g0 = \<lparr> g_id = r_next_goal_id r, g_room = room, g_outcome = cg_outcome req,
                 g_checkpoint = cg_checkpoint req, g_stale_after_secs = cg_stale_after_secs req,
                 g_created_by = cg_by req, g_completion = cg_completion req, g_task_ids = ids,
                 g_status = GoalActive, g_created_at = now, g_progress_at = now, g_closed_at = None \<rparr>
      in if all_goal_tasks_done r g0
         then g0\<lparr>g_status := GoalAchieved, g_closed_at := Some now\<rparr> else g0)"

definition create_goal ::
  "string \<Rightarrow> create_goal_body \<Rightarrow> u64 \<Rightarrow> hub \<Rightarrow> (GoalError, goal) result \<times> hub" where
  "create_goal room req now h =
     (let r = room_mut room h;
          h0 = put_room room r h
      in if st_lead (r_settings r) = None then (Err LeadRequired, h0)
         else if (\<exists>g \<in> set (hm_values (r_goals r)). g_status g = GoalActive) then (Err ActiveExists, h0)
         else case normalize_goal_tasks r (cg_completion req) (cg_task_ids req) of
           Inl e \<Rightarrow> (Err e, h0)
         | Inr ids \<Rightarrow>
             let i = r_next_goal_id r;
                 g = new_goal room r req ids now;
                 (res, h1) = with_store (upsert_goal g) h0
             in case res of
                  Inl _ \<Rightarrow> (Err GoalStorage, h1)
                | Inr _ \<Rightarrow> (Ok g, put_room room (send (FGoal g)
                    (r\<lparr>r_next_goal_id := u64_add i 1, r_goals := hm_insert i g (r_goals r)\<rparr>)) h1))"

text \<open>The field updates of a goal request, before tasks and status are judged.\<close>

definition goal_fields :: "update_goal_body \<Rightarrow> goal \<Rightarrow> goal" where
  "goal_fields req g =
     (let g1 = (case ug_outcome req of None \<Rightarrow> g | Some x \<Rightarrow> g\<lparr>g_outcome := x\<rparr>);
          g2 = (case ug_checkpoint req of None \<Rightarrow> g1
                | Some x \<Rightarrow> g1\<lparr>g_checkpoint := (if x = [] then None else Some x)\<rparr>);
          g3 = (case ug_stale_after_secs req of None \<Rightarrow> g2 | Some x \<Rightarrow> g2\<lparr>g_stale_after_secs := x\<rparr>);
          g4 = (case ug_completion req of None \<Rightarrow> g3 | Some x \<Rightarrow> g3\<lparr>g_completion := x\<rparr>)
      in case ug_task_ids req of None \<Rightarrow> g4 | Some x \<Rightarrow> g4\<lparr>g_task_ids := x\<rparr>)"

definition goal_set_status ::
  "room \<Rightarrow> u64 \<Rightarrow> update_goal_body \<Rightarrow> u64 \<Rightarrow> goal \<Rightarrow> (GoalError, goal) result" where
  "goal_set_status r i req now g = (case ug_status req of
     None \<Rightarrow> Ok g
   | Some st \<Rightarrow>
       if st = GoalActive
          \<and> (\<exists>other \<in> set (hm_values (r_goals r)). g_id other \<noteq> i \<and> g_status other = GoalActive)
       then Err ActiveExists
       else Ok (g\<lparr>g_status := st,
          g_closed_at := (if g_status g \<noteq> st
             then (if st = GoalActive then None else Some now) else g_closed_at g)\<rparr>))"

definition goal_transition ::
  "room \<Rightarrow> u64 \<Rightarrow> update_goal_body \<Rightarrow> u64 \<Rightarrow> goal \<Rightarrow> (GoalError, goal) result" where
  "goal_transition r i req now g =
     (let g1 = goal_fields req g
      in case normalize_goal_tasks r (g_completion g1) (g_task_ids g1) of
           Inl e \<Rightarrow> Err e
         | Inr ids \<Rightarrow>
             (case goal_set_status r i req now (g1\<lparr>g_task_ids := ids\<rparr>) of
                Inl e \<Rightarrow> Err e
              | Inr g2 \<Rightarrow>
                  if g_status g2 = GoalActive \<and> st_lead (r_settings r) = None then Err LeadRequired
                  else if g_status g2 = GoalActive \<and> all_goal_tasks_done r g2
                  then Ok (g2\<lparr>g_status := GoalAchieved, g_closed_at := Some now\<rparr>)
                  else Ok g2))"

definition goal_key :: "goal \<Rightarrow>
  string \<times> string option \<times> u32 option \<times> GoalCompletion \<times> u64 list \<times> GoalStatus" where
  "goal_key g = (g_outcome g, g_checkpoint g, g_stale_after_secs g, g_completion g, g_task_ids g,
     g_status g)"

definition mirror_goal :: "string \<Rightarrow> goal \<Rightarrow> bool \<Rightarrow> room \<Rightarrow> room" where
  "mirror_goal room g progressed r =
     (let key = ''goal:'' @ dec (g_id g);
          r1 = (if progressed
                then resolve_condition_attention room key (g_progress_at g)
                       (r\<lparr>r_care_marks := hm_remove key (r_care_marks r)\<rparr>)
                else r)
      in send (FGoal g) (r1\<lparr>r_goals := hm_insert (g_id g) g (r_goals r1)\<rparr>))"

definition update_goal ::
  "string \<Rightarrow> u64 \<Rightarrow> update_goal_body \<Rightarrow> u64 \<Rightarrow> hub \<Rightarrow> (GoalError, goal) result \<times> hub" where
  "update_goal room i req now h = (case get_room h room of
     None \<Rightarrow> (Err GoalNotFound, h)
   | Some r \<Rightarrow>
       (case hm_get (r_goals r) i of
          None \<Rightarrow> (Err GoalNotFound, h)
        | Some old \<Rightarrow>
            (case goal_transition r i req now old of
               Inl e \<Rightarrow> (Err e, h)
             | Inr g \<Rightarrow>
                 let progressed = (goal_key old \<noteq> goal_key g);
                     (g', h1) = (if progressed
                        then (let (p, h1) = next_condition_generation now (g_progress_at g) h
                              in (g\<lparr>g_progress_at := p\<rparr>, h1))
                        else (g, h));
                     (res, h2) = with_store (upsert_goal_with_care_reset g' progressed) h1
                 in case res of
                      Inl _ \<Rightarrow> (Err GoalStorage, h2)
                    | Inr _ \<Rightarrow> (Ok g', put_room room (mirror_goal room g' progressed r) h2))))"

subsection \<open>The invariant of declared work\<close>

definition task_ok :: "string \<Rightarrow> room \<Rightarrow> u64 \<Rightarrow> task \<Rightarrow> bool" where
  "task_ok room r i t = (t_id t = i \<and> t_room t = room \<and> i < r_next_task_id r
     \<and> (t_closed_at t \<noteq> None \<longleftrightarrow> t_status t \<in> {TaskDone, TaskCancelled}))"

definition goal_ok :: "string \<Rightarrow> room \<Rightarrow> u64 \<Rightarrow> goal \<Rightarrow> bool" where
  "goal_ok room r i g = (g_id g = i \<and> g_room g = room \<and> i < r_next_goal_id r
     \<and> (g_closed_at g = None \<longleftrightarrow> g_status g = GoalActive)
     \<and> (g_status g = GoalActive \<longrightarrow> st_lead (r_settings r) \<noteq> None \<and> \<not> all_goal_tasks_done r g)
     \<and> (if g_completion g = Manual then g_task_ids g = []
        else g_task_ids g \<noteq> [] \<and> sorted (g_task_ids g) \<and> distinct (g_task_ids g)
           \<and> (\<forall>k \<in> set (g_task_ids g). hm_contains (r_tasks r) k)))"

definition one_active :: "room \<Rightarrow> bool" where
  "one_active r = (\<forall>i j g g'. hm_get (r_goals r) i = Some g \<longrightarrow> hm_get (r_goals r) j = Some g'
     \<longrightarrow> g_status g = GoalActive \<longrightarrow> g_status g' = GoalActive \<longrightarrow> i = j)"

definition work_ok :: "string \<Rightarrow> room \<Rightarrow> bool" where
  "work_ok room r = (hm_ok (r_tasks r) \<and> hm_ok (r_goals r)
     \<and> (\<forall>i t. hm_get (r_tasks r) i = Some t \<longrightarrow> task_ok room r i t)
     \<and> (\<forall>i g. hm_get (r_goals r) i = Some g \<longrightarrow> goal_ok room r i g)
     \<and> one_active r)"

definition work_inv :: "hub \<Rightarrow> bool" where
  "work_inv h = (\<forall>room r. get_room h room = Some r \<longrightarrow> work_ok room r)"

lemma work_ok_fresh [simp]: "work_ok room (room_with m s n)"
  by (simp add: work_ok_def room_with_def one_active_def)

lemma work_inv_room_mut: "work_inv h \<Longrightarrow> work_ok room (room_mut room h)"
  by (auto simp: work_inv_def room_mut_def get_room_def split: option.split)

lemma work_inv_put: "work_inv h \<Longrightarrow> work_ok room r \<Longrightarrow> work_inv (put_room room r h)"
  by (simp add: work_inv_def)

text \<open>The part of a room the invariant reads.\<close>

lemma work_ok_cong:
  assumes "r_tasks r' = r_tasks r" "r_goals r' = r_goals r" "r_next_task_id r' = r_next_task_id r"
    "r_next_goal_id r' = r_next_goal_id r" "st_lead (r_settings r') = st_lead (r_settings r)"
  shows "work_ok room r' = work_ok room r"
  using assms
  by (simp add: work_ok_def task_ok_def goal_ok_def one_active_def all_goal_tasks_done_def task_done_def)

lemma work_inv_rooms: "h_rooms h' = h_rooms h \<Longrightarrow> work_inv h' = work_inv h"
  by (simp add: work_inv_def get_room_def)

lemma work_inv_with_store: "with_store f h = (r, h') \<Longrightarrow> work_inv h \<Longrightarrow> work_inv h'"
  by (auto simp: work_inv_def with_store_rooms)

lemma normalize_goal_tasks_ok:
  "normalize_goal_tasks r c ids = Inr out \<Longrightarrow>
     (if c = Manual then out = []
      else out \<noteq> [] \<and> sorted out \<and> distinct out \<and> (\<forall>k \<in> set out. hm_contains (r_tasks r) k))"
  by (auto simp: normalize_goal_tasks_def Let_def sorted_sort_dedup distinct_sort_dedup
      split: if_splits)

lemma normalize_goal_tasks_invalid:
  "normalize_goal_tasks r AllTasks ids = Inl InvalidTasks
     \<longleftrightarrow> ids = [] \<or> (\<exists>i \<in> set ids. hm_get (r_tasks r) i = None)"
  by (auto simp: normalize_goal_tasks_def Let_def hm_contains_def)

subsection \<open>Tasks keep it\<close>

text \<open>A goal stays good when the tasks only grow and its own tasks keep their state.\<close>

lemma goal_ok_mono:
  assumes "goal_ok room r i g" and "r_settings r' = r_settings r"
    and "r_next_goal_id r \<le> r_next_goal_id r'"
    and "\<And>k. hm_contains (r_tasks r) k \<Longrightarrow> hm_contains (r_tasks r') k"
    and "g_status g = GoalActive \<Longrightarrow> \<forall>k \<in> set (g_task_ids g). task_done r' k \<longrightarrow> task_done r k"
  shows "goal_ok room r' i g"
  using assms by (auto simp: goal_ok_def all_goal_tasks_done_def split: if_splits)

lemma work_ok_new_task:
  assumes ok: "work_ok room r" and i: "i = r_next_task_id r" and n: "r_next_task_id r' = i + 1"
    and t: "t_id t = i" "t_room t = room" "t_closed_at t = None" "t_status t = TaskOpen"
    and r': "r_tasks r' = hm_insert i t (r_tasks r)" "r_goals r' = r_goals r"
      "r_settings r' = r_settings r" "r_next_goal_id r' = r_next_goal_id r"
  shows "work_ok room r'"
proof -
  have "goal_ok room r' j g" if "hm_get (r_goals r) j = Some g" for j g
    by (rule goal_ok_mono [of room r])
      (use ok that t in \<open>auto simp: work_ok_def r' hm_contains_def task_done_def\<close>)
  then show ?thesis
    using ok unfolding work_ok_def one_active_def r' n
    by (auto simp: task_ok_def n t i [symmetric] less_Suc_eq)
qed

lemma create_task_next_id:
  "(case get_room h room of None \<Rightarrow> 1 | Some r \<Rightarrow> r_next_task_id r) = r_next_task_id (room_mut room h)"
  by (auto simp: room_mut_def get_room_def room_with_def split: option.split)

lemma create_task_err:
  assumes "create_task room req now h = (Err e, h')"
  shows "\<exists>s. h' = h\<lparr>h_store := s\<rparr> \<and> sto_conn s = sto_conn (h_store h)"
  using assms
  by (auto simp: create_task_def upsert_task_def Let_def split: sum.splits prod.splits
      elim!: with_storeE dest: wr.err_rolls_back)

lemma create_task_keeps_work_inv:
  assumes inv: "work_inv h" and bound: "r_next_task_id (room_mut room h) < u64_max"
  shows "work_inv (snd (create_task room req now h))"
  using bound
  by (auto simp: create_task_def create_task_next_id Let_def with_store_rooms
      split: sum.splits prod.splits elim: work_inv_with_store [OF _ inv]
      intro!: work_inv_put work_ok_new_task [OF work_inv_room_mut [OF inv]])

lemma task_transition_okD:
  assumes "task_transition req is_operator now t = Inr (t', progressed)"
  shows "t_id t' = t_id t" "t_room t' = t_room t" "t_progress_at t' = t_progress_at t"
    and "\<not> progressed \<Longrightarrow> t' = t"
    and "(t_closed_at t \<noteq> None \<longleftrightarrow> t_status t \<in> {TaskDone, TaskCancelled}) \<Longrightarrow>
         (t_closed_at t' \<noteq> None \<longleftrightarrow> t_status t' \<in> {TaskDone, TaskCancelled})"
  using assms
  by (auto simp: task_transition_def task_assign_def task_set_status_def Let_def
      split: option.splits if_splits sum.splits prod.splits)

lemma mirror_task_fields [simp]:
  "r_tasks (mirror_task room t linked p r) = hm_insert (t_id t) t (r_tasks r)"
  "r_goals (mirror_task room t linked p r)
     = (case linked of None \<Rightarrow> r_goals r | Some g \<Rightarrow> hm_insert (g_id g) g (r_goals r))"
  "r_settings (mirror_task room t linked p r) = r_settings r"
  "r_next_task_id (mirror_task room t linked p r) = r_next_task_id r"
  "r_next_goal_id (mirror_task room t linked p r) = r_next_goal_id r"
  "r_waits (mirror_task room t linked p r) = r_waits r"
  "r_members (mirror_task room t linked p r) = r_members r"
  "r_history (mirror_task room t linked p r) = r_history r"
  by (simp_all add: mirror_task_def Let_def split: option.split)

lemma linked_goal_rooms:
  assumes "linked_goal_after_task_progress r t now h = (linked, h')"
  shows "h_rooms h' = h_rooms h" and "h_store h' = h_store h"
  using assms by (auto simp: linked_goal_after_task_progress_def Let_def next_condition_generation_rooms
      split: option.splits prod.splits)

lemma linked_goal_SomeD:
  assumes "linked_goal_after_task_progress r t now h = (Some g', h')" and "work_ok room r"
  shows "\<exists>g p. hm_get (r_goals r) (g_id g') = Some g \<and> g_status g = GoalActive
       \<and> t_id t \<in> set (g_task_ids g) \<and>
       g' = (if \<forall>i \<in> set (g_task_ids g). if i = t_id t then t_status t = TaskDone else task_done r i
             then g\<lparr>g_progress_at := p, g_status := GoalAchieved, g_closed_at := Some now\<rparr>
             else g\<lparr>g_progress_at := p\<rparr>)"
proof -
  have ids: "hm_get (r_goals r) i = Some g \<Longrightarrow> g_id g = i" for i g
    using assms(2) by (auto simp: work_ok_def goal_ok_def)
  from assms(1) obtain found g p where f:
    "find (\<lambda>g. g_status g = GoalActive \<and> t_id t \<in> set (g_task_ids g)) (hm_values (r_goals r)) = Some found"
    and g: "hm_get (r_goals r) (g_id found) = Some g"
    and g': "g' = (if \<forall>i \<in> set (g_task_ids g). if i = t_id t then t_status t = TaskDone else task_done r i
             then g\<lparr>g_progress_at := p, g_status := GoalAchieved, g_closed_at := Some now\<rparr>
             else g\<lparr>g_progress_at := p\<rparr>)"
    by (auto simp: linked_goal_after_task_progress_def Let_def split: option.splits prod.splits)
  have "found \<in> set (hm_values (r_goals r))" "g_status found = GoalActive" "t_id t \<in> set (g_task_ids found)"
    using f by (auto simp: find_Some_iff)
  moreover have "hm_ok (r_goals r)" using assms(2) by (simp add: work_ok_def)
  ultimately have "g = found" using g ids by (metis hm_values_iff option.inject)
  moreover have "g_id g' = g_id g" using g' by simp
  ultimately show ?thesis using g g' \<open>g_status found = GoalActive\<close> \<open>t_id t \<in> set (g_task_ids found)\<close>
    by (intro exI [of _ g] exI [of _ p]) simp
qed

lemma linked_goal_NoneD:
  assumes "linked_goal_after_task_progress r t now h = (None, h')" and "work_ok room r"
    and "hm_get (r_goals r) i = Some g" and "g_status g = GoalActive"
  shows "t_id t \<notin> set (g_task_ids g)"
proof -
  have ok: "hm_ok (r_goals r)" and ids: "\<And>i g. hm_get (r_goals r) i = Some g \<Longrightarrow> g_id g = i"
    using assms(2) by (auto simp: work_ok_def goal_ok_def)
  have "find (\<lambda>g. g_status g = GoalActive \<and> t_id t \<in> set (g_task_ids g)) (hm_values (r_goals r)) = None"
    using assms(1) ids hm_values_iff [OF ok]
    by (auto simp: linked_goal_after_task_progress_def Let_def find_Some_iff
        split: option.splits prod.splits) (metis nth_mem option.distinct(1))
  then show ?thesis using assms(3,4) by (auto simp: find_None_iff hm_values_iff [OF ok])
qed

lemma work_ok_task_update:
  assumes ok: "work_ok room r" and old: "hm_get (r_tasks r) i = Some old"
    and t: "t_id t = i" "t_room t = room"
      "t_closed_at t \<noteq> None \<longleftrightarrow> t_status t \<in> {TaskDone, TaskCancelled}"
    and quiet: "linked = None \<Longrightarrow> t_status t = t_status old \<or>
      (\<forall>j g. hm_get (r_goals r) j = Some g \<longrightarrow> g_status g = GoalActive \<longrightarrow> i \<notin> set (g_task_ids g))"
    and linked: "\<And>g'. linked = Some g' \<Longrightarrow> \<exists>g p. hm_get (r_goals r) (g_id g') = Some g
       \<and> g_status g = GoalActive \<and> i \<in> set (g_task_ids g) \<and>
       g' = (if \<forall>k \<in> set (g_task_ids g). if k = i then t_status t = TaskDone else task_done r k
             then g\<lparr>g_progress_at := p, g_status := GoalAchieved, g_closed_at := Some at\<rparr>
             else g\<lparr>g_progress_at := p\<rparr>)"
  shows "work_ok room (mirror_task room t linked progressed r)" (is "work_ok room ?r")
proof -
  have done_other: "task_done ?r k = (if k = i then t_status t = TaskDone else task_done r k)" for k
    using t by (simp add: task_done_def)
  have tasks: "task_ok room ?r k u" if "hm_get (r_tasks ?r) k = Some u" for k u
    using that ok old t by (auto simp: work_ok_def task_ok_def split: if_splits)
  have grow: "hm_contains (r_tasks ?r) k" if "hm_contains (r_tasks r) k" for k
    using that t by (simp add: hm_contains_def)
  have keep: "goal_ok room ?r j g" if g: "hm_get (r_goals r) j = Some g"
    and "g_status g = GoalActive \<Longrightarrow> i \<notin> set (g_task_ids g) \<or> t_status t = t_status old" for j g
    by (rule goal_ok_mono [of room r])
      (use that ok old grow t(1) in \<open>auto simp: work_ok_def done_other task_done_def split: if_splits\<close>)
  show ?thesis
  proof (cases linked)
    case None
    have "goal_ok room ?r j g" if "hm_get (r_goals r) j = Some g" for j g
      using quiet [OF None] that by (intro keep) blast+
    then show ?thesis using ok tasks t None by (simp add: work_ok_def one_active_def)
  next
    case (Some g')
    then obtain g p where g: "hm_get (r_goals r) (g_id g') = Some g" "g_status g = GoalActive"
        "i \<in> set (g_task_ids g)"
      and g': "g' = (if \<forall>k \<in> set (g_task_ids g). if k = i then t_status t = TaskDone else task_done r k
             then g\<lparr>g_progress_at := p, g_status := GoalAchieved, g_closed_at := Some at\<rparr>
             else g\<lparr>g_progress_at := p\<rparr>)"
      using linked by blast
    have only: "j = g_id g'" if "hm_get (r_goals r) j = Some g0" "g_status g0 = GoalActive" for j g0
      using ok that g unfolding work_ok_def one_active_def by blast
    have gok: "goal_ok room r (g_id g') g" using ok g unfolding work_ok_def by blast
    have "goal_ok room ?r (g_id g') g'"
      using gok g grow unfolding g'
      by (auto simp: goal_ok_def all_goal_tasks_done_def done_other split: if_splits)
    moreover have "goal_ok room ?r j g0" if "hm_get (r_goals r) j = Some g0" "j \<noteq> g_id g'" for j g0
      using that only by (intro keep) blast+
    moreover have "one_active ?r"
      using ok only Some unfolding one_active_def by (auto split: if_splits)
    ultimately show ?thesis using ok tasks t Some by (auto simp: work_ok_def split: if_splits)
  qed
qed

text \<open>One reading of \<open>update_task\<close>: what a success did, and that an error did nothing.\<close>

lemma update_task_err:
  assumes "update_task room i req op now h = (Err e, h')"
  shows "h_rooms h' = h_rooms h \<and> sto_conn (h_store h') = sto_conn (h_store h)"
  using assms
  by (auto simp: update_task_def upsert_task_with_goal_progress_def Let_def
      next_condition_generation_rooms linked_goal_rooms
      split: option.splits sum.splits prod.splits if_splits elim!: with_storeE dest: wr.err_rolls_back)

lemma update_task_okD:
  assumes "update_task room i req op now h = (Ok t', h')"
  obtains r old t linked progressed h2 s where "get_room h room = Some r"
    and "hm_get (r_tasks r) i = Some old" and "task_transition req op now old = Inr (t, progressed)"
    and "if progressed then (\<exists>p h1. t' = t\<lparr>t_progress_at := p\<rparr>
            \<and> linked_goal_after_task_progress r t' p h1 = (linked, h2))
         else t' = old \<and> linked = None"
    and "upsert_task_with_goal_progress t' linked progressed (h_store h) = (Ok (), s)"
    and "h_rooms h2 = h_rooms h" and "h_store h2 = h_store h"
    and "h' = put_room room (mirror_task room t' linked progressed r) (h2\<lparr>h_store := s\<rparr>)"
proof -
  from assms obtain r old t progressed where
    r: "get_room h room = Some r" and old: "hm_get (r_tasks r) i = Some old"
    and tr: "task_transition req op now old = Inr (t, progressed)"
    by (auto simp: update_task_def split: option.splits sum.splits prod.splits)
  show thesis
  proof (cases progressed)
    case True
    obtain p h1 where gen: "next_condition_generation now (t_progress_at t) h = (p, h1)" by force
    obtain linked h2 where li:
      "linked_goal_after_task_progress r (t\<lparr>t_progress_at := p\<rparr>) p h1 = (linked, h2)" by force
    have h2: "h_rooms h2 = h_rooms h" "h_store h2 = h_store h"
      using next_condition_generation_rooms [OF gen] linked_goal_rooms [OF li] by simp_all
    from assms r old tr True gen li obtain s where
      "t' = t\<lparr>t_progress_at := p\<rparr>"
      "upsert_task_with_goal_progress t' linked True (h_store h) = (Ok (), s)"
      "h' = put_room room (mirror_task room t' linked True r) (h2\<lparr>h_store := s\<rparr>)"
      by (auto simp: update_task_def Let_def h2 split: sum.splits prod.splits elim!: with_storeE)
    note res = this
    have "\<exists>p h1. t' = t\<lparr>t_progress_at := p\<rparr>
        \<and> linked_goal_after_task_progress r t' p h1 = (linked, h2)"
      using res(1) li by blast
    then show thesis using True res(2,3) h2 by (intro that [OF r old tr, of linked h2 s]) simp_all
  next
    case False
    from assms r old tr False task_transition_okD(4) [OF tr] obtain s where
      "t' = old" "upsert_task_with_goal_progress t' None False (h_store h) = (Ok (), s)"
      "h' = put_room room (mirror_task room t' None False r) (h\<lparr>h_store := s\<rparr>)"
      by (auto simp: update_task_def Let_def split: sum.splits prod.splits elim!: with_storeE)
    then show thesis using False by (intro that [OF r old tr, of None h s]) simp_all
  qed
qed

lemma update_task_ok_work:
  assumes "work_inv h" and "update_task room i req op now h = (Ok t', h')"
  shows "work_inv h'"
  using assms(2)
proof (rule update_task_okD)
  fix r old t linked progressed h2 s
  assume r: "get_room h room = Some r" and old: "hm_get (r_tasks r) i = Some old"
    and tr: "task_transition req op now old = Inr (t, progressed)"
    and step: "if progressed then (\<exists>p h1. t' = t\<lparr>t_progress_at := p\<rparr>
            \<and> linked_goal_after_task_progress r t' p h1 = (linked, h2))
         else t' = old \<and> linked = None"
    and h2: "h_rooms h2 = h_rooms h"
    and h': "h' = put_room room (mirror_task room t' linked progressed r) (h2\<lparr>h_store := s\<rparr>)"
  have ok: "work_ok room r" using assms(1) r by (simp add: work_inv_def)
  then have oldok: "task_ok room r i old" using old by (simp add: work_ok_def)
  have "t_id t' = i \<and> t_room t' = room
      \<and> (t_closed_at t' \<noteq> None \<longleftrightarrow> t_status t' \<in> {TaskDone, TaskCancelled})"
    using step oldok task_transition_okD [OF tr] by (auto simp: task_ok_def split: if_splits)
  then have t': "t_id t' = i" "t_room t' = room"
    "t_closed_at t' \<noteq> None \<longleftrightarrow> t_status t' \<in> {TaskDone, TaskCancelled}" by auto
  have "work_ok room (mirror_task room t' linked progressed r)"
  proof (rule work_ok_task_update [OF ok old t', where at = "t_progress_at t'"])
    show "linked = None \<Longrightarrow> t_status t' = t_status old \<or>
      (\<forall>j g. hm_get (r_goals r) j = Some g \<longrightarrow> g_status g = GoalActive \<longrightarrow> i \<notin> set (g_task_ids g))"
      using step linked_goal_NoneD [OF _ ok] t'(1) by (metis (no_types, lifting))
    show "\<exists>g p. hm_get (r_goals r) (g_id g') = Some g \<and> g_status g = GoalActive
       \<and> i \<in> set (g_task_ids g) \<and>
       g' = (if \<forall>k \<in> set (g_task_ids g). if k = i then t_status t' = TaskDone else task_done r k
             then g\<lparr>g_progress_at := p, g_status := GoalAchieved, g_closed_at := Some (t_progress_at t')\<rparr>
             else g\<lparr>g_progress_at := p\<rparr>)" if "linked = Some g'" for g'
      using step linked_goal_SomeD [OF _ ok] t'(1) that by (fastforce split: if_splits)
  qed
  moreover have "work_inv (h2\<lparr>h_store := s\<rparr>)"
    using assms(1) h2 by (simp add: work_inv_def get_room_def)
  ultimately show ?thesis unfolding h' by (intro work_inv_put)
qed

lemma update_task_keeps_work_inv:
  assumes "work_inv h"
  shows "work_inv (snd (update_task room i req op now h))"
proof -
  obtain res h' where u: "update_task room i req op now h = (res, h')" by force
  show ?thesis
  proof (cases res)
    case (Inl e)
    then have "h_rooms h' = h_rooms h" using u update_task_err by blast
    then show ?thesis using assms u by (simp add: work_inv_rooms [of h' h])
  next
    case (Inr t)
    then show ?thesis using u update_task_ok_work [OF assms] by simp
  qed
qed

subsection \<open>Goals keep it\<close>

lemma work_ok_put_goal:
  assumes ok: "work_ok room r" and g: "goal_ok room r' i g"
    and only: "g_status g = GoalActive \<Longrightarrow>
      \<forall>j g0. hm_get (r_goals r) j = Some g0 \<longrightarrow> g_status g0 = GoalActive \<longrightarrow> j = i"
    and r': "r_goals r' = hm_insert i g (r_goals r)" "r_tasks r' = r_tasks r"
      "r_settings r' = r_settings r" "r_next_task_id r' = r_next_task_id r"
      "r_next_goal_id r \<le> r_next_goal_id r'"
  shows "work_ok room r'"
proof -
  have "goal_ok room r' j g0" if "hm_get (r_goals r) j = Some g0" for j g0
    by (rule goal_ok_mono [of room r])
      (use that ok in \<open>auto simp: work_ok_def r' hm_contains_def task_done_def\<close>)
  moreover have "one_active r'"
    using ok only unfolding work_ok_def one_active_def r' by (auto split: if_splits)
  moreover have "task_ok room r' j t" if "hm_get (r_tasks r) j = Some t" for j t
    using that ok by (auto simp: work_ok_def task_ok_def r')
  ultimately show ?thesis using ok g by (auto simp: work_ok_def r' split: if_splits)
qed

lemma create_goal_okD:
  assumes "create_goal room req now h = (Ok g, h')"
  obtains r ids s where "r = room_mut room h" and "st_lead (r_settings r) \<noteq> None"
    and "\<forall>g \<in> set (hm_values (r_goals r)). g_status g \<noteq> GoalActive"
    and "normalize_goal_tasks r (cg_completion req) (cg_task_ids req) = Inr ids"
    and "g = new_goal room r req ids now" and "upsert_goal g (h_store h) = (Ok (), s)"
    and "h' = put_room room (send (FGoal g) (r\<lparr>r_next_goal_id := u64_add (r_next_goal_id r) 1,
           r_goals := hm_insert (r_next_goal_id r) g (r_goals r)\<rparr>)) ((put_room room r h)\<lparr>h_store := s\<rparr>)"
  using assms
  by (auto simp: create_goal_def Let_def split: sum.splits prod.splits if_splits
      elim!: with_storeE)

lemma create_goal_err:
  assumes "create_goal room req now h = (Err e, h')"
  shows "h_rooms h' = h_rooms (put_room room (room_mut room h) h)
     \<and> sto_conn (h_store h') = sto_conn (h_store h)"
  using assms
  by (auto simp: create_goal_def upsert_goal_def Let_def put_room_def split: sum.splits prod.splits if_splits
      elim!: with_storeE dest: wr.err_rolls_back)

lemma new_goal_ok:
  assumes "normalize_goal_tasks r (cg_completion req) (cg_task_ids req) = Inr ids"
    and "st_lead (r_settings r) \<noteq> None" and "r_next_goal_id r < r_next_goal_id r'"
    and "r_tasks r' = r_tasks r" "r_settings r' = r_settings r"
  shows "goal_ok room r' (r_next_goal_id r) (new_goal room r req ids now)"
  using normalize_goal_tasks_ok [OF assms(1)] assms(2-)
  by (auto simp: goal_ok_def new_goal_def Let_def all_goal_tasks_done_def task_done_def)

lemma create_goal_keeps_work_inv:
  assumes inv: "work_inv h" and bound: "r_next_goal_id (room_mut room h) < u64_max"
  shows "work_inv (snd (create_goal room req now h))"
proof -
  obtain res h' where c: "create_goal room req now h = (res, h')" by force
  have inv0: "work_inv (put_room room (room_mut room h) h)"
    using inv by (intro work_inv_put work_inv_room_mut)
  show ?thesis
  proof (cases res)
    case (Inl e)
    then show ?thesis using c create_goal_err inv0 by (metis snd_conv work_inv_rooms)
  next
    case (Inr g)
    from c [unfolded Inr] show ?thesis
    proof (rule create_goal_okD)
      fix r ids s
      let ?r = "send (FGoal g) (r\<lparr>r_next_goal_id := u64_add (r_next_goal_id r) 1,
           r_goals := hm_insert (r_next_goal_id r) g (r_goals r)\<rparr>)"
      assume r: "r = room_mut room h" and lead: "st_lead (r_settings r) \<noteq> None"
        and none: "\<forall>g \<in> set (hm_values (r_goals r)). g_status g \<noteq> GoalActive"
        and n: "normalize_goal_tasks r (cg_completion req) (cg_task_ids req) = Inr ids"
        and g: "g = new_goal room r req ids now"
        and h': "h' = put_room room ?r ((put_room room r h)\<lparr>h_store := s\<rparr>)"
      have "work_ok room r" unfolding r by (rule work_inv_room_mut [OF inv])
      then have "work_ok room ?r"
      proof (rule work_ok_put_goal [where g = g])
        show "goal_ok room ?r (r_next_goal_id r) g"
          unfolding g by (rule new_goal_ok [OF n lead]) (use bound r in simp_all)
        show "\<forall>j g0. hm_get (r_goals r) j = Some g0 \<longrightarrow> g_status g0 = GoalActive \<longrightarrow> j = r_next_goal_id r"
          using none hm_values_get by metis
      qed (use bound r in simp_all)
      moreover have "work_inv ((put_room room r h)\<lparr>h_store := s\<rparr>)"
        using inv0 unfolding r by (simp add: work_inv_def get_room_def)
      ultimately show ?thesis unfolding c h' snd_conv by (intro work_inv_put)
    qed
  qed
qed

lemma goal_fields_same [simp]:
  "g_id (goal_fields req g) = g_id g" "g_room (goal_fields req g) = g_room g"
  "g_status (goal_fields req g) = g_status g" "g_closed_at (goal_fields req g) = g_closed_at g"
  "g_progress_at (goal_fields req g) = g_progress_at g"
  by (simp_all add: goal_fields_def Let_def split: option.split)

lemma goal_set_status_okD:
  assumes "goal_set_status r i req now g = Inr g'"
  shows "g_id g' = g_id g" "g_room g' = g_room g" "g_completion g' = g_completion g"
    "g_task_ids g' = g_task_ids g" "g_progress_at g' = g_progress_at g"
    and "(g_closed_at g = None \<longleftrightarrow> g_status g = GoalActive) \<Longrightarrow>
         (g_closed_at g' = None \<longleftrightarrow> g_status g' = GoalActive)"
    and "g_status g' = GoalActive \<Longrightarrow> g_status g = GoalActive
         \<or> (\<forall>other \<in> set (hm_values (r_goals r)). g_status other = GoalActive \<longrightarrow> g_id other = i)"
  using assms by (auto simp: goal_set_status_def split: option.splits if_splits)

lemma goal_transition_okD:
  assumes tr: "goal_transition r i req now g = Inr g'" and old: "goal_ok room r i g"
  shows "goal_ok room r i g'" and "g_progress_at g' = g_progress_at g"
    and "g_status g' = GoalActive \<Longrightarrow> g_status g = GoalActive
         \<or> (\<forall>other \<in> set (hm_values (r_goals r)). g_status other = GoalActive \<longrightarrow> g_id other = i)"
proof -
  let ?g1 = "goal_fields req g"
  from tr obtain ids g2 where n: "normalize_goal_tasks r (g_completion ?g1) (g_task_ids ?g1) = Inr ids"
    and s: "goal_set_status r i req now (?g1\<lparr>g_task_ids := ids\<rparr>) = Inr g2"
    and fin: "(if g_status g2 = GoalActive \<and> st_lead (r_settings r) = None then Err LeadRequired
       else if g_status g2 = GoalActive \<and> all_goal_tasks_done r g2
       then Ok (g2\<lparr>g_status := GoalAchieved, g_closed_at := Some now\<rparr>) else Ok g2) = Ok g'"
    by (auto simp: goal_transition_def Let_def split: sum.splits)
  have lead: "g_status g2 = GoalActive \<Longrightarrow> st_lead (r_settings r) \<noteq> None"
    and g': "g' = (if g_status g2 = GoalActive \<and> all_goal_tasks_done r g2
        then g2\<lparr>g_status := GoalAchieved, g_closed_at := Some now\<rparr> else g2)"
    using fin by (auto split: if_splits)
  have closed: "g_closed_at g2 = None \<longleftrightarrow> g_status g2 = GoalActive"
    using goal_set_status_okD(6) [OF s] old by (simp add: goal_ok_def)
  show "goal_ok room r i g'"
    using old normalize_goal_tasks_ok [OF n] goal_set_status_okD(1-5) [OF s] lead closed
    unfolding g' by (simp add: goal_ok_def split: if_splits)
  show "g_progress_at g' = g_progress_at g"
    using goal_set_status_okD(5) [OF s] unfolding g' by simp
  show "g_status g' = GoalActive \<Longrightarrow> g_status g = GoalActive
         \<or> (\<forall>other \<in> set (hm_values (r_goals r)). g_status other = GoalActive \<longrightarrow> g_id other = i)"
    using goal_set_status_okD(7) [OF s] unfolding g' by (simp split: if_splits)
qed

lemma mirror_goal_fields [simp]:
  "r_tasks (mirror_goal room g p r) = r_tasks r"
  "r_goals (mirror_goal room g p r) = hm_insert (g_id g) g (r_goals r)"
  "r_settings (mirror_goal room g p r) = r_settings r"
  "r_next_task_id (mirror_goal room g p r) = r_next_task_id r"
  "r_next_goal_id (mirror_goal room g p r) = r_next_goal_id r"
  "r_waits (mirror_goal room g p r) = r_waits r"
  "r_members (mirror_goal room g p r) = r_members r"
  "r_history (mirror_goal room g p r) = r_history r"
  by (simp_all add: mirror_goal_def Let_def)

lemma update_goal_err:
  assumes "update_goal room i req now h = (Err e, h')"
  shows "h_rooms h' = h_rooms h \<and> sto_conn (h_store h') = sto_conn (h_store h)"
  using assms
  by (auto simp: update_goal_def upsert_goal_with_care_reset_def Let_def
      next_condition_generation_rooms
      split: option.splits sum.splits prod.splits if_splits elim!: with_storeE dest: wr.err_rolls_back)

lemma update_goal_okD:
  assumes "update_goal room i req now h = (Ok g', h')"
  obtains r old g progressed p h1 s where "get_room h room = Some r"
    and "hm_get (r_goals r) i = Some old" and "goal_transition r i req now old = Inr g"
    and "progressed = (goal_key old \<noteq> goal_key g)"
    and "g' = (if progressed then g\<lparr>g_progress_at := p\<rparr> else g)"
    and "upsert_goal_with_care_reset g' progressed (h_store h) = (Ok (), s)"
    and "h_rooms h1 = h_rooms h"
    and "h' = put_room room (mirror_goal room g' progressed r) (h1\<lparr>h_store := s\<rparr>)"
proof -
  from assms obtain r old g where
    r: "get_room h room = Some r" and old: "hm_get (r_goals r) i = Some old"
    and tr: "goal_transition r i req now old = Inr g"
    by (auto simp: update_goal_def split: option.splits sum.splits prod.splits)
  define progressed where pr: "progressed = (goal_key old \<noteq> goal_key g)"
  obtain p h1 where gen: "next_condition_generation now (g_progress_at g) h = (p, h1)" by force
  define h2 where "h2 = (if progressed then h1 else h)"
  have h2: "h_rooms h2 = h_rooms h" "h_store h2 = h_store h"
    using next_condition_generation_rooms [OF gen] by (simp_all add: h2_def)
  from assms r old tr gen obtain s where
    "g' = (if progressed then g\<lparr>g_progress_at := p\<rparr> else g)"
    "upsert_goal_with_care_reset g' progressed (h_store h2) = (Ok (), s)"
    "h' = put_room room (mirror_goal room g' progressed r) (h2\<lparr>h_store := s\<rparr>)"
    by (cases progressed) (auto simp: update_goal_def Let_def h2_def pr split: sum.splits prod.splits
        elim!: with_storeE)
  then show thesis using h2 by (intro that [OF r old tr pr]) simp_all
qed

lemma update_goal_ok_work:
  assumes inv: "work_inv h" and "update_goal room i req now h = (Ok g', h')"
  shows "work_inv h'"
  using assms(2)
proof (rule update_goal_okD)
  fix r old g progressed p h1 s
  assume r: "get_room h room = Some r" and old: "hm_get (r_goals r) i = Some old"
    and tr: "goal_transition r i req now old = Inr g"
    and g': "g' = (if progressed then g\<lparr>g_progress_at := p\<rparr> else g)" and h1: "h_rooms h1 = h_rooms h"
    and h': "h' = put_room room (mirror_goal room g' progressed r) (h1\<lparr>h_store := s\<rparr>)"
  have ok: "work_ok room r" using inv r by (simp add: work_inv_def)
  then have oldok: "goal_ok room r i old" and act: "one_active r" and hm: "hm_ok (r_goals r)"
    and ids: "\<And>j g0. hm_get (r_goals r) j = Some g0 \<Longrightarrow> g_id g0 = j"
    using old by (auto simp: work_ok_def goal_ok_def)
  have gok: "goal_ok room r i g'" "g_id g' = i" "g_status g' = g_status g"
    using goal_transition_okD(1) [OF tr oldok]
    by (auto simp: g' goal_ok_def all_goal_tasks_done_def split: if_splits)
  have "work_ok room (mirror_goal room g' progressed r)"
  proof (rule work_ok_put_goal [OF ok, where g = g' and i = i])
    show "goal_ok room (mirror_goal room g' progressed r) i g'"
      by (rule goal_ok_mono [of room r]) (use gok in \<open>simp_all add: task_done_def\<close>)
    show "\<forall>j g0. hm_get (r_goals r) j = Some g0 \<longrightarrow> g_status g0 = GoalActive \<longrightarrow> j = i"
      if "g_status g' = GoalActive"
      using goal_transition_okD(3) [OF tr oldok] that gok(3) act old ids hm_values_get
      unfolding one_active_def by metis
  qed (simp_all add: gok)
  moreover have "work_inv (h1\<lparr>h_store := s\<rparr>)" using inv h1 by (simp add: work_inv_def get_room_def)
  ultimately show ?thesis unfolding h' by (intro work_inv_put)
qed

lemma update_goal_keeps_work_inv:
  assumes "work_inv h"
  shows "work_inv (snd (update_goal room i req now h))"
proof -
  obtain res h' where u: "update_goal room i req now h = (res, h')" by force
  show ?thesis
  proof (cases res)
    case (Inl e)
    then have "h_rooms h' = h_rooms h" using u update_goal_err by blast
    then show ?thesis using assms u by (simp add: work_inv_rooms [of h' h])
  next
    case (Inr t)
    then show ?thesis using u update_goal_ok_work [OF assms] by simp
  qed
qed

end
