(* ===== verification/Waits.thy ===== *)
theory Waits
  imports Conditions
begin

text \<open>
  \<^verbatim>\<open>crates/server/src/hub/work/wait.rs\<close>: the declared dependency edges between the
  participants of a room, each participant waiting for at most one other, and the
  detection of cycles among them.  \<open>wait_cycle_after\<close> walks the edges from a proposed
  one; it is shown to terminate, to return exactly the participants of the cycle
  through the waiter, and to return nothing exactly when no such cycle exists
  (transitive closure of the edge relation).
\<close>

datatype WaitError = WaitNotFound | SelfWait | WaitStorage

definition waits_view :: "hub \<Rightarrow> string \<Rightarrow> wait_state list" where
  "waits_view h room = (case get_room h room of None \<Rightarrow> []
     | Some r \<Rightarrow> sort_key w_waiter (hm_values (r_waits r)))"

text \<open>The edge out of a participant, with the proposed edge in place of the stored one.\<close>

definition wait_next :: "room \<Rightarrow> wait_state \<Rightarrow> string \<Rightarrow> string option" where
  "wait_next r proposed current =
     (if current = w_waiter proposed then Some (w_waiting_for proposed)
      else map_option w_waiting_for (hm_get (r_waits r) current))"

function wait_walk :: "room \<Rightarrow> wait_state \<Rightarrow> string hashset \<Rightarrow> string list \<Rightarrow> string \<Rightarrow> string list" where
  "wait_walk r proposed seen path current =
     (if current \<in> set seen then []
      else (case wait_next r proposed current of
              None \<Rightarrow> []
            | Some next_name \<Rightarrow>
                if next_name = w_waiter proposed then path @ [current]
                else wait_walk r proposed (hs_insert current seen) (path @ [current]) next_name))"
  by pat_completeness auto

definition wait_targets :: "room \<Rightarrow> wait_state \<Rightarrow> string set" where
  "wait_targets r proposed = insert (w_waiting_for proposed) (w_waiting_for ` set (hm_values (r_waits r)))"

lemma wait_next_target: "wait_next r p x = Some y \<Longrightarrow> y \<in> wait_targets r p"
  by (auto simp: wait_next_def wait_targets_def dest: hm_values_get split: if_splits)

lemma finite_wait_targets [simp]: "finite (wait_targets r p)"
  by (simp add: wait_targets_def)

termination wait_walk
proof (relation "measure (\<lambda>(r, p, seen, path, current). card (insert current (wait_targets r p) - set seen))")
  fix r p seen path current next_name
  assume "current \<notin> set seen" and "wait_next r p current = Some next_name"
  then have "insert next_name (wait_targets r p) - set (hs_insert current seen)
      \<subset> insert current (wait_targets r p) - set seen"
    using wait_next_target by fastforce
  then show "((r, p, hs_insert current seen, path @ [current], next_name), (r, p, seen, path, current))
      \<in> measure (\<lambda>(r, p, seen, path, current). card (insert current (wait_targets r p) - set seen))"
    by (simp add: psubset_card_mono)
qed simp

definition wait_cycle_after :: "room \<Rightarrow> wait_state \<Rightarrow> string list" where
  "wait_cycle_after r proposed = wait_walk r proposed [] [] (w_waiter proposed)"

definition cycle_step ::
  "room \<Rightarrow> string \<Rightarrow> string hashset \<times> string list list \<Rightarrow> string hashset \<times> string list list" where
  "cycle_step r name acc = (case hm_get (r_waits r) name of
     None \<Rightarrow> acc
   | Some edge \<Rightarrow>
       let cycle = wait_cycle_after r edge
       in if cycle = [] then acc
          else let identity = join_with [CHR 0x00] (sort cycle)
               in if identity \<in> set (fst acc) then acc
                  else (hs_insert identity (fst acc), snd acc @ [cycle]))"

definition wait_cycles :: "room \<Rightarrow> string list list" where
  "wait_cycles r = snd (fold (cycle_step r) (sort (hm_keys (r_waits r))) ([], []))"

text \<open>The new or replacing edge, and the write of it through the store.\<close>

definition new_wait :: "string \<Rightarrow> set_wait_body \<Rightarrow> u64 \<Rightarrow> wait_state" where
  "new_wait room req since = \<lparr> w_room = room, w_waiter = sw_by req,
     w_waiting_for = sw_waiting_for req, w_reason = sw_reason req, w_since = since,
     w_last_signal_at = None, w_signal_count = 0 \<rparr>"

definition mirror_wait :: "string \<Rightarrow> wait_state \<Rightarrow> room \<Rightarrow> room" where
  "mirror_wait room wait r =
     (let r1 = resolve_wait_attentions room (w_waiter wait) (w_since wait)
            (r\<lparr>r_care_marks := hm_remove (''wait:'' @ w_waiter wait) (r_care_marks r)\<rparr>)
      in send (FWait (w_waiter wait) (Some wait))
           (r1\<lparr>r_waits := hm_insert (w_waiter wait) wait (r_waits r1)\<rparr>))"

definition declare_wait ::
  "string \<Rightarrow> set_wait_body \<Rightarrow> u64 \<Rightarrow> room \<Rightarrow> hub \<Rightarrow> (WaitError, wait_state) result \<times> hub" where
  "declare_wait room req now r h =
     (let previous_since = (case hm_get (r_waits r) (sw_by req) of None \<Rightarrow> 0 | Some w \<Rightarrow> w_since w);
          (since, h1) = next_condition_generation now previous_since h;
          wait = new_wait room req since;
          (res, h2) = with_store (replace_wait_with_care wait since) h1
      in case res of
           Inl _ \<Rightarrow> (Err WaitStorage, h2)
         | Inr _ \<Rightarrow> (Ok wait, put_room room (mirror_wait room wait r) h2))"

definition set_wait ::
  "string \<Rightarrow> set_wait_body \<Rightarrow> u64 \<Rightarrow> hub \<Rightarrow> (WaitError, wait_state) result \<times> hub" where
  "set_wait room req now h =
     (if sw_by req = sw_waiting_for req then (Err SelfWait, h)
      else let r = room_mut room h;
               h0 = put_room room r h
           in case hm_get (r_waits r) (sw_by req) of
                Some existing \<Rightarrow>
                  if w_waiting_for existing = sw_waiting_for req \<and> w_reason existing = sw_reason req
                  then (Ok existing, h0) else declare_wait room req now r h0
              | None \<Rightarrow> declare_wait room req now r h0)"

definition clear_wait :: "string \<Rightarrow> string \<Rightarrow> u64 \<Rightarrow> hub \<Rightarrow> (WaitError, unit) result \<times> hub" where
  "clear_wait room waiter now h = (case get_room h room of
     None \<Rightarrow> (Err WaitNotFound, h)
   | Some r \<Rightarrow>
       if \<not> hm_contains (r_waits r) waiter then (Err WaitNotFound, h)
       else let (res, h1) = with_store (store_delete_wait room waiter now) h
            in case res of
                 Inl _ \<Rightarrow> (Err WaitStorage, h1)
               | Inr _ \<Rightarrow> (Ok (), put_room room (send (FWait waiter None)
                   (resolve_wait_attentions room waiter now
                     (r\<lparr>r_waits := hm_remove waiter (r_waits r)\<rparr>))) h1))"

subsection \<open>Cycles\<close>

text \<open>The specification: one participant waits, directly or through others, for another.\<close>

definition waits_on :: "room \<Rightarrow> wait_state \<Rightarrow> string \<Rightarrow> string \<Rightarrow> bool" where
  "waits_on r proposed x y = (wait_next r proposed x = Some y)"

fun walk :: "room \<Rightarrow> wait_state \<Rightarrow> nat \<Rightarrow> string option" where
  "walk r p 0 = Some (w_waiter p)"
| "walk r p (Suc k) = Option.bind (walk r p k) (wait_next r p)"

lemma walk_iff_closure: "(waits_on r p)\<^sup>+\<^sup>+ (w_waiter p) y \<longleftrightarrow> (\<exists>k. walk r p (Suc k) = Some y)"
proof
  show "(waits_on r p)\<^sup>+\<^sup>+ (w_waiter p) y \<Longrightarrow> \<exists>k. walk r p (Suc k) = Some y"
  proof (induction rule: tranclp_induct)
    case (base y)
    then show ?case by (intro exI [of _ 0]) (simp add: waits_on_def)
  next
    case (step y z)
    then show ?case by (metis bind.bind_lunit walk.simps(2) waits_on_def)
  qed
  have "walk r p (Suc k) = Some y \<Longrightarrow> (waits_on r p)\<^sup>+\<^sup>+ (w_waiter p) y" for k
  proof (induction k arbitrary: y)
    case 0
    then show ?case by (simp add: waits_on_def tranclp.r_into_trancl)
  next
    case (Suc k)
    then obtain z where "walk r p (Suc k) = Some z" "wait_next r p z = Some y"
      by (auto simp: bind_eq_Some_conv)
    with Suc.IH show ?case by (metis tranclp.trancl_into_trancl waits_on_def)
  qed
  then show "\<exists>k. walk r p (Suc k) = Some y \<Longrightarrow> (waits_on r p)\<^sup>+\<^sup>+ (w_waiter p) y" by blast
qed

text \<open>A walk that comes back to an earlier station other than the start stays among them.\<close>

lemma walk_trapped:
  assumes j: "0 < j" "j < m" "walk r p m = walk r p j"
  shows "0 < k \<Longrightarrow> \<exists>i. 0 < i \<and> i < m \<and> walk r p k = walk r p i"
proof (induction k)
  case (Suc k)
  show ?case
  proof (cases k)
    case 0
    show ?thesis using j 0 by (intro exI [of _ 1]) auto
  next
    case (Suc k')
    with Suc.IH obtain i where i: "0 < i" "i < m" "walk r p k = walk r p i" by auto
    show ?thesis
    proof (cases "Suc i = m")
      case True
      then show ?thesis using i j by (metis walk.simps(2))
    next
      case False
      then show ?thesis using i by (intro exI [of _ "Suc i"]) simp
    qed
  qed
qed simp

lemma walk_stopped: "walk r p m = None \<Longrightarrow> m \<le> k \<Longrightarrow> walk r p k = None"
proof (induction k)
  case (Suc k)
  then show ?case by (cases "m = Suc k") (auto simp: le_Suc_eq)
qed simp

text \<open>The state of the loop after \<open>m\<close> steps, and what it returns from there.\<close>

definition walk_state :: "room \<Rightarrow> wait_state \<Rightarrow> string list \<Rightarrow> string \<Rightarrow> bool" where
  "walk_state r p path current = (map Some path = map (walk r p) [0..<length path]
     \<and> walk r p (length path) = Some current \<and> distinct path
     \<and> (\<forall>k. 0 < k \<longrightarrow> k \<le> length path \<longrightarrow> walk r p k \<noteq> Some (w_waiter p)))"

definition walk_result :: "room \<Rightarrow> wait_state \<Rightarrow> string list \<Rightarrow> bool" where
  "walk_result r p c = (if c = [] then \<forall>k. 0 < k \<longrightarrow> walk r p k \<noteq> Some (w_waiter p)
     else map Some c = map (walk r p) [0..<length c] \<and> distinct c
          \<and> walk r p (length c) = Some (w_waiter p))"

lemma walk_state_nth: "walk_state r p path x \<Longrightarrow> i < length path \<Longrightarrow> walk r p i = Some (path ! i)"
  unfolding walk_state_def by (metis add_0 length_map nth_map nth_upt map_nth)

lemma wait_walk_result:
  "set seen = set path \<Longrightarrow> walk_state r p path current \<Longrightarrow> walk_result r p (wait_walk r p seen path current)"
proof (induction r p seen path current rule: wait_walk.induct)
  case (1 r p seen path current)
  note st = 1(3) and seen = 1(2)
  have cur: "walk r p (length path) = Some current" using st by (simp add: walk_state_def)
  show ?case
  proof (cases "current \<in> set seen")
    case True
    then obtain j where j: "j < length path" "path ! j = current" using seen by (metis in_set_conv_nth)
    then have wj: "walk r p (length path) = walk r p j" using walk_state_nth [OF st] cur by simp
    have "j \<noteq> 0"
    proof
      assume "j = 0"
      then have "walk r p (length path) = Some (w_waiter p)" using wj by simp
      moreover have "0 < length path" using j(1) by auto
      ultimately show False using st unfolding walk_state_def by blast
    qed
    then have "\<exists>i. 0 < i \<and> i < length path \<and> walk r p k = walk r p i" if "0 < k" for k
      using walk_trapped [OF _ j(1) wj that] by simp
    then have "walk r p k \<noteq> Some (w_waiter p)" if "0 < k" for k
      using st that by (metis less_imp_le walk_state_def)
    then show ?thesis using True by (simp add: walk_result_def)
  next
    case False
    show ?thesis
    proof (cases "wait_next r p current")
      case None
      then have "walk r p (Suc (length path)) = None" using cur by simp
      then have "walk r p k \<noteq> Some (w_waiter p)" if "0 < k" for k
        using st that walk_stopped [of r p "Suc (length path)" k]
        by (cases "k \<le> length path") (auto simp: walk_state_def)
      then show ?thesis using False None by (simp add: walk_result_def)
    next
      case (Some n)
      have next_w: "walk r p (Suc (length path)) = Some n" using cur Some by simp
      have ext: "map Some (path @ [current]) = map (walk r p) [0..<length (path @ [current])]"
        "distinct (path @ [current])"
        using st False seen by (auto simp: walk_state_def)
      show ?thesis
      proof (cases "n = w_waiter p")
        case True
        then show ?thesis using False Some next_w ext by (auto simp: walk_result_def)
      next
        case neq: False
        have "walk_state r p (path @ [current]) n"
          using st ext next_w neq by (auto simp: walk_state_def le_Suc_eq)
        then show ?thesis using 1(1) [OF False Some neq] False Some neq seen by simp
      qed
    qed
  qed
qed

lemma wait_cycle_after_result: "walk_result r p (wait_cycle_after r p)"
  unfolding wait_cycle_after_def by (rule wait_walk_result) (simp_all add: walk_state_def)

text \<open>The contract of the detection, over the transitive closure of the edges.\<close>

lemma wait_cycle_after_iff:
  "wait_cycle_after r p \<noteq> [] \<longleftrightarrow> (waits_on r p)\<^sup>+\<^sup>+ (w_waiter p) (w_waiter p)"
proof -
  have "(\<exists>k. walk r p (Suc k) = Some (w_waiter p)) \<longleftrightarrow> (\<exists>k > 0. walk r p k = Some (w_waiter p))"
    by (metis gr0_conv_Suc zero_less_Suc)
  then show ?thesis
    using wait_cycle_after_result [of r p]
    by (auto simp: walk_iff_closure walk_result_def simp del: walk.simps split: if_splits)
qed

lemma wait_cycle_after_members:
  assumes "wait_cycle_after r p \<noteq> []"
  shows "distinct (wait_cycle_after r p)" and "hd (wait_cycle_after r p) = w_waiter p"
    and "i < length (wait_cycle_after r p) \<Longrightarrow>
      wait_next r p (wait_cycle_after r p ! i)
        = Some (wait_cycle_after r p ! (Suc i mod length (wait_cycle_after r p)))"
proof -
  let ?c = "wait_cycle_after r p" and ?n = "length (wait_cycle_after r p)"
  have res: "map Some ?c = map (walk r p) [0..<?n]" "distinct ?c" "walk r p ?n = Some (w_waiter p)"
    using assms wait_cycle_after_result [of r p] by (simp_all add: walk_result_def)
  have nth: "walk r p k = Some (?c ! k)" if "k < ?n" for k
    using res(1) that by (metis add_0 length_map nth_map nth_upt map_nth)
  have zero: "?c ! 0 = w_waiter p" using nth [of 0] assms by simp
  show "distinct ?c" by (rule res(2))
  show "hd ?c = w_waiter p" using zero assms by (simp add: hd_conv_nth)
  assume i: "i < ?n"
  have "wait_next r p (?c ! i) = walk r p (Suc i)" using nth [OF i] by simp
  also have "\<dots> = Some (?c ! (Suc i mod ?n))"
  proof (cases "Suc i = ?n")
    case True
    then have "Suc i mod ?n = 0" by simp
    with True res(3) zero show ?thesis by (simp del: walk.simps)
  next
    case False
    then show ?thesis using i nth [of "Suc i"] by (simp del: walk.simps)
  qed
  finally show "wait_next r p (?c ! i) = Some (?c ! (Suc i mod ?n))" .
qed

text \<open>For a stored edge the proposed edge is the stored one, so all walks use one graph.\<close>

definition stored_next :: "room \<Rightarrow> string \<Rightarrow> string option" where
  "stored_next r x = map_option w_waiting_for (hm_get (r_waits r) x)"

lemma wait_next_stored:
  assumes "hm_get (r_waits r) (w_waiter edge) = Some edge"
  shows "wait_next r edge = stored_next r"
  using assms by (auto simp: wait_next_def stored_next_def fun_eq_iff)

definition waits_ok :: "string \<Rightarrow> room \<Rightarrow> bool" where
  "waits_ok room r = (hm_ok (r_waits r) \<and> (\<forall>x w. hm_get (r_waits r) x = Some w \<longrightarrow>
     w_waiter w = x \<and> w_room w = room \<and> w_waiting_for w \<noteq> x))"

definition is_wait_cycle :: "room \<Rightarrow> string list \<Rightarrow> bool" where
  "is_wait_cycle r c = (c \<noteq> [] \<and> distinct c
     \<and> (\<forall>i < length c. stored_next r (c ! i) = Some (c ! (Suc i mod length c))))"

lemma cycle_of_edge:
  assumes "waits_ok room r" and "hm_get (r_waits r) x = Some edge" and "wait_cycle_after r edge \<noteq> []"
  shows "is_wait_cycle r (wait_cycle_after r edge)" and "x \<in> set (wait_cycle_after r edge)"
proof -
  have x: "w_waiter edge = x" using assms(1,2) by (simp add: waits_ok_def)
  then have "wait_next r edge = stored_next r" using assms(2) by (simp add: wait_next_stored)
  then show "is_wait_cycle r (wait_cycle_after r edge)"
    using wait_cycle_after_members [OF assms(3)] assms(3) by (simp add: is_wait_cycle_def)
  show "x \<in> set (wait_cycle_after r edge)"
    using wait_cycle_after_members(2) [OF assms(3)] assms(3) x by (metis list.set_sel(1))
qed

text \<open>The identity of a cycle is the joined list of its names, injective without \<open>NUL\<close>.\<close>

lemma split_join:
  assumes "xs \<noteq> []" and "\<forall>x \<in> set xs. c \<notin> set x"
  shows "split_by (\<lambda>d. d = c) (join_with [c] xs) = xs"
proof -
  have word: "c \<notin> set w \<Longrightarrow> split_by (\<lambda>d. d = c) w = [w]" for w by (induction w) auto
  have glue: "c \<notin> set w \<Longrightarrow> split_by (\<lambda>d. d = c) (w @ c # rest) = w # split_by (\<lambda>d. d = c) rest" for w rest
    by (induction w) auto
  show ?thesis using assms
  proof (induction xs rule: induct_list012)
    case (3 x y zs)
    then show ?case using glue [of x "join_with [c] (y # zs)"] by (simp del: split_by.simps)
  qed (use word in auto)
qed

lemma join_inj:
  assumes "xs \<noteq> []" "ys \<noteq> []" "\<forall>x \<in> set xs \<union> set ys. c \<notin> set x" "join_with [c] xs = join_with [c] ys"
  shows "xs = ys"
proof -
  have "xs = split_by (\<lambda>d. d = c) (join_with [c] xs)" using assms(1,3) split_join [of xs c] by simp
  also have "\<dots> = ys" unfolding assms(4) using assms(2,3) split_join [of ys c] by simp
  finally show ?thesis .
qed

definition cycle_id :: "string list \<Rightarrow> string" where
  "cycle_id c = join_with [CHR 0x00] (sort c)"

lemma fold_cycle_step:
  assumes "waits_ok room r"
    and "set (fst acc) = cycle_id ` set (snd acc)" and "\<forall>c \<in> set (snd acc). is_wait_cycle r c"
    and "inj_on cycle_id (set (snd acc))" and "distinct (snd acc)"
  shows "let acc' = fold (cycle_step r) names acc in
     set (fst acc') = cycle_id ` set (snd acc') \<and> (\<forall>c \<in> set (snd acc'). is_wait_cycle r c)
     \<and> inj_on cycle_id (set (snd acc')) \<and> distinct (snd acc') \<and> set (snd acc) \<subseteq> set (snd acc')
     \<and> (\<forall>x \<in> set names. \<forall>edge. hm_get (r_waits r) x = Some edge \<longrightarrow> wait_cycle_after r edge \<noteq> []
          \<longrightarrow> cycle_id (wait_cycle_after r edge) \<in> cycle_id ` set (snd acc'))"
  using assms(2-)
proof (induction names arbitrary: acc)
  case (Cons x names)
  define acc1 where "acc1 = cycle_step r x acc"
  consider (same) "acc1 = acc" "\<And>e. hm_get (r_waits r) x = Some e \<Longrightarrow> wait_cycle_after r e \<noteq> [] \<Longrightarrow>
        cycle_id (wait_cycle_after r e) \<in> set (fst acc)"
    | (found) e where "hm_get (r_waits r) x = Some e" "wait_cycle_after r e \<noteq> []"
        "cycle_id (wait_cycle_after r e) \<notin> set (fst acc)"
        "acc1 = (hs_insert (cycle_id (wait_cycle_after r e)) (fst acc), snd acc @ [wait_cycle_after r e])"
  proof (cases "hm_get (r_waits r) x")
    case None
    then show ?thesis by (intro same) (simp_all add: acc1_def cycle_step_def)
  next
    case (Some e)
    show ?thesis
    proof (cases "wait_cycle_after r e = [] \<or> cycle_id (wait_cycle_after r e) \<in> set (fst acc)")
      case True
      then show ?thesis using Some
        by (intro same) (auto simp: acc1_def cycle_step_def cycle_id_def Let_def)
    next
      case False
      then show ?thesis using Some
        by (intro found [of e]) (auto simp: acc1_def cycle_step_def cycle_id_def Let_def)
    qed
  qed
  then have step: "set (fst acc1) = cycle_id ` set (snd acc1) \<and> (\<forall>c \<in> set (snd acc1). is_wait_cycle r c)
    \<and> inj_on cycle_id (set (snd acc1)) \<and> distinct (snd acc1) \<and> set (snd acc) \<subseteq> set (snd acc1)
    \<and> (\<forall>e. hm_get (r_waits r) x = Some e \<longrightarrow> wait_cycle_after r e \<noteq> [] \<longrightarrow>
        cycle_id (wait_cycle_after r e) \<in> cycle_id ` set (snd acc1))"
  proof cases
    case same
    then show ?thesis using Cons.prems by auto
  next
    case found
    then show ?thesis
      using Cons.prems cycle_of_edge(1) [OF assms(1) found(1,2)] by auto
  qed
  let ?out = "fold (cycle_step r) names acc1"
  have out: "set (snd acc1) \<subseteq> set (snd ?out)"
    "set (fst ?out) = cycle_id ` set (snd ?out)" "\<forall>c \<in> set (snd ?out). is_wait_cycle r c"
    "inj_on cycle_id (set (snd ?out))" "distinct (snd ?out)"
    "\<forall>x \<in> set names. \<forall>edge. hm_get (r_waits r) x = Some edge \<longrightarrow> wait_cycle_after r edge \<noteq> []
          \<longrightarrow> cycle_id (wait_cycle_after r edge) \<in> cycle_id ` set (snd ?out)"
    using Cons.IH [of acc1] step by (simp_all add: Let_def)
  have here: "\<forall>e. hm_get (r_waits r) x = Some e \<longrightarrow> wait_cycle_after r e \<noteq> [] \<longrightarrow>
        cycle_id (wait_cycle_after r e) \<in> cycle_id ` set (snd ?out)"
    using step out(1) by blast
  have "fold (cycle_step r) (x # names) acc = ?out" by (simp add: acc1_def)
  moreover have "set (snd acc) \<subseteq> set (snd ?out)" using step out(1) by blast
  ultimately show ?case using out here by (simp add: Let_def)
qed simp

lemma wait_cycles_facts:
  assumes "waits_ok room r"
  shows "\<forall>c \<in> set (wait_cycles r). is_wait_cycle r c"
    and "inj_on cycle_id (set (wait_cycles r))" and "distinct (wait_cycles r)"
    and "hm_get (r_waits r) x = Some edge \<Longrightarrow> wait_cycle_after r edge \<noteq> [] \<Longrightarrow>
       cycle_id (wait_cycle_after r edge) \<in> cycle_id ` set (wait_cycles r)"
  using fold_cycle_step [OF assms, of "([], [])" "sort (hm_keys (r_waits r))"]
  by (auto simp: wait_cycles_def Let_def hm_keys_iff)

lemma cycle_id_inj:
  assumes "is_wait_cycle r c" "is_wait_cycle r d" "cycle_id c = cycle_id d"
    and "\<forall>x \<in> set c \<union> set d. CHR 0x00 \<notin> set x"
  shows "set c = set d"
proof -
  have "sort c = sort d"
    by (rule join_inj [of _ _ "CHR 0x00"])
      (use assms in \<open>auto simp: cycle_id_def is_wait_cycle_def dest: arg_cong [of _ _ set]\<close>)
  then show ?thesis by (metis set_sort)
qed

text \<open>A participant is on a cycle of the room when it waits, through others, for itself.\<close>

definition deadlocked :: "room \<Rightarrow> string \<Rightarrow> bool" where
  "deadlocked r x = (\<lambda>a b. stored_next r a = Some b)\<^sup>+\<^sup>+ x x"

lemma deadlocked_edge:
  assumes "waits_ok room r" and "deadlocked r x"
  obtains edge where "hm_get (r_waits r) x = Some edge" and "wait_cycle_after r edge \<noteq> []"
proof -
  from assms(2) obtain y where "stored_next r x = Some y"
    unfolding deadlocked_def by (auto dest: tranclpD)
  then obtain edge where e: "hm_get (r_waits r) x = Some edge" by (auto simp: stored_next_def)
  then have w: "w_waiter edge = x" using assms(1) by (simp add: waits_ok_def)
  have "waits_on r edge = (\<lambda>a b. stored_next r a = Some b)"
    using wait_next_stored [of r edge] e w by (simp add: waits_on_def fun_eq_iff)
  with assms(2) w have "wait_cycle_after r edge \<noteq> []"
    by (simp add: wait_cycle_after_iff deadlocked_def)
  with e that show thesis by blast
qed

lemma is_wait_cycle_deadlocked:
  assumes c: "is_wait_cycle r c" and x: "x \<in> set c"
  shows "deadlocked r x"
proof -
  let ?n = "length c" and ?E = "\<lambda>a b. stored_next r a = Some b"
  have n: "0 < ?n" using c by (simp add: is_wait_cycle_def)
  obtain i where i: "i < ?n" "c ! i = x" using x by (metis in_set_conv_nth)
  have "?E\<^sup>+\<^sup>+ x (c ! ((i + Suc k) mod ?n))" for k
  proof (induction k)
    case 0
    have "?E x (c ! (Suc i mod ?n))" using c i by (auto simp: is_wait_cycle_def)
    then show ?case by (simp add: tranclp.r_into_trancl)
  next
    case (Suc k)
    let ?j = "(i + Suc k) mod ?n"
    have "?E (c ! ?j) (c ! (Suc ?j mod ?n))"
      using c n by (simp add: is_wait_cycle_def)
    moreover have "Suc ?j mod ?n = (i + Suc (Suc k)) mod ?n" by (simp add: mod_Suc_eq)
    ultimately show ?case using tranclp.trancl_into_trancl [OF Suc] by simp
  qed
  from this [of "?n - 1"] show ?thesis using i n by (simp add: deadlocked_def)
qed

subsection \<open>Setting and clearing a wait\<close>

lemma waits_ok_fresh [simp]: "waits_ok room (room_with m s n)"
  by (simp add: waits_ok_def room_with_def)

definition waits_inv :: "hub \<Rightarrow> bool" where
  "waits_inv h = (\<forall>room r. get_room h room = Some r \<longrightarrow> waits_ok room r)"

lemma waits_inv_room_mut: "waits_inv h \<Longrightarrow> waits_ok room (room_mut room h)"
  by (auto simp: waits_inv_def room_mut_def get_room_def split: option.split)

lemma waits_inv_put: "waits_inv h \<Longrightarrow> waits_ok room r \<Longrightarrow> waits_inv (put_room room r h)"
  by (simp add: waits_inv_def)

lemma waits_inv_rooms: "h_rooms h' = h_rooms h \<Longrightarrow> waits_inv h \<Longrightarrow> waits_inv h'"
  by (simp add: waits_inv_def get_room_def)

lemma mirror_wait_fields [simp]:
  "r_waits (mirror_wait room w r) = hm_insert (w_waiter w) w (r_waits r)"
  "r_tasks (mirror_wait room w r) = r_tasks r" "r_goals (mirror_wait room w r) = r_goals r"
  "r_settings (mirror_wait room w r) = r_settings r"
  "r_next_task_id (mirror_wait room w r) = r_next_task_id r"
  "r_next_goal_id (mirror_wait room w r) = r_next_goal_id r"
  "r_members (mirror_wait room w r) = r_members r"
  "r_history (mirror_wait room w r) = r_history r"
  by (simp_all add: mirror_wait_def Let_def)

lemma declare_wait_errD:
  assumes "declare_wait room req now r h = (Err e, h')"
  shows "h_rooms h' = h_rooms h" and "sto_conn (h_store h') = sto_conn (h_store h)"
  using assms
  by (auto simp: declare_wait_def replace_wait_with_care_def Let_def next_condition_generation_rooms
      split: sum.splits prod.splits elim!: with_storeE dest: wr.err_rolls_back)

lemma declare_wait_okD:
  assumes "declare_wait room req now r h = (Ok w, h')"
  obtains since h1 s where "w = new_wait room req since"
    and "next_condition_generation now
       (case hm_get (r_waits r) (sw_by req) of None \<Rightarrow> 0 | Some w \<Rightarrow> w_since w) h = (since, h1)"
    and "replace_wait_with_care w since (h_store h) = (Ok (), s)"
    and "h' = put_room room (mirror_wait room w r) (h1\<lparr>h_store := s\<rparr>)"
proof -
  obtain since h1 where g: "next_condition_generation now
    (case hm_get (r_waits r) (sw_by req) of None \<Rightarrow> 0 | Some w \<Rightarrow> w_since w) h = (since, h1)" by force
  then show thesis using assms next_condition_generation_rooms(4) [OF g]
    by (auto simp: declare_wait_def Let_def split: sum.splits prod.splits elim!: with_storeE
        intro!: that)
qed

lemma set_wait_cases:
  assumes "sw_by req \<noteq> sw_waiting_for req"
  obtains (same) w where "hm_get (r_waits (room_mut room h)) (sw_by req) = Some w"
      "w_waiting_for w = sw_waiting_for req" "w_reason w = sw_reason req"
      "set_wait room req now h = (Ok w, put_room room (room_mut room h) h)"
  | (fresh) "set_wait room req now h
      = declare_wait room req now (room_mut room h) (put_room room (room_mut room h) h)"
  using assms by (fastforce simp: set_wait_def Let_def split: option.splits if_splits)

lemma set_wait_keeps_waits_inv:
  assumes inv: "waits_inv h"
  shows "waits_inv (snd (set_wait room req now h))"
proof (cases "sw_by req = sw_waiting_for req")
  case True
  then show ?thesis using inv by (simp add: set_wait_def)
next
  case False
  let ?r = "room_mut room h" and ?h = "put_room room (room_mut room h) h"
  have r: "waits_ok room ?r" and h0: "waits_inv ?h"
    using inv waits_inv_room_mut waits_inv_put by blast+
  from False show ?thesis
  proof (cases rule: set_wait_cases [of req room h now])
    case same
    then show ?thesis using h0 by simp
  next
    case fresh
    obtain res h' where d: "declare_wait room req now ?r ?h = (res, h')" by force
    show ?thesis
    proof (cases res)
      case (Inl e)
      then show ?thesis using d fresh declare_wait_errD(1) waits_inv_rooms [OF _ h0] by simp
    next
      case (Inr w)
      from d [unfolded Inr] show ?thesis
      proof (rule declare_wait_okD)
        fix since h1 s
        assume w: "w = new_wait room req since"
          and g: "next_condition_generation now (case hm_get (r_waits ?r) (sw_by req) of None \<Rightarrow> 0
              | Some w \<Rightarrow> w_since w) ?h = (since, h1)"
          and h': "h' = put_room room (mirror_wait room w ?r) (h1\<lparr>h_store := s\<rparr>)"
        have "waits_ok room (mirror_wait room w ?r)"
          using r False by (auto simp: waits_ok_def w new_wait_def)
        moreover have "waits_inv (h1\<lparr>h_store := s\<rparr>)"
          using next_condition_generation_rooms(1) [OF g] by (intro waits_inv_rooms [OF _ h0]) simp
        ultimately show ?thesis using d fresh by (simp add: h' waits_inv_put)
      qed
    qed
  qed
qed

lemma clear_wait_errD:
  assumes "clear_wait room x now h = (Err e, h')"
  shows "h_rooms h' = h_rooms h" and "sto_conn (h_store h') = sto_conn (h_store h)"
  using assms
  by (auto simp: clear_wait_def store_delete_wait_def Let_def
      split: option.splits if_splits sum.splits prod.splits elim!: with_storeE dest: wr.err_rolls_back)

lemma clear_wait_okD:
  assumes "clear_wait room x now h = (Ok u, h')"
  obtains r s where "get_room h room = Some r" and "hm_contains (r_waits r) x"
    and "store_delete_wait room x now (h_store h) = (Ok (), s)"
    and "h' = put_room room (send (FWait x None) (resolve_wait_attentions room x now
           (r\<lparr>r_waits := hm_remove x (r_waits r)\<rparr>))) (h\<lparr>h_store := s\<rparr>)"
  using assms
  by (auto simp: clear_wait_def split: option.splits if_splits sum.splits prod.splits elim!: with_storeE)

lemma clear_wait_keeps_waits_inv:
  assumes inv: "waits_inv h"
  shows "waits_inv (snd (clear_wait room x now h))"
proof -
  obtain res h' where c: "clear_wait room x now h = (res, h')" by force
  show ?thesis
  proof (cases res)
    case (Inl e)
    then show ?thesis using c clear_wait_errD(1) waits_inv_rooms [OF _ inv] by simp
  next
    case (Inr u)
    from c [unfolded Inr] obtain r s where r: "get_room h room = Some r"
      and h': "h' = put_room room (send (FWait x None) (resolve_wait_attentions room x now
           (r\<lparr>r_waits := hm_remove x (r_waits r)\<rparr>))) (h\<lparr>h_store := s\<rparr>)"
      by (rule clear_wait_okD)
    have "waits_ok room r" using inv r by (simp add: waits_inv_def)
    then show ?thesis unfolding c snd_conv h'
      by (intro waits_inv_put waits_inv_rooms [OF _ inv]) (auto simp: waits_ok_def)
  qed
qed

end
