(* ===== verification/Work_Durable.thy ===== *)
theory Work_Durable
  imports Work Waits
begin

text \<open>
  The write-through discipline of declared work: on a persistent store the rows of
  tasks, goals and waits are the images of the objects in memory, every operation
  keeps them so, and a read of the tables (what a restart does) returns exactly
  what the panel of the room shows.
\<close>

subsection \<open>The refinement relation\<close>

definition work_rows :: "db \<Rightarrow> string \<Rightarrow> room \<Rightarrow> bool" where
  "work_rows d room r =
     ((\<forall>i. hm_get (db_tasks d) (room, i) = map_option task_to_row (hm_get (r_tasks r) i))
      \<and> (\<forall>i. hm_get (db_goals d) (room, i) = map_option goal_to_row (hm_get (r_goals r) i))
      \<and> (\<forall>x. hm_get (db_waits d) (room, x) = map_option wait_to_row (hm_get (r_waits r) x)))"

definition rows_ok :: "db \<Rightarrow> bool" where
  "rows_ok d = (hm_ok (db_tasks d) \<and> hm_ok (db_goals d) \<and> hm_ok (db_waits d))"

definition work_mirrored :: "hub \<Rightarrow> bool" where
  "work_mirrored h = (case sto_conn (h_store h) of None \<Rightarrow> True
     | Some d \<Rightarrow> rows_ok d \<and> (\<forall>room. work_rows d room (room_mut room h)))"

lemma room_mut_put: "room_mut n (put_room m r h) = (if n = m then r else room_mut n h)"
  by (auto simp: room_mut_def put_room_def split: option.split)

lemma room_mut_rooms:
  "h_rooms h' = h_rooms h \<Longrightarrow> h_default_settings h' = h_default_settings h \<Longrightarrow> room_mut n h' = room_mut n h"
  by (auto simp: room_mut_def split: option.split)

lemma room_mut_store [simp]: "room_mut n (h\<lparr>h_store := s\<rparr>) = room_mut n h"
  by (rule room_mut_rooms) simp_all

subsection \<open>Writes confined to one room\<close>

text \<open>
  What the hub relies on: a write made for one room leaves the work rows of every
  other room alone.  Under this contract it is enough to compare that one room.
\<close>

locale room_write =
  fixes room :: string and f :: "db \<Rightarrow> db"
  assumes keeps_ok: "rows_ok d \<Longrightarrow> rows_ok (f d)"
    and other_tasks: "rows_ok d \<Longrightarrow> n \<noteq> room \<Longrightarrow> hm_get (db_tasks (f d)) (n, i) = hm_get (db_tasks d) (n, i)"
    and other_goals: "rows_ok d \<Longrightarrow> n \<noteq> room \<Longrightarrow> hm_get (db_goals (f d)) (n, i) = hm_get (db_goals d) (n, i)"
    and other_waits: "rows_ok d \<Longrightarrow> n \<noteq> room \<Longrightarrow> hm_get (db_waits (f d)) (n, x) = hm_get (db_waits d) (n, x)"
begin

lemma mirrored_step:
  assumes "work_mirrored h" and "run_write f (h_store h) = (Ok u, h_store h')"
    and "\<And>n. n \<noteq> room \<Longrightarrow> room_mut n h' = room_mut n h"
    and "\<And>d. rows_ok d \<Longrightarrow> work_rows d room (room_mut room h) \<Longrightarrow> work_rows (f d) room (room_mut room h')"
  shows "work_mirrored h'"
proof (cases "sto_conn (h_store h)")
  case None
  then show ?thesis using run_write_okD [OF assms(2)] by (simp add: work_mirrored_def)
next
  case (Some d)
  then have d: "rows_ok d" "\<And>n. work_rows d n (room_mut n h)" and d': "sto_conn (h_store h') = Some (f d)"
    using assms(1) run_write_okD [OF assms(2)] by (simp_all add: work_mirrored_def)
  have "work_rows (f d) n (room_mut n h')" for n
  proof (cases "n = room")
    case True
    then show ?thesis using assms(4) d by simp
  next
    case False
    then show ?thesis
      using d(2) [of n] assms(3) other_tasks [OF d(1)] other_goals [OF d(1)] other_waits [OF d(1)]
      by (simp add: work_rows_def)
  qed
  then show ?thesis using d' keeps_ok [OF d(1)] by (simp add: work_mirrored_def)
qed

end

interpretation task_write: room_write "t_room t" "write_task t" for t
  by unfold_locales (auto simp: rows_ok_def write_task_def)

interpretation goal_write: room_write "g_room g" "write_goal g" for g
  by unfold_locales (auto simp: rows_ok_def write_goal_def hm_get_retain split: option.split)

interpretation wait_write: room_write "w_room w" "write_wait w" for w
  by unfold_locales (auto simp: rows_ok_def write_wait_def)

interpretation wait_delete: room_write room "\<lambda>d. d\<lparr>db_waits := hm_remove (room, x) (db_waits d)\<rparr>" for room x
  by unfold_locales (auto simp: rows_ok_def)

text \<open>Contracts compose, and writes to the attention tables are within every contract.\<close>

lemma room_write_comp: "room_write room f \<Longrightarrow> room_write room g \<Longrightarrow> room_write room (\<lambda>d. g (f d))"
  by (simp add: room_write_def)

lemma room_write_foreign:
  assumes "\<And>d. db_tasks (g d) = db_tasks d" "\<And>d. db_goals (g d) = db_goals d"
    "\<And>d. db_waits (g d) = db_waits d"
  shows "room_write room g"
  by unfold_locales (simp_all add: rows_ok_def assms)

subsection \<open>Rows after each write\<close>

lemma work_rows_cong:
  assumes "r_tasks r' = r_tasks r" "r_goals r' = r_goals r" "r_waits r' = r_waits r"
  shows "work_rows d room r' = work_rows d room r"
  by (simp add: work_rows_def assms)

lemma work_rows_task:
  assumes "work_rows d (t_room t) r" and "r_tasks r' = hm_insert (t_id t) t (r_tasks r)"
    "r_goals r' = r_goals r" "r_waits r' = r_waits r"
  shows "work_rows (write_task t d) (t_room t) r'"
  using assms by (simp add: work_rows_def write_task_def)

text \<open>
  The replace of the unique index \<open>goals_one_active\<close> never takes a row the memory still
  has: the hub refuses a second active goal before it writes.
\<close>

lemma work_rows_goal:
  assumes rows: "work_rows d (g_room g) r" and "rows_ok d"
    and "r_goals r' = hm_insert (g_id g) g (r_goals r)" "r_tasks r' = r_tasks r" "r_waits r' = r_waits r"
    and one: "g_status g = GoalActive \<Longrightarrow>
      \<forall>j g0. hm_get (r_goals r) j = Some g0 \<longrightarrow> g_status g0 = GoalActive \<longrightarrow> j = g_id g"
  shows "work_rows (write_goal g d) (g_room g) r'"
proof -
  have "hm_get (hm_retain (\<lambda>(room, i) row. \<not> (g_status g = GoalActive \<and> room = g_room g \<and> i \<noteq> g_id g
      \<and> gr_status row = ''active'')) (db_goals d)) (g_room g, i) = map_option goal_to_row (hm_get (r_goals r) i)"
    if "i \<noteq> g_id g" for i
    using rows assms(2) that one
    by (cases "hm_get (r_goals r) i")
      (auto simp: hm_get_retain rows_ok_def work_rows_def goal_to_row_def)
  then show ?thesis
    using assms by (simp add: work_rows_def write_goal_def)
qed

lemma work_rows_wait:
  assumes "work_rows d (w_room w) r" and "r_waits r' = hm_insert (w_waiter w) w (r_waits r)"
    "r_goals r' = r_goals r" "r_tasks r' = r_tasks r"
  shows "work_rows (write_wait w d) (w_room w) r'"
  using assms by (simp add: work_rows_def write_wait_def)

lemma work_rows_foreign:
  assumes "db_tasks d' = db_tasks d" "db_goals d' = db_goals d" "db_waits d' = db_waits d"
  shows "work_rows d' room r = work_rows d room r"
  by (simp add: work_rows_def assms)

subsection \<open>No operation changes the defaults\<close>

lemma next_condition_generation_defaults:
  "next_condition_generation now previous h = (g, h') \<Longrightarrow> h_default_settings h' = h_default_settings h"
  by (auto simp: next_condition_generation_def Let_def)

lemma linked_goal_defaults:
  "linked_goal_after_task_progress r t now h = (g, h') \<Longrightarrow> h_default_settings h' = h_default_settings h"
  by (auto simp: linked_goal_after_task_progress_def Let_def
      split: option.splits prod.splits dest: next_condition_generation_defaults)

lemmas defaults_intros = next_condition_generation_defaults linked_goal_defaults

lemma update_task_defaults:
  "update_task room i req op now h = (res, h') \<Longrightarrow> h_default_settings h' = h_default_settings h"
  by (auto simp: update_task_def Let_def split: option.splits sum.splits prod.splits if_splits
      elim!: with_storeE simp: defaults_intros)

lemma update_goal_defaults:
  "update_goal room i req now h = (res, h') \<Longrightarrow> h_default_settings h' = h_default_settings h"
  by (auto simp: update_goal_def Let_def split: option.splits sum.splits prod.splits if_splits
      elim!: with_storeE simp: defaults_intros)

lemma create_goal_defaults:
  "create_goal room req now h = (res, h') \<Longrightarrow> h_default_settings h' = h_default_settings h"
  by (auto simp: create_goal_def Let_def split: option.splits sum.splits prod.splits if_splits
      elim!: with_storeE)

lemma declare_wait_defaults:
  "declare_wait room req now r h = (res, h') \<Longrightarrow> h_default_settings h' = h_default_settings h"
  by (auto simp: declare_wait_def Let_def split: sum.splits prod.splits
      elim!: with_storeE simp: defaults_intros)

lemma clear_wait_defaults:
  "clear_wait room x now h = (res, h') \<Longrightarrow> h_default_settings h' = h_default_settings h"
  by (auto simp: clear_wait_def split: option.splits if_splits sum.splits prod.splits elim!: with_storeE)

subsection \<open>Every operation keeps the rows equal to the memory\<close>

lemma work_mirrored_unchanged:
  assumes "work_mirrored h" and "sto_conn (h_store h') = sto_conn (h_store h)"
    and "\<And>n. room_mut n h' = room_mut n h"
  shows "work_mirrored h'"
  using assms by (simp add: work_mirrored_def split: option.splits)

lemma create_task_okD:
  assumes "create_task room req now h = (Ok t, h')"
  obtains s where "t_room t = room" and "t_id t = r_next_task_id (room_mut room h)"
    and "run_write (write_task t) (h_store h) = (Ok (), s)"
    and "h' = put_room room (send (FTask t) ((room_mut room h)\<lparr>r_next_task_id := u64_add (t_id t) 1,
           r_tasks := hm_insert (t_id t) t (r_tasks (room_mut room h))\<rparr>)) (h\<lparr>h_store := s\<rparr>)"
  using assms
  by (auto simp: create_task_def create_task_next_id upsert_task_def Let_def
      split: sum.splits prod.splits elim!: with_storeE intro!: that)

lemma create_task_mirrored:
  assumes "work_mirrored h"
  shows "work_mirrored (snd (create_task room req now h))"
proof -
  obtain res h' where c: "create_task room req now h = (res, h')" by force
  show ?thesis
  proof (cases res)
    case (Inl e)
    with c create_task_err obtain s where "h' = h\<lparr>h_store := s\<rparr>" "sto_conn s = sto_conn (h_store h)"
      by blast
    then show ?thesis using c
      by (auto intro!: work_mirrored_unchanged [OF assms])
  next
    case (Inr t)
    from c [unfolded Inr] show ?thesis
    proof (rule create_task_okD)
      fix s
      assume t: "t_room t = room" "run_write (write_task t) (h_store h) = (Ok (), s)"
        and h': "h' = put_room room (send (FTask t) ((room_mut room h)\<lparr>r_next_task_id := u64_add (t_id t) 1,
           r_tasks := hm_insert (t_id t) t (r_tasks (room_mut room h))\<rparr>)) (h\<lparr>h_store := s\<rparr>)"
      have "work_mirrored h'"
      proof (rule task_write.mirrored_step [OF assms, of t])
        show "run_write (write_task t) (h_store h) = (Ok (), h_store h')" using t by (simp add: h')
        show "room_mut n h' = room_mut n h" if "n \<noteq> t_room t" for n
          using that t by (simp add: h' room_mut_put)
        show "work_rows (write_task t d) (t_room t) (room_mut (t_room t) h')"
          if "work_rows d (t_room t) (room_mut (t_room t) h)" for d
          using that t(1) by (auto simp: h' room_mut_put intro!: work_rows_task [OF that])
      qed
      then show ?thesis by (simp add: c)
    qed
  qed
qed

lemma work_rows_retire [simp]: "work_rows (retire_condition n key at d) room r = work_rows d room r"
  by (simp add: work_rows_def)

lemma retire_room_write: "room_write room (retire_condition n key at)"
  by (rule room_write_foreign) simp_all

lemma task_goal_room_write:
  assumes "t_room t = room" and "\<And>g. goal = Some g \<Longrightarrow> g_room g = room"
  shows "room_write room (task_goal_write t goal clear)"
proof -
  have t: "room_write room (write_task t)" using task_write.room_write_axioms [of t] assms(1) by simp
  show ?thesis
  proof (cases goal)
    case None
    then show ?thesis using t room_write_comp [OF t retire_room_write]
      by (cases clear) (simp_all add: task_goal_write_def [abs_def] Let_def)
  next
    case (Some g)
    then have g: "room_write room (write_goal g)"
      using goal_write.room_write_axioms [of g] assms(2) by simp
    note tg = room_write_comp [OF t g]
    show ?thesis
      using Some room_write_comp [OF tg retire_room_write]
        room_write_comp [OF room_write_comp [OF tg retire_room_write] retire_room_write]
      by (cases clear) (simp_all add: task_goal_write_def [abs_def] Let_def)
  qed
qed

lemma work_rows_task_goal:
  assumes rows: "work_rows d room r" and ok: "rows_ok d" and t: "t_room t = room"
    and g: "\<And>g. goal = Some g \<Longrightarrow> g_room g = room \<and> (g_status g = GoalActive \<longrightarrow>
        (\<forall>j g0. hm_get (r_goals r) j = Some g0 \<longrightarrow> g_status g0 = GoalActive \<longrightarrow> j = g_id g))"
  shows "work_rows (task_goal_write t goal clear d) room (mirror_task room t goal p r)"
proof (cases goal)
  case None
  have "work_rows (write_task t d) (t_room t) (mirror_task room t goal p r)"
    by (rule work_rows_task [of _ _ r]) (use rows t None in simp_all)
  then show ?thesis using None t by (simp add: task_goal_write_def Let_def)
next
  case (Some g0)
  let ?r = "r\<lparr>r_tasks := hm_insert (t_id t) t (r_tasks r)\<rparr>"
  have "work_rows (write_task t d) (t_room t) ?r"
    by (rule work_rows_task [of _ _ r]) (use rows t in simp_all)
  moreover have "rows_ok (write_task t d)" using ok by (rule task_write.keeps_ok)
  ultimately have "work_rows (write_goal g0 (write_task t d)) (g_room g0) (mirror_task room t goal p r)"
    using g [OF Some] Some t by (intro work_rows_goal [of _ _ ?r]) simp_all
  then show ?thesis using Some g [OF Some] by (simp add: task_goal_write_def Let_def)
qed

lemma update_task_mirrored:
  assumes m: "work_mirrored h" and inv: "work_inv h"
  shows "work_mirrored (snd (update_task room i req op now h))"
proof -
  obtain res h' where u: "update_task room i req op now h = (res, h')" by force
  show ?thesis
  proof (cases res)
    case (Inl e)
    then show ?thesis using u update_task_err [of room i req op now h e h'] update_task_defaults [OF u]
      by (auto intro!: work_mirrored_unchanged [OF m] room_mut_rooms)
  next
    case (Inr t')
    from u [unfolded Inr] show ?thesis
    proof (rule update_task_okD)
      fix r old t linked progressed h2 s
      assume r: "get_room h room = Some r" and old: "hm_get (r_tasks r) i = Some old"
        and tr: "task_transition req op now old = Inr (t, progressed)"
        and step: "if progressed then (\<exists>p h1. t' = t\<lparr>t_progress_at := p\<rparr>
            \<and> linked_goal_after_task_progress r t' p h1 = (linked, h2))
          else t' = old \<and> linked = None"
        and w: "upsert_task_with_goal_progress t' linked progressed (h_store h) = (Ok (), s)"
        and h2: "h_rooms h2 = h_rooms h"
        and h': "h' = put_room room (mirror_task room t' linked progressed r) (h2\<lparr>h_store := s\<rparr>)"
      have ok: "work_ok room r" using inv r by (simp add: work_inv_def)
      have t': "t_room t' = room"
        using step old ok task_transition_okD(2) [OF tr] by (auto simp: work_ok_def task_ok_def split: if_splits)
      have g: "g_room g = room \<and> (g_status g = GoalActive \<longrightarrow>
        (\<forall>j g0. hm_get (r_goals r) j = Some g0 \<longrightarrow> g_status g0 = GoalActive \<longrightarrow> j = g_id g))"
        if "linked = Some g" for g
      proof -
        from step that obtain p h1 where "linked_goal_after_task_progress r t' p h1 = (Some g, h2)"
          by (auto split: if_splits)
        from linked_goal_SomeD [OF this ok] obtain g0 where
          g0: "hm_get (r_goals r) (g_id g) = Some g0" "g_status g0 = GoalActive" "g_room g = g_room g0" by auto
        then show ?thesis using ok by (auto simp: work_ok_def goal_ok_def one_active_def)
      qed
      have "h_default_settings h2 = h_default_settings h" using update_task_defaults [OF u] by (simp add: h')
      then have same: "room_mut n h2 = room_mut n h" for n using h2 by (intro room_mut_rooms)
      have "room_write room (task_goal_write t' linked progressed)"
        by (rule task_goal_room_write [OF t']) (use g in blast)
      then have "work_mirrored h'"
        by (rule room_write.mirrored_step [OF _ m])
          (use w r t' g same in \<open>auto simp: h' upsert_task_with_goal_progress_def room_mut_put
             intro!: work_rows_task_goal\<close>)
      then show ?thesis by (simp add: u)
    qed
  qed
qed

lemma create_goal_mirrored:
  assumes m: "work_mirrored h" and inv: "work_inv h"
  shows "work_mirrored (snd (create_goal room req now h))"
proof -
  obtain res h' where c: "create_goal room req now h = (res, h')" by force
  show ?thesis
  proof (cases res)
    case (Inl e)
    have same: "room_mut n h' = room_mut n (put_room room (room_mut room h) h)" for n
      using c create_goal_err Inl create_goal_defaults [OF c] by (intro room_mut_rooms) auto
    show ?thesis using c create_goal_err Inl
      by (auto intro!: work_mirrored_unchanged [OF m] simp: same room_mut_put)
  next
    case (Inr g)
    from c [unfolded Inr] show ?thesis
    proof (rule create_goal_okD)
      fix r ids s
      assume r: "r = room_mut room h"
        and none: "\<forall>g \<in> set (hm_values (r_goals r)). g_status g \<noteq> GoalActive"
        and g: "g = new_goal room r req ids now" and w: "upsert_goal g (h_store h) = (Ok (), s)"
        and h': "h' = put_room room (send (FGoal g) (r\<lparr>r_next_goal_id := u64_add (r_next_goal_id r) 1,
           r_goals := hm_insert (r_next_goal_id r) g (r_goals r)\<rparr>)) ((put_room room r h)\<lparr>h_store := s\<rparr>)"
      have gr: "g_room g = room" "g_id g = r_next_goal_id r" by (simp_all add: g new_goal_def Let_def)
      have one: "\<forall>j g0. hm_get (r_goals r) j = Some g0 \<longrightarrow> g_status g0 = GoalActive \<longrightarrow> j = g_id g"
        using none hm_values_get by metis
      have "work_mirrored h'"
        by (rule goal_write.mirrored_step [OF m, of g])
          (use w r gr one in \<open>auto simp: h' upsert_goal_def room_mut_put intro!: work_rows_goal\<close>)
      then show ?thesis by (simp add: c)
    qed
  qed
qed

lemma goal_care_room_write: "room_write (g_room g) (goal_care_write g clear)"
  using goal_write.room_write_axioms [of g]
    room_write_comp [OF goal_write.room_write_axioms [of g] retire_room_write]
  by (cases clear) (simp_all add: goal_care_write_def [abs_def] Let_def)

lemma update_goal_mirrored:
  assumes m: "work_mirrored h" and inv: "work_inv h"
  shows "work_mirrored (snd (update_goal room i req now h))"
proof -
  obtain res h' where u: "update_goal room i req now h = (res, h')" by force
  show ?thesis
  proof (cases res)
    case (Inl e)
    then show ?thesis using u update_goal_err [of room i req now h e h'] update_goal_defaults [OF u]
      by (auto intro!: work_mirrored_unchanged [OF m] room_mut_rooms)
  next
    case (Inr g')
    from u [unfolded Inr] show ?thesis
    proof (rule update_goal_okD)
      fix r old g progressed p h1 s
      assume r: "get_room h room = Some r" and old: "hm_get (r_goals r) i = Some old"
        and tr: "goal_transition r i req now old = Inr g"
        and g': "g' = (if progressed then g\<lparr>g_progress_at := p\<rparr> else g)"
        and w: "upsert_goal_with_care_reset g' progressed (h_store h) = (Ok (), s)"
        and h1: "h_rooms h1 = h_rooms h"
        and h': "h' = put_room room (mirror_goal room g' progressed r) (h1\<lparr>h_store := s\<rparr>)"
      have ok: "work_ok room r" using inv r by (simp add: work_inv_def)
      then have oldok: "goal_ok room r i old" using old by (simp add: work_ok_def)
      have gok: "g_room g' = room" "g_id g' = i" "g_status g' = g_status g"
        using goal_transition_okD(1) [OF tr oldok] by (auto simp: g' goal_ok_def)
      have one: "\<forall>j g0. hm_get (r_goals r) j = Some g0 \<longrightarrow> g_status g0 = GoalActive \<longrightarrow> j = i"
        if "g_status g = GoalActive"
        using goal_transition_okD(3) [OF tr oldok that] ok old
        unfolding work_ok_def one_active_def goal_ok_def by (metis hm_values_get)
      have "h_default_settings h1 = h_default_settings h" using update_goal_defaults [OF u] by (simp add: h')
      then have same: "room_mut n h1 = room_mut n h" for n using h1 by (intro room_mut_rooms)
      have rows: "work_rows (goal_care_write g' progressed d) (g_room g') (mirror_goal room g' progressed r)"
        if "rows_ok d" "work_rows d (g_room g') r" for d
      proof -
        have "work_rows (write_goal g' d) (g_room g') (mirror_goal room g' progressed r)"
          by (rule work_rows_goal [of _ _ r]) (use that gok one in simp_all)
        then show ?thesis by (cases progressed) (simp_all add: goal_care_write_def Let_def)
      qed
      have "work_mirrored h'"
        by (rule room_write.mirrored_step [OF goal_care_room_write [of g' progressed] m])
          (use w r gok same rows in \<open>auto simp: h' upsert_goal_with_care_reset_def room_mut_put\<close>)
      then show ?thesis by (simp add: u)
    qed
  qed
qed

lemma wait_care_room_write:
  "room_write (w_room w) (wait_care_write w at)" "room_write room (wait_delete_write room x at)"
proof -
  have f: "room_write n (\<lambda>d. db_resolve_wait_attentions m y at (delete_mark m key d))" for n m y key
    by (rule room_write_foreign) simp_all
  show "room_write (w_room w) (wait_care_write w at)"
    unfolding wait_care_write_def [abs_def] by (rule room_write_comp [OF wait_write.room_write_axioms f])
  show "room_write room (wait_delete_write room x at)"
    unfolding wait_delete_write_def [abs_def] by (rule room_write_comp [OF wait_delete.room_write_axioms f])
qed

lemma set_wait_mirrored:
  assumes m: "work_mirrored h"
  shows "work_mirrored (snd (set_wait room req now h))"
proof (cases "sw_by req = sw_waiting_for req")
  case True
  then show ?thesis using m by (simp add: set_wait_def)
next
  case False
  let ?r = "room_mut room h" and ?h = "put_room room (room_mut room h) h"
  have m0: "work_mirrored ?h"
    by (rule work_mirrored_unchanged [OF m]) (simp_all add: room_mut_put)
  from False show ?thesis
  proof (cases rule: set_wait_cases [of req room h now])
    case same
    then show ?thesis using m0 by simp
  next
    case fresh
    obtain res h' where d: "declare_wait room req now ?r ?h = (res, h')" by force
    show ?thesis
    proof (cases res)
      case (Inl e)
      then show ?thesis using d fresh declare_wait_errD declare_wait_defaults [OF d]
        by (auto intro!: work_mirrored_unchanged [OF m0] room_mut_rooms)
    next
      case (Inr w)
      from d [unfolded Inr] show ?thesis
      proof (rule declare_wait_okD)
        fix since h1 s
        assume w: "w = new_wait room req since"
          and g: "next_condition_generation now (case hm_get (r_waits ?r) (sw_by req) of None \<Rightarrow> 0
              | Some w \<Rightarrow> w_since w) ?h = (since, h1)"
          and st: "replace_wait_with_care w since (h_store ?h) = (Ok (), s)"
          and h': "h' = put_room room (mirror_wait room w ?r) (h1\<lparr>h_store := s\<rparr>)"
        have wr: "w_room w = room" by (simp add: w new_wait_def)
        have rows: "work_rows (wait_care_write w since d) (w_room w) (mirror_wait room w ?r)"
          if "work_rows d (w_room w) ?r" for d
          using work_rows_wait [OF that, of "mirror_wait room w ?r"]
          by (simp add: wait_care_write_def work_rows_def)
        have "work_mirrored h'"
          by (rule room_write.mirrored_step [OF wait_care_room_write(1) [of w since] m0])
            (use st wr rows next_condition_generation_rooms(3) [OF g] in
              \<open>auto simp: h' replace_wait_with_care_def room_mut_put\<close>)
        then show ?thesis using d fresh by simp
      qed
    qed
  qed
qed

lemma clear_wait_mirrored:
  assumes m: "work_mirrored h"
  shows "work_mirrored (snd (clear_wait room x now h))"
proof -
  obtain res h' where c: "clear_wait room x now h = (res, h')" by force
  show ?thesis
  proof (cases res)
    case (Inl e)
    then show ?thesis using c clear_wait_errD clear_wait_defaults [OF c]
      by (auto intro!: work_mirrored_unchanged [OF m] room_mut_rooms)
  next
    case (Inr u)
    from c [unfolded Inr] obtain r s where r: "get_room h room = Some r"
      and st: "store_delete_wait room x now (h_store h) = (Ok (), s)"
      and h': "h' = put_room room (send (FWait x None) (resolve_wait_attentions room x now
           (r\<lparr>r_waits := hm_remove x (r_waits r)\<rparr>))) (h\<lparr>h_store := s\<rparr>)"
      by (rule clear_wait_okD)
    have "work_mirrored h'"
      by (rule room_write.mirrored_step [OF wait_care_room_write(2) [of room x now] m])
        (use st r in \<open>auto simp: h' store_delete_wait_def wait_delete_write_def room_mut_put work_rows_def\<close>)
    then show ?thesis by (simp add: c)
  qed
qed

subsection \<open>Reading the tables back\<close>

text \<open>Two lists with the same elements, each sorted strictly by a key, are the same list.\<close>

lemma sorted_by_key_unique:
  fixes key :: "'a \<Rightarrow> 'k :: linorder"
  assumes "sorted (map key xs)" "distinct (map key xs)" "sorted (map key ys)" "distinct (map key ys)"
    and "set xs = set ys"
  shows "xs = ys"
proof -
  have "map key xs = map key ys"
    by (rule sorted_distinct_set_unique) (use assms in simp_all)
  moreover have "inj_on key (set xs \<union> set ys)" using assms(2,5) by (simp add: distinct_map)
  ultimately show ?thesis by (meson map_inj_on)
qed

text \<open>The keys of one room, read from a table keyed by room and object.\<close>

lemma room_keys_distinct:
  "hm_ok m \<Longrightarrow> distinct (map (\<lambda>((_, i), _). i) (filter (\<lambda>((rm, _), _). rm = room) m))"
  by (induction m) (auto simp: hm_ok_def image_iff)

text \<open>
  Reading back: rows of a room, sorted by key and decoded, against the values of the
  map in memory, sorted by key.
\<close>

lemma read_back:
  fixes key :: "'v \<Rightarrow> 'k :: linorder"
  assumes "hm_ok table" and "hm_ok m"
    and rows: "\<And>i. hm_get table (room, i) = map_option enc (hm_get m i)"
    and keys: "\<And>i v. hm_get m i = Some v \<Longrightarrow> key v = i \<and> decode i (enc v) = v"
  shows "map (\<lambda>((_, i), r). decode i r)
      (sort_key (\<lambda>((_, i), _). i) (filter (\<lambda>((rm, _), _). rm = room) table)) = sort_key key (hm_values m)"
    (is "?xs = ?ys")
proof -
  let ?rows = "filter (\<lambda>((rm, _), _). rm = room) table"
  have mem: "((rm, i), r) \<in> set ?rows \<longleftrightarrow> rm = room \<and> (\<exists>v. hm_get m i = Some v \<and> r = enc v)" for rm i r
    using hm_entry_iff [OF assms(1)] rows [of i] by (cases "hm_get m i") auto
  have keyd: "map key ?xs = map (\<lambda>((_, i), _). i) (sort_key (\<lambda>((_, i), _). i) ?rows)"
    using mem keys by (auto simp: map_eq_conv)
  have dist: "distinct (map (\<lambda>((_, i), _). i) (sort_key (\<lambda>((_, i), _). i) ?rows))"
    using room_keys_distinct [OF assms(1), of room] by (simp add: distinct_map)
  have dm: "distinct (map fst m)" using assms(2) by (simp add: hm_ok_def)
  have "map key (hm_values m) = map fst m"
    using keys hm_entry_iff [OF assms(2)] by (auto simp: hm_values_def)
  then have "distinct (map key (hm_values m))" using dm by simp
  then have "distinct (map key ?ys)" by (simp add: distinct_map)
  moreover have "set ?xs = set ?ys"
  proof -
    have "set ?xs = {decode i (enc v) | i v. hm_get m i = Some v}"
      using mem by (force simp: image_iff)
    also have "\<dots> = {v. \<exists>i. hm_get m i = Some v}" using keys by (metis (no_types, opaque_lifting))
    also have "\<dots> = set ?ys" using hm_values_iff [OF assms(2)] by auto
    finally show ?thesis .
  qed
  moreover have "sorted (map key ?xs)" "distinct (map key ?xs)"
    unfolding keyd using dist by simp_all
  ultimately show ?thesis by (intro sorted_by_key_unique [of key]) simp_all
qed

text \<open>A restart finds the panel it left: the three reads return the three views.\<close>

lemma reload_tasks:
  assumes "work_mirrored h" and "work_inv h" and "sto_conn (h_store h) = Some d"
  shows "load_tasks (h_store h) room = tasks_view h room"
proof -
  have rows: "rows_ok d" "work_rows d room (room_mut room h)"
    using assms by (simp_all add: work_mirrored_def)
  have view: "tasks_view h room = sort_key t_id (hm_values (r_tasks (room_mut room h)))"
    by (simp add: tasks_view_def room_mut_def get_room_def room_with_def hm_values_def split: option.split)
  have ok: "work_ok room (room_mut room h)" using assms(2) by (rule work_inv_room_mut)
  have keys: "t_id v = i \<and> row_to_task room i (task_to_row v) = v"
    if "hm_get (r_tasks (room_mut room h)) i = Some v" for i v
    using ok that row_to_task_of_row [of v] unfolding work_ok_def task_ok_def by blast
  show ?thesis unfolding view
    by (simp add: load_tasks_def assms(3), rule read_back)
      (use rows ok keys in \<open>auto simp: rows_ok_def work_rows_def work_ok_def\<close>)
qed

lemma reload_goals:
  assumes "work_mirrored h" and "work_inv h" and "sto_conn (h_store h) = Some d"
  shows "load_goals (h_store h) room = goals_view h room"
proof -
  have rows: "rows_ok d" "work_rows d room (room_mut room h)"
    using assms by (simp_all add: work_mirrored_def)
  have view: "goals_view h room = sort_key g_id (hm_values (r_goals (room_mut room h)))"
    by (simp add: goals_view_def room_mut_def get_room_def room_with_def hm_values_def split: option.split)
  have ok: "work_ok room (room_mut room h)" using assms(2) by (rule work_inv_room_mut)
  have keys: "g_id v = i \<and> row_to_goal room i (goal_to_row v) = v"
    if "hm_get (r_goals (room_mut room h)) i = Some v" for i v
    using ok that row_to_goal_of_row [of v] unfolding work_ok_def goal_ok_def by blast
  show ?thesis unfolding view
    by (simp add: load_goals_def assms(3), rule read_back)
      (use rows ok keys in \<open>auto simp: rows_ok_def work_rows_def work_ok_def\<close>)
qed

lemma reload_waits:
  assumes "work_mirrored h" and "waits_inv h" and "sto_conn (h_store h) = Some d"
  shows "load_waits (h_store h) room = waits_view h room"
proof -
  have rows: "rows_ok d" "work_rows d room (room_mut room h)"
    using assms by (simp_all add: work_mirrored_def)
  have view: "waits_view h room = sort_key w_waiter (hm_values (r_waits (room_mut room h)))"
    by (simp add: waits_view_def room_mut_def get_room_def room_with_def hm_values_def split: option.split)
  have ok: "waits_ok room (room_mut room h)" using assms(2) by (rule waits_inv_room_mut)
  have keys: "w_waiter v = i \<and> row_to_wait room i (wait_to_row v) = v"
    if "hm_get (r_waits (room_mut room h)) i = Some v" for i v
    using ok that row_to_wait_of_row [of v] unfolding waits_ok_def by blast
  show ?thesis unfolding view
    by (simp add: load_waits_def assms(3), rule read_back)
      (use rows ok keys in \<open>auto simp: rows_ok_def work_rows_def waits_ok_def\<close>)
qed

end
