(* ===== verification/Samples.thy ===== *)
theory Samples
  imports Work_Durable "HOL-Library.Code_Target_Nat"
begin

text \<open>
  A small concrete building the witnesses of the development are evaluated on: one
  loca with a lead, a persistent store with empty tables and no pending storage
  failure, and a random source that delivers \<open>t0\<close>, \<open>t1\<close>, and so on.
\<close>

definition sample_settings :: room_settings where
  "sample_settings = default_settings_value\<lparr>st_lead := Some ''ada''\<rparr>"

definition sample_store :: store where
  "sample_store = \<lparr> sto_conn = Some empty_db, sto_faults = [] \<rparr>"

definition sample_hub :: hub where
  "sample_hub =
    \<lparr> h_rooms = [(''loca'', room_with Free sample_settings 1)], h_deleted = [], h_next_id = 1,
      h_condition_generation = 0, h_admin_token = ''root'', h_room_token = [],
      h_store = sample_store, h_default_settings = default_settings_value, h_members = [],
      h_smasters = [], h_sessions = [],
      h_admin_pairing = \<lparr> ap_code = ''code'', ap_session_ttl_ms = 60000, ap_expires_at_ms = 1000 \<rparr>,
      h_join_create_times = [], h_require_sessions = False, h_require_invite = True,
      h_invites = [], h_lobby_tx = [], h_lobby_online = [], h_runtime_health = [],
      h_care_deliveries = [], h_home_room = ''iye'', h_reserved_room = ''lobby'',
      h_caretakers = [''keeper''], h_rng = (\<lambda>n. CHR ''t'' # dec n) \<rparr>"

definition sample_task_body :: create_task_body where
  "sample_task_body = \<lparr> ct_title = ''build'', ct_from_message = None, ct_assigned_to = Some ''bob'',
     ct_by = ''ada'' \<rparr>"

definition sample_goal_body :: create_goal_body where
  "sample_goal_body = \<lparr> cg_outcome = ''ship'', cg_checkpoint = None, cg_stale_after_secs = None,
     cg_completion = AllTasks, cg_task_ids = [1], cg_by = ''ada'' \<rparr>"

definition sample_done_body :: update_task_body where
  "sample_done_body = \<lparr> ut_status = Some TaskDone, ut_assigned_to = None, ut_by = ''bob'' \<rparr>"

definition sample_wait_body :: "string \<Rightarrow> string \<Rightarrow> set_wait_body" where
  "sample_wait_body x y = \<lparr> sw_waiting_for = y, sw_reason = ''review'', sw_by = x \<rparr>"

definition sample_task :: task where
  "sample_task = \<lparr> t_id = 1, t_room = ''loca'', t_title = ''build'', t_created_by = ''ada'',
     t_from_message = None, t_assigned_to = Some ''bob'', t_status = TaskOpen, t_created_at = 10,
     t_progress_at = 10, t_closed_at = None \<rparr>"

definition sample_goal :: goal where
  "sample_goal = \<lparr> g_id = 1, g_room = ''loca'', g_outcome = ''ship'', g_checkpoint = None,
     g_stale_after_secs = None, g_created_by = ''ada'', g_completion = AllTasks, g_task_ids = [1],
     g_status = GoalActive, g_created_at = 20, g_progress_at = 20, g_closed_at = None \<rparr>"

text \<open>The building after one task and the goal that waits for it.\<close>

definition sample_worked :: hub where
  "sample_worked = snd (create_goal ''loca'' sample_goal_body 20
     (snd (create_task ''loca'' sample_task_body 10 sample_hub)))"

text \<open>A run whose outcome was evaluated to a success, as an equation.\<close>

lemma ok_run: "is_ok (fst p) \<Longrightarrow> \<exists>x. p = (Ok x, snd p)"
  by (cases p) (auto simp: is_ok_def split: sum.splits)

lemma err_run: "fst p = Err e \<Longrightarrow> p = (Err e, snd p)"
  by (cases p) simp

lemmas sample_defs = sample_hub_def sample_store_def sample_settings_def sample_task_body_def
  sample_goal_body_def sample_done_body_def sample_wait_body_def default_settings_value_def
  room_with_def empty_db_def empty_wiki_def

lemma sample_rooms: "get_room sample_hub n = (if n = ''loca'' then Some (room_with Free sample_settings 1) else None)"
  by (simp add: sample_hub_def get_room_def hm_get_def)

lemma sample_hub_work_inv: "work_inv sample_hub"
  by (simp add: work_inv_def sample_rooms)

lemma sample_hub_waits_inv: "waits_inv sample_hub"
  by (simp add: waits_inv_def sample_rooms)

lemma sample_hub_mirrored: "work_mirrored sample_hub"
proof -
  have "room_mut n sample_hub = (if n = ''loca'' then room_with Free sample_settings 1
      else room_with Free default_settings_value 1)" for n
    by (simp add: room_mut_def sample_hub_def hm_get_def)
  then show ?thesis
    by (simp add: work_mirrored_def sample_hub_def sample_store_def rows_ok_def work_rows_def
        empty_db_def room_with_def)
qed

definition sample_room :: room where
  "sample_room = (room_with Free sample_settings 1)\<lparr>
    r_next_task_id := 2, r_tasks := [(1, sample_task)], r_tx := [FTask sample_task, FGoal sample_goal],
    r_next_goal_id := 2, r_goals := [(1, sample_goal)]\<rparr>"

lemma sample_worked_room: "get_room sample_worked ''loca'' = Some sample_room"
  by code_simp

lemma sample_worked_work_inv: "work_inv sample_worked"
proof -
  have "work_inv (snd (create_task ''loca'' sample_task_body 10 sample_hub))"
    by (rule create_task_keeps_work_inv [OF sample_hub_work_inv]) code_simp
  then show ?thesis
    unfolding sample_worked_def by (rule create_goal_keeps_work_inv) code_simp
qed

lemma sample_worked_mirrored: "work_mirrored sample_worked"
  unfolding sample_worked_def
  by (rule create_goal_mirrored [OF create_task_mirrored [OF sample_hub_mirrored]
      create_task_keeps_work_inv [OF sample_hub_work_inv]]) code_simp

end
