(* ===== verification/Frames.thy ===== *)
theory Frames
  imports Work_Durable
begin

text \<open>
  How operations of different components coexist: every operation works on one
  room, and what it does there is a relation between the room before and after.
  An invariant that reads only some fields of a room is kept by every operation
  whose relation leaves those fields alone.
\<close>

definition touches :: "string \<Rightarrow> (room \<Rightarrow> room \<Rightarrow> bool) \<Rightarrow> hub \<Rightarrow> hub \<Rightarrow> bool" where
  "touches room R h h' = (\<forall>n r'. get_room h' n = Some r' \<longrightarrow>
     get_room h n = Some r' \<or> n = room \<and> R (room_mut room h) r')"

lemma touches_same_rooms: "h_rooms h' = h_rooms h \<Longrightarrow> touches room R h h'"
  by (simp add: touches_def get_room_def)

lemma touches_put:
  "h_rooms h' = h_rooms h \<Longrightarrow> R (room_mut room h) r \<Longrightarrow> touches room R h (put_room room r h')"
  by (auto simp: touches_def get_room_def put_room_def)

lemma touches_mono: "touches room R h h' \<Longrightarrow> (\<And>r r'. R r r' \<Longrightarrow> S r r') \<Longrightarrow> touches room S h h'"
  by (auto simp: touches_def)

text \<open>An invariant stated room by room that holds of a room just created.\<close>

locale room_invariant =
  fixes P :: "string \<Rightarrow> room \<Rightarrow> bool"
  assumes fresh: "P room (room_with Free settings 1)"
begin

definition all_rooms :: "hub \<Rightarrow> bool" where
  "all_rooms h = (\<forall>room r. get_room h room = Some r \<longrightarrow> P room r)"

lemma at_room: "all_rooms h \<Longrightarrow> P room (room_mut room h)"
  unfolding all_rooms_def room_mut_def get_room_def using fresh by (cases "hm_get (h_rooms h) room") auto

lemma touches_keeps:
  assumes "all_rooms h" and "touches room R h h'"
    and "\<And>r r'. R r r' \<Longrightarrow> P room r \<Longrightarrow> P room r'"
  shows "all_rooms h'"
  using assms at_room [OF assms(1)] unfolding all_rooms_def touches_def by blast

end

interpretation work: room_invariant work_ok
  by unfold_locales simp

interpretation waiting: room_invariant waits_ok
  by unfold_locales simp

lemma work_inv_all: "work_inv = work.all_rooms"
  by (simp add: fun_eq_iff work_inv_def work.all_rooms_def)

lemma waits_inv_all: "waits_inv = waiting.all_rooms"
  by (simp add: fun_eq_iff waits_inv_def waiting.all_rooms_def)

subsection \<open>The fields an invariant reads\<close>

definition same_work :: "room \<Rightarrow> room \<Rightarrow> bool" where
  "same_work r r' = (r_tasks r' = r_tasks r \<and> r_goals r' = r_goals r
     \<and> r_next_task_id r' = r_next_task_id r \<and> r_next_goal_id r' = r_next_goal_id r
     \<and> st_lead (r_settings r') = st_lead (r_settings r))"

definition same_waits :: "room \<Rightarrow> room \<Rightarrow> bool" where
  "same_waits r r' = (r_waits r' = r_waits r)"

lemma same_work_refl [simp]: "same_work r r"
  by (simp add: same_work_def)

lemma same_waits_refl [simp]: "same_waits r r"
  by (simp add: same_waits_def)

lemma same_work_ok:
  assumes "same_work r r'" and "work_ok room r"
  shows "work_ok room r'"
proof -
  have "work_ok room r' = work_ok room r"
    by (rule work_ok_cong) (use assms(1) in \<open>simp_all add: same_work_def\<close>)
  with assms(2) show ?thesis by simp
qed

lemma work_inv_touches: "work_inv h \<Longrightarrow> touches room same_work h h' \<Longrightarrow> work_inv h'"
  unfolding work_inv_all by (erule (1) work.touches_keeps) (rule same_work_ok)

lemma waits_inv_touches: "waits_inv h \<Longrightarrow> touches room same_waits h h' \<Longrightarrow> waits_inv h'"
  unfolding waits_inv_all
  by (erule (1) waiting.touches_keeps) (auto simp: same_waits_def waits_ok_def)

subsection \<open>Declared work\<close>

lemma set_wait_touches: "touches room same_work h (snd (set_wait room req now h))"
proof (cases "sw_by req = sw_waiting_for req")
  case True
  then show ?thesis by (simp add: set_wait_def touches_same_rooms)
next
  case False
  then show ?thesis
  proof (cases rule: set_wait_cases [of req room h now])
    case (same w)
    then show ?thesis by (simp add: touches_put)
  next
    case fresh
    obtain res h' where d: "declare_wait room req now (room_mut room h) (put_room room (room_mut room h) h)
        = (res, h')" by force
    show ?thesis
    proof (cases res)
      case (Inl e)
      have "h_rooms h' = h_rooms (put_room room (room_mut room h) h)"
        using d Inl declare_wait_errD(1) by blast
      then show ?thesis
        unfolding fresh d by (auto simp: touches_def get_room_def put_room_def)
    next
      case (Inr w)
      with d obtain since h1 s where h': "h' = put_room room (mirror_wait room w (room_mut room h)) (h1\<lparr>h_store := s\<rparr>)"
        and "next_condition_generation now (case hm_get (r_waits (room_mut room h)) (sw_by req) of None \<Rightarrow> 0
            | Some w \<Rightarrow> w_since w) (put_room room (room_mut room h) h) = (since, h1)"
        by (auto elim: declare_wait_okD)
      then have "h_rooms h1 = h_rooms (put_room room (room_mut room h) h)"
        by (simp add: next_condition_generation_rooms)
      moreover have "same_work (room_mut room h) (mirror_wait room w (room_mut room h))"
        by (simp add: same_work_def)
      ultimately show ?thesis
        unfolding fresh d snd_conv h' by (auto simp: touches_def get_room_def put_room_def)
    qed
  qed
qed

lemma clear_wait_touches: "touches room same_work h (snd (clear_wait room x now h))"
proof -
  obtain res h' where c: "clear_wait room x now h = (res, h')" by force
  show ?thesis
  proof (cases res)
    case (Inl e)
    then show ?thesis using c by (simp add: touches_same_rooms clear_wait_errD)
  next
    case (Inr u)
    with c obtain r s where "get_room h room = Some r" and
      "h' = put_room room (send (FWait x None) (resolve_wait_attentions room x now
           (r\<lparr>r_waits := hm_remove x (r_waits r)\<rparr>))) (h\<lparr>h_store := s\<rparr>)"
      by (auto elim: clear_wait_okD)
    then show ?thesis using c by (simp add: touches_put same_work_def)
  qed
qed

subsection \<open>Tasks and goals leave the waits alone\<close>

lemma create_task_touches: "touches room same_waits h (snd (create_task room req now h))"
proof -
  obtain res h' where c: "create_task room req now h = (res, h')" by force
  show ?thesis
  proof (cases res)
    case (Inl e)
    then show ?thesis using c
      by (auto simp: create_task_def Let_def split: prod.splits sum.splits intro!: touches_same_rooms
          elim!: with_storeE)
  next
    case (Inr t)
    with c obtain s where "h' = put_room room (send (FTask t) ((room_mut room h)\<lparr>r_next_task_id := u64_add (t_id t) 1,
           r_tasks := hm_insert (t_id t) t (r_tasks (room_mut room h))\<rparr>)) (h\<lparr>h_store := s\<rparr>)"
      by (auto elim: create_task_okD)
    then show ?thesis using c by (simp add: touches_put same_waits_def)
  qed
qed

lemma update_task_touches: "touches room same_waits h (snd (update_task room i req op now h))"
proof -
  obtain res h' where c: "update_task room i req op now h = (res, h')" by force
  show ?thesis
  proof (cases res)
    case (Inl e)
    then show ?thesis using c update_task_err by (auto intro: touches_same_rooms)
  next
    case (Inr t)
    with c obtain r linked progressed h2 s where "get_room h room = Some r" and "h_rooms h2 = h_rooms h"
      and "h' = put_room room (mirror_task room t linked progressed r) (h2\<lparr>h_store := s\<rparr>)"
      by (auto elim: update_task_okD)
    then show ?thesis using c
      by (auto intro!: touches_put simp: same_waits_def mirror_task_def Let_def split: option.split)
  qed
qed

lemma create_goal_touches: "touches room same_waits h (snd (create_goal room req now h))"
  unfolding create_goal_def Let_def
  by (auto simp: touches_def get_room_def put_room_def same_waits_def
      split: prod.splits sum.splits if_splits elim!: with_storeE)

lemma update_goal_touches: "touches room same_waits h (snd (update_goal room i req now h))"
proof -
  obtain res h' where c: "update_goal room i req now h = (res, h')" by force
  show ?thesis
  proof (cases res)
    case (Inl e)
    then show ?thesis using c update_goal_err by (auto intro: touches_same_rooms)
  next
    case (Inr g)
    with c obtain r progressed h1 s where "get_room h room = Some r" and "h_rooms h1 = h_rooms h"
      and "h' = put_room room (mirror_goal room g progressed r) (h1\<lparr>h_store := s\<rparr>)"
      by (auto elim!: update_goal_okD)
    then show ?thesis using c
      by (auto intro!: touches_put simp: same_waits_def mirror_goal_def Let_def)
  qed
qed

end
