(* ===== verification/Work_Properties.thy ===== *)
theory Work_Properties
  imports Samples Frames
begin

text \<open>
  What declared work promises, over single operations and over every sequence of
  them: the panel invariant, the agreement of memory and tables, what a restart
  reads back, who may change a task, when a goal closes by itself, and exactly
  which waits are reported as a deadlock.
\<close>

subsection \<open>Declared work as a transition system\<close>

text \<open>
  One step is one call of an operation, with any arguments, clock reading and
  outcome, or a change of what the storage will do next (\<open>faults\<close>).  The only
  restriction is that the id counter of the room has not reached its last value.
\<close>

inductive work_step :: "hub \<Rightarrow> hub \<Rightarrow> bool" where
  create_task: "r_next_task_id (room_mut room h) < u64_max \<Longrightarrow>
     work_step h (snd (create_task room req now h))"
| update_task: "work_step h (snd (update_task room i ureq op now h))"
| create_goal: "r_next_goal_id (room_mut room h) < u64_max \<Longrightarrow>
     work_step h (snd (create_goal room greq now h))"
| update_goal: "work_step h (snd (update_goal room i ugreq now h))"
| set_wait: "work_step h (snd (set_wait room wreq now h))"
| clear_wait: "work_step h (snd (clear_wait room waiter now h))"
| faults: "work_step h (h\<lparr>h_store := (h_store h)\<lparr>sto_faults := fs\<rparr>\<rparr>)"

definition work_state :: "hub \<Rightarrow> bool" where
  "work_state h = (work_inv h \<and> waits_inv h \<and> work_mirrored h)"

lemma work_state_faults: "work_state h \<Longrightarrow> work_state (h\<lparr>h_store := (h_store h)\<lparr>sto_faults := fs\<rparr>\<rparr>)"
  by (simp add: work_state_def work_inv_def waits_inv_def work_mirrored_def get_room_def
      split: option.splits)

lemma work_step_keeps: "work_state h \<Longrightarrow> work_step h h' \<Longrightarrow> work_state h'"
proof -
  assume s: "work_state h"
  then have w: "work_inv h" and v: "waits_inv h" and m: "work_mirrored h"
    by (simp_all add: work_state_def)
  assume "work_step h h'"
  then show "work_state h'"
  proof cases
    case create_task
    then show ?thesis unfolding work_state_def
      using create_task_keeps_work_inv [OF w] create_task_mirrored [OF m]
        waits_inv_touches [OF v create_task_touches] by simp
  next
    case update_task
    then show ?thesis unfolding work_state_def
      using update_task_keeps_work_inv [OF w] update_task_mirrored [OF m w]
        waits_inv_touches [OF v update_task_touches] by simp
  next
    case create_goal
    then show ?thesis unfolding work_state_def
      using create_goal_keeps_work_inv [OF w] create_goal_mirrored [OF m w]
        waits_inv_touches [OF v create_goal_touches] by simp
  next
    case update_goal
    then show ?thesis unfolding work_state_def
      using update_goal_keeps_work_inv [OF w] update_goal_mirrored [OF m w]
        waits_inv_touches [OF v update_goal_touches] by simp
  next
    case set_wait
    then show ?thesis unfolding work_state_def
      using set_wait_keeps_waits_inv [OF v] set_wait_mirrored [OF m]
        work_inv_touches [OF w set_wait_touches] by simp
  next
    case clear_wait
    then show ?thesis unfolding work_state_def
      using clear_wait_keeps_waits_inv [OF v] clear_wait_mirrored [OF m]
        work_inv_touches [OF w clear_wait_touches] by simp
  next
    case faults
    then show ?thesis using work_state_faults [OF s] by simp
  qed
qed

interpretation work_system: step_invariant work_step work_state
  by unfold_locales (rule work_step_keeps)

lemma sample_hub_work_state: "work_state sample_hub"
  by (simp add: work_state_def sample_hub_work_inv sample_hub_waits_inv sample_hub_mirrored)

lemma sample_worked_reached: "work_step\<^sup>*\<^sup>* sample_hub sample_worked"
proof -
  have "work_step sample_hub (snd (create_task ''loca'' sample_task_body 10 sample_hub))"
    by (rule work_step.create_task) code_simp
  moreover have "work_step (snd (create_task ''loca'' sample_task_body 10 sample_hub)) sample_worked"
    unfolding sample_worked_def by (rule work_step.create_goal) code_simp
  ultimately show ?thesis by (blast intro: rtranclp.intros)
qed

text \<open>
  C1: after any sequence of task, goal and wait operations, with any storage failures
  in between, the panel of every room is well formed: task and goal ids are below
  the counters and unique, closing times are set exactly on closed objects, at most
  one goal is active, an active goal has a lead and an unfinished linked task, linked
  tasks exist, and nobody waits for himself.
\<close>

theorem work_reachable_ok:
  assumes "work_state h" and "work_step\<^sup>*\<^sup>* h h'" and "get_room h' room = Some r"
  shows "work_ok room r \<and> waits_ok room r"
  using work_system.reach_keeps [OF assms(2,1)] assms(3)
  by (simp add: work_state_def work_inv_def waits_inv_def)

theorem work_reachable_ok_witness:
  "work_ok ''loca'' (room_mut ''loca'' sample_worked) \<and> waits_ok ''loca'' (room_mut ''loca'' sample_worked)"
  using work_reachable_ok [OF sample_hub_work_state sample_worked_reached sample_worked_room]
  by (simp add: room_mut_present [OF sample_worked_room])

text \<open>
  C2: a restart loses nothing of declared work.  After any sequence of operations and
  storage failures on a persistent store, reading the tables back returns exactly the
  tasks, goals and waits the room shows, for every room.
\<close>

theorem work_survives_restart:
  assumes "work_state h" and "work_step\<^sup>*\<^sup>* h h'" and "is_persistent (h_store h')"
  shows "load_tasks (h_store h') room = tasks_view h' room
    \<and> load_goals (h_store h') room = goals_view h' room
    \<and> load_waits (h_store h') room = waits_view h' room"
  using work_system.reach_keeps [OF assms(2,1)] assms(3)
    reload_tasks [of h'] reload_goals [of h'] reload_waits [of h']
  by (auto simp: work_state_def is_persistent_def)

theorem work_survives_restart_witness:
  "load_tasks (h_store sample_worked) ''loca'' = [sample_task]
   \<and> load_goals (h_store sample_worked) ''loca'' = [sample_goal]"
proof -
  have p: "is_persistent (h_store sample_worked)" by code_simp
  have "tasks_view sample_worked ''loca'' = [sample_task]" "goals_view sample_worked ''loca'' = [sample_goal]"
    by code_simp+
  then show ?thesis
    using work_survives_restart [OF sample_hub_work_state sample_worked_reached p, of "''loca''"] by simp
qed

subsection \<open>Authority, failure and completion\<close>

lemma sample_done_ok: "is_ok (fst (update_task ''loca'' 1 sample_done_body False 30 sample_worked))"
  by code_simp

text \<open>
  C5: a participant who is not an operator never acts for someone else.  When the
  update of a task succeeds for such a caller, the task was unassigned or already the
  caller's if its assignee changed, the new assignee is the caller, and a changed
  status is one the caller may set (taken or done) on a task that is his.
\<close>

theorem task_authority:
  assumes "update_task room i req False now h = (Ok t', h')" and "get_room h room = Some r"
    and "hm_get (r_tasks r) i = Some t"
  shows "(t_assigned_to t' \<noteq> t_assigned_to t \<longrightarrow>
            t_assigned_to t = None \<and> t_assigned_to t' = Some (ut_by req))
       \<and> (t_status t' \<noteq> t_status t \<longrightarrow>
            t_assigned_to t' = Some (ut_by req) \<and> t_status t' \<in> {TaskTaken, TaskDone})
       \<and> t_title t' = t_title t \<and> t_created_by t' = t_created_by t \<and> t_id t' = t_id t"
proof -
  from assms(1) obtain t1 progressed p where tr: "task_transition req False now t = Inr (t1, progressed)"
    and t': "t' = t1\<lparr>t_progress_at := p\<rparr> \<or> t' = t"
  proof (cases rule: update_task_okD)
    case (1 r0 old t1 linked progressed h2 s)
    then have "task_transition req False now t = Inr (t1, progressed)" using assms by simp
    moreover have "\<exists>p. t' = t1\<lparr>t_progress_at := p\<rparr> \<or> t' = t" using 1 assms by (auto split: if_splits)
    ultimately show thesis using that by blast
  qed
  have "(t_assigned_to t1 \<noteq> t_assigned_to t \<longrightarrow>
            t_assigned_to t = None \<and> t_assigned_to t1 = Some (ut_by req))
       \<and> (t_status t1 \<noteq> t_status t \<longrightarrow>
            t_assigned_to t1 = Some (ut_by req) \<and> t_status t1 \<in> {TaskTaken, TaskDone})
       \<and> t_title t1 = t_title t \<and> t_created_by t1 = t_created_by t \<and> t_id t1 = t_id t"
    using tr by (auto simp: task_transition_def task_assign_def task_set_status_def status_allowed_def Let_def
        split: option.splits sum.splits if_splits TaskStatus.splits)
  with t' show ?thesis by (elim disjE) simp_all
qed

theorem task_authority_witness:
  "\<exists>t' h'. update_task ''loca'' 1 sample_done_body False 30 sample_worked = (Ok t', h')
     \<and> t_title t' = t_title sample_task \<and> t_id t' = t_id sample_task"
proof -
  obtain t' where u: "update_task ''loca'' 1 sample_done_body False 30 sample_worked
      = (Ok t', snd (update_task ''loca'' 1 sample_done_body False 30 sample_worked))"
    using ok_run [of "update_task ''loca'' 1 sample_done_body False 30 sample_worked"] sample_done_ok by blast
  moreover have "hm_get (r_tasks sample_room) 1 = Some sample_task" by code_simp
  ultimately show ?thesis using task_authority [OF u sample_worked_room] by blast
qed

definition unseen :: "hub \<Rightarrow> hub \<Rightarrow> bool" where
  "unseen h h' = (sto_conn (h_store h') = sto_conn (h_store h) \<and> (\<forall>n. room_mut n h' = room_mut n h))"

lemma unseenI:
  assumes "h_rooms h' = h_rooms h \<or> h_rooms h' = h_rooms (put_room room (room_mut room h) h)"
    and "sto_conn (h_store h') = sto_conn (h_store h)"
    and "h_default_settings h' = h_default_settings h"
  shows "unseen h h'"
proof -
  have "room_mut n h' = room_mut n h" for n
    using assms(1)
  proof
    assume "h_rooms h' = h_rooms (put_room room (room_mut room h) h)"
    then have "room_mut n h' = room_mut n (put_room room (room_mut room h) h)"
      using assms(3) by (intro room_mut_rooms) simp_all
    then show ?thesis by (simp add: room_mut_put)
  qed (rule room_mut_rooms, use assms(3) in simp_all)
  with assms(2) show ?thesis by (simp add: unseen_def)
qed

lemma create_task_unseen: "create_task room req now h = (Err e, h') \<Longrightarrow> unseen h h'"
  by (auto simp: create_task_def upsert_task_def Let_def split: prod.splits sum.splits
      elim!: with_storeE dest: wr.err_rolls_back intro!: unseenI)

lemma update_task_unseen: "update_task room i req op now h = (Err e, h') \<Longrightarrow> unseen h h'"
  using update_task_err update_task_defaults by (blast intro: unseenI)

lemma create_goal_unseen: "create_goal room req now h = (Err e, h') \<Longrightarrow> unseen h h'"
  by (rule unseenI [where room = room])
    (auto simp: create_goal_def upsert_goal_def Let_def split: prod.splits sum.splits if_splits
      elim!: with_storeE dest: wr.err_rolls_back)

lemma update_goal_unseen: "update_goal room i req now h = (Err e, h') \<Longrightarrow> unseen h h'"
  using update_goal_err update_goal_defaults by (blast intro: unseenI)

lemma set_wait_unseen: "set_wait room req now h = (Err e, h') \<Longrightarrow> unseen h h'"
  by (rule unseenI [where room = room])
    (auto simp: set_wait_def Let_def split: option.splits if_splits
      dest: declare_wait_errD declare_wait_defaults)

lemma clear_wait_unseen: "clear_wait room x now h = (Err e, h') \<Longrightarrow> unseen h h'"
  using clear_wait_errD clear_wait_defaults by (blast intro: unseenI)

text \<open>
  C6: a refused operation of declared work changes nothing anyone can see: whatever
  error it reports (unknown, forbidden, no lead, a second active goal, an unknown task,
  a storage failure), the tables are as they were and every room has the tasks, goals,
  waits and broadcast frames it had.
\<close>

theorem work_refusal_unseen:
  "(create_task room creq now h = (Err e1, h') \<longrightarrow> unseen h h')
   \<and> (update_task room i ureq op now h = (Err e2, h') \<longrightarrow> unseen h h')
   \<and> (create_goal room greq now h = (Err e3, h') \<longrightarrow> unseen h h')
   \<and> (update_goal room i ugreq now h = (Err e3, h') \<longrightarrow> unseen h h')
   \<and> (set_wait room wreq now h = (Err e4, h') \<longrightarrow> unseen h h')
   \<and> (clear_wait room x now h = (Err e4, h') \<longrightarrow> unseen h h')"
  by (intro conjI impI, erule create_task_unseen, erule update_task_unseen, erule create_goal_unseen,
      erule update_goal_unseen, erule set_wait_unseen, erule clear_wait_unseen)

theorem work_refusal_unseen_witness:
  "create_goal ''loca'' sample_goal_body 30 sample_worked = (Err ActiveExists, snd (create_goal ''loca'' sample_goal_body 30 sample_worked))
   \<and> unseen sample_worked (snd (create_goal ''loca'' sample_goal_body 30 sample_worked))"
proof -
  have c: "create_goal ''loca'' sample_goal_body 30 sample_worked
      = (Err ActiveExists, snd (create_goal ''loca'' sample_goal_body 30 sample_worked))"
    by (rule err_run) code_simp
  with work_refusal_unseen show ?thesis by blast
qed

text \<open>
  C3: finishing the last linked task achieves the goal.  When the update of a task
  succeeds and leaves every linked task of the active goal done, the goal is achieved
  and closed in the same step, and no other goal becomes active.
\<close>

theorem last_task_achieves_goal:
  assumes "work_inv h" and "update_task room i req op now h = (Ok t, h')"
    and "get_room h room = Some r" and "hm_get (r_goals r) k = Some g" and "g_status g = GoalActive"
    and "g_completion g = AllTasks" and "get_room h' room = Some r'"
    and "\<forall>j \<in> set (g_task_ids g). task_done r' j"
  shows "\<exists>g'. hm_get (r_goals r') k = Some g' \<and> g_status g' = GoalAchieved
           \<and> g_closed_at g' \<noteq> None \<and> g_task_ids g' = g_task_ids g"
proof -
  have inv': "work_inv h'" using update_task_keeps_work_inv [OF assms(1), of room i req op now] assms(2) by simp
  have ok: "work_ok room r" and ok': "work_ok room r'"
    using assms(1,3,7) inv' by (simp_all add: work_inv_def)
  have fin: False if "hm_get (r_goals r') k = Some g1" "g_status g1 = GoalActive"
      "g_task_ids g1 = g_task_ids g" "g_completion g1 = AllTasks" for g1
  proof -
    have "goal_ok room r k g" "goal_ok room r' k g1" using ok ok' assms(4) that(1) by (auto simp: work_ok_def)
    then show False using that assms(6,8) by (auto simp: goal_ok_def all_goal_tasks_done_def)
  qed
  from assms(2) show ?thesis
  proof (cases rule: update_task_okD)
    case (1 r0 old t1 linked progressed h2 s)
    then have r': "r' = mirror_task room t linked progressed r" using assms(3,7) by simp
    show ?thesis
    proof (cases linked)
      case None
      then have "hm_get (r_goals r') k = Some g" using assms(4) by (simp add: r' mirror_task_def Let_def)
      then show ?thesis using fin assms(5,6) by blast
    next
      case (Some g1)
      then obtain p h1 where "linked_goal_after_task_progress r t p h1 = (Some g1, h2)"
        using 1 assms(3) by (auto split: if_splits)
      from linked_goal_SomeD [OF this ok] obtain g0 q where
        g0: "hm_get (r_goals r) (g_id g1) = Some g0" "g_status g0 = GoalActive"
        and g1: "g1 = (if \<forall>i \<in> set (g_task_ids g0). if i = t_id t then t_status t = TaskDone else task_done r i
             then g0\<lparr>g_progress_at := q, g_status := GoalAchieved, g_closed_at := Some p\<rparr>
             else g0\<lparr>g_progress_at := q\<rparr>)" by blast
      have k: "k = g_id g1" using ok g0 assms(4,5) unfolding work_ok_def one_active_def by blast
      then have "g0 = g" using g0 assms(4) by simp
      moreover have "hm_get (r_goals r') k = Some g1" by (simp add: r' Some mirror_task_def Let_def k)
      ultimately show ?thesis using fin g1 assms(5,6) by (cases "g_status g1 = GoalActive") (auto split: if_splits)
    qed
  qed
qed

theorem last_task_achieves_goal_witness:
  "\<exists>g'. hm_get (r_goals (room_mut ''loca'' (snd (update_task ''loca'' 1 sample_done_body False 30 sample_worked)))) 1
      = Some g' \<and> g_status g' = GoalAchieved \<and> g_closed_at g' \<noteq> None \<and> g_task_ids g' = g_task_ids sample_goal"
proof -
  let ?h' = "snd (update_task ''loca'' 1 sample_done_body False 30 sample_worked)"
  obtain t where u: "update_task ''loca'' 1 sample_done_body False 30 sample_worked = (Ok t, ?h')"
    using ok_run [OF sample_done_ok] by blast
  have "get_room ?h' ''loca'' = Some (room_mut ''loca'' ?h')" by code_simp
  moreover have "\<forall>j \<in> set (g_task_ids sample_goal). task_done (room_mut ''loca'' ?h') j" by code_simp
  moreover have "hm_get (r_goals sample_room) 1 = Some sample_goal" "g_status sample_goal = GoalActive"
    "g_completion sample_goal = AllTasks" by code_simp+
  ultimately show ?thesis
    using last_task_achieves_goal [OF sample_worked_work_inv u sample_worked_room] by blast
qed

end
