(* ===== verification/Waits_Properties.thy ===== *)
theory Waits_Properties
  imports Work_Properties
begin

text \<open>
  What the detection of deadlocks promises: the walk from an edge finds the cycle
  through it exactly when there is one, and the list of cycles of a room names
  exactly the participants who wait, through others, for themselves.
\<close>

text \<open>Three participants, two of whom wait for each other.\<close>

definition sample_deadlock :: hub where
  "sample_deadlock = snd (set_wait ''loca'' (sample_wait_body ''eve'' ''ada'') 30
     (snd (set_wait ''loca'' (sample_wait_body ''bob'' ''ada'') 20
       (snd (set_wait ''loca'' (sample_wait_body ''ada'' ''bob'') 10 sample_hub)))))"

abbreviation sample_jam :: room where
  "sample_jam \<equiv> room_mut ''loca'' sample_deadlock"

lemma sample_jam_ok: "waits_ok ''loca'' sample_jam"
  unfolding sample_deadlock_def
  by (intro waits_inv_room_mut set_wait_keeps_waits_inv sample_hub_waits_inv)

text \<open>
  The walk from a proposed or stored edge returns a non-empty path exactly when
  the waiter reaches itself along the edges of the room with that edge in place, and
  the path is then the cycle: no participant twice, starting at the waiter, each one
  waiting for the next and the last for the first.
\<close>

theorem wait_cycle_after_exact:
  "(wait_cycle_after r p \<noteq> [] \<longleftrightarrow> (waits_on r p)\<^sup>+\<^sup>+ (w_waiter p) (w_waiter p))
   \<and> (wait_cycle_after r p \<noteq> [] \<longrightarrow>
        distinct (wait_cycle_after r p) \<and> hd (wait_cycle_after r p) = w_waiter p
        \<and> (\<forall>i < length (wait_cycle_after r p).
             wait_next r p (wait_cycle_after r p ! i)
               = Some (wait_cycle_after r p ! (Suc i mod length (wait_cycle_after r p)))))"
  using wait_cycle_after_iff wait_cycle_after_members by blast

theorem wait_cycle_after_exact_witness:
  "wait_cycle_after sample_jam (new_wait ''loca'' (sample_wait_body ''ada'' ''bob'') 10) = [''ada'', ''bob'']
   \<and> (waits_on sample_jam (new_wait ''loca'' (sample_wait_body ''ada'' ''bob'') 10))\<^sup>+\<^sup>+ ''ada'' ''ada''"
proof -
  have "wait_cycle_after sample_jam (new_wait ''loca'' (sample_wait_body ''ada'' ''bob'') 10) = [''ada'', ''bob'']"
    "w_waiter (new_wait ''loca'' (sample_wait_body ''ada'' ''bob'') 10) = ''ada''"
    by code_simp+
  then show ?thesis
    using wait_cycle_after_exact [of sample_jam "new_wait ''loca'' (sample_wait_body ''ada'' ''bob'') 10"] by simp
qed

text \<open>
  C4: the deadlock report of a room is sound, complete and free of repetitions: every
  reported list is a cycle of the stored waits, no two report the same participants,
  and, for names without a NUL character, a participant is reported exactly when he
  waits, through others, for himself.
\<close>

theorem wait_cycles_exact:
  assumes ok: "waits_ok room r" and nul: "\<forall>x \<in> set (hm_keys (r_waits r)). CHR 0x00 \<notin> set x"
  shows "(\<forall>c \<in> set (wait_cycles r). is_wait_cycle r c)
       \<and> (\<forall>x. deadlocked r x \<longleftrightarrow> (\<exists>c \<in> set (wait_cycles r). x \<in> set c))
       \<and> distinct (wait_cycles r)
       \<and> (\<forall>c \<in> set (wait_cycles r). \<forall>d \<in> set (wait_cycles r). set c = set d \<longrightarrow> c = d)"
proof -
  note facts = wait_cycles_facts [OF ok]
  have keys: "x \<in> set (hm_keys (r_waits r))" if c: "is_wait_cycle r c" and x: "x \<in> set c" for c x
  proof -
    obtain i where "i < length c" "c ! i = x" using x by (auto simp: in_set_conv_nth)
    then have "stored_next r x \<noteq> None" using c by (auto simp: is_wait_cycle_def)
    then show ?thesis by (simp add: hm_keys_iff stored_next_def)
  qed
  have nulfree: "\<forall>x \<in> set c \<union> set d. CHR 0x00 \<notin> set x" if "is_wait_cycle r c" "is_wait_cycle r d" for c d
    using nul keys that by blast
  have complete: "\<exists>c \<in> set (wait_cycles r). x \<in> set c" if x: "deadlocked r x" for x
  proof -
    obtain edge where e: "hm_get (r_waits r) x = Some edge" "wait_cycle_after r edge \<noteq> []"
      using deadlocked_edge [OF ok x] by blast
    then obtain c where c: "c \<in> set (wait_cycles r)" "cycle_id (wait_cycle_after r edge) = cycle_id c"
      using facts(4) by blast
    have cyc: "is_wait_cycle r (wait_cycle_after r edge)" "is_wait_cycle r c"
      using cycle_of_edge [OF ok e] facts(1) c(1) by blast+
    have "set (wait_cycle_after r edge) = set c"
      by (rule cycle_id_inj [OF cyc c(2)]) (rule nulfree [OF cyc])
    moreover have "x = hd (wait_cycle_after r edge)" using wait_cycle_after_members(2) [OF e(2)] ok e(1)
      by (simp add: waits_ok_def)
    ultimately show ?thesis using c(1) e(2) hd_in_set by metis
  qed
  have same: "c = d" if "c \<in> set (wait_cycles r)" "d \<in> set (wait_cycles r)" "set c = set d" for c d
  proof -
    have "distinct c" "distinct d" using facts(1) that by (auto simp: is_wait_cycle_def)
    then have "sort c = sort d" using that(3) by (metis sorted_list_of_set_sort_remdups distinct_remdups_id)
    then show ?thesis using facts(2) that by (auto simp: cycle_id_def inj_on_def)
  qed
  show ?thesis
    using facts(1,3) complete same is_wait_cycle_deadlocked by blast
qed

theorem wait_cycles_exact_witness:
  "deadlocked sample_jam ''ada'' \<and> deadlocked sample_jam ''bob'' \<and> \<not> deadlocked sample_jam ''eve''"
proof -
  have n: "\<forall>x \<in> set (hm_keys (r_waits sample_jam)). CHR 0x00 \<notin> set x" by code_simp
  have "wait_cycles sample_jam = [[''ada'', ''bob'']]" by code_simp
  with wait_cycles_exact [OF sample_jam_ok n] show ?thesis by simp
qed

text \<open>
  A new wait starts a new generation.  A successful \<open>set_wait\<close> that is not a repeat of
  the stored edge records a start time strictly later than the previous edge of the
  same waiter and than every generation handed out before, resets the reminders
  already sent, shows the edge in the room and leaves the other waiters' edges alone.
\<close>

theorem set_wait_new_generation:
  assumes ok: "set_wait room req now h = (Ok w, h')"
    and new: "hm_get (r_waits (room_mut room h)) (sw_by req) \<noteq> Some w"
    and bounds: "\<forall>old. hm_get (r_waits (room_mut room h)) (sw_by req) = Some old \<longrightarrow> w_since old < u64_max"
      "h_condition_generation h < u64_max"
  shows "w_waiter w = sw_by req \<and> w_waiting_for w = sw_waiting_for req \<and> w_signal_count w = 0
     \<and> w_last_signal_at w = None \<and> now \<le> w_since w \<and> h_condition_generation h < w_since w
     \<and> (\<forall>old. hm_get (r_waits (room_mut room h)) (sw_by req) = Some old \<longrightarrow> w_since old < w_since w)
     \<and> r_waits (room_mut room h') = hm_insert (sw_by req) w (r_waits (room_mut room h))"
proof -
  have ns: "sw_by req \<noteq> sw_waiting_for req" using ok by (auto simp: set_wait_def)
  then show ?thesis
  proof (cases rule: set_wait_cases [of req room h now])
    case (same w')
    then show ?thesis using ok new by simp
  next
    case fresh
    let ?prev = "case hm_get (r_waits (room_mut room h)) (sw_by req) of None \<Rightarrow> 0 | Some w \<Rightarrow> w_since w"
    from ok [unfolded fresh] show ?thesis
    proof (cases rule: declare_wait_okD)
      case (1 since h1 s)
      have "?prev < u64_max" using bounds(1) by (auto simp: u64_max_def split: option.split)
      then have "?prev < since \<and> h_condition_generation h < since"
        using next_condition_generation_gt [OF 1(2)] bounds(2) by simp
      moreover have "now \<le> since" using next_condition_generation_ge [OF 1(2)] by simp
      ultimately show ?thesis using 1 by (auto simp: new_wait_def room_mut_put split: option.splits)
    qed
  qed
qed

theorem set_wait_new_generation_witness:
  "\<exists>w h'. set_wait ''loca'' (sample_wait_body ''ada'' ''eve'') 5 sample_deadlock = (Ok w, h') \<and> 30 < w_since w"
proof -
  let ?s = "set_wait ''loca'' (sample_wait_body ''ada'' ''eve'') 5 sample_deadlock"
  have "is_ok (fst ?s)" by code_simp
  then obtain w where u: "?s = (Ok w, snd ?s)" using ok_run by blast
  have g: "h_condition_generation sample_deadlock = 30" by code_simp
  have o: "hm_get (r_waits sample_jam) ''ada'' = Some (new_wait ''loca'' (sample_wait_body ''ada'' ''bob'') 10)"
    "sw_by (sample_wait_body ''ada'' ''eve'') = ''ada''" by code_simp+
  have "fst ?s \<noteq> Ok (new_wait ''loca'' (sample_wait_body ''ada'' ''bob'') 10)" by code_simp
  then have "w \<noteq> new_wait ''loca'' (sample_wait_body ''ada'' ''bob'') 10" using u by (metis fst_conv)
  moreover have "w_since (new_wait ''loca'' (sample_wait_body ''ada'' ''bob'') 10) < u64_max" by code_simp
  moreover have "(30::nat) < u64_max" by code_simp
  ultimately show ?thesis using set_wait_new_generation [OF u] g o u by auto
qed

end
