(* ===== verification/Store_Identity.thy ===== *)
theory Store_Identity
  imports Database
begin

text \<open>
  The part of \<^verbatim>\<open>crates/server/src/store/identity.rs\<close> and \<^verbatim>\<open>store.rs\<close> that resolves
  credentials to principals.  SHA-256 is a third-party function: it is the argument
  \<open>sha\<close>, from a string to its digest bytes, of every definition that hashes.
\<close>

type_synonym digest = "string \<Rightarrow> nat list"

definition hex_digit :: "nat \<Rightarrow> char" where
  "hex_digit n = ''0123456789abcdef'' ! n"

definition hex_bytes :: "nat list \<Rightarrow> string" where
  "hex_bytes bytes = concat (map (\<lambda>b. [hex_digit (b div 16), hex_digit (b mod 16)]) bytes)"

definition secret_hash :: "digest \<Rightarrow> string \<Rightarrow> string" where
  "secret_hash sha secret = hex_bytes (sha secret)"

definition hashed_id :: "digest \<Rightarrow> string \<Rightarrow> string \<Rightarrow> string" where
  "hashed_id sha prefix value = prefix @ hex_bytes (take 16 (sha value))"

text \<open>\<open>legacy_source\<close> is unique, so the query returns the one matching row.\<close>

definition principal_id_for_member_record :: "digest \<Rightarrow> store \<Rightarrow> string \<Rightarrow> string option" where
  "principal_id_for_member_record sha s member_token = (case sto_conn s of None \<Rightarrow> None
     | Some d \<Rightarrow> map_option cr_principal_id
         (find (\<lambda>c. cr_legacy_source c = Some (''member:'' @ secret_hash sha member_token))
            (hm_values (db_credentials d))))"

definition credential_is_revoked :: "digest \<Rightarrow> store \<Rightarrow> string \<Rightarrow> bool" where
  "credential_is_revoked sha s credential = (case sto_conn s of None \<Rightarrow> False
     | Some d \<Rightarrow>
         (case find (\<lambda>c. cr_secret_hash c = secret_hash sha credential) (hm_values (db_credentials d)) of
            None \<Rightarrow> False | Some c \<Rightarrow> cr_revoked_at c \<noteq> None))"

definition store_member_suspended :: "store \<Rightarrow> string \<Rightarrow> bool" where
  "store_member_suspended s token = (case sto_conn s of None \<Rightarrow> False
     | Some d \<Rightarrow> hm_contains (db_suspensions d) token)"

text \<open>Hexadecimal output is injective on bytes, so equal hashes mean equal digests.\<close>

lemma hex_digit_inj: "a < 16 \<Longrightarrow> b < 16 \<Longrightarrow> hex_digit a = hex_digit b \<Longrightarrow> a = b"
proof -
  have "distinct ''0123456789abcdef''" "length ''0123456789abcdef'' = 16" by simp_all
  then show "a < 16 \<Longrightarrow> b < 16 \<Longrightarrow> hex_digit a = hex_digit b \<Longrightarrow> a = b"
    unfolding hex_digit_def by (metis nth_eq_iff_index_eq)
qed

lemma hex_bytes_inj:
  "\<forall>b \<in> set xs \<union> set ys. b < 256 \<Longrightarrow> hex_bytes xs = hex_bytes ys \<Longrightarrow> xs = ys"
proof (induction xs arbitrary: ys)
  case Nil
  then show ?case by (cases ys) (simp_all add: hex_bytes_def)
next
  case (Cons x xs)
  then obtain y ys' where ys: "ys = y # ys'" by (cases ys) (simp_all add: hex_bytes_def)
  with Cons.prems have "hex_digit (x div 16) = hex_digit (y div 16)" "hex_digit (x mod 16) = hex_digit (y mod 16)"
    "hex_bytes xs = hex_bytes ys'" "x < 256" "y < 256" by (simp_all add: hex_bytes_def)
  moreover from this(4,5) have "x div 16 < 16" "y div 16 < 16" by simp_all
  ultimately have "x div 16 = y div 16" "x mod 16 = y mod 16" "hex_bytes xs = hex_bytes ys'"
    using hex_digit_inj by simp_all
  then have "x = y" by (metis div_mult_mod_eq)
  with Cons.IH [of ys'] Cons.prems ys \<open>hex_bytes xs = hex_bytes ys'\<close> show ?case by simp
qed

end
