(* ===== verification/Health.thy ===== *)
theory Health
  imports Hub_State Store_Identity
begin

text \<open>
  \<^verbatim>\<open>crates/server/src/hub/attention/{runtime_health,owner,addressing}.rs\<close>: when a wake
  adapter counts as ready, who is chosen to own a care delivery, who an Everyone
  reminder is for, and which caretakers a message calls.  Readiness is a function
  of the clock, so a record that stops being refreshed stops being ready.
\<close>

subsection \<open>Runtime health\<close>

definition RUNTIME_SEEN_TTL_MS :: u64 where
  "RUNTIME_SEEN_TTL_MS = 20000"

definition RUNTIME_WAKE_GRACE_MS :: u64 where
  "RUNTIME_WAKE_GRACE_MS = 10000"

definition RUNTIME_ACK_GRACE_MS :: u64 where
  "RUNTIME_ACK_GRACE_MS = 360000"

definition runtime_record_ready :: "u64 \<Rightarrow> runtime_record \<Rightarrow> bool" where
  "runtime_record_ready now rec =
     (if RUNTIME_SEEN_TTL_MS < u64_saturating_sub now (rt_seen_at rec) then False
      else if rt_wake rec = ''IDLE'' then True
      else if rt_wake rec = ''OK''
      then rt_ack rec \<noteq> ''PENDING'' \<or> u64_saturating_sub now (rt_progress_at rec) \<le> RUNTIME_ACK_GRACE_MS
      else if rt_wake rec = ''RUNNING''
      then u64_saturating_sub now (rt_progress_at rec) \<le> RUNTIME_WAKE_GRACE_MS
      else False)"

definition runtime_health_for :: "u64 \<Rightarrow> hub \<Rightarrow> string \<Rightarrow> runtime_health option" where
  "runtime_health_for now h name = map_option (\<lambda>rec.
     \<lparr> rh_wake = rt_wake rec, rh_ack = rt_ack rec, rh_delivery_id = rt_delivery_id rec,
       rh_attention_id = rt_attention_id rec, rh_stored = rt_stored rec,
       rh_accepted = rt_accepted rec, rh_first_response = rt_first_response rec,
       rh_final_response = rt_final_response rec, rh_turn_completed = rt_turn_completed rec,
       rh_seen_at = rt_seen_at rec, rh_progress_at = rt_progress_at rec,
       rh_ready = runtime_record_ready now rec \<rparr>) (hm_get (h_runtime_health h) name)"

definition is_runtime_ready :: "u64 \<Rightarrow> hub \<Rightarrow> string \<Rightarrow> bool" where
  "is_runtime_ready now h name = (case runtime_health_for now h name of None \<Rightarrow> False | Some r \<Rightarrow> rh_ready r)"

definition wake_states :: "string list" where
  "wake_states = [''IDLE'', ''RUNNING'', ''OK'', ''FAILED'', ''RESTARTING'', ''MANUAL'', ''UNVERIFIED'']"

definition ack_states :: "string list" where
  "ack_states = [''IDLE'', ''PENDING'', ''OK'', ''UNVERIFIED'']"

definition update_valid :: "runtime_health_update \<Rightarrow> bool" where
  "update_valid u = (ru_wake u \<in> set wake_states \<and> ru_ack u \<in> set ack_states
     \<and> (case ru_delivery_id u of None \<Rightarrow> True | Some v \<Rightarrow> str_len v \<le> 200)
     \<and> (case ru_attention_id u of None \<Rightarrow> True | Some v \<Rightarrow> str_len v \<le> 300))"

definition report_unchanged :: "runtime_record \<Rightarrow> runtime_health_update \<Rightarrow> bool" where
  "report_unchanged old u = (rt_wake old = ru_wake u \<and> rt_ack old = ru_ack u
     \<and> rt_delivery_id old = ru_delivery_id u \<and> rt_attention_id old = ru_attention_id u
     \<and> rt_stored old = ru_stored u \<and> rt_accepted old = ru_accepted u
     \<and> rt_first_response old = ru_first_response u \<and> rt_final_response old = ru_final_response u
     \<and> rt_turn_completed old = ru_turn_completed u)"

definition report_runtime_health ::
  "string \<Rightarrow> runtime_health_update \<Rightarrow> u64 \<Rightarrow> hub \<Rightarrow> runtime_health option \<times> hub" where
  "report_runtime_health name u now h =
     (if \<not> update_valid u then (None, h)
      else let progress_at = (case hm_get (h_runtime_health h) name of
                 None \<Rightarrow> now
               | Some old \<Rightarrow> if report_unchanged old u then rt_progress_at old else now);
               rec = \<lparr> rt_wake = ru_wake u, rt_ack = ru_ack u, rt_delivery_id = ru_delivery_id u,
                       rt_attention_id = ru_attention_id u, rt_stored = ru_stored u,
                       rt_accepted = ru_accepted u, rt_first_response = ru_first_response u,
                       rt_final_response = ru_final_response u,
                       rt_turn_completed = ru_turn_completed u, rt_seen_at = now,
                       rt_progress_at = progress_at \<rparr>;
               h' = h\<lparr>h_runtime_health := hm_insert name rec (h_runtime_health h)\<rparr>
           in (runtime_health_for now h' name, h'))"

subsection \<open>Residents of the building\<close>

definition lobby_is_online :: "hub \<Rightarrow> string \<Rightarrow> bool" where
  "lobby_is_online h member = (case hm_get (h_lobby_online h) member of None \<Rightarrow> False | Some n \<Rightarrow> 0 < n)"

definition member_management_id :: "digest \<Rightarrow> string \<Rightarrow> string" where
  "member_management_id sha token = hashed_id sha ''mbid_'' (''member:'' @ token)"

definition add_loca :: "string \<Rightarrow> resident \<Rightarrow> resident" where
  "add_loca room e = (if room \<in> set (rs_locas e) then e else e\<lparr>rs_locas := rs_locas e @ [room]\<rparr>)"

definition update_entry :: "(resident \<Rightarrow> resident) \<Rightarrow> string \<Rightarrow> (string, resident) hashmap \<Rightarrow> (string, resident) hashmap" where
  "update_entry f name m = (case hm_get m name of None \<Rightarrow> m | Some e \<Rightarrow> hm_insert name (f e) m)"

definition residents :: "digest \<Rightarrow> u64 \<Rightarrow> hub \<Rightarrow> resident list" where
  "residents sha now h =
     (let base = fold (\<lambda>m. hm_insert (mb_name m)
            \<lparr> rs_suspended = store_member_suspended (h_store h) (mb_token m),
              rs_membership_id = Some (member_management_id sha (mb_token m)), rs_name = mb_name m,
              rs_kind = mb_kind m, rs_locas = [], rs_online = lobby_is_online h (mb_token m),
              rs_runtime = runtime_health_for now h (mb_name m) \<rparr>) (hm_values (h_members h)) [];
          invited = fold (\<lambda>dv. update_entry (add_loca (iv_room dv)) (iv_name dv)) (hm_values (h_invites h)) base;
          seated = fold (\<lambda>(room, r). fold (\<lambda>(name, _, _). update_entry (\<lambda>e. add_loca room (e\<lparr>rs_online := True\<rparr>)) name)
                     (hm_values (r_members r))) (h_rooms h) invited
      in map snd (sort_key fst seated))"

subsection \<open>Owners\<close>

definition active_davets :: "hub \<Rightarrow> string \<Rightarrow> invite list" where
  "active_davets h room = filter (\<lambda>dv. iv_room dv = room \<and> iv_member dv \<noteq> []
     \<and> hm_contains (h_members h) (iv_member dv)) (hm_values (h_invites h))"

definition davet_pair :: "hub \<Rightarrow> invite \<Rightarrow> string \<times> string" where
  "davet_pair h dv = (iv_member dv, case hm_get (h_members h) (iv_member dv) of
     None \<Rightarrow> [] | Some m \<Rightarrow> mb_name m)"

fun collect_roster ::
  "(string \<Rightarrow> string option) \<Rightarrow> (string \<times> string) list \<Rightarrow> string hashset \<Rightarrow> (string \<times> string) list \<Rightarrow>
     (string \<times> string) list option" where
  "collect_roster lookup [] seen out = Some out"
| "collect_roster lookup ((token, name) # pairs) seen out = (case lookup token of
     None \<Rightarrow> None
   | Some pid \<Rightarrow>
       if pid \<in> set seen then collect_roster lookup pairs seen out
       else collect_roster lookup pairs (hs_insert pid seen) (out @ [(pid, name)]))"

definition everyone_recipients :: "digest \<Rightarrow> hub \<Rightarrow> string \<Rightarrow> (string \<times> string) list option" where
  "everyone_recipients sha h room = map_option sort
     (collect_roster (principal_id_for_member_record sha (h_store h))
        (map (davet_pair h) (active_davets h room)) [] [])"

definition everyone_recipient_active :: "digest \<Rightarrow> hub \<Rightarrow> string \<Rightarrow> string \<Rightarrow> bool" where
  "everyone_recipient_active sha h room pid = (\<exists>dv \<in> set (active_davets h room).
     principal_id_for_member_record sha (h_store h) (iv_member dv) = Some pid)"

definition seated :: "room \<Rightarrow> string \<Rightarrow> bool" where
  "seated r name = (\<exists>(n, _, count) \<in> set (hm_values (r_members r)). n = name \<and> 0 < count)"

definition online_names :: "room \<Rightarrow> string list" where
  "online_names r = sort_dedup (map fst (filter (\<lambda>(_, _, count). 0 < count) (hm_values (r_members r))))"

definition care_candidates :: "room \<Rightarrow> string list" where
  "care_candidates r = (case st_care_recipient (r_settings r) of
     RecLead \<Rightarrow> (case st_lead (r_settings r) of None \<Rightarrow> [] | Some l \<Rightarrow> [l])
   | RecPerson name \<Rightarrow> [name]
   | RecAll \<Rightarrow> (case st_lead (r_settings r) of
        None \<Rightarrow> online_names r
      | Some l \<Rightarrow> l # filter (\<lambda>n. n \<noteq> l) (online_names r)))"

definition care_owner :: "u64 \<Rightarrow> hub \<Rightarrow> string \<Rightarrow> string option" where
  "care_owner now h room_name = (case get_room h room_name of
     None \<Rightarrow> None
   | Some r \<Rightarrow>
       (case find (\<lambda>n. seated r n \<and> is_runtime_ready now h n) (care_candidates r) of
          Some n \<Rightarrow> Some n
        | None \<Rightarrow>
            if ''loca-care'' \<notin> set (h_caretakers h) then None
            else (case get_room h (h_home_room h) of
                    None \<Rightarrow> None
                  | Some home \<Rightarrow>
                      if seated home ''loca-care'' \<and> is_runtime_ready now h ''loca-care''
                      then Some ''loca-care'' else None)))"

definition rehome_caretaker_signal :: "hub \<Rightarrow> string \<Rightarrow> care_signal \<Rightarrow> care_signal" where
  "rehome_caretaker_signal h source_room s =
     (if c_owner s = Some ''loca-care'' \<and> source_room \<noteq> h_home_room h
      then s\<lparr>c_source_room := source_room, c_room := h_home_room h\<rparr> else s)"

definition caretaker_owns_attention :: "hub \<Rightarrow> string \<Rightarrow> string \<Rightarrow> string \<Rightarrow> bool" where
  "caretaker_owns_attention h room i actor = (actor \<in> set (h_caretakers h)
     \<and> (case get_room h room of None \<Rightarrow> False
        | Some r \<Rightarrow> (case hm_get (r_attentions r) i of None \<Rightarrow> False
            | Some a \<Rightarrow> a_owner a = Some actor)))"

definition resolve_attention_owner ::
  "u64 \<Rightarrow> hub \<Rightarrow> room \<Rightarrow> AttentionAudience \<Rightarrow> (string \<times> string list) option" where
  "resolve_attention_owner now h r audience = (case audience of
     AudLead \<Rightarrow> map_option (\<lambda>l. (l, [l])) (st_lead (r_settings r))
   | AudPerson name \<Rightarrow> (let n = str_trim name in if n = [] then None else Some (n, [n]))
   | AudGroup names \<Rightarrow>
       (let ns = sort_dedup (filter (\<lambda>n. n \<noteq> []) (map str_trim names))
        in case find (\<lambda>n. seated r n \<and> is_runtime_ready now h n) ns of
             Some owner \<Rightarrow> Some (owner, ns)
           | None \<Rightarrow> (case ns of [] \<Rightarrow> None | first # _ \<Rightarrow> Some (first, ns))))"

subsection \<open>Caretakers a message calls\<close>

definition word_char :: "char \<Rightarrow> bool" where
  "word_char c = (is_alphanumeric c \<or> c = CHR ''@'' \<or> c = CHR ''-'' \<or> c = CHR ''_'')"

definition mention_tokens :: "string \<Rightarrow> string list" where
  "mention_tokens text = split_by (\<lambda>c. \<not> word_char c) (to_lowercase text)"

definition caretaker_named :: "hub \<Rightarrow> string option \<Rightarrow> string list" where
  "caretaker_named h name = (case name of None \<Rightarrow> []
     | Some n \<Rightarrow> if to_lowercase n \<in> set (h_caretakers h) then [to_lowercase n] else [])"

definition addressed_caretakers :: "hub \<Rightarrow> message \<Rightarrow> string list" where
  "addressed_caretakers h m = sort_dedup
     (caretaker_named h (m_target m) @ caretaker_named h (m_reply_to_sender m)
      @ List.map_filter (\<lambda>tok. case strip_prefix tok ''@'' of None \<Rightarrow> None
           | Some name \<Rightarrow> if name \<in> set (h_caretakers h) then Some name else None)
          (mention_tokens (m_text m)))"

text \<open>\<open>msg_addresses\<close> of \<^verbatim>\<open>main.rs\<close>: whom a message wakes on a filtered stream.\<close>

definition msg_addresses :: "message \<Rightarrow> string \<Rightarrow> bool \<Rightarrow> bool" where
  "msg_addresses m name accepts_all =
     (let all_is_a_call = (accepts_all \<and> m_kind m \<noteq> Announce)
      in m_target m = Some name
         \<or> m_reply_to_sender m = Some name
         \<or> (all_is_a_call \<and> m_target m = Some ''all'')
         \<or> (\<exists>tok \<in> set (mention_tokens (m_text m)).
              tok = ''@'' @ to_lowercase name \<or> (all_is_a_call \<and> tok = ''@all'')))"

end
