(* ===== verification/Attention.thy ===== *)
theory Attention
  imports Conditions Health
begin

text \<open>
  \<^verbatim>\<open>crates/server/src/hub/attention/lifecycle.rs\<close>: creating, claiming, resolving and
  acknowledging an attention.  The states of an attention form a line, open, claimed,
  resolved, that is only walked forward; a claim belongs to the named owner and is
  exclusive; a delivery receipt belongs to the addressed principal.
\<close>

datatype AttentionError = AttNotFound | AttNoRecipient | AttForbidden | AttConflict | AttStorage

subsection \<open>Operations\<close>

definition attentions_view :: "hub \<Rightarrow> string \<Rightarrow> attention list" where
  "attentions_view h room = (case get_room h room of None \<Rightarrow> []
     | Some r \<Rightarrow> sort_key a_created_at (hm_values (r_attentions r)))"

definition pending_care_scoped :: "digest \<Rightarrow> hub \<Rightarrow> string \<Rightarrow> string \<Rightarrow> string option \<Rightarrow> care_signal list" where
  "pending_care_scoped sha h delivery_room owner pid =
     filter (\<lambda>s. case c_owner_principal_id s of
               Some p \<Rightarrow> everyone_recipient_active sha h delivery_room p | None \<Rightarrow> True)
       (store_pending_care_scoped (h_store h) delivery_room owner pid)"

definition context_tail :: "room \<Rightarrow> message list" where
  "context_tail r = drop (length (r_history r) - st_care_context_messages (r_settings r)) (r_history r)"

definition manual_signal ::
  "string \<Rightarrow> create_attention_body \<Rightarrow> u64 \<Rightarrow> room \<Rightarrow> string \<Rightarrow> string list \<Rightarrow> string \<Rightarrow> string \<Rightarrow> care_signal" where
  "manual_signal room_name req now r owner participants did aid =
     \<lparr> c_id = did, c_attention_id = aid, c_room = room_name, c_source_room = [],
       c_reason = CareManual, c_audience = ca_audience req, c_owner = Some owner,
       c_owner_principal_id = None, c_group = None, c_target = Some owner,
       c_participants = participants, c_subject = ca_subject req, c_created_by = ca_by req,
       c_context = context_tail r, c_attempt = 1, c_at = now, c_escalated = False, c_state = Running \<rparr>"

text \<open>The envelope made durable, recorded as an undelivered care and shown to the room.\<close>

definition open_attention ::
  "string \<Rightarrow> room \<Rightarrow> care_signal \<Rightarrow> hub \<Rightarrow> (AttentionError, attention) result \<times> hub" where
  "open_attention room_name r s h =
     (let (res, h3) = with_store (enqueue_care room_name s) h
      in case res of
           Inl _ \<Rightarrow> (Err AttStorage, h3)
         | Inr _ \<Rightarrow>
             let h4 = h3\<lparr>h_care_deliveries := hm_insert (c_id s) (c_attention_id s) (h_care_deliveries h3)\<rparr>;
                 a = (case store_attention (h_store h4) (c_attention_id s) of
                        Some a \<Rightarrow> a | None \<Rightarrow> attention_of_signal (c_attention_id s) (origin_room s) s)
             in (Ok a, put_room room_name (send (FCare s) (send (FAttention a)
                   (r\<lparr>r_attentions := hm_insert (a_id a) a (r_attentions r)\<rparr>))) h4))"

definition create_attention ::
  "string \<Rightarrow> create_attention_body \<Rightarrow> u64 \<Rightarrow> hub \<Rightarrow> (AttentionError, attention) result \<times> hub" where
  "create_attention room_name req now h = (case get_room h room_name of
     None \<Rightarrow> (Err AttNotFound, h)
   | Some r \<Rightarrow>
       (case resolve_attention_owner now h r (ca_audience req) of
          None \<Rightarrow> (Err AttNoRecipient, h)
        | Some (owner, participants) \<Rightarrow>
            let (did, h1) = secure_token ''delivery_'' h;
                (aid, h2) = secure_token ''att_'' h1
            in open_attention room_name r (manual_signal room_name req now r owner participants did aid) h2))"

definition claim_attention ::
  "string \<Rightarrow> string \<Rightarrow> string \<Rightarrow> u64 \<Rightarrow> hub \<Rightarrow> (AttentionError, attention) result \<times> hub" where
  "claim_attention room_name i actor now h = (case get_room h room_name of
     None \<Rightarrow> (Err AttNotFound, h)
   | Some r \<Rightarrow>
       (case hm_get (r_attentions r) i of
          None \<Rightarrow> (Err AttNotFound, h)
        | Some a \<Rightarrow>
            if a_owner a \<noteq> Some actor then (Err AttForbidden, h)
            else if a_status a \<noteq> AttOpen then (Err AttConflict, h)
            else let (res, h1) = with_store (store_claim_attention i actor now) h
                 in case res of
                      Inl _ \<Rightarrow> (Err AttStorage, h1)
                    | Inr False \<Rightarrow> (Err AttConflict, h1)
                    | Inr True \<Rightarrow>
                        let out = a\<lparr>a_status := AttClaimed, a_claimed_by := Some actor,
                                    a_claimed_at := Some now\<rparr>
                        in (Ok out, put_room room_name (send (FAttention out)
                              (r\<lparr>r_attentions := hm_insert i out (r_attentions r)\<rparr>)) h1)))"

text \<open>Who may resolve: the scope the ledger recorded decides, never a shared name.\<close>

definition may_resolve :: "string option option \<Rightarrow> attention \<Rightarrow> string \<Rightarrow> string option \<Rightarrow> bool" where
  "may_resolve scope current actor actor_pid =
     (let named = (a_owner current = Some actor \<or> a_claimed_by current = Some actor)
      in case scope of
           Some (Some pid) \<Rightarrow> actor_pid = Some pid
         | Some None \<Rightarrow> named
         | None \<Rightarrow> if a_group current \<noteq> None then False else named)"

definition finish_resolve ::
  "string \<Rightarrow> string \<Rightarrow> u64 \<Rightarrow> room \<Rightarrow> attention \<Rightarrow> hub \<Rightarrow> (AttentionError, attention) result \<times> hub" where
  "finish_resolve room_name i now r current h =
     (if a_status current = AttResolved then (Err AttConflict, h)
      else let (res, h1) = with_store (store_resolve_attention i now) h
           in case res of
                Inl _ \<Rightarrow> (Err AttStorage, h1)
              | Inr False \<Rightarrow> (Err AttConflict, h1)
              | Inr True \<Rightarrow>
                  let out = current\<lparr>a_status := AttResolved, a_resolved_at := Some now\<rparr>
                  in (Ok out, put_room room_name (send (FAttention out)
                        (r\<lparr>r_attentions := hm_insert i out (r_attentions r)\<rparr>)) h1))"

definition resolve_attention ::
  "string \<Rightarrow> string \<Rightarrow> string \<Rightarrow> string option \<Rightarrow> bool \<Rightarrow> u64 \<Rightarrow> hub \<Rightarrow>
     (AttentionError, attention) result \<times> hub" where
  "resolve_attention room_name i actor actor_pid is_operator now h = (case get_room h room_name of
     None \<Rightarrow> (Err AttNotFound, h)
   | Some r \<Rightarrow>
       (case hm_get (r_attentions r) i of
          None \<Rightarrow> (Err AttNotFound, h)
        | Some current \<Rightarrow>
            if is_operator then finish_resolve room_name i now r current h
            else let (res, h1) = with_store (attention_owner_principal_id i) h
                 in case res of
                      Inl _ \<Rightarrow> (Err AttStorage, h1)
                    | Inr scope \<Rightarrow>
                        if \<not> may_resolve scope current actor actor_pid then (Err AttForbidden, h1)
                        else finish_resolve room_name i now r current h1))"

definition memory_attention :: "hub \<Rightarrow> string \<Rightarrow> attention option" where
  "memory_attention h aid = (case find (\<lambda>r. hm_contains (r_attentions r) aid) (hm_values (h_rooms h)) of
     None \<Rightarrow> None | Some r \<Rightarrow> hm_get (r_attentions r) aid)"

fun mark_delivered :: "string \<Rightarrow> u64 \<Rightarrow> (string, room) hashmap \<Rightarrow> (string, room) hashmap" where
  "mark_delivered aid now [] = []"
| "mark_delivered aid now ((n, r) # rooms) = (case hm_get (r_attentions r) aid of
     None \<Rightarrow> (n, r) # mark_delivered aid now rooms
   | Some a \<Rightarrow>
       let a' = a\<lparr>a_delivered_at := coalesce (a_delivered_at a) now\<rparr>
       in (n, send (FAttention a') (r\<lparr>r_attentions := hm_insert aid a' (r_attentions r)\<rparr>)) # rooms)"

definition ack_care ::
  "string \<Rightarrow> string \<Rightarrow> string option \<Rightarrow> u64 \<Rightarrow> hub \<Rightarrow> (sql_error, bool) result \<times> hub" where
  "ack_care signal_id owner pid now h =
     (let hot = hm_get (h_care_deliveries h) signal_id
      in case (case hot of Some a \<Rightarrow> Some a | None \<Rightarrow> attention_id_for_delivery (h_store h) signal_id) of
           None \<Rightarrow> (Ok False, h)
         | Some aid \<Rightarrow>
             let mem = memory_attention h aid;
                 att = (case mem of Some a \<Rightarrow> Some a | None \<Rightarrow> store_attention (h_store h) aid)
             in if (case att of None \<Rightarrow> None | Some a \<Rightarrow> a_owner a) \<noteq> Some owner then (Ok False, h)
                else let (res, h1) = with_store (ack_care_scoped signal_id owner pid now) h
                     in case res of
                          Inl e \<Rightarrow> (Err e, h1)
                        | Inr durable \<Rightarrow>
                            let acked = (durable \<or> (\<not> is_persistent (h_store h1) \<and> hot \<noteq> None
                                  \<and> (case mem of None \<Rightarrow> False | Some a \<Rightarrow> a_delivered_at a = None)))
                            in (Ok acked,
                                if acked
                                then h1\<lparr>h_care_deliveries := hm_remove signal_id (h_care_deliveries h1),
                                        h_rooms := mark_delivered aid now (h_rooms h1)\<rparr>
                                else h1))"

subsection \<open>Memory and ledger agree\<close>

definition unique_home :: "hub \<Rightarrow> bool" where
  "unique_home h = (\<forall>n n' r r' i. get_room h n = Some r \<longrightarrow> get_room h n' = Some r'
     \<longrightarrow> hm_contains (r_attentions r) i \<longrightarrow> hm_contains (r_attentions r') i \<longrightarrow> n = n')"

definition ledger_ok :: "hub \<Rightarrow> bool" where
  "ledger_ok h = (hm_ok (h_rooms h) \<and> unique_home h
     \<and> (\<forall>d n r i a. sto_conn (h_store h) = Some d \<longrightarrow> get_room h n = Some r
          \<longrightarrow> hm_get (r_attentions r) i = Some a
          \<longrightarrow> map_option attention_from_row (hm_get (db_attentions d) i) = Some a))"

lemma ledger_okD:
  assumes "ledger_ok h" "sto_conn (h_store h) = Some d" "get_room h n = Some r"
    "hm_get (r_attentions r) i = Some a"
  obtains row where "hm_get (db_attentions d) i = Some row" and "attention_from_row row = a"
  using assms unfolding ledger_ok_def by blast

lemma from_row_simps [simp]:
  "a_status (attention_from_row row) = (if ar_resolved_at row \<noteq> None then AttResolved
     else if ar_claimed_at row \<noteq> None then AttClaimed else AttOpen)"
  "a_claimed_by (attention_from_row row) = ar_claimed_by row"
  "a_claimed_at (attention_from_row row) = ar_claimed_at row"
  "a_resolved_at (attention_from_row row) = ar_resolved_at row"
  "a_delivered_at (attention_from_row row) = ar_delivered_at row"
  "a_owner (attention_from_row row) = c_owner (ar_signal row)"
  "a_group (attention_from_row row) = c_group (ar_signal row)"
  by (simp_all add: attention_from_row_def Let_def)

text \<open>One attention of one room changes, in memory and in the ledger alike.\<close>

lemma ledger_ok_change:
  assumes ok: "ledger_ok h" and r: "get_room h n = Some r"
    and a: "hm_get (r_attentions r) i = Some a" and r': "r_attentions r' = hm_insert i a' (r_attentions r)"
    and h1: "h_rooms h1 = h_rooms h"
    and conn: "\<And>d1. sto_conn (h_store h1) = Some d1 \<Longrightarrow> \<exists>d. sto_conn (h_store h) = Some d
       \<and> map_option attention_from_row (hm_get (db_attentions d1) i) = Some a'
       \<and> (\<forall>j. j \<noteq> i \<longrightarrow> hm_get (db_attentions d1) j = hm_get (db_attentions d) j)"
  shows "ledger_ok (put_room n r' h1)"
proof -
  have get1: "get_room h1 m = get_room h m" for m using h1 by (simp add: get_room_def)
  have same: "hm_contains (r_attentions r') j \<longleftrightarrow> hm_contains (r_attentions r) j" for j
    using a by (auto simp: r' hm_contains_def)
  have uniq: "unique_home (put_room n r' h1)"
    using ok r unfolding ledger_ok_def unique_home_def by (auto simp: get1 same split: if_splits)
  have other: "m = n" if "get_room h m = Some r0" "hm_get (r_attentions r0) i = Some b" for m r0 b
    using ok that r a unfolding ledger_ok_def unique_home_def hm_contains_def by blast
  have "map_option attention_from_row (hm_get (db_attentions d1) j) = Some b"
    if d1: "sto_conn (h_store h1) = Some d1" and m: "get_room (put_room n r' h1) m = Some r0"
      and b: "hm_get (r_attentions r0) j = Some b" for d1 m r0 j b
  proof -
    obtain d where d: "sto_conn (h_store h) = Some d"
      and i: "map_option attention_from_row (hm_get (db_attentions d1) i) = Some a'"
      and j: "\<And>j. j \<noteq> i \<Longrightarrow> hm_get (db_attentions d1) j = hm_get (db_attentions d) j"
      using conn [OF d1] by blast
    show ?thesis
    proof (cases "m = n")
      case True
      then have "r0 = r'" using m by simp
      then show ?thesis using b i j ok d r unfolding ledger_ok_def
        by (cases "j = i") (auto simp: r')
    next
      case False
      then have m': "get_room h m = Some r0" using m by (simp add: get1)
      then have "j \<noteq> i" using other b False by blast
      then show ?thesis using j ok d m' b unfolding ledger_ok_def by auto
    qed
  qed
  then show ?thesis using ok uniq h1 unfolding ledger_ok_def by (simp add: put_room_def)
qed

lemma ledger_ok_same:
  assumes "ledger_ok h" "h_rooms h' = h_rooms h" "sto_conn (h_store h') = sto_conn (h_store h)"
  shows "ledger_ok h'"
  using assms by (simp add: ledger_ok_def unique_home_def get_room_def)

subsection \<open>Claims\<close>

lemma store_claim_errD:
  "store_claim_attention i by at s = (Inl e, s') \<Longrightarrow> sto_conn s' = sto_conn s"
  unfolding store_claim_attention_def by (rule txn.err_rolls_back)

lemma store_claim_falseD:
  assumes "store_claim_attention i by at s = (Inr False, s')" shows "sto_conn s' = sto_conn s"
  using assms unfolding store_claim_attention_def
  by (auto simp: run_txn_def split: option.splits list.splits bool.splits if_splits)

lemma store_claim_trueD:
  assumes "store_claim_attention i by at s = (Inr True, s')" and "sto_conn s' = Some d'"
  shows "\<exists>d row. sto_conn s = Some d \<and> hm_get (db_attentions d) i = Some row
     \<and> ar_claimed_at row = None \<and> ar_resolved_at row = None
     \<and> d' = d\<lparr>db_attentions := hm_insert i (row\<lparr>ar_claimed_by := Some by, ar_claimed_at := Some at\<rparr>)
           (db_attentions d)\<rparr>"
  using assms unfolding store_claim_attention_def
  by (auto simp: run_txn_def split: option.splits list.splits bool.splits if_splits)

definition claimed_copy :: "string \<Rightarrow> u64 \<Rightarrow> attention \<Rightarrow> attention" where
  "claimed_copy actor now a = a\<lparr>a_status := AttClaimed, a_claimed_by := Some actor, a_claimed_at := Some now\<rparr>"

lemma claim_attention_okD:
  assumes "claim_attention room i actor now h = (Ok out, h')"
  obtains r a s where "get_room h room = Some r" and "hm_get (r_attentions r) i = Some a"
    and "a_owner a = Some actor" and "a_status a = AttOpen"
    and "store_claim_attention i actor now (h_store h) = (Inr True, s)"
    and "out = claimed_copy actor now a"
    and "h' = put_room room (send (FAttention out) (r\<lparr>r_attentions := hm_insert i out (r_attentions r)\<rparr>))
           (h\<lparr>h_store := s\<rparr>)"
  using assms
  by (auto simp: claim_attention_def claimed_copy_def Let_def
      split: option.splits if_splits sum.splits bool.splits prod.splits elim!: with_storeE)

lemma claim_attention_errD:
  assumes "claim_attention room i actor now h = (Err e, h')"
  shows "h_rooms h' = h_rooms h \<and> sto_conn (h_store h') = sto_conn (h_store h)"
  using assms
  by (auto simp: claim_attention_def Let_def
      split: option.splits if_splits sum.splits bool.splits prod.splits elim!: with_storeE
      dest: store_claim_errD store_claim_falseD)

lemma claimed_row:
  assumes "attention_from_row row = a" "ar_resolved_at row = None"
  shows "attention_from_row (row\<lparr>ar_claimed_by := Some actor, ar_claimed_at := Some now\<rparr>)
       = claimed_copy actor now a"
  using assms by (auto simp: attention_from_row_def claimed_copy_def Let_def)

lemma claim_attention_ledger:
  assumes ok: "ledger_ok h"
  shows "ledger_ok (snd (claim_attention room i actor now h))"
proof -
  obtain res h' where c: "claim_attention room i actor now h = (res, h')" by force
  show ?thesis
  proof (cases res)
    case (Inl e)
    then show ?thesis using c claim_attention_errD ledger_ok_same [OF ok, of h'] by simp
  next
    case (Inr out)
    from c [unfolded Inr] show ?thesis
    proof (rule claim_attention_okD)
      fix r a s
      assume r: "get_room h room = Some r" and a: "hm_get (r_attentions r) i = Some a"
        and st: "store_claim_attention i actor now (h_store h) = (Inr True, s)"
        and out: "out = claimed_copy actor now a"
        and h': "h' = put_room room (send (FAttention out) (r\<lparr>r_attentions := hm_insert i out (r_attentions r)\<rparr>))
           (h\<lparr>h_store := s\<rparr>)"
      have "ledger_ok h'" unfolding h'
      proof (rule ledger_ok_change [OF ok r a, of _ out])
        fix d1
        assume d1: "sto_conn (h_store (h\<lparr>h_store := s\<rparr>)) = Some d1"
        then obtain d row where d: "sto_conn (h_store h) = Some d" "hm_get (db_attentions d) i = Some row"
          "ar_resolved_at row = None" "d1 = d\<lparr>db_attentions := hm_insert i
             (row\<lparr>ar_claimed_by := Some actor, ar_claimed_at := Some now\<rparr>) (db_attentions d)\<rparr>"
          using store_claim_trueD [OF st] by auto
        have "attention_from_row row = a" using ledger_okD [OF ok d(1) r a] d(2) by auto
        then show "\<exists>d. sto_conn (h_store h) = Some d
           \<and> map_option attention_from_row (hm_get (db_attentions d1) i) = Some out
           \<and> (\<forall>j. j \<noteq> i \<longrightarrow> hm_get (db_attentions d1) j = hm_get (db_attentions d) j)"
          using d claimed_row [of row a] by (simp add: out)
      qed simp_all
      then show ?thesis by (simp add: c)
    qed
  qed
qed

subsection \<open>Resolution\<close>

lemma store_resolve_errD:
  "store_resolve_attention i at s = (Inl e, s') \<Longrightarrow> sto_conn s' = sto_conn s"
  unfolding store_resolve_attention_def by (rule txn.err_rolls_back)

lemma store_resolve_falseD:
  assumes "store_resolve_attention i at s = (Inr False, s')" shows "sto_conn s' = sto_conn s"
  using assms unfolding store_resolve_attention_def
  by (auto simp: run_txn_def split: option.splits list.splits bool.splits if_splits)

lemma ack_rows_attentions [simp]: "db_attentions (ack_rows p at d) = db_attentions d"
  by (simp add: ack_rows_def)

lemma store_resolve_trueD:
  assumes "store_resolve_attention i at s = (Inr True, s')" and "sto_conn s' = Some d'"
  shows "\<exists>d row. sto_conn s = Some d \<and> hm_get (db_attentions d) i = Some row
     \<and> ar_resolved_at row = None
     \<and> db_attentions d' = hm_insert i (row\<lparr>ar_resolved_at := Some at\<rparr>) (db_attentions d)
     \<and> db_outbox d' = db_outbox (ack_rows (\<lambda>j. j = i) at d)"
  using assms unfolding store_resolve_attention_def
  by (auto simp: run_txn_def ack_rows_def split: option.splits list.splits bool.splits if_splits)

lemma owner_principal_frame:
  "attention_owner_principal_id i s = (res, s') \<Longrightarrow> sto_conn s' = sto_conn s"
  unfolding attention_owner_principal_id_def
  by (auto simp: run_txn_def split: option.splits list.splits bool.splits)

lemma owner_principal_value:
  assumes "attention_owner_principal_id i s = (Inr scope, s')"
  shows "scope = (case sto_conn s of None \<Rightarrow> None
     | Some d \<Rightarrow> map_option (\<lambda>r. c_owner_principal_id (ar_signal r)) (hm_get (db_attentions d) i))"
  using assms unfolding attention_owner_principal_id_def
  by (auto simp: run_txn_def split: option.splits list.splits bool.splits)

definition resolved_copy :: "u64 \<Rightarrow> attention \<Rightarrow> attention" where
  "resolved_copy now a = a\<lparr>a_status := AttResolved, a_resolved_at := Some now\<rparr>"

lemma finish_resolve_okD:
  assumes "finish_resolve room i now r a h = (Ok out, h')"
  obtains s where "a_status a \<noteq> AttResolved" and "out = resolved_copy now a"
    and "store_resolve_attention i now (h_store h) = (Inr True, s)"
    and "h' = put_room room (send (FAttention out) (r\<lparr>r_attentions := hm_insert i out (r_attentions r)\<rparr>))
           (h\<lparr>h_store := s\<rparr>)"
  using assms
  by (auto simp: finish_resolve_def resolved_copy_def Let_def
      split: if_splits sum.splits bool.splits prod.splits elim!: with_storeE)

lemma finish_resolve_errD:
  assumes "finish_resolve room i now r a h = (Err e, h')"
  shows "h_rooms h' = h_rooms h \<and> sto_conn (h_store h') = sto_conn (h_store h)"
  using assms
  by (auto simp: finish_resolve_def Let_def split: if_splits sum.splits bool.splits prod.splits
      elim!: with_storeE dest: store_resolve_errD store_resolve_falseD)

lemma resolve_attention_okD:
  assumes "resolve_attention room i actor pid op now h = (Ok out, h')"
  obtains r a s0 where "get_room h room = Some r" and "hm_get (r_attentions r) i = Some a"
    and "sto_conn s0 = sto_conn (h_store h)"
    and "op \<or> may_resolve (case sto_conn (h_store h) of None \<Rightarrow> None
       | Some d \<Rightarrow> map_option (\<lambda>r. c_owner_principal_id (ar_signal r)) (hm_get (db_attentions d) i)) a actor pid"
    and "finish_resolve room i now r a (h\<lparr>h_store := s0\<rparr>) = (Ok out, h')"
proof -
  from assms obtain r a where r: "get_room h room = Some r" and a: "hm_get (r_attentions r) i = Some a"
    by (auto simp: resolve_attention_def split: option.splits)
  show thesis
  proof (cases op)
    case True
    then show thesis using assms r a that [OF r a, of "h_store h"] by (simp add: resolve_attention_def)
  next
    case False
    obtain res h1 where w: "with_store (attention_owner_principal_id i) h = (res, h1)" by force
    with assms r a False obtain scope where sc: "res = Inr scope" "may_resolve scope a actor pid"
      "finish_resolve room i now r a h1 = (Ok out, h')"
      by (auto simp: resolve_attention_def split: sum.splits if_splits)
    from w obtain s0 where s0: "attention_owner_principal_id i (h_store h) = (res, s0)"
      "h1 = h\<lparr>h_store := s0\<rparr>" by (rule with_storeE)
    show thesis
      using that [OF r a owner_principal_frame [OF s0(1)]] sc s0 owner_principal_value by simp
  qed
qed

lemma resolve_attention_errD:
  assumes "resolve_attention room i actor pid op now h = (Err e, h')"
  shows "h_rooms h' = h_rooms h \<and> sto_conn (h_store h') = sto_conn (h_store h)"
proof -
  show ?thesis
  proof (cases "\<exists>r a. get_room h room = Some r \<and> hm_get (r_attentions r) i = Some a")
    case False
    then show ?thesis using assms by (auto simp: resolve_attention_def split: option.splits)
  next
    case True
    then obtain r a where ra: "get_room h room = Some r" "hm_get (r_attentions r) i = Some a" by blast
    show ?thesis
    proof (cases op)
      case True
      then show ?thesis using assms ra finish_resolve_errD by (simp add: resolve_attention_def)
    next
      case False
      obtain res h1 where w: "with_store (attention_owner_principal_id i) h = (res, h1)" by force
      then obtain s0 where s0: "attention_owner_principal_id i (h_store h) = (res, s0)"
        "h1 = h\<lparr>h_store := s0\<rparr>" by (rule with_storeE)
      have same: "h_rooms h1 = h_rooms h" "sto_conn (h_store h1) = sto_conn (h_store h)"
        using s0 owner_principal_frame by simp_all
      from assms ra False w have "h' = h1 \<or> finish_resolve room i now r a h1 = (Err e, h')"
        by (auto simp: resolve_attention_def split: sum.splits if_splits)
      then show ?thesis using same finish_resolve_errD by auto
    qed
  qed
qed

lemma resolve_attention_ledger:
  assumes ok: "ledger_ok h"
  shows "ledger_ok (snd (resolve_attention room i actor pid op now h))"
proof -
  obtain res h' where c: "resolve_attention room i actor pid op now h = (res, h')" by force
  show ?thesis
  proof (cases res)
    case (Inl e)
    then show ?thesis using c resolve_attention_errD ledger_ok_same [OF ok, of h'] by simp
  next
    case (Inr out)
    from c [unfolded Inr] obtain r a s0 where r: "get_room h room = Some r"
      and a: "hm_get (r_attentions r) i = Some a" and s0: "sto_conn s0 = sto_conn (h_store h)"
      and f: "finish_resolve room i now r a (h\<lparr>h_store := s0\<rparr>) = (Ok out, h')"
      by (rule resolve_attention_okD)
    from f obtain s where out: "out = resolved_copy now a"
      and st: "store_resolve_attention i now s0 = (Inr True, s)"
      and h': "h' = put_room room (send (FAttention out) (r\<lparr>r_attentions := hm_insert i out (r_attentions r)\<rparr>))
           (h\<lparr>h_store := s\<rparr>)"
      by (rule finish_resolve_okD) simp
    have "ledger_ok h'" unfolding h'
    proof (rule ledger_ok_change [OF ok r a, of _ out])
      fix d1
      assume d1: "sto_conn (h_store (h\<lparr>h_store := s\<rparr>)) = Some d1"
      then obtain d row where d: "sto_conn (h_store h) = Some d" "hm_get (db_attentions d) i = Some row"
        "db_attentions d1 = hm_insert i (row\<lparr>ar_resolved_at := Some now\<rparr>) (db_attentions d)"
        using store_resolve_trueD [OF st] s0 by auto
      have "attention_from_row row = a" using ledger_okD [OF ok d(1) r a] d(2) by auto
      then have "attention_from_row (row\<lparr>ar_resolved_at := Some now\<rparr>) = out"
        by (auto simp: attention_from_row_def resolved_copy_def out Let_def)
      then show "\<exists>d. sto_conn (h_store h) = Some d
         \<and> map_option attention_from_row (hm_get (db_attentions d1) i) = Some out
         \<and> (\<forall>j. j \<noteq> i \<longrightarrow> hm_get (db_attentions d1) j = hm_get (db_attentions d) j)"
        using d by simp
    qed simp_all
    then show ?thesis by (simp add: c)
  qed
qed

subsection \<open>Receipts\<close>

definition delivered_copy :: "u64 \<Rightarrow> attention \<Rightarrow> attention" where
  "delivered_copy now a = a\<lparr>a_delivered_at := coalesce (a_delivered_at a) now\<rparr>"

definition delivered_room :: "string \<Rightarrow> u64 \<Rightarrow> room \<Rightarrow> attention \<Rightarrow> room" where
  "delivered_room aid now r a = send (FAttention (delivered_copy now a))
     (r\<lparr>r_attentions := hm_insert aid (delivered_copy now a) (r_attentions r)\<rparr>)"

lemma mark_delivered_absent:
  "\<forall>(n, r) \<in> set rooms. hm_get (r_attentions r) aid = None \<Longrightarrow> mark_delivered aid now rooms = rooms"
  by (induction rooms) auto

lemma mark_delivered_keys [simp]: "map fst (mark_delivered aid now rooms) = map fst rooms"
proof (induction rooms)
  case (Cons nr rooms)
  then show ?case by (cases nr) (simp add: Let_def split: option.split)
qed simp

text \<open>With one home per attention, the first room found is the only one.\<close>

lemma mark_delivered_get:
  assumes "hm_ok rooms" and "\<forall>(n, r) \<in> set rooms. \<forall>(n', r') \<in> set rooms.
      hm_get (r_attentions r) aid \<noteq> None \<longrightarrow> hm_get (r_attentions r') aid \<noteq> None \<longrightarrow> n = n'"
  shows "hm_get (mark_delivered aid now rooms) n = map_option (\<lambda>r. case hm_get (r_attentions r) aid of
      None \<Rightarrow> r | Some a \<Rightarrow> delivered_room aid now r a) (hm_get rooms n)"
  using assms
proof (induction rooms)
  case (Cons nr rooms)
  obtain m r where nr: "nr = (m, r)" by force
  show ?case
  proof (cases "hm_get (r_attentions r) aid")
    case None
    then show ?thesis using Cons by (auto simp: nr hm_get_Cons hm_ok_def)
  next
    case (Some a)
    have none: "hm_get (r_attentions r') aid = None" if "hm_get rooms n = Some r'" "n \<noteq> m" for r'
    proof (rule ccontr)
      assume "hm_get (r_attentions r') aid \<noteq> None"
      moreover have "(n, r') \<in> set rooms" using that(1) by (auto simp: hm_get_def dest: map_of_SomeD)
      ultimately show False using Cons.prems(2) Some that(2) by (force simp: nr)
    qed
    show ?thesis
      using Some none by (cases "hm_get rooms n")
        (auto simp: nr hm_get_Cons delivered_room_def delivered_copy_def Let_def)
  qed
qed simp

lemma ack_scoped_errD: "ack_care_scoped i owner pid at s = (Inl e, s') \<Longrightarrow> sto_conn s' = sto_conn s"
  unfolding ack_care_scoped_def by (rule txn.err_rolls_back)

lemma ack_scoped_falseD:
  assumes "ack_care_scoped i owner pid at s = (Inr False, s')" shows "sto_conn s' = sto_conn s"
  using assms unfolding ack_care_scoped_def
  by (auto simp: run_txn_def split: option.splits list.splits bool.splits if_splits)

lemma ack_scoped_persistent:
  "ack_care_scoped i owner pid at s = (res, s') \<Longrightarrow> is_persistent s' = is_persistent s"
  unfolding ack_care_scoped_def by (rule run_txn_persistent)

lemma ack_scoped_trueD:
  assumes "ack_care_scoped i owner pid at s = (Inr True, s')"
  obtains d row where "sto_conn s = Some d" and "hm_get (db_outbox d) i = Some row"
    and "ob_acked_at row = None" and "addressed_to row owner pid"
    and "sto_conn s' = Some (d\<lparr>db_outbox := hm_insert i (row\<lparr>ob_acked_at := Some at\<rparr>) (db_outbox d),
           db_attentions := hm_map (\<lambda>j a. if j = ob_attention_id row
               then a\<lparr>ar_delivered_at := coalesce (ar_delivered_at a) at\<rparr> else a) (db_attentions d)\<rparr>)"
  using assms unfolding ack_care_scoped_def
  by (auto simp: run_txn_def split: option.splits list.splits bool.splits if_splits)

text \<open>What a call of \<open>ack_care\<close> did, on a persistent store.\<close>

lemma ack_care_trueD:
  assumes "ack_care i owner pid now h = (Ok True, h')" and "sto_conn (h_store h) = Some d"
  obtains aid s where "hm_get (h_care_deliveries h) i = Some aid
       \<or> hm_get (h_care_deliveries h) i = None \<and> map_option ob_attention_id (hm_get (db_outbox d) i) = Some aid"
    and "ack_care_scoped i owner pid now (h_store h) = (Inr True, s)"
    and "h' = h\<lparr>h_store := s, h_care_deliveries := hm_remove i (h_care_deliveries h),
               h_rooms := mark_delivered aid now (h_rooms h)\<rparr>"
proof -
  define hot where "hot = hm_get (h_care_deliveries h) i"
  from assms obtain aid where aid: "(case hot of Some a \<Rightarrow> Some a
      | None \<Rightarrow> attention_id_for_delivery (h_store h) i) = Some aid"
    by (auto simp: ack_care_def Let_def hot_def split: option.splits)
  obtain res s where st: "ack_care_scoped i owner pid now (h_store h) = (res, s)" by force
  have pers: "is_persistent s" using ack_scoped_persistent [OF st] assms(2) by (simp add: is_persistent_def)
  have w: "with_store (ack_care_scoped i owner pid now) h = (res, h\<lparr>h_store := s\<rparr>)"
    using st by (simp add: with_store_def)
  from assms(1) aid w pers have "res = Inr True"
    "h' = h\<lparr>h_store := s, h_care_deliveries := hm_remove i (h_care_deliveries h),
               h_rooms := mark_delivered aid now (h_rooms h)\<rparr>"
    by (auto simp: ack_care_def Let_def hot_def [symmetric] split: if_splits sum.splits)
  then show thesis
    using that [of aid s] aid st assms(2)
    by (auto simp: hot_def attention_id_for_delivery_def split: option.splits)
qed

definition deliveries_ok :: "hub \<Rightarrow> bool" where
  "deliveries_ok h = (\<forall>d i aid row. sto_conn (h_store h) = Some d
     \<longrightarrow> hm_get (h_care_deliveries h) i = Some aid \<longrightarrow> hm_get (db_outbox d) i = Some row
     \<longrightarrow> ob_attention_id row = aid)"

lemma ack_care_not_true:
  assumes "ack_care i owner pid now h = (res, h')" and "res \<noteq> Ok True"
  shows "h_rooms h' = h_rooms h \<and> sto_conn (h_store h') = sto_conn (h_store h)"
proof -
  define hot where "hot = hm_get (h_care_deliveries h) i"
  obtain r s where st: "ack_care_scoped i owner pid now (h_store h) = (r, s)" by force
  have w: "with_store (ack_care_scoped i owner pid now) h = (r, h\<lparr>h_store := s\<rparr>)"
    using st by (simp add: with_store_def)
  from assms w have "h' = h \<or> (h' = h\<lparr>h_store := s\<rparr> \<and> r \<noteq> Inr True)"
    by (auto simp: ack_care_def Let_def hot_def [symmetric] split: option.splits if_splits sum.splits)
  moreover have "r \<noteq> Inr True \<Longrightarrow> sto_conn s = sto_conn (h_store h)"
    using st ack_scoped_errD ack_scoped_falseD by (cases r) auto
  ultimately show ?thesis by auto
qed

lemma ack_care_ledger:
  assumes ok: "ledger_ok h" and del: "deliveries_ok h" and d: "sto_conn (h_store h) = Some d"
  shows "ledger_ok (snd (ack_care i owner pid now h))"
proof -
  obtain res h' where c: "ack_care i owner pid now h = (res, h')" by force
  show ?thesis
  proof (cases "res = Ok True")
    case False
    then show ?thesis using c ack_care_not_true ledger_ok_same [OF ok, of h'] by simp
  next
    case True
    from c [unfolded True] d obtain aid s where aid: "hm_get (h_care_deliveries h) i = Some aid
       \<or> hm_get (h_care_deliveries h) i = None \<and> map_option ob_attention_id (hm_get (db_outbox d) i) = Some aid"
      and st: "ack_care_scoped i owner pid now (h_store h) = (Inr True, s)"
      and h': "h' = h\<lparr>h_store := s, h_care_deliveries := hm_remove i (h_care_deliveries h),
               h_rooms := mark_delivered aid now (h_rooms h)\<rparr>"
      by (rule ack_care_trueD)
    from st obtain d0 row where row: "sto_conn (h_store h) = Some d0" "hm_get (db_outbox d0) i = Some row"
      and d1: "sto_conn s = Some (d0\<lparr>db_outbox := hm_insert i (row\<lparr>ob_acked_at := Some now\<rparr>) (db_outbox d0),
           db_attentions := hm_map (\<lambda>j a. if j = ob_attention_id row
               then a\<lparr>ar_delivered_at := coalesce (ar_delivered_at a) now\<rparr> else a) (db_attentions d0)\<rparr>)"
      by (rule ack_scoped_trueD)
    have d0: "d0 = d" using row(1) d by simp
    have aid_row: "aid = ob_attention_id row"
      using aid del row d unfolding deliveries_ok_def d0 by auto
    have rooms_ok: "hm_ok (h_rooms h)" using ok by (simp add: ledger_ok_def)
    have uniq: "\<forall>(n, r) \<in> set (h_rooms h). \<forall>(n', r') \<in> set (h_rooms h).
      hm_get (r_attentions r) aid \<noteq> None \<longrightarrow> hm_get (r_attentions r') aid \<noteq> None \<longrightarrow> n = n'"
      using ok hm_entry_iff [OF rooms_ok]
      unfolding ledger_ok_def unique_home_def get_room_def hm_contains_def by blast
    have get: "get_room h' n = map_option (\<lambda>r. case hm_get (r_attentions r) aid of
      None \<Rightarrow> r | Some a \<Rightarrow> delivered_room aid now r a) (get_room h n)" for n
      using mark_delivered_get [OF rooms_ok uniq] by (simp add: h' get_room_def)
    have bk: "hm_get (r_attentions (case hm_get (r_attentions r) aid of
        None \<Rightarrow> r | Some a \<Rightarrow> delivered_room aid now r a)) j
        = map_option (\<lambda>a. if j = aid then delivered_copy now a else a) (hm_get (r_attentions r) j)" for r j
      by (cases "hm_get (r_attentions r) aid"; cases "hm_get (r_attentions r) j")
        (auto simp: delivered_room_def)
    have held: "\<exists>r. get_room h n = Some r \<and> hm_contains (r_attentions r) j"
      if "get_room h' n = Some r'" "hm_contains (r_attentions r') j" for n r' j
      using that by (auto simp: get bk hm_contains_def)
    have uh: "unique_home h'"
      unfolding unique_home_def using ok held unfolding ledger_ok_def unique_home_def by meson
    have dcopy: "attention_from_row (rw\<lparr>ar_delivered_at := coalesce (ar_delivered_at rw) now\<rparr>)
        = delivered_copy now (attention_from_row rw)" for rw
      by (simp add: attention_from_row_def delivered_copy_def Let_def)
    have "map_option attention_from_row (hm_get (db_attentions d1') j) = Some b"
      if "sto_conn (h_store h') = Some d1'" "get_room h' n = Some r'" "hm_get (r_attentions r') j = Some b"
      for d1' n r' j b
    proof -
      from that(2) obtain r where r: "get_room h n = Some r"
        and r': "r' = (case hm_get (r_attentions r) aid of None \<Rightarrow> r | Some a \<Rightarrow> delivered_room aid now r a)"
        by (auto simp: get)
      from that(3) obtain a where a: "hm_get (r_attentions r) j = Some a"
        and b: "b = (if j = aid then delivered_copy now a else a)" by (auto simp: r' bk)
      from ok d r a obtain rw where "hm_get (db_attentions d) j = Some rw" "attention_from_row rw = a"
        by (rule ledger_okD)
      then show ?thesis using that(1) d1 b by (auto simp: h' d0 aid_row dcopy)
    qed
    moreover have "hm_ok (h_rooms h')" using rooms_ok by (simp add: h' hm_ok_def)
    ultimately show ?thesis using uh by (simp add: c ledger_ok_def)
  qed
qed

subsection \<open>Replay\<close>

lemma store_pending_iff:
  assumes "sto_conn s = Some d"
  shows "c \<in> set (store_pending_care_scoped s room owner pid) \<longleftrightarrow>
     c_room c = room \<and> (\<exists>i row. (i, row) \<in> set (db_outbox d) \<and> ob_signal row = c
        \<and> pending_row_ok d room owner pid row)"
  using assms by (force simp: store_pending_care_scoped_def image_iff)

lemma pending_care_iff:
  assumes "sto_conn (h_store h) = Some d"
  shows "c \<in> set (pending_care_scoped sha h room owner pid) \<longleftrightarrow>
     c_room c = room
     \<and> (\<forall>p. c_owner_principal_id c = Some p \<longrightarrow> everyone_recipient_active sha h room p)
     \<and> (\<exists>i row. (i, row) \<in> set (db_outbox d) \<and> ob_signal row = c \<and> pending_row_ok d room owner pid row)"
  using store_pending_iff [OF assms]
  by (auto simp: pending_care_scoped_def split: option.splits)

subsection \<open>Creation\<close>

text \<open>The two random tokens of a creation have not been used before.\<close>

definition fresh_tokens :: "hub \<Rightarrow> bool" where
  "fresh_tokens h = (let did = ''delivery_'' @ h_rng h 0; aid = ''att_'' @ h_rng h 1
     in (\<forall>n r. get_room h n = Some r \<longrightarrow> \<not> hm_contains (r_attentions r) aid)
        \<and> (\<forall>d. sto_conn (h_store h) = Some d \<longrightarrow>
             \<not> hm_contains (db_attentions d) aid \<and> \<not> hm_contains (db_outbox d) did))"

lemma open_attention_okD:
  assumes "open_attention room r sg h = (Ok a, h')"
  obtains s h3 where "enqueue_care room sg (h_store h) = (Ok (), s)"
    and "a = (case store_attention s (c_attention_id sg) of Some a \<Rightarrow> a
        | None \<Rightarrow> attention_of_signal (c_attention_id sg) (origin_room sg) sg)"
    and "h3 = h\<lparr>h_store := s, h_care_deliveries := hm_insert (c_id sg) (c_attention_id sg) (h_care_deliveries h)\<rparr>"
    and "h' = put_room room (send (FCare sg) (send (FAttention a)
           (r\<lparr>r_attentions := hm_insert (a_id a) a (r_attentions r)\<rparr>))) h3"
  using assms by (auto simp: open_attention_def Let_def split: prod.splits sum.splits elim!: with_storeE)

lemma create_attention_cases:
  assumes "create_attention room req now h = (Ok a, h')"
  obtains r owner ps where "get_room h room = Some r"
    and "resolve_attention_owner now h r (ca_audience req) = Some (owner, ps)"
    and "open_attention room r (manual_signal room req now r owner ps (''delivery_'' @ h_rng h 0)
           (''att_'' @ h_rng h 1)) (h\<lparr>h_rng := \<lambda>n. h_rng h (Suc (Suc n))\<rparr>) = (Ok a, h')"
  using assms by (auto simp: create_attention_def secure_token_def split: option.splits)

lemma write_care_fresh:
  assumes "\<not> hm_contains (db_attentions d) (stable_attention_id s)"
    and "\<not> hm_contains (db_outbox d) (c_id s)" and "c_owner s = Some owner"
  shows "hm_get (db_attentions (write_care room s d)) (stable_attention_id s) = Some
       \<lparr> ar_room = origin_room s, ar_signal = s, ar_owner = c_owner s, ar_created_at = c_at s,
         ar_delivered_at = None, ar_claimed_by = None, ar_claimed_at = None, ar_resolved_at = None \<rparr>"
    and "i \<noteq> stable_attention_id s \<Longrightarrow>
       hm_get (db_attentions (write_care room s d)) i = hm_get (db_attentions d) i"
    and "hm_get (db_outbox (write_care room s d)) (c_id s) = Some
       \<lparr> ob_attention_id = stable_attention_id s, ob_delivery_room = room, ob_owner = owner,
         ob_owner_principal_id = c_owner_principal_id s, ob_signal = s, ob_created_at = c_at s,
         ob_acked_at = None \<rparr>"
  using assms by (simp_all add: write_care_def write_outbox_def Let_def hm_contains_def)

lemma manual_signal_simps [simp]:
  "aid \<noteq> [] \<Longrightarrow> stable_attention_id (manual_signal room req now r owner ps did aid) = aid"
  "c_id (manual_signal room req now r owner ps did aid) = did"
  "c_owner (manual_signal room req now r owner ps did aid) = Some owner"
  "c_owner_principal_id (manual_signal room req now r owner ps did aid) = None"
  "c_room (manual_signal room req now r owner ps did aid) = room"
  "c_attention_id (manual_signal room req now r owner ps did aid) = aid"
  by (simp_all add: manual_signal_def stable_attention_id_def)

lemma open_attention_ledger:
  assumes ok: "ledger_ok h" and r: "get_room h room = Some r"
    and op: "open_attention room r sg h = (Ok a, h')" and aid: "c_attention_id sg \<noteq> []"
    and own: "c_owner sg = Some owner"
    and none: "\<And>n r0. get_room h n = Some r0 \<Longrightarrow> \<not> hm_contains (r_attentions r0) (c_attention_id sg)"
    and fresh: "\<And>d. sto_conn (h_store h) = Some d \<Longrightarrow> \<not> hm_contains (db_attentions d) (c_attention_id sg)
      \<and> \<not> hm_contains (db_outbox d) (c_id sg)"
  shows "ledger_ok h'"
proof -
  let ?aid = "c_attention_id sg"
  have stable: "stable_attention_id sg = ?aid" using aid by (simp add: stable_attention_id_def)
  from op obtain s h3 where st: "enqueue_care room sg (h_store h) = (Ok (), s)"
    and a: "a = (case store_attention s ?aid of Some a \<Rightarrow> a
        | None \<Rightarrow> attention_of_signal ?aid (origin_room sg) sg)"
    and h3: "h3 = h\<lparr>h_store := s, h_care_deliveries := hm_insert (c_id sg) ?aid (h_care_deliveries h)\<rparr>"
    and h': "h' = put_room room (send (FCare sg) (send (FAttention a)
           (r\<lparr>r_attentions := hm_insert (a_id a) a (r_attentions r)\<rparr>))) h3"
    by (rule open_attention_okD)
  have conn: "sto_conn s = map_option (write_care room sg) (sto_conn (h_store h))"
    using st unfolding enqueue_care_def by (rule run_write_okD)
  note wc = write_care_fresh [where s = sg and owner = owner and room = room, unfolded stable, OF _ _ own]
  have row: "map_option attention_from_row (hm_get (db_attentions d1) ?aid) = Some a \<and> a_id a = ?aid"
    if "sto_conn s = Some d1" for d1
    using that conn wc(1) fresh by (auto simp: a store_attention_def attention_from_row_def Let_def stable)
  have ida: "a_id a = ?aid"
    using row by (cases "sto_conn s") (auto simp: a store_attention_def attention_of_signal_def)
  have get: "get_room h' n = (if n = room then Some (send (FCare sg) (send (FAttention a)
       (r\<lparr>r_attentions := hm_insert ?aid a (r_attentions r)\<rparr>))) else get_room h n)" for n
    by (simp add: h' h3 ida get_room_def put_room_def)
  have held: "if j = ?aid then n = room else \<exists>r1. get_room h n = Some r1 \<and> hm_contains (r_attentions r1) j"
    if "get_room h' n = Some r0" "hm_contains (r_attentions r0) j" for n r0 j
    using that r none by (auto simp: get hm_contains_def split: if_splits)
  have "unique_home h'"
    unfolding unique_home_def using ok held unfolding ledger_ok_def unique_home_def by (metis (no_types))
  moreover have "map_option attention_from_row (hm_get (db_attentions d1) j) = Some b"
    if cn: "sto_conn (h_store h') = Some d1" and rm: "get_room h' n = Some r0"
      and bb: "hm_get (r_attentions r0) j = Some b" for d1 n r0 j b
  proof -
    from cn have d1: "sto_conn s = Some d1" by (simp add: h' h3)
    then obtain d where d: "sto_conn (h_store h) = Some d" "d1 = write_care room sg d" using conn by auto
    show ?thesis
    proof (cases "j = ?aid")
      case True
      then show ?thesis using row [OF d1] rm bb none
        by (auto simp: get hm_contains_def split: if_splits)
    next
      case False
      then obtain r1 where "get_room h n = Some r1" "hm_get (r_attentions r1) j = Some b"
        using rm bb r by (auto simp: get split: if_splits)
      then show ?thesis using ok d wc(2) [where d = d and i = j] fresh [OF d(1)] False unfolding ledger_ok_def by simp
    qed
  qed
  moreover have "hm_ok (h_rooms h')" using ok by (simp add: h' h3 ledger_ok_def put_room_def)
  ultimately show ?thesis by (simp add: ledger_ok_def)
qed

lemma ledger_ok_rng: "ledger_ok (h\<lparr>h_rng := f\<rparr>) = ledger_ok h"
  by (simp add: ledger_ok_def unique_home_def get_room_def)

lemma create_attention_ledger:
  assumes ok: "ledger_ok h" and fresh: "fresh_tokens h"
    and c: "create_attention room req now h = (Ok a, h')"
  shows "ledger_ok h'"
proof -
  from c obtain r owner ps where r: "get_room h room = Some r"
    and op: "open_attention room r (manual_signal room req now r owner ps (''delivery_'' @ h_rng h 0)
           (''att_'' @ h_rng h 1)) (h\<lparr>h_rng := \<lambda>n. h_rng h (Suc (Suc n))\<rparr>) = (Ok a, h')"
    by (rule create_attention_cases)
  show ?thesis
    by (rule open_attention_ledger [OF _ _ op])
      (use ok r fresh in \<open>simp_all add: ledger_ok_rng get_room_def fresh_tokens_def Let_def\<close>)
qed

text \<open>A created attention is replayed to its owner until it is acknowledged.\<close>

lemma open_attention_pending:
  assumes op: "open_attention room r sg h = (Ok a, h')" and aid: "c_attention_id sg \<noteq> []"
    and own: "c_owner sg = Some owner" "c_owner_principal_id sg = None" "c_room sg = room"
    and d: "sto_conn (h_store h) = Some d"
    and fresh: "\<not> hm_contains (db_attentions d) (c_attention_id sg)" "\<not> hm_contains (db_outbox d) (c_id sg)"
  shows "sg \<in> set (pending_care_scoped sha h' room owner pid)"
proof -
  have stable: "stable_attention_id sg = c_attention_id sg" using aid by (simp add: stable_attention_id_def)
  note wc = write_care_fresh [where d = d and s = sg and owner = owner and room = room, unfolded stable, OF fresh own(1)]
  from op have "sto_conn (h_store h') = Some (write_care room sg d)"
    using d by (auto elim!: open_attention_okD simp: enqueue_care_def dest!: run_write_okD)
  note p = pending_care_iff [OF this, of sg sha room owner pid]
  have "(c_id sg, \<lparr> ob_attention_id = c_attention_id sg, ob_delivery_room = room, ob_owner = owner,
         ob_owner_principal_id = c_owner_principal_id sg, ob_signal = sg, ob_created_at = c_at sg,
         ob_acked_at = None \<rparr>) \<in> set (db_outbox (write_care room sg d))"
    using wc(3) by (auto simp: hm_get_def dest: map_of_SomeD)
  then show ?thesis
    unfolding p using own wc(1)
    by (intro conjI exI) (auto simp: pending_row_ok_def addressed_to_def)
qed

end
