(* ===== verification/Store_Messages.thy ===== *)
theory Store_Messages
  imports Store_Work
begin

text \<open>
  \<^verbatim>\<open>crates/server/src/store/{messages,rooms,content,attachment_index}.rs\<close>: the message
  archive, the room rows with their permanent seal, notes and journal, and the
  references of a message to uploaded files.  A message is inserted together with
  everything its acceptance implies; the transaction fails as a whole when the room
  is sealed, when the id or the operation key is taken, or when a cited file is gone.
\<close>

subsection \<open>Text encodings\<close>

definition sender_type_str :: "SenderType \<Rightarrow> string" where
  "sender_type_str t = (case t of Agent \<Rightarrow> ''agent'' | User \<Rightarrow> ''user'')"

definition parse_sender_type :: "string \<Rightarrow> SenderType" where
  "parse_sender_type s = (if s = ''agent'' then Agent else User)"

definition kind_str :: "MessageKind \<Rightarrow> string" where
  "kind_str k = (case k of Announce \<Rightarrow> ''announce'' | Say \<Rightarrow> ''say'')"

definition parse_kind :: "string \<Rightarrow> MessageKind" where
  "parse_kind s = (if s = ''announce'' then Announce else Say)"

definition attachments_to_json :: "attachment list \<Rightarrow> attachment list option" where
  "attachments_to_json a = (if a = [] then None else Some a)"

definition attachments_from_json :: "attachment list option \<Rightarrow> attachment list" where
  "attachments_from_json raw = (case raw of None \<Rightarrow> [] | Some a \<Rightarrow> a)"

subsection \<open>Room rows\<close>

definition sealed_error :: sql_error where
  "sealed_error = InvalidParameterName ''room is permanently sealed''"

definition db_sealed :: "db \<Rightarrow> string \<Rightarrow> bool" where
  "db_sealed d room = (case hm_get (db_rooms d) room of None \<Rightarrow> False | Some r \<Rightarrow> rr_sealed_at r \<noteq> None)"

definition require_unsealed_room :: "string \<Rightarrow> db \<Rightarrow> (sql_error, unit) result" where
  "require_unsealed_room room d = (if db_sealed d room then Err sealed_error else Ok ())"

definition write_room_state ::
  "string \<Rightarrow> ChatMode \<Rightarrow> room_settings \<Rightarrow> db \<Rightarrow> (sql_error, db) result" where
  "write_room_state room mode settings d =
     (if db_sealed d room then Err sealed_error
      else Ok (d\<lparr>db_rooms := hm_insert room
        \<lparr> rr_mode = mode, rr_settings = settings, rr_sealed_at = None \<rparr> (db_rooms d)\<rparr>))"

definition pause_room_attentions :: "string \<Rightarrow> u64 \<Rightarrow> db \<Rightarrow> db" where
  "pause_room_attentions room at d =
     (let d1 = ack_rows (\<lambda>i. case hm_get (db_attentions d) i of None \<Rightarrow> False | Some a \<Rightarrow> ar_room a = room) at d
      in d1\<lparr>db_care_marks := hm_retain (\<lambda>(r, _) _. r \<noteq> room) (db_care_marks d1)\<rparr>)"

definition retire_room_attentions :: "string \<Rightarrow> u64 \<Rightarrow> db \<Rightarrow> db" where
  "retire_room_attentions room at d =
     resolve_rows (\<lambda>_ r. ar_room r = room) at (pause_room_attentions room at d)"

text \<open>The clock of the archive step is read inside the store; it is the argument \<open>clock\<close>.\<close>

definition save_room ::
  "u64 \<Rightarrow> string \<Rightarrow> ChatMode \<Rightarrow> room_settings \<Rightarrow> store \<Rightarrow> (sql_error, unit) result \<times> store" where
  "save_room clock room mode settings = run_txn () (\<lambda>d.
     case write_room_state room mode settings d of
       Inl e \<Rightarrow> Err e
     | Inr d1 \<Rightarrow> Ok ((), if st_archived settings then pause_room_attentions room clock d1 else d1))"

definition seal_room :: "string \<Rightarrow> u64 \<Rightarrow> store \<Rightarrow> (sql_error, unit) result \<times> store" where
  "seal_room room at = run_write (\<lambda>d.
     let row = (case hm_get (db_rooms d) room of Some r \<Rightarrow> r
                | None \<Rightarrow> \<lparr> rr_mode = Free, rr_settings = default_settings_value, rr_sealed_at = None \<rparr>)
     in retire_room_attentions room at
          (d\<lparr>db_rooms := hm_insert room (row\<lparr>rr_sealed_at := Some at\<rparr>) (db_rooms d)\<rparr>))"

definition sealed_rooms :: "store \<Rightarrow> string list" where
  "sealed_rooms s = (case sto_conn s of None \<Rightarrow> []
     | Some d \<Rightarrow> map fst (filter (\<lambda>(_, r). rr_sealed_at r \<noteq> None) (db_rooms d)))"

subsection \<open>Attachment references\<close>

definition resolve_room_attachment :: "store \<Rightarrow> string \<Rightarrow> string \<Rightarrow> attachment option" where
  "resolve_room_attachment s room i = (case sto_conn s of None \<Rightarrow> None
     | Some d \<Rightarrow>
         (case hm_get (db_pending d) (i, room) of
            Some p \<Rightarrow> Some \<lparr> at_id = i, at_sha256 = i, at_name = pr_name p, at_mime = pr_mime p,
                            at_size = pr_size p \<rparr>
          | None \<Rightarrow>
              map_option (\<lambda>(_, f). \<lparr> at_id = i, at_sha256 = i, at_name = rf_name f,
                                   at_mime = rf_mime f, at_size = rf_size f \<rparr>)
                (find (\<lambda>((rm, _, sh), _). rm = room \<and> sh = i) (db_refs d))))"

definition claimable :: "string \<Rightarrow> string \<Rightarrow> db \<Rightarrow> bool" where
  "claimable room sh d = (hm_contains (db_pending d) (sh, room)
     \<or> (\<exists>((rm, _, sh'), _) \<in> set (db_refs d). rm = room \<and> sh' = sh))"

definition write_attachment_ref :: "message \<Rightarrow> attachment \<Rightarrow> db \<Rightarrow> (sql_error, db) result" where
  "write_attachment_ref m a d =
     (if \<not> claimable (m_room m) (at_sha256 a) d then Err (StatementChangedRows 0)
      else if hm_contains (db_refs d) (m_room m, m_id m, at_sha256 a) then Err ConstraintViolation
      else Ok (d\<lparr>db_refs := hm_insert (m_room m, m_id m, at_sha256 a)
             \<lparr> rf_name = at_name a, rf_mime = at_mime a, rf_size = at_size a, rf_created_at = m_ts m \<rparr>
             (db_refs d),
           db_pending := hm_remove (at_sha256 a, m_room m) (db_pending d)\<rparr>))"

fun write_attachment_refs :: "message \<Rightarrow> attachment list \<Rightarrow> db \<Rightarrow> (sql_error, db) result" where
  "write_attachment_refs m [] d = Ok d"
| "write_attachment_refs m (a # as) d = (case write_attachment_ref m a d of
     Inl e \<Rightarrow> Err e | Inr d' \<Rightarrow> write_attachment_refs m as d')"

subsection \<open>The message archive\<close>

definition message_to_row :: "message \<Rightarrow> (string \<times> string) option \<Rightarrow> message_row" where
  "message_to_row m operation =
    \<lparr> mr_room = m_room m, mr_sender = m_sender m, mr_sender_type = sender_type_str (m_sender_type m),
      mr_target = m_target m, mr_text = m_text m, mr_reply_to = m_reply_to m, mr_ts = m_ts m,
      mr_kind = kind_str (m_kind m), mr_principal = map_option fst operation,
      mr_op_id = map_option snd operation, mr_attachments = attachments_to_json (m_attachments m) \<rparr>"

definition operation_row :: "string \<Rightarrow> string \<Rightarrow> string \<Rightarrow> message_row \<Rightarrow> bool" where
  "operation_row room prin op_id r =
     (mr_room r = room \<and> mr_principal r = Some prin \<and> mr_op_id r = Some op_id)"

text \<open>\<open>INSERT INTO messages\<close> under the primary key and the unique operation index.\<close>

definition insert_message_row ::
  "message \<Rightarrow> (string \<times> string) option \<Rightarrow> db \<Rightarrow> (sql_error, db) result" where
  "insert_message_row m operation d =
     (if hm_contains (db_messages d) (m_id m) then Err ConstraintViolation
      else if (case operation of None \<Rightarrow> False
               | Some (prin, op_id) \<Rightarrow>
                   (\<exists>r \<in> set (hm_values (db_messages d)). operation_row (m_room m) prin op_id r))
      then Err ConstraintViolation
      else Ok (d\<lparr>db_messages := hm_insert (m_id m) (message_to_row m operation) (db_messages d)\<rparr>))"

definition reset_silence_care :: "string \<Rightarrow> u64 \<Rightarrow> db \<Rightarrow> db" where
  "reset_silence_care room at d = retire_condition room ''silence'' at d"

text \<open>The part every insert shares: the row, the silence reset, the file references.\<close>

definition insert_core :: "message \<Rightarrow> (string \<times> string) option \<Rightarrow> db \<Rightarrow> (sql_error, db) result" where
  "insert_core m operation d = (case insert_message_row m operation d of
     Inl e \<Rightarrow> Err e
   | Inr d1 \<Rightarrow> write_attachment_refs m (m_attachments m) (reset_silence_care (m_room m) (m_ts m) d1))"

definition write_optional_state ::
  "string \<Rightarrow> (ChatMode \<times> room_settings) option \<Rightarrow> db \<Rightarrow> (sql_error, db) result" where
  "write_optional_state room room_state d = (case room_state of
     None \<Rightarrow> Ok d | Some (mode, settings) \<Rightarrow> write_room_state room mode settings d)"

definition insert_message_txn ::
  "message \<Rightarrow> (ChatMode \<times> room_settings) option \<Rightarrow> (string \<times> string) option \<Rightarrow> (db \<Rightarrow> db) \<Rightarrow> db \<Rightarrow>
     (sql_error, unit \<times> db) result" where
  "insert_message_txn m room_state operation after d = (case require_unsealed_room (m_room m) d of
     Inl e \<Rightarrow> Err e
   | Inr _ \<Rightarrow>
       (case write_optional_state (m_room m) room_state d of
          Inl e \<Rightarrow> Err e
        | Inr d1 \<Rightarrow>
            (case insert_core m operation d1 of
               Inl e \<Rightarrow> Err e
             | Inr d2 \<Rightarrow> Ok ((), after d2))))"

definition insert_message ::
  "message \<Rightarrow> (string \<times> string) option \<Rightarrow> store \<Rightarrow> (sql_error, unit) result \<times> store" where
  "insert_message m operation = run_txn () (insert_message_txn m None operation (\<lambda>d. d))"

definition insert_message_with_room ::
  "message \<Rightarrow> ChatMode \<Rightarrow> room_settings \<Rightarrow> (string \<times> string) option \<Rightarrow> store \<Rightarrow>
     (sql_error, unit) result \<times> store" where
  "insert_message_with_room m mode settings operation = run_txn () (\<lambda>d.
     case write_room_state (m_room m) mode settings d of
       Inl e \<Rightarrow> Err e
     | Inr d1 \<Rightarrow> (case insert_core m operation d1 of Inl e \<Rightarrow> Err e | Inr d2 \<Rightarrow> Ok ((), d2)))"

definition insert_message_with_care ::
  "message \<Rightarrow> (ChatMode \<times> room_settings) option \<Rightarrow> (string \<times> string) option \<Rightarrow> string \<Rightarrow>
     care_signal list \<Rightarrow> store \<Rightarrow> (sql_error, unit) result \<times> store" where
  "insert_message_with_care m room_state operation delivery_room signals =
     run_txn () (insert_message_txn m room_state operation (fold (write_care delivery_room) signals))"

definition insert_message_with_wait_wake ::
  "message \<Rightarrow> (ChatMode \<times> room_settings) option \<Rightarrow> (string \<times> string) option \<Rightarrow> string \<Rightarrow> string \<Rightarrow>
     u64 \<Rightarrow> wait_state \<Rightarrow> care_signal \<Rightarrow> store \<Rightarrow> (sql_error, unit) result \<times> store" where
  "insert_message_with_wait_wake m room_state operation delivery_room waiter at wait wake =
     run_txn () (insert_message_txn m room_state operation (\<lambda>d.
       write_care delivery_room wake (write_wait wait (db_resolve_wait_attentions (m_room m) waiter at d))))"

definition row_to_message :: "string \<Rightarrow> u64 \<Rightarrow> message_row \<Rightarrow> message" where
  "row_to_message room i r =
    \<lparr> m_id = i, m_room = room, m_sender = mr_sender r,
      m_sender_type = parse_sender_type (mr_sender_type r), m_target = mr_target r, m_text = mr_text r,
      m_kind = parse_kind (mr_kind r), m_reply_to = mr_reply_to r, m_reply_to_sender = None,
      m_ts = mr_ts r, m_attachments = attachments_from_json (mr_attachments r) \<rparr>"

definition message_by_operation ::
  "string \<Rightarrow> string \<Rightarrow> string \<Rightarrow> store \<Rightarrow> (sql_error, message option) result \<times> store" where
  "message_by_operation room prin op_id = run_txn None (\<lambda>d.
     Ok (map_option (\<lambda>(i, r). row_to_message room i r)
           (find (\<lambda>(_, r). operation_row room prin op_id r) (db_messages d)), d))"

definition message_owner ::
  "string \<Rightarrow> u64 \<Rightarrow> store \<Rightarrow> (sql_error, string option) result \<times> store" where
  "message_owner room i = run_txn None (\<lambda>d.
     Ok (case hm_get (db_messages d) i of None \<Rightarrow> None
         | Some r \<Rightarrow> if mr_room r = room then Some (mr_sender r) else None, d))"

definition max_message_id :: "store \<Rightarrow> u64" where
  "max_message_id s = (case sto_conn s of None \<Rightarrow> 0 | Some d \<Rightarrow> fold max (hm_keys (db_messages d)) 0)"

definition messages_after :: "store \<Rightarrow> string \<Rightarrow> u64 \<Rightarrow> usize \<Rightarrow> message list option" where
  "messages_after s room after_id limit = (case sto_conn s of None \<Rightarrow> None
     | Some d \<Rightarrow> Some (take limit (map (\<lambda>(i, r). row_to_message room i r)
         (sort_key fst (filter (\<lambda>(i, r). mr_room r = room \<and> after_id < i) (db_messages d))))))"

subsection \<open>Reactions\<close>

definition read_message_reactions :: "db \<Rightarrow> string \<Rightarrow> u64 option \<Rightarrow> message_reaction list" where
  "read_message_reactions d room message_id =
     (let rows = map (\<lambda>((_, mid, _, emoji), (reactor, at)). (mid, emoji, at, reactor))
            (filter (\<lambda>((rm, mid, _, _), _). rm = room \<and> (message_id = None \<or> message_id = Some mid))
               (db_reactions d));
          push = (\<lambda>(mid, emoji, at, actor) grouped.
            (case rev grouped of
               g # gs \<Rightarrow> if re_message_id g = mid \<and> re_emoji g = emoji
                         then rev (g\<lparr>re_actors := re_actors g @ [actor]\<rparr> # gs)
                         else grouped @ [\<lparr> re_message_id = mid, re_emoji = emoji, re_actors = [actor] \<rparr>]
             | [] \<Rightarrow> [\<lparr> re_message_id = mid, re_emoji = emoji, re_actors = [actor] \<rparr>]))
      in fold push (sort rows) [])"

definition set_message_reaction ::
  "string \<Rightarrow> u64 \<Rightarrow> string \<Rightarrow> string \<Rightarrow> string \<Rightarrow> bool \<Rightarrow> u64 \<Rightarrow> store \<Rightarrow>
     (sql_error, message_reaction list) result \<times> store" where
  "set_message_reaction room message_id prin reactor emoji active at = run_txn [] (\<lambda>d.
     let key = (room, message_id, prin, emoji);
         rows = (if active
                 then (if hm_contains (db_reactions d) key then db_reactions d
                       else hm_insert key (reactor, at) (db_reactions d))
                 else hm_remove key (db_reactions d));
         d1 = d\<lparr>db_reactions := rows\<rparr>
     in if active \<and> \<not> hm_contains (db_messages d) message_id then Err ConstraintViolation
        else Ok (read_message_reactions d1 room (Some message_id), d1))"

subsection \<open>Notes and journal\<close>

definition store_append_journal :: "journal_entry \<Rightarrow> store \<Rightarrow> (sql_error, unit) result \<times> store" where
  "store_append_journal e = run_txn () (\<lambda>d.
     if hm_contains (db_journal d) (j_room e, j_id e) then Err ConstraintViolation
     else Ok ((), d\<lparr>db_journal := hm_insert (j_room e, j_id e) e (db_journal d)\<rparr>))"

definition replace_note ::
  "string \<Rightarrow> room_note \<Rightarrow> room_note \<Rightarrow> store \<Rightarrow> (sql_error, unit) result \<times> store" where
  "replace_note room previous updated = run_txn () (\<lambda>d.
     if hm_contains (db_note_revisions d) (room, n_key previous, n_rev previous) then Err ConstraintViolation
     else Ok ((), d\<lparr>
       db_note_revisions := hm_insert (room, n_key previous, n_rev previous) previous (db_note_revisions d),
       db_notes := hm_insert (room, n_key updated) updated (db_notes d)\<rparr>))"

definition upsert_note :: "string \<Rightarrow> room_note \<Rightarrow> store \<Rightarrow> (sql_error, unit) result \<times> store" where
  "upsert_note room n = run_write (\<lambda>d. d\<lparr>db_notes := hm_insert (room, n_key n) n (db_notes d)\<rparr>)"

definition store_delete_note :: "string \<Rightarrow> string \<Rightarrow> store \<Rightarrow> (sql_error, unit) result \<times> store" where
  "store_delete_note room key = run_write (\<lambda>d. d\<lparr>db_notes := hm_remove (room, key) (db_notes d)\<rparr>)"

definition note_history :: "store \<Rightarrow> string \<Rightarrow> string \<Rightarrow> room_note list" where
  "note_history s room key = (case sto_conn s of None \<Rightarrow> []
     | Some d \<Rightarrow> map (\<lambda>(_, n). n\<lparr>n_key := key, n_can_write := []\<rparr>)
         (rev (sort_key (\<lambda>((_, _, rv), _). rv)
            (filter (\<lambda>((rm, k, _), _). rm = room \<and> k = key) (db_note_revisions d)))))"

end
