(* ===== verification/Post.thy ===== *)
theory Post
  imports Waits Attention Store_Messages
begin

text \<open>
  \<open>Hub::post\<close> of \<^verbatim>\<open>crates/server/src/hub.rs\<close>, whole: the idempotency lookup, the
  resolution of cited files, the gates (archive, moderation, chat mode, rate limit),
  the addressing of a reply, the construction of the message, the caretaker summons,
  the wake of a waiter, the round-robin turn, the write before the broadcast and the
  mirror of the commit in memory.
\<close>

datatype PostReject =
    PostDeleted
  | PostArchived
  | PostPaused
  | PostNotAllowed
  | PostNotYourTurn "string option"
  | PostMuted
  | PostBanned
  | PostStorage
  | PostRateLimited u64
  | PostUnknownAttachment
  | PostTooManyAttachments usize

definition MAX_ATTACHMENTS_PER_MESSAGE :: usize where
  "MAX_ATTACHMENTS_PER_MESSAGE = 4"

subsection \<open>Cited files\<close>

fun resolve_cited ::
  "store \<Rightarrow> string \<Rightarrow> string list \<Rightarrow> attachment list \<Rightarrow> (PostReject, attachment list) result" where
  "resolve_cited s room [] resolved = Ok resolved"
| "resolve_cited s room (i # ids) resolved =
     (if \<exists>a \<in> set resolved. at_id a = i then resolve_cited s room ids resolved
      else (case resolve_room_attachment s room i of
              None \<Rightarrow> Err PostUnknownAttachment
            | Some a \<Rightarrow> resolve_cited s room ids (resolved @ [a])))"

definition resolve_attachments ::
  "store \<Rightarrow> string \<Rightarrow> string list \<Rightarrow> (PostReject, attachment list) result" where
  "resolve_attachments s room ids =
     (if MAX_ATTACHMENTS_PER_MESSAGE < length ids
      then Err (PostTooManyAttachments MAX_ATTACHMENTS_PER_MESSAGE)
      else resolve_cited s room ids [])"

subsection \<open>Gates\<close>

definition moderation_gate :: "room \<Rightarrow> string \<Rightarrow> PostReject option" where
  "moderation_gate r sender =
     (if sender \<in> set (r_banned r) then Some PostBanned
      else if sender \<in> set (r_muted r) then Some PostMuted else None)"

definition nth_opt :: "'a list \<Rightarrow> nat \<Rightarrow> 'a option" where
  "nth_opt xs i = (if i < length xs then Some (xs ! i) else None)"

definition mode_gate :: "ChatMode \<Rightarrow> string \<Rightarrow> PostReject option" where
  "mode_gate mode sender = (case mode of
     Free \<Rightarrow> None
   | Paused \<Rightarrow> Some PostPaused
   | Restricted allow \<Rightarrow> if sender \<in> set allow then None else Some PostNotAllowed
   | RoundRobin order turn \<Rightarrow>
       if nth_opt order turn = Some sender then None else Some (PostNotYourTurn (nth_opt order turn)))"

definition record_rate :: "bool \<Rightarrow> room \<Rightarrow> bool" where
  "record_rate is_admin r = (\<not> is_admin \<and> 0 < st_rate_limit (r_settings r))"

definition window_ms :: "room \<Rightarrow> u64" where
  "window_ms r = st_rate_window_secs (r_settings r) * 1000"

definition recent_posts :: "room \<Rightarrow> string \<Rightarrow> u64 \<Rightarrow> u64 list" where
  "recent_posts r sender now =
     (let cutoff = u64_saturating_sub now (window_ms r)
      in dropWhile (\<lambda>t. t \<le> cutoff) (case hm_get (r_post_times r) sender of None \<Rightarrow> [] | Some ts \<Rightarrow> ts))"

definition rate_gate :: "room \<Rightarrow> string \<Rightarrow> u64 \<Rightarrow> PostReject option \<times> room" where
  "rate_gate r sender now =
     (let times = recent_posts r sender now;
          r' = r\<lparr>r_post_times := hm_insert sender times (r_post_times r)\<rparr>
      in if st_rate_limit (r_settings r) \<le> length times
         then let retry_ms = (case times of [] \<Rightarrow> window_ms r
                      | t # _ \<Rightarrow> u64_saturating_sub (u64_add t (window_ms r)) now)
              in (Some (PostRateLimited (div_ceil retry_ms 1000)), r')
         else (None, r'))"

text \<open>All gates in the order of the source; the administrator passes all but the archive.\<close>

definition post_gate :: "room \<Rightarrow> string \<Rightarrow> bool \<Rightarrow> u64 \<Rightarrow> PostReject option \<times> room" where
  "post_gate r sender is_admin now =
     (if st_archived (r_settings r) then (Some PostArchived, r)
      else case (if is_admin then None else moderation_gate r sender) of
             Some e \<Rightarrow> (Some e, r)
           | None \<Rightarrow>
               (case (if is_admin then None else mode_gate (r_mode r) sender) of
                  Some e \<Rightarrow> (Some e, r)
                | None \<Rightarrow> if record_rate is_admin r then rate_gate r sender now else (None, r)))"

subsection \<open>Whom the message concerns\<close>

definition reply_to_sender ::
  "string \<Rightarrow> post_message \<Rightarrow> room \<Rightarrow> hub \<Rightarrow> (PostReject, string option) result \<times> hub" where
  "reply_to_sender room body r h = (case pm_reply_to body of
     None \<Rightarrow> (Ok None, h)
   | Some rid \<Rightarrow>
       let keep = (\<lambda>owner. case owner of None \<Rightarrow> None
             | Some o' \<Rightarrow> if o' \<noteq> pm_sender body \<and> o' \<noteq> [] then Some o' else None)
       in case find (\<lambda>m. m_id m = rid) (rev (r_history r)) of
            Some m \<Rightarrow> (Ok (keep (Some (m_sender m))), h)
          | None \<Rightarrow>
              let (res, h1) = with_store (message_owner room rid) h
              in case res of Inl _ \<Rightarrow> (Err PostStorage, h1) | Inr owner \<Rightarrow> (Ok (keep owner), h1))"

definition summon_signal :: "string \<Rightarrow> string \<Rightarrow> message \<Rightarrow> u64 \<Rightarrow> string \<Rightarrow> care_signal" where
  "summon_signal home room m now owner =
    \<lparr> c_id = ''summon:'' @ room @ '':'' @ dec (m_id m) @ '':'' @ owner,
      c_attention_id = ''attention:'' @ room @ '':summon:'' @ dec (m_id m) @ '':'' @ owner,
      c_room = home, c_source_room = room, c_reason = DirectSummon, c_audience = AudPerson owner,
      c_owner = Some owner, c_owner_principal_id = None, c_group = None, c_target = Some owner,
      c_participants = [m_sender m, owner],
      c_subject = m_sender m @ '' directly summoned a caretaker'', c_created_by = m_sender m,
      c_context = [m], c_attempt = 1, c_at = now, c_escalated = False, c_state = Running \<rparr>"

definition caretaker_summons :: "hub \<Rightarrow> string \<Rightarrow> message \<Rightarrow> u64 \<Rightarrow> care_signal list" where
  "caretaker_summons h room m now =
     (if room = h_home_room h then []
      else map (summon_signal (h_home_room h) room m now) (addressed_caretakers h m))"

definition wake_signal :: "string \<Rightarrow> message \<Rightarrow> u64 \<Rightarrow> string \<Rightarrow> u64 \<Rightarrow> string \<Rightarrow> care_signal" where
  "wake_signal room m now target new_since did =
    \<lparr> c_id = did,
      c_attention_id = ''attention:'' @ room @ '':wait-reply:'' @ target @ '':'' @ dec new_since,
      c_room = room, c_source_room = [], c_reason = WaitReplied, c_audience = AudPerson target,
      c_owner = Some target, c_owner_principal_id = None, c_group = None, c_target = Some target,
      c_participants = [m_sender m, target], c_subject = m_sender m @ '' replied to '' @ target,
      c_created_by = m_sender m, c_context = [m], c_attempt = 1, c_at = now, c_escalated = False,
      c_state = Running \<rparr>"

text \<open>The waiter a direct message answers, if it answers one.\<close>

definition answered_wait :: "room \<Rightarrow> message \<Rightarrow> wait_state option" where
  "answered_wait r m = (case m_target m of
     None \<Rightarrow> None
   | Some target \<Rightarrow>
       if eq_ignore_ascii_case target ''all'' \<or> target = m_sender m then None
       else (case hm_get (r_waits r) target of
               None \<Rightarrow> None
             | Some w \<Rightarrow> if w_waiting_for w \<noteq> m_sender m then None else Some w))"

definition wait_wake ::
  "string \<Rightarrow> message \<Rightarrow> care_signal list \<Rightarrow> u64 \<Rightarrow> room \<Rightarrow> hub \<Rightarrow> (wait_state \<times> care_signal) option \<times> hub" where
  "wait_wake room m summons now r h =
     (if m_kind m = Say \<and> summons = []
      then (case (m_target m, answered_wait r m) of
              (Some target, Some existing) \<Rightarrow>
                let (new_since, h1) = next_condition_generation now (w_since existing) h;
                    updated = \<lparr> w_room = room, w_waiter = target, w_waiting_for = w_waiting_for existing,
                                w_reason = w_reason existing, w_since = new_since,
                                w_last_signal_at = None, w_signal_count = 0 \<rparr>;
                    (did, h2) = secure_token ''delivery_'' h1
                in (Some (updated, wake_signal room m now target new_since did), h2)
            | _ \<Rightarrow> (None, h))
      else (None, h))"

subsection \<open>The turn\<close>

definition advance_turn :: "ChatMode \<Rightarrow> string \<Rightarrow> usize option \<times> ChatMode" where
  "advance_turn mode sender = (case mode of
     RoundRobin order turn \<Rightarrow>
       if order \<noteq> [] \<and> nth_opt order turn = Some sender
       then (Some turn, RoundRobin order ((turn + 1) mod length order))
       else (None, mode)
   | _ \<Rightarrow> (None, mode))"

subsection \<open>Commit and mirror\<close>

definition persist_post ::
  "string \<Rightarrow> message \<Rightarrow> (string \<times> string) option \<Rightarrow> (ChatMode \<times> room_settings) option \<Rightarrow>
     care_signal list \<Rightarrow> (wait_state \<times> care_signal) option \<Rightarrow> u64 \<Rightarrow> string \<Rightarrow> store \<Rightarrow>
     (sql_error, unit) result \<times> store" where
  "persist_post room m operation room_state summons wake now home s = (case wake of
     Some (updated, sig) \<Rightarrow>
       insert_message_with_wait_wake m room_state operation room (w_waiter updated) now updated sig s
   | None \<Rightarrow>
       if summons \<noteq> [] then insert_message_with_care m room_state operation home summons s
       else (case room_state of
               Some (mode, settings) \<Rightarrow> insert_message_with_room m mode settings operation s
             | None \<Rightarrow> insert_message m operation s))"

definition remember_operation :: "(string \<times> string) option \<Rightarrow> message \<Rightarrow> room \<Rightarrow> room" where
  "remember_operation operation m r = (case operation of
     None \<Rightarrow> r
   | Some key \<Rightarrow>
       let order = r_operation_order r @ [key];
           overflow = length order - HISTORY_LIMIT
       in r\<lparr>r_operations := fold hm_remove (take overflow order) (hm_insert key m (r_operations r)),
            r_operation_order := drop overflow order\<rparr>)"

definition push_history :: "message \<Rightarrow> room \<Rightarrow> room" where
  "push_history m r = r\<lparr>r_history :=
     (let hist = r_history r @ [m] in drop (length hist - HISTORY_LIMIT) hist)\<rparr>"

definition signal_attention :: "store \<Rightarrow> care_signal \<Rightarrow> attention" where
  "signal_attention s sig = (case store_attention s (c_attention_id sig) of
     Some a \<Rightarrow> a | None \<Rightarrow> attention_of_signal (c_attention_id sig) (origin_room sig) sig)"

definition show_attention :: "attention \<Rightarrow> room \<Rightarrow> room" where
  "show_attention a r = send (FAttention a) (r\<lparr>r_attentions := hm_insert (a_id a) a (r_attentions r)\<rparr>)"

text \<open>The room after the commit: rate, operation, turn, silence, history, broadcast.\<close>

definition mirror_message ::
  "string \<Rightarrow> message \<Rightarrow> (string \<times> string) option \<Rightarrow> usize option \<Rightarrow> bool \<Rightarrow> u64 \<Rightarrow> room \<Rightarrow> room" where
  "mirror_message room m operation previous_turn rated now r =
     (let r1 = (if rated
                then r\<lparr>r_post_times := hm_insert (m_sender m)
                  ((case hm_get (r_post_times r) (m_sender m) of None \<Rightarrow> [] | Some ts \<Rightarrow> ts) @ [now])
                  (r_post_times r)\<rparr> else r);
          r2 = remember_operation operation m r1;
          r3 = (if previous_turn \<noteq> None then send (FMode (r_mode r2)) r2 else r2);
          r4 = resolve_condition_attention room ''silence'' (m_ts m)
                 (r3\<lparr>r_care_marks := hm_remove ''silence'' (r_care_marks r3)\<rparr>)
      in send (FMsg m) (push_history m (r4\<lparr>r_last_msg_ms := m_ts m\<rparr>)))"

definition mirror_wake :: "string \<Rightarrow> u64 \<Rightarrow> store \<Rightarrow> (wait_state \<times> care_signal) option \<Rightarrow> room \<Rightarrow> room" where
  "mirror_wake room now s wake r = (case wake of
     None \<Rightarrow> r
   | Some (updated, sig) \<Rightarrow>
       let r1 = resolve_wait_attentions room (w_waiter updated) now
             (r\<lparr>r_waits := hm_insert (w_waiter updated) updated (r_waits r)\<rparr>);
           a = signal_attention s sig;
           r2 = r1\<lparr>r_attentions := hm_insert (a_id a) a (r_attentions r1)\<rparr>
       in send (FWait (w_waiter updated) (Some updated)) (send (FAttention a) (send (FCare sig) r2)))"

definition record_deliveries :: "care_signal list \<Rightarrow> hub \<Rightarrow> hub" where
  "record_deliveries sigs h = h\<lparr>h_care_deliveries :=
     fold (\<lambda>s. hm_insert (c_id s) (c_attention_id s)) sigs (h_care_deliveries h)\<rparr>"

definition relay_home :: "care_signal list \<Rightarrow> hub \<Rightarrow> hub" where
  "relay_home sigs h = (case get_room h (h_home_room h) of
     None \<Rightarrow> h
   | Some home \<Rightarrow> if sigs = [] then h else put_room (h_home_room h) (fold (\<lambda>s. send (FCare s)) sigs home) h)"

definition mirror_post ::
  "string \<Rightarrow> message \<Rightarrow> (string \<times> string) option \<Rightarrow> usize option \<Rightarrow> bool \<Rightarrow> care_signal list \<Rightarrow>
     (wait_state \<times> care_signal) option \<Rightarrow> u64 \<Rightarrow> room \<Rightarrow> hub \<Rightarrow> hub" where
  "mirror_post room m operation previous_turn rated summons wake now r h =
     (let s = h_store h;
          r1 = mirror_message room m operation previous_turn rated now r;
          r2 = fold (\<lambda>sig. show_attention (signal_attention s sig)) summons r1;
          r3 = mirror_wake room now s wake r2
      in relay_home summons (record_deliveries (summons @ (case wake of None \<Rightarrow> [] | Some (_, sig) \<Rightarrow> [sig]))
           (put_room room r3 h)))"

subsection \<open>The operation\<close>

definition post_message_of ::
  "string \<Rightarrow> post_message \<Rightarrow> attachment list \<Rightarrow> string option \<Rightarrow> u64 \<Rightarrow> u64 \<Rightarrow> message" where
  "post_message_of room body atts rts i ts =
    \<lparr> m_id = i, m_room = room, m_sender = pm_sender body, m_sender_type = pm_sender_type body,
      m_target = (case pm_target body of None \<Rightarrow> None | Some t \<Rightarrow> if t = [] then None else Some t),
      m_text = pm_text body, m_kind = pm_kind body, m_reply_to = pm_reply_to body,
      m_reply_to_sender = rts, m_ts = ts, m_attachments = atts \<rparr>"

definition accept_post ::
  "string \<Rightarrow> post_message \<Rightarrow> attachment list \<Rightarrow> (string \<times> string) option \<Rightarrow> string option \<Rightarrow> bool \<Rightarrow>
     u64 \<Rightarrow> room \<Rightarrow> hub \<Rightarrow> (PostReject, message) result \<times> hub" where
  "accept_post room body atts operation rts is_admin now r h =
     (let i = h_next_id h;
          h1 = h\<lparr>h_next_id := u64_add i 1\<rparr>;
          (ts, h2) = next_condition_generation now (r_last_msg_ms r) h1;
          m = post_message_of room body atts rts i ts;
          summons = caretaker_summons h2 room m now;
          (wake, h3) = wait_wake room m summons now r h2;
          (previous_turn, mode) = advance_turn (r_mode r) (m_sender m);
          room_state = (if previous_turn = None then None else Some (mode, r_settings r));
          (res, h4) = with_store (persist_post room m operation room_state summons wake now (h_home_room h)) h3
      in case res of
           Inl _ \<Rightarrow>
             (if atts \<noteq> [] \<and> (\<exists>a \<in> set atts. resolve_room_attachment (h_store h4) room (at_id a) = None)
              then (Err PostUnknownAttachment, h4) else (Err PostStorage, h4))
         | Inr _ \<Rightarrow> (Ok m, mirror_post room m operation previous_turn (record_rate is_admin r) summons wake now
                              (r\<lparr>r_mode := mode\<rparr>) h4))"

definition post_locked ::
  "string \<Rightarrow> post_message \<Rightarrow> attachment list \<Rightarrow> (string \<times> string) option \<Rightarrow> bool \<Rightarrow> u64 \<Rightarrow> hub \<Rightarrow>
     (PostReject, message) result \<times> hub" where
  "post_locked room body atts operation is_admin now h =
     (let r = room_mut room h;
          h0 = put_room room r h
      in case (case operation of None \<Rightarrow> None | Some key \<Rightarrow> hm_get (r_operations r) key) of
           Some m \<Rightarrow> (Ok m, h0)
         | None \<Rightarrow>
             (case post_gate r (pm_sender body) is_admin now of
                (Some e, r1) \<Rightarrow> (Err e, put_room room r1 h0)
              | (None, r1) \<Rightarrow>
                  (case reply_to_sender room body r1 (put_room room r1 h0) of
                     (Inl e, h1) \<Rightarrow> (Err e, h1)
                   | (Inr rts, h1) \<Rightarrow> accept_post room body atts operation rts is_admin now r1 h1)))"

definition post ::
  "string \<Rightarrow> post_message \<Rightarrow> bool \<Rightarrow> string \<Rightarrow> u64 \<Rightarrow> hub \<Rightarrow> (PostReject, message) result \<times> hub" where
  "post room body is_admin prin now h =
     (if is_deleted h room then (Err PostDeleted, h)
      else let op_id = (case pm_op_id body of None \<Rightarrow> None | Some i \<Rightarrow> if i = [] then None else Some i);
               operation = map_option (\<lambda>i. (prin, i)) op_id;
               (known, h1) = (case op_id of None \<Rightarrow> (Ok None, h)
                   | Some i \<Rightarrow> with_store (message_by_operation room prin i) h)
           in case known of
                Inl _ \<Rightarrow> (Err PostStorage, h1)
              | Inr (Some m) \<Rightarrow> (Ok m, h1)
              | Inr None \<Rightarrow>
                  (case resolve_attachments (h_store h1) room (pm_attachments body) of
                     Inl e \<Rightarrow> (Err e, h1)
                   | Inr atts \<Rightarrow> post_locked room body atts operation is_admin now h1))"

subsection \<open>Reading the definition\<close>

lemma wait_wake_frame:
  assumes "wait_wake room m summons now r h = (wake, h')"
  shows "h_rooms h' = h_rooms h" "h_store h' = h_store h" "h_home_room h' = h_home_room h"
    "h_default_settings h' = h_default_settings h" "h_next_id h' = h_next_id h"
    "h_care_deliveries h' = h_care_deliveries h" "h_deleted h' = h_deleted h"
    "h_members h' = h_members h" "h_invites h' = h_invites h" "h_caretakers h' = h_caretakers h"
  using assms
  by (auto simp: wait_wake_def next_condition_generation_def secure_token_def Let_def
      split: if_splits option.splits)

lemma next_condition_generation_frame:
  assumes "next_condition_generation now previous h = (g, h')"
  shows "h' = h\<lparr>h_condition_generation := g\<rparr>"
  using assms by (auto simp: next_condition_generation_def Let_def)

lemma addressed_caretakers_cong:
  "h_caretakers h' = h_caretakers h \<Longrightarrow> addressed_caretakers h' m = addressed_caretakers h m"
  by (simp add: addressed_caretakers_def caretaker_named_def cong: option.case_cong)

definition accept_state :: "u64 \<Rightarrow> hub \<Rightarrow> hub" where
  "accept_state ts h = h\<lparr>h_next_id := u64_add (h_next_id h) 1, h_condition_generation := ts\<rparr>"

lemma accept_post_cases:
  assumes "accept_post room body atts operation rts is_admin now r h = (res, h')"
  obtains ts m summons wake h3 prev mode s ok where
    "next_condition_generation now (r_last_msg_ms r) h = (ts, h\<lparr>h_condition_generation := ts\<rparr>)"
    and "m = post_message_of room body atts rts (h_next_id h) ts"
    and "summons = caretaker_summons h room m now"
    and "wait_wake room m summons now r (accept_state ts h) = (wake, h3)"
    and "advance_turn (r_mode r) (pm_sender body) = (prev, mode)"
    and "persist_post room m operation (if prev = None then None else Some (mode, r_settings r))
           summons wake now (h_home_room h) (h_store h) = (ok, s)"
    and "case ok of Inl _ \<Rightarrow> h' = h3\<lparr>h_store := s\<rparr> \<and> res = (if atts \<noteq> []
             \<and> (\<exists>a \<in> set atts. resolve_room_attachment s room (at_id a) = None)
             then Err PostUnknownAttachment else Err PostStorage)
         | Inr _ \<Rightarrow> res = Ok m \<and> h' = mirror_post room m operation prev (record_rate is_admin r) summons wake now
             (r\<lparr>r_mode := mode\<rparr>) (h3\<lparr>h_store := s\<rparr>)"
proof -
  obtain ts where gen: "next_condition_generation now (r_last_msg_ms r) h = (ts, h\<lparr>h_condition_generation := ts\<rparr>)"
    by (simp add: next_condition_generation_def Let_def)
  then have gen1: "next_condition_generation now (r_last_msg_ms r) (h\<lparr>h_next_id := u64_add (h_next_id h) 1\<rparr>)
      = (ts, accept_state ts h)"
    by (simp add: next_condition_generation_def accept_state_def Let_def)
  define m where m: "m = post_message_of room body atts rts (h_next_id h) ts"
  define summons where sm: "summons = caretaker_summons h room m now"
  have sm': "caretaker_summons (accept_state ts h) room m now = summons"
    using addressed_caretakers_cong [of "accept_state ts h" h m]
    by (simp add: sm caretaker_summons_def accept_state_def)
  obtain wake h3 where wk: "wait_wake room m summons now r (accept_state ts h) = (wake, h3)" by force
  obtain prev mode where tn: "advance_turn (r_mode r) (pm_sender body) = (prev, mode)" by force
  have snd_m: "m_sender m = pm_sender body" by (simp add: m post_message_of_def)
  have st3: "h_store h3 = h_store h" using wait_wake_frame(2) [OF wk] by (simp add: accept_state_def)
  obtain ok s where ps: "persist_post room m operation (if prev = None then None else Some (mode, r_settings r))
           summons wake now (h_home_room h) (h_store h) = (ok, s)" by force
  have w: "with_store (persist_post room m operation (if prev = None then None else Some (mode, r_settings r))
           summons wake now (h_home_room h)) h3 = (ok, h3\<lparr>h_store := s\<rparr>)"
    using ps st3 by (simp add: with_store_def)
  have "case ok of Inl _ \<Rightarrow> h' = h3\<lparr>h_store := s\<rparr> \<and> res = (if atts \<noteq> []
             \<and> (\<exists>a \<in> set atts. resolve_room_attachment s room (at_id a) = None)
             then Err PostUnknownAttachment else Err PostStorage)
         | Inr _ \<Rightarrow> res = Ok m \<and> h' = mirror_post room m operation prev (record_rate is_admin r) summons wake now
             (r\<lparr>r_mode := mode\<rparr>) (h3\<lparr>h_store := s\<rparr>)"
    using assms unfolding accept_post_def Let_def gen1 prod.case m [symmetric] sm' wk snd_m tn w
    by (cases ok) (auto split: if_splits)
  then show thesis using that [OF gen m sm wk tn ps] by blast
qed

text \<open>Nothing of a room but the pruned rate-limit times differs, and the tables are as they were.\<close>

definition quiet :: "string \<Rightarrow> hub \<Rightarrow> hub \<Rightarrow> bool" where
  "quiet room h h' = (sto_conn (h_store h') = sto_conn (h_store h)
     \<and> (\<forall>n. n \<noteq> room \<longrightarrow> get_room h' n = get_room h n)
     \<and> (get_room h' room = get_room h room
        \<or> (\<exists>pt. get_room h' room = Some ((room_mut room h)\<lparr>r_post_times := pt\<rparr>))))"

lemma post_gate_room:
  "post_gate r sender is_admin now = (e, r1) \<Longrightarrow> \<exists>pt. r1 = r\<lparr>r_post_times := pt\<rparr>"
proof -
  assume g: "post_gate r sender is_admin now = (e, r1)"
  have same: "r = r\<lparr>r_post_times := r_post_times r\<rparr>" by simp
  show ?thesis
  proof (cases "r1 = r")
    case True
    then show ?thesis using same by metis
  next
    case False
    then show ?thesis using g
      by (auto simp: post_gate_def rate_gate_def Let_def split: if_splits option.splits)
  qed
qed

lemma reply_to_sender_frame:
  assumes "reply_to_sender room body r h = (res, h')"
  shows "\<exists>s. h' = h\<lparr>h_store := s\<rparr> \<and> sto_conn s = sto_conn (h_store h)"
proof -
  have same: "\<exists>s. h = h\<lparr>h_store := s\<rparr> \<and> sto_conn s = sto_conn (h_store h)"
    by (intro exI [of _ "h_store h"]) simp
  have own: "sto_conn s' = sto_conn s" if "message_owner room i s = (x, s')" for i s x s'
    using that by (auto simp: message_owner_def run_txn_def split: option.splits list.splits bool.splits)
  show ?thesis using assms same
    by (auto simp: reply_to_sender_def Let_def split: option.splits prod.splits sum.splits
        elim!: with_storeE dest!: own)
qed

lemma lookup_operation_frame:
  assumes "message_by_operation room prin i s = (res, s')"
  shows "sto_conn s' = sto_conn s"
  using assms by (auto simp: message_by_operation_def run_txn_def split: option.splits list.splits bool.splits)

lemma persist_post_err:
  assumes "persist_post room m operation rs summons wake now home s = (Inl e, s')"
  shows "sto_conn s' = sto_conn s"
  using assms unfolding persist_post_def insert_message_def insert_message_with_room_def
    insert_message_with_care_def insert_message_with_wait_wake_def
  by (auto split: option.splits if_splits prod.splits dest: txn.err_rolls_back)

text \<open>The whole operation, by where it stops.\<close>

definition operation_of :: "post_message \<Rightarrow> string \<Rightarrow> (string \<times> string) option" where
  "operation_of body prin = (case pm_op_id body of None \<Rightarrow> None
     | Some i \<Rightarrow> if i = [] then None else Some (prin, i))"

lemma post_locked_cases:
  assumes "post_locked room body atts operation is_admin now h = (res, h')"
  obtains (replay) m key where "res = Ok m" "operation = Some key"
      "hm_get (r_operations (room_mut room h)) key = Some m" "h' = put_room room (room_mut room h) h"
  | (refuse) e r1 g s where "post_gate (room_mut room h) (pm_sender body) is_admin now = (g, r1)"
      "res = Err e" "g = None \<or> g = Some e" "sto_conn s = sto_conn (h_store h)"
      "h' = put_room room r1 (h\<lparr>h_store := s\<rparr>)"
  | (accept) rts r1 s where "post_gate (room_mut room h) (pm_sender body) is_admin now = (None, r1)"
      "sto_conn s = sto_conn (h_store h)"
      "operation = None \<or> (\<exists>key. operation = Some key \<and> hm_get (r_operations (room_mut room h)) key = None)"
      "accept_post room body atts operation rts is_admin now r1 (put_room room r1 (h\<lparr>h_store := s\<rparr>)) = (res, h')"
proof -
  let ?r = "room_mut room h"
  define known where "known = (case operation of None \<Rightarrow> None | Some key \<Rightarrow> hm_get (r_operations ?r) key)"
  have pp: "put_room room r1 (put_room room ?r h) = put_room room r1 h" for r1
    by (simp add: put_room_def hm_insert_def)
  show thesis
  proof (cases known)
    case (Some m)
    then obtain key where "operation = Some key" "hm_get (r_operations ?r) key = Some m"
      by (auto simp: known_def split: option.splits)
    then show thesis using assms by (intro replay [of m key]) (auto simp: post_locked_def Let_def)
  next
    case None
    obtain g r1 where g: "post_gate ?r (pm_sender body) is_admin now = (g, r1)" by force
    show thesis
    proof (cases g)
      case (Some e)
      then show thesis using assms None g pp refuse [OF g, of e "h_store h"]
        by (simp add: post_locked_def Let_def known_def)
    next
      case gn: None
      obtain rr h1 where rt: "reply_to_sender room body r1 (put_room room r1 h) = (rr, h1)" by force
      from reply_to_sender_frame [OF rt] obtain s where
        s: "h1 = (put_room room r1 h)\<lparr>h_store := s\<rparr>" "sto_conn s = sto_conn (h_store h)" by auto
      have h1: "h1 = put_room room r1 (h\<lparr>h_store := s\<rparr>)" by (simp add: s put_room_def)
      have fresh: "operation = None \<or> (\<exists>key. operation = Some key \<and> hm_get (r_operations ?r) key = None)"
        using None by (auto simp: known_def split: option.splits)
      show thesis
      proof (cases rr)
        case (Inl e)
        then show thesis using assms None g gn rt pp refuse [OF g, of e s] s(2) h1
          by (simp add: post_locked_def Let_def known_def)
      next
        case (Inr rts)
        then show thesis using assms None g gn rt pp accept [of r1 s rts] s(2) h1 fresh
          by (simp add: post_locked_def Let_def known_def)
      qed
    qed
  qed
qed

lemma post_cases:
  assumes "post room body is_admin prin now h = (res, h')"
  obtains (early) s where "h' = h\<lparr>h_store := s\<rparr>" "sto_conn s = sto_conn (h_store h)"
      "case res of Inl _ \<Rightarrow> True | Inr m \<Rightarrow> (\<exists>i. operation_of body prin = Some (prin, i)
         \<and> (case sto_conn (h_store h) of None \<Rightarrow> False | Some d \<Rightarrow>
              map_option (\<lambda>(i, r). row_to_message room i r)
                (find (\<lambda>(_, r). operation_row room prin i r) (db_messages d)) = Some m))"
  | (main) s atts where "\<not> is_deleted h room" "sto_conn s = sto_conn (h_store h)"
      "resolve_attachments s room (pm_attachments body) = Inr atts"
      "post_locked room body atts (operation_of body prin) is_admin now (h\<lparr>h_store := s\<rparr>) = (res, h')"
proof (cases "is_deleted h room")
  case True
  then have "h' = h\<lparr>h_store := h_store h\<rparr>" "res = Err PostDeleted" using assms by (simp_all add: post_def)
  then show thesis using early [of "h_store h"] by simp
next
  case False
  define op_id where "op_id = (case pm_op_id body of None \<Rightarrow> None | Some i \<Rightarrow> if i = [] then None else Some i)"
  have op: "operation_of body prin = map_option (\<lambda>i. (prin, i)) op_id"
    by (simp add: op_id_def operation_of_def split: option.split)
  obtain known h1 where kn: "(case op_id of None \<Rightarrow> (Ok None, h)
      | Some i \<Rightarrow> with_store (message_by_operation room prin i) h) = (known, h1)" by force
  have "\<exists>s. h1 = h\<lparr>h_store := s\<rparr> \<and> sto_conn s = sto_conn (h_store h)"
  proof (cases op_id)
    case None
    then show ?thesis using kn by (intro exI [of _ "h_store h"]) simp
  next
    case (Some i)
    then show ?thesis using kn lookup_operation_frame by (auto elim!: with_storeE)
  qed
  then obtain s where s: "h1 = h\<lparr>h_store := s\<rparr>" "sto_conn s = sto_conn (h_store h)" by blast
  have post: "(res, h') = (case known of Inl _ \<Rightarrow> (Err PostStorage, h1) | Inr (Some m) \<Rightarrow> (Ok m, h1)
      | Inr None \<Rightarrow> (case resolve_attachments (h_store h1) room (pm_attachments body) of
           Inl e \<Rightarrow> (Err e, h1)
         | Inr atts \<Rightarrow> post_locked room body atts (operation_of body prin) is_admin now h1))"
    unfolding op using assms kn False by (simp add: post_def op_id_def [symmetric])
  show thesis
  proof (cases "\<exists>m. known = Inr (Some m)")
    case True
    then obtain m where m: "known = Inr (Some m)" by blast
    then obtain i where i: "op_id = Some i" using kn by (cases op_id) auto
    then obtain s' where "message_by_operation room prin i (h_store h) = (Inr (Some m), s')"
      using kn m by (auto simp: with_store_def split: prod.splits)
    then have "case sto_conn (h_store h) of None \<Rightarrow> False | Some d \<Rightarrow>
        map_option (\<lambda>(i, r). row_to_message room i r)
          (find (\<lambda>(_, r). operation_row room prin i r) (db_messages d)) = Some m"
      by (auto simp: message_by_operation_def run_txn_def split: option.splits list.splits bool.splits)
    then show thesis using post m s op i by (intro early [of s]) auto
  next
    case False
    show thesis
    proof (cases "known = Inr None \<and> (\<exists>atts. resolve_attachments s room (pm_attachments body) = Inr atts)")
      case True
      then show thesis using post s \<open>\<not> is_deleted h room\<close> by (auto intro: main)
    next
      case no: False
      then have "\<exists>e. (res, h') = (Err e, h1)" using post s False
        by (auto split: sum.splits option.splits)
      then show thesis using s by (intro early [of s]) auto
    qed
  qed
qed

lemma accept_post_errD:
  assumes "accept_post room body atts operation rts is_admin now r h = (Err e, h')"
  shows "h_rooms h' = h_rooms h" "sto_conn (h_store h') = sto_conn (h_store h)"
proof -
  from assms have "h_rooms h' = h_rooms h \<and> sto_conn (h_store h') = sto_conn (h_store h)"
  proof (rule accept_post_cases)
    fix ts m summons wake h3 prev mode s ok
    assume wk: "wait_wake room m summons now r (accept_state ts h) = (wake, h3)"
      and ps: "persist_post room m operation (if prev = None then None else Some (mode, r_settings r))
           summons wake now (h_home_room h) (h_store h) = (ok, s)"
      and fin: "case ok of Inl _ \<Rightarrow> h' = h3\<lparr>h_store := s\<rparr> \<and> Err e = (if atts \<noteq> []
             \<and> (\<exists>a \<in> set atts. resolve_room_attachment s room (at_id a) = None)
             then Err PostUnknownAttachment else Err PostStorage)
         | Inr _ \<Rightarrow> Err e = Ok m \<and> h' = mirror_post room m operation prev (record_rate is_admin r) summons wake now
             (r\<lparr>r_mode := mode\<rparr>) (h3\<lparr>h_store := s\<rparr>)"
    from fin obtain x where "ok = Inl x" "h' = h3\<lparr>h_store := s\<rparr>" by (auto split: sum.splits)
    then show ?thesis using wait_wake_frame(1) [OF wk] persist_post_err ps by (auto simp: accept_state_def)
  qed
  then show "h_rooms h' = h_rooms h" "sto_conn (h_store h') = sto_conn (h_store h)" by simp_all
qed

lemma post_err_quiet:
  assumes "post room body is_admin prin now h = (Err e, h')"
  shows "quiet room h h'"
  using assms
proof (cases rule: post_cases)
  case (early s)
  then show ?thesis by (simp add: quiet_def get_room_def)
next
  case (main s atts)
  have mut: "room_mut room (h\<lparr>h_store := s\<rparr>) = room_mut room h"
    by (auto simp: room_mut_def split: option.split)
  from main(4) show ?thesis
  proof (cases rule: post_locked_cases)
    case (refuse e' r1 g s')
    from post_gate_room [OF refuse(1)] obtain pt where "r1 = (room_mut room h)\<lparr>r_post_times := pt\<rparr>"
      unfolding mut by blast
    then show ?thesis using refuse main(2) by (auto simp: quiet_def get_room_def put_room_def)
  next
    case (accept rts r1 s')
    from post_gate_room [OF accept(1)] obtain pt where "r1 = (room_mut room h)\<lparr>r_post_times := pt\<rparr>"
      unfolding mut by blast
    then show ?thesis using accept_post_errD [OF accept(4)] accept(2) main(2)
      by (auto simp: quiet_def get_room_def put_room_def)
  qed simp
qed

subsection \<open>What a commit wrote\<close>

lemma write_attachment_refs_frame:
  "write_attachment_refs m as d = Inr d' \<Longrightarrow> db_messages d' = db_messages d \<and> db_rooms d' = db_rooms d"
  by (induction m as d rule: write_attachment_refs.induct)
    (auto simp: write_attachment_ref_def split: sum.splits if_splits)

lemma retire_condition_messages [simp]:
  "db_messages (retire_condition room key at d) = db_messages d"
  "db_rooms (retire_condition room key at d) = db_rooms d"
  by (simp_all add: retire_condition_def ack_rows_def resolve_rows_def delete_mark_def Let_def)

lemma write_care_messages [simp]:
  "db_messages (write_care room s d) = db_messages d" "db_rooms (write_care room s d) = db_rooms d"
  by (simp_all add: write_care_def write_outbox_def Let_def split: option.split)

lemma fold_write_care_messages [simp]:
  "db_messages (fold (write_care room) ss d) = db_messages d"
  "db_rooms (fold (write_care room) ss d) = db_rooms d"
  by (induction ss arbitrary: d) simp_all

lemma write_wait_messages [simp]:
  "db_messages (write_wait w d) = db_messages d" "db_rooms (write_wait w d) = db_rooms d"
  by (simp_all add: write_wait_def)

lemma resolve_cycle_id_messages [simp]:
  "db_messages (resolve_cycle_id room at i d) = db_messages d"
  "db_rooms (resolve_cycle_id room at i d) = db_rooms d"
  by (simp_all add: resolve_cycle_id_def ack_rows_def resolve_rows_def delete_mark_def split: option.split)

lemma fold_resolve_cycle_id_messages [simp]:
  "db_messages (fold (resolve_cycle_id room at) ids d) = db_messages d"
  "db_rooms (fold (resolve_cycle_id room at) ids d) = db_rooms d"
  by (induction ids arbitrary: d) simp_all

lemma db_resolve_wait_attentions_messages [simp]:
  "db_messages (db_resolve_wait_attentions room waiter at d) = db_messages d"
  "db_rooms (db_resolve_wait_attentions room waiter at d) = db_rooms d"
  by (simp_all add: db_resolve_wait_attentions_def ack_rows_def resolve_rows_def Let_def)

definition new_operation :: "message \<Rightarrow> (string \<times> string) option \<Rightarrow> db \<Rightarrow> bool" where
  "new_operation m operation d = (\<forall>p i. operation = Some (p, i) \<longrightarrow>
     (\<forall>r \<in> set (hm_values (db_messages d)). \<not> operation_row (m_room m) p i r))"

lemma insert_core_okD:
  assumes "insert_core m operation d = Inr d'"
  shows "db_messages d' = hm_insert (m_id m) (message_to_row m operation) (db_messages d)
     \<and> db_rooms d' = db_rooms d \<and> hm_get (db_messages d) (m_id m) = None
     \<and> new_operation m operation d"
  using assms
  by (auto simp: insert_core_def new_operation_def insert_message_row_def reset_silence_care_def hm_contains_def
      split: sum.splits if_splits dest!: write_attachment_refs_frame)

lemma write_room_state_okD:
  assumes "write_room_state room mode settings d = Inr d'"
  shows "\<not> db_sealed d room \<and> db_messages d' = db_messages d
     \<and> hm_get (db_rooms d') room = Some \<lparr> rr_mode = mode, rr_settings = settings, rr_sealed_at = None \<rparr>"
  using assms by (auto simp: write_room_state_def split: if_splits)

lemma insert_message_txn_okD:
  assumes "insert_message_txn m rs operation after d = Inr ((), d')"
    and "\<And>d. db_messages (after d) = db_messages d" and "\<And>d. db_rooms (after d) = db_rooms d"
  shows "db_messages d' = hm_insert (m_id m) (message_to_row m operation) (db_messages d)"
    and "\<not> db_sealed d (m_room m)" and "hm_get (db_messages d) (m_id m) = None"
    and "new_operation m operation d"
    and "rs = Some (mode, st) \<Longrightarrow> hm_get (db_rooms d') (m_room m)
       = Some \<lparr> rr_mode = mode, rr_settings = st, rr_sealed_at = None \<rparr>"
  using assms
  by (auto simp: insert_message_txn_def require_unsealed_room_def write_optional_state_def
      split: sum.splits if_splits option.splits prod.splits
      dest!: insert_core_okD write_room_state_okD simp: new_operation_def)

text \<open>Whatever the message implied, an accepted message is in the archive of an open room.\<close>

lemma persist_post_okD:
  assumes "persist_post room m operation rs summons wake now home s = (Inr u, s')"
    and "sto_conn s = Some d"
  shows "\<exists>d'. sto_conn s' = Some d'
     \<and> db_messages d' = hm_insert (m_id m) (message_to_row m operation) (db_messages d)
     \<and> \<not> db_sealed d (m_room m) \<and> hm_get (db_messages d) (m_id m) = None \<and> new_operation m operation d"
proof -
  have plain: "\<exists>d'. sto_conn s' = Some d'
     \<and> db_messages d' = hm_insert (m_id m) (message_to_row m operation) (db_messages d)
     \<and> \<not> db_sealed d (m_room m) \<and> hm_get (db_messages d) (m_id m) = None \<and> new_operation m operation d"
    if "run_txn () (insert_message_txn m rs' operation after) s = (Inr u, s')"
      "\<And>d. db_messages (after d) = db_messages d" "\<And>d. db_rooms (after d) = db_rooms d" for rs' after
    using run_txn_okD [OF that(1) assms(2)] insert_message_txn_okD [OF _ that(2,3)] by auto
  show ?thesis
  proof (cases wake)
    case (Some uw)
    then show ?thesis using assms(1) plain
      by (cases uw) (auto simp: persist_post_def insert_message_with_wait_wake_def)
  next
    case None
    show ?thesis
    proof (cases "summons = []")
      case False
      then show ?thesis using assms(1) None plain by (auto simp: persist_post_def insert_message_with_care_def)
    next
      case empty: True
      show ?thesis
      proof (cases rs)
        case rsn: None
        then show ?thesis using assms(1) None empty plain by (auto simp: persist_post_def insert_message_def)
      next
        case (Some ms)
        obtain mode st where ms: "ms = (mode, st)" by force
        from assms None empty Some ms obtain d' where
          d': "(case write_room_state (m_room m) mode st d of Inl e \<Rightarrow> Err e
             | Inr d1 \<Rightarrow> (case insert_core m operation d1 of Inl e \<Rightarrow> Err e | Inr d2 \<Rightarrow> Ok ((), d2))) = Ok ((), d')"
          "sto_conn s' = Some d'"
          using run_txn_okD [of "()" _ s u s' d]
          by (fastforce simp: persist_post_def insert_message_with_room_def)
        then show ?thesis
          by (auto split: sum.splits dest!: insert_core_okD write_room_state_okD simp: new_operation_def)
      qed
    qed
  qed
qed

subsection \<open>What the room looks like afterwards\<close>

text \<open>Frames are only ever appended.\<close>

definition extends :: "room \<Rightarrow> room \<Rightarrow> bool" where
  "extends r r' = (\<exists>fs. r_tx r' = r_tx r @ fs)"

lemma extends_refl [simp]: "extends r r"
  by (simp add: extends_def)

lemma extends_trans [trans]: "extends r r' \<Longrightarrow> extends r' r'' \<Longrightarrow> extends r r''"
  by (auto simp: extends_def)

lemma extends_send [simp]: "extends r (send f r)"
  by (simp add: extends_def send_def)

lemma extends_same: "r_tx r' = r_tx r \<Longrightarrow> extends r r'"
  by (simp add: extends_def)

lemma extends_mem: "extends r r' \<Longrightarrow> f \<in> set (r_tx r) \<Longrightarrow> f \<in> set (r_tx r')"
  by (auto simp: extends_def)

lemma extends_fold: "(\<And>x r. extends r (f x r)) \<Longrightarrow> extends r (fold f xs r)"
  by (induction xs arbitrary: r) (auto intro: extends_trans)

lemma extends_resolve_one: "extends r (resolve_one at i r)"
  by (auto simp: resolve_one_def extends_def send_def split: option.split)

lemma extends_resolve_condition: "extends r (resolve_condition_attention room key at r)"
  by (simp add: resolve_condition_attention_def Let_def extends_fold extends_resolve_one)

lemma extends_resolve_wait_one: "extends r (resolve_wait_one room at i r)"
  by (auto simp: resolve_wait_one_def drop_cycle_mark_def extends_def send_def Let_def split: option.split)

lemma extends_resolve_wait: "extends r (resolve_wait_attentions room waiter at r)"
  by (simp add: resolve_wait_attentions_def extends_fold extends_resolve_wait_one)

lemma extends_show_attention: "extends r (show_attention a r)"
  by (simp add: show_attention_def extends_def send_def)

lemma extends_mirror_wake: "extends r (mirror_wake room now s wake r)"
proof (cases wake)
  case (Some us)
  obtain u sig where us: "us = (u, sig)" by force
  let ?r1 = "resolve_wait_attentions room (w_waiter u) now (r\<lparr>r_waits := hm_insert (w_waiter u) u (r_waits r)\<rparr>)"
  have "extends r (r\<lparr>r_waits := hm_insert (w_waiter u) u (r_waits r)\<rparr>)" by (rule extends_same) simp
  then have "extends r ?r1" using extends_resolve_wait extends_trans by blast
  then show ?thesis by (auto simp: mirror_wake_def Some us Let_def extends_def send_def)
qed (simp add: mirror_wake_def)

lemma mirror_wake_fields [simp]:
  "r_history (mirror_wake room now s wake r) = r_history r" "r_mode (mirror_wake room now s wake r) = r_mode r"
  "r_settings (mirror_wake room now s wake r) = r_settings r"
  "r_members (mirror_wake room now s wake r) = r_members r"
  "r_operations (mirror_wake room now s wake r) = r_operations r"
  "r_operation_order (mirror_wake room now s wake r) = r_operation_order r"
  "r_post_times (mirror_wake room now s wake r) = r_post_times r"
  "r_last_msg_ms (mirror_wake room now s wake r) = r_last_msg_ms r"
  "r_tasks (mirror_wake room now s wake r) = r_tasks r" "r_goals (mirror_wake room now s wake r) = r_goals r"
  "r_next_task_id (mirror_wake room now s wake r) = r_next_task_id r"
  "r_next_goal_id (mirror_wake room now s wake r) = r_next_goal_id r"
  "r_muted (mirror_wake room now s wake r) = r_muted r" "r_banned (mirror_wake room now s wake r) = r_banned r"
  by (simp_all add: mirror_wake_def Let_def split: option.split prod.split)

lemma mirror_wake_waits:
  "r_waits (mirror_wake room now s wake r) = (case wake of None \<Rightarrow> r_waits r
     | Some (u, _) \<Rightarrow> hm_insert (w_waiter u) u (r_waits r))"
  by (simp add: mirror_wake_def Let_def split: option.split prod.split)

lemma show_attention_fields [simp]:
  "r_history (show_attention a r) = r_history r" "r_mode (show_attention a r) = r_mode r"
  "r_settings (show_attention a r) = r_settings r" "r_members (show_attention a r) = r_members r"
  "r_operations (show_attention a r) = r_operations r"
  "r_operation_order (show_attention a r) = r_operation_order r"
  "r_post_times (show_attention a r) = r_post_times r"
  "r_last_msg_ms (show_attention a r) = r_last_msg_ms r"
  "r_tasks (show_attention a r) = r_tasks r" "r_goals (show_attention a r) = r_goals r"
  "r_next_task_id (show_attention a r) = r_next_task_id r"
  "r_next_goal_id (show_attention a r) = r_next_goal_id r"
  "r_waits (show_attention a r) = r_waits r"
  "r_muted (show_attention a r) = r_muted r" "r_banned (show_attention a r) = r_banned r"
  by (simp_all add: show_attention_def send_def)

lemma fold_show_attention_fields [simp]:
  fixes f :: "care_signal \<Rightarrow> attention"
  shows "r_history (fold (\<lambda>x. show_attention (f x)) xs r) = r_history r"
    "r_mode (fold (\<lambda>x. show_attention (f x)) xs r) = r_mode r"
    "r_settings (fold (\<lambda>x. show_attention (f x)) xs r) = r_settings r"
    "r_members (fold (\<lambda>x. show_attention (f x)) xs r) = r_members r"
    "r_operations (fold (\<lambda>x. show_attention (f x)) xs r) = r_operations r"
    "r_operation_order (fold (\<lambda>x. show_attention (f x)) xs r) = r_operation_order r"
    "r_post_times (fold (\<lambda>x. show_attention (f x)) xs r) = r_post_times r"
    "r_last_msg_ms (fold (\<lambda>x. show_attention (f x)) xs r) = r_last_msg_ms r"
    "r_tasks (fold (\<lambda>x. show_attention (f x)) xs r) = r_tasks r"
    "r_goals (fold (\<lambda>x. show_attention (f x)) xs r) = r_goals r"
    "r_next_task_id (fold (\<lambda>x. show_attention (f x)) xs r) = r_next_task_id r"
    "r_next_goal_id (fold (\<lambda>x. show_attention (f x)) xs r) = r_next_goal_id r"
    "r_waits (fold (\<lambda>x. show_attention (f x)) xs r) = r_waits r"
    "r_muted (fold (\<lambda>x. show_attention (f x)) xs r) = r_muted r"
    "r_banned (fold (\<lambda>x. show_attention (f x)) xs r) = r_banned r"
  by (induction xs arbitrary: r) simp_all

lemma push_history_fields [simp]:
  "r_history (push_history m r) = drop (Suc (length (r_history r)) - HISTORY_LIMIT) (r_history r @ [m])"
  "r_mode (push_history m r) = r_mode r" "r_settings (push_history m r) = r_settings r"
  "r_members (push_history m r) = r_members r" "r_operations (push_history m r) = r_operations r"
  "r_operation_order (push_history m r) = r_operation_order r" "r_tx (push_history m r) = r_tx r"
  "r_post_times (push_history m r) = r_post_times r" "r_last_msg_ms (push_history m r) = r_last_msg_ms r"
  "r_tasks (push_history m r) = r_tasks r" "r_goals (push_history m r) = r_goals r"
  "r_next_task_id (push_history m r) = r_next_task_id r" "r_next_goal_id (push_history m r) = r_next_goal_id r"
  "r_waits (push_history m r) = r_waits r" "r_muted (push_history m r) = r_muted r"
  "r_banned (push_history m r) = r_banned r"
  by (simp_all add: push_history_def Let_def)

lemma remember_operation_fields [simp]:
  "r_history (remember_operation op m r) = r_history r" "r_mode (remember_operation op m r) = r_mode r"
  "r_settings (remember_operation op m r) = r_settings r" "r_members (remember_operation op m r) = r_members r"
  "r_tx (remember_operation op m r) = r_tx r" "r_post_times (remember_operation op m r) = r_post_times r"
  "r_last_msg_ms (remember_operation op m r) = r_last_msg_ms r" "r_tasks (remember_operation op m r) = r_tasks r"
  "r_goals (remember_operation op m r) = r_goals r" "r_waits (remember_operation op m r) = r_waits r"
  "r_next_task_id (remember_operation op m r) = r_next_task_id r"
  "r_next_goal_id (remember_operation op m r) = r_next_goal_id r"
  "r_care_marks (remember_operation op m r) = r_care_marks r"
  "r_muted (remember_operation op m r) = r_muted r" "r_banned (remember_operation op m r) = r_banned r"
  by (simp_all add: remember_operation_def Let_def split: option.split)

lemma mirror_message_fields [simp]:
  "r_history (mirror_message room m op pt rated now r)
     = drop (Suc (length (r_history r)) - HISTORY_LIMIT) (r_history r @ [m])"
  "r_mode (mirror_message room m op pt rated now r) = r_mode r"
  "r_settings (mirror_message room m op pt rated now r) = r_settings r"
  "r_members (mirror_message room m op pt rated now r) = r_members r"
  "r_last_msg_ms (mirror_message room m op pt rated now r) = m_ts m"
  "r_tasks (mirror_message room m op pt rated now r) = r_tasks r"
  "r_goals (mirror_message room m op pt rated now r) = r_goals r"
  "r_next_task_id (mirror_message room m op pt rated now r) = r_next_task_id r"
  "r_next_goal_id (mirror_message room m op pt rated now r) = r_next_goal_id r"
  "r_waits (mirror_message room m op pt rated now r) = r_waits r"
  "r_muted (mirror_message room m op pt rated now r) = r_muted r"
  "r_banned (mirror_message room m op pt rated now r) = r_banned r"
  by (simp_all add: mirror_message_def Let_def)

lemma mirror_message_operations [simp]:
  "r_operations (mirror_message room m op pt rated now r) = r_operations (remember_operation op m r)"
  "r_operation_order (mirror_message room m op pt rated now r) = r_operation_order (remember_operation op m r)"
  by (simp_all add: mirror_message_def remember_operation_def Let_def split: option.split)

lemma mirror_message_post_times [simp]:
  "r_post_times (mirror_message room m op pt rated now r) = (if rated
     then hm_insert (m_sender m) ((case hm_get (r_post_times r) (m_sender m) of None \<Rightarrow> [] | Some ts \<Rightarrow> ts) @ [now])
       (r_post_times r) else r_post_times r)"
  by (simp add: mirror_message_def Let_def)

lemma extends_mirror_message:
  "extends r (mirror_message room m op pt rated now r)"
  "FMsg m \<in> set (r_tx (mirror_message room m op pt rated now r))"
proof -
  define r1 where "r1 = (if rated then r\<lparr>r_post_times := hm_insert (m_sender m)
      ((case hm_get (r_post_times r) (m_sender m) of None \<Rightarrow> [] | Some ts \<Rightarrow> ts) @ [now]) (r_post_times r)\<rparr> else r)"
  define r3 where "r3 = (let r2 = remember_operation op m r1 in if pt \<noteq> None then send (FMode (r_mode r2)) r2 else r2)"
  define r4 where "r4 = resolve_condition_attention room ''silence'' (m_ts m)
      (r3\<lparr>r_care_marks := hm_remove ''silence'' (r_care_marks r3)\<rparr>)"
  have "extends r r3" by (auto simp: r3_def r1_def extends_def send_def Let_def)
  also have "extends r3 (r3\<lparr>r_care_marks := hm_remove ''silence'' (r_care_marks r3)\<rparr>)"
    by (rule extends_same) simp
  also have "extends \<dots> r4" unfolding r4_def by (rule extends_resolve_condition)
  finally have "extends r r4" .
  moreover have mm: "mirror_message room m op pt rated now r = send (FMsg m) (push_history m (r4\<lparr>r_last_msg_ms := m_ts m\<rparr>))"
    by (simp add: mirror_message_def r4_def r3_def r1_def Let_def)
  ultimately show "extends r (mirror_message room m op pt rated now r)"
    by (auto simp: extends_def send_def)
  show "FMsg m \<in> set (r_tx (mirror_message room m op pt rated now r))"
    by (simp add: mm send_def)
qed

definition posted_room ::
  "string \<Rightarrow> message \<Rightarrow> (string \<times> string) option \<Rightarrow> usize option \<Rightarrow> bool \<Rightarrow> care_signal list \<Rightarrow>
     (wait_state \<times> care_signal) option \<Rightarrow> u64 \<Rightarrow> store \<Rightarrow> room \<Rightarrow> room" where
  "posted_room room m operation previous_turn rated summons wake now s r =
     mirror_wake room now s wake (fold (\<lambda>sig. show_attention (signal_attention s sig)) summons
       (mirror_message room m operation previous_turn rated now r))"

lemma mirror_post_frame:
  "h_store (mirror_post room m op pt rated summons wake now r h) = h_store h"
  "h_next_id (mirror_post room m op pt rated summons wake now r h) = h_next_id h"
  "h_deleted (mirror_post room m op pt rated summons wake now r h) = h_deleted h"
  "h_home_room (mirror_post room m op pt rated summons wake now r h) = h_home_room h"
  "h_default_settings (mirror_post room m op pt rated summons wake now r h) = h_default_settings h"
  "h_members (mirror_post room m op pt rated summons wake now r h) = h_members h"
  "h_invites (mirror_post room m op pt rated summons wake now r h) = h_invites h"
  by (simp_all add: mirror_post_def relay_home_def record_deliveries_def Let_def split: option.split)

lemma mirror_post_get:
  assumes "summons = [] \<or> room \<noteq> h_home_room h"
  shows "get_room (mirror_post room m op pt rated summons wake now r h) n
     = (if n = room then Some (posted_room room m op pt rated summons wake now (h_store h) r)
        else if n = h_home_room h then map_option (fold (\<lambda>s. send (FCare s)) summons) (get_room h n)
        else get_room h n)"
proof -
  have rd: "get_room (record_deliveries x h0) k = get_room h0 k" "h_home_room (record_deliveries x h0) = h_home_room h0"
    for x h0 k by (simp_all add: record_deliveries_def get_room_def)
  show ?thesis using assms
    by (auto simp: mirror_post_def relay_home_def posted_room_def rd Let_def option.map_id0 split: option.split)
qed

lemma fold_send: "fold (\<lambda>s. send (FCare s)) sigs r = r\<lparr>r_tx := r_tx r @ map FCare sigs\<rparr>"
  by (induction sigs arbitrary: r) (simp_all add: send_def)

text \<open>Another room changes only when it is the home of the caretakers: it hears the summons.\<close>

definition heard :: "hub \<Rightarrow> string \<Rightarrow> care_signal list \<Rightarrow> room \<Rightarrow> room" where
  "heard h n summons r = r\<lparr>r_tx := r_tx r @ (if n = h_home_room h then map FCare summons else [])\<rparr>"

lemma heard_cong: "h_home_room h' = h_home_room h \<Longrightarrow> heard h' n summons = heard h n summons"
  by (simp add: heard_def fun_eq_iff)

lemma mirror_post_other:
  assumes "summons = [] \<or> room \<noteq> h_home_room h" and "n \<noteq> room"
  shows "get_room (mirror_post room m op pt rated summons wake now r h) n
     = map_option (heard h n summons) (get_room h n)"
  using assms by (cases "get_room h n") (auto simp: mirror_post_get fold_send heard_def)

lemma posted_room_fields:
  "r_history (posted_room room m op pt rated summons wake now s r)
     = drop (Suc (length (r_history r)) - HISTORY_LIMIT) (r_history r @ [m])"
  "r_mode (posted_room room m op pt rated summons wake now s r) = r_mode r"
  "r_settings (posted_room room m op pt rated summons wake now s r) = r_settings r"
  "r_members (posted_room room m op pt rated summons wake now s r) = r_members r"
  "r_operations (posted_room room m op pt rated summons wake now s r) = r_operations (remember_operation op m r)"
  "r_operation_order (posted_room room m op pt rated summons wake now s r)
     = r_operation_order (remember_operation op m r)"
  "r_last_msg_ms (posted_room room m op pt rated summons wake now s r) = m_ts m"
  "r_tasks (posted_room room m op pt rated summons wake now s r) = r_tasks r"
  "r_goals (posted_room room m op pt rated summons wake now s r) = r_goals r"
  "r_next_task_id (posted_room room m op pt rated summons wake now s r) = r_next_task_id r"
  "r_next_goal_id (posted_room room m op pt rated summons wake now s r) = r_next_goal_id r"
  "r_waits (posted_room room m op pt rated summons wake now s r) = (case wake of None \<Rightarrow> r_waits r
     | Some (u, _) \<Rightarrow> hm_insert (w_waiter u) u (r_waits r))"
  "r_post_times (posted_room room m op pt rated summons wake now s r) = (if rated
     then hm_insert (m_sender m) ((case hm_get (r_post_times r) (m_sender m) of None \<Rightarrow> [] | Some ts \<Rightarrow> ts) @ [now])
       (r_post_times r) else r_post_times r)"
  by (simp_all add: posted_room_def mirror_wake_waits split: option.split)

lemma posted_room_frames:
  "extends r (posted_room room m op pt rated summons wake now s r)"
  "FMsg m \<in> set (r_tx (posted_room room m op pt rated summons wake now s r))"
proof -
  let ?r1 = "mirror_message room m op pt rated now r"
  have "extends ?r1 (fold (\<lambda>sig. show_attention (signal_attention s sig)) summons ?r1)"
    by (intro extends_fold extends_show_attention)
  also have "extends \<dots> (posted_room room m op pt rated summons wake now s r)"
    unfolding posted_room_def by (rule extends_mirror_wake)
  finally have e: "extends ?r1 (posted_room room m op pt rated summons wake now s r)" .
  show "extends r (posted_room room m op pt rated summons wake now s r)"
    using extends_mirror_message(1) e extends_trans by blast
  show "FMsg m \<in> set (r_tx (posted_room room m op pt rated summons wake now s r))"
    using extends_mem [OF e extends_mirror_message(2)] .
qed

lemma wait_wake_cong:
  assumes "h_condition_generation h' = h_condition_generation h" "h_rng h' = h_rng h"
  shows "fst (wait_wake room m summons now r h') = fst (wait_wake room m summons now r h)"
  using assms
  by (auto simp: wait_wake_def next_condition_generation_def secure_token_def Let_def split: option.split)

lemma caretaker_summons_cong:
  "h_caretakers h' = h_caretakers h \<Longrightarrow> h_home_room h' = h_home_room h \<Longrightarrow>
     caretaker_summons h' room m now = caretaker_summons h room m now"
  by (simp add: caretaker_summons_def addressed_caretakers_cong [of h' h])

text \<open>A success, by where the message came from.\<close>

lemma accept_post_okD:
  assumes "accept_post room body atts operation rts is_admin now r h = (Ok m, h')"
  obtains ts summons wake prev mode where
    "ts = fst (next_condition_generation now (r_last_msg_ms r) h)"
    and "m = post_message_of room body atts rts (h_next_id h) ts"
    and "advance_turn (r_mode r) (pm_sender body) = (prev, mode)"
    and "summons = caretaker_summons h room m now"
    and "wake = fst (wait_wake room m summons now r (accept_state ts h))"
    and "persist_post room m operation (if prev = None then None else Some (mode, r_settings r))
           summons wake now (h_home_room h) (h_store h) = (Inr (), h_store h')"
    and "h_next_id h' = u64_add (h_next_id h) 1"
    and "get_room h' room = Some (posted_room room m operation prev (record_rate is_admin r)
         summons wake now (h_store h') (r\<lparr>r_mode := mode\<rparr>))"
    and "\<And>n. n \<noteq> room \<Longrightarrow> get_room h' n = map_option (heard h n summons) (get_room h n)"
    and "h_deleted h' = h_deleted h" "h_home_room h' = h_home_room h"
  using assms
proof (rule accept_post_cases)
  fix ts m' summons wake h3 prev mode s ok
  assume gen: "next_condition_generation now (r_last_msg_ms r) h = (ts, h\<lparr>h_condition_generation := ts\<rparr>)"
    and m: "m' = post_message_of room body atts rts (h_next_id h) ts"
    and sm: "summons = caretaker_summons h room m' now"
    and wk: "wait_wake room m' summons now r (accept_state ts h) = (wake, h3)"
    and tn: "advance_turn (r_mode r) (pm_sender body) = (prev, mode)"
    and ps: "persist_post room m' operation (if prev = None then None else Some (mode, r_settings r))
           summons wake now (h_home_room h) (h_store h) = (ok, s)"
    and fin: "case ok of Inl _ \<Rightarrow> h' = h3\<lparr>h_store := s\<rparr> \<and> Ok m = (if atts \<noteq> []
             \<and> (\<exists>a \<in> set atts. resolve_room_attachment s room (at_id a) = None)
             then Err PostUnknownAttachment else Err PostStorage)
         | Inr _ \<Rightarrow> Ok m = Ok m' \<and> h' = mirror_post room m' operation prev (record_rate is_admin r) summons wake now
             (r\<lparr>r_mode := mode\<rparr>) (h3\<lparr>h_store := s\<rparr>)"
  from fin have ok: "ok = Inr ()" and mm: "m' = m"
    and h': "h' = mirror_post room m operation prev (record_rate is_admin r) summons wake now
             (r\<lparr>r_mode := mode\<rparr>) (h3\<lparr>h_store := s\<rparr>)"
    by (auto split: sum.splits if_splits)
  have s: "h_store h' = s" by (simp add: h' mirror_post_frame)
  have home: "summons = [] \<or> room \<noteq> h_home_room (h3\<lparr>h_store := s\<rparr>)"
    using sm wait_wake_frame(3) [OF wk] by (auto simp: caretaker_summons_def accept_state_def)
  show thesis
  proof (rule that)
    show "ts = fst (next_condition_generation now (r_last_msg_ms r) h)" by (simp add: gen)
    show "m = post_message_of room body atts rts (h_next_id h) ts" using m mm by simp
    show "advance_turn (r_mode r) (pm_sender body) = (prev, mode)" by (rule tn)
    show "summons = caretaker_summons h room m now" using sm mm by simp
    show "wake = fst (wait_wake room m summons now r (accept_state ts h))" using wk mm by simp
    show "persist_post room m operation (if prev = None then None else Some (mode, r_settings r))
           summons wake now (h_home_room h) (h_store h) = (Inr (), h_store h')" using ps ok mm s by simp
    show "h_next_id h' = u64_add (h_next_id h) 1"
      using wait_wake_frame(5) [OF wk] by (simp add: h' mirror_post_frame accept_state_def)
    show "get_room h' room = Some (posted_room room m operation prev (record_rate is_admin r)
         summons wake now (h_store h') (r\<lparr>r_mode := mode\<rparr>))"
      unfolding s unfolding h' by (simp add: mirror_post_get [OF home])
    show "get_room h' n = map_option (heard h n summons) (get_room h n)" if "n \<noteq> room" for n
      using mirror_post_other [OF home that] wait_wake_frame(1,3) [OF wk]
      heard_cong [of "h3\<lparr>h_store := s\<rparr>" h n summons]
      by (simp add: h' get_room_def accept_state_def)
    show "h_deleted h' = h_deleted h" "h_home_room h' = h_home_room h"
      using wait_wake_frame(3,7) [OF wk] by (simp_all add: h' mirror_post_frame accept_state_def)
  qed
qed

definition fresh_post ::
  "string \<Rightarrow> post_message \<Rightarrow> bool \<Rightarrow> string \<Rightarrow> u64 \<Rightarrow> hub \<Rightarrow> message \<Rightarrow> hub \<Rightarrow> bool" where
  "fresh_post room body is_admin prin now h m h' =
     (\<exists>atts rts r1 ts summons wake prev mode. \<not> is_deleted h room
       \<and> post_gate (room_mut room h) (pm_sender body) is_admin now = (None, r1)
       \<and> ts = fst (next_condition_generation now (r_last_msg_ms r1) h)
       \<and> m = post_message_of room body atts rts (h_next_id h) ts
       \<and> advance_turn (r_mode r1) (pm_sender body) = (prev, mode)
       \<and> summons = caretaker_summons h room m now
       \<and> wake = fst (wait_wake room m summons now r1 (accept_state ts h))
       \<and> (\<exists>s. sto_conn s = sto_conn (h_store h) \<and>
            persist_post room m (operation_of body prin) (if prev = None then None else Some (mode, r_settings r1))
              summons wake now (h_home_room h) s = (Inr (), h_store h'))
       \<and> h_next_id h' = u64_add (h_next_id h) 1
       \<and> get_room h' room = Some (posted_room room m (operation_of body prin) prev (record_rate is_admin r1)
            summons wake now (h_store h') (r1\<lparr>r_mode := mode\<rparr>))
       \<and> (\<forall>n. n \<noteq> room \<longrightarrow> get_room h' n = map_option (heard h n summons) (get_room h n))
       \<and> h_deleted h' = h_deleted h \<and> h_home_room h' = h_home_room h)"

lemma post_ok_cases:
  assumes "post room body is_admin prin now h = (Ok m, h')"
  obtains (stored) s i d where "h' = h\<lparr>h_store := s\<rparr>" "sto_conn s = sto_conn (h_store h)"
      "operation_of body prin = Some (prin, i)" "sto_conn (h_store h) = Some d"
      "map_option (\<lambda>(i, r). row_to_message room i r)
         (find (\<lambda>(_, r). operation_row room prin i r) (db_messages d)) = Some m"
  | (remembered) s key where "operation_of body prin = Some key" "sto_conn s = sto_conn (h_store h)"
      "hm_get (r_operations (room_mut room h)) key = Some m"
      "h' = put_room room (room_mut room h) (h\<lparr>h_store := s\<rparr>)"
  | (fresh) "fresh_post room body is_admin prin now h m h'"
  using assms
proof (cases rule: post_cases)
  case (early s)
  then show thesis using stored by (auto split: option.splits)
next
  case (main s atts)
  have mut: "room_mut room (h\<lparr>h_store := s\<rparr>) = room_mut room h"
    by (auto simp: room_mut_def split: option.split)
  from main(4) show thesis
  proof (cases rule: post_locked_cases)
    case (replay m' key)
    then show thesis using remembered [of key s] mut main(2) by simp
  next
    case (accept rts r1 s')
    let ?h = "put_room room r1 (h\<lparr>h_store := s\<rparr>\<lparr>h_store := s'\<rparr>)"
    have c: "h_condition_generation ?h = h_condition_generation h" "h_next_id ?h = h_next_id h"
      "h_caretakers ?h = h_caretakers h" "h_home_room ?h = h_home_room h" "h_store ?h = s'" "h_rng ?h = h_rng h"
      by simp_all
    have gen: "fst (next_condition_generation now p ?h) = fst (next_condition_generation now p h)" for p
      by (simp add: next_condition_generation_def Let_def)
    have sums: "caretaker_summons ?h room mm now = caretaker_summons h room mm now" for mm
      by (rule caretaker_summons_cong) simp_all
    have wakes: "fst (wait_wake room mm ss now r1 (accept_state ts ?h))
        = fst (wait_wake room mm ss now r1 (accept_state ts h))" for mm ss ts
      by (rule wait_wake_cong) (simp_all add: accept_state_def)
    from accept(4) have "fresh_post room body is_admin prin now h m h'"
    proof (rule accept_post_okD)
      fix ts summons wake prev mode
      assume a: "ts = fst (next_condition_generation now (r_last_msg_ms r1) ?h)"
        "m = post_message_of room body atts rts (h_next_id ?h) ts"
        "advance_turn (r_mode r1) (pm_sender body) = (prev, mode)"
        "summons = caretaker_summons ?h room m now"
        "wake = fst (wait_wake room m summons now r1 (accept_state ts ?h))"
        "persist_post room m (operation_of body prin) (if prev = None then None else Some (mode, r_settings r1))
           summons wake now (h_home_room ?h) (h_store ?h) = (Inr (), h_store h')"
        "h_next_id h' = u64_add (h_next_id ?h) 1"
        "get_room h' room = Some (posted_room room m (operation_of body prin) prev (record_rate is_admin r1)
         summons wake now (h_store h') (r1\<lparr>r_mode := mode\<rparr>))"
        "\<And>n. n \<noteq> room \<Longrightarrow> get_room h' n = map_option (heard ?h n summons) (get_room ?h n)"
        "h_deleted h' = h_deleted ?h" "h_home_room h' = h_home_room ?h"
      have ot: "get_room h' n = map_option (heard h n summons) (get_room h n)" if "n \<noteq> room" for n
        using a(9) [OF that] that heard_cong [of ?h h n summons] by (simp add: get_room_def put_room_def)
      have s': "sto_conn s' = sto_conn (h_store h)" using accept(2) main(2) by simp
      show ?thesis
        unfolding fresh_post_def
        by (rule exI [of _ atts], rule exI [of _ rts], rule exI [of _ r1], rule exI [of _ ts],
            rule exI [of _ summons], rule exI [of _ wake], rule exI [of _ prev], rule exI [of _ mode])
          (use a(1-8,10-) ot main(1) accept(1) mut s' gen sums wakes c in auto)
    qed
    then show thesis by (rule fresh)
  qed simp
qed


end
