(* ===== verification/Post_Laws.thy ===== *)
theory Post_Laws
  imports Post
begin

text \<open>
  What \<open>post\<close> guarantees: the archive holds every accepted message under its
  operation key, so a retry returns the first message and posts nothing; the
  sliding-window rate limit bounds the accepted posts of any window; the
  round-robin turn moves exactly when the speaker whose turn it is posts.
\<close>

subsection \<open>The archive\<close>

lemma sender_type_roundtrip [simp]: "parse_sender_type (sender_type_str t) = t"
  by (cases t) (simp_all add: parse_sender_type_def sender_type_str_def)

lemma kind_roundtrip [simp]: "parse_kind (kind_str k) = k"
  by (cases k) (simp_all add: parse_kind_def kind_str_def)

lemma attachments_roundtrip [simp]: "attachments_from_json (attachments_to_json a) = a"
  by (simp add: attachments_from_json_def attachments_to_json_def)

lemma row_to_message_of_row [simp]:
  "row_to_message (m_room m) (m_id m) (message_to_row m operation) = m\<lparr>m_reply_to_sender := None\<rparr>"
  by (simp add: row_to_message_def message_to_row_def)

definition op_archived :: "db \<Rightarrow> string \<Rightarrow> string \<times> string \<Rightarrow> message \<Rightarrow> bool" where
  "op_archived d room key m = (\<exists>row. hm_get (db_messages d) (m_id m) = Some row
     \<and> operation_row room (fst key) (snd key) row
     \<and> row_to_message room (m_id m) row = m\<lparr>m_reply_to_sender := None\<rparr>)"

definition ops_unique :: "db \<Rightarrow> bool" where
  "ops_unique d = (\<forall>i j r r' room p k. hm_get (db_messages d) i = Some r \<longrightarrow> hm_get (db_messages d) j = Some r'
     \<longrightarrow> operation_row room p k r \<longrightarrow> operation_row room p k r' \<longrightarrow> i = j)"

definition archive_inv :: "hub \<Rightarrow> bool" where
  "archive_inv h = (\<forall>d. sto_conn (h_store h) = Some d \<longrightarrow> hm_ok (db_messages d) \<and> ops_unique d
     \<and> (\<forall>room r key m. get_room h room = Some r \<longrightarrow> hm_get (r_operations r) key = Some m
          \<longrightarrow> op_archived d room key m))"

lemma find_operation:
  assumes "hm_ok (db_messages d)" "ops_unique d" "op_archived d room (p, k) m"
  shows "map_option (\<lambda>(i, r). row_to_message room i r) (find (\<lambda>(_, r). operation_row room p k r) (db_messages d))
     = Some (m\<lparr>m_reply_to_sender := None\<rparr>)"
proof -
  from assms(3) obtain row where row: "hm_get (db_messages d) (m_id m) = Some row"
    "operation_row room p k row" "row_to_message room (m_id m) row = m\<lparr>m_reply_to_sender := None\<rparr>"
    by (auto simp: op_archived_def)
  then have "(m_id m, row) \<in> set (db_messages d)" using hm_entry_iff [OF assms(1)] by simp
  then obtain i r where f: "find (\<lambda>(_, r). operation_row room p k r) (db_messages d) = Some (i, r)"
    using row(2) by (cases "find (\<lambda>(_, r). operation_row room p k r) (db_messages d)")
      (auto simp: find_None_iff)
  then have "(i, r) \<in> set (db_messages d)" "operation_row room p k r"
    by (auto simp: find_Some_iff) (metis nth_mem)
  then have "i = m_id m" "r = row"
    using assms(1,2) row unfolding ops_unique_def by (metis hm_entry_iff option.inject)+
  then show ?thesis using f row by simp
qed

lemma fold_hm_remove_get:
  "hm_get (fold hm_remove ks m) k = (if k \<in> set ks then None else hm_get m k)"
  by (induction ks arbitrary: m) auto

lemma remember_operation_get:
  "hm_get (r_operations (remember_operation operation m r)) key = Some m' \<Longrightarrow>
     operation = Some key \<and> m' = m \<or> hm_get (r_operations r) key = Some m'"
  by (auto simp: remember_operation_def Let_def fold_hm_remove_get split: option.splits if_splits)

lemma op_archived_insert:
  assumes "op_archived d room key m'" and "hm_get (db_messages d) (m_id m) = None"
    and "db_messages d' = hm_insert (m_id m) row (db_messages d)"
  shows "op_archived d' room key m'"
  using assms by (auto simp: op_archived_def)

lemma fresh_postE:
  assumes "fresh_post room body is_admin prin now h m h'"
  obtains atts rts r1 ts summons wake prev mode s pt where "\<not> is_deleted h room"
    and "post_gate (room_mut room h) (pm_sender body) is_admin now = (None, r1)"
    and "r1 = (room_mut room h)\<lparr>r_post_times := pt\<rparr>"
    and "ts = fst (next_condition_generation now (r_last_msg_ms r1) h)"
    and "m = post_message_of room body atts rts (h_next_id h) ts"
    and "advance_turn (r_mode r1) (pm_sender body) = (prev, mode)"
    and "summons = caretaker_summons h room m now"
    and "wake = fst (wait_wake room m summons now r1 (accept_state ts h))"
    and "sto_conn s = sto_conn (h_store h)"
    and "persist_post room m (operation_of body prin) (if prev = None then None else Some (mode, r_settings r1))
           summons wake now (h_home_room h) s = (Inr (), h_store h')"
    and "h_next_id h' = u64_add (h_next_id h) 1"
    and "get_room h' room = Some (posted_room room m (operation_of body prin) prev (record_rate is_admin r1)
           summons wake now (h_store h') (r1\<lparr>r_mode := mode\<rparr>))"
    and "\<And>n. n \<noteq> room \<Longrightarrow> get_room h' n = map_option (heard h n summons) (get_room h n)"
    and "h_deleted h' = h_deleted h" and "h_home_room h' = h_home_room h"
proof -
  from assms show thesis unfolding fresh_post_def
  proof (elim exE conjE)
    fix atts rts r1 ts summons wake prev mode s
    assume a: "\<not> is_deleted h room" and g: "post_gate (room_mut room h) (pm_sender body) is_admin now = (None, r1)"
      and b: "ts = fst (next_condition_generation now (r_last_msg_ms r1) h)"
        "m = post_message_of room body atts rts (h_next_id h) ts"
        "advance_turn (r_mode r1) (pm_sender body) = (prev, mode)"
        "summons = caretaker_summons h room m now"
        "wake = fst (wait_wake room m summons now r1 (accept_state ts h))"
        "sto_conn s = sto_conn (h_store h)"
        "persist_post room m (operation_of body prin) (if prev = None then None else Some (mode, r_settings r1))
           summons wake now (h_home_room h) s = (Inr (), h_store h')"
        "h_next_id h' = u64_add (h_next_id h) 1"
        "get_room h' room = Some (posted_room room m (operation_of body prin) prev (record_rate is_admin r1)
           summons wake now (h_store h') (r1\<lparr>r_mode := mode\<rparr>))"
      and o: "\<forall>n. n \<noteq> room \<longrightarrow> get_room h' n = map_option (heard h n summons) (get_room h n)"
      and c: "h_deleted h' = h_deleted h" "h_home_room h' = h_home_room h"
    from post_gate_room [OF g] obtain pt where pt: "r1 = (room_mut room h)\<lparr>r_post_times := pt\<rparr>" by blast
    show thesis by (rule that [OF a g pt b _ c]) (use o in blast)
  qed
qed

lemma fresh_postD:
  assumes "fresh_post room body is_admin prin now h m h'" and "sto_conn (h_store h) = Some d"
  obtains d' where "sto_conn (h_store h') = Some d'"
    and "db_messages d' = hm_insert (m_id m) (message_to_row m (operation_of body prin)) (db_messages d)"
    and "hm_get (db_messages d) (m_id m) = None" and "new_operation m (operation_of body prin) d"
    and "\<not> db_sealed d room" and "m_room m = room"
proof -
  from assms(1) obtain atts rts ts rs summons wake s where
    m: "m = post_message_of room body atts rts (h_next_id h) ts"
    and s: "sto_conn s = sto_conn (h_store h)"
    and p: "persist_post room m (operation_of body prin) rs summons wake now (h_home_room h) s = (Inr (), h_store h')"
    by (rule fresh_postE) (rule that, assumption+)
  have "m_room m = room" by (simp add: m post_message_of_def)
  with persist_post_okD [OF p, of d] s assms(2) that show thesis by auto
qed

lemma fresh_op_archived:
  assumes "fresh_post room body is_admin prin now h m h'" "sto_conn (h_store h) = Some d"
    "sto_conn (h_store h') = Some d'" "operation_of body prin = Some key"
  shows "op_archived d' room key m"
proof -
  from assms(1,2) obtain d1 where d1: "sto_conn (h_store h') = Some d1"
    "db_messages d1 = hm_insert (m_id m) (message_to_row m (operation_of body prin)) (db_messages d)"
    "m_room m = room" by (rule fresh_postD)
  then have "d1 = d'" using assms(3) by simp
  then show ?thesis using d1 assms(4) row_to_message_of_row [of m "Some key"]
    by (auto simp: op_archived_def operation_row_def message_to_row_def)
qed

lemma ops_unique_insert:
  assumes "ops_unique d" "new_operation m operation d" "hm_ok (db_messages d)"
    "db_messages d' = hm_insert (m_id m) (message_to_row m operation) (db_messages d)"
  shows "ops_unique d'"
proof -
  have new: "\<not> operation_row room p k r"
    if "operation_row room p k (message_to_row m operation)" "hm_get (db_messages d) i = Some r" for room p k i r
  proof -
    from that(1) have "operation = Some (p, k)" "m_room m = room"
      by (auto simp: operation_row_def message_to_row_def)
    then show ?thesis using assms(2) hm_values_get [OF that(2)] by (auto simp: new_operation_def)
  qed
  show ?thesis
    using assms(1) new unfolding ops_unique_def assms(4) by (auto split: if_splits)
qed

lemma archive_inv_op:
  assumes "archive_inv h" "sto_conn (h_store h) = Some d" "hm_get (r_operations (room_mut n h)) key = Some m"
  shows "op_archived d n key m"
proof (cases "get_room h n")
  case None
  then show ?thesis using assms(3) by (simp add: room_mut_def get_room_def room_with_def)
next
  case (Some r)
  then have "room_mut n h = r" by simp
  then show ?thesis using assms Some unfolding archive_inv_def by blast
qed

lemma archive_inv_same:
  assumes "archive_inv h" and "sto_conn (h_store h') = sto_conn (h_store h)"
    and "\<And>n r. get_room h' n = Some r \<Longrightarrow> r_operations r = r_operations (room_mut n h)"
  shows "archive_inv h'"
  unfolding archive_inv_def
proof (intro allI impI conjI)
  fix d assume "sto_conn (h_store h') = Some d"
  then have d: "sto_conn (h_store h) = Some d" using assms(2) by simp
  then show "hm_ok (db_messages d)" "ops_unique d" using assms(1) by (simp_all add: archive_inv_def)
  fix n r key m assume "get_room h' n = Some r" "hm_get (r_operations r) key = Some m"
  then show "op_archived d n key m" using archive_inv_op [OF assms(1) d] assms(3) by simp
qed

lemma quiet_operations:
  assumes q: "quiet room h h'" and g: "get_room h' n = Some r"
  shows "r_operations r = r_operations (room_mut n h)"
proof -
  have "get_room h' n = get_room h n
      \<or> (\<exists>pt. get_room h' n = Some ((room_mut n h)\<lparr>r_post_times := pt\<rparr>))"
  proof (cases "n = room")
    case True
    show ?thesis unfolding True using q unfolding quiet_def by (elim conjE)
  next
    case False
    then show ?thesis using q unfolding quiet_def by simp
  qed
  then show ?thesis
  proof
    assume "get_room h' n = get_room h n"
    then have "room_mut n h = r" using g by (simp add: room_mut_def get_room_def)
    then show ?thesis by simp
  next
    assume "\<exists>pt. get_room h' n = Some ((room_mut n h)\<lparr>r_post_times := pt\<rparr>)"
    then obtain pt where "get_room h' n = Some ((room_mut n h)\<lparr>r_post_times := pt\<rparr>)" ..
    then have "(room_mut n h)\<lparr>r_post_times := pt\<rparr> = r" using g by simp
    then show ?thesis by (rule subst) simp
  qed
qed

lemma persist_post_persistent:
  "persist_post room m op rs summons wake now home s = (res, s') \<Longrightarrow> is_persistent s' = is_persistent s"
  unfolding persist_post_def insert_message_def insert_message_with_room_def
    insert_message_with_care_def insert_message_with_wait_wake_def
  by (auto split: option.splits if_splits prod.splits dest: run_txn_persistent)

lemma fresh_archive_inv:
  assumes inv: "archive_inv h" and f: "fresh_post room body is_admin prin now h m h'"
  shows "archive_inv h'"
  unfolding archive_inv_def
proof (intro allI impI)
  fix d' assume d': "sto_conn (h_store h') = Some d'"
  from f obtain r1 prev mode summons wake pt s rs where pt: "r1 = (room_mut room h)\<lparr>r_post_times := pt\<rparr>"
    and st: "sto_conn s = sto_conn (h_store h)"
    and ps: "persist_post room m (operation_of body prin) rs summons wake now (h_home_room h) s = (Inr (), h_store h')"
    and r: "get_room h' room = Some (posted_room room m (operation_of body prin) prev (record_rate is_admin r1)
            summons wake now (h_store h') (r1\<lparr>r_mode := mode\<rparr>))"
    and o: "\<And>n. n \<noteq> room \<Longrightarrow> get_room h' n = map_option (heard h n summons) (get_room h n)"
    by (rule fresh_postE) (rule that, assumption+)
  obtain d where d: "sto_conn (h_store h) = Some d"
    using persist_post_persistent [OF ps] d' st by (auto simp: is_persistent_def)
  from f d obtain d1 where d1: "sto_conn (h_store h') = Some d1"
    "db_messages d1 = hm_insert (m_id m) (message_to_row m (operation_of body prin)) (db_messages d)"
    "hm_get (db_messages d) (m_id m) = None" "new_operation m (operation_of body prin) d" by (rule fresh_postD)
  have eq: "d1 = d'" using d1(1) d' by simp
  have hm: "hm_ok (db_messages d)" "ops_unique d" using inv d by (simp_all add: archive_inv_def)
  have arch: "op_archived d' n key m'" if "get_room h' n = Some r'" "hm_get (r_operations r') key = Some m'"
    for n r' key m'
  proof -
    have "operation_of body prin = Some key \<and> n = room \<and> m' = m
        \<or> hm_get (r_operations (room_mut n h)) key = Some m'"
    proof (cases "n = room")
      case True
      then show ?thesis using that r pt remember_operation_get [of "operation_of body prin" m _ key m']
        by (auto simp: posted_room_fields remember_operation_def Let_def fold_hm_remove_get
            split: option.splits if_splits)
    next
      case False
      then show ?thesis using that o [OF False] by (auto simp: heard_def)
    qed
    then show ?thesis
    proof
      assume "operation_of body prin = Some key \<and> n = room \<and> m' = m"
      then show ?thesis using fresh_op_archived [OF f d d'] by simp
    next
      assume "hm_get (r_operations (room_mut n h)) key = Some m'"
      then have "op_archived d n key m'" by (rule archive_inv_op [OF inv d])
      then show ?thesis using op_archived_insert [OF _ d1(3,2)] eq by simp
    qed
  qed
  have "hm_ok (db_messages d')" using hm(1) d1(2) eq by simp
  moreover have "ops_unique d'" using ops_unique_insert [OF hm(2) d1(4) hm(1) d1(2)] eq by simp
  ultimately show "hm_ok (db_messages d') \<and> ops_unique d' \<and> (\<forall>n r key m'. get_room h' n = Some r
      \<longrightarrow> hm_get (r_operations r) key = Some m' \<longrightarrow> op_archived d' n key m')" using arch by blast
qed

lemma post_keeps_archive_inv:
  assumes inv: "archive_inv h"
  shows "archive_inv (snd (post room body is_admin prin now h))"
proof -
  obtain res h' where p: "post room body is_admin prin now h = (res, h')" by force
  have "archive_inv h'"
  proof (cases res)
    case (Inl e)
    then have q: "quiet room h h'" using p post_err_quiet by simp
    show ?thesis
      by (rule archive_inv_same [OF inv]) (use q quiet_operations in \<open>auto simp: quiet_def\<close>)
  next
    case (Inr m)
    from p [unfolded Inr] show ?thesis
    proof (cases rule: post_ok_cases)
      case (stored s i d)
      then show ?thesis by (intro archive_inv_same [OF inv]) (auto simp: get_room_def room_mut_def)
    next
      case (remembered s key)
      then show ?thesis
        by (intro archive_inv_same [OF inv]) (auto simp: get_room_def put_room_def room_mut_def split: if_splits)
    next
      case fresh
      then show ?thesis by (rule fresh_archive_inv [OF inv])
    qed
  qed
  then show ?thesis by (simp add: p)
qed

subsection \<open>A retry is answered, not repeated\<close>

text \<open>After a success under an operation key, the archive answers for that key.\<close>

lemma post_ok_archived:
  assumes inv: "archive_inv h" and p: "post room body is_admin prin now h = (Ok m, h')"
    and op: "operation_of body prin = Some (prin, i)" and d: "sto_conn (h_store h) = Some d"
  obtains d' where "sto_conn (h_store h') = Some d'"
    and "map_option (\<lambda>(i, r). row_to_message room i r)
          (find (\<lambda>(_, r). operation_row room prin i r) (db_messages d')) = Some (m\<lparr>m_reply_to_sender := None\<rparr>)"
proof -
  have inv': "archive_inv h'" using post_keeps_archive_inv [OF inv] p by (metis snd_conv)
  have hm: "hm_ok (db_messages d)" "ops_unique d" using inv d by (simp_all add: archive_inv_def)
  from p show thesis
  proof (cases rule: post_ok_cases)
    case (stored s j d0)
    then have "map_option (\<lambda>(i, r). row_to_message room i r)
        (find (\<lambda>(_, r). operation_row room prin i r) (db_messages d)) = Some m" using op d by simp
    moreover from this have "m\<lparr>m_reply_to_sender := None\<rparr> = m" by (auto simp: row_to_message_def)
    ultimately show thesis using stored d by (intro that [of d]) simp_all
  next
    case (remembered s key)
    then have "op_archived d room (prin, i) m" using archive_inv_op [OF inv d] op by simp
    then show thesis using find_operation [OF hm] remembered d by (intro that [of d]) simp_all
  next
    case fresh
    from fresh d obtain d1 where d1: "sto_conn (h_store h') = Some d1" by (rule fresh_postD)
    then have "op_archived d1 room (prin, i) m" using fresh_op_archived [OF fresh d d1] op by simp
    moreover have "hm_ok (db_messages d1)" "ops_unique d1" using inv' d1 by (simp_all add: archive_inv_def)
    ultimately show thesis using find_operation d1 by (intro that [of d1]) simp_all
  qed
qed

lemma message_by_operation_value:
  assumes "sto_conn s = Some d" "sto_faults s = []"
  shows "message_by_operation room prin i s = (Ok (map_option (\<lambda>(i, r). row_to_message room i r)
     (find (\<lambda>(_, r). operation_row room prin i r) (db_messages d))), s\<lparr>sto_conn := Some d, sto_faults := []\<rparr>)"
  using assms by (simp add: message_by_operation_def run_txn_def)

lemma post_again:
  assumes "map_option (\<lambda>(i, r). row_to_message room i r)
      (find (\<lambda>(_, r). operation_row room prin i r) (db_messages d)) = Some m"
    and "sto_conn (h_store h) = Some d" "sto_faults (h_store h) = []" "\<not> is_deleted h room"
    and "operation_of body prin = Some (prin, i)"
  shows "post room body is_admin prin now h = (Ok m, h)"
proof -
  have op: "pm_op_id body = Some i" "i \<noteq> []"
    using assms(5) by (auto simp: operation_of_def split: option.splits if_splits)
  have st: "(h_store h)\<lparr>sto_conn := Some d, sto_faults := []\<rparr> = h_store h"
    using assms(2,3) by (cases "h_store h") simp
  have "with_store (message_by_operation room prin i) h = (Ok (Some m), h)"
    using message_by_operation_value [OF assms(2,3), of room prin i] assms(1) st by (simp add: with_store_def)
  then show ?thesis using assms(4) op by (simp add: post_def)
qed

subsection \<open>The rate limit\<close>

text \<open>
  The limiter alone, over a run of attempts of one sender: an attempt that passes the
  gate is recorded as \<open>mirror_message\<close> records it.  The result is the list of the
  accepted attempt times.
\<close>

fun rate_run :: "string \<Rightarrow> room \<Rightarrow> u64 list \<Rightarrow> u64 list" where
  "rate_run sender r [] = []"
| "rate_run sender r (now # nows) = (case rate_gate r sender now of
     (Some _, r1) \<Rightarrow> rate_run sender r1 nows
   | (None, r1) \<Rightarrow>
       now # rate_run sender (r1\<lparr>r_post_times := hm_insert sender
         ((case hm_get (r_post_times r1) sender of None \<Rightarrow> [] | Some ts \<Rightarrow> ts) @ [now]) (r_post_times r1)\<rparr>) nows)"

abbreviation sender_times :: "room \<Rightarrow> string \<Rightarrow> u64 list" where
  "sender_times r sender \<equiv> (case hm_get (r_post_times r) sender of None \<Rightarrow> [] | Some ts \<Rightarrow> ts)"

text \<open>
  Run against history: \<open>kept\<close> is what the limiter still holds of the accepted times
  \<open>past\<close>; what it forgot is a whole window before \<open>low\<close>.
\<close>

definition remembers :: "nat \<Rightarrow> nat \<Rightarrow> nat list \<Rightarrow> nat list \<Rightarrow> bool" where
  "remembers w low kept past = (sorted past \<and> (\<forall>a \<in> set past. 0 < a \<and> a \<le> low)
     \<and> (\<exists>gone. past = gone @ kept \<and> (\<forall>a \<in> set gone. a + w \<le> low)))"

lemma remembers_prune:
  assumes "remembers w low kept past" "low \<le> now"
  shows "remembers w now (dropWhile (\<lambda>t. t \<le> now - w) kept) past"
proof -
  from assms obtain gone where g: "past = gone @ kept" "\<forall>a \<in> set gone. a + w \<le> low" "sorted past"
    "\<forall>a \<in> set past. 0 < a \<and> a \<le> low" by (auto simp: remembers_def)
  let ?drop = "takeWhile (\<lambda>t. t \<le> now - w) kept" and ?keep = "dropWhile (\<lambda>t. t \<le> now - w) kept"
  have "a + w \<le> now" if "a \<in> set ?drop" for a
  proof -
    from that have "a \<le> now - w" "a \<in> set kept" using set_takeWhileD by fastforce+
    moreover have "0 < a" using g(1,4) \<open>a \<in> set kept\<close> by auto
    ultimately show ?thesis by simp
  qed
  then have "\<forall>a \<in> set (gone @ ?drop). a + w \<le> now" using g(2) assms(2) by auto
  moreover have "past = (gone @ ?drop) @ ?keep" by (simp add: g(1))
  moreover have "\<forall>a \<in> set past. 0 < a \<and> a \<le> now" using g(4) assms(2) by auto
  ultimately show ?thesis unfolding remembers_def using g(3) by blast
qed

text \<open>Any \<open>limit + 1\<close> consecutive accepted posts span at least the window.\<close>

definition spaced :: "nat \<Rightarrow> nat \<Rightarrow> nat list \<Rightarrow> bool" where
  "spaced limit w xs = (\<forall>k < length xs. limit \<le> k \<longrightarrow> xs ! (k - limit) + w \<le> xs ! k)"

lemma spaced_snoc:
  assumes "spaced limit w past" "remembers w now kept past" "length kept < limit"
  shows "spaced limit w (past @ [now])"
proof -
  from assms(2) obtain gone where g: "past = gone @ kept" "\<forall>a \<in> set gone. a + w \<le> now"
    by (auto simp: remembers_def)
  have "(past @ [now]) ! (length past - limit) + w \<le> now" if "limit \<le> length past"
  proof -
    have "length past - limit < length gone" using that assms(3) g(1) by simp
    then have "(past @ [now]) ! (length past - limit) \<in> set gone" by (simp add: g(1) nth_append)
    then show ?thesis using g(2) by blast
  qed
  then show ?thesis
    using assms(1) unfolding spaced_def by (auto simp: nth_append less_Suc_eq)
qed

lemma remembers_snoc:
  assumes "remembers w now kept past" "0 < now"
  shows "remembers w now (kept @ [now]) (past @ [now])"
  using assms by (auto simp: remembers_def sorted_append)

lemma rate_run_spaced:
  assumes "spaced (st_rate_limit (r_settings r)) (window_ms r) past"
    and "remembers (window_ms r) low (sender_times r sender) past"
    and "sorted (low # nows)" and "\<forall>t \<in> set nows. 0 < t"
  shows "spaced (st_rate_limit (r_settings r)) (window_ms r) (past @ rate_run sender r nows)"
  using assms
proof (induction nows arbitrary: r past low)
  case (Cons now nows)
  let ?times = "recent_posts r sender now" and ?w = "window_ms r" and ?l = "st_rate_limit (r_settings r)"
  let ?r1 = "r\<lparr>r_post_times := hm_insert sender ?times (r_post_times r)\<rparr>"
  have times: "?times = dropWhile (\<lambda>t. t \<le> now - ?w) (sender_times r sender)"
    by (simp add: recent_posts_def u64_saturating_sub_def Let_def)
  have rem: "remembers ?w now ?times past"
    unfolding times by (rule remembers_prune [OF Cons.prems(2)]) (use Cons.prems(3) in simp)
  have later: "sorted (now # nows)" "\<forall>t \<in> set nows. 0 < t" "0 < now" using Cons.prems(3,4) by auto
  show ?case
  proof (cases "?l \<le> length ?times")
    case True
    have "spaced ?l ?w (past @ rate_run sender ?r1 nows)"
      using Cons.IH [of ?r1 past now] Cons.prems(1) rem later by (simp add: window_ms_def)
    then show ?thesis using True by (simp add: rate_gate_def Let_def)
  next
    case False
    let ?r2 = "?r1\<lparr>r_post_times := hm_insert sender (?times @ [now]) (r_post_times ?r1)\<rparr>"
    have "spaced ?l ?w (past @ [now])" using spaced_snoc [OF Cons.prems(1) rem] False by simp
    then have "spaced ?l ?w ((past @ [now]) @ rate_run sender ?r2 nows)"
      using Cons.IH [of ?r2 "past @ [now]" now] remembers_snoc [OF rem later(3)] later
      by (simp add: window_ms_def)
    then show ?thesis using False by (simp add: rate_gate_def Let_def)
  qed
qed simp

subsection \<open>Turns\<close>

definition mode_ok :: "ChatMode \<Rightarrow> bool" where
  "mode_ok mode = (case mode of RoundRobin order turn \<Rightarrow> order = [] \<and> turn = 0 \<or> turn < length order | _ \<Rightarrow> True)"

lemma advance_turn_ok: "mode_ok mode \<Longrightarrow> mode_ok (snd (advance_turn mode sender))"
  by (auto simp: mode_ok_def advance_turn_def nth_opt_def split: ChatMode.splits)

lemma advance_turn_speaker:
  assumes "turn < length order"
  shows "advance_turn (RoundRobin order turn) (order ! turn)
     = (Some turn, RoundRobin order (Suc turn mod length order))"
  using assms by (auto simp: advance_turn_def nth_opt_def)

lemma advance_turn_other:
  assumes "turn < length order" "sender \<noteq> order ! turn"
  shows "advance_turn (RoundRobin order turn) sender = (None, RoundRobin order turn)"
  using assms by (auto simp: advance_turn_def nth_opt_def)

lemma accepted_fresh:
  assumes "post room body is_admin prin now h = (Ok m, h')" and "h_next_id h' \<noteq> h_next_id h"
  shows "fresh_post room body is_admin prin now h m h'"
  using assms(1) by (cases rule: post_ok_cases) (use assms(2) in simp_all)

subsection \<open>The transaction of a post\<close>

text \<open>The one transaction of an accepted post, whichever of the four store calls made it.\<close>

definition post_care :: "string \<Rightarrow> string \<Rightarrow> care_signal list \<Rightarrow> (wait_state \<times> care_signal) option \<Rightarrow> u64 \<Rightarrow> db \<Rightarrow> db" where
  "post_care room home summons wake now d = (case wake of
     None \<Rightarrow> fold (write_care home) summons d
   | Some (w, sig) \<Rightarrow> write_care room sig (write_wait w (db_resolve_wait_attentions room (w_waiter w) now d)))"

lemma persist_post_txn:
  assumes "persist_post room m operation rs summons wake now home s = (Inr u, s')"
    and "sto_conn s = Some d" and "m_room m = room"
  shows "\<exists>d1 d2. write_optional_state room rs d = Inr d1 \<and> insert_core m operation d1 = Inr d2
     \<and> sto_conn s' = Some (post_care room home summons wake now d2)"
proof -
  have txn: "\<exists>d1 d2. write_optional_state room rs d = Inr d1 \<and> insert_core m operation d1 = Inr d2
      \<and> sto_conn s' = Some (after d2)"
    if "run_txn () (insert_message_txn m rs operation after) s = (Inr u, s')" for after
    using run_txn_okD [OF that assms(2)] assms(3)
    by (auto simp: insert_message_txn_def split: sum.splits)
  show ?thesis
  proof (cases wake)
    case (Some uw)
    then show ?thesis using assms(1,3) txn
      by (cases uw) (auto simp: persist_post_def insert_message_with_wait_wake_def post_care_def)
  next
    case None
    then show ?thesis using assms txn run_txn_okD [of "()" _ s u s' d]
      by (cases rs; cases "summons = []")
        (fastforce simp: persist_post_def insert_message_with_care_def insert_message_with_room_def
          insert_message_def post_care_def write_optional_state_def split: sum.splits)+
  qed
qed

lemma post_care_rooms [simp]: "db_rooms (post_care room home summons wake now d) = db_rooms d"
  by (simp add: post_care_def split: option.split)

end
