(* ===== verification/Post_Properties.thy ===== *)
theory Post_Properties
  imports Post_Laws Samples
begin

text \<open>
  What \<open>post\<close> promises its callers: a message that was reported as sent is in the
  archive and was broadcast, a retry is answered with the first message, a refusal
  leaves no trace, the gates cannot be passed, the rate limit bounds every window,
  and nothing of a room reaches another one.
\<close>

definition sample_post :: "string \<Rightarrow> string option \<Rightarrow> string option \<Rightarrow> post_message" where
  "sample_post sender target op_id = \<lparr> pm_kind = Say, pm_sender = sender, pm_sender_type = Agent,
     pm_target = target, pm_text = ''hello'', pm_reply_to = None, pm_op_id = op_id,
     pm_attachments = [] \<rparr>"

lemma sample_hub_archive_inv: "archive_inv sample_hub"
  by (simp add: archive_inv_def sample_hub_def sample_store_def empty_db_def ops_unique_def get_room_def
      hm_get_def room_with_def)

lemma sample_posted: "is_ok (fst (post ''loca'' (sample_post ''bob'' None (Some ''k'')) False ''p'' 50 sample_hub))"
  by code_simp

text \<open>
  C11: a message reported as sent is on disk.  Whenever \<open>post\<close> answers with a message on
  a persistent store, whether it was accepted now or is the answer to a retry, the
  archive has a row under its id in that room that reads back as the message, up to
  the wake recipient of a reply, which no column holds.
\<close>

theorem posted_is_archived:
  assumes "archive_inv h" and "post room body is_admin prin now h = (Ok m, h')"
    and "sto_conn (h_store h') = Some d'"
  shows "\<exists>row. hm_get (db_messages d') (m_id m) = Some row
     \<and> row_to_message room (m_id m) row = m\<lparr>m_reply_to_sender := None\<rparr>"
  using assms(2)
proof (cases rule: post_ok_cases)
  case (stored s i d)
  then have d: "d = d'" using assms(3) by simp
  from stored(5) obtain k row where f: "find (\<lambda>(_, r). operation_row room prin i r) (db_messages d) = Some (k, row)"
    and m: "m = row_to_message room k row" by auto
  have "(k, row) \<in> set (db_messages d)" using f by (auto simp: find_Some_iff) (metis nth_mem)
  moreover have "hm_ok (db_messages d)" using assms(1) stored(4) by (simp add: archive_inv_def)
  ultimately have "hm_get (db_messages d) k = Some row" by (simp add: hm_entry_iff)
  then show ?thesis using m d by (auto simp: row_to_message_def)
next
  case (remembered s key)
  then have "op_archived d' room key m" using archive_inv_op [OF assms(1)] assms(3) by simp
  then show ?thesis by (auto simp: op_archived_def)
next
  case fresh
  obtain d where d: "sto_conn (h_store h) = Some d"
  proof -
    from fresh obtain rs summons wake s where "sto_conn s = sto_conn (h_store h)"
      "persist_post room m (operation_of body prin) rs summons wake now (h_home_room h) s = (Inr (), h_store h')"
      by (rule fresh_postE) (rule that, assumption+)
    then show thesis using persist_post_persistent assms(3) that
      by (metis is_persistent_def not_Some_eq)
  qed
  from fresh d show ?thesis
    by (rule fresh_postD) (use assms(3) row_to_message_of_row in auto)
qed

theorem posted_is_archived_witness:
  "\<exists>m h' d' row. post ''loca'' (sample_post ''bob'' None (Some ''k'')) False ''p'' 50 sample_hub = (Ok m, h')
     \<and> sto_conn (h_store h') = Some d' \<and> hm_get (db_messages d') (m_id m) = Some row"
proof -
  let ?p = "post ''loca'' (sample_post ''bob'' None (Some ''k'')) False ''p'' 50 sample_hub"
  obtain m where p: "?p = (Ok m, snd ?p)" using ok_run [OF sample_posted] by blast
  have "is_persistent (h_store (snd ?p))" by code_simp
  then obtain d' where "sto_conn (h_store (snd ?p)) = Some d'" by (auto simp: is_persistent_def)
  with posted_is_archived [OF sample_hub_archive_inv p] p show ?thesis by blast
qed

text \<open>
  C12: a retry is answered and not repeated.  After a success under an operation id on a
  persistent store, any later post of the same principal under that id to that room,
  whatever its body, is answered with the message of the first one (without the wake
  recipient), while storage answers, and leaves the whole state as it is.
\<close>

theorem post_retry_idempotent:
  assumes "archive_inv h" and "post room body is_admin prin now h = (Ok m, h')"
    and "pm_op_id body = Some i" and "i \<noteq> []" and "is_persistent (h_store h)"
    and "sto_faults (h_store h') = []" and "\<not> is_deleted h' room" and "pm_op_id body' = Some i"
  shows "post room body' is_admin' prin now' h' = (Ok (m\<lparr>m_reply_to_sender := None\<rparr>), h')"
proof -
  have op: "operation_of body prin = Some (prin, i)" "operation_of body' prin = Some (prin, i)"
    using assms by (simp_all add: operation_of_def)
  obtain d where d: "sto_conn (h_store h) = Some d" using assms(5) by (auto simp: is_persistent_def)
  obtain d' where "sto_conn (h_store h') = Some d'"
    "map_option (\<lambda>(i, r). row_to_message room i r)
          (find (\<lambda>(_, r). operation_row room prin i r) (db_messages d')) = Some (m\<lparr>m_reply_to_sender := None\<rparr>)"
    by (rule post_ok_archived [OF assms(1,2) op(1) d])
  then show ?thesis using post_again assms(6,7) op(2) by blast
qed

theorem post_retry_idempotent_witness:
  "\<exists>m h'. post ''loca'' (sample_post ''bob'' None (Some ''k'')) False ''p'' 50 sample_hub = (Ok m, h')
     \<and> post ''loca'' (sample_post ''bob'' (Some ''eve'') (Some ''k'')) False ''p'' 99 h'
       = (Ok (m\<lparr>m_reply_to_sender := None\<rparr>), h')"
proof -
  let ?p = "post ''loca'' (sample_post ''bob'' None (Some ''k'')) False ''p'' 50 sample_hub"
  obtain m where p: "?p = (Ok m, snd ?p)" using ok_run [OF sample_posted] by blast
  have b: "pm_op_id (sample_post ''bob'' None (Some ''k'')) = Some ''k''"
    "pm_op_id (sample_post ''bob'' (Some ''eve'') (Some ''k'')) = Some ''k''" "''k'' \<noteq> []"
    by (simp_all add: sample_post_def)
  have "is_persistent (h_store sample_hub)" "sto_faults (h_store (snd ?p)) = []" "\<not> is_deleted (snd ?p) ''loca''"
    by code_simp+
  with post_retry_idempotent [OF sample_hub_archive_inv p b(1,3)] p b(2) show ?thesis by blast
qed

text \<open>
  C13: a refused post leaves no trace.  Whatever the reason (sealed, archived, moderated,
  not the sender's turn, rate limited, an unknown file, a storage failure), the tables
  are as they were, other rooms are untouched, and of the room itself at most the
  rate-limit times differ: no message, frame, turn, wait or attention.
\<close>

theorem post_refusal_quiet:
  assumes "post room body is_admin prin now h = (Err e, h')"
  shows "sto_conn (h_store h') = sto_conn (h_store h)
     \<and> (\<forall>n. n \<noteq> room \<longrightarrow> get_room h' n = get_room h n)
     \<and> (get_room h' room = get_room h room
        \<or> (\<exists>pt. get_room h' room = Some ((room_mut room h)\<lparr>r_post_times := pt\<rparr>)))"
  using post_err_quiet [OF assms] by (simp add: quiet_def)

theorem post_refusal_quiet_witness:
  "\<exists>h'. post ''loca'' ((sample_post ''bob'' None None)\<lparr>pm_attachments := [''missing'']\<rparr>) False ''p'' 50 sample_hub
       = (Err PostUnknownAttachment, h') \<and> sto_conn (h_store h') = Some empty_db"
proof -
  let ?p = "post ''loca'' ((sample_post ''bob'' None None)\<lparr>pm_attachments := [''missing'']\<rparr>) False ''p'' 50 sample_hub"
  have "fst ?p = Err PostUnknownAttachment" by code_simp
  then have p: "?p = (Err PostUnknownAttachment, snd ?p)" by (rule err_run)
  have "sto_conn (h_store sample_hub) = Some empty_db" by (simp add: sample_hub_def sample_store_def)
  with post_refusal_quiet [OF p] p show ?thesis by auto
qed

subsection \<open>Gates and isolation\<close>

lemma post_gate_None:
  "post_gate r sender is_admin now = (None, r1) \<longleftrightarrow>
     \<not> st_archived (r_settings r) \<and> (is_admin \<or> moderation_gate r sender = None \<and> mode_gate (r_mode r) sender = None)
     \<and> (if record_rate is_admin r then rate_gate r sender now = (None, r1) else r1 = r)"
  by (auto simp: post_gate_def record_rate_def split: option.splits if_splits)

text \<open>A post that is accepted now, and not the answer to a retry, consumes a message id.\<close>

text \<open>
  C14: nobody speaks past the gates.  A post that was accepted now went to a room that is
  neither sealed nor archived; unless the caller is the administrator, the sender is
  neither banned nor muted, the room is not paused, a restricted room lists the
  sender, in a round-robin room it is the sender's turn, and the sender has fewer posts
  than the limit in the current window.
\<close>

theorem post_gates:
  assumes "post room body is_admin prin now h = (Ok m, h')" and "h_next_id h' \<noteq> h_next_id h"
  shows "\<not> is_deleted h room \<and> \<not> st_archived (r_settings (room_mut room h))
     \<and> (is_admin \<or>
          pm_sender body \<notin> set (r_banned (room_mut room h)) \<and> pm_sender body \<notin> set (r_muted (room_mut room h))
        \<and> (case r_mode (room_mut room h) of
             Free \<Rightarrow> True
           | Paused \<Rightarrow> False
           | Restricted allow \<Rightarrow> pm_sender body \<in> set allow
           | RoundRobin order turn \<Rightarrow> turn < length order \<and> order ! turn = pm_sender body)
        \<and> (0 < st_rate_limit (r_settings (room_mut room h)) \<longrightarrow>
             length (recent_posts (room_mut room h) (pm_sender body) now) < st_rate_limit (r_settings (room_mut room h))))"
proof -
  from accepted_fresh [OF assms] obtain r1 where "\<not> is_deleted h room"
    and "post_gate (room_mut room h) (pm_sender body) is_admin now = (None, r1)"
    by (rule fresh_postE) (rule that, assumption+)
  then show ?thesis
    by (auto simp: post_gate_None moderation_gate_def mode_gate_def nth_opt_def rate_gate_def record_rate_def Let_def
        split: ChatMode.splits if_splits)
qed

theorem post_gates_witness:
  "\<exists>m h'. post ''loca'' (sample_post ''bob'' None None) False ''p'' 50 sample_hub = (Ok m, h')
     \<and> \<not> st_archived (r_settings (room_mut ''loca'' sample_hub))
     \<and> ''bob'' \<notin> set (r_banned (room_mut ''loca'' sample_hub))"
proof -
  let ?p = "post ''loca'' (sample_post ''bob'' None None) False ''p'' 50 sample_hub"
  have "is_ok (fst ?p)" and n: "h_next_id (snd ?p) \<noteq> h_next_id sample_hub" by code_simp+
  then obtain m where p: "?p = (Ok m, snd ?p)" using ok_run by blast
  have "pm_sender (sample_post ''bob'' None None) = ''bob''" by (simp add: sample_post_def)
  with post_gates [OF p n] p show ?thesis by auto
qed

text \<open>
  An accepted message is broadcast and kept, in its room only.  It is the last entry
  of the room's tail, which never holds more than 200 messages, and a frame sent to the
  room; no other room changes, except that the caretakers' home room may receive the
  care envelopes of the summons.
\<close>

theorem post_broadcast:
  assumes "post room body is_admin prin now h = (Ok m, h')" and "h_next_id h' \<noteq> h_next_id h"
  shows "m_sender m = pm_sender body \<and> m_text m = pm_text body \<and> m_room m = room \<and> m_id m = h_next_id h
     \<and> FMsg m \<in> set (r_tx (room_mut room h')) \<and> last (r_history (room_mut room h')) = m
     \<and> length (r_history (room_mut room h')) \<le> HISTORY_LIMIT
     \<and> (\<forall>n. n \<noteq> room \<longrightarrow> n \<noteq> h_home_room h \<longrightarrow> get_room h' n = get_room h n)
     \<and> (room \<noteq> h_home_room h \<longrightarrow> (\<forall>r. get_room h (h_home_room h) = Some r \<longrightarrow>
          get_room h' (h_home_room h) = Some (r\<lparr>r_tx := r_tx r @ map FCare (caretaker_summons h room m now)\<rparr>)))"
proof -
  from accepted_fresh [OF assms] obtain atts rts r1 ts summons wake prev mode where
    m: "m = post_message_of room body atts rts (h_next_id h) ts" and su: "summons = caretaker_summons h room m now"
    and r: "get_room h' room = Some (posted_room room m (operation_of body prin) prev (record_rate is_admin r1)
           summons wake now (h_store h') (r1\<lparr>r_mode := mode\<rparr>))"
    and o: "\<And>n. n \<noteq> room \<Longrightarrow> get_room h' n = map_option (heard h n summons) (get_room h n)"
    by (rule fresh_postE) (rule that, assumption+)
  have id: "r\<lparr>r_tx := r_tx r\<rparr> = r" for r :: room by simp
  have heard: "heard h n summons r = r" if "n \<noteq> h_home_room h" for n r
    using that by (simp add: heard_def id)
  have "get_room h' n = get_room h n" if "n \<noteq> room" "n \<noteq> h_home_room h" for n
    using o [OF that(1)] heard [OF that(2)] by (cases "get_room h n") simp_all
  moreover have "get_room h' (h_home_room h) = Some (r\<lparr>r_tx := r_tx r @ map FCare summons\<rparr>)"
    if "room \<noteq> h_home_room h" "get_room h (h_home_room h) = Some r" for r
    using o [of "h_home_room h"] that by (auto simp: heard_def)
  moreover have "FMsg m \<in> set (r_tx (room_mut room h'))" using r posted_room_frames by simp
  ultimately show ?thesis
    using r m su by (auto simp: posted_room_fields post_message_of_def HISTORY_LIMIT_def)
qed

theorem post_broadcast_witness:
  "\<exists>m h'. post ''loca'' (sample_post ''bob'' None None) False ''p'' 50 sample_hub = (Ok m, h')
     \<and> FMsg m \<in> set (r_tx (room_mut ''loca'' h')) \<and> get_room h' ''other'' = get_room sample_hub ''other''"
proof -
  let ?p = "post ''loca'' (sample_post ''bob'' None None) False ''p'' 50 sample_hub"
  have "is_ok (fst ?p)" and n: "h_next_id (snd ?p) \<noteq> h_next_id sample_hub" by code_simp+
  then obtain m where p: "?p = (Ok m, snd ?p)" using ok_run by blast
  have "''other'' \<noteq> h_home_room sample_hub" "''other'' \<noteq> ''loca''" by code_simp+
  moreover have "FMsg m \<in> set (r_tx (room_mut ''loca'' (snd ?p)))"
    using post_broadcast [OF p n] by (elim conjE)
  moreover have "\<forall>n. n \<noteq> ''loca'' \<longrightarrow> n \<noteq> h_home_room sample_hub \<longrightarrow> get_room (snd ?p) n = get_room sample_hub n"
    using post_broadcast [OF p n] by (elim conjE)
  ultimately show ?thesis using p by (intro exI [of _ m] exI [of _ "snd ?p"]) simp
qed

subsection \<open>The rate limit over a run of posts\<close>

text \<open>
  A run of posts to one room by anybody: the times at which the posts of one sender were
  accepted, those the administrator makes in his name and answers to retries aside.
\<close>

fun accepted_times ::
  "string \<Rightarrow> string \<Rightarrow> hub \<Rightarrow> (post_message \<times> bool \<times> string \<times> u64) list \<Rightarrow> u64 list" where
  "accepted_times room sender h [] = []"
| "accepted_times room sender h ((body, is_admin, prin, now) # rest) =
     (let (res, h') = post room body is_admin prin now h
      in (if is_ok res \<and> h_next_id h' \<noteq> h_next_id h \<and> \<not> is_admin \<and> pm_sender body = sender then [now] else [])
         @ accepted_times room sender h' rest)"

definition pruned :: "room \<Rightarrow> u64 \<Rightarrow> string \<Rightarrow> u64 list" where
  "pruned r now sender = dropWhile (\<lambda>t. t \<le> now - window_ms r) (sender_times r sender)"

lemma recent_posts_pruned: "recent_posts r sender now = pruned r now sender"
  by (simp add: recent_posts_def pruned_def u64_saturating_sub_def Let_def)

text \<open>What one gate does to the remembered times of a sender.\<close>

lemma post_gate_times:
  assumes "post_gate r who is_admin now = (g, r1)"
  shows "sender_times r1 sender = sender_times r sender
     \<or> sender = who \<and> record_rate is_admin r \<and> sender_times r1 sender = pruned r now sender"
    and "g = None \<Longrightarrow> record_rate is_admin r \<Longrightarrow> sender_times r1 who = pruned r now who
       \<and> length (pruned r now who) < st_rate_limit (r_settings r)"
  using assms
  by (auto simp: post_gate_def rate_gate_def recent_posts_pruned Let_def record_rate_def
      split: option.splits if_splits)

lemma u64_add_ne: "u64_add a 1 \<noteq> a"
proof
  assume eq: "u64_add a 1 = a"
  then have "a < 2 ^ 64" by (metis u64_add_def mod_less_divisor zero_less_numeral zero_less_power)
  with eq show False by (cases "a + 1 = 2 ^ 64") (auto simp: u64_add_def)
qed

text \<open>The room after a refusal is the room before it, or what the gate made of it.\<close>

lemma post_err_gate:
  assumes "post room body is_admin prin now h = (Err e, h')"
  shows "room_mut room h' = room_mut room h
     \<or> (\<exists>g. post_gate (room_mut room h) (pm_sender body) is_admin now = (g, room_mut room h'))"
  using assms
proof (cases rule: post_cases)
  case (early s)
  then show ?thesis by (simp add: room_mut_def split: option.split)
next
  case (main s atts)
  have mut: "room_mut room (h\<lparr>h_store := s\<rparr>) = room_mut room h"
    by (auto simp: room_mut_def split: option.split)
  from main(4) show ?thesis
  proof (cases rule: post_locked_cases)
    case (refuse e' r1 g s')
    then have "get_room h' room = Some r1" by (simp add: put_room_def get_room_def)
    then show ?thesis using refuse(1) mut by (auto simp: room_mut_present)
  next
    case (accept rts r1 s')
    then have "get_room h' room = Some r1"
      using accept_post_errD(1) [OF accept(4)] by (simp add: get_room_def put_room_def)
    then show ?thesis using accept(1) mut by (auto simp: room_mut_present)
  qed simp
qed

lemma post_gate_settings: "post_gate r who is_admin now = (g, r1) \<Longrightarrow> r_settings r1 = r_settings r"
  using post_gate_room by fastforce

lemma remembers_later: "remembers w low kept past \<Longrightarrow> low \<le> now \<Longrightarrow> remembers w now kept past"
  unfolding remembers_def by (fastforce dest: order_trans)

lemma post_times_step:
  assumes p: "post room body is_admin prin now h = (res, h')"
    and sp: "spaced (st_rate_limit (r_settings (room_mut room h))) (window_ms (room_mut room h)) past"
    and rm: "remembers (window_ms (room_mut room h)) low (sender_times (room_mut room h) sender) past"
    and now: "low \<le> now" "0 < now" and lim: "0 < st_rate_limit (r_settings (room_mut room h))"
    and acc: "acc = (if is_ok res \<and> h_next_id h' \<noteq> h_next_id h \<and> \<not> is_admin \<and> pm_sender body = sender
       then [now] else [])"
  shows "spaced (st_rate_limit (r_settings (room_mut room h))) (window_ms (room_mut room h)) (past @ acc)
     \<and> remembers (window_ms (room_mut room h)) now (sender_times (room_mut room h') sender) (past @ acc)
     \<and> r_settings (room_mut room h') = r_settings (room_mut room h)"
proof -
  let ?r = "room_mut room h" and ?r' = "room_mut room h'"
  have prune: "remembers (window_ms ?r) now (pruned ?r now sender) past"
    unfolding pruned_def by (rule remembers_prune [OF rm now(1)])
  have stay: ?thesis if "?r' = ?r" "acc = []"
    using that sp remembers_later [OF rm now(1)] by simp
  show ?thesis
  proof (cases res)
    case (Inl e)
    then have a: "acc = []" by (simp add: acc)
    from post_err_gate [OF p [unfolded Inl]] show ?thesis
    proof
      assume "\<exists>g. post_gate ?r (pm_sender body) is_admin now = (g, ?r')"
      then obtain g where g: "post_gate ?r (pm_sender body) is_admin now = (g, ?r')" ..
      from post_gate_times(1) [OF g, of sender] show ?thesis
        using a sp prune remembers_later [OF rm now(1)] post_gate_settings [OF g] by auto
    qed (use a stay in simp)
  next
    case (Inr m)
    show ?thesis
    proof (cases "h_next_id h' = h_next_id h")
      case True
      from p [unfolded Inr] have "?r' = ?r"
      proof (cases rule: post_ok_cases)
        case fresh
        then have "h_next_id h' = u64_add (h_next_id h) 1" by (rule fresh_postE)
        then show ?thesis using True u64_add_ne [of "h_next_id h"] by simp
      qed (auto simp: room_mut_def put_room_def split: option.split)
      then show ?thesis using stay True by (simp add: acc)
    next
      case False
      from accepted_fresh [OF p [unfolded Inr] False] obtain atts rts r1 ts summons wake prev mode where
        g: "post_gate ?r (pm_sender body) is_admin now = (None, r1)"
        and m: "m = post_message_of room body atts rts (h_next_id h) ts"
        and r: "get_room h' room = Some (posted_room room m (operation_of body prin) prev (record_rate is_admin r1)
           summons wake now (h_store h') (r1\<lparr>r_mode := mode\<rparr>))"
        by (rule fresh_postE) (rule that, assumption+)
      have st: "r_settings r1 = r_settings ?r" by (rule post_gate_settings [OF g])
      have who: "m_sender m = pm_sender body" by (simp add: m post_message_of_def)
      have rate: "record_rate is_admin r1 = (\<not> is_admin)" "record_rate is_admin ?r = (\<not> is_admin)"
        using st lim by (simp_all add: record_rate_def)
      have times: "sender_times ?r' sender = (if \<not> is_admin \<and> sender = pm_sender body
          then sender_times r1 sender @ [now] else sender_times r1 sender)"
        using r rate(1) who by (simp add: posted_room_fields)
      have set: "r_settings ?r' = r_settings ?r" using r st by (simp add: posted_room_fields)
      show ?thesis
      proof (cases "\<not> is_admin \<and> pm_sender body = sender")
        case True
        then have a: "acc = [now]" using Inr False by (simp add: acc)
        have k: "sender_times r1 sender = pruned ?r now sender"
          "length (pruned ?r now sender) < st_rate_limit (r_settings ?r)"
          using post_gate_times(2) [OF g] rate(2) True by auto
        show ?thesis
          unfolding a times using True k set spaced_snoc [OF sp prune] remembers_snoc [OF prune now(2)] by simp
      next
        case other: False
        then have a: "acc = []" by (auto simp: acc)
        have "sender_times r1 sender = sender_times ?r sender"
          using post_gate_times(1) [OF g, of sender] other rate(2) by auto
        then show ?thesis unfolding a times using other sp set remembers_later [OF rm now(1)] by auto
      qed
    qed
  qed
qed

text \<open>
  C15: the rate limit holds over any window.  In any run of posts to a room, by anybody
  and with any outcomes, that starts when nothing is remembered of a sender and has a
  clock that does not go back, any \<open>limit + 1\<close> consecutive accepted posts of that sender
  span at least the configured window: no sliding window holds more than the limit.
\<close>

theorem rate_limit_holds:
  assumes "0 < st_rate_limit (r_settings (room_mut room h))"
    and "sender_times (room_mut room h) sender = []"
    and "sorted (map (\<lambda>(_, _, _, now). now) posts)" and "\<forall>(_, _, _, now) \<in> set posts. 0 < now"
    and "k < length (accepted_times room sender h posts)"
    and "st_rate_limit (r_settings (room_mut room h)) \<le> k"
  shows "accepted_times room sender h posts ! (k - st_rate_limit (r_settings (room_mut room h)))
       + window_ms (room_mut room h) \<le> accepted_times room sender h posts ! k"
proof -
  have "spaced (st_rate_limit (r_settings (room_mut room h))) (window_ms (room_mut room h))
       (past @ accepted_times room sender h posts)"
    if "spaced (st_rate_limit (r_settings (room_mut room h))) (window_ms (room_mut room h)) past"
      "remembers (window_ms (room_mut room h)) low (sender_times (room_mut room h) sender) past"
      "0 < st_rate_limit (r_settings (room_mut room h))"
      "sorted (low # map (\<lambda>(_, _, _, now). now) posts)" "\<forall>(_, _, _, now) \<in> set posts. 0 < now" for past low
    using that
  proof (induction posts arbitrary: h past low)
    case (Cons x posts)
    obtain body is_admin prin now where x: "x = (body, is_admin, prin, now)" by (cases x) auto
    obtain res h' where p: "post room body is_admin prin now h = (res, h')" by force
    define acc where "acc = (if is_ok res \<and> h_next_id h' \<noteq> h_next_id h \<and> \<not> is_admin \<and> pm_sender body = sender
       then [now] else [])"
    have step: "spaced (st_rate_limit (r_settings (room_mut room h))) (window_ms (room_mut room h)) (past @ acc)
     \<and> remembers (window_ms (room_mut room h)) now (sender_times (room_mut room h') sender) (past @ acc)
     \<and> r_settings (room_mut room h') = r_settings (room_mut room h)"
      by (rule post_times_step [OF p Cons.prems(1,2) _ _ Cons.prems(3) acc_def]) (use Cons.prems x in auto)
    then have w: "window_ms (room_mut room h') = window_ms (room_mut room h)" by (simp add: window_ms_def)
    have "spaced (st_rate_limit (r_settings (room_mut room h'))) (window_ms (room_mut room h'))
        ((past @ acc) @ accepted_times room sender h' posts)"
      by (rule Cons.IH [of _ _ now]) (use step w Cons.prems x in auto)
    then show ?case using step w p by (simp add: x acc_def Let_def)
  qed simp
  from this [of "[]" 0] assms show ?thesis by (simp add: spaced_def remembers_def)
qed

definition sample_tight :: hub where
  "sample_tight = put_room ''loca'' (room_with Free (sample_settings\<lparr>st_rate_limit := 1\<rparr>) 1) sample_hub"

definition sample_posts :: "(post_message \<times> bool \<times> string \<times> u64) list" where
  "sample_posts = map (\<lambda>t. (sample_post ''bob'' None None, False, ''p'', t)) [1000, 1500, 31000]"

theorem rate_limit_holds_witness:
  "accepted_times ''loca'' ''bob'' sample_tight sample_posts = [1000, 31000]
   \<and> accepted_times ''loca'' ''bob'' sample_tight sample_posts ! 0 + window_ms (room_mut ''loca'' sample_tight)
     \<le> accepted_times ''loca'' ''bob'' sample_tight sample_posts ! 1"
proof -
  have acc: "accepted_times ''loca'' ''bob'' sample_tight sample_posts = [1000, 31000]" by code_simp
  have l: "st_rate_limit (r_settings (room_mut ''loca'' sample_tight)) = 1"
    "sender_times (room_mut ''loca'' sample_tight) ''bob'' = []" by code_simp+
  have s: "sorted (map (\<lambda>(_, _, _, now). now) sample_posts)" "\<forall>(_, _, _, now) \<in> set sample_posts. 0 < now"
    by code_simp+
  from rate_limit_holds [OF _ l(2) s, of 1] acc l(1) show ?thesis by simp
qed

subsection \<open>Turns and answers\<close>

text \<open>
  The baton moves exactly with the speaker, on disk and in memory.  In a round-robin
  room an accepted post of the participant whose turn it is moves the turn to the next
  in the order, back to the first after the last, and on a persistent store the room's
  row holds the new turn; an accepted post of anybody else, which only the
  administrator can make, leaves the turn where it is.
\<close>

theorem round_robin_turn:
  assumes "r_mode (room_mut room h) = RoundRobin order turn" and "turn < length order"
    and "post room body is_admin prin now h = (Ok m, h')" and "h_next_id h' \<noteq> h_next_id h"
  shows "(pm_sender body = order ! turn \<or> is_admin)
     \<and> r_mode (room_mut room h') = RoundRobin order
         (if pm_sender body = order ! turn then Suc turn mod length order else turn)
     \<and> (pm_sender body = order ! turn \<longrightarrow> (\<forall>d. sto_conn (h_store h') = Some d \<longrightarrow>
          map_option rr_mode (hm_get (db_rooms d) room) = Some (r_mode (room_mut room h'))))"
proof -
  from accepted_fresh [OF assms(3,4)] obtain atts rts r1 ts summons wake prev mode pt s where
    g: "post_gate (room_mut room h) (pm_sender body) is_admin now = (None, r1)"
    and r1: "r1 = (room_mut room h)\<lparr>r_post_times := pt\<rparr>"
    and m: "m = post_message_of room body atts rts (h_next_id h) ts"
    and adv: "advance_turn (r_mode r1) (pm_sender body) = (prev, mode)"
    and s: "sto_conn s = sto_conn (h_store h)"
    and ps: "persist_post room m (operation_of body prin) (if prev = None then None else Some (mode, r_settings r1))
           summons wake now (h_home_room h) s = (Inr (), h_store h')"
    and r: "get_room h' room = Some (posted_room room m (operation_of body prin) prev (record_rate is_admin r1)
           summons wake now (h_store h') (r1\<lparr>r_mode := mode\<rparr>))"
    by (rule fresh_postE) (rule that, assumption+)
  have md: "r_mode (room_mut room h') = mode" using r by (simp add: posted_room_fields)
  have adv': "prev = (if pm_sender body = order ! turn then Some turn else None)"
    "mode = RoundRobin order (if pm_sender body = order ! turn then Suc turn mod length order else turn)"
    using adv assms(1,2) by (auto simp: r1 advance_turn_def nth_opt_def split: if_splits)
  have "map_option rr_mode (hm_get (db_rooms d') room) = Some mode"
    if who: "pm_sender body = order ! turn" and d': "sto_conn (h_store h') = Some d'" for d'
  proof -
    obtain d where d: "sto_conn s = Some d"
      using persist_post_persistent [OF ps] d' by (auto simp: is_persistent_def)
    have "m_room m = room" by (simp add: m post_message_of_def)
    from persist_post_txn [OF ps d this] who d' adv'(1) obtain d1 d2 where
      "write_room_state room mode (r_settings r1) d = Inr d1" "insert_core m (operation_of body prin) d1 = Inr d2"
      "d' = post_care room (h_home_room h) summons wake now d2"
      by (auto simp: write_optional_state_def)
    then show ?thesis by (auto dest!: write_room_state_okD insert_core_okD)
  qed
  moreover have "pm_sender body = order ! turn \<or> is_admin"
    using g assms(1,2) by (auto simp: post_gate_None mode_gate_def nth_opt_def split: if_splits)
  ultimately show ?thesis using md adv'(2) by simp
qed

definition sample_turns :: hub where
  "sample_turns = put_room ''loca'' (room_with (RoundRobin [''ada'', ''bob''] 1) sample_settings 1) sample_hub"

theorem round_robin_turn_witness:
  "\<exists>m h'. post ''loca'' (sample_post ''bob'' None None) False ''p'' 50 sample_turns = (Ok m, h')
     \<and> r_mode (room_mut ''loca'' h') = RoundRobin [''ada'', ''bob''] 0"
proof -
  let ?p = "post ''loca'' (sample_post ''bob'' None None) False ''p'' 50 sample_turns"
  have "is_ok (fst ?p)" and n: "h_next_id (snd ?p) \<noteq> h_next_id sample_turns" by code_simp+
  then obtain m where p: "?p = (Ok m, snd ?p)" using ok_run by blast
  have md: "r_mode (room_mut ''loca'' sample_turns) = RoundRobin [''ada'', ''bob''] 1" by code_simp
  have "pm_sender (sample_post ''bob'' None None) = ''bob''" by (simp add: sample_post_def)
  then have "r_mode (room_mut ''loca'' (snd ?p)) = RoundRobin [''ada'', ''bob''] 0"
    using round_robin_turn [OF md _ p n] by simp
  with p show ?thesis by blast
qed

lemma post_care_wait:
  "hm_get (db_waits (post_care room home summons (Some (w, sig)) now d)) (w_room w, w_waiter w) = Some (wait_to_row w)"
  by (simp add: post_care_def write_wait_def write_care_def write_outbox_def Let_def split: option.split)

lemma mirror_wake_care: "FCare sig \<in> set (r_tx (mirror_wake room now s (Some (w, sig)) r))"
  by (simp add: mirror_wake_def Let_def)

text \<open>
  A direct answer wakes exactly the one who waited for it.  When an accepted ordinary
  message is addressed to a participant who waits for its sender, and summons no
  caretaker, that participant's wait starts a new generation with its reminders reset,
  in memory and in the tables, a care envelope owned by him is sent to the room, and the
  waits of everybody else stay as they are.
\<close>

theorem reply_wakes_waiter:
  assumes "post room body is_admin prin now h = (Ok m, h')" and "h_next_id h' \<noteq> h_next_id h"
    and "pm_kind body = Say" and "pm_target body = Some t" and "t \<noteq> []" and "\<not> eq_ignore_ascii_case t ''all''"
    and "t \<noteq> pm_sender body" and "hm_get (r_waits (room_mut room h)) t = Some w"
    and "w_waiting_for w = pm_sender body" and "caretaker_summons h room m now = []"
    and "w_since w < u64_max"
  shows "\<exists>w' sig. r_waits (room_mut room h') = hm_insert t w' (r_waits (room_mut room h))
     \<and> w_waiting_for w' = pm_sender body \<and> w_reason w' = w_reason w \<and> w_since w < w_since w' \<and> w_signal_count w' = 0
     \<and> c_reason sig = WaitReplied \<and> c_owner sig = Some t \<and> FCare sig \<in> set (r_tx (room_mut room h'))
     \<and> (\<forall>d. sto_conn (h_store h') = Some d \<longrightarrow> hm_get (db_waits d) (room, t) = Some (wait_to_row w'))"
proof -
  from accepted_fresh [OF assms(1,2)] obtain atts rts r1 ts summons wake prev mode pt s where
    r1: "r1 = (room_mut room h)\<lparr>r_post_times := pt\<rparr>"
    and m: "m = post_message_of room body atts rts (h_next_id h) ts"
    and su: "summons = caretaker_summons h room m now"
    and wk: "wake = fst (wait_wake room m summons now r1 (accept_state ts h))"
    and ps: "persist_post room m (operation_of body prin) (if prev = None then None else Some (mode, r_settings r1))
           summons wake now (h_home_room h) s = (Inr (), h_store h')"
    and r: "get_room h' room = Some (posted_room room m (operation_of body prin) prev (record_rate is_admin r1)
           summons wake now (h_store h') (r1\<lparr>r_mode := mode\<rparr>))"
    by (rule fresh_postE) (rule that, assumption+)
  obtain since h2 where gen: "next_condition_generation now (w_since w) (accept_state ts h) = (since, h2)" by force
  have msg: "m_target m = Some t" "m_sender m = pm_sender body" "m_kind m = Say" "m_room m = room"
    using assms by (simp_all add: m post_message_of_def)
  then have "answered_wait r1 m = Some w" using assms by (simp add: answered_wait_def r1)
  then obtain w' sig where wake: "wake = Some (w', sig)"
    and w': "w' = \<lparr>w_room = room, w_waiter = t, w_waiting_for = pm_sender body, w_reason = w_reason w,
        w_since = since, w_last_signal_at = None, w_signal_count = 0\<rparr>"
    and sig: "c_reason sig = WaitReplied" "c_owner sig = Some t"
    using wk su assms(9,10) msg gen by (auto simp: wait_wake_def wake_signal_def Let_def split: prod.splits)
  have since: "w_since w < since"
    using gen assms(11) by (auto simp: next_condition_generation_def Let_def u64_saturating_add_def)
  have "hm_get (db_waits d') (room, t) = Some (wait_to_row w')" if d': "sto_conn (h_store h') = Some d'" for d'
  proof -
    obtain d where d: "sto_conn s = Some d"
      using persist_post_persistent [OF ps] d' by (auto simp: is_persistent_def)
    from persist_post_txn [OF ps d msg(4)] d' wake post_care_wait [of room "h_home_room h" summons w' sig now]
    show ?thesis by (auto simp: w')
  qed
  moreover have "r_waits (room_mut room h') = hm_insert t w' (r_waits (room_mut room h))"
    using r wake by (simp add: posted_room_fields w' r1)
  moreover have "FCare sig \<in> set (r_tx (room_mut room h'))"
    using r wake by (simp add: posted_room_def mirror_wake_care)
  ultimately show ?thesis using w' sig since by (intro exI [of _ w'] exI [of _ sig]) simp
qed

theorem reply_wakes_waiter_witness:
  "\<exists>m h' w'. post ''loca'' (sample_post ''bob'' (Some ''ada'') None) False ''p'' 50
       (snd (set_wait ''loca'' (sample_wait_body ''ada'' ''bob'') 10 sample_hub)) = (Ok m, h')
     \<and> hm_get (r_waits (room_mut ''loca'' h')) ''ada'' = Some w' \<and> 10 < w_since w'"
proof -
  let ?h = "snd (set_wait ''loca'' (sample_wait_body ''ada'' ''bob'') 10 sample_hub)"
  let ?b = "sample_post ''bob'' (Some ''ada'') None" and ?w = "new_wait ''loca'' (sample_wait_body ''ada'' ''bob'') 10"
  let ?p = "post ''loca'' ?b False ''p'' 50 ?h"
  have "is_ok (fst ?p)" and n: "h_next_id (snd ?p) \<noteq> h_next_id ?h" by code_simp+
  then obtain m where p: "?p = (Ok m, snd ?p)" using ok_run by blast
  have b: "pm_kind ?b = Say" "pm_target ?b = Some ''ada''" "''ada'' \<noteq> []" "\<not> eq_ignore_ascii_case ''ada'' ''all''"
    "''ada'' \<noteq> pm_sender ?b" "hm_get (r_waits (room_mut ''loca'' ?h)) ''ada'' = Some ?w"
    "w_waiting_for ?w = pm_sender ?b" "w_since ?w < u64_max" "w_since ?w = 10" by code_simp+
  have "case fst ?p of Inl _ \<Rightarrow> False | Inr m \<Rightarrow> caretaker_summons ?h ''loca'' m 50 = []" by code_simp
  then have "caretaker_summons ?h ''loca'' m 50 = []" by (subst (asm) p) simp
  from reply_wakes_waiter [OF p n b(1-7) this b(8)] p b(9) show ?thesis
    by (metis hm_get_insert)
qed

end
