(* ===== verification/Attention_Properties.thy ===== *)
theory Attention_Properties
  imports Attention Samples
begin

text \<open>
  What the attention ledger promises over every sequence of its operations: memory and
  tables agree, the life of an attention is walked forward only, a claim is
  exclusive, only the addressed participant resolves or acknowledges, and an
  undelivered envelope is replayed exactly to the one it is addressed to.
\<close>

subsection \<open>The lifecycle as a transition system\<close>

inductive attention_step :: "hub \<Rightarrow> hub \<Rightarrow> bool" where
  create: "fresh_tokens h \<Longrightarrow> attention_step h (snd (create_attention room req now h))"
| claim: "attention_step h (snd (claim_attention room i actor now h))"
| resolve: "attention_step h (snd (resolve_attention room i actor pid op now h))"
| ack: "attention_step h (snd (ack_care j owner pid now h))"
| faults: "attention_step h (h\<lparr>h_store := (h_store h)\<lparr>sto_faults := fs\<rparr>\<rparr>)"

definition attention_state :: "hub \<Rightarrow> bool" where
  "attention_state h = (is_persistent (h_store h) \<and> ledger_ok h \<and> deliveries_ok h)"

lemma create_attention_errD:
  "create_attention room req now h = (Err e, h') \<Longrightarrow>
     h_rooms h' = h_rooms h \<and> sto_conn (h_store h') = sto_conn (h_store h)
     \<and> h_care_deliveries h' = h_care_deliveries h"
  by (auto simp: create_attention_def open_attention_def secure_token_def enqueue_care_def Let_def
      split: option.splits prod.splits sum.splits elim!: with_storeE dest: wr.err_rolls_back)

text \<open>What a successful creation did, with tokens that were not in use.\<close>

lemma create_attention_effect:
  assumes c: "create_attention room req now h = (Ok a, h')" and f: "fresh_tokens h"
  obtains r sg where "get_room h room = Some r" and "a_id a = ''att_'' @ h_rng h 1"
    and "\<not> hm_contains (r_attentions r) (a_id a)"
    and "c_id sg = ''delivery_'' @ h_rng h 0" and "stable_attention_id sg = a_id a" and "c_owner sg \<noteq> None"
    and "sto_conn (h_store h') = map_option (write_care room sg) (sto_conn (h_store h))"
    and "h_care_deliveries h' = hm_insert (c_id sg) (a_id a) (h_care_deliveries h)"
    and "\<And>n. get_room h' n = (if n = room then Some (send (FCare sg) (send (FAttention a)
       (r\<lparr>r_attentions := hm_insert (a_id a) a (r_attentions r)\<rparr>))) else get_room h n)"
proof -
  define did aid where "did = ''delivery_'' @ h_rng h 0" and "aid = ''att_'' @ h_rng h 1"
  from c obtain r owner ps where r: "get_room h room = Some r"
    and op: "open_attention room r (manual_signal room req now r owner ps did aid)
       (h\<lparr>h_rng := \<lambda>n. h_rng h (Suc (Suc n))\<rparr>) = (Ok a, h')"
    unfolding did_def aid_def by (rule create_attention_cases)
  define sg where "sg = manual_signal room req now r owner ps did aid"
  have sg: "c_id sg = did" "c_attention_id sg = aid" "stable_attention_id sg = aid" "c_owner sg = Some owner"
    by (simp_all add: sg_def aid_def)
  from op [folded sg_def] obtain s h3 where st: "enqueue_care room sg (h_store (h\<lparr>h_rng := \<lambda>n. h_rng h (Suc (Suc n))\<rparr>)) = (Ok (), s)"
    and a: "a = (case store_attention s (c_attention_id sg) of Some a \<Rightarrow> a
        | None \<Rightarrow> attention_of_signal (c_attention_id sg) (origin_room sg) sg)"
    and h3: "h3 = h\<lparr>h_rng := \<lambda>n. h_rng h (Suc (Suc n)), h_store := s,
        h_care_deliveries := hm_insert (c_id sg) (c_attention_id sg) (h_care_deliveries (h\<lparr>h_rng := \<lambda>n. h_rng h (Suc (Suc n))\<rparr>))\<rparr>"
    and h': "h' = put_room room (send (FCare sg) (send (FAttention a)
           (r\<lparr>r_attentions := hm_insert (a_id a) a (r_attentions r)\<rparr>))) h3"
    by (rule open_attention_okD)
  have conn: "sto_conn s = map_option (write_care room sg) (sto_conn (h_store h))"
    using st unfolding enqueue_care_def by (auto dest: run_write_okD)
  have ida: "a_id a = aid"
  proof (cases "sto_conn (h_store h)")
    case None
    then show ?thesis using conn by (simp add: a store_attention_def attention_of_signal_def sg)
  next
    case (Some d)
    then have "\<not> hm_contains (db_attentions d) (stable_attention_id sg)" "\<not> hm_contains (db_outbox d) (c_id sg)"
      using f by (simp_all add: fresh_tokens_def Let_def sg did_def aid_def)
    from write_care_fresh(1) [OF this sg(4), of room] show ?thesis using conn Some
      by (simp add: a store_attention_def attention_from_row_def Let_def sg)
  qed
  have none: "\<not> hm_contains (r_attentions r) (a_id a)"
    using f r unfolding ida by (auto simp: fresh_tokens_def Let_def aid_def)
  have get: "get_room h' n = (if n = room then Some (send (FCare sg) (send (FAttention a)
       (r\<lparr>r_attentions := hm_insert (a_id a) a (r_attentions r)\<rparr>))) else get_room h n)" for n
    by (simp add: h' h3 get_room_def put_room_def)
  show thesis
    by (rule that [OF r _ none _ _ _ _ _ get])
      (use ida conn sg in \<open>simp_all add: h' h3 did_def aid_def\<close>)
qed

subsection \<open>Steps keep the state\<close>

text \<open>Deliveries still name their attention when no outbox row changes the one it belongs to.\<close>

lemma deliveries_ok_frame:
  assumes "deliveries_ok h"
    and "\<And>d' i row'. sto_conn (h_store h') = Some d' \<Longrightarrow> hm_get (db_outbox d') i = Some row' \<Longrightarrow>
       \<exists>d row. sto_conn (h_store h) = Some d \<and> hm_get (db_outbox d) i = Some row
          \<and> ob_attention_id row' = ob_attention_id row"
    and "\<And>i aid. hm_get (h_care_deliveries h') i = Some aid \<Longrightarrow> hm_get (h_care_deliveries h) i = Some aid"
  shows "deliveries_ok h'"
  using assms unfolding deliveries_ok_def by fastforce

lemma deliveries_ok_same:
  "deliveries_ok h \<Longrightarrow> sto_conn (h_store h') = sto_conn (h_store h) \<Longrightarrow>
     (\<And>i aid. hm_get (h_care_deliveries h') i = Some aid \<Longrightarrow> hm_get (h_care_deliveries h) i = Some aid)
     \<Longrightarrow> deliveries_ok h'"
  unfolding deliveries_ok_def by metis

lemma write_care_outbox_other:
  "i \<noteq> c_id s \<Longrightarrow> hm_get (db_outbox (write_care room s d)) i = hm_get (db_outbox d) i"
  by (simp add: write_care_def write_outbox_def Let_def split: option.split)

lemma claim_deliveries:
  "claim_attention room i actor now h = (res, h') \<Longrightarrow> h_care_deliveries h' = h_care_deliveries h"
  by (auto simp: claim_attention_def Let_def split: option.splits if_splits prod.splits sum.splits bool.splits
      elim!: with_storeE)

lemma resolve_deliveries:
  "resolve_attention room i actor pid op now h = (res, h') \<Longrightarrow> h_care_deliveries h' = h_care_deliveries h"
  by (auto simp: resolve_attention_def finish_resolve_def Let_def
      split: option.splits if_splits prod.splits sum.splits bool.splits elim!: with_storeE)

lemma ack_deliveries:
  "ack_care j owner pid now h = (res, h') \<Longrightarrow> hm_get (h_care_deliveries h') i = Some aid \<Longrightarrow>
     hm_get (h_care_deliveries h) i = Some aid"
  by (auto simp: ack_care_def Let_def split: option.splits if_splits prod.splits sum.splits elim!: with_storeE)

lemma persistent_conn: "is_persistent s \<longleftrightarrow> (\<exists>d. sto_conn s = Some d)"
  by (auto simp: is_persistent_def)

lemma claim_keeps_state:
  assumes st: "attention_state h"
  shows "attention_state (snd (claim_attention room i actor now h))"
proof -
  obtain res h' where c: "claim_attention room i actor now h = (res, h')" by force
  have l: "ledger_ok h'" using claim_attention_ledger st c by (metis attention_state_def snd_conv)
  have del: "h_care_deliveries h' = h_care_deliveries h" by (rule claim_deliveries [OF c])
  have d0: "deliveries_ok h" and ps: "is_persistent (h_store h)" using st by (simp_all add: attention_state_def)
  show ?thesis
  proof (cases res)
    case (Inl e)
    then have e: "sto_conn (h_store h') = sto_conn (h_store h)" using c claim_attention_errD by blast
    have "deliveries_ok h'" by (rule deliveries_ok_same [OF d0 e]) (simp add: del)
    then show ?thesis using l e ps c by (simp add: attention_state_def is_persistent_def)
  next
    case (Inr out)
    from c [unfolded Inr] obtain s where s: "store_claim_attention i actor now (h_store h) = (Inr True, s)"
      and hs: "h_store h' = s" by (auto elim!: claim_attention_okD)
    have p': "is_persistent s" using run_txn_persistent [OF s [unfolded store_claim_attention_def]] ps by simp
    have "deliveries_ok h'"
      by (rule deliveries_ok_frame [OF d0]) (use del hs store_claim_trueD [OF s] in auto)
    then show ?thesis using l p' hs c by (simp add: attention_state_def)
  qed
qed

lemma finish_resolve_conn:
  assumes "finish_resolve room i now r a h = (Ok out, h')"
  shows "store_resolve_attention i now (h_store h) = (Inr True, h_store h')"
  using assms by (auto simp: finish_resolve_def Let_def split: if_splits prod.splits sum.splits bool.splits
      elim!: with_storeE)

lemma resolve_keeps_state:
  assumes st: "attention_state h"
  shows "attention_state (snd (resolve_attention room i actor pid op now h))"
proof -
  obtain res h' where c: "resolve_attention room i actor pid op now h = (res, h')" by force
  have l: "ledger_ok h'" using resolve_attention_ledger st c by (metis attention_state_def snd_conv)
  have del: "h_care_deliveries h' = h_care_deliveries h" by (rule resolve_deliveries [OF c])
  have d0: "deliveries_ok h" and ps: "is_persistent (h_store h)" using st by (simp_all add: attention_state_def)
  show ?thesis
  proof (cases res)
    case (Inl e)
    then have e: "sto_conn (h_store h') = sto_conn (h_store h)" using c resolve_attention_errD by blast
    have "deliveries_ok h'" by (rule deliveries_ok_same [OF d0 e]) (simp add: del)
    then show ?thesis using l e ps c by (simp add: attention_state_def is_persistent_def)
  next
    case (Inr out)
    from c [unfolded Inr] obtain r a s0 where s0: "sto_conn s0 = sto_conn (h_store h)"
      and fr: "finish_resolve room i now r a (h\<lparr>h_store := s0\<rparr>) = (Ok out, h')" by (rule resolve_attention_okD)
    have s: "store_resolve_attention i now s0 = (Inr True, h_store h')" using finish_resolve_conn [OF fr] by simp
    have p': "is_persistent (h_store h')"
      using run_txn_persistent [OF s [unfolded store_resolve_attention_def]] ps s0 by (simp add: is_persistent_def)
    have "deliveries_ok h'"
      by (rule deliveries_ok_frame [OF d0])
        (use del s0 store_resolve_trueD [OF s] in \<open>auto simp: ack_rows_def split: if_splits\<close>)
    then show ?thesis using l p' c by (simp add: attention_state_def)
  qed
qed

lemma ack_keeps_state:
  assumes st: "attention_state h"
  shows "attention_state (snd (ack_care j owner pid now h))"
proof -
  obtain res h' where c: "ack_care j owner pid now h = (res, h')" by force
  obtain d where d: "sto_conn (h_store h) = Some d" using st by (auto simp: attention_state_def persistent_conn)
  have d0: "deliveries_ok h" using st by (simp add: attention_state_def)
  have l: "ledger_ok h'" using ack_care_ledger [OF _ d0 d] st c by (metis attention_state_def snd_conv)
  show ?thesis
  proof (cases "res = Ok True")
    case False
    then have "sto_conn (h_store h') = sto_conn (h_store h)" using c ack_care_not_true by blast
    moreover from this have "deliveries_ok h'" by (rule deliveries_ok_same [OF d0]) (rule ack_deliveries [OF c])
    ultimately show ?thesis using l d c by (simp add: attention_state_def is_persistent_def)
  next
    case True
    from c [unfolded True] d obtain s where s: "ack_care_scoped j owner pid now (h_store h) = (Inr True, s)"
      and hs: "h_store h' = s" by (auto elim!: ack_care_trueD)
    from s obtain d1 row where "sto_conn (h_store h) = Some d1" "hm_get (db_outbox d1) j = Some row"
      and s': "sto_conn s = Some (d1\<lparr>db_outbox := hm_insert j (row\<lparr>ob_acked_at := Some now\<rparr>) (db_outbox d1),
           db_attentions := hm_map (\<lambda>k a. if k = ob_attention_id row
               then a\<lparr>ar_delivered_at := coalesce (ar_delivered_at a) now\<rparr> else a) (db_attentions d1)\<rparr>)"
      by (rule ack_scoped_trueD)
    then have "deliveries_ok h'"
      by (intro deliveries_ok_frame [OF d0]) (use ack_deliveries [OF c] hs in \<open>auto split: if_splits\<close>)
    then show ?thesis using l hs s' c by (simp add: attention_state_def is_persistent_def)
  qed
qed

lemma create_keeps_state:
  assumes st: "attention_state h" and f: "fresh_tokens h"
  shows "attention_state (snd (create_attention room req now h))"
proof -
  obtain res h' where c: "create_attention room req now h = (res, h')" by force
  have d0: "deliveries_ok h" and l0: "ledger_ok h" using st by (simp_all add: attention_state_def)
  obtain d where d: "sto_conn (h_store h) = Some d" using st by (auto simp: attention_state_def persistent_conn)
  show ?thesis
  proof (cases res)
    case (Inl e)
    then have e: "h_rooms h' = h_rooms h" "sto_conn (h_store h') = sto_conn (h_store h)"
      "h_care_deliveries h' = h_care_deliveries h" using c create_attention_errD by blast+
    have "ledger_ok h'" by (rule ledger_ok_same [OF l0]) (use e in \<open>simp_all add: get_room_def\<close>)
    then show ?thesis using e d deliveries_ok_same [OF d0 e(2)] c by (simp add: attention_state_def is_persistent_def)
  next
    case (Inr a)
    from c [unfolded Inr] f obtain r sg where
      sg: "c_id sg = ''delivery_'' @ h_rng h 0" "stable_attention_id sg = a_id a" "c_owner sg \<noteq> None"
      and ida: "a_id a = ''att_'' @ h_rng h 1"
      and cn: "sto_conn (h_store h') = map_option (write_care room sg) (sto_conn (h_store h))"
      and dl: "h_care_deliveries h' = hm_insert (c_id sg) (a_id a) (h_care_deliveries h)"
      by (rule create_attention_effect)
    have fr: "\<not> hm_contains (db_attentions d) (stable_attention_id sg)" "\<not> hm_contains (db_outbox d) (c_id sg)"
      using f d sg ida by (simp_all add: fresh_tokens_def Let_def)
    obtain owner where "c_owner sg = Some owner" using sg(3) by auto
    from write_care_fresh(3) [OF fr this, of room]
    have "ob_attention_id row = a_id a" if "hm_get (db_outbox (write_care room sg d)) (c_id sg) = Some row" for row
      using that sg(2) by auto
    then have "deliveries_ok h'"
      using d0 d unfolding deliveries_ok_def cn dl by (auto simp: write_care_outbox_other split: if_splits)
    moreover have "ledger_ok h'" using create_attention_ledger [OF l0 f] c Inr by blast
    ultimately show ?thesis using c cn d by (simp add: attention_state_def is_persistent_def)
  qed
qed

lemma attention_step_keeps:
  assumes "attention_state h" and "attention_step h h'"
  shows "attention_state h'"
  using assms(2)
proof cases
  case (faults fs)
  have "ledger_ok h'" by (rule ledger_ok_same) (use assms(1) faults in \<open>simp_all add: attention_state_def get_room_def\<close>)
  then show ?thesis using assms(1) faults deliveries_ok_same [of h h']
    by (simp add: attention_state_def is_persistent_def)
qed (use assms(1) create_keeps_state claim_keeps_state resolve_keeps_state ack_keeps_state in auto)

interpretation attention_system: step_invariant attention_step attention_state
  by unfold_locales (rule attention_step_keeps)

subsection \<open>An attention only moves forward\<close>

definition attention_at :: "hub \<Rightarrow> string \<Rightarrow> string \<Rightarrow> attention option" where
  "attention_at h room i = (case get_room h room of None \<Rightarrow> None | Some r \<Rightarrow> hm_get (r_attentions r) i)"

definition status_rank :: "AttentionStatus \<Rightarrow> nat" where
  "status_rank st = (case st of AttOpen \<Rightarrow> 0 | AttClaimed \<Rightarrow> 1 | AttResolved \<Rightarrow> 2)"

text \<open>\<open>later a b\<close>: the attention \<open>a\<close> may have become \<open>b\<close>.\<close>

definition later :: "attention \<Rightarrow> attention \<Rightarrow> bool" where
  "later a b = (status_rank (a_status a) \<le> status_rank (a_status b)
     \<and> (a_status a \<noteq> AttOpen \<longrightarrow> a_claimed_by b = a_claimed_by a \<and> a_claimed_at b = a_claimed_at a)
     \<and> (a_status a = AttResolved \<longrightarrow> a_resolved_at b = a_resolved_at a)
     \<and> (a_delivered_at a \<noteq> None \<longrightarrow> a_delivered_at b = a_delivered_at a)
     \<and> a_owner b = a_owner a \<and> a_room b = a_room a \<and> a_subject b = a_subject a \<and> a_audience b = a_audience a)"

lemma later_refl [simp]: "later a a"
  by (simp add: later_def)

lemma later_trans: "later a b \<Longrightarrow> later b c \<Longrightarrow> later a c"
  unfolding later_def status_rank_def by (auto split: AttentionStatus.splits)

lemma later_claimed: "a_status a = AttOpen \<Longrightarrow> later a (claimed_copy actor now a)"
  by (simp add: later_def claimed_copy_def status_rank_def)

lemma later_resolved: "a_status a \<noteq> AttResolved \<Longrightarrow> later a (resolved_copy now a)"
  by (cases "a_status a") (simp_all add: later_def resolved_copy_def status_rank_def)

lemma later_delivered: "later a (delivered_copy now a)"
  by (auto simp: later_def delivered_copy_def)

lemma attention_at_same_rooms: "h_rooms h' = h_rooms h \<Longrightarrow> attention_at h' = attention_at h"
  by (simp add: fun_eq_iff attention_at_def get_room_def)

lemma attention_at_put:
  "r_attentions r' = hm_insert j b (r_attentions r) \<Longrightarrow> get_room h n = Some r \<Longrightarrow>
     h_rooms h0 = h_rooms h \<Longrightarrow>
     attention_at (put_room n r' h0) m i = (if m = n \<and> i = j then Some b else attention_at h m i)"
  by (auto simp: attention_at_def get_room_def put_room_def)

lemma attention_step_forward:
  assumes st: "attention_state h" and step: "attention_step h h'" and a: "attention_at h room i = Some a"
  shows "\<exists>b. attention_at h' room i = Some b \<and> later a b"
proof -
  have same: ?thesis if "h_rooms h' = h_rooms h" using a that by (simp add: attention_at_same_rooms [OF that])
  from step show ?thesis
  proof cases
    case (create n req now)
    obtain res where c: "create_attention n req now h = (res, h')" using create by (metis prod.collapse)
    show ?thesis
    proof (cases res)
      case (Inl e)
      then show ?thesis using c create_attention_errD same by blast
    next
      case (Inr out)
      from c [unfolded Inr] create(2) obtain r sg where r: "get_room h n = Some r"
        "\<not> hm_contains (r_attentions r) (a_id out)"
        and get: "\<And>m. get_room h' m = (if m = n then Some (send (FCare sg) (send (FAttention out)
           (r\<lparr>r_attentions := hm_insert (a_id out) out (r_attentions r)\<rparr>))) else get_room h m)"
        by (rule create_attention_effect) (rule that, assumption+)
      have "attention_at h' room i = Some a" using a r by (auto simp: attention_at_def get hm_contains_def)
      then show ?thesis by simp
    qed
  next
    case (claim n j actor now)
    obtain res where c: "claim_attention n j actor now h = (res, h')" using claim by (metis prod.collapse)
    show ?thesis
    proof (cases res)
      case (Inl e)
      then show ?thesis using c claim_attention_errD same by blast
    next
      case (Inr out)
      from c [unfolded Inr] obtain r a0 s where r: "get_room h n = Some r" "hm_get (r_attentions r) j = Some a0"
        "a_status a0 = AttOpen" "out = claimed_copy actor now a0"
        and h': "h' = put_room n (send (FAttention out) (r\<lparr>r_attentions := hm_insert j out (r_attentions r)\<rparr>))
           (h\<lparr>h_store := s\<rparr>)" by (rule claim_attention_okD)
      have "attention_at h n j = Some a0" using r by (simp add: attention_at_def)
      then show ?thesis using a r later_claimed unfolding h'
        by (subst attention_at_put [OF _ r(1)]) auto
    qed
  next
    case (resolve n j actor pid op now)
    obtain res where c: "resolve_attention n j actor pid op now h = (res, h')" using resolve by (metis prod.collapse)
    show ?thesis
    proof (cases res)
      case (Inl e)
      then show ?thesis using c resolve_attention_errD same by blast
    next
      case (Inr out)
      from c [unfolded Inr] obtain r a0 s0 where r: "get_room h n = Some r" "hm_get (r_attentions r) j = Some a0"
        and fr: "finish_resolve n j now r a0 (h\<lparr>h_store := s0\<rparr>) = (Ok out, h')" by (rule resolve_attention_okD)
      from fr obtain s where o: "a_status a0 \<noteq> AttResolved" "out = resolved_copy now a0"
        and h': "h' = put_room n (send (FAttention out) (r\<lparr>r_attentions := hm_insert j out (r_attentions r)\<rparr>))
           (h\<lparr>h_store := s0, h_store := s\<rparr>)" by (rule finish_resolve_okD)
      have "attention_at h n j = Some a0" using r by (simp add: attention_at_def)
      then show ?thesis using a o later_resolved unfolding h'
        by (subst attention_at_put [OF _ r(1)]) auto
    qed
  next
    case (ack j owner pid now)
    obtain res where c: "ack_care j owner pid now h = (res, h')" using ack by (metis prod.collapse)
    show ?thesis
    proof (cases "res = Ok True")
      case False
      then show ?thesis using c ack_care_not_true same by blast
    next
      case True
      obtain d where d: "sto_conn (h_store h) = Some d" using st by (auto simp: attention_state_def persistent_conn)
      from c [unfolded True] d obtain aid s where
        h': "h' = h\<lparr>h_store := s, h_care_deliveries := hm_remove j (h_care_deliveries h),
               h_rooms := mark_delivered aid now (h_rooms h)\<rparr>" by (rule ack_care_trueD)
      have ok: "hm_ok (h_rooms h)" "unique_home h" using st by (simp_all add: attention_state_def ledger_ok_def)
      have one: "\<forall>(n, r) \<in> set (h_rooms h). \<forall>(n', r') \<in> set (h_rooms h).
          hm_get (r_attentions r) aid \<noteq> None \<longrightarrow> hm_get (r_attentions r') aid \<noteq> None \<longrightarrow> n = n'"
        using ok(2) unfolding unique_home_def get_room_def hm_contains_def
        by (auto simp: hm_entry_iff [OF ok(1)]) blast
      from a obtain r where r: "hm_get (h_rooms h) room = Some r" "hm_get (r_attentions r) i = Some a"
        by (auto simp: attention_at_def get_room_def split: option.splits)
      show ?thesis
        using r later_delivered [of a now] mark_delivered_get [OF ok(1) one, of now room]
        by (cases "hm_get (r_attentions r) aid")
          (auto simp: attention_at_def get_room_def h' delivered_room_def split: if_splits)
    qed
  next
    case (faults fs)
    then show ?thesis using same by simp
  qed
qed

lemma attention_forward:
  assumes "attention_state h" and "attention_step\<^sup>*\<^sup>* h h'" and "attention_at h room i = Some a"
  shows "\<exists>b. attention_at h' room i = Some b \<and> later a b"
  using assms(2,1,3)
proof (induction rule: rtranclp_induct)
  case base
  then show ?case by auto
next
  case (step y z)
  then obtain b where b: "attention_at y room i = Some b" "later a b" by blast
  have "attention_state y" using attention_system.reach_keeps step by blast
  from attention_step_forward [OF this step(2) b(1)] b(2) show ?case using later_trans by blast
qed

subsection \<open>Properties\<close>

text \<open>An attention \<open>ada\<close> opened for \<open>bob\<close>, and the same one claimed.\<close>

definition sample_ask :: create_attention_body where
  "sample_ask = \<lparr> ca_subject = ''look'', ca_audience = AudPerson ''bob'', ca_by = ''ada'' \<rparr>"

definition sample_asked :: hub where
  "sample_asked = snd (create_attention ''loca'' sample_ask 100 sample_hub)"

definition sample_claimed :: hub where
  "sample_claimed = snd (claim_attention ''loca'' ''att_t1'' ''bob'' 110 sample_asked)"

lemma sample_hub_fresh: "fresh_tokens sample_hub"
  by (simp add: fresh_tokens_def Let_def sample_hub_def sample_store_def empty_db_def get_room_def hm_get_def
      hm_contains_def room_with_def)

lemma sample_hub_attention_state: "attention_state sample_hub"
  by (simp add: attention_state_def is_persistent_def ledger_ok_def unique_home_def deliveries_ok_def
      sample_hub_def sample_store_def get_room_def hm_get_def hm_contains_def room_with_def empty_db_def hm_ok_def)

lemma sample_asked_reached: "attention_step\<^sup>*\<^sup>* sample_hub sample_asked"
  unfolding sample_asked_def by (rule r_into_rtranclp) (rule attention_step.create [OF sample_hub_fresh])

lemma sample_asked_state: "attention_state sample_asked"
  by (rule attention_system.reach_keeps [OF sample_asked_reached sample_hub_attention_state])


text \<open>
  C7: memory and ledger agree.  After any sequence of creations, claims, resolutions and
  receipts, with any storage failures in between, every attention a room shows is the
  ledger's row of that id, field for field, and no attention is shown in two rooms.
\<close>

theorem attention_ledger_agrees:
  assumes "attention_state h" and "attention_step\<^sup>*\<^sup>* h h'" and "attention_at h' room i = Some a"
  shows "store_attention (h_store h') i = Some a
     \<and> (\<forall>room'. attention_at h' room' i \<noteq> None \<longrightarrow> room' = room)"
proof -
  have st: "attention_state h'" by (rule attention_system.reach_keeps [OF assms(2,1)])
  obtain d where d: "sto_conn (h_store h') = Some d" using st by (auto simp: attention_state_def persistent_conn)
  from assms(3) obtain r where r: "get_room h' room = Some r" "hm_get (r_attentions r) i = Some a"
    by (auto simp: attention_at_def split: option.splits)
  have "store_attention (h_store h') i = Some a"
    using st d r by (auto simp: attention_state_def store_attention_def elim: ledger_okD)
  moreover have "room' = room" if "attention_at h' room' i \<noteq> None" for room'
  proof -
    from that obtain r' where "get_room h' room' = Some r'" "hm_get (r_attentions r') i \<noteq> None"
      by (auto simp: attention_at_def split: option.splits)
    then show ?thesis using st r unfolding attention_state_def ledger_ok_def unique_home_def hm_contains_def
      by (metis option.distinct(1))
  qed
  ultimately show ?thesis by blast
qed

theorem attention_ledger_agrees_witness:
  "\<exists>a. attention_at sample_asked ''loca'' ''att_t1'' = Some a \<and> store_attention (h_store sample_asked) ''att_t1'' = Some a"
proof -
  have "attention_at sample_asked ''loca'' ''att_t1'' \<noteq> None" by code_simp
  then obtain a where "attention_at sample_asked ''loca'' ''att_t1'' = Some a" by blast
  with attention_ledger_agrees [OF sample_hub_attention_state sample_asked_reached this] show ?thesis by blast
qed



text \<open>
  C9: a claim is exclusive and belongs to the owner.  Only the owner of an attention
  claims it, and once it is claimed no later claim of it succeeds, whatever happens in
  between.
\<close>

theorem claim_exclusive:
  assumes "attention_state h" and "claim_attention room i actor now h = (Ok a, h')"
    and "attention_step\<^sup>*\<^sup>* h' h''"
  shows "a_owner a = Some actor \<and> a_claimed_by a = Some actor
     \<and> \<not> is_ok (fst (claim_attention room i actor' now' h''))"
proof -
  from assms(2) obtain r a0 s where r: "get_room h room = Some r" "a_owner a0 = Some actor"
    "a = claimed_copy actor now a0"
    and h': "h' = put_room room (send (FAttention a) (r\<lparr>r_attentions := hm_insert i a (r_attentions r)\<rparr>))
           (h\<lparr>h_store := s\<rparr>)" by (rule claim_attention_okD)
  have st: "attention_state h'" using claim_keeps_state [OF assms(1), of room i actor now] assms(2) by simp
  have "attention_at h' room i = Some a" by (simp add: h' attention_at_def)
  from attention_forward [OF st assms(3) this] obtain b where b: "attention_at h'' room i = Some b" "later a b"
    by blast
  have "a_status b \<noteq> AttOpen"
    using b(2) r(3) by (auto simp: later_def claimed_copy_def status_rank_def split: AttentionStatus.splits)
  then have "\<not> is_ok (fst (claim_attention room i actor' now' h''))"
    using b(1) by (auto simp: claim_attention_def attention_at_def split: option.splits)
  then show ?thesis using r by (simp add: claimed_copy_def)
qed

theorem claim_exclusive_witness:
  "fst (claim_attention ''loca'' ''att_t1'' ''bob'' 120 sample_claimed) = Err AttConflict
   \<and> \<not> is_ok (fst (claim_attention ''loca'' ''att_t1'' ''eve'' 120 sample_claimed))"
proof -
  have "is_ok (fst (claim_attention ''loca'' ''att_t1'' ''bob'' 110 sample_asked))" by code_simp
  then obtain a where "claim_attention ''loca'' ''att_t1'' ''bob'' 110 sample_asked = (Ok a, sample_claimed)"
    unfolding sample_claimed_def using ok_run by blast
  from claim_exclusive [OF sample_asked_state this, of sample_claimed "''eve''" 120]
  have "\<not> is_ok (fst (claim_attention ''loca'' ''att_t1'' ''eve'' 120 sample_claimed))" by blast
  moreover have "fst (claim_attention ''loca'' ''att_t1'' ''bob'' 120 sample_claimed) = Err AttConflict" by code_simp
  ultimately show ?thesis by blast
qed

text \<open>
  C10: who may resolve is decided by what the ledger recorded.  On a persistent store, a
  caller who is no operator resolves an attention only if it is recorded for his
  principal, or, when the envelope names no principal, if he is the owner or claimant
  by name; a row that names a principal is closed to everybody else, whatever name
  they carry.  A second resolution is refused.
\<close>

theorem resolve_authority:
  assumes "sto_conn (h_store h) = Some d" and "hm_get (db_attentions d) i = Some row"
    and "resolve_attention room i actor pid False now h = (Ok out, h')"
  shows "(case c_owner_principal_id (ar_signal row) of
       Some p \<Rightarrow> pid = Some p
     | None \<Rightarrow> a_owner out = Some actor \<or> a_claimed_by out = Some actor)
     \<and> a_status out = AttResolved
     \<and> \<not> is_ok (fst (resolve_attention room i actor' pid' op' now' h'))"
proof -
  from assms(3) obtain r a s0 where r: "get_room h room = Some r" "hm_get (r_attentions r) i = Some a"
    and may: "False \<or> may_resolve (case sto_conn (h_store h) of None \<Rightarrow> None
       | Some d \<Rightarrow> map_option (\<lambda>r. c_owner_principal_id (ar_signal r)) (hm_get (db_attentions d) i)) a actor pid"
    and fr: "finish_resolve room i now r a (h\<lparr>h_store := s0\<rparr>) = (Ok out, h')" by (rule resolve_attention_okD)
  from fr obtain s where o: "out = resolved_copy now a"
    and h': "h' = put_room room (send (FAttention out) (r\<lparr>r_attentions := hm_insert i out (r_attentions r)\<rparr>))
           (h\<lparr>h_store := s0, h_store := s\<rparr>)" by (rule finish_resolve_okD)
  have "get_room h' room = Some (send (FAttention out) (r\<lparr>r_attentions := hm_insert i out (r_attentions r)\<rparr>))"
    by (simp add: h')
  then have "\<not> is_ok (fst (resolve_attention room i actor' pid' op' now' h'))"
    using o by (auto simp: resolve_attention_def finish_resolve_def resolved_copy_def split: prod.splits sum.splits)
  then show ?thesis
    using may assms(1,2) o by (auto simp: may_resolve_def resolved_copy_def Let_def split: option.splits)
qed

theorem resolve_authority_witness:
  "\<exists>out h'. resolve_attention ''loca'' ''att_t1'' ''bob'' None False 130 sample_asked = (Ok out, h')
     \<and> (a_owner out = Some ''bob'' \<or> a_claimed_by out = Some ''bob'')"
proof -
  let ?r = "resolve_attention ''loca'' ''att_t1'' ''bob'' None False 130 sample_asked"
  have "is_ok (fst ?r)" by code_simp
  then obtain out where o: "?r = (Ok out, snd ?r)" using ok_run by blast
  have "case sto_conn (h_store sample_asked) of None \<Rightarrow> False | Some d \<Rightarrow>
     (case hm_get (db_attentions d) ''att_t1'' of None \<Rightarrow> False
      | Some row \<Rightarrow> c_owner_principal_id (ar_signal row) = None)" by code_simp
  then obtain d row where d: "sto_conn (h_store sample_asked) = Some d" "hm_get (db_attentions d) ''att_t1'' = Some row"
    "c_owner_principal_id (ar_signal row) = None" by (auto split: option.splits)
  from resolve_authority [OF d(1,2) o] d(3) o show ?thesis by auto
qed

text \<open>
  An open request reaches its owner.  A successful creation on a persistent store
  leaves an envelope for the owner that is replayed to him in that room when he
  reconnects, whatever principal he presents, and the room hears of it at once.
\<close>

theorem created_attention_replayed:
  assumes "is_persistent (h_store h)" and "fresh_tokens h" and "create_attention room req now h = (Ok a, h')"
  shows "\<exists>sg owner. a_owner a = Some owner \<and> c_owner sg = Some owner \<and> c_subject sg = ca_subject req
     \<and> FCare sg \<in> set (r_tx (room_mut room h'))
     \<and> (\<forall>sha pid. sg \<in> set (pending_care_scoped sha h' room owner pid))"
proof -
  let ?did = "''delivery_'' @ h_rng h 0" and ?aid = "''att_'' @ h_rng h 1" and ?h = "h\<lparr>h_rng := \<lambda>n. h_rng h (Suc (Suc n))\<rparr>"
  obtain d where d: "sto_conn (h_store h) = Some d" using assms(1) by (auto simp: persistent_conn)
  from assms(3) obtain r owner ps where
    op: "open_attention room r (manual_signal room req now r owner ps ?did ?aid) ?h = (Ok a, h')"
    by (rule create_attention_cases)
  define sg where "sg = manual_signal room req now r owner ps ?did ?aid"
  have sg: "c_owner sg = Some owner" "c_owner_principal_id sg = None" "c_room sg = room" "c_subject sg = ca_subject req"
    "c_attention_id sg = ?aid" "c_id sg = ?did" by (simp_all add: sg_def) (simp add: manual_signal_def)
  have fr: "\<not> hm_contains (db_attentions d) (c_attention_id sg)" "\<not> hm_contains (db_outbox d) (c_id sg)"
    using assms(2) d sg(5,6) by (simp_all add: fresh_tokens_def Let_def)
  have pend: "sg \<in> set (pending_care_scoped sha h' room owner pid)" for sha pid
    by (rule open_attention_pending [OF op [folded sg_def] _ sg(1-3) _ fr]) (use d sg(5) in simp_all)
  from op [folded sg_def] obtain s h3 where
    a: "a = (case store_attention s (c_attention_id sg) of Some a \<Rightarrow> a
        | None \<Rightarrow> attention_of_signal (c_attention_id sg) (origin_room sg) sg)"
    and st: "enqueue_care room sg (h_store ?h) = (Ok (), s)"
    and h': "h' = put_room room (send (FCare sg) (send (FAttention a)
           (r\<lparr>r_attentions := hm_insert (a_id a) a (r_attentions r)\<rparr>))) h3" by (rule open_attention_okD)
  have "stable_attention_id sg = c_attention_id sg" using sg(5) by (simp add: stable_attention_id_def)
  moreover have "sto_conn s = Some (write_care room sg d)"
    using st d unfolding enqueue_care_def by (auto dest: run_write_okD)
  ultimately have "a_owner a = Some owner"
    using write_care_fresh(1) [of d sg owner room] fr sg(1)
    by (simp add: a store_attention_def attention_from_row_def Let_def)
  moreover have "FCare sg \<in> set (r_tx (room_mut room h'))" by (simp add: h' room_mut_def put_room_def)
  ultimately show ?thesis using pend sg by blast
qed

theorem created_attention_replayed_witness:
  "\<exists>sg. c_subject sg = ca_subject sample_ask \<and> sg \<in> set (pending_care_scoped (\<lambda>_. []) sample_asked ''loca'' ''bob'' None)"
proof -
  have "is_persistent (h_store sample_hub)" by code_simp
  moreover have "case fst (create_attention ''loca'' sample_ask 100 sample_hub) of Inl _ \<Rightarrow> False
     | Inr a \<Rightarrow> a_owner a = Some ''bob''" by code_simp
  then obtain a where a: "create_attention ''loca'' sample_ask 100 sample_hub = (Ok a, sample_asked)"
    "a_owner a = Some ''bob''"
    unfolding sample_asked_def by (cases "create_attention ''loca'' sample_ask 100 sample_hub") (auto split: sum.splits)
  ultimately show ?thesis using created_attention_replayed [OF _ sample_hub_fresh a(1)] a(2) by fastforce
qed

text \<open>
  What is replayed.  A reconnecting participant is replayed an envelope exactly when
  an outbox row holds it for this room, it was not acknowledged, its attention is not
  resolved, it is addressed to his principal (or, without a principal, to his name),
  and a principal it names is still an active recipient of the room.
\<close>

theorem replay_exact:
  assumes "sto_conn (h_store h) = Some d"
  shows "c \<in> set (pending_care_scoped sha h room owner pid) \<longleftrightarrow>
     c_room c = room
     \<and> (\<forall>p. c_owner_principal_id c = Some p \<longrightarrow> everyone_recipient_active sha h room p)
     \<and> (\<exists>i row. (i, row) \<in> set (db_outbox d) \<and> ob_signal row = c \<and> ob_delivery_room row = room
          \<and> ob_acked_at row = None
          \<and> (\<forall>a. hm_get (db_attentions d) (ob_attention_id row) = Some a \<longrightarrow> ar_resolved_at a = None)
          \<and> (case ob_owner_principal_id row of None \<Rightarrow> ob_owner row = owner | Some p \<Rightarrow> pid = Some p))"
proof -
  have "pending_row_ok d room owner pid row \<longleftrightarrow> ob_delivery_room row = room \<and> ob_acked_at row = None
      \<and> (\<forall>a. hm_get (db_attentions d) (ob_attention_id row) = Some a \<longrightarrow> ar_resolved_at a = None)
      \<and> (case ob_owner_principal_id row of None \<Rightarrow> ob_owner row = owner | Some p \<Rightarrow> pid = Some p)" for row
    by (simp add: pending_row_ok_def addressed_to_def split: option.split)
  then show ?thesis unfolding pending_care_iff [OF assms] by simp
qed

theorem replay_exact_witness:
  "pending_care_scoped (\<lambda>_. []) sample_asked ''loca'' ''eve'' None = []
   \<and> (\<forall>c. c \<notin> set (pending_care_scoped (\<lambda>_. []) sample_hub ''loca'' ''bob'' None))"
proof -
  have d: "sto_conn (h_store sample_hub) = Some empty_db" by (simp add: sample_hub_def sample_store_def)
  have "pending_care_scoped (\<lambda>_. []) sample_asked ''loca'' ''eve'' None = []" by code_simp
  then show ?thesis unfolding replay_exact [OF d] by (simp add: empty_db_def)
qed

text \<open>
  A receipt is the addressee's, and ends the replay.  On a persistent store a receipt
  counts only when the delivery was addressed to the caller, by principal or, without
  one, by name, and was not acknowledged before; afterwards the row is acknowledged
  and the attention shows as delivered, and every other call changes nothing.
\<close>

theorem receipt_scoped:
  assumes "sto_conn (h_store h) = Some d" and "ack_care i owner pid now h = (res, h')"
  shows "(res = Ok True \<longrightarrow> (\<exists>row d'. hm_get (db_outbox d) i = Some row \<and> ob_acked_at row = None
            \<and> (case ob_owner_principal_id row of None \<Rightarrow> ob_owner row = owner | Some p \<Rightarrow> pid = Some p)
            \<and> sto_conn (h_store h') = Some d'
            \<and> map_option ob_acked_at (hm_get (db_outbox d') i) = Some (Some now)
            \<and> (\<forall>a. hm_get (db_attentions d') (ob_attention_id row) = Some a \<longrightarrow> ar_delivered_at a \<noteq> None)))
     \<and> (res \<noteq> Ok True \<longrightarrow> h_rooms h' = h_rooms h \<and> sto_conn (h_store h') = sto_conn (h_store h))"
proof (intro conjI impI)
  assume "res = Ok True"
  with assms obtain s where s: "ack_care_scoped i owner pid now (h_store h) = (Inr True, s)" and hs: "h_store h' = s"
    by (auto elim!: ack_care_trueD)
  from s obtain d1 row where "sto_conn (h_store h) = Some d1" "hm_get (db_outbox d1) i = Some row"
    "ob_acked_at row = None" "addressed_to row owner pid"
    "sto_conn s = Some (d1\<lparr>db_outbox := hm_insert i (row\<lparr>ob_acked_at := Some now\<rparr>) (db_outbox d1),
           db_attentions := hm_map (\<lambda>j a. if j = ob_attention_id row
               then a\<lparr>ar_delivered_at := coalesce (ar_delivered_at a) now\<rparr> else a) (db_attentions d1)\<rparr>)"
    by (rule ack_scoped_trueD)
  then show "\<exists>row d'. hm_get (db_outbox d) i = Some row \<and> ob_acked_at row = None
            \<and> (case ob_owner_principal_id row of None \<Rightarrow> ob_owner row = owner | Some p \<Rightarrow> pid = Some p)
            \<and> sto_conn (h_store h') = Some d'
            \<and> map_option ob_acked_at (hm_get (db_outbox d') i) = Some (Some now)
            \<and> (\<forall>a. hm_get (db_attentions d') (ob_attention_id row) = Some a \<longrightarrow> ar_delivered_at a \<noteq> None)"
    using assms(1) hs by (auto simp: addressed_to_def coalesce_def split: option.split)
qed (use ack_care_not_true [OF assms(2)] in blast)+

theorem receipt_scoped_witness:
  "fst (ack_care ''delivery_t0'' ''bob'' None 140 sample_asked) = Ok True
   \<and> (\<exists>d'. sto_conn (h_store (snd (ack_care ''delivery_t0'' ''bob'' None 140 sample_asked))) = Some d'
        \<and> map_option ob_acked_at (hm_get (db_outbox d') ''delivery_t0'') = Some (Some 140))
   \<and> fst (ack_care ''delivery_t0'' ''eve'' None 140 sample_asked) = Ok False"
proof -
  let ?a = "ack_care ''delivery_t0'' ''bob'' None 140 sample_asked"
  have t: "fst ?a = Ok True" "fst (ack_care ''delivery_t0'' ''eve'' None 140 sample_asked) = Ok False" by code_simp+
  obtain d where d: "sto_conn (h_store sample_asked) = Some d"
    using sample_asked_state by (auto simp: attention_state_def persistent_conn)
  from receipt_scoped [OF d prod.collapse [symmetric]] t show ?thesis by blast
qed

end
