(* ===== verification/Store_Members.thy ===== *)
theory Store_Members
  imports Store_Identity Store_Messages
begin

text \<open>
  \<^verbatim>\<open>crates/server/src/store/identity.rs\<close>: members, davets, bans, second masters,
  principals with their credentials, and the sessions that must outlive a restart.
  Reads that swallow a storage error are reads of the tables; writes go through
  \<^const>\<open>run_txn\<close> or \<^const>\<open>run_write\<close> and can fail.
\<close>

subsection \<open>Principals and credentials\<close>

record principal_identity =
  pi_id :: string
  pi_display_name :: string
  pi_kind :: SenderType
  pi_role :: BuildingRole

definition parse_building_role :: "string \<Rightarrow> BuildingRole" where
  "parse_building_role role = (if role = ''master'' then Master
     else if role = ''smaster'' then Smaster else MemberRole)"

definition identity_of_row :: "string \<Rightarrow> principal_row \<Rightarrow> principal_identity" where
  "identity_of_row i p = \<lparr> pi_id = i, pi_display_name = pp_display_name p,
     pi_kind = parse_sender_type (pp_kind p), pi_role = parse_building_role (pp_building_role p) \<rparr>"

definition db_active_principal :: "db \<Rightarrow> string \<Rightarrow> principal_identity option" where
  "db_active_principal d i = (case hm_get (db_principals d) i of None \<Rightarrow> None
     | Some p \<Rightarrow> if pp_disabled_at p = None then Some (identity_of_row i p) else None)"

definition active_principal :: "store \<Rightarrow> string \<Rightarrow> principal_identity option" where
  "active_principal s i = (case sto_conn s of None \<Rightarrow> None | Some d \<Rightarrow> db_active_principal d i)"

definition active_principals_where :: "(principal_row \<Rightarrow> bool) \<Rightarrow> store \<Rightarrow> principal_identity list" where
  "active_principals_where P s = (case sto_conn s of None \<Rightarrow> []
     | Some d \<Rightarrow> map (\<lambda>(i, p). identity_of_row i p)
         (sort_key fst (filter (\<lambda>(_, p). P p \<and> pp_disabled_at p = None) (db_principals d))))"

definition active_principals_named :: "store \<Rightarrow> string \<Rightarrow> principal_identity list" where
  "active_principals_named s name = active_principals_where (\<lambda>p. pp_display_name p = name) s"

definition active_human_principals_named :: "store \<Rightarrow> string \<Rightarrow> principal_identity list" where
  "active_human_principals_named s name =
     active_principals_where (\<lambda>p. pp_display_name p = name \<and> pp_kind p = ''human'') s"

definition db_master_id :: "db \<Rightarrow> string option" where
  "db_master_id d = map_option fst
     (find (\<lambda>(_, p). pp_building_role p = ''master'' \<and> pp_disabled_at p = None) (db_principals d))"

definition active_master_principal :: "store \<Rightarrow> principal_identity option" where
  "active_master_principal s = (case sto_conn s of None \<Rightarrow> None
     | Some d \<Rightarrow> map_option (\<lambda>(i, p). (identity_of_row i p)\<lparr>pi_role := Master\<rparr>)
         (find (\<lambda>(_, p). pp_building_role p = ''master'' \<and> pp_disabled_at p = None) (db_principals d)))"

definition credential_with_hash :: "db \<Rightarrow> string \<Rightarrow> (string \<times> credential_row) option" where
  "credential_with_hash d hash = find (\<lambda>(_, c). cr_secret_hash c = hash) (db_credentials d)"

definition identity_for_hash :: "db \<Rightarrow> string \<Rightarrow> principal_identity option" where
  "identity_for_hash d hash = (case credential_with_hash d hash of None \<Rightarrow> None
     | Some (_, c) \<Rightarrow> if cr_revoked_at c \<noteq> None then None else db_active_principal d (cr_principal_id c))"

definition touch_credential :: "string \<Rightarrow> u64 \<Rightarrow> db \<Rightarrow> db" where
  "touch_credential hash clock d = d\<lparr>db_credentials := hm_map (\<lambda>_ c.
     if cr_secret_hash c = hash \<and> cr_revoked_at c = None then c\<lparr>cr_last_used_at := Some clock\<rparr> else c)
     (db_credentials d)\<rparr>"

text \<open>
  The last use of a credential is recorded on a best-effort basis; \<open>clock\<close> is the
  operating system's clock the store reads there.
\<close>

definition principal_for_credential ::
  "digest \<Rightarrow> u64 \<Rightarrow> string \<Rightarrow> store \<Rightarrow> principal_identity option \<times> store" where
  "principal_for_credential sha clock credential s =
     (if credential = [] then (None, s)
      else case sto_conn s of None \<Rightarrow> (None, s)
      | Some d \<Rightarrow>
          (case identity_for_hash d (secret_hash sha credential) of
             None \<Rightarrow> (None, s)
           | Some p \<Rightarrow> (Some p, snd (run_write (touch_credential (secret_hash sha credential) clock) s))))"

definition credential_id_for_secret :: "digest \<Rightarrow> store \<Rightarrow> string \<Rightarrow> string option" where
  "credential_id_for_secret sha s credential = (case sto_conn s of None \<Rightarrow> None
     | Some d \<Rightarrow>
         (case credential_with_hash d (secret_hash sha credential) of None \<Rightarrow> None
          | Some (i, c) \<Rightarrow> if cr_revoked_at c = None then Some i else None))"

definition insert_principal_credential ::
  "digest \<Rightarrow> string \<Rightarrow> string \<Rightarrow> string \<Rightarrow> string \<Rightarrow> u64 \<Rightarrow> string \<Rightarrow> db \<Rightarrow> db" where
  "insert_principal_credential sha role token name kind at label d =
     (let pid = hashed_id sha ''pr_'' (role @ '':'' @ token);
          cid = hashed_id sha ''cr_'' (role @ '':'' @ token);
          hash = secret_hash sha token;
          source = role @ '':'' @ hash;
          d1 = (if hm_contains (db_principals d) pid then d
                else d\<lparr>db_principals := hm_insert pid
                  \<lparr> pp_display_name = name, pp_kind = (if kind = ''agent'' then ''agent'' else ''human''),
                    pp_building_role = role, pp_created_at = at, pp_disabled_at = None \<rparr>
                  (db_principals d)\<rparr>)
      in if hm_contains (db_credentials d1) cid
            \<or> (\<exists>c \<in> set (hm_values (db_credentials d1)).
                 cr_secret_hash c = hash \<or> cr_legacy_source c = Some source)
         then d1
         else d1\<lparr>db_credentials := hm_insert cid
           \<lparr> cr_principal_id = pid, cr_label = label, cr_secret_hash = hash, cr_created_at = at,
             cr_last_used_at = None, cr_revoked_at = None, cr_legacy_source = Some source \<rparr>
           (db_credentials d1)\<rparr>)"

definition stamp :: "u64 \<Rightarrow> u64 option \<Rightarrow> u64 option" where
  "stamp at v = (if v = None then Some at else v)"

definition holders :: "db \<Rightarrow> string \<Rightarrow> string set" where
  "holders d hash = cr_principal_id ` {c \<in> set (hm_values (db_credentials d)). cr_secret_hash c = hash}"

definition revoke_principal_credential :: "digest \<Rightarrow> string \<Rightarrow> u64 \<Rightarrow> db \<Rightarrow> db" where
  "revoke_principal_credential sha token at d =
     (let hash = secret_hash sha token
      in d\<lparr>db_credentials := hm_map (\<lambda>_ c. if cr_secret_hash c = hash
             then c\<lparr>cr_revoked_at := stamp at (cr_revoked_at c)\<rparr> else c) (db_credentials d),
           db_principals := hm_map (\<lambda>i p. if i \<in> holders d hash
             then p\<lparr>pp_disabled_at := stamp at (pp_disabled_at p)\<rparr> else p) (db_principals d)\<rparr>)"

subsection \<open>Members and their suspension\<close>

definition add_member :: "digest \<Rightarrow> membership \<Rightarrow> store \<Rightarrow> (sql_error, unit) result \<times> store" where
  "add_member sha m = run_write (\<lambda>d.
     insert_principal_credential sha ''member'' (mb_token m) (mb_name m) (mb_kind m) (mb_joined_at m)
       ''Member access''
       (d\<lparr>db_members := hm_insert (mb_token m)
            \<lparr> me_name = mb_name m, me_kind = mb_kind m, me_joined_at = mb_joined_at m,
              me_admitted_by = mb_admitted_by m, me_revoked_at = None \<rparr> (db_members d)\<rparr>))"

definition revoke_davets_where :: "(invite \<Rightarrow> bool) \<Rightarrow> u64 \<Rightarrow> db \<Rightarrow> db" where
  "revoke_davets_where P at d = d\<lparr>db_invites := hm_map (\<lambda>_ r.
     if P (in_invite r) then r\<lparr>in_revoked_at := stamp at (in_revoked_at r)\<rparr> else r) (db_invites d)\<rparr>"

definition revoke_member_cascade :: "digest \<Rightarrow> string \<Rightarrow> u64 \<Rightarrow> store \<Rightarrow> (sql_error, unit) result \<times> store" where
  "revoke_member_cascade sha token at = run_write (\<lambda>d.
     revoke_principal_credential sha token at
       (revoke_davets_where (\<lambda>i. iv_member i = token) at
          (d\<lparr>db_members := hm_map (\<lambda>t m. if t = token then m\<lparr>me_revoked_at := stamp at (me_revoked_at m)\<rparr> else m)
               (db_members d)\<rparr>)))"

definition member_live :: "db \<Rightarrow> string \<Rightarrow> bool" where
  "member_live d token = (case hm_get (db_members d) token of None \<Rightarrow> False
     | Some m \<Rightarrow> me_revoked_at m = None)"

definition ordinary_principal :: "digest \<Rightarrow> db \<Rightarrow> string \<Rightarrow> string option" where
  "ordinary_principal sha d token = (if \<not> member_live d token then None
     else case credential_with_hash d (secret_hash sha token) of None \<Rightarrow> None
     | Some (_, c) \<Rightarrow>
         (case hm_get (db_principals d) (cr_principal_id c) of None \<Rightarrow> None
          | Some p \<Rightarrow> if pp_building_role p = ''member'' then Some (cr_principal_id c) else None))"

definition suspend_rows :: "string \<Rightarrow> string \<Rightarrow> string \<Rightarrow> u64 \<Rightarrow> db \<Rightarrow> db" where
  "suspend_rows prin token reason at d = revoke_davets_where (\<lambda>i. iv_member i = token) at
     (d\<lparr>db_suspensions := (if hm_contains (db_suspensions d) token then db_suspensions d
           else hm_insert token (at, reason) (db_suspensions d)),
        db_principals := hm_map (\<lambda>i p. if i = prin then p\<lparr>pp_disabled_at := stamp at (pp_disabled_at p)\<rparr> else p)
           (db_principals d),
        db_principal_sessions := hm_map (\<lambda>_ r. if ps_principal_id r = prin
           then r\<lparr>ps_revoked_at := stamp at (ps_revoked_at r)\<rparr> else r) (db_principal_sessions d)\<rparr>)"

definition suspend_member ::
  "digest \<Rightarrow> string \<Rightarrow> string \<Rightarrow> u64 \<Rightarrow> store \<Rightarrow> (sql_error, bool) result \<times> store" where
  "suspend_member sha token reason at s = (if sto_conn s = None then (Err InvalidQuery, s)
     else run_txn False (\<lambda>d. case ordinary_principal sha d token of
         None \<Rightarrow> Ok (False, d)
       | Some prin \<Rightarrow> Ok (True, suspend_rows prin token reason at d)) s)"

definition resume_member :: "digest \<Rightarrow> string \<Rightarrow> store \<Rightarrow> (sql_error, bool) result \<times> store" where
  "resume_member sha token s = (if sto_conn s = None then (Err InvalidQuery, s)
     else run_txn False (\<lambda>d.
       if \<not> (hm_contains (db_suspensions d) token \<and> member_live d token) then Ok (False, d)
       else Ok (True, d\<lparr>db_suspensions := hm_remove token (db_suspensions d),
              db_principals := hm_map (\<lambda>i p. if i \<in> holders d (secret_hash sha token)
                  \<and> pp_building_role p = ''member'' then p\<lparr>pp_disabled_at := None\<rparr> else p)
                (db_principals d)\<rparr>)) s)"

definition load_members :: "store \<Rightarrow> membership list" where
  "load_members s = (case sto_conn s of None \<Rightarrow> []
     | Some d \<Rightarrow> map (\<lambda>(t, m). \<lparr> mb_token = t, mb_name = me_name m, mb_kind = me_kind m,
           mb_joined_at = me_joined_at m, mb_admitted_by = me_admitted_by m \<rparr>)
         (filter (\<lambda>(_, m). me_revoked_at m = None) (db_members d)))"

subsection \<open>Davets and bans\<close>

definition insert_invite :: "invite \<Rightarrow> store \<Rightarrow> (sql_error, unit) result \<times> store" where
  "insert_invite dv = run_txn () (\<lambda>d.
     if hm_contains (db_suspensions d) (iv_member dv) then Err InvalidQuery
     else case require_unsealed_room (iv_room dv) d of Inl e \<Rightarrow> Err e
     | Inr _ \<Rightarrow> Ok ((), d\<lparr>db_invites := hm_insert (iv_token dv)
          \<lparr> in_invite = dv, in_revoked_at = None \<rparr> (db_invites d)\<rparr>))"

definition load_invites :: "store \<Rightarrow> invite list" where
  "load_invites s = (case sto_conn s of None \<Rightarrow> []
     | Some d \<Rightarrow> map in_invite (filter (\<lambda>r. in_revoked_at r = None) (hm_values (db_invites d))))"

definition store_revoke_invite :: "string \<Rightarrow> u64 \<Rightarrow> store \<Rightarrow> (sql_error, unit) result \<times> store" where
  "store_revoke_invite token at = run_write (\<lambda>d. d\<lparr>db_invites := hm_map (\<lambda>t r.
     if t = token then r\<lparr>in_revoked_at := stamp at (in_revoked_at r)\<rparr> else r) (db_invites d)\<rparr>)"

definition store_revoke_invites_for ::
  "string \<Rightarrow> string \<Rightarrow> u64 \<Rightarrow> store \<Rightarrow> (sql_error, unit) result \<times> store" where
  "store_revoke_invites_for room name at =
     run_write (revoke_davets_where (\<lambda>i. iv_room i = room \<and> iv_name i = name) at)"

definition set_ban :: "string \<Rightarrow> string \<Rightarrow> string \<Rightarrow> u64 \<Rightarrow> store \<Rightarrow> (sql_error, unit) result \<times> store" where
  "set_ban room name kind at = run_write (\<lambda>d. d\<lparr>db_bans := hm_insert (room, name, kind) at (db_bans d)\<rparr>)"

definition clear_ban :: "string \<Rightarrow> string \<Rightarrow> string \<Rightarrow> store \<Rightarrow> (sql_error, unit) result \<times> store" where
  "clear_ban room name kind = run_write (\<lambda>d. d\<lparr>db_bans := hm_remove (room, name, kind) (db_bans d)\<rparr>)"

definition load_bans :: "store \<Rightarrow> (string \<times> string \<times> string) list" where
  "load_bans s = (case sto_conn s of None \<Rightarrow> [] | Some d \<Rightarrow> hm_keys (db_bans d))"

subsection \<open>Second masters\<close>

definition store_add_smaster ::
  "digest \<Rightarrow> string \<Rightarrow> string \<Rightarrow> u64 \<Rightarrow> store \<Rightarrow> (sql_error, unit) result \<times> store" where
  "store_add_smaster sha token name at = run_write (\<lambda>d.
     insert_principal_credential sha ''smaster'' token name ''user'' at ''Smaster access''
       (d\<lparr>db_smasters := hm_insert token
            \<lparr> sm_name = name, sm_issued_at = at, sm_revoked_at = None \<rparr> (db_smasters d)\<rparr>))"

definition revoke_smaster_row :: "string \<Rightarrow> u64 \<Rightarrow> db \<Rightarrow> db" where
  "revoke_smaster_row token at d = d\<lparr>db_smasters := hm_map (\<lambda>t r.
     if t = token then r\<lparr>sm_revoked_at := stamp at (sm_revoked_at r)\<rparr> else r) (db_smasters d)\<rparr>"

definition store_revoke_smaster :: "digest \<Rightarrow> string \<Rightarrow> u64 \<Rightarrow> store \<Rightarrow> (sql_error, unit) result \<times> store" where
  "store_revoke_smaster sha token at = run_write (\<lambda>d.
     revoke_principal_credential sha token at (revoke_smaster_row token at d))"

definition load_smasters :: "store \<Rightarrow> (string \<times> string) list" where
  "load_smasters s = (case sto_conn s of None \<Rightarrow> []
     | Some d \<Rightarrow> map (\<lambda>(t, r). (t, sm_name r)) (filter (\<lambda>(_, r). sm_revoked_at r = None) (db_smasters d)))"

subsection \<open>Credentials a principal manages\<close>

datatype CredentialError = CredNotFound | CredRootRecovery | CredStorage

record credential_summary =
  cs_id :: string
  cs_label :: string
  cs_created_at :: u64
  cs_last_used_at :: "u64 option"
  cs_revoked_at :: "u64 option"
  cs_root_recovery :: bool

definition root_source :: "string option \<Rightarrow> bool" where
  "root_source src = (case src of None \<Rightarrow> False | Some v \<Rightarrow> starts_with v ''admin:'')"

definition list_credentials :: "store \<Rightarrow> string \<Rightarrow> credential_summary list" where
  "list_credentials s prin = (case sto_conn s of None \<Rightarrow> []
     | Some d \<Rightarrow> map (\<lambda>(i, c). \<lparr> cs_id = i, cs_label = cr_label c, cs_created_at = cr_created_at c,
           cs_last_used_at = cr_last_used_at c, cs_revoked_at = cr_revoked_at c,
           cs_root_recovery = root_source (cr_legacy_source c) \<rparr>)
         (sort_key (\<lambda>(i, c). (cr_created_at c, i))
            (filter (\<lambda>(_, c). cr_principal_id c = prin) (db_credentials d))))"

definition create_credential ::
  "digest \<Rightarrow> string \<Rightarrow> string \<Rightarrow> string \<Rightarrow> u64 \<Rightarrow> store \<Rightarrow>
     (CredentialError, credential_summary) result \<times> store" where
  "create_credential sha prin label secret at =
     (let i = hashed_id sha ''cr_'' (''credential:'' @ secret); hash = secret_hash sha secret
      in answer_txn CredStorage CredStorage (\<lambda>d.
           if hm_contains (db_credentials d) i \<or> \<not> hm_contains (db_principals d) prin
              \<or> (\<exists>c \<in> set (hm_values (db_credentials d)). cr_secret_hash c = hash)
           then Err CredStorage
           else Ok (\<lparr> cs_id = i, cs_label = label, cs_created_at = at, cs_last_used_at = None,
                cs_revoked_at = None, cs_root_recovery = False \<rparr>,
             d\<lparr>db_credentials := hm_insert i
               \<lparr> cr_principal_id = prin, cr_label = label, cr_secret_hash = hash, cr_created_at = at,
                 cr_last_used_at = None, cr_revoked_at = None, cr_legacy_source = None \<rparr>
               (db_credentials d)\<rparr>)))"

definition live_smaster_with_hash :: "digest \<Rightarrow> db \<Rightarrow> string \<Rightarrow> string option" where
  "live_smaster_with_hash sha d hash = find (\<lambda>t. secret_hash sha t = hash)
     (map fst (filter (\<lambda>(_, r). sm_revoked_at r = None) (db_smasters d)))"

definition retire_legacy_smaster :: "digest \<Rightarrow> string option \<Rightarrow> u64 \<Rightarrow> db \<Rightarrow> db" where
  "retire_legacy_smaster sha source at d = (case source of None \<Rightarrow> d
     | Some v \<Rightarrow> (case strip_prefix v ''smaster:'' of None \<Rightarrow> d
         | Some hash \<Rightarrow> (case live_smaster_with_hash sha d hash of None \<Rightarrow> d
             | Some token \<Rightarrow> revoke_smaster_row token at d)))"

definition revoke_credential_rows :: "digest \<Rightarrow> string \<Rightarrow> credential_row \<Rightarrow> u64 \<Rightarrow> db \<Rightarrow> db" where
  "revoke_credential_rows sha i c at d = retire_legacy_smaster sha (cr_legacy_source c) at
     (d\<lparr>db_credentials := hm_map (\<lambda>j r. if j = i then r\<lparr>cr_revoked_at := stamp at (cr_revoked_at r)\<rparr> else r)
          (db_credentials d),
        db_principal_sessions := hm_map (\<lambda>_ r. if ps_credential_id r = i
          then r\<lparr>ps_revoked_at := stamp at (ps_revoked_at r)\<rparr> else r) (db_principal_sessions d)\<rparr>)"

definition revoke_credential ::
  "digest \<Rightarrow> string \<Rightarrow> string \<Rightarrow> u64 \<Rightarrow> store \<Rightarrow> (CredentialError, unit) result \<times> store" where
  "revoke_credential sha prin i at = answer_txn CredStorage CredStorage (\<lambda>d.
     case hm_get (db_credentials d) i of
       None \<Rightarrow> Err CredNotFound
     | Some c \<Rightarrow>
         if cr_principal_id c \<noteq> prin then Err CredNotFound
         else if root_source (cr_legacy_source c) then Err CredRootRecovery
         else if cr_revoked_at c \<noteq> None then Err CredNotFound
         else Ok ((), revoke_credential_rows sha i c at d))"

definition split_once :: "char \<Rightarrow> string \<Rightarrow> (string \<times> string) option" where
  "split_once c v = (case dropWhile (\<lambda>x. x \<noteq> c) v of [] \<Rightarrow> None
     | _ # rest \<Rightarrow> Some (takeWhile (\<lambda>x. x \<noteq> c) v, rest))"

definition legacy_credential_source :: "digest \<Rightarrow> store \<Rightarrow> string \<Rightarrow> string \<Rightarrow> (string \<times> string) option" where
  "legacy_credential_source sha s prin i = (case sto_conn s of None \<Rightarrow> None
     | Some d \<Rightarrow>
         (case hm_get (db_credentials d) i of None \<Rightarrow> None
          | Some c \<Rightarrow>
              if cr_principal_id c \<noteq> prin \<or> cr_revoked_at c \<noteq> None then None
              else case cr_legacy_source c of None \<Rightarrow> None
              | Some source \<Rightarrow>
                  (case split_once (CHR '':'') source of None \<Rightarrow> None
                   | Some (role, hash) \<Rightarrow>
                       let tokens = (if role = ''member'' then Some (hm_keys (db_members d))
                                     else if role = ''smaster'' then Some (hm_keys (db_smasters d)) else None)
                       in (case tokens of None \<Rightarrow> None
                           | Some ts \<Rightarrow> map_option (\<lambda>t. (role, t)) (find (\<lambda>t. secret_hash sha t = hash) ts)))))"

definition ensure_master_principal ::
  "digest \<Rightarrow> string \<Rightarrow> string \<Rightarrow> u64 \<Rightarrow> store \<Rightarrow> (sql_error, unit) result \<times> store" where
  "ensure_master_principal sha root display_name at s =
     (if root = [] then (Ok (), s)
      else run_txn () (\<lambda>d.
        let pid = (case db_master_id d of Some i \<Rightarrow> i
                   | None \<Rightarrow> hashed_id sha ''pr_'' (''master:'' @ root));
            hash = secret_hash sha root;
            cid = hashed_id sha ''cr_'' (''master:'' @ root);
            d1 = (if hm_contains (db_principals d) pid then d
                  else d\<lparr>db_principals := hm_insert pid
                    \<lparr> pp_display_name = display_name, pp_kind = ''human'', pp_building_role = ''master'',
                      pp_created_at = at, pp_disabled_at = None \<rparr> (db_principals d)\<rparr>);
            old = (\<lambda>c. cr_principal_id c = pid \<and> root_source (cr_legacy_source c) \<and> cr_secret_hash c \<noteq> hash);
            d2 = d1\<lparr>db_principal_sessions := hm_map (\<lambda>_ r.
                   (case hm_get (db_credentials d1) (ps_credential_id r) of None \<Rightarrow> r
                    | Some c \<Rightarrow> if old c then r\<lparr>ps_revoked_at := stamp at (ps_revoked_at r)\<rparr> else r))
                   (db_principal_sessions d1),
                 db_credentials := hm_map (\<lambda>_ c. if old c then c\<lparr>cr_revoked_at := stamp at (cr_revoked_at c)\<rparr> else c)
                   (db_credentials d1)\<rparr>
        in case hm_get (db_credentials d2) cid of
             Some c \<Rightarrow> Ok ((), d2\<lparr>db_credentials := hm_insert cid (c\<lparr>cr_revoked_at := None\<rparr>) (db_credentials d2)\<rparr>)
           | None \<Rightarrow>
               if \<exists>c \<in> set (hm_values (db_credentials d2)). cr_secret_hash c = hash
                    \<or> cr_legacy_source c = Some (''admin:'' @ hash)
               then Err ConstraintViolation
               else Ok ((), d2\<lparr>db_credentials := hm_insert cid
                 \<lparr> cr_principal_id = pid, cr_label = ''Root recovery'', cr_secret_hash = hash,
                   cr_created_at = at, cr_last_used_at = None, cr_revoked_at = None,
                   cr_legacy_source = Some (''admin:'' @ hash) \<rparr> (db_credentials d2)\<rparr>)) s)"

subsection \<open>Durable sessions\<close>

definition save_principal_session ::
  "digest \<Rightarrow> string \<Rightarrow> string \<Rightarrow> string \<Rightarrow> u64 \<Rightarrow> u64 \<Rightarrow> store \<Rightarrow> (sql_error, unit) result \<times> store" where
  "save_principal_session sha secret prin cid created_at expires_at = run_txn () (\<lambda>d.
     if \<not> hm_contains (db_principals d) prin
        \<or> (case hm_get (db_credentials d) cid of None \<Rightarrow> True | Some c \<Rightarrow> cr_principal_id c \<noteq> prin)
     then Err ConstraintViolation
     else Ok ((), d\<lparr>db_principal_sessions := hm_insert (secret_hash sha secret)
       \<lparr> ps_principal_id = prin, ps_credential_id = cid, ps_created_at = created_at,
         ps_expires_at = expires_at, ps_revoked_at = None \<rparr> (db_principal_sessions d)\<rparr>))"

definition live_session :: "digest \<Rightarrow> db \<Rightarrow> string \<Rightarrow> u64 \<Rightarrow> (principal_session_row \<times> principal_identity) option" where
  "live_session sha d secret now = (case hm_get (db_principal_sessions d) (secret_hash sha secret) of
     None \<Rightarrow> None
   | Some r \<Rightarrow>
       if ps_revoked_at r \<noteq> None \<or> \<not> (ps_expires_at r = 0 \<or> now < ps_expires_at r) then None
       else case hm_get (db_credentials d) (ps_credential_id r) of None \<Rightarrow> None
       | Some c \<Rightarrow>
           if cr_principal_id c \<noteq> ps_principal_id r \<or> cr_revoked_at c \<noteq> None then None
           else map_option (Pair r) (db_active_principal d (ps_principal_id r)))"

definition principal_session_active :: "digest \<Rightarrow> store \<Rightarrow> string \<Rightarrow> u64 \<Rightarrow> bool" where
  "principal_session_active sha s secret now = (case sto_conn s of None \<Rightarrow> True
     | Some d \<Rightarrow> live_session sha d secret now \<noteq> None)"

definition principal_for_session :: "digest \<Rightarrow> store \<Rightarrow> string \<Rightarrow> u64 \<Rightarrow> principal_identity option" where
  "principal_for_session sha s secret now = (case sto_conn s of None \<Rightarrow> None
     | Some d \<Rightarrow> map_option snd (live_session sha d secret now))"

definition credential_id_for_session :: "digest \<Rightarrow> store \<Rightarrow> string \<Rightarrow> u64 \<Rightarrow> string option" where
  "credential_id_for_session sha s secret now = (case sto_conn s of None \<Rightarrow> None
     | Some d \<Rightarrow> map_option (ps_credential_id \<circ> fst) (live_session sha d secret now))"

definition session_uses_credential :: "digest \<Rightarrow> store \<Rightarrow> string \<Rightarrow> string \<Rightarrow> bool" where
  "session_uses_credential sha s secret cid = (case sto_conn s of None \<Rightarrow> False
     | Some d \<Rightarrow> (case hm_get (db_principal_sessions d) (secret_hash sha secret) of None \<Rightarrow> False
         | Some r \<Rightarrow> ps_credential_id r = cid))"

definition revoke_principal_session ::
  "digest \<Rightarrow> string \<Rightarrow> u64 \<Rightarrow> store \<Rightarrow> (sql_error, unit) result \<times> store" where
  "revoke_principal_session sha secret at = run_write (\<lambda>d.
     d\<lparr>db_principal_sessions := hm_map (\<lambda>i r. if i = secret_hash sha secret
        then r\<lparr>ps_revoked_at := stamp at (ps_revoked_at r)\<rparr> else r) (db_principal_sessions d)\<rparr>)"

definition save_admin_session ::
  "string \<Rightarrow> string \<Rightarrow> SenderType \<Rightarrow> u64 \<Rightarrow> store \<Rightarrow> (sql_error, unit) result \<times> store" where
  "save_admin_session token name kind expires_at = run_write (\<lambda>d.
     d\<lparr>db_admin_sessions := hm_insert token
        \<lparr> as_name = name, as_kind = sender_type_str kind, as_expires_at = expires_at \<rparr>
        (db_admin_sessions d)\<rparr>)"

text \<open>Two statements outside a transaction: the first may stand when the second fails.\<close>

definition delete_admin_session ::
  "digest \<Rightarrow> u64 \<Rightarrow> string \<Rightarrow> store \<Rightarrow> (sql_error, unit) result \<times> store" where
  "delete_admin_session sha clock token s =
     (case run_write (\<lambda>d. d\<lparr>db_admin_sessions := hm_remove token (db_admin_sessions d)\<rparr>) s of
        (Inl e, s1) \<Rightarrow> (Err e, s1)
      | (Inr _, s1) \<Rightarrow> revoke_principal_session sha token clock s1)"

definition load_admin_sessions ::
  "u64 \<Rightarrow> store \<Rightarrow> (string \<times> string \<times> SenderType \<times> u64) list \<times> store" where
  "load_admin_sessions now s =
     (let s1 = snd (run_write (\<lambda>d. d\<lparr>db_admin_sessions := hm_retain (\<lambda>_ r. now < as_expires_at r)
                     (db_admin_sessions d)\<rparr>) s)
      in (case sto_conn s1 of None \<Rightarrow> []
          | Some d \<Rightarrow> map (\<lambda>(t, r). (t, as_name r, parse_sender_type (as_kind r), as_expires_at r))
              (filter (\<lambda>(_, r). now < as_expires_at r) (db_admin_sessions d)), s1))"

end
