(* ===== verification/Store_Operators.thy ===== *)
theory Store_Operators
  imports Store_Members
begin

text \<open>
  \<^verbatim>\<open>crates/server/src/store/operators.rs\<close>: the appointment of a loca's operator.  Rows
  are only added and closed, so the new row id, \<open>AUTOINCREMENT\<close> in the schema, is one
  more than the largest one.  The unique index \<open>room_operator_one_active\<close> and the
  foreign keys of the table are part of the insert.
\<close>

record loca_operator_assignment =
  la_room :: string
  la_principal_id :: string
  la_display_name :: string
  la_kind :: SenderType
  la_appointed_by_principal_id :: string
  la_appointed_by_role :: BuildingRole
  la_appointed_at :: u64
  la_revoked_at :: "u64 option"

datatype LocaOperatorError = OpPrincipalNotFound | OpPrincipalMustBeHuman | OpAppointerNotFound
  | OpAppointerNotAuthorized | OpEmptySeatRequired | OpNotFound | OpConflict | OpStorage

definition role_str :: "BuildingRole \<Rightarrow> string" where
  "role_str role = (case role of Master \<Rightarrow> ''master'' | Smaster \<Rightarrow> ''smaster'' | MemberRole \<Rightarrow> ''member'')"

definition parse_role :: "string \<Rightarrow> BuildingRole" where
  "parse_role role = (if role = ''master'' then Master else if role = ''smaster'' then Smaster else MemberRole)"

definition assignment_from_row :: "db \<Rightarrow> operator_row \<Rightarrow> loca_operator_assignment option" where
  "assignment_from_row d r = map_option (\<lambda>p.
     \<lparr> la_room = op_room r, la_principal_id = op_principal_id r, la_display_name = pp_display_name p,
       la_kind = parse_sender_type (pp_kind p),
       la_appointed_by_principal_id = op_appointed_by_principal_id r,
       la_appointed_by_role = parse_role (op_appointed_by_role r),
       la_appointed_at = op_appointed_at r, la_revoked_at = op_revoked_at r \<rparr>)
     (hm_get (db_principals d) (op_principal_id r))"

definition active_seat :: "string \<Rightarrow> operator_row \<Rightarrow> bool" where
  "active_seat room r = (op_room r = room \<and> op_revoked_at r = None)"

fun first_some :: "('a \<Rightarrow> 'b option) \<Rightarrow> 'a list \<Rightarrow> 'b option" where
  "first_some f [] = None"
| "first_some f (x # xs) = (case f x of None \<Rightarrow> first_some f xs | Some y \<Rightarrow> Some y)"

definition query_active :: "db \<Rightarrow> string \<Rightarrow> loca_operator_assignment option" where
  "query_active d room = first_some (assignment_from_row d)
     (filter (active_seat room) (hm_values (db_operators d)))"

definition loca_operator :: "store \<Rightarrow> string \<Rightarrow> loca_operator_assignment option" where
  "loca_operator s room = (case sto_conn s of None \<Rightarrow> None | Some d \<Rightarrow> query_active d room)"

definition loca_operator_history :: "store \<Rightarrow> string \<Rightarrow> loca_operator_assignment list" where
  "loca_operator_history s room = (case sto_conn s of None \<Rightarrow> []
     | Some d \<Rightarrow> List.map_filter (\<lambda>(_, r). assignment_from_row d r)
         (sort_key (\<lambda>(i, r). (op_appointed_at r, i)) (filter (\<lambda>(_, r). op_room r = room) (db_operators d))))"

definition validate_target :: "db \<Rightarrow> string \<Rightarrow> (LocaOperatorError, unit) result" where
  "validate_target d prin = (case hm_get (db_principals d) prin of None \<Rightarrow> Err OpPrincipalNotFound
     | Some p \<Rightarrow> if pp_disabled_at p \<noteq> None then Err OpPrincipalNotFound
                 else if pp_kind p = ''human'' then Ok () else Err OpPrincipalMustBeHuman)"

definition validate_appointer :: "db \<Rightarrow> string \<Rightarrow> (LocaOperatorError, BuildingRole) result" where
  "validate_appointer d prin = (case hm_get (db_principals d) prin of None \<Rightarrow> Err OpAppointerNotFound
     | Some p \<Rightarrow> if pp_disabled_at p \<noteq> None then Err OpAppointerNotFound
                 else Ok (parse_role (pp_building_role p)))"

definition insert_assignment ::
  "string \<Rightarrow> string \<Rightarrow> string \<Rightarrow> BuildingRole \<Rightarrow> u64 \<Rightarrow> db \<Rightarrow> (LocaOperatorError, db) result" where
  "insert_assignment room prin by role at d =
     (if (\<exists>r \<in> set (hm_values (db_operators d)). active_seat room r)
         \<or> \<not> hm_contains (db_principals d) prin \<or> \<not> hm_contains (db_principals d) by
      then Err OpStorage
      else Ok (d\<lparr>db_operators := hm_insert (Suc (fold max (hm_keys (db_operators d)) 0))
        \<lparr> op_room = room, op_principal_id = prin, op_appointed_by_principal_id = by,
          op_appointed_by_role = role_str role, op_appointed_at = at, op_revoked_at = None \<rparr>
        (db_operators d)\<rparr>))"

definition seat_operator ::
  "string \<Rightarrow> string \<Rightarrow> string \<Rightarrow> BuildingRole \<Rightarrow> u64 \<Rightarrow> db \<Rightarrow>
     (LocaOperatorError, loca_operator_assignment \<times> db) result" where
  "seat_operator room prin by role at d = (case insert_assignment room prin by role at d of
     Inl e \<Rightarrow> Err e
   | Inr d1 \<Rightarrow> (case query_active d1 room of None \<Rightarrow> Err OpStorage | Some a \<Rightarrow> Ok (a, d1)))"

definition create_room_with_operator ::
  "string \<Rightarrow> room_settings \<Rightarrow> string \<Rightarrow> u64 \<Rightarrow> store \<Rightarrow>
     (LocaOperatorError, loca_operator_assignment) result \<times> store" where
  "create_room_with_operator room settings founder at = answer_txn OpStorage OpStorage (\<lambda>d.
     case validate_target d founder of Inl e \<Rightarrow> Err e
     | Inr _ \<Rightarrow>
         (case validate_appointer d founder of Inl e \<Rightarrow> Err e
          | Inr role \<Rightarrow>
              if role = MemberRole then Err OpAppointerNotAuthorized
              else if hm_contains (db_rooms d) room \<or> query_active d room \<noteq> None then Err OpConflict
              else case write_room_state room Free settings d of
                     Inl _ \<Rightarrow> Err OpStorage
                   | Inr d1 \<Rightarrow> seat_operator room founder founder role at d1))"

definition close_seat :: "string \<Rightarrow> u64 \<Rightarrow> db \<Rightarrow> db" where
  "close_seat room at d = d\<lparr>db_operators := hm_map (\<lambda>_ r.
     if active_seat room r then r\<lparr>op_revoked_at := Some at\<rparr> else r) (db_operators d)\<rparr>"

definition appoint_rows ::
  "string \<Rightarrow> string \<Rightarrow> string \<Rightarrow> u64 \<Rightarrow> db \<Rightarrow> (LocaOperatorError, loca_operator_assignment \<times> db) result" where
  "appoint_rows room prin by at d = (case validate_target d prin of Inl e \<Rightarrow> Err e
   | Inr _ \<Rightarrow>
       (case validate_appointer d by of Inl e \<Rightarrow> Err e
        | Inr role \<Rightarrow>
            if role = MemberRole then Err OpAppointerNotAuthorized
            else case query_active d room of
                   None \<Rightarrow> seat_operator room prin by role at d
                 | Some current \<Rightarrow>
                     if la_principal_id current = prin then Ok (current, d)
                     else if role = Smaster then Err OpEmptySeatRequired
                     else seat_operator room prin by role at (close_seat room at d)))"

definition store_appoint_loca_operator ::
  "string \<Rightarrow> string \<Rightarrow> string \<Rightarrow> u64 \<Rightarrow> store \<Rightarrow>
     (LocaOperatorError, loca_operator_assignment) result \<times> store" where
  "store_appoint_loca_operator room prin by at = answer_txn OpStorage OpStorage (appoint_rows room prin by at)"

definition revoke_rows ::
  "string \<Rightarrow> string \<Rightarrow> u64 \<Rightarrow> db \<Rightarrow> (LocaOperatorError, loca_operator_assignment \<times> db) result" where
  "revoke_rows room expected at d = (case query_active d room of None \<Rightarrow> Err OpNotFound
   | Some a \<Rightarrow>
       if la_principal_id a \<noteq> expected then Err OpConflict
       else if length (filter (\<lambda>r. active_seat room r \<and> op_principal_id r = expected)
                 (hm_values (db_operators d))) \<noteq> 1 then Err OpConflict
       else Ok (a\<lparr>la_revoked_at := Some at\<rparr>,
         d\<lparr>db_operators := hm_map (\<lambda>_ r. if active_seat room r \<and> op_principal_id r = expected
            then r\<lparr>op_revoked_at := Some at\<rparr> else r) (db_operators d)\<rparr>))"

definition store_revoke_loca_operator ::
  "string \<Rightarrow> string \<Rightarrow> u64 \<Rightarrow> store \<Rightarrow> (LocaOperatorError, loca_operator_assignment) result \<times> store" where
  "store_revoke_loca_operator room expected at = answer_txn OpStorage OpStorage (revoke_rows room expected at)"

end
