(* ===== verification/Access.thy ===== *)
theory Access
  imports Hub_State Store_Operators Health
begin

text \<open>
  Who may act and who may enter: the authority of a request, membership of the
  building, davets, sessions and the single door decision, from
  \<^verbatim>\<open>crates/server/src/hub.rs\<close>.  An operation that records the last use of a
  credential or drops an expired session returns the changed hub.
\<close>

subsection \<open>Authority\<close>

record request_authority =
  ra_principal_id :: "string option"
  ra_display_name :: "string option"
  ra_kind :: "SenderType option"
  ra_building_role :: "BuildingRole option"

definition is_building_admin :: "request_authority \<Rightarrow> bool" where
  "is_building_admin a = (ra_building_role a = Some Master \<or> ra_building_role a = Some Smaster)"

definition no_authority :: request_authority where
  "no_authority = \<lparr> ra_principal_id = None, ra_display_name = None, ra_kind = None, ra_building_role = None \<rparr>"

definition root_authority :: request_authority where
  "root_authority = \<lparr> ra_principal_id = None, ra_display_name = Some ''operator'', ra_kind = Some User,
     ra_building_role = Some Master \<rparr>"

definition authority_of_principal :: "principal_identity \<Rightarrow> request_authority" where
  "authority_of_principal p = \<lparr> ra_principal_id = Some (pi_id p), ra_display_name = Some (pi_display_name p),
     ra_kind = Some (pi_kind p), ra_building_role = Some (pi_role p) \<rparr>"

definition authority_from_principal :: "principal_identity option \<Rightarrow> request_authority option" where
  "authority_from_principal p = map_option authority_of_principal p"

definition admin_open :: "hub \<Rightarrow> bool" where
  "admin_open h = (h_admin_token h = [])"

definition is_master :: "hub \<Rightarrow> string option \<Rightarrow> bool" where
  "is_master h token = (h_admin_token h = [] \<or> token = Some (h_admin_token h))"

definition smaster_name :: "hub \<Rightarrow> string option \<Rightarrow> string option" where
  "smaster_name h token = (case token of None \<Rightarrow> None
     | Some t \<Rightarrow> if t = [] then None else hm_get (h_smasters h) t)"

definition is_admin :: "hub \<Rightarrow> string option \<Rightarrow> bool" where
  "is_admin h token = (is_master h token \<or> smaster_name h token \<noteq> None)"

subsection \<open>Sessions\<close>

text \<open>\<open>now\<close> is the clock of the hub and \<open>clock\<close> the one the store reads.\<close>

definition session_identity_of ::
  "digest \<Rightarrow> u64 \<Rightarrow> u64 \<Rightarrow> string option \<Rightarrow> hub \<Rightarrow> session_identity option \<times> hub" where
  "session_identity_of sha now clock token h = (case token of None \<Rightarrow> (None, h)
   | Some t \<Rightarrow>
       (case hm_get (h_sessions h) t of None \<Rightarrow> (None, h)
        | Some idy \<Rightarrow>
            if si_principal_id idy \<noteq> None \<and> is_persistent (h_store h)
               \<and> \<not> principal_session_active sha (h_store h) t now
            then (None, h\<lparr>h_sessions := hm_remove t (h_sessions h)\<rparr>)
            else if si_expires_at idy \<noteq> 0 \<and> si_expires_at idy \<le> now
            then let h1 = h\<lparr>h_sessions := hm_remove t (h_sessions h)\<rparr>
                 in (None, if si_admin idy then snd (with_store (delete_admin_session sha clock t) h1) else h1)
            else (Some idy, h)))"

definition credential_authority ::
  "digest \<Rightarrow> u64 \<Rightarrow> string \<Rightarrow> hub \<Rightarrow> request_authority option \<times> hub" where
  "credential_authority sha clock token h =
     (let (p, h1) = with_store (principal_for_credential sha clock token) h in (authority_from_principal p, h1))"

definition or_authority ::
  "request_authority option \<times> hub \<Rightarrow> request_authority \<Rightarrow> request_authority \<times> hub" where
  "or_authority x fallback = ((case fst x of None \<Rightarrow> fallback | Some a \<Rightarrow> a), snd x)"

definition token_authority :: "digest \<Rightarrow> u64 \<Rightarrow> string option \<Rightarrow> hub \<Rightarrow> request_authority \<times> hub" where
  "token_authority sha clock admin_token h =
     (case (case admin_token of Some [] \<Rightarrow> None | t \<Rightarrow> t) of
        None \<Rightarrow> (if h_admin_token h = [] then root_authority else no_authority, h)
      | Some token \<Rightarrow>
          (case credential_authority sha clock token h of
             (Some a, h1) \<Rightarrow> (a, h1)
           | (None, h1) \<Rightarrow>
               if is_master h1 (Some token)
               then or_authority (credential_authority sha clock token h1) root_authority
               else if smaster_name h1 (Some token) \<noteq> None
               then or_authority (credential_authority sha clock token h1)
                 \<lparr> ra_principal_id = None, ra_display_name = smaster_name h1 (Some token),
                   ra_kind = Some User, ra_building_role = Some Smaster \<rparr>
               else (no_authority, h1)))"

definition resolve_authority ::
  "digest \<Rightarrow> u64 \<Rightarrow> u64 \<Rightarrow> string option \<Rightarrow> string option \<Rightarrow> hub \<Rightarrow> request_authority \<times> hub" where
  "resolve_authority sha now clock admin_token session_token h =
     (case session_identity_of sha now clock session_token h of
        (Some s, h1) \<Rightarrow>
          (case si_principal_id s of
             Some prin \<Rightarrow> (case authority_from_principal (active_principal (h_store h1) prin) of
                 None \<Rightarrow> no_authority | Some a \<Rightarrow> a, h1)
           | None \<Rightarrow> (\<lparr> ra_principal_id = None, ra_display_name = Some (si_name s), ra_kind = Some (si_kind s),
                 ra_building_role = Some (si_building_role s) \<rparr>, h1))
      | (None, h1) \<Rightarrow> token_authority sha clock admin_token h1)"

subsection \<open>Members\<close>

definition member_suspended :: "hub \<Rightarrow> string \<Rightarrow> bool" where
  "member_suspended h token = store_member_suspended (h_store h) token"

definition member_of :: "hub \<Rightarrow> string option \<Rightarrow> membership option" where
  "member_of h token = (case token of None \<Rightarrow> None
     | Some t \<Rightarrow> if member_suspended h t then None else hm_get (h_members h) t)"

definition member_by_name :: "hub \<Rightarrow> string \<Rightarrow> membership option" where
  "member_by_name h name = find (\<lambda>m. mb_name m = name) (hm_values (h_members h))"

definition member_for_credential ::
  "digest \<Rightarrow> u64 \<Rightarrow> string option \<Rightarrow> hub \<Rightarrow> membership option \<times> hub" where
  "member_for_credential sha clock token h =
     (if \<not> is_persistent (h_store h) then (member_of h token, h)
      else case token of None \<Rightarrow> (None, h)
      | Some t \<Rightarrow>
          (case with_store (principal_for_credential sha clock t) h of
             (None, h1) \<Rightarrow> (None, h1)
           | (Some p, h1) \<Rightarrow>
               if pi_role p \<noteq> MemberRole then (None, h1)
               else (find (\<lambda>m. principal_id_for_member_record sha (h_store h1) (mb_token m) = Some (pi_id p))
                       (hm_values (h_members h1)), h1)))"

definition is_member :: "hub \<Rightarrow> string option \<Rightarrow> bool" where
  "is_member h token =
     (if h_room_token h = []
      then \<not> h_require_invite h \<or> (h_admin_token h \<noteq> [] \<and> token = Some (h_admin_token h))
      else token = Some (h_room_token h) \<or> (h_admin_token h \<noteq> [] \<and> token = Some (h_admin_token h)))"

definition new_invite_token :: "hub \<Rightarrow> string \<times> hub" where
  "new_invite_token h = secure_token ''dv_'' h"

fun replacen_one :: "string \<Rightarrow> string \<Rightarrow> string \<Rightarrow> string" where
  "replacen_one pat new [] = []"
| "replacen_one pat new (c # cs) = (case strip_prefix (c # cs) pat of
     Some rest \<Rightarrow> new @ rest | None \<Rightarrow> c # replacen_one pat new cs)"

definition admit_member ::
  "digest \<Rightarrow> string \<Rightarrow> string \<Rightarrow> string \<Rightarrow> u64 \<Rightarrow> hub \<Rightarrow> (sql_error, membership) result \<times> hub" where
  "admit_member sha name kind by now h = (case member_by_name h name of
     Some m \<Rightarrow> (Ok m, h)
   | None \<Rightarrow>
       (let (token, h1) = new_invite_token h;
            m = \<lparr> mb_token = replacen_one ''dv_'' ''mb_'' token, mb_name = name, mb_kind = kind,
                  mb_joined_at = now, mb_admitted_by = by \<rparr>
        in case with_store (add_member sha m) h1 of
             (Inl e, h2) \<Rightarrow> (Err e, h2)
           | (Inr _, h2) \<Rightarrow> (Ok m, h2\<lparr>h_members := hm_insert (mb_token m) m (h_members h2)\<rparr>)))"

subsection \<open>Davets\<close>

definition invite_by_token :: "hub \<Rightarrow> string \<Rightarrow> invite option" where
  "invite_by_token h token = (case hm_get (h_invites h) token of None \<Rightarrow> None
     | Some i \<Rightarrow> if iv_member i \<noteq> [] \<and> member_suspended h (iv_member i) then None else Some i)"

definition invite_for :: "hub \<Rightarrow> string \<Rightarrow> string option \<Rightarrow> invite option" where
  "invite_for h room token = (case token of None \<Rightarrow> None
     | Some t \<Rightarrow> (case invite_by_token h t of None \<Rightarrow> None
         | Some i \<Rightarrow> if iv_room i = room then Some i else None))"

definition principal_id_for_invite :: "digest \<Rightarrow> hub \<Rightarrow> string \<Rightarrow> string option \<Rightarrow> string option" where
  "principal_id_for_invite sha h room token = (case invite_for h room token of None \<Rightarrow> None
     | Some i \<Rightarrow> if iv_member i = [] then None
                 else principal_id_for_member_record sha (h_store h) (iv_member i))"

definition is_invite_token :: "hub \<Rightarrow> string option \<Rightarrow> bool" where
  "is_invite_token h token = (case token of None \<Rightarrow> False | Some t \<Rightarrow> invite_by_token h t \<noteq> None)"

definition has_active_invite :: "hub \<Rightarrow> string \<Rightarrow> string \<Rightarrow> bool" where
  "has_active_invite h room member =
     (\<exists>i \<in> set (hm_values (h_invites h)). iv_room i = room \<and> iv_member i = member)"

definition add_invite :: "invite \<Rightarrow> hub \<Rightarrow> (sql_error, unit) result \<times> hub" where
  "add_invite dv h =
     (if iv_member dv \<noteq> [] \<and> member_of h (Some (iv_member dv)) = None then (Err InvalidQuery, h)
      else if is_deleted h (iv_room dv) then (Err sealed_error, h)
      else case with_store (insert_invite dv) h of
             (Inl e, h1) \<Rightarrow> (Err e, h1)
           | (Inr _, h1) \<Rightarrow> (Ok (), h1\<lparr>h_invites := hm_insert (iv_token dv) dv (h_invites h1)\<rparr>))"

datatype InviteError = InvMissingRoom | InvMemberNotFound | InvAlreadyInvited | InvFull | InvStorage
  | InvReserved | InvSealed

definition davets_of :: "hub \<Rightarrow> string \<Rightarrow> invite list" where
  "davets_of h room = filter (\<lambda>i. iv_room i = room) (hm_values (h_invites h))"

definition invite_gate :: "hub \<Rightarrow> string \<Rightarrow> string \<Rightarrow> (InviteError, membership) result" where
  "invite_gate h member_token room =
     (if is_deleted h room then Err InvSealed
      else if \<not> admin_open h \<and> get_room h room = None then Err InvMissingRoom
      else case member_of h (Some member_token) of None \<Rightarrow> Err InvMemberNotFound
      | Some m \<Rightarrow>
          if room = h_reserved_room h \<and> mb_name m \<notin> set (h_caretakers h) then Err InvReserved
          else if has_active_invite h room member_token then Err InvAlreadyInvited
          else if LOCA_KAPASITE \<le> length (davets_of h room) then Err InvFull
          else Ok m)"

definition invite_member_to_room ::
  "string \<Rightarrow> string \<Rightarrow> string \<Rightarrow> u64 \<Rightarrow> hub \<Rightarrow> (InviteError, invite) result \<times> hub" where
  "invite_member_to_room member_token room issued_by now h =
     (case invite_gate h member_token room of
        Inl e \<Rightarrow> (Err e, h)
      | Inr m \<Rightarrow>
          (let (token, h1) = new_invite_token h;
               dv = \<lparr> iv_token = token, iv_room = room, iv_member = mb_token m, iv_name = mb_name m,
                       iv_kind = mb_kind m, iv_issued_at = now, iv_issued_by = issued_by \<rparr>
           in case add_invite dv h1 of
                (Inl _, h2) \<Rightarrow> (Err InvStorage, h2)
              | (Inr _, h2) \<Rightarrow> (Ok dv, h2\<lparr>h_lobby_tx := h_lobby_tx h2 @ [Called (mb_token m) room token]\<rparr>)))"

definition revoke_sessions_for_member :: "string \<Rightarrow> hub \<Rightarrow> hub" where
  "revoke_sessions_for_member member h =
     h\<lparr>h_sessions := hm_retain (\<lambda>_ s. si_member s \<noteq> Some member) (h_sessions h)\<rparr>"

definition revoke_sessions_for_davet :: "string \<Rightarrow> string \<Rightarrow> hub \<Rightarrow> hub" where
  "revoke_sessions_for_davet room member h = (if member = [] then h
     else h\<lparr>h_sessions := hm_retain (\<lambda>_ s. \<not> (si_member s = Some member \<and> si_loca s = Some room))
            (h_sessions h)\<rparr>)"

definition close_connections :: "string \<Rightarrow> string \<Rightarrow> hub \<Rightarrow> hub" where
  "close_connections room name h = (case get_room h room of None \<Rightarrow> h
     | Some r \<Rightarrow> put_room room (send (FKicked name False) r) h)"

definition end_davet :: "invite \<Rightarrow> hub \<Rightarrow> hub" where
  "end_davet i h = close_connections (iv_room i) (iv_name i) (revoke_sessions_for_davet (iv_room i) (iv_member i) h)"

definition drop_davets :: "invite list \<Rightarrow> hub \<Rightarrow> hub" where
  "drop_davets davets h = h\<lparr>h_invites := fold (\<lambda>i. hm_remove (iv_token i)) davets (h_invites h)\<rparr>"

definition revoke_invite :: "string \<Rightarrow> u64 \<Rightarrow> hub \<Rightarrow> (sql_error, bool) result \<times> hub" where
  "revoke_invite token now h = (case hm_get (h_invites h) token of None \<Rightarrow> (Ok False, h)
   | Some i \<Rightarrow>
       (case with_store (store_revoke_invite token now) h of
          (Inl e, h1) \<Rightarrow> (Err e, h1)
        | (Inr _, h1) \<Rightarrow> (Ok True, end_davet i (h1\<lparr>h_invites := hm_remove token (h_invites h1)\<rparr>))))"

definition invite_management_id :: "digest \<Rightarrow> string \<Rightarrow> string" where
  "invite_management_id sha token = hashed_id sha ''ivid_'' (''invite:'' @ token)"

definition invite_by_ref :: "digest \<Rightarrow> hub \<Rightarrow> string \<Rightarrow> invite option" where
  "invite_by_ref sha h ref = find (\<lambda>i. iv_token i = ref \<or> invite_management_id sha (iv_token i) = ref)
     (hm_values (h_invites h))"

definition revoke_invite_ref :: "digest \<Rightarrow> string \<Rightarrow> u64 \<Rightarrow> hub \<Rightarrow> (sql_error, bool) result \<times> hub" where
  "revoke_invite_ref sha ref now h = (case invite_by_ref sha h ref of None \<Rightarrow> (Ok False, h)
     | Some i \<Rightarrow> revoke_invite (iv_token i) now h)"

definition revoke_invites_for :: "string \<Rightarrow> string \<Rightarrow> u64 \<Rightarrow> hub \<Rightarrow> (sql_error, unit) result \<times> hub" where
  "revoke_invites_for room name now h =
     (let davets = filter (\<lambda>i. iv_room i = room \<and> iv_name i = name) (hm_values (h_invites h))
      in if davets = [] then (Ok (), h)
         else case with_store (store_revoke_invites_for room name now) h of
                (Inl e, h1) \<Rightarrow> (Err e, h1)
              | (Inr _, h1) \<Rightarrow> (Ok (), fold end_davet davets (drop_davets davets h1)))"

definition invites_for_member :: "hub \<Rightarrow> string \<Rightarrow> invite list" where
  "invites_for_member h member = filter (\<lambda>i. iv_member i = member) (hm_values (h_invites h))"

definition invites_of :: "hub \<Rightarrow> string \<Rightarrow> invite list" where
  "invites_of h room = sort_key iv_issued_at (davets_of h room)"

subsection \<open>Ending and suspending a membership\<close>

definition revoke_member :: "digest \<Rightarrow> string \<Rightarrow> u64 \<Rightarrow> hub \<Rightarrow> (sql_error, bool) result \<times> hub" where
  "revoke_member sha token now h =
     (if \<not> hm_contains (h_members h) token then (Ok False, h)
      else case with_store (revoke_member_cascade sha token now) h of
             (Inl e, h1) \<Rightarrow> (Err e, h1)
           | (Inr _, h1) \<Rightarrow>
               (let davets = invites_for_member h1 token;
                    h2 = revoke_sessions_for_member token (fold end_davet davets (drop_davets davets h1))
                in (Ok True, h2\<lparr>h_members := hm_remove token (h_members h2),
                                h_lobby_tx := h_lobby_tx h2 @ [MembershipRevoked token]\<rparr>)))"

definition set_member_suspended ::
  "digest \<Rightarrow> string \<Rightarrow> bool \<Rightarrow> string \<Rightarrow> u64 \<Rightarrow> hub \<Rightarrow> (sql_error, bool) result \<times> hub" where
  "set_member_suspended sha ref suspended reason now h =
     (case find (\<lambda>t. member_management_id sha t = ref) (hm_keys (h_members h)) of
        None \<Rightarrow> (Ok False, h)
      | Some token \<Rightarrow>
          if \<not> suspended then with_store (resume_member sha token) h
          else case with_store (suspend_member sha token reason now) h of
                 (Inl e, h1) \<Rightarrow> (Err e, h1)
               | (Inr False, h1) \<Rightarrow> (Ok False, h1)
               | (Inr True, h1) \<Rightarrow>
                   (let davets = invites_for_member h1 token;
                        h2 = revoke_sessions_for_member token
                               (fold (\<lambda>i. close_connections (iv_room i) (iv_name i)) davets (drop_davets davets h1))
                    in (Ok True, h2\<lparr>h_lobby_tx := h_lobby_tx h2 @ [MembershipSuspended token]\<rparr>)))"

definition revoke_member_ref :: "digest \<Rightarrow> string \<Rightarrow> u64 \<Rightarrow> hub \<Rightarrow> (sql_error, bool) result \<times> hub" where
  "revoke_member_ref sha ref now h =
     (case find (\<lambda>t. t = ref \<or> member_management_id sha t = ref) (hm_keys (h_members h)) of
        None \<Rightarrow> (Ok False, h) | Some token \<Rightarrow> revoke_member sha token now h)"

subsection \<open>The door\<close>

definition may_enter :: "digest \<Rightarrow> u64 \<Rightarrow> string \<Rightarrow> string option \<Rightarrow> hub \<Rightarrow> bool \<times> hub" where
  "may_enter sha clock room token h =
     (if invite_for h room token \<noteq> None then (True, h)
      else case token of None \<Rightarrow> (is_member h None, h)
      | Some t \<Rightarrow>
          if credential_is_revoked sha (h_store h) t then (False, h)
          else (case member_for_credential sha clock (Some t) h of
                  (Some m, h1) \<Rightarrow> (is_member h1 (Some (mb_token m)), h1)
                | (None, h1) \<Rightarrow> (is_member h1 (Some t), h1)))"

definition is_banned :: "hub \<Rightarrow> string \<Rightarrow> string \<Rightarrow> bool" where
  "is_banned h room name = (case get_room h room of None \<Rightarrow> False | Some r \<Rightarrow> name \<in> set (r_banned r))"

datatype EnterDecision = Allowed | Denied | Banned

definition or_else :: "'a option \<Rightarrow> 'a option \<Rightarrow> 'a option" where
  "or_else x y = (case x of None \<Rightarrow> y | Some v \<Rightarrow> Some v)"

definition door_name ::
  "hub \<Rightarrow> request_authority \<Rightarrow> string option \<Rightarrow> session_identity option \<Rightarrow> string option \<Rightarrow> string option" where
  "door_name h authority davet session name_hint =
     or_else (map_option si_name session)
       (or_else (case davet of None \<Rightarrow> None | Some t \<Rightarrow> map_option iv_name (invite_by_token h t))
          (or_else (ra_display_name authority) name_hint))"

definition door_principal :: "request_authority \<Rightarrow> session_identity option \<Rightarrow> string option" where
  "door_principal authority session =
     or_else (case session of None \<Rightarrow> None | Some s \<Rightarrow> si_principal_id s) (ra_principal_id authority)"

definition operates :: "hub \<Rightarrow> string \<Rightarrow> string option \<Rightarrow> bool" where
  "operates h room prin = (case (prin, loca_operator (h_store h) room) of
     (Some p, Some a) \<Rightarrow> la_principal_id a = p | _ \<Rightarrow> False)"

definition session_opens :: "hub \<Rightarrow> string \<Rightarrow> session_identity option \<Rightarrow> bool" where
  "session_opens h room session = (case session of None \<Rightarrow> False
     | Some s \<Rightarrow> (case si_loca s of Some l \<Rightarrow> l = room | None \<Rightarrow> h_room_token h \<noteq> []))"

definition enter_decision ::
  "digest \<Rightarrow> u64 \<Rightarrow> u64 \<Rightarrow> string \<Rightarrow> string option \<Rightarrow> string option \<Rightarrow> session_identity option \<Rightarrow> string option \<Rightarrow>
     hub \<Rightarrow> EnterDecision \<times> hub" where
  "enter_decision sha now clock room admin_tok davet_tok session name_hint h =
     (let (authority, h1) = resolve_authority sha now clock admin_tok None h
      in if is_building_admin authority \<and> admin_tok \<noteq> None then (Allowed, h1)
         else if (case session of None \<Rightarrow> False | Some s \<Rightarrow> si_admin s) then (Allowed, h1)
         else if (case door_name h1 authority davet_tok session name_hint of None \<Rightarrow> False
                  | Some n \<Rightarrow> is_banned h1 room n) then (Banned, h1)
         else if operates h1 room (door_principal authority session) then (Allowed, h1)
         else (let (ok, h2) = may_enter sha clock room davet_tok h1
               in if ok then (Allowed, h2)
                  else if session_opens h2 room session then (Allowed, h2)
                  else (Denied, h2)))"

definition seat_identity ::
  "digest \<Rightarrow> u64 \<Rightarrow> string option \<Rightarrow> string option \<Rightarrow> session_identity option \<Rightarrow> string option \<Rightarrow> string \<Rightarrow>
     hub \<Rightarrow> string \<times> hub" where
  "seat_identity sha clock admin_tok davet_tok session session_tok name h =
     (case (case admin_tok of None \<Rightarrow> None
            | Some t \<Rightarrow> if smaster_name h (Some t) \<noteq> None then Some (''sm:'' @ t)
                        else if h_admin_token h \<noteq> [] \<and> t = h_admin_token h then Some ''@master'' else None) of
        Some seat \<Rightarrow> (seat, h)
      | None \<Rightarrow>
          (case (case davet_tok of None \<Rightarrow> None | Some t \<Rightarrow> invite_by_token h t) of
             Some i \<Rightarrow> (if iv_member i \<noteq> [] then ''mb:'' @ iv_member i else ''dv:'' @ iv_token i, h)
           | None \<Rightarrow>
               (case member_for_credential sha clock davet_tok h of
                  (Some m, h1) \<Rightarrow> (''mb:'' @ mb_token m, h1)
                | (None, h1) \<Rightarrow>
                    (case session of
                       None \<Rightarrow> (''name:'' @ name, h1)
                     | Some s \<Rightarrow>
                         if si_admin s then (''@master'', h1)
                         else case si_member s of
                                Some m \<Rightarrow> (''mb:'' @ m, h1)
                              | None \<Rightarrow> (case session_tok of Some t \<Rightarrow> (''st:'' @ t, h1)
                                  | None \<Rightarrow> (''name:'' @ name, h1))))))"

subsection \<open>The lobby\<close>

definition lobby_join :: "string \<Rightarrow> hub \<Rightarrow> hub" where
  "lobby_join member h = h\<lparr>h_lobby_online := hm_insert member
     (Suc (case hm_get (h_lobby_online h) member of None \<Rightarrow> 0 | Some n \<Rightarrow> n)) (h_lobby_online h)\<rparr>"

definition lobby_leave :: "string \<Rightarrow> hub \<Rightarrow> hub" where
  "lobby_leave member h = (case hm_get (h_lobby_online h) member of None \<Rightarrow> h
     | Some n \<Rightarrow> h\<lparr>h_lobby_online := (if n - 1 = 0 then hm_remove member (h_lobby_online h)
         else hm_insert member (n - 1) (h_lobby_online h))\<rparr>)"

end
