(* ===== verification/Rooms.thy ===== *)
theory Rooms
  imports Access Post
begin

text \<open>
  The seats, the moderation and the settings of a loca, from
  \<^verbatim>\<open>crates/server/src/hub.rs\<close>: subscribing, joining and leaving, naming the lead, chat
  mode and tunable settings, moderation, closing a loca for good, the expiry of the
  live mode and the founding of a loca.
\<close>

subsection \<open>Seats\<close>

text \<open>The history a subscriber replays; a subscription to a sealed loca is empty.\<close>

definition subscribe :: "string \<Rightarrow> hub \<Rightarrow> message list \<times> hub" where
  "subscribe room h = (if is_deleted h room then ([], h)
     else let r = room_mut room h in (r_history r, put_room room r h))"

definition send_members :: "room \<Rightarrow> room" where
  "send_members r = send (FMembers (member_list r)) r"

definition seat_room :: "string \<Rightarrow> string \<Rightarrow> SenderType \<Rightarrow> u64 \<Rightarrow> room \<Rightarrow> room" where
  "seat_room identity name kind session r = (case hm_get (r_members r) identity of
     None \<Rightarrow> r\<lparr>r_members := hm_insert identity (name, kind, 1) (r_members r)\<rparr>
   | Some (old_name, old_kind, n) \<Rightarrow>
       if old_name = name \<and> old_kind = User \<and> kind = User
       then r\<lparr>r_members := hm_insert identity (old_name, old_kind, u64_saturating_add n 1) (r_members r)\<rparr>
       else (send (FEvicted name identity session) r)
              \<lparr>r_members := hm_insert identity (name, kind, 1) (r_members r)\<rparr>)"

definition join :: "string \<Rightarrow> string \<Rightarrow> string \<Rightarrow> SenderType \<Rightarrow> u64 \<Rightarrow> hub \<Rightarrow> bool \<times> hub" where
  "join room identity name kind session h =
     (if is_deleted h room then (False, h)
      else let r = room_mut room h
           in if \<not> hm_contains (r_members r) identity \<and> LOCA_KAPASITE \<le> length (r_members r)
              then (False, put_room room r h)
              else (True, put_room room (send_members (seat_room identity name kind session r)) h))"

definition leave_seat :: "string \<Rightarrow> room \<Rightarrow> room" where
  "leave_seat identity r = (case hm_get (r_members r) identity of None \<Rightarrow> r
     | Some (name, kind, n) \<Rightarrow>
         if n - 1 = 0 then r\<lparr>r_members := hm_remove identity (r_members r)\<rparr>
         else r\<lparr>r_members := hm_insert identity (name, kind, n - 1) (r_members r)\<rparr>)"

definition leave :: "string \<Rightarrow> string \<Rightarrow> hub \<Rightarrow> hub" where
  "leave room identity h = (case get_room h room of None \<Rightarrow> h
     | Some r \<Rightarrow> put_room room (send_members (leave_seat identity r)) h)"

subsection \<open>Reactions\<close>

datatype ReactionReject = ReInvalidEmoji | ReNotFound | ReOwnMessage | ReReadOnly | ReStorage

text \<open>The four allowed signs as their UTF-8 bytes.\<close>

definition ALLOWED :: "string list" where
  "ALLOWED = [[CHR 0xE2, CHR 0x9C, CHR 0x93], [CHR 0xE2, CHR 0x9C, CHR 0xA6], ''!'',
     [CHR 0xE2, CHR 0x99, CHR 0xA5]]"

definition history_owner :: "hub \<Rightarrow> string \<Rightarrow> u64 \<Rightarrow> string option" where
  "history_owner h room i = (case get_room h room of None \<Rightarrow> None
     | Some r \<Rightarrow> map_option m_sender (find (\<lambda>m. m_id m = i) (r_history r)))"

definition broadcast_to :: "string \<Rightarrow> ServerFrame \<Rightarrow> hub \<Rightarrow> hub" where
  "broadcast_to room f h = (case get_room h room of None \<Rightarrow> h | Some r \<Rightarrow> put_room room (send f r) h)"

definition set_reaction ::
  "string \<Rightarrow> u64 \<Rightarrow> string \<Rightarrow> string \<Rightarrow> string \<Rightarrow> bool \<Rightarrow> u64 \<Rightarrow> hub \<Rightarrow>
     (ReactionReject, message_reaction_event) result \<times> hub" where
  "set_reaction room i prin reactor emoji active now h =
     (if emoji \<notin> set ALLOWED then (Err ReInvalidEmoji, h)
      else if \<not> is_writable h room then (Err ReReadOnly, h)
      else case with_store (message_owner room i) h of
             (Inl _, h1) \<Rightarrow> (Err ReStorage, h1)
           | (Inr stored, h1) \<Rightarrow>
               (case or_else stored (history_owner h1 room i) of
                  None \<Rightarrow> (Err ReNotFound, h1)
                | Some owner \<Rightarrow>
                    if owner = reactor then (Err ReOwnMessage, h1)
                    else case with_store (set_message_reaction room i prin reactor emoji active now) h1 of
                           (Inl _, h2) \<Rightarrow> (Err ReStorage, h2)
                         | (Inr reactions, h2) \<Rightarrow>
                             (let actors = (case find (\<lambda>x. re_message_id x = i \<and> re_emoji x = emoji) reactions of
                                    Some x \<Rightarrow> re_actors x | None \<Rightarrow> if active then [reactor] else []);
                                  event = \<lparr> rv_message_id = i, rv_emoji = emoji, rv_actors = actors,
                                            rv_owner = owner, rv_reactor = reactor, rv_active = active, rv_ts = now \<rparr>
                              in (Ok event, broadcast_to room (FReaction event) h2))))"

subsection \<open>Lead, mode and settings\<close>

datatype LeadError = LeadActiveGoal | LeadStorage

definition settings_of :: "hub \<Rightarrow> string \<Rightarrow> room_settings" where
  "settings_of h room = (case get_room h room of None \<Rightarrow> h_default_settings h | Some r \<Rightarrow> r_settings r)"

definition mode_of :: "hub \<Rightarrow> string \<Rightarrow> ChatMode" where
  "mode_of h room = (case get_room h room of None \<Rightarrow> Free | Some r \<Rightarrow> r_mode r)"

definition has_active_goal :: "hub \<Rightarrow> string \<Rightarrow> bool" where
  "has_active_goal h room = (case get_room h room of None \<Rightarrow> False
     | Some r \<Rightarrow> (\<exists>g \<in> set (hm_values (r_goals r)). g_status g = GoalActive))"

definition lead_message :: "string \<Rightarrow> string option \<Rightarrow> string \<Rightarrow> u64 \<Rightarrow> u64 \<Rightarrow> message" where
  "lead_message room lead by i now =
    \<lparr> m_id = i, m_room = room, m_sender = ''loca'', m_sender_type = User,
      m_target = or_else lead (Some ''all''),
      m_text = by @ '' set @lead '' @ (case lead of Some name \<Rightarrow> name | None \<Rightarrow> ''none'') @ ''.'',
      m_kind = Announce, m_reply_to = None, m_reply_to_sender = None, m_ts = now, m_attachments = [] \<rparr>"

definition set_lead ::
  "string \<Rightarrow> string option \<Rightarrow> string \<Rightarrow> u64 \<Rightarrow> hub \<Rightarrow> (LeadError, room_settings) result \<times> hub" where
  "set_lead room lead by now h =
     (if is_deleted h room then (Ok (settings_of h room), h)
      else if lead = None \<and> has_active_goal h room then (Err LeadActiveGoal, h)
      else let settings = (settings_of h room)\<lparr>st_lead := lead\<rparr>;
               msg = lead_message room lead by (h_next_id h) now;
               h1 = h\<lparr>h_next_id := u64_add (h_next_id h) 1\<rparr>
           in case with_store (insert_message_with_room msg (mode_of h room) settings None) h1 of
                (Inl _, h2) \<Rightarrow> (Err LeadStorage, h2)
              | (Inr _, h2) \<Rightarrow>
                  (let r = room_mut room h2
                   in (Ok settings, put_room room
                        (send (FMsg msg) (send (FSettings settings)
                           (r\<lparr>r_settings := settings, r_history := r_history r @ [msg]\<rparr>))) h2)))"

definition normalize_mode :: "ChatMode \<Rightarrow> ChatMode" where
  "normalize_mode mode = (case mode of
     RoundRobin order turn \<Rightarrow> RoundRobin order (if order = [] \<or> length order \<le> turn then 0 else turn)
   | m \<Rightarrow> m)"

definition set_mode :: "u64 \<Rightarrow> string \<Rightarrow> ChatMode \<Rightarrow> hub \<Rightarrow> (sql_error, ChatMode) result \<times> hub" where
  "set_mode clock room mode h =
     (if is_deleted h room then (Ok (mode_of h room), h)
      else let m = normalize_mode mode; r = room_mut room h
           in case with_store (save_room clock room m (r_settings r)) h of
                (Inl e, h1) \<Rightarrow> (Err e, put_room room r h1)
              | (Inr _, h1) \<Rightarrow> (Ok m, put_room room (send (FMode m) (r\<lparr>r_mode := m\<rparr>)) h1))"

definition override :: "'a option \<Rightarrow> 'a \<Rightarrow> 'a" where
  "override v old = (case v of None \<Rightarrow> old | Some x \<Rightarrow> x)"

definition apply_settings :: "set_settings_body \<Rightarrow> room_settings \<Rightarrow> room_settings" where
  "apply_settings b s =
     (let idle = override (map_option (\<lambda>v. clamp v 100 30000) (ss_turn_idle_ms b)) (st_turn_idle_ms s);
          max_wait = override (map_option (\<lambda>v. clamp v 100 60000) (ss_turn_max_wait_ms b)) (st_turn_max_wait_ms s)
      in s\<lparr> st_rate_limit := override (ss_rate_limit b) (st_rate_limit s),
            st_rate_window_secs := override (map_option (\<lambda>w. max w 1) (ss_rate_window_secs b)) (st_rate_window_secs s),
            st_live := override (ss_live b) (st_live s),
            st_archived := override (ss_archived b) (st_archived s),
            st_live_timeout_secs := override (ss_live_timeout_secs b) (st_live_timeout_secs s),
            st_operators := override (ss_operators b) (st_operators s),
            st_turn_max_messages := override (map_option (\<lambda>v. clamp v 1 16) (ss_turn_max_messages b)) (st_turn_max_messages s),
            st_turn_idle_ms := idle,
            st_turn_max_wait_ms := max max_wait idle,
            st_care_wait_secs := override (ss_care_wait_secs b) (st_care_wait_secs s),
            st_care_cooldown_secs := override (ss_care_cooldown_secs b) (st_care_cooldown_secs s),
            st_care_max_attempts := override (map_option (\<lambda>v. clamp v 1 10) (ss_care_max_attempts b)) (st_care_max_attempts s),
            st_care_context_messages := override (map_option (\<lambda>v. clamp v 0 20) (ss_care_context_messages b)) (st_care_context_messages s),
            st_care_recipient := override (ss_care_recipient b) (st_care_recipient s),
            st_care_goal_secs := override (ss_care_goal_secs b) (st_care_goal_secs s),
            st_care_task_secs := override (ss_care_task_secs b) (st_care_task_secs s),
            st_care_silence_secs := override (ss_care_silence_secs b) (st_care_silence_secs s) \<rparr>)"

definition show_settings :: "set_settings_body \<Rightarrow> room_settings \<Rightarrow> u64 \<Rightarrow> room \<Rightarrow> room" where
  "show_settings b s now r = send (FSettings s)
     (r\<lparr> r_care_marks := (if \<not> st_archived (r_settings r) \<and> st_archived s then [] else r_care_marks r),
         r_last_msg_ms := (if ss_live b = Some True then now else r_last_msg_ms r),
         r_settings := s \<rparr>)"

definition set_settings ::
  "u64 \<Rightarrow> string \<Rightarrow> set_settings_body \<Rightarrow> u64 \<Rightarrow> hub \<Rightarrow> (sql_error, room_settings) result \<times> hub" where
  "set_settings clock room b now h =
     (if is_deleted h room then (Err sealed_error, h)
      else let r = room_mut room h; s = apply_settings b (r_settings r)
           in case with_store (save_room clock room (r_mode r) s) h of
                (Inl e, h1) \<Rightarrow> (Err e, put_room room r h1)
              | (Inr _, h1) \<Rightarrow> (Ok s, put_room room (show_settings b s now r) h1))"

definition is_live :: "hub \<Rightarrow> string \<Rightarrow> bool" where
  "is_live h room = (case get_room h room of None \<Rightarrow> False | Some r \<Rightarrow> st_live (r_settings r))"

definition is_lead :: "hub \<Rightarrow> string \<Rightarrow> string \<Rightarrow> bool" where
  "is_lead h room name = (case get_room h room of None \<Rightarrow> False
     | Some r \<Rightarrow> st_lead (r_settings r) = Some name)"

definition control :: "string \<Rightarrow> string \<Rightarrow> hub \<Rightarrow> hub" where
  "control room cmd h = broadcast_to room (FControl cmd) h"

definition typing :: "string \<Rightarrow> string \<Rightarrow> bool \<Rightarrow> hub \<Rightarrow> hub" where
  "typing room name on h = broadcast_to room (FTyping name on) h"

subsection \<open>Moderation\<close>

definition mod_state_of :: "room \<Rightarrow> mod_state" where
  "mod_state_of r = \<lparr> ms_muted = sort (r_muted r), ms_banned = sort (r_banned r) \<rparr>"

definition mod_state_view :: "hub \<Rightarrow> string \<Rightarrow> mod_state" where
  "mod_state_view h room = (case get_room h room of None \<Rightarrow> \<lparr> ms_muted = [], ms_banned = [] \<rparr>
     | Some r \<Rightarrow> mod_state_of r)"

definition persist_moderation ::
  "string \<Rightarrow> ModAction \<Rightarrow> string \<Rightarrow> u64 \<Rightarrow> hub \<Rightarrow> (sql_error, unit) result \<times> hub" where
  "persist_moderation room action name now h = (case action of
     Mute \<Rightarrow> with_store (set_ban room name ''mute'' now) h
   | Unmute \<Rightarrow> with_store (clear_ban room name ''mute'') h
   | Ban \<Rightarrow> (case with_store (set_ban room name ''ban'' now) h of
       (Inl e, h1) \<Rightarrow> (Err e, h1) | (Inr _, h1) \<Rightarrow> revoke_invites_for room name now h1)
   | Unban \<Rightarrow> with_store (clear_ban room name ''ban'') h
   | Kick \<Rightarrow> revoke_invites_for room name now h
   | Release \<Rightarrow> revoke_invites_for room name now h)"

definition eject :: "string \<Rightarrow> room \<Rightarrow> room" where
  "eject name r = r\<lparr>r_members := hm_retain (\<lambda>_ (n, _, _). n \<noteq> name) (r_members r)\<rparr>"

definition send_mod :: "room \<Rightarrow> room" where
  "send_mod r = send (FMod (mod_state_of r)) r"

definition moderate_room :: "ModAction \<Rightarrow> string \<Rightarrow> room \<Rightarrow> room" where
  "moderate_room action name r = (case action of
     Mute \<Rightarrow> send_mod (r\<lparr>r_muted := hs_insert name (r_muted r)\<rparr>)
   | Unmute \<Rightarrow> send_mod (r\<lparr>r_muted := hs_remove name (r_muted r)\<rparr>)
   | Unban \<Rightarrow> send_mod (r\<lparr>r_banned := hs_remove name (r_banned r)\<rparr>)
   | Kick \<Rightarrow> send_members (eject name (send (FKicked name False) r))
   | Release \<Rightarrow> send_members (eject name (send (FKicked name False) r))
   | Ban \<Rightarrow> send_members (send (FKicked name True) (eject name (r\<lparr>r_banned := hs_insert name (r_banned r)\<rparr>))))"

definition moderate ::
  "string \<Rightarrow> ModAction \<Rightarrow> string \<Rightarrow> u64 \<Rightarrow> hub \<Rightarrow> (sql_error, mod_state) result \<times> hub" where
  "moderate room action name now h =
     (if is_deleted h room then (Ok (mod_state_view h room), h)
      else case persist_moderation room action name now h of
             (Inl e, h1) \<Rightarrow> (Err e, h1)
           | (Inr _, h1) \<Rightarrow>
               (let r = moderate_room action name (room_mut room h1)
                in (Ok (mod_state_of r), put_room room r h1)))"

subsection \<open>Closing, expiry and founding\<close>

datatype DeleteReject = DelNotArchived | DelStorage

text \<open>The \<open>room-closed\<close> frame is sent on the channel of a room that is already gone.\<close>

definition delete_room :: "string \<Rightarrow> u64 \<Rightarrow> hub \<Rightarrow> (DeleteReject, bool) result \<times> hub" where
  "delete_room room now h = (case get_room h room of None \<Rightarrow> (Ok False, h)
   | Some r \<Rightarrow>
       if \<not> st_archived (r_settings r) then (Err DelNotArchived, h)
       else case with_store (seal_room room now) h of
              (Inl _, h1) \<Rightarrow> (Err DelStorage, h1)
            | (Inr _, h1) \<Rightarrow> (Ok True, h1\<lparr>h_rooms := hm_remove room (h_rooms h1),
                                         h_deleted := hs_insert room (h_deleted h1)\<rparr>))"

definition live_expired :: "u64 \<Rightarrow> room \<Rightarrow> bool" where
  "live_expired now r = (st_live (r_settings r) \<and> 0 < st_live_timeout_secs (r_settings r)
     \<and> 0 < r_last_msg_ms r
     \<and> st_live_timeout_secs (r_settings r) * 1000 < u64_saturating_sub now (r_last_msg_ms r))"

definition expire_room :: "u64 \<Rightarrow> u64 \<Rightarrow> string \<Rightarrow> hub \<Rightarrow> hub" where
  "expire_room clock now name h = (case get_room h name of None \<Rightarrow> h
   | Some r \<Rightarrow>
       if \<not> live_expired now r then h
       else let s = (r_settings r)\<lparr>st_live := False\<rparr>;
                shown = send (FControl (''live-expired:'' @ dec (st_live_timeout_secs (r_settings r))))
                          (send (FSettings s) (r\<lparr>r_settings := s\<rparr>))
            in case with_store (save_room clock name (r_mode r) s) h of
                 (Inl _, h1) \<Rightarrow> put_room name (shown\<lparr>r_settings := s\<lparr>st_live := True\<rparr>\<rparr>) h1
               | (Inr _, h1) \<Rightarrow> put_room name shown h1)"

definition expire_live :: "u64 \<Rightarrow> u64 \<Rightarrow> hub \<Rightarrow> hub" where
  "expire_live clock now h = fold (expire_room clock now) (hm_keys (h_rooms h)) h"

datatype OperatorAssignmentError = OaAuthorityRequired | OaEmptySeatRequired | OaMasterProtected
  | OaPrincipalNotFound | OaPrincipalMustBeHuman | OaNotFound | OaConflict | OaStorage

definition map_loca_operator_error :: "LocaOperatorError \<Rightarrow> OperatorAssignmentError" where
  "map_loca_operator_error e = (case e of
     OpPrincipalNotFound \<Rightarrow> OaPrincipalNotFound | OpAppointerNotFound \<Rightarrow> OaPrincipalNotFound
   | OpPrincipalMustBeHuman \<Rightarrow> OaPrincipalMustBeHuman | OpAppointerNotAuthorized \<Rightarrow> OaAuthorityRequired
   | OpEmptySeatRequired \<Rightarrow> OaEmptySeatRequired | OpNotFound \<Rightarrow> OaNotFound
   | OpConflict \<Rightarrow> OaConflict | OpStorage \<Rightarrow> OaStorage)"

definition found_room :: "string \<Rightarrow> hub \<Rightarrow> hub" where
  "found_room room h = put_room room (room_with Free (h_default_settings h) 1) h"

definition create_loca ::
  "u64 \<Rightarrow> string \<Rightarrow> request_authority \<Rightarrow> u64 \<Rightarrow> hub \<Rightarrow>
     (OperatorAssignmentError, loca_operator_assignment option) result \<times> hub" where
  "create_loca clock room actor now h =
     (if \<not> is_building_admin actor then (Err OaAuthorityRequired, h)
      else if is_deleted h room then (Err OaConflict, h)
      else if get_room h room \<noteq> None then (Err OaConflict, h)
      else if is_persistent (h_store h) \<and> \<not> admin_open h
      then (case ra_principal_id actor of None \<Rightarrow> (Err OaAuthorityRequired, h)
            | Some founder \<Rightarrow>
                (case with_store (create_room_with_operator room (h_default_settings h) founder now) h of
                   (Inl e, h1) \<Rightarrow> (Err (map_loca_operator_error e), h1)
                 | (Inr a, h1) \<Rightarrow> (Ok (Some a), found_room room h1)))
      else (case with_store (save_room clock room Free (h_default_settings h)) h of
              (Inl _, h1) \<Rightarrow> (Err OaStorage, h1)
            | (Inr _, h1) \<Rightarrow> (Ok None, found_room room h1)))"

definition appoint_loca_operator ::
  "string \<Rightarrow> string \<Rightarrow> request_authority \<Rightarrow> u64 \<Rightarrow> hub \<Rightarrow>
     (OperatorAssignmentError, loca_operator_assignment) result \<times> hub" where
  "appoint_loca_operator room target actor now h =
     (if \<not> is_building_admin actor then (Err OaAuthorityRequired, h)
      else case ra_principal_id actor of None \<Rightarrow> (Err OaAuthorityRequired, h)
      | Some actor_id \<Rightarrow>
          (case with_store (store_appoint_loca_operator room target actor_id now) h of
             (Inl e, h1) \<Rightarrow> (Err (map_loca_operator_error e), h1)
           | (Inr a, h1) \<Rightarrow> (Ok a, h1)))"

definition revoke_loca_operator ::
  "string \<Rightarrow> request_authority \<Rightarrow> u64 \<Rightarrow> hub \<Rightarrow>
     (OperatorAssignmentError, loca_operator_assignment) result \<times> hub" where
  "revoke_loca_operator room actor now h =
     (if \<not> is_building_admin actor then (Err OaAuthorityRequired, h)
      else case ra_principal_id actor of None \<Rightarrow> (Err OaAuthorityRequired, h)
      | Some actor_id \<Rightarrow>
          (case loca_operator (h_store h) room of None \<Rightarrow> (Err OaNotFound, h)
           | Some current \<Rightarrow>
               if ra_building_role actor = Some Smaster
                  \<and> (la_appointed_by_role current \<noteq> Smaster \<or> la_appointed_by_principal_id current \<noteq> actor_id)
               then (Err OaMasterProtected, h)
               else case with_store (store_revoke_loca_operator room (la_principal_id current) now) h of
                      (Inl e, h1) \<Rightarrow> (Err (map_loca_operator_error e), h1)
                    | (Inr a, h1) \<Rightarrow> (Ok a, h1)))"

definition is_loca_operator ::
  "digest \<Rightarrow> u64 \<Rightarrow> u64 \<Rightarrow> string \<Rightarrow> string option \<Rightarrow> string option \<Rightarrow> string \<Rightarrow> hub \<Rightarrow> bool \<times> hub" where
  "is_loca_operator sha now clock room admin_token session_token name h =
     (let (authority, h1) = resolve_authority sha now clock admin_token session_token h
      in (if is_building_admin authority then True
          else if h_admin_token h1 = [] then True
          else case (ra_principal_id authority, loca_operator (h_store h1) room) of
                 (Some p, Some a) \<Rightarrow> la_principal_id a = p
               | _ \<Rightarrow> if is_persistent (h_store h1) then False
                     else case get_room h1 room of None \<Rightarrow> False
                          | Some r \<Rightarrow> name \<in> set (st_operators (r_settings r)), h1))"

end
