(* ===== verification/Rooms_Laws.thy ===== *)
theory Rooms_Laws
  imports Rooms Frames
begin

text \<open>
  The operations of \<^verbatim>\<open>Rooms\<close> as a transition system, and what they may do to a room.
  The locale \<open>room_law\<close> is the interface: a predicate on rooms that every elementary
  change of a room keeps is kept by every operation, for every order of the calls and
  every pattern of storage failures.
\<close>

inductive room_step :: "hub \<Rightarrow> hub \<Rightarrow> bool" where
  subscribe: "room_step h (snd (subscribe room h))"
| join: "room_step h (snd (join room identity name kind session h))"
| leave: "room_step h (leave room identity h)"
| set_reaction: "room_step h (snd (set_reaction room i prin reactor emoji active now h))"
| set_lead: "room_step h (snd (set_lead room lead by now h))"
| set_mode: "room_step h (snd (set_mode clock room mode h))"
| set_settings: "room_step h (snd (set_settings clock room body now h))"
| control: "room_step h (control room cmd h)"
| typing: "room_step h (typing room name on h)"
| moderate: "room_step h (snd (moderate room action name now h))"
| delete_room: "room_step h (snd (delete_room room now h))"
| expire_live: "room_step h (expire_live clock now h)"
| create_loca: "room_step h (snd (create_loca clock room actor now h))"
| appoint_loca_operator: "room_step h (snd (appoint_loca_operator room target actor now h))"
| revoke_loca_operator: "room_step h (snd (revoke_loca_operator room actor now h))"
| faults: "room_step h (h\<lparr>h_store := (h_store h)\<lparr>sto_faults := fs\<rparr>\<rparr>)"

locale room_law =
  fixes P :: "string \<Rightarrow> room \<Rightarrow> bool" and D :: "room_settings \<Rightarrow> bool"
  assumes fresh: "D s \<Longrightarrow> P n (room_with Free s 1)"
    and on_send: "P n r \<Longrightarrow> P n (send f r)"
    and on_seat: "P n r \<Longrightarrow> hm_contains (r_members r) i \<or> length (r_members r) < LOCA_KAPASITE \<Longrightarrow>
      P n (seat_room i name kind session r)"
    and on_leave: "P n r \<Longrightarrow> P n (leave_seat i r)"
    and on_eject: "P n r \<Longrightarrow> P n (eject name r)"
    and on_muted: "P n r \<Longrightarrow> P n (r\<lparr>r_muted := names\<rparr>)"
    and on_banned: "P n r \<Longrightarrow> P n (r\<lparr>r_banned := names\<rparr>)"
    and on_lead: "P n r \<Longrightarrow> lead = None \<longrightarrow> (\<forall>g \<in> set (hm_values (r_goals r)). g_status g \<noteq> GoalActive) \<Longrightarrow>
      P n (r\<lparr>r_settings := (r_settings r)\<lparr>st_lead := lead\<rparr>, r_history := msgs\<rparr>)"
    and on_mode: "P n r \<Longrightarrow> P n (r\<lparr>r_mode := normalize_mode mode\<rparr>)"
    and on_settings: "P n r \<Longrightarrow> P n (r\<lparr>r_care_marks := marks, r_last_msg_ms := t,
      r_settings := apply_settings body (r_settings r)\<rparr>)"
    and on_live: "P n r \<Longrightarrow> P n (r\<lparr>r_settings := (r_settings r)\<lparr>st_live := b\<rparr>\<rparr>)"
begin

definition sound :: "hub \<Rightarrow> bool" where
  "sound h = (D (h_default_settings h) \<and> (\<forall>n r. get_room h n = Some r \<longrightarrow> P n r))"

lemma sound_room: "sound h \<Longrightarrow> P n (room_mut n h)"
  unfolding sound_def room_mut_def get_room_def using fresh by (cases "hm_get (h_rooms h) n") auto

lemma sound_put: "sound h \<Longrightarrow> P n r \<Longrightarrow> sound (put_room n r h)"
  by (auto simp: sound_def)

lemma sound_cong:
  "h_rooms h' = h_rooms h \<Longrightarrow> h_default_settings h' = h_default_settings h \<Longrightarrow> sound h' = sound h"
  by (simp add: sound_def get_room_def)

lemma sound_store: "with_store f h = (x, h') \<Longrightarrow> sound h' = sound h"
  by (rule sound_cong) (auto elim!: with_storeE)

lemma sound_snd_store: "sound (snd (with_store f h)) = sound h"
  by (metis sound_store prod.collapse)

lemma sound_fold: "sound h \<Longrightarrow> (\<And>x h. sound h \<Longrightarrow> sound (f x h)) \<Longrightarrow> sound (fold f xs h)"
  by (induction xs arbitrary: h) auto

lemma send_members_law: "P n r \<Longrightarrow> P n (send_members r)"
  by (simp add: send_members_def on_send)

lemma sound_broadcast: "sound h \<Longrightarrow> sound (broadcast_to room f h)"
  by (auto simp: broadcast_to_def sound_def on_send split: option.split)

lemma sound_end_davet: "sound h \<Longrightarrow> sound (end_davet i h)"
proof -
  assume "sound h"
  then have "sound (revoke_sessions_for_davet (iv_room i) (iv_member i) h)"
    by (simp add: revoke_sessions_for_davet_def sound_def get_room_def)
  then show ?thesis
    by (auto simp: end_davet_def close_connections_def sound_def on_send split: option.split)
qed

lemma sound_revoke_invites:
  assumes "sound h"
  shows "sound (snd (revoke_invites_for room name now h))"
proof -
  have "sound (drop_davets ds h')" if "sound h'" for ds h'
    using that by (simp add: drop_davets_def sound_def get_room_def)
  with assms show ?thesis
    unfolding revoke_invites_for_def Let_def
    by (auto simp: sound_store intro!: sound_fold sound_end_davet split: prod.split sum.split)
qed

lemma sound_subscribe: "sound h \<Longrightarrow> sound (snd (subscribe room h))"
  by (simp add: subscribe_def Let_def sound_put sound_room)

lemma sound_join: "sound h \<Longrightarrow> sound (snd (join room i name kind session h))"
  by (auto simp: join_def Let_def intro!: sound_put send_members_law on_seat sound_room)

lemma sound_leave: "sound h \<Longrightarrow> sound (leave room i h)"
  by (auto simp: leave_def intro!: sound_put send_members_law on_leave split: option.split)
    (simp add: sound_def)

lemma sound_reaction: "sound h \<Longrightarrow> sound (snd (set_reaction room i prin reactor emoji active now h))"
  unfolding set_reaction_def Let_def
  by (auto simp: sound_store intro!: sound_broadcast split: prod.split sum.split option.split)

lemma sound_lead:
  assumes h: "sound h"
  shows "sound (snd (set_lead room lead by now h))"
proof (cases "is_deleted h room \<or> lead = None \<and> has_active_goal h room")
  case True
  then show ?thesis using h by (auto simp: set_lead_def)
next
  case False
  define h1 where "h1 = h\<lparr>h_next_id := u64_add (h_next_id h) 1\<rparr>"
  define s where "s = (settings_of h room)\<lparr>st_lead := lead\<rparr>"
  define msg where "msg = lead_message room lead by (h_next_id h) now"
  obtain x h2 where st: "with_store (insert_message_with_room msg (mode_of h room) s None) h1 = (x, h2)"
    by force
  have same: "h_rooms h2 = h_rooms h" "h_default_settings h2 = h_default_settings h"
    using st by (auto simp: h1_def elim!: with_storeE)
  have h2: "sound h2" using h sound_cong [OF same] by simp
  have rm: "room_mut room h2 = room_mut room h" using same by (simp add: room_mut_def split: option.split)
  have s: "s = (r_settings (room_mut room h))\<lparr>st_lead := lead\<rparr>"
    by (simp add: s_def settings_of_def room_mut_def get_room_def room_with_def split: option.split)
  have goals: "has_active_goal h room = (\<exists>g \<in> set (hm_values (r_goals (room_mut room h))). g_status g = GoalActive)"
    by (cases "get_room h room") (simp_all add: has_active_goal_def room_mut_def get_room_def room_with_def hm_values_def)
  have "lead = None \<longrightarrow> (\<forall>g \<in> set (hm_values (r_goals (room_mut room h))). g_status g \<noteq> GoalActive)"
    using False goals by blast
  then have "P room ((room_mut room h)\<lparr>r_settings := s, r_history := r_history (room_mut room h) @ [msg]\<rparr>)"
    unfolding s by (rule on_lead [OF sound_room [OF h]])
  then have "sound (put_room room (send (FMsg msg) (send (FSettings s)
      ((room_mut room h2)\<lparr>r_settings := s, r_history := r_history (room_mut room h2) @ [msg]\<rparr>))) h2)"
    unfolding rm by (intro sound_put [OF h2] on_send)
  moreover have "snd (set_lead room lead by now h) = (case x of Inl _ \<Rightarrow> h2
     | Inr _ \<Rightarrow> put_room room (send (FMsg msg) (send (FSettings s)
      ((room_mut room h2)\<lparr>r_settings := s, r_history := r_history (room_mut room h2) @ [msg]\<rparr>))) h2)"
    using False st unfolding set_lead_def Let_def s_def [symmetric] msg_def [symmetric] h1_def [symmetric]
    by (auto split: sum.split)
  ultimately show ?thesis using h2 by (cases x) simp_all
qed

lemma sound_mode: "sound h \<Longrightarrow> sound (snd (set_mode clock room mode h))"
  unfolding set_mode_def Let_def
  by (auto simp: sound_store intro!: sound_put on_send on_mode sound_room split: prod.split sum.split)

lemma show_settings_law: "P n r \<Longrightarrow> P n (show_settings body (apply_settings body (r_settings r)) now r)"
  unfolding show_settings_def by (intro on_send on_settings)

lemma sound_settings: "sound h \<Longrightarrow> sound (snd (set_settings clock room body now h))"
  unfolding set_settings_def Let_def
  by (auto simp: sound_store intro!: sound_put show_settings_law sound_room split: prod.split sum.split)

lemma moderate_room_law: "P n r \<Longrightarrow> P n (moderate_room action name r)"
  by (cases action) (auto simp: moderate_room_def send_mod_def
      intro!: on_send on_eject on_muted on_banned send_members_law)

lemma sound_persist: "sound h \<Longrightarrow> sound (snd (persist_moderation room action name now h))"
  by (cases action) (auto simp: persist_moderation_def sound_snd_store sound_store
      intro!: sound_revoke_invites split: prod.split sum.split)

lemma sound_moderate:
  assumes "sound h"
  shows "sound (snd (moderate room action name now h))"
proof -
  obtain x h1 where p: "persist_moderation room action name now h = (x, h1)" by force
  then have "sound h1" using sound_persist [OF assms, of room action name now] by simp
  with assms p show ?thesis
    by (auto simp: moderate_def Let_def intro!: sound_put moderate_room_law sound_room split: sum.split)
qed

lemma sound_delete: "sound h \<Longrightarrow> sound (snd (delete_room room now h))"
proof -
  have "sound (h1\<lparr>h_rooms := hm_remove room (h_rooms h1), h_deleted := ds\<rparr>)" if "sound h1" for h1 ds
    using that by (auto simp: sound_def get_room_def split: if_splits)
  then show "sound h \<Longrightarrow> sound (snd (delete_room room now h))"
    unfolding delete_room_def by (auto simp: sound_store split: option.split prod.split sum.split)
qed

lemma sound_expire_room: "sound h \<Longrightarrow> sound (expire_room clock now room h)"
proof (cases "get_room h room")
  case (Some r)
  assume h: "sound h"
  then have r: "P room r" using Some by (simp add: sound_def)
  then have "P room (r\<lparr>r_settings := (r_settings r)\<lparr>st_live := b\<rparr>\<rparr>)" for b by (rule on_live)
  then have shown: "P room (send f (send g (r\<lparr>r_settings := (r_settings r)\<lparr>st_live := b\<rparr>\<rparr>)))" for f g b
    by (intro on_send)
  have relive: "(send f (send g (r\<lparr>r_settings := a\<rparr>)))\<lparr>r_settings := b\<rparr> = send f (send g (r\<lparr>r_settings := b\<rparr>))"
    for f g a b by (simp add: send_def)
  show ?thesis using h Some shown shown [of _ _ True]
    unfolding expire_room_def Let_def
    by (auto simp: relive sound_store intro!: sound_put split: prod.split sum.split)
qed (simp add: expire_room_def)

lemma sound_expire: "sound h \<Longrightarrow> sound (expire_live clock now h)"
  unfolding expire_live_def by (rule sound_fold) (auto intro: sound_expire_room)

lemma sound_found: "sound h \<Longrightarrow> sound (found_room room h)"
  unfolding found_room_def by (rule sound_put, assumption) (simp only: sound_def fresh)

lemma sound_create: "sound h \<Longrightarrow> sound (snd (create_loca clock room actor now h))"
  unfolding create_loca_def
  by (auto simp: sound_store intro!: sound_found split: prod.split sum.split option.split)

lemma sound_appoint: "sound h \<Longrightarrow> sound (snd (appoint_loca_operator room target actor now h))"
  unfolding appoint_loca_operator_def by (auto simp: sound_store split: prod.split sum.split option.split)

lemma sound_revoke: "sound h \<Longrightarrow> sound (snd (revoke_loca_operator room actor now h))"
  unfolding revoke_loca_operator_def by (auto simp: sound_store split: prod.split sum.split option.split)

lemmas sound_ops = sound_subscribe sound_join sound_leave sound_reaction sound_lead sound_mode
  sound_settings sound_moderate sound_delete sound_expire sound_create sound_appoint sound_revoke

lemma sound_step:
  assumes "room_step h h'" and "sound h"
  shows "sound h'"
  using assms
proof (induction rule: room_step.induct)
  case (faults h fs)
  then show ?case by (simp add: sound_def get_room_def)
qed (simp_all only: sound_ops control_def typing_def sound_broadcast)

lemma sound_reach: "room_step\<^sup>*\<^sup>* h h' \<Longrightarrow> sound h \<Longrightarrow> sound h'"
  by (induction rule: rtranclp_induct) (auto intro: sound_step)

end

subsection \<open>Seats\<close>

definition seats_ok :: "string \<Rightarrow> room \<Rightarrow> bool" where
  "seats_ok n r = (hm_ok (r_members r) \<and> length (r_members r) \<le> LOCA_KAPASITE
     \<and> (\<forall>i name kind k. hm_get (r_members r) i = Some (name, kind, k) \<longrightarrow> 0 < k))"

lemma seats_ok_seat:
  assumes "seats_ok n r" and "hm_contains (r_members r) i \<or> length (r_members r) < LOCA_KAPASITE"
  shows "seats_ok n (seat_room i name kind session r)"
proof -
  have "length (hm_insert i v (r_members r)) \<le> LOCA_KAPASITE" for v
    using assms by (auto simp: hm_length_insert seats_ok_def)
  moreover have "0 < u64_saturating_add k 1" for k by (simp add: u64_saturating_add_def u64_max_def)
  ultimately show ?thesis
    using assms(1) by (auto simp: seat_room_def seats_ok_def split: option.split)
qed

interpretation seats: room_law seats_ok "\<lambda>_. True"
proof unfold_locales
  fix n r i
  assume "seats_ok n r"
  then show "seats_ok n (leave_seat i r)"
    using hm_length_insert [of i _ "r_members r"] hm_length_remove [of i "r_members r"]
    by (auto simp: leave_seat_def seats_ok_def hm_contains_def split: option.split)
next
  fix n r name
  assume "seats_ok n r"
  then show "seats_ok n (eject name r)"
    using le_trans [OF hm_length_retain] by (auto simp: eject_def seats_ok_def hm_get_retain split: option.splits)
qed (erule seats_ok_seat, assumption | simp add: seats_ok_def room_with_def)+

subsection \<open>Settings and turns\<close>

definition settings_ok :: "room_settings \<Rightarrow> bool" where
  "settings_ok s = (1 \<le> st_rate_window_secs s
     \<and> 1 \<le> st_turn_max_messages s \<and> st_turn_max_messages s \<le> 16
     \<and> 100 \<le> st_turn_idle_ms s \<and> st_turn_idle_ms s \<le> 30000
     \<and> st_turn_idle_ms s \<le> st_turn_max_wait_ms s \<and> st_turn_max_wait_ms s \<le> 60000
     \<and> 1 \<le> st_care_max_attempts s \<and> st_care_max_attempts s \<le> 10
     \<and> st_care_context_messages s \<le> 20)"

definition turn_ok :: "ChatMode \<Rightarrow> bool" where
  "turn_ok mode = (case mode of RoundRobin order turn \<Rightarrow> turn < length order \<or> order = [] \<and> turn = 0 | _ \<Rightarrow> True)"

definition tuned :: "string \<Rightarrow> room \<Rightarrow> bool" where
  "tuned n r = (settings_ok (r_settings r) \<and> turn_ok (r_mode r))"

lemma apply_settings_ok: "settings_ok s \<Longrightarrow> settings_ok (apply_settings b s)"
  by (auto simp: settings_ok_def apply_settings_def override_def Let_def clamp_def split: option.split)

lemma seat_room_fields [simp]:
  "r_settings (seat_room i name kind session r) = r_settings r"
  "r_mode (seat_room i name kind session r) = r_mode r"
  "r_tasks (seat_room i name kind session r) = r_tasks r"
  "r_goals (seat_room i name kind session r) = r_goals r"
  "r_waits (seat_room i name kind session r) = r_waits r"
  "r_next_task_id (seat_room i name kind session r) = r_next_task_id r"
  "r_next_goal_id (seat_room i name kind session r) = r_next_goal_id r"
  by (simp_all add: seat_room_def split: option.split)

lemma leave_seat_fields [simp]:
  "r_settings (leave_seat i r) = r_settings r" "r_mode (leave_seat i r) = r_mode r"
  "r_tasks (leave_seat i r) = r_tasks r" "r_goals (leave_seat i r) = r_goals r"
  "r_waits (leave_seat i r) = r_waits r" "r_next_task_id (leave_seat i r) = r_next_task_id r"
  "r_next_goal_id (leave_seat i r) = r_next_goal_id r"
  by (simp_all add: leave_seat_def split: option.split)

lemma eject_fields [simp]:
  "r_settings (eject name r) = r_settings r" "r_mode (eject name r) = r_mode r"
  "r_tasks (eject name r) = r_tasks r" "r_goals (eject name r) = r_goals r"
  "r_waits (eject name r) = r_waits r" "r_next_task_id (eject name r) = r_next_task_id r"
  "r_next_goal_id (eject name r) = r_next_goal_id r"
  by (simp_all add: eject_def)

lemma apply_settings_lead [simp]: "st_lead (apply_settings b s) = st_lead s"
  by (simp add: apply_settings_def Let_def)

interpretation tuning: room_law tuned settings_ok
proof unfold_locales
  fix n r mode
  assume "tuned n r"
  then show "tuned n (r\<lparr>r_mode := normalize_mode mode\<rparr>)"
    by (cases mode) (auto simp: tuned_def turn_ok_def normalize_mode_def)
next
  fix n r body marks t
  assume "tuned n r"
  then show "tuned n (r\<lparr>r_care_marks := marks, r_last_msg_ms := t,
      r_settings := apply_settings body (r_settings r)\<rparr>)"
    by (simp add: tuned_def apply_settings_ok)
qed (simp_all add: tuned_def settings_ok_def turn_ok_def room_with_def)

subsection \<open>The panel of declared work\<close>

lemma work_ok_lead:
  assumes "work_ok n r" and "lead = None \<longrightarrow> (\<forall>g \<in> set (hm_values (r_goals r)). g_status g \<noteq> GoalActive)"
    and "r_tasks r' = r_tasks r" "r_goals r' = r_goals r" "r_next_task_id r' = r_next_task_id r"
    "r_next_goal_id r' = r_next_goal_id r" "st_lead (r_settings r') = lead"
  shows "work_ok n r'"
proof -
  have finished: "all_goal_tasks_done r' g = all_goal_tasks_done r g" for g
    using assms(3) by (simp add: all_goal_tasks_done_def task_done_def)
  have "goal_ok n r' i g" if g: "hm_get (r_goals r) i = Some g" for i g
  proof -
    have "goal_ok n r i g" using assms(1) g by (simp add: work_ok_def)
    moreover have "g_status g = GoalActive \<Longrightarrow> lead \<noteq> None" using assms(2) hm_values_get [OF g] by blast
    ultimately show ?thesis using assms(3-7) by (simp add: goal_ok_def finished)
  qed
  with assms show ?thesis by (auto simp: work_ok_def task_ok_def one_active_def)
qed

interpretation panel: room_law work_ok "\<lambda>_. True"
  by unfold_locales
    (simp_all add: work_ok_cong [where r' = "send _ _"] work_ok_cong [where r' = "seat_room _ _ _ _ _"]
      work_ok_cong [where r' = "leave_seat _ _"] work_ok_cong [where r' = "eject _ _"]
      work_ok_cong [where r' = "_ \<lparr>r_muted := _\<rparr>"] work_ok_cong [where r' = "_ \<lparr>r_banned := _\<rparr>"]
      work_ok_cong [where r' = "_ \<lparr>r_mode := _\<rparr>"] work_ok_cong [where r' = "_ \<lparr>r_settings := _\<rparr>"]
      work_ok_cong [where r' = "_ \<lparr>r_care_marks := _, r_last_msg_ms := _, r_settings := _\<rparr>"]
      work_ok_lead [where r' = "_ \<lparr>r_settings := _, r_history := _\<rparr>"])

interpretation jam: room_law waits_ok "\<lambda>_. True"
  by unfold_locales (simp_all add: waits_ok_def room_with_def)

lemma panel_sound: "panel.sound h = work_inv h"
  by (simp add: panel.sound_def work_inv_def)

lemma jam_sound: "jam.sound h = waits_inv h"
  by (simp add: jam.sound_def waits_inv_def)

end
