(* ===== verification/Rooms_Durable.thy ===== *)
theory Rooms_Durable
  imports Rooms_Laws
begin

text \<open>
  What the operations of a room may do to the tables.  The locale \<open>db_law\<close> is the
  interface: a predicate on the tables that every elementary write keeps holds of the
  durable state after any sequence of operations, storage failures included.
\<close>

locale db_law =
  fixes Q :: "db \<Rightarrow> bool"
  assumes on_room_state: "Q d \<Longrightarrow> write_room_state room mode settings d = Ok d' \<Longrightarrow> Q d'"
    and on_pause: "Q d \<Longrightarrow> Q (pause_room_attentions room at d)"
    and on_insert: "Q d \<Longrightarrow> insert_core m operation d = Ok d' \<Longrightarrow> Q d'"
    and on_bans: "Q d \<Longrightarrow> Q (d\<lparr>db_bans := bans\<rparr>)"
    and on_davets: "Q d \<Longrightarrow> Q (revoke_davets_where p at d)"
    and on_reactions: "Q d \<Longrightarrow> Q (d\<lparr>db_reactions := rows\<rparr>)"
    and on_seal: "Q d \<Longrightarrow> Q (retire_room_attentions room at
       (d\<lparr>db_rooms := hm_insert room (row\<lparr>rr_sealed_at := Some at\<rparr>) (db_rooms d)\<rparr>))"
    and on_seat: "Q d \<Longrightarrow> seat_operator room prin by role at d = Ok (a, d') \<Longrightarrow> Q d'"
    and on_appoint: "Q d \<Longrightarrow> appoint_rows room prin by at d = Ok (a, d') \<Longrightarrow> Q d'"
    and on_revoke: "Q d \<Longrightarrow> revoke_rows room prin at d = Ok (a, d') \<Longrightarrow> Q d'"
begin

definition stored :: "store \<Rightarrow> bool" where
  "stored s = (\<exists>d. sto_conn s = Some d \<and> Q d)"

definition durable :: "hub \<Rightarrow> bool" where
  "durable h = stored (h_store h)"

lemma stored_txn:
  assumes "stored s" and "\<And>d x d'. Q d \<Longrightarrow> body d = Ok (x, d') \<Longrightarrow> Q d'"
  shows "stored (snd (run_txn v body s))"
  using assms by (auto simp: stored_def run_txn_def split: option.splits list.splits bool.splits sum.splits)

lemma stored_answer:
  assumes "stored s" and "\<And>d x d'. Q d \<Longrightarrow> body d = Ok (x, d') \<Longrightarrow> Q d'"
  shows "stored (snd (answer_txn e e' body s))"
  using assms by (auto simp: stored_def answer_txn_def split: option.splits list.splits bool.splits sum.splits)

lemma stored_write: "stored s \<Longrightarrow> (\<And>d. Q d \<Longrightarrow> Q (f d)) \<Longrightarrow> stored (snd (run_write f s))"
  unfolding run_write_def by (rule stored_txn) auto

lemma stored_save: "stored s \<Longrightarrow> stored (snd (save_room clock room mode settings s))"
  unfolding save_room_def
  by (erule stored_txn) (auto split: sum.splits if_splits dest: on_room_state intro: on_pause)

lemma stored_insert: "stored s \<Longrightarrow> stored (snd (insert_message_with_room m mode settings operation s))"
  unfolding insert_message_with_room_def
  by (erule stored_txn) (auto split: sum.splits dest: on_room_state on_insert)

lemma stored_reaction: "stored s \<Longrightarrow> stored (snd (set_message_reaction room i prin reactor emoji active at s))"
  unfolding set_message_reaction_def
  by (erule stored_txn) (auto simp: Let_def on_reactions split: if_splits)

lemma stored_owner: "stored s \<Longrightarrow> stored (snd (message_owner room i s))"
  unfolding message_owner_def by (erule stored_txn) auto

lemma stored_bans:
  "stored s \<Longrightarrow> stored (snd (set_ban room name kind at s))"
  "stored s \<Longrightarrow> stored (snd (clear_ban room name kind s))"
  unfolding set_ban_def clear_ban_def by (auto intro: stored_write on_bans)

lemma stored_davets: "stored s \<Longrightarrow> stored (snd (store_revoke_invites_for room name at s))"
  unfolding store_revoke_invites_for_def by (auto intro: stored_write on_davets)

lemma stored_seal: "stored s \<Longrightarrow> stored (snd (seal_room room at s))"
  unfolding seal_room_def Let_def by (erule stored_write) (rule on_seal)

lemma stored_create: "stored s \<Longrightarrow> stored (snd (create_room_with_operator room settings founder at s))"
  unfolding create_room_with_operator_def
  by (erule stored_answer) (auto split: sum.splits if_splits dest: on_room_state on_seat)

lemma stored_operators:
  "stored s \<Longrightarrow> stored (snd (store_appoint_loca_operator room prin by at s))"
  "stored s \<Longrightarrow> stored (snd (store_revoke_loca_operator room prin at s))"
  unfolding store_appoint_loca_operator_def store_revoke_loca_operator_def
  by (auto intro: stored_answer on_appoint on_revoke)

lemmas stored_ops = stored_save stored_insert stored_reaction stored_owner stored_bans stored_davets
  stored_seal stored_create stored_operators

lemma durable_cong: "h_store h' = h_store h \<Longrightarrow> durable h' = durable h"
  by (simp add: durable_def)

lemma durable_store:
  assumes "with_store f h = (x, h')" and "durable h" and "\<And>s. stored s \<Longrightarrow> stored (snd (f s))"
  shows "durable h'"
  using with_store_store [OF assms(1)] assms(2) assms(3) [of "h_store h"] by (simp add: durable_def)

lemma durable_put [simp]: "durable (put_room n r h) = durable h"
  by (simp add: durable_def)

lemma durable_broadcast [simp]: "durable (broadcast_to room f h) = durable h"
  by (simp add: broadcast_to_def split: option.split)

lemma durable_end_davet [simp]: "durable (end_davet i h) = durable h"
  by (simp add: end_davet_def close_connections_def revoke_sessions_for_davet_def durable_def split: option.split)

lemma durable_fold_end [simp]: "durable (fold end_davet ds h) = durable h"
  by (induction ds arbitrary: h) auto

lemma durable_drop [simp]: "durable (drop_davets ds h) = durable h"
  by (simp add: drop_davets_def durable_def)

lemma durable_found [simp]: "durable (found_room room h) = durable h"
  by (simp add: found_room_def)

lemma durable_revoke_invites: "durable h \<Longrightarrow> durable (snd (revoke_invites_for room name now h))"
  unfolding revoke_invites_for_def Let_def
  by (auto split: prod.splits sum.splits dest: durable_store intro: stored_ops)

lemma durable_lead: "durable h \<Longrightarrow> durable (snd (set_lead room lead by now h))"
proof -
  assume "durable h"
  then have "durable (h\<lparr>h_next_id := n\<rparr>)" for n by (simp add: durable_def)
  then show ?thesis unfolding set_lead_def Let_def
    by (auto simp: \<open>durable h\<close> split: prod.splits sum.splits dest: durable_store intro: stored_ops)
qed

lemma durable_persist: "durable h \<Longrightarrow> durable (snd (persist_moderation room action name now h))"
  by (cases action) (auto simp: persist_moderation_def durable_revoke_invites
      split: prod.splits sum.splits dest: durable_store intro: stored_ops
      intro!: durable_revoke_invites durable_store [OF prod.collapse [symmetric]])

lemma durable_moderate: "durable h \<Longrightarrow> durable (snd (moderate room action name now h))"
  using durable_persist [of h room action name now]
  by (auto simp: moderate_def Let_def split: prod.splits sum.splits)

lemma durable_delete: "durable h \<Longrightarrow> durable (snd (delete_room room now h))"
proof -
  have "durable (h1\<lparr>h_rooms := rs, h_deleted := ds\<rparr>) = durable h1" for h1 rs ds by (simp add: durable_def)
  then show "durable h \<Longrightarrow> durable (snd (delete_room room now h))" unfolding delete_room_def
    by (auto split: option.splits prod.splits sum.splits dest: durable_store intro: stored_ops)
qed

lemma durable_expire: "durable h \<Longrightarrow> durable (expire_live clock now h)"
proof -
  have step: "durable h' \<Longrightarrow> durable (expire_room clock now n h')" for n h'
    unfolding expire_room_def Let_def
    by (auto split: option.splits prod.splits sum.splits dest: durable_store intro: stored_ops)
  have "durable h' \<Longrightarrow> durable (fold (expire_room clock now) ns h')" for ns h'
    by (induction ns arbitrary: h') (auto intro: step)
  then show "durable h \<Longrightarrow> durable (expire_live clock now h)" by (simp add: expire_live_def)
qed

lemma durable_simple:
  assumes "durable h"
  shows "durable (snd (subscribe room h))" "durable (snd (join room i name kind session h))"
    "durable (leave room i h)"
  using assms by (auto simp: subscribe_def join_def leave_def Let_def split: option.split)

lemma durable_tables:
  assumes "durable h"
  shows "durable (snd (set_reaction room i prin reactor emoji active now h))"
    "durable (snd (set_mode clock room mode h))" "durable (snd (set_settings clock room body now h))"
    "durable (snd (create_loca clock room actor now h))"
    "durable (snd (appoint_loca_operator room target actor now h))"
    "durable (snd (revoke_loca_operator room actor now h))"
  using assms
  unfolding set_reaction_def set_mode_def set_settings_def create_loca_def appoint_loca_operator_def
    revoke_loca_operator_def Let_def
  by (auto split: prod.splits sum.splits option.splits dest!: durable_store intro: stored_ops)

lemma durable_step:
  assumes "room_step h h'" and "durable h"
  shows "durable h'"
  using assms
proof (induction rule: room_step.induct)
  case (faults h fs)
  then show ?case by (simp add: durable_def stored_def)
qed (simp_all add: durable_simple durable_tables durable_lead durable_moderate durable_delete
    durable_expire control_def typing_def)

lemma durable_reach: "room_step\<^sup>*\<^sup>* h h' \<Longrightarrow> durable h \<Longrightarrow> durable h'"
  by (induction rule: rtranclp_induct) (auto intro: durable_step)

end

subsection \<open>The seal\<close>

lemma db_sealed_rooms: "db_rooms d' = db_rooms d \<Longrightarrow> db_sealed d' n = db_sealed d n"
  by (simp add: db_sealed_def)

lemma pause_rooms [simp]: "db_rooms (pause_room_attentions room at d) = db_rooms d"
  by (simp add: pause_room_attentions_def ack_rows_def Let_def)

lemma retire_rooms [simp]: "db_rooms (retire_room_attentions room at d) = db_rooms d"
  by (simp add: retire_room_attentions_def resolve_rows_def)

lemma seat_operator_rooms: "seat_operator room prin by role at d = Ok (a, d') \<Longrightarrow> db_rooms d' = db_rooms d"
  by (auto simp: seat_operator_def insert_assignment_def split: sum.splits if_splits option.splits)

lemma appoint_rows_rooms: "appoint_rows room prin by at d = Ok (a, d') \<Longrightarrow> db_rooms d' = db_rooms d"
  by (auto simp: appoint_rows_def close_seat_def split: sum.splits if_splits option.splits dest!: seat_operator_rooms)

lemma revoke_rows_rooms: "revoke_rows room prin at d = Ok (a, d') \<Longrightarrow> db_rooms d' = db_rooms d"
  by (auto simp: revoke_rows_def split: if_splits option.splits)

interpretation seal: db_law "\<lambda>d. db_sealed d n" for n
proof unfold_locales
  fix d room mode settings d'
  assume "db_sealed d n" and "write_room_state room mode settings d = Ok d'"
  then show "db_sealed d' n" by (auto simp: write_room_state_def db_sealed_def split: if_splits)
next
  fix d m operation d'
  assume "db_sealed d n" and "insert_core m operation d = Ok d'"
  then show "db_sealed d' n" using insert_core_okD db_sealed_rooms by blast
next
  fix d room at row
  assume "db_sealed d n"
  then show "db_sealed (retire_room_attentions room at
       (d\<lparr>db_rooms := hm_insert room (row\<lparr>rr_sealed_at := Some at\<rparr>) (db_rooms d)\<rparr>)) n"
    by (auto simp: db_sealed_def)
qed (auto simp: db_sealed_def revoke_davets_where_def
    dest: seat_operator_rooms appoint_rows_rooms revoke_rows_rooms)

definition sealed :: "string \<Rightarrow> hub \<Rightarrow> bool" where
  "sealed n h = (n \<in> set (h_deleted h) \<and> n \<noteq> h_home_room h \<and> get_room h n = None)"

lemma sealed_deleted: "sealed n h \<Longrightarrow> is_deleted h n"
  by (simp add: sealed_def is_deleted_def)

lemma sealed_put [simp]: "sealed n (put_room m r h) = (n \<noteq> m \<and> sealed n h)"
  by (auto simp: sealed_def)

lemma sealed_cong:
  "h_rooms h' = h_rooms h \<Longrightarrow> h_deleted h' = h_deleted h \<Longrightarrow> h_home_room h' = h_home_room h \<Longrightarrow>
     sealed n h' = sealed n h"
  by (simp add: sealed_def get_room_def)

lemma sealed_store: "with_store f h = (x, h') \<Longrightarrow> sealed n h' = sealed n h"
  by (rule sealed_cong) (auto elim!: with_storeE)

lemma sealed_snd_store [simp]: "sealed n (snd (with_store f h)) = sealed n h"
  by (metis sealed_store prod.collapse)

lemma sealed_broadcast: "sealed n h \<Longrightarrow> sealed n (broadcast_to room f h)"
  by (auto simp: broadcast_to_def sealed_def split: option.split)

lemma sealed_end_davet:
  assumes "sealed n h"
  shows "sealed n (end_davet i h)"
proof -
  let ?h = "revoke_sessions_for_davet (iv_room i) (iv_member i) h"
  have "sealed n ?h" using assms by (simp add: revoke_sessions_for_davet_def sealed_def get_room_def)
  then show ?thesis unfolding end_davet_def close_connections_def
    by (cases "get_room ?h (iv_room i)") (auto simp: sealed_def)
qed

lemma sealed_fold_end: "sealed n h \<Longrightarrow> sealed n (fold end_davet ds h)"
  by (induction ds arbitrary: h) (auto intro: sealed_end_davet)

lemma sealed_revoke_invites: "sealed n h \<Longrightarrow> sealed n (snd (revoke_invites_for room name now h))"
proof -
  have "sealed n (drop_davets ds h') = sealed n h'" for ds h'
    by (simp add: drop_davets_def sealed_def get_room_def)
  then show "sealed n h \<Longrightarrow> sealed n (snd (revoke_invites_for room name now h))"
    unfolding revoke_invites_for_def Let_def
    by (auto simp: sealed_store intro!: sealed_fold_end split: prod.split sum.split)
qed

lemma sealed_moderate:
  assumes "sealed n h"
  shows "sealed n (snd (moderate room action name now h))"
proof -
  have "sealed n (snd (persist_moderation room action name now h))"
    using assms by (cases action) (auto simp: persist_moderation_def sealed_store
        intro!: sealed_revoke_invites split: prod.split sum.split)
  then show ?thesis using assms sealed_deleted [OF assms]
    by (auto simp: moderate_def Let_def split: prod.split sum.split)
qed

lemma sealed_expire: "sealed n h \<Longrightarrow> sealed n (expire_live clock now h)"
proof -
  have step: "sealed n (expire_room clock now m h')" if "sealed n h'" for m h'
    using that unfolding expire_room_def Let_def
    by (auto simp: sealed_store split: option.split prod.split sum.split) (auto simp: sealed_def)
  have "sealed n h' \<Longrightarrow> sealed n (fold (expire_room clock now) ms h')" for ms h'
    by (induction ms arbitrary: h') (auto intro: step)
  then show "sealed n h \<Longrightarrow> sealed n (expire_live clock now h)" by (simp add: expire_live_def)
qed

lemma sealed_lead: "sealed n h \<Longrightarrow> sealed n (snd (set_lead room lead by now h))"
proof -
  assume s: "sealed n h"
  then have "sealed n (h\<lparr>h_next_id := k\<rparr>)" for k by (simp add: sealed_def get_room_def)
  with s sealed_deleted [OF s] show ?thesis
    unfolding set_lead_def Let_def by (auto simp: sealed_store split: prod.split sum.split)
qed

lemma sealed_guarded:
  assumes "sealed n h"
  shows "sealed n (snd (subscribe room h))" "sealed n (snd (join room i name kind session h))"
    "sealed n (snd (set_mode clock room mode h))" "sealed n (snd (set_settings clock room body now h))"
    "sealed n (snd (create_loca clock room actor now h))"
  using assms sealed_deleted [OF assms]
  unfolding subscribe_def join_def set_mode_def set_settings_def create_loca_def found_room_def Let_def
  by (auto simp: sealed_store split: prod.split sum.split option.split)

lemma sealed_unguarded:
  assumes "sealed n h"
  shows "sealed n (leave room i h)" "sealed n (snd (delete_room room now h))"
    "sealed n (snd (set_reaction room k prin reactor emoji active now h))"
    "sealed n (snd (appoint_loca_operator room target actor now h))"
    "sealed n (snd (revoke_loca_operator room actor now h))"
proof -
  have drop: "sealed n (h1\<lparr>h_rooms := hm_remove room (h_rooms h1), h_deleted := hs_insert room (h_deleted h1)\<rparr>)"
    if "sealed n h1" for h1 using that by (auto simp: sealed_def get_room_def split: if_splits)
  have "get_room h n = None" using assms by (simp add: sealed_def)
  then show "sealed n (leave room i h)" using assms by (auto simp: leave_def split: option.split)
  show "sealed n (snd (delete_room room now h))" using assms unfolding delete_room_def
    by (auto simp: sealed_store intro!: drop split: prod.split sum.split option.split)
  show "sealed n (snd (set_reaction room k prin reactor emoji active now h))" using assms
    unfolding set_reaction_def Let_def
    by (auto simp: sealed_store intro!: sealed_broadcast split: prod.split sum.split option.split)
  show "sealed n (snd (appoint_loca_operator room target actor now h))" using assms
    unfolding appoint_loca_operator_def by (auto simp: sealed_store split: prod.split sum.split option.split)
  show "sealed n (snd (revoke_loca_operator room actor now h))" using assms
    unfolding revoke_loca_operator_def by (auto simp: sealed_store split: prod.split sum.split option.split)
qed

lemma sealed_step: "room_step h h' \<Longrightarrow> sealed n h \<Longrightarrow> sealed n h'"
proof (induction rule: room_step.induct)
  case (faults h fs)
  then show ?case by (simp add: sealed_def get_room_def)
qed (simp_all add: sealed_guarded sealed_unguarded sealed_lead sealed_moderate sealed_expire
    sealed_broadcast control_def typing_def)

interpretation sealing: step_invariant room_step "sealed n" for n
  by unfold_locales (rule sealed_step)

lemma delete_room_sealed:
  assumes "delete_room room now h = (Ok True, h1)" and "is_persistent (h_store h)"
  shows "seal.durable room h1 \<and> (room \<noteq> h_home_room h \<longrightarrow> sealed room h1)"
proof -
  from assms obtain r s where "get_room h room = Some r" and w: "seal_room room now (h_store h) = (Ok (), s)"
    and h1: "h1 = h\<lparr>h_store := s, h_rooms := hm_remove room (h_rooms h), h_deleted := hs_insert room (h_deleted h)\<rparr>"
    by (auto simp: delete_room_def split: option.splits if_splits prod.splits sum.splits elim!: with_storeE)
  have "\<exists>d. sto_conn s = Some d \<and> db_sealed d room"
    using assms(2) run_write_okD [OF w [unfolded seal_room_def]]
    by (auto simp: db_sealed_def Let_def is_persistent_def)
  then show ?thesis by (auto simp: h1 seal.durable_def seal.stored_def sealed_def get_room_def)
qed

lemma sealed_refuses_settings:
  assumes "seal.durable room h"
  shows "\<not> is_ok (fst (set_settings clock room body now h))"
proof -
  from assms obtain d where d: "sto_conn (h_store h) = Some d" "db_sealed d room"
    by (auto simp: seal.durable_def seal.stored_def)
  have "\<not> is_ok (fst (save_room clock room mode s (h_store h)))" for mode s
    using d by (auto simp: save_room_def run_txn_def write_room_state_def
        split: list.split bool.split sum.split)
  then have "\<not> is_ok (fst (with_store (save_room clock room mode s) h))" for mode s
    by (simp add: with_store_def case_prod_beta)
  then show ?thesis
    by (auto simp: set_settings_def Let_def split: prod.split sum.split) (metis fst_conv is_ok_simps(1))
qed

lemma sealed_refuses_post:
  assumes "seal.durable room h" and "post room body adm prin now h = (Ok m, h')"
  shows "\<not> fresh_post room body adm prin now h m h'"
proof
  assume "fresh_post room body adm prin now h m h'"
  then obtain atts rts ts rs summons wake s where m: "m = post_message_of room body atts rts (h_next_id h) ts"
    and c: "sto_conn s = sto_conn (h_store h)"
    and p: "persist_post room m (operation_of body prin) rs summons wake now (h_home_room h) s = (Inr (), h_store h')"
    by (auto simp: fresh_post_def)
  obtain d where d: "sto_conn (h_store h) = Some d" "db_sealed d room"
    using assms(1) by (auto simp: seal.durable_def seal.stored_def)
  have "m_room m = room" by (simp add: m post_message_of_def)
  then show False using persist_post_okD [OF p] c d by auto
qed

subsection \<open>One operator per loca\<close>

lemma first_some_SomeD: "first_some f xs = Some y \<Longrightarrow> \<exists>x \<in> set xs. f x = Some y"
  by (induction xs) (auto split: option.splits)

definition one_operator :: "db \<Rightarrow> bool" where
  "one_operator d = (hm_ok (db_operators d) \<and> (\<forall>room i j r r'. hm_get (db_operators d) i = Some r
     \<longrightarrow> hm_get (db_operators d) j = Some r' \<longrightarrow> active_seat room r \<longrightarrow> active_seat room r' \<longrightarrow> i = j))"

lemma one_operator_cong: "db_operators d' = db_operators d \<Longrightarrow> one_operator d' = one_operator d"
  by (simp add: one_operator_def)

lemma retire_condition_operators: "db_operators (retire_condition room key at d) = db_operators d"
  by (simp add: retire_condition_def ack_rows_def resolve_rows_def delete_mark_def Let_def)

lemma attachment_refs_operators:
  "write_attachment_refs m as d = Inr d' \<Longrightarrow> db_operators d' = db_operators d"
  by (induction m as d rule: write_attachment_refs.induct)
    (auto simp: write_attachment_ref_def split: sum.splits if_splits)

lemma insert_core_operators: "insert_core m operation d = Ok d' \<Longrightarrow> db_operators d' = db_operators d"
  by (auto simp: insert_core_def insert_message_row_def reset_silence_care_def retire_condition_operators
      split: sum.splits if_splits dest!: attachment_refs_operators)

lemma insert_assignment_one:
  assumes "one_operator d" and "insert_assignment room prin by role at d = Ok d'"
  shows "one_operator d'"
proof -
  let ?row = "\<lparr> op_room = room, op_principal_id = prin, op_appointed_by_principal_id = by,
       op_appointed_by_role = role_str role, op_appointed_at = at, op_revoked_at = None \<rparr>"
  let ?i = "Suc (fold max (hm_keys (db_operators d)) 0)"
  have free: "\<forall>r \<in> set (hm_values (db_operators d)). \<not> active_seat room r"
    and d': "db_operators d' = hm_insert ?i ?row (db_operators d)"
    using assms(2) by (auto simp: insert_assignment_def split: if_splits)
  have "active_seat n ?row \<Longrightarrow> n = room" for n by (simp add: active_seat_def)
  moreover have "hm_get (db_operators d) j = Some r \<Longrightarrow> \<not> active_seat room r" for j r
    using free hm_values_get by fast
  ultimately show ?thesis using assms(1) unfolding one_operator_def d'
    by (auto split: if_splits)
qed

lemma hm_map_one:
  assumes "one_operator d" and "\<And>i r room. active_seat room (f i r) \<Longrightarrow> active_seat room r"
  shows "one_operator (d\<lparr>db_operators := hm_map f (db_operators d)\<rparr>)"
  using assms unfolding one_operator_def by simp blast

lemma seat_operator_one:
  "one_operator d \<Longrightarrow> seat_operator room prin by role at d = Ok (a, d') \<Longrightarrow> one_operator d'"
  by (auto simp: seat_operator_def split: sum.splits option.splits dest: insert_assignment_one)

lemma close_seat_one: "one_operator d \<Longrightarrow> one_operator (close_seat room at d)"
  unfolding close_seat_def by (erule hm_map_one) (auto simp: active_seat_def split: if_splits)

interpretation chair: db_law one_operator
proof unfold_locales
  fix d room prin who at a d'
  assume "one_operator d" and "appoint_rows room prin who at d = Ok (a, d')"
  then show "one_operator d'"
    by (auto simp: appoint_rows_def split: sum.splits if_splits option.splits
        intro: seat_operator_one close_seat_one)
next
  fix d room prin at a d'
  assume o: "one_operator d" and "revoke_rows room prin at d = Ok (a, d')"
  then have "d' = d\<lparr>db_operators := hm_map (\<lambda>_ r. if active_seat room r \<and> op_principal_id r = prin
        then r\<lparr>op_revoked_at := Some at\<rparr> else r) (db_operators d)\<rparr>"
    by (auto simp: revoke_rows_def split: if_splits option.splits)
  then show "one_operator d'" using hm_map_one [OF o] by (auto simp: active_seat_def split: if_splits)
next
  fix d room prin who role at a d'
  assume "one_operator d" and "seat_operator room prin who role at d = Ok (a, d')"
  then show "one_operator d'" by (rule seat_operator_one)
qed (auto simp: one_operator_def write_room_state_def pause_room_attentions_def ack_rows_def
    retire_room_attentions_def resolve_rows_def revoke_davets_where_def Let_def
    split: if_splits dest!: insert_core_operators)

end
