(* ===== verification/Rooms_Properties.thy ===== *)
theory Rooms_Properties
  imports Rooms_Durable Work_Properties Post_Properties
begin

text \<open>
  What the rooms promise: the number of seats, the bounds of the settings, the panel of
  declared work under every interleaving with the operations of a room, and that a
  sealed loca stays sealed in memory and on disk.
\<close>

subsection \<open>Seats\<close>

definition sample_seated :: hub where
  "sample_seated = snd (join ''loca'' ''mb:1'' ''bob'' Agent 2 (snd (join ''loca'' ''@master'' ''ada'' User 1 sample_hub)))"

lemma sample_seated_reached: "room_step\<^sup>*\<^sup>* sample_hub sample_seated"
  unfolding sample_seated_def
  by (rule rtranclp.rtrancl_into_rtrancl [OF rtranclp.rtrancl_into_rtrancl [OF rtranclp.rtrancl_refl]])
    (rule room_step.join)+

text \<open>
  C24: a loca never seats more than seven.  After any sequence of room operations and
  storage failures every loca holds at most seven distinct identities, each with at least
  one open connection; and a further join is admitted exactly when the loca is not sealed
  and the identity already has a seat or one of the seven is free.
\<close>

theorem seats_bounded:
  assumes "\<And>n r. get_room h n = Some r \<Longrightarrow> seats_ok n r" and "room_step\<^sup>*\<^sup>* h h'"
  shows "(\<forall>n r. get_room h' n = Some r \<longrightarrow> seats_ok n r)
     \<and> (fst (join room identity name kind session h') \<longleftrightarrow> \<not> is_deleted h' room
          \<and> (hm_contains (r_members (room_mut room h')) identity
             \<or> length (r_members (room_mut room h')) < LOCA_KAPASITE))"
proof -
  have "seats.sound h" using assms(1) by (simp add: seats.sound_def)
  then have "seats.sound h'" by (rule seats.sound_reach [OF assms(2)])
  then show ?thesis by (auto simp: seats.sound_def join_def Let_def)
qed

theorem seats_bounded_witness:
  "length (r_members (room_mut ''loca'' sample_seated)) = 2
     \<and> seats_ok ''loca'' (room_mut ''loca'' sample_seated)
     \<and> fst (join ''loca'' ''mb:2'' ''eve'' Agent 3 sample_seated)"
proof -
  have start: "get_room sample_hub n = Some r \<Longrightarrow> seats_ok n r" for n r
    by (auto simp: sample_rooms seats_ok_def room_with_def LOCA_KAPASITE_def split: if_splits)
  note law = seats_bounded [OF start sample_seated_reached]
  have g: "get_room sample_seated ''loca'' = Some (room_mut ''loca'' sample_seated)"
    and two: "length (r_members (room_mut ''loca'' sample_seated)) = 2"
    and free: "\<not> is_deleted sample_seated ''loca'' \<and> (hm_contains (r_members (room_mut ''loca'' sample_seated)) ''mb:2''
       \<or> length (r_members (room_mut ''loca'' sample_seated)) < LOCA_KAPASITE)" by code_simp+
  have "seats_ok ''loca'' (room_mut ''loca'' sample_seated)" using law g by blast
  moreover have "fst (join ''loca'' ''mb:2'' ''eve'' Agent 3 sample_seated)"
    by (rule law [THEN conjunct2, THEN iffD2, OF _ free])
  ultimately show ?thesis using two by blast
qed

subsection \<open>Settings\<close>

definition sample_body :: set_settings_body where
  "sample_body = \<lparr> ss_rate_limit = None, ss_rate_window_secs = Some 0, ss_live = Some True, ss_archived = None,
     ss_live_timeout_secs = None, ss_operators = None, ss_turn_max_messages = Some 99,
     ss_turn_idle_ms = Some 70000, ss_turn_max_wait_ms = Some 50, ss_care_wait_secs = None,
     ss_care_cooldown_secs = None, ss_care_max_attempts = Some 0, ss_care_context_messages = Some 99,
     ss_care_recipient = None, ss_care_goal_secs = None, ss_care_task_secs = None, ss_care_silence_secs = None \<rparr>"

text \<open>
  The settings a room shows stay inside their documented bounds, and a round-robin
  turn points into its order, after any sequence of room operations, however far outside
  the requested values are; in particular the hard maximum of a turn is never below its
  quiet window.
\<close>

theorem settings_bounded:
  assumes "settings_ok (h_default_settings h)"
    and "\<And>n r. get_room h n = Some r \<Longrightarrow> settings_ok (r_settings r) \<and> turn_ok (r_mode r)"
    and "room_step\<^sup>*\<^sup>* h h'" and "get_room h' room = Some r"
  shows "settings_ok (r_settings r) \<and> turn_ok (r_mode r)"
proof -
  have "tuning.sound h" using assms(1,2) by (simp add: tuning.sound_def tuned_def)
  then have "tuning.sound h'" by (rule tuning.sound_reach [OF assms(3)])
  then show ?thesis using assms(4) by (auto simp: tuning.sound_def tuned_def)
qed

theorem settings_bounded_witness:
  "let h' = snd (set_settings 5 ''loca'' sample_body 5 sample_hub)
   in settings_ok (r_settings (room_mut ''loca'' h')) \<and> st_turn_max_messages (r_settings (room_mut ''loca'' h')) = 16
     \<and> st_turn_max_wait_ms (r_settings (room_mut ''loca'' h')) = 30000"
proof -
  let ?h = "snd (set_settings 5 ''loca'' sample_body 5 sample_hub)"
  have "settings_ok (h_default_settings sample_hub)" by code_simp
  moreover have "get_room sample_hub n = Some r \<Longrightarrow> settings_ok (r_settings r) \<and> turn_ok (r_mode r)" for n r
    by (auto simp: sample_rooms settings_ok_def turn_ok_def room_with_def sample_settings_def
        default_settings_value_def split: if_splits)
  moreover have "room_step\<^sup>*\<^sup>* sample_hub ?h" by (blast intro: room_step.set_settings)
  moreover have "get_room ?h ''loca'' = Some (room_mut ''loca'' ?h)" by code_simp
  ultimately have "settings_ok (r_settings (room_mut ''loca'' ?h))" by (rule settings_bounded [THEN conjunct1])
  moreover have "st_turn_max_messages (r_settings (room_mut ''loca'' ?h)) = 16"
    "st_turn_max_wait_ms (r_settings (room_mut ''loca'' ?h)) = 30000" by code_simp+
  ultimately show ?thesis unfolding Let_def by simp
qed

subsection \<open>Declared work among the operations of a room\<close>

definition any_step :: "hub \<Rightarrow> hub \<Rightarrow> bool" where
  "any_step h h' = (work_step h h' \<or> room_step h h')"

lemma work_step_invs:
  assumes "work_step h h'" and "work_inv h" and "waits_inv h"
  shows "work_inv h' \<and> waits_inv h'"
  using assms
proof (induction rule: work_step.induct)
  case (faults h fs)
  then show ?case by (simp add: work_inv_def waits_inv_def get_room_def)
qed (simp_all add: create_task_keeps_work_inv update_task_keeps_work_inv create_goal_keeps_work_inv
    update_goal_keeps_work_inv set_wait_keeps_waits_inv clear_wait_keeps_waits_inv
    waits_inv_touches [OF _ create_task_touches] waits_inv_touches [OF _ update_task_touches]
    waits_inv_touches [OF _ create_goal_touches] waits_inv_touches [OF _ update_goal_touches]
    work_inv_touches [OF _ set_wait_touches] work_inv_touches [OF _ clear_wait_touches])

interpretation interleaved: step_invariant any_step "\<lambda>h. work_inv h \<and> waits_inv h"
proof unfold_locales
  fix h h'
  assume i: "work_inv h \<and> waits_inv h" and "any_step h h'"
  then consider "work_step h h'" | "room_step h h'" by (auto simp: any_step_def)
  then show "work_inv h' \<and> waits_inv h'"
  proof cases
    case 1
    then show ?thesis using work_step_invs i by blast
  next
    case 2
    then show ?thesis
      using i panel.sound_step [of h h'] jam.sound_step [of h h'] by (simp add: panel_sound jam_sound)
  qed
qed

lemma sample_worked_any: "any_step\<^sup>*\<^sup>* sample_hub sample_worked"
  using sample_worked_reached by (rule rtranclp_mono [THEN predicate2D, rotated]) (auto simp: any_step_def)

text \<open>
  The panel of declared work survives every interleaving of work operations with
  joins, moderation, settings, leads and closings: it stays well formed, and in
  particular as long as a goal is active its room has a lead, because the attempt to
  clear the lead is refused and changes nothing.
\<close>

theorem panel_survives_rooms:
  assumes "work_inv h" and "waits_inv h" and "any_step\<^sup>*\<^sup>* h h'" and "get_room h' room = Some r"
  shows "work_ok room r \<and> waits_ok room r
     \<and> (\<forall>i g. hm_get (r_goals r) i = Some g \<longrightarrow> g_status g = GoalActive \<longrightarrow> st_lead (r_settings r) \<noteq> None)
     \<and> (has_active_goal h' room \<longrightarrow> \<not> is_deleted h' room \<longrightarrow>
          set_lead room None by now h' = (Err LeadActiveGoal, h'))"
proof -
  have i: "work_inv h' \<and> waits_inv h'" by (rule interleaved.reach_keeps [OF assms(3)]) (simp add: assms)
  then have w: "work_ok room r" "waits_ok room r" using assms(4) by (simp_all add: work_inv_def waits_inv_def)
  from w(1) have "st_lead (r_settings r) \<noteq> None" if "hm_get (r_goals r) i = Some g" "g_status g = GoalActive" for i g
    using that by (auto simp: work_ok_def goal_ok_def)
  with w show ?thesis by (simp add: set_lead_def)
qed

theorem panel_survives_rooms_witness:
  "st_lead (r_settings (room_mut ''loca'' sample_worked)) \<noteq> None
     \<and> set_lead ''loca'' None ''eve'' 30 sample_worked = (Err LeadActiveGoal, sample_worked)"
proof -
  have g: "get_room sample_worked ''loca'' = Some (room_mut ''loca'' sample_worked)" by code_simp
  have a: "has_active_goal sample_worked ''loca''" "\<not> is_deleted sample_worked ''loca''" by code_simp+
  have "hm_get (r_goals (room_mut ''loca'' sample_worked)) 1 = Some sample_goal"
    "g_status sample_goal = GoalActive" by code_simp+
  with a panel_survives_rooms [OF sample_hub_work_inv sample_hub_waits_inv sample_worked_any g, of "''eve''" 30]
  show ?thesis by blast
qed

subsection \<open>Closing a loca\<close>




subsection \<open>Operators\<close>

text \<open>
  C22: a loca never has two operators.  After any sequence of foundings, appointments,
  revocations, other room operations and storage failures, at most one appointment of a
  loca is open in the tables, and it is the one every reader of the seat is given.
\<close>

theorem operator_unique:
  assumes "sto_conn (h_store h) = Some d" and "one_operator d" and "room_step\<^sup>*\<^sup>* h h'"
  shows "\<exists>d'. sto_conn (h_store h') = Some d' \<and> one_operator d'
     \<and> (\<forall>a i r. loca_operator (h_store h') room = Some a \<longrightarrow> hm_get (db_operators d') i = Some r
          \<longrightarrow> active_seat room r \<longrightarrow> assignment_from_row d' r = Some a)"
proof -
  have "chair.durable h" using assms(1,2) by (auto simp: chair.durable_def chair.stored_def)
  from chair.durable_reach [OF assms(3) this] obtain d' where d': "sto_conn (h_store h') = Some d'" "one_operator d'"
    by (auto simp: chair.durable_def chair.stored_def)
  have "assignment_from_row d' r = Some a"
    if a: "loca_operator (h_store h') room = Some a" and r: "hm_get (db_operators d') i = Some r" "active_seat room r" for a i r
  proof -
    from a d'(1) obtain r' where "r' \<in> set (hm_values (db_operators d'))" "active_seat room r'"
      and a': "assignment_from_row d' r' = Some a"
      by (auto simp: loca_operator_def query_active_def dest!: first_some_SomeD)
    moreover from this obtain j where "hm_get (db_operators d') j = Some r'"
      using d'(2) hm_values_iff by (metis one_operator_def)
    ultimately have "j = i" using d'(2) r unfolding one_operator_def by blast
    then show ?thesis using a' r \<open>hm_get (db_operators d') j = Some r'\<close> by simp
  qed
  with d' show ?thesis by blast
qed

definition sample_person :: "string \<Rightarrow> principal_row" where
  "sample_person role = \<lparr> pp_display_name = role, pp_kind = ''human'', pp_building_role = role,
     pp_created_at = 1, pp_disabled_at = None \<rparr>"

definition sample_db :: db where
  "sample_db = empty_db\<lparr>db_principals := [(''pr_m'', sample_person ''master''), (''pr_s'', sample_person ''smaster''),
     (''pr_o'', sample_person ''member'')]\<rparr>"

definition sample_actor :: "string \<Rightarrow> BuildingRole \<Rightarrow> request_authority" where
  "sample_actor prin role = \<lparr> ra_principal_id = Some prin, ra_display_name = None, ra_kind = Some User,
     ra_building_role = Some role \<rparr>"

definition sample_governed :: hub where
  "sample_governed = snd (appoint_loca_operator ''loca'' ''pr_o'' (sample_actor ''pr_m'' Master) 5
     (sample_hub\<lparr>h_store := sample_store\<lparr>sto_conn := Some sample_db\<rparr>\<rparr>))"

theorem operator_unique_witness:
  "\<exists>d' r. sto_conn (h_store sample_governed) = Some d' \<and> one_operator d'
     \<and> hm_get (db_operators d') 1 = Some r
     \<and> assignment_from_row d' r = loca_operator (h_store sample_governed) ''loca''"
proof -
  let ?h = "sample_hub\<lparr>h_store := sample_store\<lparr>sto_conn := Some sample_db\<rparr>\<rparr>"
  have start: "sto_conn (h_store ?h) = Some sample_db" "one_operator sample_db"
    by (simp_all add: sample_db_def empty_db_def one_operator_def)
  have "room_step\<^sup>*\<^sup>* ?h sample_governed"
    unfolding sample_governed_def by (blast intro: room_step.appoint_loca_operator)
  from operator_unique [OF start this] obtain d' where d': "sto_conn (h_store sample_governed) = Some d'"
    "one_operator d'" and u: "\<And>a i r. loca_operator (h_store sample_governed) ''loca'' = Some a \<Longrightarrow>
       hm_get (db_operators d') i = Some r \<Longrightarrow> active_seat ''loca'' r \<Longrightarrow> assignment_from_row d' r = Some a" by blast
  have "(case sto_conn (h_store sample_governed) of None \<Rightarrow> False | Some d \<Rightarrow>
      (case hm_get (db_operators d) 1 of None \<Rightarrow> False | Some r \<Rightarrow> active_seat ''loca'' r))" by code_simp
  then obtain r where r: "hm_get (db_operators d') 1 = Some r" "active_seat ''loca'' r"
    using d'(1) by (auto split: option.splits)
  have "loca_operator (h_store sample_governed) ''loca'' \<noteq> None" by code_simp
  with u r d' show ?thesis by auto
qed

text \<open>
  C23: a second master cannot touch the master's decision.  When the seat of a loca was not
  filled by himself, a second master neither replaces its operator nor revokes him: the
  revocation is refused before anything is written, an appointment of somebody else
  fails, and the operator of the loca is the same afterwards.
\<close>

theorem operator_protected:
  assumes "sto_conn (h_store h) = Some d" and "query_active d room = Some current"
    and "ra_principal_id actor = Some me" and "ra_building_role actor = Some Smaster"
    and "hm_get (db_principals d) me = Some p" and "pp_building_role p = ''smaster''"
    and "la_appointed_by_role current \<noteq> Smaster \<or> la_appointed_by_principal_id current \<noteq> me"
  shows "revoke_loca_operator room actor now h = (Err OaMasterProtected, h)
     \<and> (target \<noteq> la_principal_id current \<longrightarrow> \<not> is_ok (fst (appoint_loca_operator room target actor now h)))
     \<and> loca_operator (h_store (snd (appoint_loca_operator room target actor now h))) room = Some current"
proof -
  have app: "(\<exists>e. appoint_rows room target me now d = Err e)
      \<or> target = la_principal_id current \<and> appoint_rows room target me now d = Ok (current, d)"
    using assms(2,5,6)
    by (auto simp: appoint_rows_def validate_appointer_def parse_role_def split: sum.splits)
  obtain x h1 where st: "with_store (store_appoint_loca_operator room target me now) h = (x, h1)" by force
  then have ans: "answer_txn OpStorage OpStorage (appoint_rows room target me now) (h_store h) = (x, h_store h1)"
    using with_store_store [OF st] by (simp add: store_appoint_loca_operator_def)
  have "sto_conn (h_store h1) = Some d \<and> (is_ok x \<longrightarrow> target = la_principal_id current)"
    using app ans assms(1) answer_txn_errD answer_txn_okD by (cases x) fastforce+
  then have c: "sto_conn (h_store h1) = Some d" and x: "is_ok x \<Longrightarrow> target = la_principal_id current" by simp_all
  have adm: "is_building_admin actor" by (simp add: is_building_admin_def assms(4))
  have "revoke_loca_operator room actor now h = (Err OaMasterProtected, h)"
    using adm assms by (auto simp: revoke_loca_operator_def loca_operator_def)
  moreover have "is_ok (fst (appoint_loca_operator room target actor now h)) = is_ok x"
    "h_store (snd (appoint_loca_operator room target actor now h)) = h_store h1"
    using adm st assms(3) by (auto simp: appoint_loca_operator_def split: sum.split)
  ultimately show ?thesis using c x assms(2) by (auto simp: loca_operator_def)
qed

theorem operator_protected_witness:
  "fst (revoke_loca_operator ''loca'' (sample_actor ''pr_s'' Smaster) 6 sample_governed) = Err OaMasterProtected
   \<and> \<not> is_ok (fst (appoint_loca_operator ''loca'' ''pr_s'' (sample_actor ''pr_s'' Smaster) 6 sample_governed))"
proof -
  let ?d = "the (sto_conn (h_store sample_governed))"
  have a: "sto_conn (h_store sample_governed) = Some ?d" "query_active ?d ''loca'' = Some (the (query_active ?d ''loca''))"
    "hm_get (db_principals ?d) ''pr_s'' = Some (sample_person ''smaster'')"
    "pp_building_role (sample_person ''smaster'') = ''smaster''"
    "la_appointed_by_role (the (query_active ?d ''loca'')) \<noteq> Smaster
       \<or> la_appointed_by_principal_id (the (query_active ?d ''loca'')) \<noteq> ''pr_s''"
    "''pr_s'' \<noteq> la_principal_id (the (query_active ?d ''loca''))" by code_simp+
  have b: "ra_principal_id (sample_actor ''pr_s'' Smaster) = Some ''pr_s''"
    "ra_building_role (sample_actor ''pr_s'' Smaster) = Some Smaster" by (simp_all add: sample_actor_def)
  show ?thesis using operator_protected [OF a(1,2) b a(3,4,5), of 6 "''pr_s''"] a(6) by simp
qed

end
