(* ===== verification/Access_Laws.thy ===== *)
theory Access_Laws
  imports Rooms_Durable
begin

text \<open>
  The operations on members and davets as a transition system, the agreement of the
  in-memory registries with the tables, and the capacity of a loca in davets.
\<close>

subsection \<open>Registries and tables\<close>

definition live_davet :: "db \<Rightarrow> string \<Rightarrow> invite option" where
  "live_davet d t = (case hm_get (db_invites d) t of None \<Rightarrow> None
     | Some r \<Rightarrow> if in_revoked_at r = None then Some (in_invite r) else None)"

definition membership_of_row :: "string \<Rightarrow> member_row \<Rightarrow> membership" where
  "membership_of_row t m = \<lparr> mb_token = t, mb_name = me_name m, mb_kind = me_kind m,
     mb_joined_at = me_joined_at m, mb_admitted_by = me_admitted_by m \<rparr>"

definition live_member :: "db \<Rightarrow> string \<Rightarrow> membership option" where
  "live_member d t = (case hm_get (db_members d) t of None \<Rightarrow> None
     | Some m \<Rightarrow> if me_revoked_at m = None then Some (membership_of_row t m) else None)"

definition access_mirrored :: "hub \<Rightarrow> bool" where
  "access_mirrored h = (\<forall>d. sto_conn (h_store h) = Some d \<longrightarrow>
     hm_ok (db_invites d) \<and> hm_ok (db_members d)
     \<and> (\<forall>t. hm_get (h_invites h) t = live_davet d t)
     \<and> (\<forall>t. hm_get (h_members h) t = live_member d t))"

definition keyed :: "hub \<Rightarrow> bool" where
  "keyed h = (hm_ok (h_invites h) \<and> hm_ok (h_members h)
     \<and> (\<forall>t i. hm_get (h_invites h) t = Some i \<longrightarrow> iv_token i = t)
     \<and> (\<forall>t m. hm_get (h_members h) t = Some m \<longrightarrow> mb_token m = t))"

definition roomy :: "hub \<Rightarrow> bool" where
  "roomy h = ((\<forall>room. length (davets_of h room) \<le> LOCA_KAPASITE)
     \<and> (\<forall>s t i j. hm_get (h_invites h) s = Some i \<longrightarrow> hm_get (h_invites h) t = Some j
          \<longrightarrow> iv_room i = iv_room j \<longrightarrow> iv_member i = iv_member j \<longrightarrow> iv_member i \<noteq> [] \<longrightarrow> s = t))"

definition access_state :: "hub \<Rightarrow> bool" where
  "access_state h = (access_mirrored h \<and> keyed h \<and> roomy h)"

definition drop_if :: "(invite \<Rightarrow> bool) \<Rightarrow> invite option \<Rightarrow> invite option" where
  "drop_if p v = (case v of None \<Rightarrow> None | Some i \<Rightarrow> if p i then None else Some i)"

lemma live_davet_revoke [simp]: "live_davet (revoke_davets_where p at d) t = drop_if p (live_davet d t)"
  by (auto simp: live_davet_def revoke_davets_where_def drop_if_def stamp_def split: option.split)

lemma revoke_davets_frame [simp]:
  "db_members (revoke_davets_where p at d) = db_members d"
  "hm_ok (db_invites (revoke_davets_where p at d)) = hm_ok (db_invites d)"
  "live_member (revoke_davets_where p at d) = live_member d"
  by (simp_all add: revoke_davets_where_def live_member_def fun_eq_iff)

lemma fold_remove_get:
  "hm_get (fold (\<lambda>i. hm_remove (iv_token i)) ds m) t = (if t \<in> iv_token ` set ds then None else hm_get m t)"
  by (induction ds arbitrary: m) auto

lemma fold_remove_ok: "hm_ok m \<Longrightarrow> hm_ok (fold (\<lambda>i. hm_remove (iv_token i)) ds m)"
  by (induction ds arbitrary: m) auto

lemma drop_davets_get:
  assumes "keyed h"
  shows "hm_get (h_invites (drop_davets (filter p (hm_values (h_invites h))) h)) t = drop_if p (hm_get (h_invites h) t)"
proof -
  have ok: "hm_ok (h_invites h)" and k: "\<And>t i. hm_get (h_invites h) t = Some i \<Longrightarrow> iv_token i = t"
    using assms by (auto simp: keyed_def)
  have "t \<in> iv_token ` set (filter p (hm_values (h_invites h)))
      \<longleftrightarrow> (\<exists>i. hm_get (h_invites h) t = Some i \<and> p i)"
    using hm_values_iff [OF ok] k by (auto simp: image_iff)
  then show ?thesis by (auto simp: drop_davets_def fold_remove_get drop_if_def split: option.split)
qed

lemma end_davet_frame [simp]:
  "h_invites (end_davet i h) = h_invites h" "h_members (end_davet i h) = h_members h"
  "h_store (end_davet i h) = h_store h"
  by (simp_all add: end_davet_def close_connections_def revoke_sessions_for_davet_def split: option.split)

lemma fold_end_davet_frame [simp]:
  "h_invites (fold end_davet ds h) = h_invites h" "h_members (fold end_davet ds h) = h_members h"
  "h_store (fold end_davet ds h) = h_store h"
  by (induction ds arbitrary: h) simp_all

lemma fold_close_frame [simp]:
  "h_invites (fold (\<lambda>i. close_connections (iv_room i) (iv_name i)) ds h) = h_invites h"
  "h_members (fold (\<lambda>i. close_connections (iv_room i) (iv_name i)) ds h) = h_members h"
  "h_store (fold (\<lambda>i. close_connections (iv_room i) (iv_name i)) ds h) = h_store h"
  by (induction ds arbitrary: h) (simp_all add: close_connections_def split: option.split)

lemma drop_davets_frame [simp]:
  "h_members (drop_davets ds h) = h_members h" "h_store (drop_davets ds h) = h_store h"
  by (simp_all add: drop_davets_def)

subsection \<open>Davets of a loca as a set\<close>

lemma davets_card:
  assumes "hm_ok (h_invites h)"
  shows "length (davets_of h room) = card {t. \<exists>i. hm_get (h_invites h) t = Some i \<and> iv_room i = room}"
proof -
  let ?m = "filter (\<lambda>(_, i). iv_room i = room) (h_invites h)"
  have "length (davets_of h room) = length ?m"
    unfolding davets_of_def hm_values_def by (induction "h_invites h") (auto simp: filter_map comp_def case_prod_beta)
  also have "\<dots> = card (set (map fst ?m))"
  proof -
    have "distinct (map fst ?m)" using assms unfolding hm_ok_def by (induction "h_invites h") (auto simp: distinct_map_filter)
    then show ?thesis by (metis distinct_card length_map)
  qed
  also have "set (map fst ?m) = {t. \<exists>i. hm_get (h_invites h) t = Some i \<and> iv_room i = room}"
    using hm_entry_iff [OF assms] by force
  finally show ?thesis .
qed

lemma davets_finite: "finite {t. \<exists>i. hm_get m t = Some i \<and> p i}"
proof (rule finite_subset)
  show "{t. \<exists>i. hm_get m t = Some i \<and> p i} \<subseteq> set (hm_keys m)" by (auto simp: hm_keys_iff)
qed simp

lemma roomy_fewer:
  assumes "roomy h" and "hm_ok (h_invites h)" and "hm_ok (h_invites h')"
    and "\<And>t i. hm_get (h_invites h') t = Some i \<Longrightarrow> hm_get (h_invites h) t = Some i"
  shows "roomy h'"
proof -
  have "length (davets_of h' room) \<le> length (davets_of h room)" for room
    unfolding davets_card [OF assms(2)] davets_card [OF assms(3)]
    by (rule card_mono [OF davets_finite]) (use assms(4) in auto)
  then show ?thesis using assms(1,4) unfolding roomy_def by (meson le_trans)
qed

lemma roomy_more:
  assumes "roomy h" and "hm_ok (h_invites h)" and "h_invites h' = hm_insert t i (h_invites h)"
    and "length (davets_of h (iv_room i)) < LOCA_KAPASITE" and "\<not> has_active_invite h (iv_room i) (iv_member i)"
  shows "roomy h'"
proof -
  have ok': "hm_ok (h_invites h')" by (simp add: assms(2,3))
  have "length (davets_of h' room) \<le> LOCA_KAPASITE" for room
  proof -
    let ?A = "{s. \<exists>j. hm_get (h_invites h) s = Some j \<and> iv_room j = room}"
    have "{s. \<exists>j. hm_get (h_invites h') s = Some j \<and> iv_room j = room}
        \<subseteq> (if iv_room i = room then insert t ?A else ?A)" by (auto simp: assms(3) split: if_splits)
    then have "length (davets_of h' room) \<le> card (if iv_room i = room then insert t ?A else ?A)"
      unfolding davets_card [OF ok'] by (rule card_mono [rotated]) (simp add: davets_finite)
    also have "\<dots> \<le> (if iv_room i = room then Suc (card ?A) else card ?A)"
      by (simp add: card_insert_if davets_finite)
    also have "\<dots> \<le> LOCA_KAPASITE"
      using assms(1,4) unfolding davets_card [OF assms(2), symmetric] by (auto simp: roomy_def Suc_le_eq)
    finally show ?thesis .
  qed
  moreover have "\<not> (iv_room j = iv_room i \<and> iv_member j = iv_member i)" if "hm_get (h_invites h) s = Some j" for s j
    using assms(5) hm_values_get [OF that] by (auto simp: has_active_invite_def)
  ultimately show ?thesis using assms(1) unfolding roomy_def assms(3) by (auto split: if_splits) metis+
qed

subsection \<open>Operations\<close>

lemma access_state_same:
  assumes "access_state h" and "h_invites h' = h_invites h" and "h_members h' = h_members h"
    and "\<And>d'. sto_conn (h_store h') = Some d' \<Longrightarrow> \<exists>d. sto_conn (h_store h) = Some d
       \<and> db_invites d' = db_invites d \<and> db_members d' = db_members d"
  shows "access_state h'"
proof -
  have "roomy h' = roomy h" "keyed h' = keyed h"
    using assms(2,3) by (simp_all add: roomy_def keyed_def davets_of_def)
  moreover have "access_mirrored h'" unfolding access_mirrored_def
  proof (intro allI impI)
    fix d'
    assume "sto_conn (h_store h') = Some d'"
    then obtain d where d: "sto_conn (h_store h) = Some d" "db_invites d' = db_invites d" "db_members d' = db_members d"
      using assms(4) by blast
    then have "live_davet d' = live_davet d" "live_member d' = live_member d"
      by (simp_all add: live_davet_def live_member_def fun_eq_iff)
    then show "hm_ok (db_invites d') \<and> hm_ok (db_members d')
        \<and> (\<forall>t. hm_get (h_invites h') t = live_davet d' t) \<and> (\<forall>t. hm_get (h_members h') t = live_member d' t)"
      using assms(1-3) d by (simp add: access_state_def access_mirrored_def)
  qed
  ultimately show ?thesis using assms(1) by (simp add: access_state_def)
qed

lemma access_state_conn:
  assumes "access_state h" and "h_invites h' = h_invites h" and "h_members h' = h_members h"
    and "sto_conn (h_store h') = sto_conn (h_store h)"
  shows "access_state h'"
  by (rule access_state_same [OF assms(1-3)]) (simp add: assms(4))

lemma principal_credential_frame [simp]:
  "db_invites (insert_principal_credential sha role token name kind at label d) = db_invites d"
  "db_members (insert_principal_credential sha role token name kind at label d) = db_members d"
  "db_suspensions (insert_principal_credential sha role token name kind at label d) = db_suspensions d"
  by (simp_all add: insert_principal_credential_def Let_def)

lemma revoke_credential_frame [simp]:
  "db_invites (revoke_principal_credential sha token at d) = db_invites d"
  "db_members (revoke_principal_credential sha token at d) = db_members d"
  by (simp_all add: revoke_principal_credential_def Let_def)

text \<open>A change of the hub together with the transaction that made it durable.\<close>

lemma write_err_state:
  assumes "access_state h" and "with_store f h = (Err e, h')"
    and "\<And>s s'. f s = (Err e, s') \<Longrightarrow> sto_conn s' = sto_conn s"
  shows "access_state h'"
  using assms by (auto elim!: with_storeE intro: access_state_conn)

lemma member_added_state:
  assumes h: "access_state h" and "h_invites h' = h_invites h"
    and mem: "h_members h' = hm_insert t m (h_members h)" "mb_token m = t"
    and row: "me_revoked_at row = None" "membership_of_row t row = m"
    and tab: "\<And>d'. sto_conn (h_store h') = Some d' \<Longrightarrow> \<exists>d. sto_conn (h_store h) = Some d
       \<and> db_invites d' = db_invites d \<and> db_members d' = hm_insert t row (db_members d)"
  shows "access_state h'"
proof -
  have "access_mirrored h'" unfolding access_mirrored_def
  proof (intro allI impI)
    fix d'
    assume "sto_conn (h_store h') = Some d'"
    from tab [OF this] obtain d where d: "sto_conn (h_store h) = Some d" "db_invites d' = db_invites d"
      "db_members d' = hm_insert t row (db_members d)" by blast
    from h d(1) have "hm_ok (db_invites d)" "hm_ok (db_members d)"
      "\<forall>t. hm_get (h_invites h) t = live_davet d t" "\<forall>t. hm_get (h_members h) t = live_member d t"
      by (auto simp: access_state_def access_mirrored_def)
    then show "hm_ok (db_invites d') \<and> hm_ok (db_members d')
        \<and> (\<forall>t. hm_get (h_invites h') t = live_davet d' t) \<and> (\<forall>t. hm_get (h_members h') t = live_member d' t)"
      using d row by (auto simp: assms(2) mem live_davet_def live_member_def)
  qed
  moreover have "keyed h'" "roomy h'" using h
    by (auto simp: access_state_def keyed_def roomy_def davets_of_def assms(2) mem)
  ultimately show ?thesis by (simp add: access_state_def)
qed

lemma admit_member_state:
  assumes "access_state h"
  shows "access_state (snd (admit_member sha name kind by now h))"
proof (cases "member_by_name h name")
  case None
  define m where "m = \<lparr> mb_token = replacen_one ''dv_'' ''mb_'' (''dv_'' @ h_rng h 0), mb_name = name,
      mb_kind = kind, mb_joined_at = now, mb_admitted_by = by \<rparr>"
  define h1 where "h1 = h\<lparr>h_rng := \<lambda>n. h_rng h (Suc n)\<rparr>"
  have s1: "access_state h1" unfolding h1_def by (rule access_state_conn [OF assms]) simp_all
  obtain x h2 where st: "with_store (add_member sha m) h1 = (x, h2)" by force
  have run: "snd (admit_member sha name kind by now h) =
      (case x of Inl _ \<Rightarrow> h2 | Inr _ \<Rightarrow> h2\<lparr>h_members := hm_insert (mb_token m) m (h_members h2)\<rparr>)"
    using None st by (simp add: admit_member_def new_invite_token_def secure_token_def Let_def m_def h1_def
        split: sum.split)
  show ?thesis
  proof (cases x)
    case (Inl e)
    then show ?thesis using run write_err_state [OF s1 st [unfolded Inl]]
      by (simp add: add_member_def run_write_errD)
  next
    case (Inr u)
    obtain s where f: "add_member sha m (h_store h1) = (Ok u, s)" and h2: "h2 = h1\<lparr>h_store := s\<rparr>"
      using st Inr by (auto elim!: with_storeE)
    have "access_state (h2\<lparr>h_members := hm_insert (mb_token m) m (h_members h2)\<rparr>)"
      by (rule member_added_state [OF s1, where t = "mb_token m" and m = m and row = "\<lparr> me_name = mb_name m,
          me_kind = mb_kind m, me_joined_at = mb_joined_at m, me_admitted_by = mb_admitted_by m, me_revoked_at = None \<rparr>"])
        (use run_write_okD [OF f [unfolded add_member_def]] in \<open>auto simp: h2 membership_of_row_def\<close>)
    then show ?thesis using run Inr by simp
  qed
qed (simp add: admit_member_def assms)

lemma add_invite_state:
  assumes "access_state h" and "length (davets_of h (iv_room dv)) < LOCA_KAPASITE"
    and "\<not> has_active_invite h (iv_room dv) (iv_member dv)"
  shows "access_state (snd (add_invite dv h))"
proof (cases "iv_member dv \<noteq> [] \<and> member_of h (Some (iv_member dv)) = None \<or> is_deleted h (iv_room dv)")
  case True
  then show ?thesis using assms(1) by (auto simp: add_invite_def)
next
  case False
  obtain x h1 where st: "with_store (insert_invite dv) h = (x, h1)" by force
  have run: "snd (add_invite dv h) = (case x of Inl _ \<Rightarrow> h1
      | Inr _ \<Rightarrow> h1\<lparr>h_invites := hm_insert (iv_token dv) dv (h_invites h1)\<rparr>)"
    using False st by (auto simp: add_invite_def split: sum.split)
  show ?thesis
  proof (cases x)
    case (Inl e)
    then show ?thesis using run write_err_state [OF assms(1) st [unfolded Inl]]
      by (simp add: insert_invite_def run_txn_err_keeps_db)
  next
    case (Inr u)
    obtain s where f: "insert_invite dv (h_store h) = (Ok u, s)" and h1: "h1 = h\<lparr>h_store := s\<rparr>"
      using st Inr by (auto elim!: with_storeE)
    let ?h = "h1\<lparr>h_invites := hm_insert (iv_token dv) dv (h_invites h1)\<rparr>"
    have "access_mirrored ?h" unfolding access_mirrored_def
    proof (intro allI impI)
      fix d'
      assume c: "sto_conn (h_store ?h) = Some d'"
      then obtain d where d: "sto_conn (h_store h) = Some d"
        using f by (auto simp: h1 insert_invite_def run_txn_def split: option.splits)
      then have d': "db_members d' = db_members d"
        "db_invites d' = hm_insert (iv_token dv) \<lparr> in_invite = dv, in_revoked_at = None \<rparr> (db_invites d)"
        using run_txn_okD [OF f [unfolded insert_invite_def] d] c
        by (auto simp: h1 split: if_splits sum.splits)
      from assms(1) d have "hm_ok (db_invites d)" "hm_ok (db_members d)"
        "\<forall>t. hm_get (h_invites h) t = live_davet d t" "\<forall>t. hm_get (h_members h) t = live_member d t"
        by (auto simp: access_state_def access_mirrored_def)
      then show "hm_ok (db_invites d') \<and> hm_ok (db_members d')
          \<and> (\<forall>t. hm_get (h_invites ?h) t = live_davet d' t) \<and> (\<forall>t. hm_get (h_members ?h) t = live_member d' t)"
        by (auto simp: h1 d' live_davet_def live_member_def)
    qed
    moreover have "keyed ?h" using assms(1) by (auto simp: access_state_def keyed_def h1)
    moreover have "roomy ?h"
      by (rule roomy_more [of h _ "iv_token dv" dv]) (use assms in \<open>auto simp: access_state_def keyed_def h1\<close>)
    ultimately show ?thesis using run Inr by (simp add: access_state_def)
  qed
qed

lemma invite_member_state:
  assumes "access_state h"
  shows "access_state (snd (invite_member_to_room member room by now h))"
proof (cases "invite_gate h member room")
  case (Inr m)
  have m: "hm_get (h_members h) member = Some m" and "\<not> has_active_invite h room member"
    "length (davets_of h room) < LOCA_KAPASITE"
    using Inr by (auto simp: invite_gate_def member_of_def split: if_splits option.splits)
  moreover from m have "mb_token m = member" using assms by (auto simp: access_state_def keyed_def)
  moreover define h1 where "h1 = h\<lparr>h_rng := \<lambda>n. h_rng h (Suc n)\<rparr>"
  moreover have "access_state h1" unfolding h1_def by (rule access_state_conn [OF assms]) simp_all
  ultimately have st: "access_state (snd (add_invite \<lparr> iv_token = ''dv_'' @ h_rng h 0, iv_room = room, iv_member = mb_token m,
      iv_name = mb_name m, iv_kind = mb_kind m, iv_issued_at = now, iv_issued_by = by \<rparr> h1))"
    by (intro add_invite_state) (simp_all add: h1_def davets_of_def has_active_invite_def)
  have same: "access_state (h2\<lparr>h_lobby_tx := l\<rparr>)" if "access_state h2" for h2 l
    by (rule access_state_conn [OF that]) simp_all
  show ?thesis using st unfolding invite_member_to_room_def Inr
    by (auto simp: new_invite_token_def secure_token_def Let_def h1_def same split: prod.splits sum.splits)
qed (simp add: invite_member_to_room_def assms)

text \<open>Ending davets and memberships, in memory and in the tables alike.\<close>

lemma shrink_state:
  assumes h: "access_state h" and ok: "hm_ok (h_invites h')" "hm_ok (h_members h')"
    and inv: "\<And>t. hm_get (h_invites h') t = drop_if p (hm_get (h_invites h) t)"
    and mem: "\<And>t. hm_get (h_members h') t = (if t \<in> gone then None else hm_get (h_members h) t)"
    and tab: "\<And>d'. sto_conn (h_store h') = Some d' \<Longrightarrow> \<exists>d. sto_conn (h_store h) = Some d
       \<and> (hm_ok (db_invites d) \<longrightarrow> hm_ok (db_invites d')) \<and> (hm_ok (db_members d) \<longrightarrow> hm_ok (db_members d'))
       \<and> (\<forall>t. live_davet d' t = drop_if p (live_davet d t))
       \<and> (\<forall>t. live_member d' t = (if t \<in> gone then None else live_member d t))"
  shows "access_state h'"
proof -
  have "access_mirrored h'" unfolding access_mirrored_def
  proof (intro allI impI)
    fix d'
    assume "sto_conn (h_store h') = Some d'"
    from tab [OF this] obtain d where d: "sto_conn (h_store h) = Some d"
      and t: "hm_ok (db_invites d) \<longrightarrow> hm_ok (db_invites d')" "hm_ok (db_members d) \<longrightarrow> hm_ok (db_members d')"
        "\<forall>t. live_davet d' t = drop_if p (live_davet d t)"
        "\<forall>t. live_member d' t = (if t \<in> gone then None else live_member d t)" by blast
    from h d have "hm_ok (db_invites d)" "hm_ok (db_members d)"
      "\<forall>t. hm_get (h_invites h) t = live_davet d t" "\<forall>t. hm_get (h_members h) t = live_member d t"
      by (auto simp: access_state_def access_mirrored_def)
    with t show "hm_ok (db_invites d') \<and> hm_ok (db_members d')
        \<and> (\<forall>t. hm_get (h_invites h') t = live_davet d' t) \<and> (\<forall>t. hm_get (h_members h') t = live_member d' t)"
      by (simp add: inv mem)
  qed
  moreover have "keyed h'" using h ok
    by (auto simp: access_state_def keyed_def inv mem drop_if_def split: option.splits if_splits)
  moreover have "roomy h'"
    by (rule roomy_fewer [of h]) (use h ok in \<open>auto simp: access_state_def keyed_def inv drop_if_def split: option.splits if_splits\<close>)
  ultimately show ?thesis by (simp add: access_state_def)
qed

lemma drop_davets_ok: "keyed h \<Longrightarrow> hm_ok (h_invites (drop_davets ds h))"
  by (simp add: drop_davets_def keyed_def fold_remove_ok)

lemma live_davet_token: "access_state h \<Longrightarrow> sto_conn (h_store h) = Some d \<Longrightarrow> live_davet d t = Some i \<Longrightarrow> iv_token i = t"
  unfolding access_state_def access_mirrored_def keyed_def by metis

lemma revoke_invite_state:
  assumes h: "access_state h"
  shows "access_state (snd (revoke_invite token now h))"
proof (cases "hm_get (h_invites h) token")
  case (Some i)
  obtain x h1 where st: "with_store (store_revoke_invite token now) h = (x, h1)" by force
  show ?thesis
  proof (cases x)
    case (Inl e)
    then show ?thesis using Some st write_err_state [OF h st [unfolded Inl]]
      by (simp add: revoke_invite_def store_revoke_invite_def run_write_errD)
  next
    case (Inr u)
    obtain s where f: "store_revoke_invite token now (h_store h) = (Ok u, s)" and h1: "h1 = h\<lparr>h_store := s\<rparr>"
      using st Inr by (auto elim!: with_storeE)
    have k: "keyed h" using h by (simp add: access_state_def)
    have "access_state (end_davet i (h1\<lparr>h_invites := hm_remove token (h_invites h1)\<rparr>))" (is "access_state ?h")
    proof (rule shrink_state [OF h, where p = "\<lambda>i. iv_token i = token" and gone = "{}"])
      show "hm_get (h_invites ?h) t = drop_if (\<lambda>i. iv_token i = token) (hm_get (h_invites h) t)" for t
        using k by (auto simp: h1 keyed_def drop_if_def split: option.split)
    next
      fix d'
      assume "sto_conn (h_store ?h) = Some d'"
      then obtain d where d: "sto_conn (h_store h) = Some d" and d': "d' = d\<lparr>db_invites := hm_map (\<lambda>t r.
          if t = token then r\<lparr>in_revoked_at := stamp now (in_revoked_at r)\<rparr> else r) (db_invites d)\<rparr>"
        using run_write_okD [OF f [unfolded store_revoke_invite_def]] by (auto simp: h1)
      have "live_davet d' t = drop_if (\<lambda>i. iv_token i = token) (live_davet d t)" for t
        using live_davet_token [OF h d, of t]
        by (auto simp: d' live_davet_def drop_if_def stamp_def split: option.split)
      then show "\<exists>d. sto_conn (h_store h) = Some d
          \<and> (hm_ok (db_invites d) \<longrightarrow> hm_ok (db_invites d')) \<and> (hm_ok (db_members d) \<longrightarrow> hm_ok (db_members d'))
          \<and> (\<forall>t. live_davet d' t = drop_if (\<lambda>i. iv_token i = token) (live_davet d t))
          \<and> (\<forall>t. live_member d' t = (if t \<in> {} then None else live_member d t))"
        using d by (auto simp: d' live_member_def)
    qed (use k in \<open>auto simp: h1 keyed_def\<close>)
    then show ?thesis using Some st Inr by (simp add: revoke_invite_def)
  qed
qed (simp add: revoke_invite_def h)

lemma revoke_invites_for_state:
  assumes h: "access_state h"
  shows "access_state (snd (revoke_invites_for room name now h))"
proof (cases "filter (\<lambda>i. iv_room i = room \<and> iv_name i = name) (hm_values (h_invites h)) = []")
  case True
  then show ?thesis using h by (simp add: revoke_invites_for_def)
next
  case False
  let ?p = "\<lambda>i. iv_room i = room \<and> iv_name i = name"
  let ?ds = "filter ?p (hm_values (h_invites h))"
  obtain x h1 where st: "with_store (store_revoke_invites_for room name now) h = (x, h1)" by force
  show ?thesis
  proof (cases x)
    case (Inl e)
    then show ?thesis using False st write_err_state [OF h st [unfolded Inl]]
      by (simp add: revoke_invites_for_def Let_def store_revoke_invites_for_def run_write_errD)
  next
    case (Inr u)
    obtain s where f: "store_revoke_invites_for room name now (h_store h) = (Ok u, s)" and h1: "h1 = h\<lparr>h_store := s\<rparr>"
      using st Inr by (auto elim!: with_storeE)
    have k: "keyed h" "keyed h1" using h by (simp_all add: access_state_def keyed_def h1)
    have "access_state (fold end_davet ?ds (drop_davets ?ds h1))" (is "access_state ?h")
    proof (rule shrink_state [OF h, where p = ?p and gone = "{}"])
      show "hm_get (h_invites ?h) t = drop_if ?p (hm_get (h_invites h) t)" for t
        using drop_davets_get [OF k(2), of ?p t] by (simp add: h1)
    next
      fix d'
      assume "sto_conn (h_store ?h) = Some d'"
      then obtain d where d: "sto_conn (h_store h) = Some d" and d': "d' = revoke_davets_where ?p now d"
        using run_write_okD [OF f [unfolded store_revoke_invites_for_def]] by (auto simp: h1)
      then show "\<exists>d. sto_conn (h_store h) = Some d
          \<and> (hm_ok (db_invites d) \<longrightarrow> hm_ok (db_invites d')) \<and> (hm_ok (db_members d) \<longrightarrow> hm_ok (db_members d'))
          \<and> (\<forall>t. live_davet d' t = drop_if ?p (live_davet d t))
          \<and> (\<forall>t. live_member d' t = (if t \<in> {} then None else live_member d t))" by simp
    qed (use k drop_davets_ok [OF k(2)] in \<open>auto simp: h1 keyed_def\<close>)
    then show ?thesis using False st Inr by (simp add: revoke_invites_for_def Let_def)
  qed
qed

lemma revoke_member_state:
  assumes h: "access_state h"
  shows "access_state (snd (revoke_member sha token now h))"
proof (cases "hm_contains (h_members h) token")
  case True
  let ?p = "\<lambda>i. iv_member i = token"
  obtain x h1 where st: "with_store (revoke_member_cascade sha token now) h = (x, h1)" by force
  show ?thesis
  proof (cases x)
    case (Inl e)
    then show ?thesis using True st write_err_state [OF h st [unfolded Inl]]
      by (simp add: revoke_member_def revoke_member_cascade_def run_write_errD)
  next
    case (Inr u)
    obtain s where f: "revoke_member_cascade sha token now (h_store h) = (Ok u, s)" and h1: "h1 = h\<lparr>h_store := s\<rparr>"
      using st Inr by (auto elim!: with_storeE)
    have k: "keyed h" "keyed h1" using h by (simp_all add: access_state_def keyed_def h1)
    define ds where "ds = invites_for_member h1 token"
    define h2 where "h2 = revoke_sessions_for_member token (fold end_davet ds (drop_davets ds h1))"
    have f2: "h_members h2 = h_members h" "h_store h2 = s" "h_invites h2 = h_invites (drop_davets ds h1)"
      by (simp_all add: h2_def revoke_sessions_for_member_def h1)
    have "access_state (h2\<lparr>h_members := hm_remove token (h_members h2), h_lobby_tx := l\<rparr>)" (is "access_state ?h") for l
    proof (rule shrink_state [OF h, where p = ?p and gone = "{token}"])
      show "hm_get (h_invites ?h) t = drop_if ?p (hm_get (h_invites h) t)" for t
        using drop_davets_get [OF k(2), of ?p t] by (simp add: f2 ds_def invites_for_member_def h1)
    next
      fix d'
      assume "sto_conn (h_store ?h) = Some d'"
      then obtain d where d: "sto_conn (h_store h) = Some d" and e: "d' = revoke_principal_credential sha token now
          (revoke_davets_where ?p now (d\<lparr>db_members := hm_map (\<lambda>t m. if t = token
            then m\<lparr>me_revoked_at := stamp now (me_revoked_at m)\<rparr> else m) (db_members d)\<rparr>))"
        using run_write_okD [OF f [unfolded revoke_member_cascade_def]] by (auto simp: f2)
      have d': "db_members d' = hm_map (\<lambda>t m. if t = token
            then m\<lparr>me_revoked_at := stamp now (me_revoked_at m)\<rparr> else m) (db_members d)"
          "hm_ok (db_invites d') = hm_ok (db_invites d)" by (simp_all add: e revoke_davets_where_def)
      have "live_davet d' t = drop_if ?p (live_davet d t)" for t
        by (auto simp: e live_davet_def revoke_davets_where_def drop_if_def stamp_def split: option.split)
      moreover
      have "live_member d' t = (if t \<in> {token} then None else live_member d t)" for t
        by (auto simp: live_member_def d' stamp_def membership_of_row_def split: option.split)
      ultimately show "\<exists>d. sto_conn (h_store h) = Some d
          \<and> (hm_ok (db_invites d) \<longrightarrow> hm_ok (db_invites d')) \<and> (hm_ok (db_members d) \<longrightarrow> hm_ok (db_members d'))
          \<and> (\<forall>t. live_davet d' t = drop_if ?p (live_davet d t))
          \<and> (\<forall>t. live_member d' t = (if t \<in> {token} then None else live_member d t))"
        using d d' by auto
    qed (use k drop_davets_ok [OF k(2)] in \<open>auto simp: f2 keyed_def\<close>)
    then show ?thesis using True st Inr by (simp add: revoke_member_def Let_def ds_def h2_def)
  qed
qed (simp add: revoke_member_def h)

lemma suspend_state:
  assumes h: "access_state h"
  shows "access_state (snd (set_member_suspended sha ref suspended reason now h))"
proof (cases "find (\<lambda>t. member_management_id sha t = ref) (hm_keys (h_members h))")
  case (Some token)
  let ?p = "\<lambda>i. iv_member i = token"
  show ?thesis
  proof (cases suspended)
    case False
    have "access_state (snd (with_store (resume_member sha token) h))"
      by (rule access_state_same [OF h])
        (auto simp: with_store_def resume_member_def run_txn_def case_prod_beta
          split: option.splits list.splits bool.splits sum.splits if_splits)
    then show ?thesis using Some False by (simp add: set_member_suspended_def)
  next
    case True
    obtain x h1 where st: "with_store (suspend_member sha token reason now) h = (x, h1)" by force
    obtain s where f: "suspend_member sha token reason now (h_store h) = (x, s)" and h1: "h1 = h\<lparr>h_store := s\<rparr>"
      using st by (auto elim!: with_storeE)
    show ?thesis
    proof (cases "x = Ok True")
      case False
      have "sto_conn s = sto_conn (h_store h)" using f False
        by (auto simp: suspend_member_def run_txn_def split: if_splits option.splits list.splits bool.splits sum.splits)
      then have "access_state h1" unfolding h1 by (intro access_state_conn [OF h]) simp_all
      then show ?thesis using Some True st False
        by (cases x) (auto simp: set_member_suspended_def split: bool.split)
    next
      case ok: True
      have k: "keyed h" "keyed h1" using h by (simp_all add: access_state_def keyed_def h1)
      define ds where "ds = invites_for_member h1 token"
      define h2 where "h2 = revoke_sessions_for_member token
         (fold (\<lambda>i. close_connections (iv_room i) (iv_name i)) ds (drop_davets ds h1))"
      have f2: "h_members h2 = h_members h" "h_store h2 = s" "h_invites h2 = h_invites (drop_davets ds h1)"
        by (simp_all add: h2_def revoke_sessions_for_member_def h1)
      have "access_state (h2\<lparr>h_lobby_tx := l\<rparr>)" (is "access_state ?h") for l
      proof (rule shrink_state [OF h, where p = ?p and gone = "{}"])
        show "hm_get (h_invites ?h) t = drop_if ?p (hm_get (h_invites h) t)" for t
          using drop_davets_get [OF k(2), of ?p t] by (simp add: f2 ds_def invites_for_member_def h1)
      next
        fix d'
        assume "sto_conn (h_store ?h) = Some d'"
        then obtain d prin where d: "sto_conn (h_store h) = Some d" and d': "d' = suspend_rows prin token reason now d"
          using f ok by (auto simp: f2 suspend_member_def run_txn_def
              split: if_splits option.splits list.splits bool.splits sum.splits)
        then show "\<exists>d. sto_conn (h_store h) = Some d
            \<and> (hm_ok (db_invites d) \<longrightarrow> hm_ok (db_invites d')) \<and> (hm_ok (db_members d) \<longrightarrow> hm_ok (db_members d'))
            \<and> (\<forall>t. live_davet d' t = drop_if ?p (live_davet d t))
            \<and> (\<forall>t. live_member d' t = (if t \<in> {} then None else live_member d t))"
          by (auto simp: suspend_rows_def live_member_def) (auto simp: live_davet_def)
      qed (use k drop_davets_ok [OF k(2)] in \<open>auto simp: f2 keyed_def\<close>)
      then show ?thesis using Some True st ok by (simp add: set_member_suspended_def Let_def ds_def h2_def)
    qed
  qed
qed (simp add: set_member_suspended_def h)

subsection \<open>Reading an authority\<close>

text \<open>
  Resolving a credential records when it was last used and nothing else; the tables the
  registries mirror are not involved.
\<close>

definition used :: "db \<Rightarrow> db \<Rightarrow> bool" where
  "used d d' = (\<exists>g. d' = d\<lparr>db_credentials := hm_map (\<lambda>i c. c\<lparr>cr_last_used_at := g i c\<rparr>) (db_credentials d)\<rparr>)"

definition store_used :: "store \<Rightarrow> store \<Rightarrow> bool" where
  "store_used s s' = rel_option used (sto_conn s) (sto_conn s')"

lemma hm_map_id: "(\<And>k v. f k v = v) \<Longrightarrow> hm_map f m = m"
  by (simp add: hm_map_def case_prod_beta)

lemma hm_map_comp: "hm_map f (hm_map g m) = hm_map (\<lambda>k v. f k (g k v)) m"
  by (simp add: hm_map_def case_prod_beta)

lemma used_refl [simp]: "used d d"
proof -
  have "hm_map (\<lambda>i c. c\<lparr>cr_last_used_at := cr_last_used_at c\<rparr>) (db_credentials d) = db_credentials d"
    by (rule hm_map_id) simp
  then show ?thesis unfolding used_def by (intro exI [where x = "\<lambda>_. cr_last_used_at"]) simp
qed

lemma used_trans: "used a b \<Longrightarrow> used b c \<Longrightarrow> used a c"
proof -
  assume "used a b" "used b c"
  then obtain f g where "b = a\<lparr>db_credentials := hm_map (\<lambda>i c. c\<lparr>cr_last_used_at := f i c\<rparr>) (db_credentials a)\<rparr>"
    "c = b\<lparr>db_credentials := hm_map (\<lambda>i c. c\<lparr>cr_last_used_at := g i c\<rparr>) (db_credentials b)\<rparr>" by (auto simp: used_def)
  then show ?thesis unfolding used_def
    by (intro exI [where x = "\<lambda>i c. g i (c\<lparr>cr_last_used_at := f i c\<rparr>)"]) (simp add: hm_map_comp)
qed

lemma store_used_refl [simp]: "store_used s s"
  by (simp add: store_used_def option.rel_refl)

lemma store_used_trans: "store_used a b \<Longrightarrow> store_used b c \<Longrightarrow> store_used a c"
  unfolding store_used_def by (cases "sto_conn a"; cases "sto_conn b"; cases "sto_conn c") (auto intro: used_trans)

lemma used_touch: "used d (touch_credential hash clock d)"
proof -
  have e: "(if cr_secret_hash c = hash \<and> cr_revoked_at c = None then c\<lparr>cr_last_used_at := Some clock\<rparr> else c)
     = c\<lparr>cr_last_used_at := (if cr_secret_hash c = hash \<and> cr_revoked_at c = None then Some clock else cr_last_used_at c)\<rparr>" for c
    by simp
  show ?thesis unfolding used_def touch_credential_def e by (rule exI, rule refl)
qed

lemma principal_for_credential_used:
  "principal_for_credential sha clock t s = (p, s') \<Longrightarrow> store_used s s'"
  by (auto simp: principal_for_credential_def run_write_def run_txn_def store_used_def used_touch option.rel_refl
      split: if_splits option.splits list.splits bool.splits)

lemma find_hm_map:
  "(\<And>k v. p (k, f k v) = p (k, v)) \<Longrightarrow> find p (hm_map f m) = map_option (\<lambda>(k, v). (k, f k v)) (find p m)"
  by (induction m) (auto simp: hm_map_def)

lemma used_frame:
  assumes "used d d'"
  shows "db_invites d' = db_invites d" "db_members d' = db_members d" "db_principals d' = db_principals d"
    "db_operators d' = db_operators d" "db_suspensions d' = db_suspensions d" "db_bans d' = db_bans d"
  using assms by (auto simp: used_def)

lemma used_identity: "used d d' \<Longrightarrow> identity_for_hash d' hash = identity_for_hash d hash"
  by (auto simp: used_def identity_for_hash_def credential_with_hash_def find_hm_map db_active_principal_def
      split: option.splits prod.splits)

lemma used_values:
  assumes "used d d'" and "\<And>c v. p (c\<lparr>cr_last_used_at := v\<rparr>) = p c" and "\<And>c v. q (c\<lparr>cr_last_used_at := v\<rparr>) = q c"
  shows "map_option q (find p (hm_values (db_credentials d'))) = map_option q (find p (hm_values (db_credentials d)))"
proof -
  obtain g where "db_credentials d' = hm_map (\<lambda>i c. c\<lparr>cr_last_used_at := g i c\<rparr>) (db_credentials d)"
    using assms(1) by (auto simp: used_def)
  moreover have "map_option q (find p (hm_values (hm_map (\<lambda>i c. c\<lparr>cr_last_used_at := g i c\<rparr>) m)))
      = map_option q (find p (hm_values m))" for m
    by (induction m) (auto simp: hm_map_def hm_values_def assms(2,3))
  ultimately show ?thesis by simp
qed

lemma store_used_views:
  assumes "store_used s s'"
  shows "credential_is_revoked sha s' t = credential_is_revoked sha s t"
    "principal_id_for_member_record sha s' t = principal_id_for_member_record sha s t"
    "loca_operator s' room = loca_operator s room" "store_member_suspended s' t = store_member_suspended s t"
    "is_persistent s' = is_persistent s"
    "fst (principal_for_credential sha clock t s') = fst (principal_for_credential sha clock t s)"
proof -
  show "is_persistent s' = is_persistent s"
    using assms by (cases "sto_conn s"; cases "sto_conn s'") (auto simp: store_used_def is_persistent_def)
  show "store_member_suspended s' t = store_member_suspended s t"
    using assms by (cases "sto_conn s"; cases "sto_conn s'")
      (auto simp: store_used_def store_member_suspended_def used_frame)
  show "loca_operator s' room = loca_operator s room"
    using assms by (cases "sto_conn s"; cases "sto_conn s'")
      (auto simp: store_used_def loca_operator_def query_active_def assignment_from_row_def used_frame
        intro!: arg_cong2 [where f = first_some])
  show "fst (principal_for_credential sha clock t s') = fst (principal_for_credential sha clock t s)"
    using assms by (cases "sto_conn s"; cases "sto_conn s'")
      (auto simp: store_used_def principal_for_credential_def used_identity split: option.split)
  show "principal_id_for_member_record sha s' t = principal_id_for_member_record sha s t"
    using assms used_values [where p = "\<lambda>c. cr_legacy_source c = Some (''member:'' @ secret_hash sha t)" and q = cr_principal_id]
    by (cases "sto_conn s"; cases "sto_conn s'") (auto simp: store_used_def principal_id_for_member_record_def)
  have "credential_is_revoked sha x t = (case sto_conn x of None \<Rightarrow> False
     | Some d \<Rightarrow> map_option (\<lambda>c. cr_revoked_at c \<noteq> None)
         (find (\<lambda>c. cr_secret_hash c = secret_hash sha t) (hm_values (db_credentials d))) = Some True)" for x
    by (auto simp: credential_is_revoked_def split: option.split)
  then show "credential_is_revoked sha s' t = credential_is_revoked sha s t"
    using assms used_values [where p = "\<lambda>c. cr_secret_hash c = secret_hash sha t" and q = "\<lambda>c. cr_revoked_at c \<noteq> None"]
    by (cases "sto_conn s"; cases "sto_conn s'") (simp_all add: store_used_def)
qed

definition glanced :: "hub \<Rightarrow> hub \<Rightarrow> bool" where
  "glanced h h' = (\<exists>s. h' = h\<lparr>h_store := s\<rparr> \<and> store_used (h_store h) s)"

lemma glanced_refl [simp]: "glanced h h"
  unfolding glanced_def by (intro exI [where x = "h_store h"]) simp

lemma glanced_trans: "glanced a b \<Longrightarrow> glanced b c \<Longrightarrow> glanced a c"
  unfolding glanced_def using store_used_trans by fastforce

lemma glanced_credential:
  "with_store (principal_for_credential sha clock t) h = (p, h') \<Longrightarrow> glanced h h'"
  by (auto simp: glanced_def elim!: with_storeE intro: principal_for_credential_used)

lemma glanced_token_authority: "token_authority sha clock t h = (a, h') \<Longrightarrow> glanced h h'"
  by (auto simp: token_authority_def credential_authority_def or_authority_def
      split: prod.splits option.splits if_splits list.splits
      dest!: glanced_credential intro: glanced_trans)

lemma glanced_authority: "resolve_authority sha now clock t None h = (a, h') \<Longrightarrow> glanced h h'"
  by (auto simp: resolve_authority_def session_identity_of_def intro: glanced_token_authority)

lemma glanced_member: "member_for_credential sha clock t h = (m, h') \<Longrightarrow> glanced h h'"
  by (auto simp: member_for_credential_def split: if_splits option.splits prod.splits dest!: glanced_credential)

lemma glanced_may_enter: "may_enter sha clock room t h = (b, h') \<Longrightarrow> glanced h h'"
  by (auto simp: may_enter_def split: if_splits option.splits prod.splits dest!: glanced_member)

lemma glanced_enter: "enter_decision sha now clock room a t session hint h = (x, h') \<Longrightarrow> glanced h h'"
  by (auto simp: enter_decision_def Let_def split: if_splits prod.splits
      dest!: glanced_authority glanced_may_enter intro: glanced_trans)

lemma glanced_state:
  assumes "glanced h h'" and "access_state h"
  shows "access_state h'"
proof -
  obtain s where h': "h' = h\<lparr>h_store := s\<rparr>" "store_used (h_store h) s" using assms(1) by (auto simp: glanced_def)
  show ?thesis
    by (rule access_state_same [OF assms(2)])
      (use h' in \<open>auto simp: store_used_def option_rel_Some2 used_frame\<close>)
qed

end
