(* ===== verification/Store_Admission.thy ===== *)
theory Store_Admission
  imports Store_Members
begin

text \<open>
  The admission desk of \<^verbatim>\<open>crates/server/src/store.rs\<close>: the stock of single-use admission
  rights a master mints, the requests of outsiders to join the building, the
  transaction that approves one of them and the delivery of the issued key.
\<close>

subsection \<open>Stock\<close>

fun mint_rows :: "string \<Rightarrow> u64 \<Rightarrow> u64 \<Rightarrow> string list \<Rightarrow> nat \<Rightarrow> db \<Rightarrow> (sql_error, nat \<times> db) result" where
  "mint_rows minted_by created expires [] n d = Ok (n, d)"
| "mint_rows minted_by created expires (i # ids) n d =
     (if hm_contains (db_stock d) i then Err ConstraintViolation
      else mint_rows minted_by created expires ids (n + 1)
        (d\<lparr>db_stock := hm_insert i \<lparr> sk_minted_by = minted_by, sk_created_at = created, sk_expires_at = expires,
             sk_consumed_at = None, sk_consumed_by_name = None \<rparr> (db_stock d)\<rparr>))"

definition mint_admission_rights ::
  "string list \<Rightarrow> string \<Rightarrow> u64 \<Rightarrow> u64 \<Rightarrow> store \<Rightarrow> (sql_error, nat) result \<times> store" where
  "mint_admission_rights ids minted_by created expires =
     run_txn 0 (mint_rows minted_by created expires ids 0)"

definition right_available :: "u64 \<Rightarrow> stock_row \<Rightarrow> bool" where
  "right_available now k = (sk_consumed_at k = None \<and> now < sk_expires_at k)"

definition admission_stock_counts :: "store \<Rightarrow> u64 \<Rightarrow> nat \<times> nat" where
  "admission_stock_counts s now = (case sto_conn s of None \<Rightarrow> (0, 0)
     | Some d \<Rightarrow> (length (db_stock d), length (filter (right_available now) (hm_values (db_stock d)))))"

subsection \<open>Requests\<close>

definition store_create_join_request ::
  "digest \<Rightarrow> string \<Rightarrow> string \<Rightarrow> string \<Rightarrow> string \<Rightarrow> u64 \<Rightarrow> store \<Rightarrow> (sql_error, unit) result \<times> store" where
  "store_create_join_request sha i secret name kind created = run_txn () (\<lambda>d.
     if hm_contains (db_join_requests d) i then Err ConstraintViolation
     else Ok ((), d\<lparr>db_join_requests := hm_insert i
       \<lparr> jr_secret_hash = secret_hash sha secret, jr_name = name, jr_kind = kind, jr_status = ''pending'',
         jr_created_at = created, jr_decided_by = None, jr_decided_at = None, jr_mb_token = None,
         jr_bootstrap_delivered_at = None, jr_bootstrap_acked_at = None \<rparr> (db_join_requests d)\<rparr>))"

definition own_request :: "digest \<Rightarrow> db \<Rightarrow> string \<Rightarrow> string \<Rightarrow> join_row option" where
  "own_request sha d i secret = (case hm_get (db_join_requests d) i of None \<Rightarrow> None
     | Some r \<Rightarrow> if jr_secret_hash r = secret_hash sha secret then Some r else None)"

definition store_join_request_view ::
  "digest \<Rightarrow> store \<Rightarrow> string \<Rightarrow> string \<Rightarrow> (string \<times> string \<times> bool) option" where
  "store_join_request_view sha s i secret = (case sto_conn s of None \<Rightarrow> None
     | Some d \<Rightarrow> map_option (\<lambda>r. (jr_status r, jr_name r, jr_mb_token r \<noteq> None \<and> jr_bootstrap_acked_at r = None))
         (own_request sha d i secret))"

definition store_list_pending_join_requests :: "store \<Rightarrow> (string \<times> string \<times> string \<times> u64) list" where
  "store_list_pending_join_requests s = (case sto_conn s of None \<Rightarrow> []
     | Some d \<Rightarrow> map (\<lambda>(i, r). (i, jr_name r, jr_kind r, jr_created_at r))
         (sort_key (\<lambda>(i, r). (jr_created_at r, i))
            (filter (\<lambda>(_, r). jr_status r = ''pending'') (db_join_requests d))))"

definition has_pending_join_request_named :: "store \<Rightarrow> string \<Rightarrow> bool" where
  "has_pending_join_request_named s name = (case sto_conn s of None \<Rightarrow> False
     | Some d \<Rightarrow> \<exists>r \<in> set (hm_values (db_join_requests d)).
         jr_name r = name \<and> jr_status r \<in> {''pending'', ''approving''})"

subsection \<open>Decisions\<close>

datatype ApproveTxn = Committed membership | AtAlreadyDecided | AtNameTaken | AtNoStock | AtFailed

definition set_request :: "string \<Rightarrow> string \<Rightarrow> (join_row \<Rightarrow> join_row) \<Rightarrow> db \<Rightarrow> db" where
  "set_request i status f d = d\<lparr>db_join_requests :=
     hm_map (\<lambda>j r. if j = i \<and> jr_status r = status then f r else r) (db_join_requests d)\<rparr>"

definition oldest_right :: "u64 \<Rightarrow> db \<Rightarrow> string option" where
  "oldest_right now d = (case sort_key (\<lambda>(i, k). (sk_created_at k, i))
       (filter (\<lambda>(_, k). right_available now k) (db_stock d)) of [] \<Rightarrow> None | (i, _) # _ \<Rightarrow> Some i)"

definition consume_right :: "string \<Rightarrow> string \<Rightarrow> u64 \<Rightarrow> db \<Rightarrow> db" where
  "consume_right i name now d = d\<lparr>db_stock := hm_map (\<lambda>j k.
     if j = i \<and> sk_consumed_at k = None then k\<lparr>sk_consumed_at := Some now, sk_consumed_by_name := Some name\<rparr> else k)
     (db_stock d)\<rparr>"

definition approve_rows ::
  "digest \<Rightarrow> string \<Rightarrow> string \<Rightarrow> string \<Rightarrow> u64 \<Rightarrow> db \<Rightarrow> (ApproveTxn, ApproveTxn \<times> db) result" where
  "approve_rows sha i mb by now d = (case hm_get (db_join_requests d) i of
     None \<Rightarrow> Err AtAlreadyDecided
   | Some r \<Rightarrow>
       if jr_status r \<noteq> ''pending'' then Err AtAlreadyDecided
       else let d1 = set_request i ''pending'' (\<lambda>r. r\<lparr>jr_status := ''approving''\<rparr>) d
            in if \<exists>m \<in> set (hm_values (db_members d1)). me_name m = jr_name r \<and> me_revoked_at m = None
               then Err AtNameTaken
               else case oldest_right now d1 of None \<Rightarrow> Err AtNoStock
               | Some right \<Rightarrow>
                   if hm_contains (db_members d1) mb then Err AtFailed
                   else let d2 = consume_right right (jr_name r) now d1;
                            d3 = insert_principal_credential sha ''member'' mb (jr_name r) (jr_kind r) now
                                   ''Member access''
                                   (d2\<lparr>db_members := hm_insert mb
                                      \<lparr> me_name = jr_name r, me_kind = jr_kind r, me_joined_at = now,
                                        me_admitted_by = by, me_revoked_at = None \<rparr> (db_members d2)\<rparr>)
                        in Ok (Committed \<lparr> mb_token = mb, mb_name = jr_name r, mb_kind = jr_kind r,
                                 mb_joined_at = now, mb_admitted_by = by \<rparr>,
                               set_request i ''approving'' (\<lambda>r. r\<lparr>jr_status := ''approved'',
                                 jr_mb_token := Some mb, jr_decided_by := Some by, jr_decided_at := Some now\<rparr>) d3))"

definition approve_join_request_atomic ::
  "digest \<Rightarrow> string \<Rightarrow> string \<Rightarrow> string \<Rightarrow> u64 \<Rightarrow> store \<Rightarrow> ApproveTxn \<times> store" where
  "approve_join_request_atomic sha i mb by now s =
     (case answer_txn AtFailed AtFailed (approve_rows sha i mb by now) s of
        (Inl answer, s1) \<Rightarrow> (answer, s1) | (Inr answer, s1) \<Rightarrow> (answer, s1))"

definition request_pending :: "string \<Rightarrow> db \<Rightarrow> bool" where
  "request_pending i d = (case hm_get (db_join_requests d) i of None \<Rightarrow> False | Some r \<Rightarrow> jr_status r = ''pending'')"

definition store_deny_join_request :: "string \<Rightarrow> string \<Rightarrow> u64 \<Rightarrow> store \<Rightarrow> bool \<times> store" where
  "store_deny_join_request i by at s =
     (case run_txn False (\<lambda>d. Ok (request_pending i d, set_request i ''pending''
         (\<lambda>r. r\<lparr>jr_status := ''denied'', jr_decided_by := Some by, jr_decided_at := Some at\<rparr>) d)) s of
        (Inl _, s1) \<Rightarrow> (False, s1) | (Inr was_pending, s1) \<Rightarrow> (was_pending, s1))"

subsection \<open>Delivery of the key\<close>

definition store_claim_join_request_bootstrap ::
  "digest \<Rightarrow> string \<Rightarrow> string \<Rightarrow> u64 \<Rightarrow> store \<Rightarrow> string option \<times> store" where
  "store_claim_join_request_bootstrap sha i secret now s = (case sto_conn s of None \<Rightarrow> (None, s)
   | Some d \<Rightarrow>
       (case own_request sha d i secret of None \<Rightarrow> (None, s)
        | Some r \<Rightarrow>
            if jr_status r = ''approved'' \<and> jr_mb_token r \<noteq> None \<and> jr_bootstrap_acked_at r = None
            then (jr_mb_token r, snd (run_write (\<lambda>d. d\<lparr>db_join_requests := hm_map (\<lambda>j q.
                    if j = i \<and> jr_bootstrap_delivered_at q = None
                    then q\<lparr>jr_bootstrap_delivered_at := Some now\<rparr> else q) (db_join_requests d)\<rparr>) s))
            else (None, s)))"

definition store_ack_join_request_bootstrap ::
  "digest \<Rightarrow> string \<Rightarrow> string \<Rightarrow> u64 \<Rightarrow> store \<Rightarrow> bool option \<times> store" where
  "store_ack_join_request_bootstrap sha i secret now s = (case sto_conn s of None \<Rightarrow> (None, s)
   | Some d \<Rightarrow>
       (case own_request sha d i secret of None \<Rightarrow> (None, s)
        | Some r \<Rightarrow>
            if jr_status r \<noteq> ''approved'' then (None, s)
            else if jr_bootstrap_acked_at r \<noteq> None then (Some False, s)
            else case run_write (\<lambda>d. d\<lparr>db_join_requests := hm_map (\<lambda>j q.
                    if j = i \<and> jr_bootstrap_acked_at q = None
                    then q\<lparr>jr_bootstrap_acked_at := Some now, jr_mb_token := None\<rparr> else q) (db_join_requests d)\<rparr>) s of
                   (Inl _, s1) \<Rightarrow> (None, s1) | (Inr _, s1) \<Rightarrow> (Some True, s1)))"

end
