(* ===== verification/Admission.thy ===== *)
theory Admission
  imports Store_Admission Rooms
begin

text \<open>
  How an outsider becomes a member, from \<^verbatim>\<open>crates/server/src/hub.rs\<close>: minting admission
  rights, asking to join, the announcement in the home loca, the master's decision and
  the delivery of the issued key.  The source address of a request is a string.
\<close>

fun secure_tokens :: "string \<Rightarrow> nat \<Rightarrow> hub \<Rightarrow> string list \<times> hub" where
  "secure_tokens prefix 0 h = ([], h)"
| "secure_tokens prefix (Suc n) h =
     (let (t, h1) = secure_token prefix h; (ts, h2) = secure_tokens prefix n h1 in (t # ts, h2))"

definition mint_admission_stock :: "u32 \<Rightarrow> u64 \<Rightarrow> u64 \<Rightarrow> hub \<Rightarrow> (nat \<times> nat \<times> nat) \<times> hub" where
  "mint_admission_stock count ttl_ms now h =
     (let expires_at = u64_saturating_add now ttl_ms;
          minted_by = (case active_master_principal (h_store h) of Some p \<Rightarrow> pi_id p | None \<Rightarrow> ''master'');
          (ids, h1) = secure_tokens ''adm_'' count h;
          (res, h2) = with_store (mint_admission_rights ids minted_by now expires_at) h1;
          minted = (case res of Inl _ \<Rightarrow> 0 | Inr n \<Rightarrow> n)
      in ((minted, admission_stock_counts (h_store h2) now), h2))"

definition admission_stock_summary :: "u64 \<Rightarrow> hub \<Rightarrow> nat \<times> nat" where
  "admission_stock_summary now h = admission_stock_counts (h_store h) now"

definition MAX_PENDING_JOIN_REQUESTS :: nat where
  "MAX_PENDING_JOIN_REQUESTS = 200"

definition JOIN_CREATE_WINDOW_MS :: u64 where
  "JOIN_CREATE_WINDOW_MS = 60000"

definition JOIN_CREATE_MAX_IN_WINDOW :: nat where
  "JOIN_CREATE_MAX_IN_WINDOW = 30"

definition join_request_rate_ok :: "string \<Rightarrow> u64 \<Rightarrow> hub \<Rightarrow> bool \<times> hub" where
  "join_request_rate_ok ip now h =
     (let by_ip = hm_retain (\<lambda>_ times. times \<noteq> [])
            (hm_map (\<lambda>_ times. filter (\<lambda>t. u64_saturating_sub now t < JOIN_CREATE_WINDOW_MS) times)
               (h_join_create_times h));
          times = (case hm_get by_ip ip of Some ts \<Rightarrow> ts | None \<Rightarrow> [])
      in if JOIN_CREATE_MAX_IN_WINDOW \<le> length times
         then (False, h\<lparr>h_join_create_times := hm_insert ip times by_ip\<rparr>)
         else (True, h\<lparr>h_join_create_times := hm_insert ip (times @ [now]) by_ip\<rparr>))"

datatype JoinRequestCreate = JrCreated string string | JrNameTaken | JrBacklogFull

text \<open>The dash of the announcement is written as its UTF-8 bytes.\<close>

definition join_message :: "string \<Rightarrow> string option \<Rightarrow> string \<Rightarrow> string \<Rightarrow> u64 \<Rightarrow> u64 \<Rightarrow> message" where
  "join_message room lead name kind i now =
    \<lparr> m_id = i, m_room = room, m_sender = ''loca'', m_sender_type = User,
      m_target = or_else lead (Some ''all''),
      m_text = name @ '' ('' @ kind @ '') wants to join '' @ [CHR 0xE2, CHR 0x80, CHR 0x94]
        @ '' approve or deny it in Join requests.'',
      m_kind = Announce, m_reply_to = None, m_reply_to_sender = None, m_ts = now, m_attachments = [] \<rparr>"

definition announce_join_request :: "string \<Rightarrow> string \<Rightarrow> u64 \<Rightarrow> hub \<Rightarrow> hub" where
  "announce_join_request name kind now h =
     (let room = h_home_room h;
          settings = settings_of h room;
          msg = join_message room (st_lead settings) name kind (h_next_id h) now;
          h1 = h\<lparr>h_next_id := u64_add (h_next_id h) 1\<rparr>;
          (_, h2) = with_store (insert_message_with_room msg (mode_of h room) settings None) h1;
          r = room_mut room h2
      in put_room room (send (FMsg msg) (r\<lparr>r_history := r_history r @ [msg]\<rparr>)) h2)"

definition create_join_request ::
  "digest \<Rightarrow> string \<Rightarrow> string \<Rightarrow> string \<Rightarrow> u64 \<Rightarrow> hub \<Rightarrow> JoinRequestCreate \<times> hub" where
  "create_join_request sha name kind ip now h = (case join_request_rate_ok ip now h of
     (False, h1) \<Rightarrow> (JrBacklogFull, h1)
   | (True, h1) \<Rightarrow>
       if member_by_name h1 name \<noteq> None \<or> has_pending_join_request_named (h_store h1) name
       then (JrNameTaken, h1)
       else if MAX_PENDING_JOIN_REQUESTS \<le> length (store_list_pending_join_requests (h_store h1))
       then (JrBacklogFull, h1)
       else let (request_id, h2) = secure_token ''jr_'' h1;
                (request_secret, h3) = secure_token ''jrs_'' h2;
                (_, h4) = with_store (store_create_join_request sha request_id request_secret name kind now) h3
            in (JrCreated request_id request_secret, announce_join_request name kind now h4))"

definition join_request_view :: "digest \<Rightarrow> hub \<Rightarrow> string \<Rightarrow> string \<Rightarrow> (string \<times> string \<times> bool) option" where
  "join_request_view sha h i secret = store_join_request_view sha (h_store h) i secret"

definition list_pending_join_requests :: "hub \<Rightarrow> (string \<times> string \<times> string \<times> u64) list" where
  "list_pending_join_requests h = store_list_pending_join_requests (h_store h)"

datatype Approve = Approved | AlreadyDecided | ApNameTaken | ApNoStock | ApFailed

definition approve_join_request :: "digest \<Rightarrow> string \<Rightarrow> string \<Rightarrow> u64 \<Rightarrow> hub \<Rightarrow> Approve \<times> hub" where
  "approve_join_request sha i by now h =
     (let (token, h1) = new_invite_token h;
          mb = replacen_one ''dv_'' ''mb_'' token
      in case with_store (approve_join_request_atomic sha i mb by now) h1 of
           (Committed m, h2) \<Rightarrow> (Approved, h2\<lparr>h_members := hm_insert (mb_token m) m (h_members h2)\<rparr>)
         | (AtAlreadyDecided, h2) \<Rightarrow> (AlreadyDecided, h2)
         | (AtNameTaken, h2) \<Rightarrow> (ApNameTaken, h2)
         | (AtNoStock, h2) \<Rightarrow> (ApNoStock, h2)
         | (AtFailed, h2) \<Rightarrow> (ApFailed, h2))"

definition deny_join_request :: "string \<Rightarrow> string \<Rightarrow> u64 \<Rightarrow> hub \<Rightarrow> bool \<times> hub" where
  "deny_join_request i by now h = with_store (store_deny_join_request i by now) h"

definition claim_join_request_bootstrap :: "digest \<Rightarrow> string \<Rightarrow> string \<Rightarrow> u64 \<Rightarrow> hub \<Rightarrow> string option \<times> hub" where
  "claim_join_request_bootstrap sha i secret now h = with_store (store_claim_join_request_bootstrap sha i secret now) h"

definition ack_join_request_bootstrap :: "digest \<Rightarrow> string \<Rightarrow> string \<Rightarrow> u64 \<Rightarrow> hub \<Rightarrow> bool option \<times> hub" where
  "ack_join_request_bootstrap sha i secret now h = with_store (store_ack_join_request_bootstrap sha i secret now) h"

end
