(* ===== verification/Admission_Laws.thy ===== *)
theory Admission_Laws
  imports Access_Laws Admission
begin

text \<open>
  What the operations of the admission desk do to its two tables and to the registry of
  members, and that no other operation of the building touches those tables.
\<close>

subsection \<open>Counting the rows of a table\<close>

definition hm_count :: "('v \<Rightarrow> bool) \<Rightarrow> ('k, 'v) hashmap \<Rightarrow> nat" where
  "hm_count p m = length (filter p (hm_values m))"

lemma hm_count_card:
  assumes "hm_ok m"
  shows "hm_count p m = card {k. \<exists>v. hm_get m k = Some v \<and> p v}"
proof -
  let ?m = "filter (\<lambda>(_, v). p v) m"
  have "hm_count p m = length ?m"
    unfolding hm_count_def hm_values_def by (induction m) (auto simp: filter_map comp_def case_prod_beta)
  also have "\<dots> = card (set (map fst ?m))"
  proof -
    have "distinct (map fst ?m)" using assms unfolding hm_ok_def by (induction m) (auto simp: distinct_map_filter)
    then show ?thesis by (metis distinct_card length_map)
  qed
  also have "set (map fst ?m) = {k. \<exists>v. hm_get m k = Some v \<and> p v}" using hm_entry_iff [OF assms] by force
  finally show ?thesis .
qed

lemma hm_count_same:
  assumes "hm_ok m" and "hm_ok m'" and "\<And>k. (\<exists>v. hm_get m' k = Some v \<and> p v) = (\<exists>v. hm_get m k = Some v \<and> p v)"
  shows "hm_count p m' = hm_count p m"
  by (simp add: hm_count_card assms)

lemma hm_count_up:
  assumes "hm_ok m" and "hm_ok m'" and "\<nexists>v. hm_get m i = Some v \<and> p v"
    and "\<And>k. (\<exists>v. hm_get m' k = Some v \<and> p v) = (k = i \<or> (\<exists>v. hm_get m k = Some v \<and> p v))"
  shows "hm_count p m' = Suc (hm_count p m)"
proof -
  have "{k. \<exists>v. hm_get m' k = Some v \<and> p v} = insert i {k. \<exists>v. hm_get m k = Some v \<and> p v}"
    using assms(4) by blast
  then show ?thesis using assms(1-3) by (simp add: hm_count_card davets_finite)
qed

lemma hm_count_fewer:
  assumes "hm_ok m" and "hm_ok m'" and "\<And>k v. hm_get m' k = Some v \<Longrightarrow> p v \<Longrightarrow> \<exists>w. hm_get m k = Some w \<and> p w"
  shows "hm_count p m' \<le> hm_count p m"
  unfolding hm_count_card [OF assms(1)] hm_count_card [OF assms(2)]
  by (rule card_mono [OF davets_finite]) (use assms(3) in blast)

subsection \<open>The approval\<close>

lemma oldest_right_available:
  assumes "hm_ok (db_stock d)" and "oldest_right now d = Some i"
  obtains k where "hm_get (db_stock d) i = Some k" and "right_available now k"
    and "\<And>j k'. hm_get (db_stock d) j = Some k' \<Longrightarrow> right_available now k' \<Longrightarrow> (sk_created_at k, i) \<le> (sk_created_at k', j)"
proof -
  let ?rows = "filter (\<lambda>(_, k). right_available now k) (db_stock d)"
  let ?sorted = "sort_key (\<lambda>(i, k). (sk_created_at k, i)) ?rows"
  obtain k rest where s: "?sorted = (i, k) # rest"
    using assms(2) by (auto simp: oldest_right_def split: list.splits)
  then have "(i, k) \<in> set ?rows" by (metis list.set_intros(1) set_sort)
  then have "hm_get (db_stock d) i = Some k" "right_available now k" using hm_entry_iff [OF assms(1)] by auto
  moreover have "(sk_created_at k, i) \<le> (sk_created_at k', j)"
    if "hm_get (db_stock d) j = Some k'" "right_available now k'" for j k'
  proof -
    have "(j, k') \<in> set ?rows" using that hm_entry_iff [OF assms(1)] by auto
    then have "(j, k') \<in> set ((i, k) # rest)" using s by (metis set_sort)
    moreover have "sorted (map (\<lambda>(i, k). (sk_created_at k, i)) ((i, k) # rest))" using s by (metis sorted_sort_key)
    ultimately show ?thesis by (auto simp: less_eq_prod_def)
  qed
  ultimately show thesis by (rule that)
qed

lemma oldest_right_None:
  "hm_ok (db_stock d) \<Longrightarrow> oldest_right now d = None \<longleftrightarrow> \<not> (\<exists>i k. hm_get (db_stock d) i = Some k \<and> right_available now k)"
proof -
  assume ok: "hm_ok (db_stock d)"
  have "oldest_right now d = None \<longleftrightarrow> filter (\<lambda>(_, k). right_available now k) (db_stock d) = []"
    by (auto simp: oldest_right_def split: list.splits) (metis set_empty set_sort)
  also have "\<dots> \<longleftrightarrow> \<not> (\<exists>i k. hm_get (db_stock d) i = Some k \<and> right_available now k)"
    using hm_entry_iff [OF ok] by (auto simp: filter_empty_conv)
  finally show ?thesis .
qed

lemma set_request_frame [simp]:
  "db_stock (set_request i st f d) = db_stock d" "db_members (set_request i st f d) = db_members d"
  "db_invites (set_request i st f d) = db_invites d" "db_credentials (set_request i st f d) = db_credentials d"
  "db_principals (set_request i st f d) = db_principals d"
  "oldest_right now (set_request i st f d) = oldest_right now d"
  by (simp_all add: set_request_def oldest_right_def)

lemma set_request_get [simp]:
  "hm_get (db_join_requests (set_request i st f d)) j
     = map_option (\<lambda>r. if j = i \<and> jr_status r = st then f r else r) (hm_get (db_join_requests d) j)"
  "hm_ok (db_join_requests (set_request i st f d)) = hm_ok (db_join_requests d)"
  by (simp_all add: set_request_def)

lemma consume_right_frame [simp]:
  "db_join_requests (consume_right i n now d) = db_join_requests d"
  "db_members (consume_right i n now d) = db_members d" "db_invites (consume_right i n now d) = db_invites d"
  "db_credentials (consume_right i n now d) = db_credentials d" "db_principals (consume_right i n now d) = db_principals d"
  "hm_ok (db_stock (consume_right i n now d)) = hm_ok (db_stock d)"
  by (simp_all add: consume_right_def)

lemma principal_credential_desk [simp]:
  "db_join_requests (insert_principal_credential sha role token name kind at label d) = db_join_requests d"
  "db_stock (insert_principal_credential sha role token name kind at label d) = db_stock d"
  by (simp_all add: insert_principal_credential_def Let_def)

definition name_taken :: "db \<Rightarrow> string \<Rightarrow> bool" where
  "name_taken d name = (\<exists>m \<in> set (hm_values (db_members d)). me_name m = name \<and> me_revoked_at m = None)"

definition approved_row :: "string \<Rightarrow> string \<Rightarrow> u64 \<Rightarrow> join_row \<Rightarrow> join_row" where
  "approved_row mb who now r = r\<lparr>jr_status := ''approved'', jr_mb_token := Some mb, jr_decided_by := Some who,
     jr_decided_at := Some now\<rparr>"

definition new_member :: "string \<Rightarrow> string \<Rightarrow> u64 \<Rightarrow> join_row \<Rightarrow> member_row" where
  "new_member mb who now r = \<lparr> me_name = jr_name r, me_kind = jr_kind r, me_joined_at = now,
     me_admitted_by = who, me_revoked_at = None \<rparr>"

lemma approve_rows_okD:
  assumes "approve_rows sha i mb who now d = Ok (a, d')"
  obtains r right where "hm_get (db_join_requests d) i = Some r" and "jr_status r = ''pending''"
    and "\<not> name_taken d (jr_name r)" and "oldest_right now d = Some right" and "\<not> hm_contains (db_members d) mb"
    and "a = Committed (membership_of_row mb (new_member mb who now r))"
    and "db_stock d' = db_stock (consume_right right (jr_name r) now d)"
    and "db_invites d' = db_invites d" and "db_members d' = hm_insert mb (new_member mb who now r) (db_members d)"
    and "hm_ok (db_join_requests d') = hm_ok (db_join_requests d)"
    and "\<And>j. hm_get (db_join_requests d') j
       = (if j = i then Some (approved_row mb who now r) else hm_get (db_join_requests d) j)"
    and "\<And>d0. d0 = consume_right right (jr_name r) now (set_request i ''pending'' (\<lambda>r. r\<lparr>jr_status := ''approving''\<rparr>) d) \<Longrightarrow>
       db_principals d' = db_principals (insert_principal_credential sha ''member'' mb (jr_name r) (jr_kind r) now
         ''Member access'' (d0\<lparr>db_members := hm_insert mb (new_member mb who now r) (db_members d0)\<rparr>))
       \<and> db_credentials d' = db_credentials (insert_principal_credential sha ''member'' mb (jr_name r) (jr_kind r) now
         ''Member access'' (d0\<lparr>db_members := hm_insert mb (new_member mb who now r) (db_members d0)\<rparr>))"
proof -
  from assms obtain r right where r: "hm_get (db_join_requests d) i = Some r" "jr_status r = ''pending''"
    "oldest_right now d = Some right"
    by (auto simp: approve_rows_def Let_def split: option.splits if_splits)
  show thesis
    by (rule that [of r right])
      (use assms r in \<open>auto simp: approve_rows_def Let_def name_taken_def approved_row_def new_member_def
        membership_of_row_def consume_right_def option.map_comp comp_def map_option_case
        split: if_splits option.splits\<close>)
qed

lemma approve_atomic_cases:
  assumes "approve_join_request_atomic sha i mb who now s = (a, s')"
  obtains (committed) m d d' where "a = Committed m" and "sto_conn s = Some d"
    and "approve_rows sha i mb who now d = Ok (a, d')" and "sto_conn s' = Some d'"
  | (refused) "\<And>m. a \<noteq> Committed m" and "sto_conn s' = sto_conn s"
proof -
  obtain x s1 where x: "answer_txn AtFailed AtFailed (approve_rows sha i mb who now) s = (x, s1)" by force
  have refuse: "approve_rows sha i mb who now d \<noteq> Err (Committed m)" for d m
    by (auto simp: approve_rows_def Let_def split: option.splits)
  show thesis
  proof (cases x)
    case (Inl e)
    then have "a = e" "s' = s1" using assms x by (simp_all add: approve_join_request_atomic_def)
    moreover have "e \<noteq> Committed m" for m using answer_txn_err_body [OF x [unfolded Inl]] refuse by blast
    ultimately show thesis using refused answer_txn_errD [OF x [unfolded Inl]] by blast
  next
    case (Inr b)
    then have "a = b" and "s' = s1" using assms x by (simp_all add: approve_join_request_atomic_def)
    moreover obtain d d' where "sto_conn s = Some d" and ok: "approve_rows sha i mb who now d = Ok (b, d')"
      and "sto_conn s1 = Some d'" using answer_txn_okD [OF x [unfolded Inr]] by blast
    moreover obtain m where "b = Committed m" using ok by (rule approve_rows_okD)
    ultimately show thesis using committed by blast
  qed
qed

subsection \<open>The registry of members\<close>

lemma approve_state:
  assumes "access_state h"
  shows "access_state (snd (approve_join_request sha i who now h))"
proof -
  define mb where "mb = replacen_one ''dv_'' ''mb_'' (''dv_'' @ h_rng h 0)"
  define h1 where "h1 = h\<lparr>h_rng := \<lambda>n. h_rng h (Suc n)\<rparr>"
  have s1: "access_state h1" unfolding h1_def by (rule access_state_conn [OF assms]) simp_all
  obtain a h2 where st: "with_store (approve_join_request_atomic sha i mb who now) h1 = (a, h2)" by force
  then obtain s where f: "approve_join_request_atomic sha i mb who now (h_store h1) = (a, s)"
    and h2: "h2 = h1\<lparr>h_store := s\<rparr>" by (rule with_storeE)
  have run: "snd (approve_join_request sha i who now h) = (case a of
      Committed m \<Rightarrow> h2\<lparr>h_members := hm_insert (mb_token m) m (h_members h2)\<rparr> | _ \<Rightarrow> h2)"
    using st by (simp add: approve_join_request_def new_invite_token_def secure_token_def mb_def h1_def
        split: ApproveTxn.split)
  from f show ?thesis
  proof (cases rule: approve_atomic_cases)
    case (committed m d d')
    from committed(3) obtain r where "db_invites d' = db_invites d"
      "db_members d' = hm_insert mb (new_member mb who now r) (db_members d)"
      "m = membership_of_row mb (new_member mb who now r)"
      by (rule approve_rows_okD) (use committed(1) in simp)
    then have "access_state (h2\<lparr>h_members := hm_insert (mb_token m) m (h_members h2)\<rparr>)"
      by (intro member_added_state [OF s1, where t = mb and m = m and row = "new_member mb who now r"])
        (use committed in \<open>auto simp: h2 membership_of_row_def new_member_def\<close>)
    then show ?thesis using run committed(1) by simp
  next
    case refused
    have "access_state h2" by (rule access_state_conn [OF s1]) (simp_all add: h2 refused(2))
    then show ?thesis using run refused(1) by (simp split: ApproveTxn.split)
  qed
qed

lemma desk_ops_state:
  assumes "access_state h"
  shows "access_state (snd (deny_join_request i who now h))"
    and "access_state (snd (claim_join_request_bootstrap sha i secret now h))"
    and "access_state (snd (ack_join_request_bootstrap sha i secret now h))"
  by (rule access_state_same [OF assms],
      auto simp: deny_join_request_def store_deny_join_request_def claim_join_request_bootstrap_def
        store_claim_join_request_bootstrap_def ack_join_request_bootstrap_def store_ack_join_request_bootstrap_def
        with_store_def run_write_def run_txn_def case_prod_beta
      split: option.splits list.splits bool.splits sum.splits)+

lemma secure_tokens_frame:
  "secure_tokens prefix n h = (ts, h') \<Longrightarrow> \<exists>rng. h' = h\<lparr>h_rng := rng\<rparr>"
proof (induction n arbitrary: h ts)
  case 0
  then show ?case by (intro exI [of _ "h_rng h"]) simp
next
  case (Suc n)
  then show ?case by (fastforce simp: secure_token_def split: prod.splits)
qed

lemma mint_rows_frame:
  "mint_rows who created expires ids n d = Ok (m, d') \<Longrightarrow> \<exists>st. d' = d\<lparr>db_stock := st\<rparr>"
proof (induction ids arbitrary: n d)
  case Nil
  then show ?case by (intro exI [of _ "db_stock d"]) simp
next
  case (Cons i ids)
  then show ?case by (fastforce split: if_splits)
qed

lemma mint_state:
  assumes "access_state h"
  shows "access_state (snd (mint_admission_stock count ttl now h))"
proof -
  obtain ids h1 where t: "secure_tokens ''adm_'' count h = (ids, h1)" by force
  then obtain rng where h1: "h1 = h\<lparr>h_rng := rng\<rparr>" using secure_tokens_frame by blast
  show ?thesis
    by (rule access_state_same [OF assms])
      (auto simp: mint_admission_stock_def mint_admission_rights_def with_store_def t h1 Let_def case_prod_beta run_txn_def
        split: option.splits list.splits bool.splits sum.splits dest!: mint_rows_frame)
qed

lemma attachment_refs_registry:
  "write_attachment_refs m as d = Inr d' \<Longrightarrow> db_invites d' = db_invites d \<and> db_members d' = db_members d"
  by (induction m as d rule: write_attachment_refs.induct)
    (auto simp: write_attachment_ref_def split: sum.splits if_splits)

lemma insert_message_registry:
  assumes "sto_conn (snd (insert_message_with_room m mode settings operation s)) = Some d'"
  shows "\<exists>d. sto_conn s = Some d \<and> db_invites d' = db_invites d \<and> db_members d' = db_members d"
proof -
  have core: "insert_core m operation d1 = Ok d2 \<Longrightarrow> db_invites d2 = db_invites d1 \<and> db_members d2 = db_members d1" for d1 d2
    by (auto simp: insert_core_def insert_message_row_def reset_silence_care_def retire_condition_def ack_rows_def
        resolve_rows_def delete_mark_def Let_def split: sum.splits if_splits dest!: attachment_refs_registry)
  show ?thesis using assms
    by (auto simp: insert_message_with_room_def run_txn_def write_room_state_def
        split: option.splits list.splits bool.splits sum.splits if_splits dest!: core)
qed

lemma announce_state:
  assumes "access_state h"
  shows "access_state (announce_join_request name kind now h)"
  by (rule access_state_same [OF assms])
    (auto simp: announce_join_request_def Let_def with_store_def case_prod_beta dest!: insert_message_registry)

lemma create_state:
  assumes "access_state h"
  shows "access_state (snd (create_join_request sha name kind ip now h))"
proof -
  obtain b h1 where rate: "join_request_rate_ok ip now h = (b, h1)" by force
  have s1: "access_state h1"
    by (rule access_state_conn [OF assms]) (use rate in \<open>auto simp: join_request_rate_ok_def Let_def split: if_splits\<close>)
  have "access_state (h1\<lparr>h_rng := rng, h_store := snd (store_create_join_request sha i secret name kind now (h_store h1))\<rparr>)"
    for i secret rng
    by (rule access_state_same [OF s1])
      (auto simp: store_create_join_request_def run_txn_def split: option.splits list.splits bool.splits if_splits)
  then show ?thesis using s1
    by (auto simp: create_join_request_def rate secure_token_def with_store_def Let_def case_prod_beta
        intro!: announce_state split: bool.split)
qed

subsection \<open>Who touches the desk\<close>

definition desk_rows :: "db \<Rightarrow> (string, join_row) hashmap \<times> (string, stock_row) hashmap" where
  "desk_rows d = (db_join_requests d, db_stock d)"

lemma attachment_refs_desk:
  "write_attachment_refs m as d = Inr d' \<Longrightarrow> db_join_requests d' = db_join_requests d \<and> db_stock d' = db_stock d"
  by (induction m as d rule: write_attachment_refs.induct)
    (auto simp: write_attachment_ref_def split: sum.splits if_splits)

lemma retire_condition_desk [simp]:
  "db_join_requests (retire_condition room key at d) = db_join_requests d"
  "db_stock (retire_condition room key at d) = db_stock d"
  by (simp_all add: retire_condition_def ack_rows_def resolve_rows_def delete_mark_def Let_def)

lemma insert_core_desk: "insert_core m operation d = Ok d' \<Longrightarrow> desk_rows d' = desk_rows d"
  by (auto simp: insert_core_def insert_message_row_def reset_silence_care_def desk_rows_def
      split: sum.splits if_splits dest!: attachment_refs_desk)

interpretation counter: db_law "\<lambda>d. desk_rows d = v" for v
  by unfold_locales
    (auto simp: desk_rows_def write_room_state_def pause_room_attentions_def ack_rows_def retire_room_attentions_def
      resolve_rows_def revoke_davets_where_def Let_def seat_operator_def insert_assignment_def appoint_rows_def
      close_seat_def revoke_rows_def
      split: if_splits sum.splits option.splits dest: insert_core_desk [unfolded desk_rows_def])

abbreviation desk_is :: "(string, join_row) hashmap \<times> (string, stock_row) hashmap \<Rightarrow> hub \<Rightarrow> bool" where
  "desk_is \<equiv> counter.durable"

lemma desk_is_def: "desk_is v h = (\<exists>d. sto_conn (h_store h) = Some d \<and> desk_rows d = v)"
  by (simp add: counter.durable_def counter.stored_def)

lemma suspend_desk [simp]: "desk_rows (suspend_rows prin token reason at d) = desk_rows d"
  by (simp add: suspend_rows_def revoke_davets_where_def desk_rows_def)

lemma counter_suspend:
  assumes "counter.stored v s"
  shows "counter.stored v (snd (suspend_member sha token reason at s))"
    "counter.stored v (snd (resume_member sha token s))"
proof -
  have "counter.stored v (snd (run_txn False (\<lambda>d. case ordinary_principal sha d token of None \<Rightarrow> Ok (False, d)
       | Some prin \<Rightarrow> Ok (True, suspend_rows prin token reason at d)) s))"
    by (rule counter.stored_txn [OF assms]) (auto split: option.splits)
  then show "counter.stored v (snd (suspend_member sha token reason at s))"
    using assms by (simp add: suspend_member_def)
  show "counter.stored v (snd (resume_member sha token s))" unfolding resume_member_def
    by (simp add: assms, intro impI counter.stored_txn [OF assms]) (auto simp: desk_rows_def split: if_splits)
qed

lemma counter_stored:
  assumes "counter.stored v s"
  shows "counter.stored v (snd (add_member sha m s))" "counter.stored v (snd (insert_invite dv s))"
    "counter.stored v (snd (store_revoke_invite token at s))"
    "counter.stored v (snd (revoke_member_cascade sha token at s))"
  unfolding add_member_def insert_invite_def store_revoke_invite_def revoke_member_cascade_def
  by (rule counter.stored_write [OF assms] counter.stored_txn [OF assms];
      auto simp: desk_rows_def revoke_principal_credential_def revoke_davets_where_def Let_def
      split: if_splits sum.splits)+

lemma desk_sessions [simp]:
  "desk_is v (revoke_sessions_for_member t h) = desk_is v h"
  "desk_is v (close_connections room name h) = desk_is v h"
  "desk_is v (fold (\<lambda>i. close_connections (iv_room i) (iv_name i)) ds h) = desk_is v h"
  by (simp_all add: desk_is_def revoke_sessions_for_member_def close_connections_def split: option.split)

lemma desk_fields [simp]:
  "desk_is v (h\<lparr>h_members := ms\<rparr>) = desk_is v h" "desk_is v (h\<lparr>h_invites := is\<rparr>) = desk_is v h"
  "desk_is v (h\<lparr>h_rng := rng\<rparr>) = desk_is v h" "desk_is v (h\<lparr>h_lobby_tx := l\<rparr>) = desk_is v h"
  "desk_is v (h\<lparr>h_members := ms, h_lobby_tx := l\<rparr>) = desk_is v h"
  "desk_is v (h\<lparr>h_next_id := n\<rparr>) = desk_is v h" "desk_is v (h\<lparr>h_join_create_times := ts\<rparr>) = desk_is v h"
  by (simp_all add: desk_is_def)

lemma desk_members:
  assumes "desk_is v h"
  shows "desk_is v (snd (admit_member sha name kind who now h))"
    and "desk_is v (snd (invite_member_to_room member room who now h))"
    and "desk_is v (snd (revoke_invite token now h))"
    and "desk_is v (snd (revoke_member sha token now h))"
    and "desk_is v (snd (set_member_suspended sha ref suspended reason now h))"
  using assms
  unfolding admit_member_def invite_member_to_room_def add_invite_def new_invite_token_def secure_token_def
    revoke_invite_def revoke_member_def set_member_suspended_def Let_def
  by (auto split: prod.splits sum.splits option.splits bool.splits dest!: counter.durable_store
      intro: counter_stored counter_suspend counter.durable_store [OF prod.collapse [symmetric]])

end
