(* ===== verification/Access_Properties.thy ===== *)
theory Access_Properties
  imports Admission_Laws Rooms_Properties
begin

text \<open>
  What access control promises: the registries survive a restart, a loca hands out at
  most seven davets, the door opens only to rank, to the operator, to a davet or a
  session of that very loca, a ban shuts it, and ending or suspending a membership ends
  everything it authorized.
\<close>

subsection \<open>Members and davets as a transition system\<close>

inductive access_step :: "hub \<Rightarrow> hub \<Rightarrow> bool" where
  admit_member: "access_step h (snd (admit_member sha name kind by now h))"
| invite_member_to_room: "access_step h (snd (invite_member_to_room member room by now h))"
| revoke_invite: "access_step h (snd (revoke_invite token now h))"
| revoke_invites_for: "access_step h (snd (revoke_invites_for room name now h))"
| revoke_member: "access_step h (snd (revoke_member sha token now h))"
| set_member_suspended: "access_step h (snd (set_member_suspended sha ref suspended reason now h))"
| mint_admission_stock: "access_step h (snd (mint_admission_stock count ttl now h))"
| create_join_request: "access_step h (snd (create_join_request sha name kind ip now h))"
| approve_join_request: "access_step h (snd (approve_join_request sha i by now h))"
| deny_join_request: "access_step h (snd (deny_join_request i by now h))"
| claim_join_request_bootstrap: "access_step h (snd (claim_join_request_bootstrap sha i secret now h))"
| ack_join_request_bootstrap: "access_step h (snd (ack_join_request_bootstrap sha i secret now h))"
| moderate: "access_step h (snd (moderate room action name now h))"
| enter_decision: "access_step h (snd (enter_decision sha now clock room admin_tok davet_tok session hint h))"
| faults: "access_step h (h\<lparr>h_store := (h_store h)\<lparr>sto_faults := fs\<rparr>\<rparr>)"

lemma ban_state:
  "access_state h \<Longrightarrow> access_state (snd (with_store (set_ban room name kind at) h))"
  "access_state h \<Longrightarrow> access_state (snd (with_store (clear_ban room name kind) h))"
  by (rule access_state_same, assumption,
      auto simp: with_store_def set_ban_def clear_ban_def run_write_def run_txn_def case_prod_beta
      split: option.splits list.splits bool.splits)+

lemma persist_moderation_state:
  assumes "access_state h"
  shows "access_state (snd (persist_moderation room action name now h))"
proof (cases action)
  case Ban
  obtain x h1 where st: "with_store (set_ban room name ''ban'' now) h = (x, h1)" by force
  then have "access_state h1" using ban_state(1) [OF assms, of room name "''ban''" now] by simp
  then show ?thesis using Ban st by (auto simp: persist_moderation_def intro: revoke_invites_for_state split: sum.split)
qed (use assms in \<open>auto simp: persist_moderation_def intro: ban_state revoke_invites_for_state\<close>)

lemma moderate_state:
  assumes "access_state h"
  shows "access_state (snd (moderate room action name now h))"
proof -
  obtain x h1 where p: "persist_moderation room action name now h = (x, h1)" by force
  then have h1: "access_state h1" using persist_moderation_state [OF assms, of room action name now] by simp
  have "access_state (put_room room r h1)" for r by (rule access_state_conn [OF h1]) simp_all
  then show ?thesis using assms p h1 by (auto simp: moderate_def Let_def split: sum.split)
qed

lemma access_step_keeps: "access_state h \<Longrightarrow> access_step h h' \<Longrightarrow> access_state h'"
proof (rotate_tac, induction rule: access_step.induct)
  case (enter_decision h sha now clock room a t session hint)
  then show ?case using glanced_state glanced_enter [OF prod.collapse [symmetric]] by blast
next
  case (faults h fs)
  then show ?case by (rule access_state_conn) simp_all
qed (simp_all add: admit_member_state invite_member_state revoke_invite_state revoke_invites_for_state
    revoke_member_state suspend_state moderate_state mint_state create_state approve_state desk_ops_state)

interpretation registry: step_invariant access_step access_state
  by unfold_locales (rule access_step_keeps)

subsection \<open>A small building\<close>

definition sample_sha :: digest where
  "sample_sha s = map of_char s"

definition sample_admitted :: hub where
  "sample_admitted = snd (admit_member sample_sha ''bob'' ''agent'' ''ada'' 5 sample_hub)"

definition sample_invited :: hub where
  "sample_invited = snd (invite_member_to_room ''mb_t0'' ''loca'' ''ada'' 6 sample_admitted)"

lemma sample_hub_access: "access_state sample_hub"
  by (simp add: access_state_def access_mirrored_def keyed_def roomy_def davets_of_def sample_hub_def
      sample_store_def empty_db_def live_davet_def live_member_def hm_values_def)

lemma sample_invited_reached: "access_step\<^sup>*\<^sup>* sample_hub sample_invited"
  unfolding sample_invited_def sample_admitted_def
  by (rule rtranclp.rtrancl_into_rtrancl [OF rtranclp.rtrancl_into_rtrancl [OF rtranclp.rtrancl_refl]])
    (rule access_step.admit_member access_step.invite_member_to_room)+

lemma sample_invited_state: "access_state sample_invited"
  by (rule registry.reach_keeps [OF sample_invited_reached sample_hub_access])

lemma loaded_registries:
  assumes s: "access_state h" and "is_persistent (h_store h)"
  shows "set (load_invites (h_store h)) = set (hm_values (h_invites h))
     \<and> set (load_members (h_store h)) = set (hm_values (h_members h))"
proof -
  obtain d where d: "sto_conn (h_store h) = Some d" using assms(2) by (auto simp: is_persistent_def)
  have ok: "hm_ok (db_invites d)" "hm_ok (db_members d)" "hm_ok (h_invites h)" "hm_ok (h_members h)"
    and iv: "\<And>t. hm_get (h_invites h) t = live_davet d t" and mb: "\<And>t. hm_get (h_members h) t = live_member d t"
    using s d by (auto simp: access_state_def access_mirrored_def keyed_def)
  have "i \<in> set (load_invites (h_store h)) \<longleftrightarrow> (\<exists>t. live_davet d t = Some i)" for i
  proof -
    have "i \<in> set (load_invites (h_store h)) \<longleftrightarrow>
        (\<exists>r. r \<in> set (hm_values (db_invites d)) \<and> in_revoked_at r = None \<and> in_invite r = i)"
      by (auto simp: load_invites_def d)
    also have "\<dots> \<longleftrightarrow> (\<exists>t r. hm_get (db_invites d) t = Some r \<and> in_revoked_at r = None \<and> in_invite r = i)"
      unfolding hm_values_iff [OF ok(1)] by blast
    also have "\<dots> \<longleftrightarrow> (\<exists>t. live_davet d t = Some i)"
      unfolding live_davet_def by (rule ex_cong1) (auto split: option.splits)
    finally show ?thesis .
  qed
  moreover have "m \<in> set (load_members (h_store h)) \<longleftrightarrow> (\<exists>t. live_member d t = Some m)" for m
  proof -
    have "m \<in> set (load_members (h_store h)) \<longleftrightarrow>
        (\<exists>t r. (t, r) \<in> set (db_members d) \<and> me_revoked_at r = None \<and> membership_of_row t r = m)"
      by (auto simp: load_members_def d membership_of_row_def)
    also have "\<dots> \<longleftrightarrow> (\<exists>t. live_member d t = Some m)"
      unfolding hm_entry_iff [OF ok(2)] live_member_def by (rule ex_cong1) (auto split: option.splits)
    finally show ?thesis .
  qed
  ultimately show ?thesis using hm_values_iff [OF ok(3)] hm_values_iff [OF ok(4)] iv mb by auto
qed

lemmas loaded_davets = loaded_registries [THEN conjunct1]

text \<open>
  C16: memberships and davets survive a restart.  After any sequence of admissions, join
  requests and their decisions, calls, revocations, suspensions, moderation and door
  checks with any storage failures, the
  live davets and members a restart would load from the tables are exactly the ones the
  running server honours.
\<close>

theorem access_survives_restart:
  assumes "access_state h" and "access_step\<^sup>*\<^sup>* h h'" and "is_persistent (h_store h')"
  shows "set (load_invites (h_store h')) = set (hm_values (h_invites h'))
     \<and> set (load_members (h_store h')) = set (hm_values (h_members h'))"
  by (rule loaded_registries [OF registry.reach_keeps [OF assms(2,1)] assms(3)])

theorem access_survives_restart_witness:
  "length (hm_values (h_invites sample_invited)) = 1
     \<and> set (load_invites (h_store sample_invited)) = set (hm_values (h_invites sample_invited))"
proof -
  have "is_persistent (h_store sample_invited)" "length (hm_values (h_invites sample_invited)) = 1" by code_simp+
  with access_survives_restart [OF sample_hub_access sample_invited_reached] show ?thesis by blast
qed



subsection \<open>The door\<close>

lemma find_in: "find p xs = Some x \<Longrightarrow> x \<in> set xs"
  by (auto simp: find_Some_iff)

lemma find_holds: "find p xs = Some x \<Longrightarrow> p x"
  by (auto simp: find_Some_iff)

lemma glanced_views:
  assumes "glanced h h'"
  shows "invite_by_token h' t = invite_by_token h t" "invite_for h' room t2 = invite_for h room t2"
    "door_name h' a davet session hint = door_name h a davet session hint"
    "operates h' room prin = operates h room prin" "is_banned h' room name = is_banned h room name"
    "is_member h' t2 = is_member h t2" "session_opens h' room session = session_opens h room session"
    "h_members h' = h_members h"
proof -
  obtain s where h': "h' = h\<lparr>h_store := s\<rparr>" and u: "store_used (h_store h) s"
    using assms by (auto simp: glanced_def)
  show iv: "invite_by_token h' t = invite_by_token h t" for t
    by (simp add: invite_by_token_def member_suspended_def h' store_used_views [OF u] split: option.split)
  then show "invite_for h' room t2 = invite_for h room t2" by (simp add: invite_for_def split: option.split)
  show "door_name h' a davet session hint = door_name h a davet session hint"
    by (simp add: door_name_def iv cong: option.case_cong)
  show "operates h' room prin = operates h room prin"
    by (simp add: operates_def h' store_used_views [OF u])
qed (use assms in \<open>auto simp: glanced_def is_banned_def is_member_def session_opens_def get_room_def
    cong: option.case_cong\<close>)





text \<open>What moderation does to the registries before the room is changed.\<close>

lemma revoke_invites_for_effect:
  assumes h: "access_state h" and "revoke_invites_for room name now h = (Ok u, h')"
  shows "hm_get (h_invites h') t = drop_if (\<lambda>i. iv_room i = room \<and> iv_name i = name) (hm_get (h_invites h) t)"
    and "sto_conn (h_store h) = Some d \<Longrightarrow> \<exists>d'. sto_conn (h_store h') = Some d' \<and> db_bans d' = db_bans d"
proof -
  let ?p = "\<lambda>i. iv_room i = room \<and> iv_name i = name"
  let ?ds = "filter ?p (hm_values (h_invites h))"
  have k: "keyed h" using h by (simp add: access_state_def)
  consider "?ds = []" "h' = h" | s where "?ds \<noteq> []" "store_revoke_invites_for room name now (h_store h) = (Ok (), s)"
    "h' = fold end_davet ?ds (drop_davets ?ds (h\<lparr>h_store := s\<rparr>))"
    using assms(2) by (auto simp: revoke_invites_for_def Let_def split: if_splits prod.splits sum.splits elim!: with_storeE)
  then have "hm_get (h_invites h') t = drop_if ?p (hm_get (h_invites h) t)
      \<and> (sto_conn (h_store h) = Some d \<longrightarrow> (\<exists>d'. sto_conn (h_store h') = Some d' \<and> db_bans d' = db_bans d))"
  proof cases
    case 1
    have "\<not> ?p i" if "hm_get (h_invites h) t = Some i" for i
      using 1(1) hm_values_get [OF that] by (auto simp: filter_empty_conv)
    with 1 show ?thesis by (auto simp: drop_if_def split: option.split)
  next
    case (2 s)
    have "hm_get (h_invites (drop_davets ?ds (h\<lparr>h_store := s\<rparr>))) t = drop_if ?p (hm_get (h_invites h) t)"
      using drop_davets_get [of "h\<lparr>h_store := s\<rparr>" ?p t] k by (simp add: keyed_def)
    moreover have "sto_conn s = map_option (revoke_davets_where ?p now) (sto_conn (h_store h))"
      using run_write_okD [OF 2(2) [unfolded store_revoke_invites_for_def]] by simp
    ultimately show ?thesis using 2(3) by (auto simp: revoke_davets_where_def)
  qed
  then show "hm_get (h_invites h') t = drop_if ?p (hm_get (h_invites h) t)"
    and "sto_conn (h_store h) = Some d \<Longrightarrow> \<exists>d'. sto_conn (h_store h') = Some d' \<and> db_bans d' = db_bans d" by blast+
qed

lemma ban_effect:
  assumes h: "access_state h" and "\<not> is_deleted h room" and "moderate room Ban name now h = (Ok st, h')"
  obtains h1 where "h' = put_room room (moderate_room Ban name (room_mut room h1)) h1"
    and "\<And>t. hm_get (h_invites h') t = drop_if (\<lambda>i. iv_room i = room \<and> iv_name i = name) (hm_get (h_invites h) t)"
    and "is_persistent (h_store h) \<longrightarrow> (\<exists>d'. sto_conn (h_store h') = Some d' \<and> hm_contains (db_bans d') (room, name, ''ban''))"
proof -
  from assms(2,3) obtain h0 h1 u where s0: "with_store (set_ban room name ''ban'' now) h = (Ok (), h0)"
    and r: "revoke_invites_for room name now h0 = (Ok u, h1)"
    and h': "h' = put_room room (moderate_room Ban name (room_mut room h1)) h1"
    by (auto simp: moderate_def persist_moderation_def Let_def split: prod.splits sum.splits)
  obtain s where f: "set_ban room name ''ban'' now (h_store h) = (Ok (), s)" and h0: "h0 = h\<lparr>h_store := s\<rparr>"
    using s0 by (auto elim!: with_storeE)
  have st0: "access_state h0" using ban_state(1) [OF h, of room name "''ban''" now] s0 by simp
  show thesis
  proof (rule that [OF h'])
    show "hm_get (h_invites h') t = drop_if (\<lambda>i. iv_room i = room \<and> iv_name i = name) (hm_get (h_invites h) t)" for t
      using revoke_invites_for_effect(1) [OF st0 r, of t] by (simp add: h' h0)
  next
    show "is_persistent (h_store h) \<longrightarrow> (\<exists>d'. sto_conn (h_store h') = Some d' \<and> hm_contains (db_bans d') (room, name, ''ban''))"
    proof
    assume "is_persistent (h_store h)"
    then obtain d where d: "sto_conn (h_store h) = Some d" by (auto simp: is_persistent_def)
    then have "sto_conn (h_store h0) = Some (d\<lparr>db_bans := hm_insert (room, name, ''ban'') now (db_bans d)\<rparr>)"
      using run_write_okD [OF f [unfolded set_ban_def]] by (simp add: h0)
    from revoke_invites_for_effect(2) [OF st0 r this]
    show "\<exists>d'. sto_conn (h_store h') = Some d' \<and> hm_contains (db_bans d') (room, name, ''ban'')"
      by (auto simp: h' hm_contains_def)
    qed
  qed
qed

text \<open>
  C19: a ban takes effect at once and for good.  When the moderation of an open loca answers,
  the banned name has no seat and no live davet there, neither in memory nor in the
  tables, the ban itself is durable, and the door answers that name with a ban whatever
  davet, session or hint it comes with, unless the caller has rank.
\<close>

theorem ban_effective:
  assumes "access_state h" and "\<not> is_deleted h room" and "moderate room Ban name now h = (Ok st, h')"
    and "resolve_authority sha t clock admin_tok None h' = (who, h1)"
    and "\<not> (admin_tok \<noteq> None \<and> is_building_admin who)" and "\<not> (\<exists>s. session = Some s \<and> si_admin s)"
    and "door_name h' who davet_tok session hint = Some name"
  shows "fst (enter_decision sha t clock room admin_tok davet_tok session hint h') = Banned
     \<and> name \<in> set (ms_banned (mod_state_view h' room))
     \<and> (\<forall>i nm kind n. hm_get (r_members (room_mut room h')) i = Some (nm, kind, n) \<longrightarrow> nm \<noteq> name)
     \<and> (\<forall>i \<in> set (hm_values (h_invites h')). \<not> (iv_room i = room \<and> iv_name i = name))
     \<and> (is_persistent (h_store h) \<longrightarrow> (room, name, ''ban'') \<in> set (load_bans (h_store h'))
          \<and> (\<forall>i \<in> set (load_invites (h_store h')). \<not> (iv_room i = room \<and> iv_name i = name)))"
proof -
  let ?p = "\<lambda>i. iv_room i = room \<and> iv_name i = name"
  from assms(1-3) obtain h0 where h': "h' = put_room room (moderate_room Ban name (room_mut room h0)) h0"
    and iv: "\<And>t. hm_get (h_invites h') t = drop_if ?p (hm_get (h_invites h) t)"
    and db: "is_persistent (h_store h) \<longrightarrow> (\<exists>d'. sto_conn (h_store h') = Some d' \<and> hm_contains (db_bans d') (room, name, ''ban''))"
    by (rule ban_effect) (rule that, assumption+)
  have s': "access_state h'" using moderate_state [OF assms(1), of room Ban name now] assms(3) by simp
  have room: "get_room h' room = Some (moderate_room Ban name (room_mut room h0))" by (simp add: h')
  then have ban: "name \<in> set (r_banned (room_mut room h'))"
    by (simp add: moderate_room_def send_members_def eject_def set_hs_insert)
  have gone: "\<not> ?p i" if "i \<in> set (hm_values (h_invites h'))" for i
    using that s' iv hm_values_iff [of "h_invites h'" i]
    by (auto simp: access_state_def keyed_def drop_if_def split: option.splits if_splits)
  have seat: "nm \<noteq> name" if "hm_get (r_members (room_mut room h')) i = Some (nm, kind, n)" for i nm kind n
    using that room by (auto simp: moderate_room_def send_members_def eject_def hm_retain_def hm_get_def
        dest!: map_of_SomeD)
  have "is_banned h1 room name" using glanced_views(5) [OF glanced_authority [OF assms(4)]] ban room
    by (simp add: is_banned_def)
  then have "fst (enter_decision sha t clock room admin_tok davet_tok session hint h') = Banned"
    using assms(4-7) glanced_views(3) [OF glanced_authority [OF assms(4)]]
    by (auto simp: enter_decision_def Let_def split: option.splits)
  moreover have "(room, name, ''ban'') \<in> set (load_bans (h_store h')) \<and>
      set (load_invites (h_store h')) = set (hm_values (h_invites h'))" if "is_persistent (h_store h)"
    using db that loaded_davets [OF s'] by (auto simp: load_bans_def hm_keys_iff hm_contains_def is_persistent_def)
  ultimately show ?thesis using ban gone seat room by (auto simp: mod_state_view_def mod_state_of_def)
qed

theorem ban_effective_witness:
  "let h' = snd (moderate ''loca'' Ban ''bob'' 8 sample_invited)
   in fst (enter_decision sample_sha 9 9 ''loca'' None None None (Some ''bob'') h') = Banned
      \<and> (''loca'', ''bob'', ''ban'') \<in> set (load_bans (h_store h')) \<and> hm_values (h_invites h') = []"
proof -
  let ?m = "moderate ''loca'' Ban ''bob'' 8 sample_invited"
  let ?who = "fst (resolve_authority sample_sha 9 9 None None (snd ?m))"
  have "is_ok (fst ?m)" by code_simp
  then obtain st where m: "?m = (Ok st, snd ?m)" using ok_run by blast
  have a: "\<not> is_deleted sample_invited ''loca''" "is_persistent (h_store sample_invited)"
    "door_name (snd ?m) ?who None None (Some ''bob'') = Some ''bob''" "hm_values (h_invites (snd ?m)) = []" by code_simp+
  show ?thesis unfolding Let_def
    using ban_effective [OF sample_invited_state a(1) m prod.collapse [symmetric], where session = None and
        davet_tok = None and hint = "Some ''bob''" and sha = sample_sha and t = 9 and clock = 9 and admin_tok = None] a(2-4)
    by simp
qed

subsection \<open>The end of a membership\<close>





subsection \<open>Suspension\<close>

lemma suspend_effect:
  assumes "set_member_suspended sha ref True reason now h = (Ok True, h')"
    and "find (\<lambda>t. member_management_id sha t = ref) (hm_keys (h_members h)) = Some token"
  obtains d prin where "sto_conn (h_store h) = Some d" and "ordinary_principal sha d token = Some prin"
    and "sto_conn (h_store h') = Some (suspend_rows prin token reason now d)"
    and "h_members h' = h_members h"
    and "\<forall>s \<in> set (hm_values (h_sessions h')). si_member s \<noteq> Some token"
proof -
  obtain x h1 where st: "with_store (suspend_member sha token reason now) h = (x, h1)" by force
  then have "x = Ok True" and k: "h' = (let davets = invites_for_member h1 token;
           h2 = revoke_sessions_for_member token
                  (fold (\<lambda>i. close_connections (iv_room i) (iv_name i)) davets (drop_davets davets h1))
         in h2\<lparr>h_lobby_tx := h_lobby_tx h2 @ [MembershipSuspended token]\<rparr>)"
    using assms by (auto simp: set_member_suspended_def Let_def split: sum.splits bool.splits)
  with st obtain s where f: "suspend_member sha token reason now (h_store h) = (Ok True, s)"
    and h1: "h1 = h\<lparr>h_store := s\<rparr>" by (auto elim!: with_storeE)
  note h' = k [unfolded h1]
  from f obtain d prin where "sto_conn (h_store h) = Some d" "ordinary_principal sha d token = Some prin"
    "sto_conn s = Some (suspend_rows prin token reason now d)"
    by (auto simp: suspend_member_def run_txn_def split: if_splits option.splits list.splits bool.splits sum.splits)
  moreover have "\<forall>x \<in> set (hm_values (h_sessions h')). si_member x \<noteq> Some token"
    unfolding h' Let_def by (auto simp: revoke_sessions_for_member_def hm_retain_def hm_values_def)
  ultimately show thesis by (intro that) (simp_all add: h' Let_def revoke_sessions_for_member_def)
qed

lemma ordinary_principalD:
  assumes "ordinary_principal sha d token = Some prin"
  shows "member_live d token" "prin \<in> holders d (secret_hash sha token)"
    "\<exists>p. hm_get (db_principals d) prin = Some p \<and> pp_building_role p = ''member''"
proof -
  from assms obtain i c where f: "find (\<lambda>(_, c). cr_secret_hash c = secret_hash sha token) (db_credentials d) = Some (i, c)"
    and "member_live d token" and p: "cr_principal_id c = prin"
      "\<exists>p. hm_get (db_principals d) prin = Some p \<and> pp_building_role p = ''member''"
    by (auto simp: ordinary_principal_def credential_with_hash_def split: if_splits option.splits)
  then show "member_live d token" "\<exists>p. hm_get (db_principals d) prin = Some p \<and> pp_building_role p = ''member''"
    by simp_all
  have "c \<in> set (hm_values (db_credentials d))" "cr_secret_hash c = secret_hash sha token"
    using find_in [OF f] find_holds [OF f] by (force simp: hm_values_def)+
  then show "prin \<in> holders d (secret_hash sha token)" using p(1) by (auto simp: holders_def)
qed

lemma suspend_rows_fields:
  "db_suspensions (suspend_rows prin token reason at d) = (if hm_contains (db_suspensions d) token then db_suspensions d
      else hm_insert token (at, reason) (db_suspensions d))"
  "db_principals (suspend_rows prin token reason at d) = hm_map (\<lambda>i p. if i = prin
      then p\<lparr>pp_disabled_at := stamp at (pp_disabled_at p)\<rparr> else p) (db_principals d)"
  "db_credentials (suspend_rows prin token reason at d) = db_credentials d"
  "db_members (suspend_rows prin token reason at d) = db_members d"
  by (simp_all add: suspend_rows_def revoke_davets_where_def)

text \<open>
  A suspension cuts a member off without ending the membership, and lifting it gives
  access back.  While suspended, the member keeps his membership record, but he cannot be
  called into any loca, no davet of his is live in memory or in the tables, no session is
  bound to him, and his principal proves no authority.  When the suspension is lifted he
  is the same member as before with an active principal.
\<close>

theorem suspension_reversible:
  assumes "access_state h" and "find (\<lambda>t. member_management_id sha t = ref) (hm_keys (h_members h)) = Some token"
    and "set_member_suspended sha ref True reason now h = (Ok True, h')"
  shows "hm_get (h_members h') token = hm_get (h_members h) token \<and> member_of h' (Some token) = None
     \<and> \<not> is_ok (fst (invite_member_to_room token room by t h'))
     \<and> (\<forall>i \<in> set (hm_values (h_invites h')) \<union> set (load_invites (h_store h')). iv_member i \<noteq> token)
     \<and> (\<forall>s \<in> set (hm_values (h_sessions h')). si_member s \<noteq> Some token)
     \<and> (\<exists>d prin. sto_conn (h_store h) = Some d \<and> ordinary_principal sha d token = Some prin
          \<and> active_principal (h_store h') prin = None
          \<and> (\<forall>r h''. set_member_suspended sha ref False why t h' = (Ok r, h'') \<longrightarrow>
               r \<and> member_of h'' (Some token) = hm_get (h_members h) token
               \<and> active_principal (h_store h'') prin \<noteq> None))"
proof -
  from assms(3,2) obtain d prin where d: "sto_conn (h_store h) = Some d" and o: "ordinary_principal sha d token = Some prin"
    and d': "sto_conn (h_store h') = Some (suspend_rows prin token reason now d)"
    and mem: "h_members h' = h_members h" and ses: "\<forall>s \<in> set (hm_values (h_sessions h')). si_member s \<noteq> Some token"
    by (rule suspend_effect) (rule that, assumption+)
  let ?d = "suspend_rows prin token reason now d"
  have st: "access_state h'" using suspend_state [OF assms(1), of sha ref True reason now] assms(3) by simp
  have sus: "hm_contains (db_suspensions ?d) token" by (simp add: suspend_rows_fields hm_contains_def)
  then have off: "member_of h' (Some token) = None"
    by (simp add: member_of_def member_suspended_def store_member_suspended_def d')
  have none: "iv_member i \<noteq> token" if i: "i \<in> set (hm_values (h_invites h'))" for i
  proof -
    obtain t where "hm_get (h_invites h') t = Some i"
      using st i hm_values_iff [of "h_invites h'" i] by (auto simp: access_state_def keyed_def)
    then have "live_davet ?d t = Some i" using st d' by (simp add: access_state_def access_mirrored_def)
    then show ?thesis unfolding suspend_rows_def by (auto simp: drop_if_def split: option.splits if_splits)
  qed
  have load: "set (load_invites (h_store h')) = set (hm_values (h_invites h'))"
    using loaded_davets [OF st] d' by (simp add: is_persistent_def)
  have "\<exists>e. invite_gate h' token room = Err e" using off by (simp add: invite_gate_def)
  then have call: "\<not> is_ok (fst (invite_member_to_room token room by t h'))"
    by (auto simp: invite_member_to_room_def)
  have dead: "active_principal (h_store h') prin = None"
    by (auto simp: active_principal_def d' db_active_principal_def suspend_rows_fields stamp_def split: option.split)
  have again: "r \<and> member_of h'' (Some token) = hm_get (h_members h) token \<and> active_principal (h_store h'') prin \<noteq> None"
    if r: "set_member_suspended sha ref False why t h' = (Ok r, h'')" for r h''
  proof -
    have live: "member_live ?d token" using ordinary_principalD(1) [OF o] by (simp add: member_live_def suspend_rows_fields)
    have hold: "prin \<in> holders ?d (secret_hash sha token)"
      using ordinary_principalD(2) [OF o] by (simp add: holders_def suspend_rows_fields)
    obtain p where p: "hm_get (db_principals ?d) prin = Some p" "pp_building_role p = ''member''"
      using ordinary_principalD(3) [OF o] by (auto simp: suspend_rows_fields)
    from r obtain s where f: "resume_member sha token (h_store h') = (Ok r, s)" and h'': "h'' = h'\<lparr>h_store := s\<rparr>"
      using assms(2) mem by (auto simp: set_member_suspended_def elim!: with_storeE)
    then have "r" and s: "sto_conn s = Some (?d\<lparr>db_suspensions := hm_remove token (db_suspensions ?d),
         db_principals := hm_map (\<lambda>i p. if i \<in> holders ?d (secret_hash sha token)
              \<and> pp_building_role p = ''member'' then p\<lparr>pp_disabled_at := None\<rparr> else p) (db_principals ?d)\<rparr>)"
      using d' sus live by (auto simp: resume_member_def run_txn_def split: list.splits bool.splits)
    then show ?thesis using hold p mem
      by (simp add: h'' member_of_def member_suspended_def store_member_suspended_def active_principal_def
          db_active_principal_def hm_contains_def)
  qed
  show ?thesis using mem off call none load ses d o dead again by auto
qed

theorem suspension_reversible_witness:
  "let ref = member_management_id sample_sha ''mb_t0'';
       h' = snd (set_member_suspended sample_sha ref True ''noise'' 8 sample_invited)
   in member_of sample_invited (Some ''mb_t0'') \<noteq> None \<and> member_of h' (Some ''mb_t0'') = None
      \<and> hm_get (h_members h') ''mb_t0'' = hm_get (h_members sample_invited) ''mb_t0''"
proof -
  let ?ref = "member_management_id sample_sha ''mb_t0''"
  let ?r = "set_member_suspended sample_sha ?ref True ''noise'' 8 sample_invited"
  have a: "find (\<lambda>t. member_management_id sample_sha t = ?ref) (hm_keys (h_members sample_invited)) = Some ''mb_t0''"
    "fst ?r = Ok True" "member_of sample_invited (Some ''mb_t0'') \<noteq> None" by code_simp+
  from a(2) have r: "?r = (Ok True, snd ?r)" by (metis prod.collapse)
  show ?thesis unfolding Let_def using suspension_reversible [OF sample_invited_state a(1) r] a(3) by blast
qed

end
