(* ===== verification/Admission_Desk.thy ===== *)
theory Admission_Desk
  imports Admission_Laws
begin

text \<open>
  The admission desk as an abstract state machine over two partial maps, the requests
  and the admission rights, and the proof that every operation of the server is a
  sequence of its steps.  What has to hold of the desk is proved once, about the
  abstract machine.
\<close>

subsection \<open>The abstract desk\<close>

type_synonym desk = "(string \<rightharpoonup> join_row) \<times> (string \<rightharpoonup> stock_row)"

definition requests_with :: "string \<Rightarrow> desk \<Rightarrow> string set" where
  "requests_with st v = {i. \<exists>r. fst v i = Some r \<and> jr_status r = st}"

definition consumed_rights :: "desk \<Rightarrow> string set" where
  "consumed_rights v = {i. \<exists>k. snd v i = Some k \<and> sk_consumed_at k \<noteq> None}"

definition fresh_request :: "join_row \<Rightarrow> bool" where
  "fresh_request r = (jr_status r = ''pending'' \<and> jr_mb_token r = None \<and> jr_bootstrap_acked_at r = None)"

inductive desk_step :: "desk \<Rightarrow> desk \<Rightarrow> bool" where
  mint: "ks i = None \<Longrightarrow> sk_consumed_at k = None \<Longrightarrow> desk_step (q, ks) (q, ks(i \<mapsto> k))"
| ask: "q i = None \<Longrightarrow> fresh_request r \<Longrightarrow> \<forall>j r'. q j = Some r' \<longrightarrow> jr_status r' = ''pending'' \<longrightarrow> jr_name r' \<noteq> jr_name r
     \<Longrightarrow> card (requests_with ''pending'' (q, ks)) < MAX_PENDING_JOIN_REQUESTS
     \<Longrightarrow> desk_step (q, ks) (q(i \<mapsto> r), ks)"
| approve: "q i = Some r \<Longrightarrow> jr_status r = ''pending'' \<Longrightarrow> ks j = Some k \<Longrightarrow> right_available now k
     \<Longrightarrow> desk_step (q, ks) (q(i \<mapsto> approved_row mb who now r),
           ks(j \<mapsto> k\<lparr>sk_consumed_at := Some now, sk_consumed_by_name := Some (jr_name r)\<rparr>))"
| deny: "q i = Some r \<Longrightarrow> jr_status r = ''pending''
     \<Longrightarrow> desk_step (q, ks) (q(i \<mapsto> r\<lparr>jr_status := ''denied'', jr_decided_by := Some who, jr_decided_at := Some now\<rparr>), ks)"
| deliver: "q i = Some r \<Longrightarrow> desk_step (q, ks) (q(i \<mapsto> r\<lparr>jr_bootstrap_delivered_at := Some now\<rparr>), ks)"
| acknowledge: "q i = Some r \<Longrightarrow> jr_status r = ''approved''
     \<Longrightarrow> desk_step (q, ks) (q(i \<mapsto> r\<lparr>jr_bootstrap_acked_at := Some now, jr_mb_token := None\<rparr>), ks)"

definition row_ok :: "join_row \<Rightarrow> bool" where
  "row_ok r = (jr_status r \<in> {''pending'', ''approved'', ''denied''}
     \<and> (jr_mb_token r \<noteq> None \<longleftrightarrow> jr_status r = ''approved'' \<and> jr_bootstrap_acked_at r = None)
     \<and> (jr_status r = ''pending'' \<longrightarrow> jr_bootstrap_acked_at r = None))"

definition desk_ok :: "desk \<Rightarrow> bool" where
  "desk_ok v = (finite (dom (fst v)) \<and> finite (dom (snd v)) \<and> (\<forall>i r. fst v i = Some r \<longrightarrow> row_ok r)
     \<and> card (requests_with ''approved'' v) = card (consumed_rights v)
     \<and> card (requests_with ''pending'' v) \<le> MAX_PENDING_JOIN_REQUESTS
     \<and> (\<forall>i j r r'. fst v i = Some r \<longrightarrow> fst v j = Some r' \<longrightarrow> jr_status r = ''pending'' \<longrightarrow> jr_status r' = ''pending''
          \<longrightarrow> jr_name r = jr_name r' \<longrightarrow> i = j))"

lemma finite_requests [simp]: "finite (dom (fst v)) \<Longrightarrow> finite (requests_with st v)"
  by (rule finite_subset [of _ "dom (fst v)"]) (auto simp: requests_with_def)

lemma finite_consumed [simp]: "finite (dom (snd v)) \<Longrightarrow> finite (consumed_rights v)"
  by (rule finite_subset [of _ "dom (snd v)"]) (auto simp: consumed_rights_def)

lemma requests_update:
  "requests_with st (q(i \<mapsto> r), ks) = (if jr_status r = st then insert i (requests_with st (q, ks))
     else requests_with st (q, ks) - {i})"
  by (auto simp: requests_with_def)

lemma consumed_update:
  "consumed_rights (q, ks(i \<mapsto> k)) = (if sk_consumed_at k \<noteq> None then insert i (consumed_rights (q, ks))
     else consumed_rights (q, ks) - {i})"
  by (auto simp: consumed_rights_def)

lemma requests_rights [simp]: "requests_with st (q, ks(i \<mapsto> k)) = requests_with st (q, ks)"
  by (simp add: requests_with_def)

lemma consumed_requests [simp]: "consumed_rights (q(i \<mapsto> r), ks) = consumed_rights (q, ks)"
  by (simp add: consumed_rights_def)

lemma in_requests: "q i = Some r \<Longrightarrow> i \<in> requests_with st (q, ks) \<longleftrightarrow> jr_status r = st"
  by (simp add: requests_with_def)

lemma in_consumed: "ks i = Some k \<Longrightarrow> i \<in> consumed_rights (q, ks) \<longleftrightarrow> sk_consumed_at k \<noteq> None"
  by (simp add: consumed_rights_def)

lemma fresh_requests: "q i = None \<Longrightarrow> i \<notin> requests_with st (q, ks)"
  by (simp add: requests_with_def)

lemma fresh_consumed: "ks i = None \<Longrightarrow> i \<notin> consumed_rights (q, ks)"
  by (simp add: consumed_rights_def)

lemma desk_step_keeps:
  assumes "desk_ok v" and "desk_step v v'"
  shows "desk_ok v'"
  using assms(2,1)
proof (induction rule: desk_step.induct)
  case (mint ks i k q)
  then show ?case by (simp add: desk_ok_def consumed_update fresh_consumed)
next
  case (ask q i r ks)
  then have "row_ok r" "jr_status r = ''pending''" by (auto simp: fresh_request_def row_ok_def)
  with ask show ?case unfolding desk_ok_def
    by (simp add: requests_update fresh_requests) (metis option.inject)
next
  case (approve q i r ks j k now mb who)
  then have r: "row_ok r" by (auto simp: desk_ok_def)
  have fin: "finite (requests_with st (q, ks))" "finite (consumed_rights (q, ks))" for st
    using approve.prems by (auto simp: desk_ok_def)
  have "i \<notin> requests_with ''approved'' (q, ks)" "j \<notin> consumed_rights (q, ks)"
    using approve.hyps by (auto simp: in_requests in_consumed right_available_def)
  moreover have "row_ok (approved_row mb who now r)" using r approve.hyps by (auto simp: row_ok_def approved_row_def)
  moreover have "card (requests_with ''pending'' (q, ks) - {i}) \<le> card (requests_with ''pending'' (q, ks))"
    by (rule card_mono) (use fin in auto)
  ultimately show ?case using approve.prems fin unfolding desk_ok_def
    by (simp add: requests_update consumed_update approved_row_def split: if_splits)
next
  case (deny q i r ks now who)
  have fin: "finite (requests_with st (q, ks))" for st using deny.prems by (auto simp: desk_ok_def)
  have "i \<notin> requests_with ''approved'' (q, ks)" using deny.hyps by (simp add: in_requests)
  moreover have "row_ok (r\<lparr>jr_status := ''denied'', jr_decided_by := Some who, jr_decided_at := Some now\<rparr>)"
    using deny by (auto simp: desk_ok_def row_ok_def)
  moreover have "card (requests_with ''pending'' (q, ks) - {i}) \<le> card (requests_with ''pending'' (q, ks))"
    by (rule card_mono) (use fin in auto)
  ultimately show ?case using deny.prems unfolding desk_ok_def by (simp add: requests_update)
next
  case (deliver q i r ks now)
  have "requests_with st (q(i \<mapsto> r\<lparr>jr_bootstrap_delivered_at := Some now\<rparr>), ks) = requests_with st (q, ks)" for st
    using deliver.hyps by (auto simp: requests_with_def)
  moreover have "row_ok (r\<lparr>jr_bootstrap_delivered_at := Some now\<rparr>)" using deliver by (auto simp: desk_ok_def row_ok_def)
  ultimately show ?case using deliver unfolding desk_ok_def by simp blast
next
  case (acknowledge q i r ks now)
  have "requests_with st (q(i \<mapsto> r\<lparr>jr_bootstrap_acked_at := Some now, jr_mb_token := None\<rparr>), ks) = requests_with st (q, ks)" for st
    using acknowledge.hyps by (auto simp: requests_with_def)
  moreover have "row_ok (r\<lparr>jr_bootstrap_acked_at := Some now, jr_mb_token := None\<rparr>)"
    using acknowledge by (auto simp: desk_ok_def row_ok_def)
  ultimately show ?case using acknowledge unfolding desk_ok_def by simp
qed

interpretation desk: step_invariant desk_step desk_ok
  by unfold_locales (rule desk_step_keeps)

text \<open>The key of an approved request stays on the desk until its delivery is acknowledged.\<close>

definition key_waiting :: "string \<Rightarrow> string \<Rightarrow> string \<Rightarrow> desk \<Rightarrow> bool" where
  "key_waiting i hash key v = (\<exists>r. fst v i = Some r \<and> jr_status r = ''approved'' \<and> jr_secret_hash r = hash
     \<and> (jr_bootstrap_acked_at r = None \<and> jr_mb_token r = Some key
        \<or> jr_bootstrap_acked_at r \<noteq> None \<and> jr_mb_token r = None))"

interpretation key: step_invariant desk_step "key_waiting i hash key" for i hash key
proof unfold_locales
  fix v v'
  assume k: "key_waiting i hash key v" and "desk_step v v'"
  from this(2,1) show "key_waiting i hash key v'"
    by (induction rule: desk_step.induct) (auto simp: key_waiting_def)
qed

subsection \<open>The tables as an abstract desk\<close>

definition desk_of_db :: "db \<Rightarrow> desk" where
  "desk_of_db d = (hm_get (db_join_requests d), hm_get (db_stock d))"

definition desk_of :: "hub \<Rightarrow> desk" where
  "desk_of h = (case sto_conn (h_store h) of None \<Rightarrow> (Map.empty, Map.empty) | Some d \<Rightarrow> desk_of_db d)"

definition tables_ok :: "db \<Rightarrow> bool" where
  "tables_ok d = (hm_ok (db_join_requests d) \<and> hm_ok (db_stock d))"

definition desk_open :: "hub \<Rightarrow> bool" where
  "desk_open h = (\<exists>d. sto_conn (h_store h) = Some d \<and> tables_ok d)"

definition refines :: "hub \<Rightarrow> hub \<Rightarrow> bool" where
  "refines h h' = (desk_open h' \<and> desk_step\<^sup>*\<^sup>* (desk_of h) (desk_of h'))"

definition db_refines :: "db \<Rightarrow> db \<Rightarrow> bool" where
  "db_refines d d' = (tables_ok d' \<and> desk_step\<^sup>*\<^sup>* (desk_of_db d) (desk_of_db d'))"

lemma db_refines_refl [simp]: "tables_ok d \<Longrightarrow> db_refines d d"
  by (simp add: db_refines_def)

lemma refines_trans: "refines a b \<Longrightarrow> refines b c \<Longrightarrow> refines a c"
  unfolding refines_def by (meson rtranclp_trans)

lemma refines_same:
  assumes "desk_open h" and "\<And>v. desk_is v h \<Longrightarrow> desk_is v h'"
  shows "refines h h'"
proof -
  obtain d where d: "sto_conn (h_store h) = Some d" "tables_ok d" using assms(1) by (auto simp: desk_open_def)
  then have "desk_is (desk_rows d) h'" by (intro assms(2)) (simp add: desk_is_def)
  then obtain d' where "sto_conn (h_store h') = Some d'" "desk_rows d' = desk_rows d" unfolding desk_is_def by blast
  then show ?thesis using d
    by (auto simp: desk_rows_def refines_def desk_open_def tables_ok_def desk_of_def desk_of_db_def)
qed

lemma refines_db:
  assumes "desk_open h" and "\<And>d. sto_conn (h_store h) = Some d \<Longrightarrow> tables_ok d \<Longrightarrow>
     \<exists>d'. sto_conn (h_store h') = Some d' \<and> db_refines d d'"
  shows "refines h h'"
  using assms unfolding desk_open_def refines_def db_refines_def desk_of_def by fastforce

lemma store_refines:
  assumes "sto_conn s = Some d" and "tables_ok d" and "\<And>x d'. body d = Ok (x, d') \<Longrightarrow> db_refines d d'"
  shows "\<exists>d'. sto_conn (snd (run_txn v body s)) = Some d' \<and> db_refines d d'"
  using assms by (auto simp: run_txn_def split: list.split bool.split sum.split)

lemma hm_get_insert_fun: "hm_get (hm_insert i v m) = (hm_get m)(i \<mapsto> v)"
  by (rule ext) simp

lemma hm_get_map_fun:
  assumes "\<And>j v. hm_get m j = Some v \<Longrightarrow> f j v = (if j = i then v' else v)" and "hm_get m i = Some w"
  shows "hm_get (hm_map f m) = (hm_get m)(i \<mapsto> v')"
proof
  fix j
  show "hm_get (hm_map f m) j = ((hm_get m)(i \<mapsto> v')) j" using assms by (cases "hm_get m j") auto
qed

subsection \<open>Every operation is a sequence of desk steps\<close>

lemma mint_rows_refines:
  "tables_ok d \<Longrightarrow> mint_rows who created expires ids n d = Ok (m, d') \<Longrightarrow> db_refines d d'"
proof (induction ids arbitrary: n d)
  case (Cons i ids)
  let ?k = "\<lparr> sk_minted_by = who, sk_created_at = created, sk_expires_at = expires,
     sk_consumed_at = None, sk_consumed_by_name = None \<rparr>"
  let ?d = "d\<lparr>db_stock := hm_insert i ?k (db_stock d)\<rparr>"
  have new: "hm_get (db_stock d) i = None" and rest: "mint_rows who created expires ids (n + 1) ?d = Ok (m, d')"
    using Cons.prems(2) by (auto simp: hm_contains_def split: if_splits)
  have "desk_step (desk_of_db d) (desk_of_db ?d)"
    using desk_step.mint [of "hm_get (db_stock d)" i ?k "hm_get (db_join_requests d)"] new
    by (simp add: desk_of_db_def hm_get_insert_fun)
  moreover have "db_refines ?d d'" by (rule Cons.IH [OF _ rest]) (use Cons.prems(1) in \<open>simp add: tables_ok_def\<close>)
  ultimately show ?case unfolding db_refines_def by (meson converse_rtranclp_into_rtranclp)
qed simp

lemma mint_refines:
  assumes "desk_open h"
  shows "refines h (snd (mint_admission_stock count ttl now h))"
proof (rule refines_db [OF assms])
  fix d
  assume d: "sto_conn (h_store h) = Some d" "tables_ok d"
  obtain ids h1 where t: "secure_tokens ''adm_'' count h = (ids, h1)" by force
  then have h1: "h_store h1 = h_store h" using secure_tokens_frame by fastforce
  then show "\<exists>d'. sto_conn (h_store (snd (mint_admission_stock count ttl now h))) = Some d' \<and> db_refines d d'"
    using store_refines [OF d, of "mint_rows w now e ids 0" 0 for w e] mint_rows_refines [OF d(2)]
    by (simp add: mint_admission_stock_def mint_admission_rights_def with_store_def t Let_def case_prod_beta)
qed

lemma pending_count:
  assumes "sto_conn s = Some d" and "tables_ok d"
  shows "length (store_list_pending_join_requests s) = card (requests_with ''pending'' (desk_of_db d))"
proof -
  have "length (filter (\<lambda>(_, r). jr_status r = ''pending'') m) = hm_count (\<lambda>r. jr_status r = ''pending'') m"
    for m :: "(string, join_row) hashmap"
    unfolding hm_count_def hm_values_def by (induction m) (auto simp: filter_map comp_def case_prod_beta)
  then show ?thesis using assms
    by (simp add: store_list_pending_join_requests_def hm_count_card tables_ok_def requests_with_def desk_of_db_def)
qed

lemma create_rows_refines:
  assumes "sto_conn s = Some d" and ok: "tables_ok d" and "\<not> has_pending_join_request_named s name"
    and "length (store_list_pending_join_requests s) < MAX_PENDING_JOIN_REQUESTS"
  shows "\<exists>d'. sto_conn (snd (store_create_join_request sha i secret name kind now s)) = Some d' \<and> db_refines d d'"
  unfolding store_create_join_request_def
proof (rule store_refines [OF assms(1) ok])
  fix x d'
  let ?r = "\<lparr> jr_secret_hash = secret_hash sha secret, jr_name = name, jr_kind = kind, jr_status = ''pending'',
         jr_created_at = now, jr_decided_by = None, jr_decided_at = None, jr_mb_token = None,
         jr_bootstrap_delivered_at = None, jr_bootstrap_acked_at = None \<rparr>"
  assume "(if hm_contains (db_join_requests d) i then Err ConstraintViolation
     else Ok ((), d\<lparr>db_join_requests := hm_insert i ?r (db_join_requests d)\<rparr>)) = Ok (x, d')"
  then have new: "hm_get (db_join_requests d) i = None"
    and d': "d' = d\<lparr>db_join_requests := hm_insert i ?r (db_join_requests d)\<rparr>"
    by (auto simp: hm_contains_def split: if_splits)
  have free: "\<forall>j r'. hm_get (db_join_requests d) j = Some r' \<longrightarrow> jr_status r' = ''pending'' \<longrightarrow> jr_name r' \<noteq> jr_name ?r"
    using assms(1,3) by (auto simp: has_pending_join_request_named_def dest: hm_values_get)
  have "desk_step (desk_of_db d) (desk_of_db d')"
    using desk_step.ask [of "hm_get (db_join_requests d)" i ?r "hm_get (db_stock d)", OF new _ free] assms
    by (simp add: fresh_request_def d' desk_of_db_def hm_get_insert_fun pending_count [unfolded desk_of_db_def])
  then show "db_refines d d'" using ok by (auto simp: db_refines_def tables_ok_def d')
qed

lemma announce_refines: "desk_open h \<Longrightarrow> refines h (announce_join_request name kind now h)"
  by (rule refines_same)
    (auto simp: announce_join_request_def Let_def split: prod.splits dest!: counter.durable_store
      intro: counter.stored_insert)

lemma refines_open: "refines h h' \<Longrightarrow> desk_open h'"
  by (simp add: refines_def)

lemma create_refines:
  assumes "desk_open h"
  shows "refines h (snd (create_join_request sha name kind ip now h))"
proof -
  obtain b h1 where rate: "join_request_rate_ok ip now h = (b, h1)" by force
  then have h1: "h_store h1 = h_store h" by (auto simp: join_request_rate_ok_def Let_def split: if_splits)
  have r1: "refines h h1" by (rule refines_same [OF assms]) (simp add: desk_is_def h1)
  show ?thesis
  proof (cases "b \<and> \<not> (member_by_name h1 name \<noteq> None \<or> has_pending_join_request_named (h_store h1) name)
      \<and> length (store_list_pending_join_requests (h_store h1)) < MAX_PENDING_JOIN_REQUESTS")
    case True
    let ?make = "store_create_join_request sha (''jr_'' @ h_rng h1 0) (''jrs_'' @ h_rng h1 (Suc 0)) name kind now"
    define h4 where "h4 = h1\<lparr>h_rng := \<lambda>n. h_rng h1 (Suc (Suc n)), h_store := snd (?make (h_store h1))\<rparr>"
    have "snd (create_join_request sha name kind ip now h) = announce_join_request name kind now h4"
      using True by (simp add: create_join_request_def rate secure_token_def with_store_def Let_def case_prod_beta h4_def)
    moreover have "refines h1 h4"
      by (rule refines_db [OF refines_open [OF r1]])
        (use True create_rows_refines in \<open>auto simp: h4_def not_le\<close>)
    ultimately show ?thesis using r1 refines_trans announce_refines refines_open by metis
  next
    case False
    then have "snd (create_join_request sha name kind ip now h) = h1"
      by (auto simp: create_join_request_def rate split: bool.split)
    then show ?thesis using r1 by simp
  qed
qed

lemma consume_right_fun:
  assumes "hm_get (db_stock d) j = Some k" and "right_available now k"
  shows "hm_get (db_stock (consume_right j name now d))
     = (hm_get (db_stock d))(j \<mapsto> k\<lparr>sk_consumed_at := Some now, sk_consumed_by_name := Some name\<rparr>)"
  unfolding consume_right_def
  by (simp, rule hm_get_map_fun) (use assms in \<open>auto simp: right_available_def\<close>)

lemma approve_rows_refines:
  assumes "tables_ok d" and "approve_rows sha i mb who now d = Ok (a, d')"
  shows "db_refines d d'"
  using assms(2)
proof (rule approve_rows_okD)
  fix r right
  assume r: "hm_get (db_join_requests d) i = Some r" "jr_status r = ''pending''" "oldest_right now d = Some right"
    and stock: "db_stock d' = db_stock (consume_right right (jr_name r) now d)"
    and ok: "hm_ok (db_join_requests d') = hm_ok (db_join_requests d)"
    and get: "\<And>j. hm_get (db_join_requests d') j
       = (if j = i then Some (approved_row mb who now r) else hm_get (db_join_requests d) j)"
  obtain k where k: "hm_get (db_stock d) right = Some k" "right_available now k"
    using assms(1) r(3) by (auto simp: tables_ok_def elim: oldest_right_available)
  let ?k = "k\<lparr>sk_consumed_at := Some now, sk_consumed_by_name := Some (jr_name r)\<rparr>"
  have "hm_get (db_stock d') = (hm_get (db_stock d))(right \<mapsto> ?k)"
    unfolding stock by (rule consume_right_fun [OF k])
  moreover have "hm_get (db_join_requests d') = (hm_get (db_join_requests d))(i \<mapsto> approved_row mb who now r)"
    by (rule ext) (simp add: get)
  ultimately have "desk_step (desk_of_db d) (desk_of_db d')"
    using desk_step.approve [of "hm_get (db_join_requests d)" i r "hm_get (db_stock d)" right k now mb who] r k
    by (simp add: desk_of_db_def)
  then show ?thesis using assms(1) ok by (auto simp: db_refines_def tables_ok_def stock)
qed

lemma approve_refines:
  assumes "desk_open h"
  shows "refines h (snd (approve_join_request sha i who now h))"
proof (rule refines_db [OF assms])
  fix d
  assume d: "sto_conn (h_store h) = Some d" "tables_ok d"
  define mb where "mb = replacen_one ''dv_'' ''mb_'' (''dv_'' @ h_rng h 0)"
  obtain a s where f: "approve_join_request_atomic sha i mb who now (h_store h) = (a, s)" by force
  then have "h_store (snd (approve_join_request sha i who now h)) = s"
    by (simp add: approve_join_request_def new_invite_token_def secure_token_def with_store_def mb_def split: ApproveTxn.split)
  moreover from f have "\<exists>d'. sto_conn s = Some d' \<and> db_refines d d'"
    by (cases rule: approve_atomic_cases) (use d approve_rows_refines in auto)
  ultimately show "\<exists>d'. sto_conn (h_store (snd (approve_join_request sha i who now h))) = Some d' \<and> db_refines d d'"
    by simp
qed

lemma row_refines:
  assumes "tables_ok d" and "hm_get (db_join_requests d) i = Some r"
    and "\<And>q ks. q i = Some r \<Longrightarrow> desk_step (q, ks) (q(i \<mapsto> r'), ks)"
    and "\<And>j v. hm_get (db_join_requests d) j = Some v \<Longrightarrow> f j v = (if j = i then r' else v)"
  shows "db_refines d (d\<lparr>db_join_requests := hm_map f (db_join_requests d)\<rparr>)"
  using assms(1) assms(3) [of "hm_get (db_join_requests d)" "hm_get (db_stock d)"] assms(2)
  by (auto simp: db_refines_def tables_ok_def desk_of_db_def hm_get_map_fun [OF assms(4,2)])

lemma rows_unchanged:
  assumes "tables_ok d" and "\<And>j v. hm_get (db_join_requests d) j = Some v \<Longrightarrow> f j v = v"
  shows "db_refines d (d\<lparr>db_join_requests := hm_map f (db_join_requests d)\<rparr>)"
proof -
  have "hm_get (hm_map f (db_join_requests d)) = hm_get (db_join_requests d)"
  proof
    fix j
    show "hm_get (hm_map f (db_join_requests d)) j = hm_get (db_join_requests d) j"
      using assms(2) by (cases "hm_get (db_join_requests d) j") auto
  qed
  then show ?thesis using assms(1) by (simp add: db_refines_def tables_ok_def desk_of_db_def)
qed

lemma deny_refines:
  assumes "desk_open h"
  shows "refines h (snd (deny_join_request i who now h))"
proof (rule refines_db [OF assms])
  fix d
  assume d: "sto_conn (h_store h) = Some d" "tables_ok d"
  let ?f = "\<lambda>r. r\<lparr>jr_status := ''denied'', jr_decided_by := Some who, jr_decided_at := Some now\<rparr>"
  have "db_refines d (set_request i ''pending'' ?f d)"
  proof (cases "request_pending i d")
    case True
    then obtain r where r: "hm_get (db_join_requests d) i = Some r" "jr_status r = ''pending''"
      by (auto simp: request_pending_def split: option.splits)
    then show ?thesis unfolding set_request_def
      by (intro row_refines [OF d(2) r(1), where r' = "?f r"]) (auto intro: desk_step.deny)
  next
    case False
    then show ?thesis unfolding set_request_def
      by (intro rows_unchanged [OF d(2)]) (auto simp: request_pending_def)
  qed
  then show "\<exists>d'. sto_conn (h_store (snd (deny_join_request i who now h))) = Some d' \<and> db_refines d d'"
    using store_refines [OF d, where v = False and body = "\<lambda>d. Ok (request_pending i d, set_request i ''pending'' ?f d)"]
    by (auto simp: deny_join_request_def store_deny_join_request_def with_store_def case_prod_beta split: prod.splits sum.splits)
qed

lemma deliver_refines:
  assumes "desk_open h"
  shows "refines h (snd (claim_join_request_bootstrap sha i secret now h))"
proof (rule refines_db [OF assms])
  fix d
  assume d: "sto_conn (h_store h) = Some d" "tables_ok d"
  let ?f = "\<lambda>j q. if j = i \<and> jr_bootstrap_delivered_at q = None then q\<lparr>jr_bootstrap_delivered_at := Some now\<rparr> else q"
  have step: "db_refines d (d\<lparr>db_join_requests := hm_map ?f (db_join_requests d)\<rparr>)"
  proof (cases "\<exists>r. hm_get (db_join_requests d) i = Some r \<and> jr_bootstrap_delivered_at r = None")
    case True
    then obtain r where r: "hm_get (db_join_requests d) i = Some r" "jr_bootstrap_delivered_at r = None" by blast
    then show ?thesis
      by (intro row_refines [OF d(2) r(1), where r' = "r\<lparr>jr_bootstrap_delivered_at := Some now\<rparr>"])
        (auto intro: desk_step.deliver)
  next
    case False
    then show ?thesis by (intro rows_unchanged [OF d(2)]) auto
  qed
  show "\<exists>d'. sto_conn (h_store (snd (claim_join_request_bootstrap sha i secret now h))) = Some d' \<and> db_refines d d'"
    using store_refines [OF d, where v = "()" and body = "\<lambda>d. Ok ((), d\<lparr>db_join_requests := hm_map ?f (db_join_requests d)\<rparr>)"]
      step d
    by (auto simp: claim_join_request_bootstrap_def store_claim_join_request_bootstrap_def with_store_def
        run_write_def case_prod_beta split: option.splits)
qed

lemma acknowledge_refines:
  assumes "desk_open h"
  shows "refines h (snd (ack_join_request_bootstrap sha i secret now h))"
proof (rule refines_db [OF assms])
  fix d
  assume d: "sto_conn (h_store h) = Some d" "tables_ok d"
  let ?f = "\<lambda>j q. if j = i \<and> jr_bootstrap_acked_at q = None
     then q\<lparr>jr_bootstrap_acked_at := Some now, jr_mb_token := None\<rparr> else q"
  let ?h = "snd (ack_join_request_bootstrap sha i secret now h)"
  show "\<exists>d'. sto_conn (h_store ?h) = Some d' \<and> db_refines d d'"
  proof (cases "\<exists>r. own_request sha d i secret = Some r \<and> jr_status r = ''approved'' \<and> jr_bootstrap_acked_at r = None")
    case True
    then obtain r where r: "own_request sha d i secret = Some r" "jr_status r = ''approved''" "jr_bootstrap_acked_at r = None"
      by blast
    then have get: "hm_get (db_join_requests d) i = Some r" by (auto simp: own_request_def split: option.splits if_splits)
    have "db_refines d (d\<lparr>db_join_requests := hm_map ?f (db_join_requests d)\<rparr>)"
      by (rule row_refines [OF d(2) get, where r' = "r\<lparr>jr_bootstrap_acked_at := Some now, jr_mb_token := None\<rparr>"])
        (use r get in \<open>auto intro: desk_step.acknowledge\<close>)
    then show ?thesis
      using store_refines [OF d, where v = "()" and body = "\<lambda>d. Ok ((), d\<lparr>db_join_requests := hm_map ?f (db_join_requests d)\<rparr>)"] r d
      by (auto simp: ack_join_request_bootstrap_def store_ack_join_request_bootstrap_def with_store_def run_write_def
          case_prod_beta split: prod.splits sum.splits)
  next
    case False
    then have "sto_conn (h_store ?h) = Some d" using d
      by (auto simp: ack_join_request_bootstrap_def store_ack_join_request_bootstrap_def with_store_def split: option.split)
    then show ?thesis using d by simp
  qed
qed

end
