(* ===== verification/Admission_Properties.thy ===== *)
theory Admission_Properties
  imports Access_Properties Admission_Desk
begin

text \<open>
  What the admission desk promises, over every interleaving of its operations with the
  other operations of the building: an admission costs exactly one right, the approval
  answers what the tables say, and the issued key is never lost.
\<close>

subsection \<open>The whole building as a transition system\<close>

inductive building_step :: "hub \<Rightarrow> hub \<Rightarrow> bool" where
  access: "access_step h h' \<Longrightarrow> building_step h h'"
| rooms: "room_step h h' \<Longrightarrow> building_step h h'"

lemma glanced_desk: "glanced h h' \<Longrightarrow> desk_is v h \<Longrightarrow> desk_is v h'"
  unfolding glanced_def store_used_def desk_is_def
  by (auto simp: option.rel_sel used_def desk_rows_def split: option.splits)

lemma access_step_refines: "access_step h h' \<Longrightarrow> desk_open h \<Longrightarrow> refines h h'"
proof (induction rule: access_step.induct)
  case (enter_decision h sha now clock room a t session hint)
  then show ?case by (intro refines_same glanced_desk [OF glanced_enter [OF prod.collapse [symmetric]]])
next
  case (faults h fs)
  then show ?case by (intro refines_same) (simp_all add: desk_is_def)
next
  case (moderate h room action name now)
  then show ?case by (intro refines_same counter.durable_moderate)
next
  case (revoke_invites_for h room name now)
  then show ?case by (intro refines_same counter.durable_revoke_invites)
qed (simp_all add: mint_refines create_refines approve_refines deny_refines deliver_refines acknowledge_refines
    refines_same desk_members)

lemma building_step_refines: "desk_open h \<Longrightarrow> building_step h h' \<Longrightarrow> refines h h'"
  by (auto elim!: building_step.cases intro: access_step_refines refines_same counter.durable_step)

lemma building_refines: "building_step\<^sup>*\<^sup>* h h' \<Longrightarrow> desk_open h \<Longrightarrow> refines h h'"
proof (induction rule: rtranclp_induct)
  case base
  then show ?case by (simp add: refines_def)
next
  case (step a b)
  then show ?case using building_step_refines refines_trans refines_open by blast
qed

subsection \<open>A desk with one request\<close>

definition sample_asked_to_join :: hub where
  "sample_asked_to_join = snd (create_join_request sample_sha ''eve'' ''agent'' ''10.0.0.1'' 5
     (snd (mint_admission_stock 2 1000 4 sample_hub)))"

definition sample_approved :: hub where
  "sample_approved = snd (approve_join_request sample_sha ''jr_t2'' ''ada'' 6 sample_asked_to_join)"

lemma sample_hub_desk: "desk_open sample_hub" "desk_ok (desk_of sample_hub)"
  by (simp_all add: desk_open_def tables_ok_def desk_ok_def desk_of_def desk_of_db_def requests_with_def
      consumed_rights_def sample_hub_def sample_store_def empty_db_def dom_def)

lemma sample_joining_reached: "building_step\<^sup>*\<^sup>* sample_hub sample_asked_to_join"
  unfolding sample_asked_to_join_def
  by (rule rtranclp.rtrancl_into_rtrancl [OF rtranclp.rtrancl_into_rtrancl [OF rtranclp.rtrancl_refl]])
    (rule building_step.access access_step.mint_admission_stock access_step.create_join_request)+

lemma sample_approved_reached: "building_step\<^sup>*\<^sup>* sample_hub sample_approved"
  unfolding sample_approved_def
  by (rule rtranclp.rtrancl_into_rtrancl [OF sample_joining_reached])
    (rule building_step.access access_step.approve_join_request)+

subsection \<open>One right per admission\<close>

text \<open>
  C25: every operation of the building, in every order and with any storage failures, is a
  sequence of steps of the abstract admission desk.  So an admission always costs exactly
  one right: there are as many approved requests as consumed rights, no request is ever
  left half approved, at most two hundred wait, and no two waiting requests have the same
  name.
\<close>

theorem admission_desk_refined:
  assumes "desk_open h" and "desk_ok (desk_of h)" and "building_step\<^sup>*\<^sup>* h h'"
  shows "desk_step\<^sup>*\<^sup>* (desk_of h) (desk_of h')
     \<and> card (requests_with ''approved'' (desk_of h')) = card (consumed_rights (desk_of h'))
     \<and> requests_with ''approving'' (desk_of h') = {}
     \<and> length (list_pending_join_requests h') \<le> MAX_PENDING_JOIN_REQUESTS
     \<and> (\<forall>i j r r'. fst (desk_of h') i = Some r \<longrightarrow> fst (desk_of h') j = Some r' \<longrightarrow> jr_status r = ''pending''
          \<longrightarrow> jr_status r' = ''pending'' \<longrightarrow> jr_name r = jr_name r' \<longrightarrow> i = j)"
proof -
  have r: "refines h h'" by (rule building_refines [OF assms(3,1)])
  then have st: "desk_step\<^sup>*\<^sup>* (desk_of h) (desk_of h')" by (simp add: refines_def)
  have ok: "desk_ok (desk_of h')" by (rule desk.reach_keeps [OF st assms(2)])
  obtain d where d: "sto_conn (h_store h') = Some d" "tables_ok d" using refines_open [OF r] by (auto simp: desk_open_def)
  have "length (list_pending_join_requests h') = card (requests_with ''pending'' (desk_of h'))"
    using pending_count [OF d] by (simp add: list_pending_join_requests_def desk_of_def d(1))
  moreover have "requests_with ''approving'' (desk_of h') = {}"
    using ok by (fastforce simp: desk_ok_def requests_with_def row_ok_def)
  ultimately show ?thesis using st ok by (simp add: desk_ok_def)
qed

theorem admission_desk_refined_witness:
  "card (requests_with ''approved'' (desk_of sample_approved)) = card (consumed_rights (desk_of sample_approved))
     \<and> length (list_pending_join_requests sample_approved) \<le> 200
     \<and> snd (admission_stock_summary 7 sample_approved) = 1"
proof -
  have "snd (admission_stock_summary 7 sample_approved) = 1" by code_simp
  with admission_desk_refined [OF sample_hub_desk sample_approved_reached]
  show ?thesis unfolding MAX_PENDING_JOIN_REQUESTS_def by blast
qed

subsection \<open>The approval\<close>

definition new_key :: "hub \<Rightarrow> string" where
  "new_key h = replacen_one ''dv_'' ''mb_'' (''dv_'' @ h_rng h 0)"

definition unknown_key :: "digest \<Rightarrow> string \<Rightarrow> db \<Rightarrow> bool" where
  "unknown_key sha key d = (\<not> hm_contains (db_members d) key
     \<and> \<not> hm_contains (db_principals d) (hashed_id sha ''pr_'' (''member:'' @ key))
     \<and> \<not> hm_contains (db_credentials d) (hashed_id sha ''cr_'' (''member:'' @ key))
     \<and> (\<forall>c \<in> set (hm_values (db_credentials d)). cr_secret_hash c \<noteq> secret_hash sha key
          \<and> cr_legacy_source c \<noteq> Some (''member:'' @ secret_hash sha key)))"

lemma hm_insert_new: "\<not> hm_contains m k \<Longrightarrow> hm_insert k v m = m @ [(k, v)]"
  unfolding hm_contains_def hm_insert_def hm_get_def by (induction m) (auto split: if_splits)

lemma find_snoc: "find p xs = None \<Longrightarrow> p x \<Longrightarrow> find p (xs @ [x]) = Some x"
  by (induction xs) (auto split: if_splits)

lemma new_key_mb: "new_key h = ''mb_'' @ h_rng h 0"
  by (simp add: new_key_def strip_prefix_def starts_with_def)

lemma approve_run:
  assumes "approve_join_request_atomic sha i (new_key h) who now (h_store h) = (a, s)"
  shows "approve_join_request sha i who now h =
     (let h2 = h\<lparr>h_rng := \<lambda>n. h_rng h (Suc n), h_store := s\<rparr>
      in case a of Committed m \<Rightarrow> (Approved, h2\<lparr>h_members := hm_insert (mb_token m) m (h_members h)\<rparr>)
         | AtAlreadyDecided \<Rightarrow> (AlreadyDecided, h2) | AtNameTaken \<Rightarrow> (ApNameTaken, h2)
         | AtNoStock \<Rightarrow> (ApNoStock, h2) | AtFailed \<Rightarrow> (ApFailed, h2))"
  using assms by (simp add: approve_join_request_def new_invite_token_def secure_token_def with_store_def new_key_def
      split: ApproveTxn.split)

lemma new_credential_identity:
  assumes "unknown_key sha key d0" and "db_members d = ms" and "db_principals d = db_principals d0"
    and "db_credentials d = db_credentials d0"
    and "db_principals d' = db_principals (insert_principal_credential sha ''member'' key name kind at label d)"
    and "db_credentials d' = db_credentials (insert_principal_credential sha ''member'' key name kind at label d)"
  shows "\<exists>p. identity_for_hash d' (secret_hash sha key) = Some p \<and> pi_display_name p = name \<and> pi_role p = MemberRole"
proof -
  let ?pid = "hashed_id sha ''pr_'' (''member:'' @ key)" and ?cid = "hashed_id sha ''cr_'' (''member:'' @ key)"
  let ?p = "\<lparr> pp_display_name = name, pp_kind = (if kind = ''agent'' then ''agent'' else ''human''),
     pp_building_role = ''member'', pp_created_at = at, pp_disabled_at = None \<rparr>"
  let ?c = "\<lparr> cr_principal_id = ?pid, cr_label = label, cr_secret_hash = secret_hash sha key, cr_created_at = at,
     cr_last_used_at = None, cr_revoked_at = None, cr_legacy_source = Some (''member:'' @ secret_hash sha key) \<rparr>"
  have u: "\<not> hm_contains (db_principals d) ?pid" "\<not> hm_contains (db_credentials d) ?cid"
    "\<forall>c \<in> set (hm_values (db_credentials d)). cr_secret_hash c \<noteq> secret_hash sha key
       \<and> cr_legacy_source c \<noteq> Some (''member:'' @ secret_hash sha key)"
    using assms(1-4) by (auto simp: unknown_key_def)
  have pr: "db_principals d' = hm_insert ?pid ?p (db_principals d)"
    and cr: "db_credentials d' = db_credentials d @ [(?cid, ?c)]"
    using u assms(5,6) hm_insert_new [OF u(2)] by (auto simp: insert_principal_credential_def Let_def)
  have "find (\<lambda>(_, c). cr_secret_hash c = secret_hash sha key) (db_credentials d) = None"
    using u(3) by (auto simp: find_None_iff hm_values_def)
  then have "credential_with_hash d' (secret_hash sha key) = Some (?cid, ?c)"
    by (simp add: credential_with_hash_def cr find_snoc)
  then show ?thesis
    by (simp add: identity_for_hash_def db_active_principal_def pr identity_of_row_def parse_building_role_def)
qed

lemma approve_answer:
  assumes "sto_conn s = Some d" and "sto_faults s = []" and "\<not> hm_contains (db_members d) mb"
    and "approve_join_request_atomic sha i mb who now s = (a, s')"
  shows "(case a of Committed m \<Rightarrow> Approved | AtAlreadyDecided \<Rightarrow> AlreadyDecided | AtNameTaken \<Rightarrow> ApNameTaken
       | AtNoStock \<Rightarrow> ApNoStock | AtFailed \<Rightarrow> ApFailed) =
     (if \<not> request_pending i d then AlreadyDecided
      else if name_taken d (jr_name (the (hm_get (db_join_requests d) i))) then ApNameTaken
      else if oldest_right now d = None then ApNoStock else Approved)"
  using assms
  by (auto simp: approve_join_request_atomic_def answer_txn_def approve_rows_def request_pending_def name_taken_def Let_def
      split: option.splits if_splits)

lemma decided_again:
  assumes "sto_conn (h_store h) = Some d" and "sto_faults (h_store h) = []" and "\<not> request_pending i d"
  shows "fst (approve_join_request sha i who now h) = AlreadyDecided"
proof -
  have "approve_rows sha i mb who now d = Err AtAlreadyDecided" for mb
    using assms(3) by (auto simp: approve_rows_def request_pending_def split: option.split)
  then have "approve_join_request_atomic sha i (new_key h) who now (h_store h) = (AtAlreadyDecided, h_store h)"
    using assms(1,2) by (cases "h_store h") (simp add: approve_join_request_atomic_def answer_txn_def)
  then show ?thesis by (simp add: approve_run Let_def)
qed

lemma approve_success:
  assumes d: "sto_conn (h_store h) = Some d" "tables_ok d" and key: "unknown_key sha (new_key h) d"
    and ok: "approve_rows sha i (new_key h) who now d = Ok (a, d')" and "a = Committed m"
    and conn: "sto_conn (h_store h') = Some d'" "sto_faults (h_store h') = []"
    and mem: "h_members h' = hm_insert (mb_token m) m (h_members h)"
  shows "\<exists>r m j k.
          hm_get (db_join_requests d) i = Some r \<and> mb_name m = jr_name r \<and> mb_token m = new_key h
          \<and> h_members h' = hm_insert (new_key h) m (h_members h)
          \<and> hm_get (db_stock d) j = Some k \<and> right_available now k
          \<and> (\<forall>j' k'. hm_get (db_stock d) j' = Some k' \<longrightarrow> right_available now k' \<longrightarrow> (sk_created_at k, j) \<le> (sk_created_at k', j'))
          \<and> snd (desk_of h') = (snd (desk_of h))(j \<mapsto> k\<lparr>sk_consumed_at := Some now, sk_consumed_by_name := Some (jr_name r)\<rparr>)
          \<and> (\<exists>p. fst (principal_for_credential sha clock (new_key h) (h_store h')) = Some p
               \<and> pi_display_name p = jr_name r \<and> pi_role p = MemberRole)
          \<and> fst (approve_join_request sha i who' now' h') = AlreadyDecided"
  using ok
proof (rule approve_rows_okD)
  fix r :: join_row and j
  let ?d0 = "consume_right j (jr_name r) now (set_request i ''pending'' (\<lambda>r. r\<lparr>jr_status := ''approving''\<rparr>) d)"
  assume r: "hm_get (db_join_requests d) i = Some r" and j: "oldest_right now d = Some j"
    and a: "a = Committed (membership_of_row (new_key h) (new_member (new_key h) who now r))"
    and stock: "db_stock d' = db_stock (consume_right j (jr_name r) now d)"
    and get: "\<And>i'. hm_get (db_join_requests d') i'
       = (if i' = i then Some (approved_row (new_key h) who now r) else hm_get (db_join_requests d) i')"
    and cred: "\<And>d0. d0 = ?d0 \<Longrightarrow>
       db_principals d' = db_principals (insert_principal_credential sha ''member'' (new_key h) (jr_name r) (jr_kind r) now
         ''Member access'' (d0\<lparr>db_members := hm_insert (new_key h) (new_member (new_key h) who now r) (db_members d0)\<rparr>))
       \<and> db_credentials d' = db_credentials (insert_principal_credential sha ''member'' (new_key h) (jr_name r) (jr_kind r) now
         ''Member access'' (d0\<lparr>db_members := hm_insert (new_key h) (new_member (new_key h) who now r) (db_members d0)\<rparr>))"
  obtain k where k: "hm_get (db_stock d) j = Some k" "right_available now k"
    and first: "\<And>j' k'. hm_get (db_stock d) j' = Some k' \<Longrightarrow> right_available now k' \<Longrightarrow> (sk_created_at k, j) \<le> (sk_created_at k', j')"
    by (rule oldest_right_available [OF _ j]) (use d(2) in \<open>auto simp: tables_ok_def\<close>)
  have m: "mb_name m = jr_name r" "mb_token m = new_key h" using a assms(5) by (auto simp: membership_of_row_def new_member_def)
  have spent: "snd (desk_of h') = (snd (desk_of h))(j \<mapsto> k\<lparr>sk_consumed_at := Some now, sk_consumed_by_name := Some (jr_name r)\<rparr>)"
    by (simp add: desk_of_def d(1) conn(1) desk_of_db_def stock consume_right_fun [OF k])
  have "\<exists>p. identity_for_hash d' (secret_hash sha (new_key h)) = Some p \<and> pi_display_name p = jr_name r \<and> pi_role p = MemberRole"
    by (rule new_credential_identity [OF key _ _ _ cred [OF refl, THEN conjunct1] cred [OF refl, THEN conjunct2]])
      (simp_all add: set_request_def consume_right_def)
  then have proves: "\<exists>p. fst (principal_for_credential sha clock (new_key h) (h_store h')) = Some p
      \<and> pi_display_name p = jr_name r \<and> pi_role p = MemberRole"
    using conn(1) by (auto simp: principal_for_credential_def new_key_mb)
  have again: "fst (approve_join_request sha i who' now' h') = AlreadyDecided"
    by (rule decided_again [OF conn]) (simp add: request_pending_def get approved_row_def)
  show ?thesis using r m mem k first spent proves again by metis
qed

text \<open>
  C26: the answer of an approval is decided by the tables alone: it is refused when the
  request is no longer pending, when its name belongs to a living membership or when no
  unexpired right is left, and otherwise it succeeds.  A refusal changes neither tables
  nor members.  A success admits exactly one new member under the requested name, spends
  the oldest available right and no other, and the issued key at once proves that
  member's principal; asking again answers that the request is decided.
\<close>

theorem approval_exact:
  assumes "sto_conn (h_store h) = Some d" and "tables_ok d" and "sto_faults (h_store h) = []"
    and "unknown_key sha (new_key h) d" and "approve_join_request sha i who now h = (answer, h')"
  shows "answer = (if \<not> request_pending i d then AlreadyDecided
        else if name_taken d (jr_name (the (hm_get (db_join_requests d) i))) then ApNameTaken
        else if \<forall>j k. hm_get (db_stock d) j = Some k \<longrightarrow> \<not> right_available now k then ApNoStock
        else Approved)
     \<and> (answer \<noteq> Approved \<longrightarrow> sto_conn (h_store h') = Some d \<and> h_members h' = h_members h)
     \<and> (answer = Approved \<longrightarrow> (\<exists>r m j k.
          hm_get (db_join_requests d) i = Some r \<and> mb_name m = jr_name r \<and> mb_token m = new_key h
          \<and> h_members h' = hm_insert (new_key h) m (h_members h)
          \<and> hm_get (db_stock d) j = Some k \<and> right_available now k
          \<and> (\<forall>j' k'. hm_get (db_stock d) j' = Some k' \<longrightarrow> right_available now k' \<longrightarrow> (sk_created_at k, j) \<le> (sk_created_at k', j'))
          \<and> snd (desk_of h') = (snd (desk_of h))(j \<mapsto> k\<lparr>sk_consumed_at := Some now, sk_consumed_by_name := Some (jr_name r)\<rparr>)
          \<and> (\<exists>p. fst (principal_for_credential sha clock (new_key h) (h_store h')) = Some p
               \<and> pi_display_name p = jr_name r \<and> pi_role p = MemberRole)
          \<and> fst (approve_join_request sha i who' now' h') = AlreadyDecided))"
proof -
  obtain a s where run: "approve_join_request_atomic sha i (new_key h) who now (h_store h) = (a, s)" by force
  have key: "\<not> hm_contains (db_members d) (new_key h)" using assms(4) by (simp add: unknown_key_def)
  have ans: "answer = (case a of Committed m \<Rightarrow> Approved | AtAlreadyDecided \<Rightarrow> AlreadyDecided | AtNameTaken \<Rightarrow> ApNameTaken
       | AtNoStock \<Rightarrow> ApNoStock | AtFailed \<Rightarrow> ApFailed)"
    using assms(5) approve_run [OF run] by (auto simp: Let_def split: ApproveTxn.splits)
  have none: "oldest_right now d = None \<longleftrightarrow> (\<forall>j k. hm_get (db_stock d) j = Some k \<longrightarrow> \<not> right_available now k)"
    using oldest_right_None assms(2) by (auto simp: tables_ok_def)
  note answer = ans [unfolded approve_answer [OF assms(1,3) key run] none]
  from run show ?thesis
  proof (cases rule: approve_atomic_cases)
    case (committed m d1 d')
    then have ok: "approve_rows sha i (new_key h) who now d = Ok (a, d')" using assms(1) by simp
    have h': "h_members h' = hm_insert (mb_token m) m (h_members h)" "h_store h' = s"
      using assms(5) approve_run [OF run] committed(1) by (auto simp: Let_def)
    have "s = (h_store h)\<lparr>sto_conn := Some d', sto_faults := []\<rparr>"
      using run assms(1,3) ok by (simp add: approve_join_request_atomic_def answer_txn_def)
    then have conn: "sto_conn (h_store h') = Some d'" "sto_faults (h_store h') = []" using h'(2) by simp_all
    show ?thesis using approve_success [OF assms(1,2,4) ok committed(1) conn h'(1)] answer ans committed(1) by simp
  next
    case refused
    have "h_store h' = s" "h_members h' = h_members h"
      using assms(5) approve_run [OF run] refused(1) by (auto simp: Let_def split: ApproveTxn.splits)
    moreover have "answer \<noteq> Approved" using ans refused(1) by (auto split: ApproveTxn.splits)
    ultimately show ?thesis using answer refused(2) assms(1) by simp
  qed
qed

theorem approval_exact_witness:
  "fst (approve_join_request sample_sha ''jr_t2'' ''ada'' 6 sample_asked_to_join) = Approved
     \<and> fst (approve_join_request sample_sha ''jr_t2'' ''ada'' 7 sample_approved) = AlreadyDecided
     \<and> fst (approve_join_request sample_sha ''jr_t2'' ''ada'' 6 sample_hub) = AlreadyDecided"
proof -
  let ?d = "the (sto_conn (h_store sample_asked_to_join))"
  have a: "sto_conn (h_store sample_asked_to_join) = Some ?d" "sto_faults (h_store sample_asked_to_join) = []"
    "unknown_key sample_sha (new_key sample_asked_to_join) ?d"
    "fst (approve_join_request sample_sha ''jr_t2'' ''ada'' 6 sample_asked_to_join) = Approved"
    "hm_ok (db_join_requests ?d)" "hm_ok (db_stock ?d)"
    "fst (approve_join_request sample_sha ''jr_t2'' ''ada'' 6 sample_hub) = AlreadyDecided" by code_simp+
  have run: "approve_join_request sample_sha ''jr_t2'' ''ada'' 6 sample_asked_to_join = (Approved, sample_approved)"
    using a(4) by (metis prod.collapse sample_approved_def)
  have "tables_ok ?d" using a(5,6) by (simp add: tables_ok_def)
  from approval_exact [OF a(1) this a(2,3) run, where who' = "''ada''" and now' = 7]
  show ?thesis using a(4,7) by blast
qed

subsection \<open>Delivery of the key\<close>

lemma approved_key_waits:
  assumes "desk_ok (desk_of h)" and "sto_conn (h_store h) = Some d" and "own_request sha d i secret = Some r"
    and "approve_join_request sha i who now h = (Approved, h1)"
  shows "key_waiting i (secret_hash sha secret) (new_key h) (desk_of h1)"
proof -
  obtain a s where run: "approve_join_request_atomic sha i (new_key h) who now (h_store h) = (a, s)" by force
  have h1: "h_store h1 = s" "\<exists>m. a = Committed m"
    using assms(4) approve_run [OF run] by (auto simp: Let_def split: ApproveTxn.splits)
  have own: "hm_get (db_join_requests d) i = Some r" "jr_secret_hash r = secret_hash sha secret"
    using assms(3) by (auto simp: own_request_def split: option.splits if_splits)
  from run show ?thesis
  proof (cases rule: approve_atomic_cases)
    case (committed m d0 d')
    have pend: "jr_status r = ''pending''" and get: "hm_get (db_join_requests d') i = Some (approved_row (new_key h) who now r)"
      using committed(2,3) own(1) assms(2) by (auto elim!: approve_rows_okD)
    then have "jr_bootstrap_acked_at r = None"
      using assms(1,2) own(1) by (auto simp: desk_ok_def row_ok_def desk_of_def desk_of_db_def)
    then show ?thesis using get own(2) committed(4) h1(1)
      by (simp add: key_waiting_def desk_of_def desk_of_db_def approved_row_def)
  next
    case refused
    then show ?thesis using h1(2) by auto
  qed
qed

text \<open>
  C27: the key issued to an admitted outsider is never lost.  After the approval, whatever
  the building does next and however often storage fails, asking with the request's
  secret delivers the very same key, again and again, until the delivery is acknowledged
  with that secret; from then on the key is erased from the request.  Whoever does not
  know the secret can neither read the key nor end its delivery.
\<close>

theorem key_never_lost:
  assumes "desk_open h" and "desk_ok (desk_of h)" and "sto_conn (h_store h) = Some d"
    and "own_request sha d i secret = Some r" and "approve_join_request sha i who now h = (Approved, h1)" and "building_step\<^sup>*\<^sup>* h1 h2"
  shows "\<exists>r2. fst (desk_of h2) i = Some r2
     \<and> (if jr_bootstrap_acked_at r2 = None
        then fst (claim_join_request_bootstrap sha i secret t h2) = Some (new_key h)
           \<and> join_request_view sha h2 i secret = Some (''approved'', jr_name r2, True)
        else jr_mb_token r2 = None \<and> claim_join_request_bootstrap sha i secret t h2 = (None, h2)
           \<and> fst (ack_join_request_bootstrap sha i secret t h2) = Some False)
     \<and> (\<forall>guess. secret_hash sha guess \<noteq> secret_hash sha secret \<longrightarrow>
          claim_join_request_bootstrap sha i guess t h2 = (None, h2) \<and> ack_join_request_bootstrap sha i guess t h2 = (None, h2)
          \<and> join_request_view sha h2 i guess = None)"
proof -
  have key: "key_waiting i (secret_hash sha secret) (new_key h) (desk_of h1)"
    by (rule approved_key_waits [OF assms(2-5)])
  have o1: "desk_open h1" using approve_refines [OF assms(1), of sha i who now] assms(5) by (auto dest: refines_open)
  have r2: "refines h1 h2" by (rule building_refines [OF assms(6) o1])
  then have "key_waiting i (secret_hash sha secret) (new_key h) (desk_of h2)"
    using key.reach_keeps [OF _ key] by (simp add: refines_def)
  moreover obtain d2 where d2: "sto_conn (h_store h2) = Some d2" using refines_open [OF r2] by (auto simp: desk_open_def)
  ultimately obtain r2 where get: "hm_get (db_join_requests d2) i = Some r2" and r2: "jr_status r2 = ''approved''"
      "jr_secret_hash r2 = secret_hash sha secret" "jr_bootstrap_acked_at r2 = None \<and> jr_mb_token r2 = Some (new_key h)
        \<or> jr_bootstrap_acked_at r2 \<noteq> None \<and> jr_mb_token r2 = None"
    by (auto simp: key_waiting_def desk_of_def desk_of_db_def)
  have same: "h2\<lparr>h_store := h_store h2\<rparr> = h2" by simp
  note bootstrap = claim_join_request_bootstrap_def store_claim_join_request_bootstrap_def
    ack_join_request_bootstrap_def store_ack_join_request_bootstrap_def join_request_view_def
    store_join_request_view_def with_store_def own_request_def d2 get r2(1,2)
  have "fst (desk_of h2) i = Some r2" using get d2 by (simp add: desk_of_def desk_of_db_def)
  moreover have "if jr_bootstrap_acked_at r2 = None
      then fst (claim_join_request_bootstrap sha i secret t h2) = Some (new_key h)
         \<and> join_request_view sha h2 i secret = Some (''approved'', jr_name r2, True)
      else jr_mb_token r2 = None \<and> claim_join_request_bootstrap sha i secret t h2 = (None, h2)
         \<and> fst (ack_join_request_bootstrap sha i secret t h2) = Some False"
    using r2(3) by (auto simp: bootstrap)
  moreover have "claim_join_request_bootstrap sha i guess t h2 = (None, h2) \<and> ack_join_request_bootstrap sha i guess t h2 = (None, h2)
      \<and> join_request_view sha h2 i guess = None" if "secret_hash sha guess \<noteq> secret_hash sha secret" for guess
    using that by (auto simp: bootstrap)
  ultimately show ?thesis by blast
qed

theorem key_never_lost_witness:
  "fst (claim_join_request_bootstrap sample_sha ''jr_t2'' ''jrs_t3'' 9 sample_approved) = Some ''mb_t4''
     \<and> claim_join_request_bootstrap sample_sha ''jr_t2'' ''guess'' 9 sample_approved = (None, sample_approved)"
proof -
  let ?d = "the (sto_conn (h_store sample_asked_to_join))"
  let ?r = "the (own_request sample_sha ?d ''jr_t2'' ''jrs_t3'')"
  have a: "sto_conn (h_store sample_asked_to_join) = Some ?d" "own_request sample_sha ?d ''jr_t2'' ''jrs_t3'' = Some ?r"
    "fst (approve_join_request sample_sha ''jr_t2'' ''ada'' 6 sample_asked_to_join) = Approved"
    "new_key sample_asked_to_join = ''mb_t4''" "secret_hash sample_sha ''guess'' \<noteq> secret_hash sample_sha ''jrs_t3''"
    "fst (claim_join_request_bootstrap sample_sha ''jr_t2'' ''jrs_t3'' 9 sample_approved) \<noteq> None" by code_simp+
  have ref: "refines sample_hub sample_asked_to_join" by (rule building_refines [OF sample_joining_reached sample_hub_desk(1)])
  then have ok: "desk_ok (desk_of sample_asked_to_join)"
    unfolding refines_def by (blast intro: desk.reach_keeps sample_hub_desk(2))
  have run: "approve_join_request sample_sha ''jr_t2'' ''ada'' 6 sample_asked_to_join = (Approved, sample_approved)"
    using a(3) by (metis prod.collapse sample_approved_def)
  from key_never_lost [OF refines_open [OF ref] ok a(1,2) run rtranclp.rtrancl_refl, where t = 9] a(4-6)
  show ?thesis by (auto split: if_splits)
qed

end
