(* ===== verification/Scheduler.thy ===== *)
theory Scheduler
  imports Attention Waits
begin

text \<open>
  \<^verbatim>\<open>crates/server/src/hub/attention/scheduler.rs\<close>: the periodic sweep that turns overdue
  conditions of a room into reminders.  A sweep looks at the rooms one after the
  other; in each it tries the wait cycles, then the overdue waits, then the stale
  tasks, the stale goal and the silence, and stops at the first condition whose
  reminder became durable.  The reminders of all rooms are published afterwards.
  Every \<open>for\<close> loop of \<open>tick_care\<close> is a function of its own here, with the room under
  the sweep and the hub passed along.
\<close>

subsection \<open>The envelope of a reminder\<close>

record care_draft =
  cd_attention_key :: string
  cd_owner :: "string option"
  cd_owner_principal_id :: "string option"
  cd_group :: "string option"
  cd_reason :: CareReason
  cd_target :: "string option"
  cd_participants :: "string list"
  cd_subject :: string
  cd_attempt :: u32
  cd_at :: u64
  cd_escalated :: bool

text \<open>The middle dot and the arrow of the two texts, as the bytes of their UTF-8 encodings.\<close>

definition middle_dot :: string where
  "middle_dot = [CHR 0xC2, CHR 0xB7]"

definition right_arrow :: string where
  "right_arrow = [CHR 0xE2, CHR 0x86, CHR 0x92]"

definition goal_caretaker_subject :: "string \<Rightarrow> bool \<Rightarrow> string" where
  "goal_caretaker_subject subject escalated = subject @
     (if escalated
      then '' '' @ middle_dot @ '' Lead remains unavailable '' @ middle_dot @ '' operator review needed''
      else '' '' @ middle_dot @ '' Lead unavailable '' @ middle_dot @ '' loca-care holding continuity'')"

definition reminder_state :: "string option \<Rightarrow> u32 \<Rightarrow> bool \<Rightarrow> ReminderState" where
  "reminder_state owner attempt escalated =
     (if owner = Some ''loca-care'' then Stalled
      else if escalated \<or> 1 < attempt then Overdue
      else Running)"

definition draft_audience :: "room \<Rightarrow> care_draft \<Rightarrow> AttentionAudience" where
  "draft_audience r draft =
     (if cd_owner_principal_id draft \<noteq> None
      then (case cd_owner draft of Some name \<Rightarrow> AudPerson name | None \<Rightarrow> AudLead)
      else (case st_care_recipient (r_settings r) of
              RecLead \<Rightarrow> AudLead
            | RecAll \<Rightarrow> AudGroup (online_names r)
            | RecPerson name \<Rightarrow> AudPerson name))"

definition condition_attention_id :: "string \<Rightarrow> string \<Rightarrow> string" where
  "condition_attention_id room_name key = ''attention:'' @ room_name @ '':'' @ key"

definition make_care_signal ::
  "string \<Rightarrow> room \<Rightarrow> care_draft \<Rightarrow> hub \<Rightarrow> care_signal \<times> hub" where
  "make_care_signal room_name r draft h =
     (let (did, h1) = secure_token ''delivery_'' h
      in (rehome_caretaker_signal h1 room_name
            \<lparr> c_id = did, c_attention_id = condition_attention_id room_name (cd_attention_key draft),
              c_room = room_name, c_source_room = [], c_reason = cd_reason draft,
              c_audience = draft_audience r draft, c_owner = cd_owner draft,
              c_owner_principal_id = cd_owner_principal_id draft, c_group = cd_group draft,
              c_target = cd_target draft, c_participants = cd_participants draft,
              c_subject = cd_subject draft, c_created_by = ''care'', c_context = context_tail r,
              c_attempt = cd_attempt draft, c_at = cd_at draft, c_escalated = cd_escalated draft,
              c_state = reminder_state (cd_owner draft) (cd_attempt draft) (cd_escalated draft) \<rparr>,
          h1))"

subsection \<open>Publication\<close>

definition known_resolved :: "string \<Rightarrow> string \<Rightarrow> hub \<Rightarrow> bool" where
  "known_resolved source_room aid h =
     ((case get_room h source_room of None \<Rightarrow> False
       | Some r \<Rightarrow> (case hm_get (r_attentions r) aid of None \<Rightarrow> False
           | Some a \<Rightarrow> a_status a = AttResolved))
      \<or> (case store_attention (h_store h) aid of None \<Rightarrow> False
         | Some a \<Rightarrow> a_status a = AttResolved))"

text \<open>The ledger's view of the condition, or the one the envelope stands for.\<close>

definition care_attention :: "care_signal \<Rightarrow> hub \<Rightarrow> attention" where
  "care_attention s h = (case store_attention (h_store h) (stable_attention_id s) of
     Some a \<Rightarrow> a | None \<Rightarrow> attention_of_signal (stable_attention_id s) (origin_room s) s)"

definition display_care :: "care_signal \<Rightarrow> attention \<Rightarrow> room \<Rightarrow> room" where
  "display_care s a r =
     (let r1 = send (FCare s) r
      in send (FAttention a) (r1\<lparr>r_attentions := hm_insert (a_id a) a (r_attentions r1)\<rparr>))"

definition show_care :: "string \<Rightarrow> care_signal \<Rightarrow> hub \<Rightarrow> hub" where
  "show_care source_room s h =
     (let h1 = (case get_room h source_room of
                  None \<Rightarrow> h
                | Some r \<Rightarrow> put_room source_room (display_care s (care_attention s h) r) h)
      in if c_owner s = Some ''loca-care'' \<and> source_room \<noteq> h_home_room h1
         then put_room (h_home_room h1) (send (FCare s) (room_mut (h_home_room h1) h1)) h1
         else h1)"

definition publish_care_signal :: "string \<Rightarrow> care_signal \<Rightarrow> bool \<Rightarrow> hub \<Rightarrow> hub" where
  "publish_care_signal source_room s already_persisted h =
     (if known_resolved source_room (stable_attention_id s) h then h
      else if c_owner s = None then show_care source_room s h
      else let (res, h1) = (if already_persisted then (Ok (), h)
                            else with_store (enqueue_care (c_room s) s) h)
           in case res of
                Inl _ \<Rightarrow> h1
              | Inr _ \<Rightarrow> show_care source_room s
                  (h1\<lparr>h_care_deliveries := hm_insert (c_id s) (c_attention_id s) (h_care_deliveries h1)\<rparr>))"

subsection \<open>Guards\<close>

definition care_mark_of :: "room \<Rightarrow> string \<Rightarrow> care_mark" where
  "care_mark_of r key = (case hm_get (r_care_marks r) key of
     Some m \<Rightarrow> m | None \<Rightarrow> \<lparr> ck_last_signal_at = 0, ck_signal_count = 0 \<rparr>)"

definition cooldown_ms :: "room \<Rightarrow> u64" where
  "cooldown_ms r = st_care_cooldown_secs (r_settings r) * 1000"

definition mark_due :: "u64 \<Rightarrow> room \<Rightarrow> care_mark \<Rightarrow> bool" where
  "mark_due now r m = (ck_signal_count m \<le> st_care_max_attempts (r_settings r)
     \<and> \<not> (0 < ck_last_signal_at m \<and> u64_saturating_sub now (ck_last_signal_at m) < cooldown_ms r))"

definition next_mark :: "u64 \<Rightarrow> care_mark \<Rightarrow> care_mark" where
  "next_mark now m = \<lparr> ck_last_signal_at = now, ck_signal_count = u32_saturating_add (ck_signal_count m) 1 \<rparr>"

definition wait_due :: "u64 \<Rightarrow> room \<Rightarrow> wait_state \<Rightarrow> bool" where
  "wait_due now r w =
     (\<not> u64_saturating_sub now (w_since w) < st_care_wait_secs (r_settings r) * 1000
      \<and> \<not> (case w_last_signal_at w of None \<Rightarrow> False
            | Some at \<Rightarrow> u64_saturating_sub now at < cooldown_ms r)
      \<and> \<not> w_signal_count w > st_care_max_attempts (r_settings r))"

text \<open>\<open>already_owned_or_done\<close>: somebody claimed or resolved it, in memory or in the ledger.\<close>

definition already_owned_or_done :: "room \<Rightarrow> hub \<Rightarrow> string \<Rightarrow> bool" where
  "already_owned_or_done r h aid =
     ((case hm_get (r_attentions r) aid of None \<Rightarrow> False | Some a \<Rightarrow> a_status a \<noteq> AttOpen)
      \<or> (case store_attention (h_store h) aid of None \<Rightarrow> False | Some a \<Rightarrow> a_status a \<noteq> AttOpen))"

definition already_visible :: "room \<Rightarrow> hub \<Rightarrow> string \<Rightarrow> bool" where
  "already_visible r h aid = (hm_contains (r_attentions r) aid \<or> store_attention (h_store h) aid \<noteq> None)"

definition set_mark :: "string \<Rightarrow> care_mark \<Rightarrow> room \<Rightarrow> room" where
  "set_mark key m r = r\<lparr>r_care_marks := hm_insert key m (r_care_marks r)\<rparr>"

subsection \<open>Wait cycles\<close>

definition cycle_key :: "u64 \<Rightarrow> room \<Rightarrow> string list \<Rightarrow> string" where
  "cycle_key now r cycle =
     (let since = List.map_filter (\<lambda>name. map_option w_since (hm_get (r_waits r) name)) cycle;
          baseline = (if since = [] then now else Max (set since))
      in ''wait-cycle:'' @ join_with ''+'' cycle @ '':'' @ dec baseline)"

definition cycle_draft :: "u64 \<Rightarrow> room \<Rightarrow> string option \<Rightarrow> string list \<Rightarrow> u32 \<Rightarrow> care_draft" where
  "cycle_draft now r owner cycle attempt =
     \<lparr> cd_attention_key = cycle_key now r cycle, cd_owner = owner, cd_owner_principal_id = None,
       cd_group = None, cd_reason = WaitCycle, cd_target = None, cd_participants = cycle,
       cd_subject = ''wait cycle: '' @ join_with ('' '' @ right_arrow @ '' '') cycle,
       cd_attempt = attempt, cd_at = now,
       cd_escalated = (attempt > st_care_max_attempts (r_settings r)) \<rparr>"

fun care_cycles ::
  "u64 \<Rightarrow> string \<Rightarrow> string option \<Rightarrow> string list list \<Rightarrow> room \<Rightarrow> hub \<Rightarrow> care_signal option \<times> room \<times> hub" where
  "care_cycles now room_name owner [] r h = (None, r, h)"
| "care_cycles now room_name owner (cycle # cycles) r h =
     (let key = cycle_key now r cycle;
          mark = care_mark_of r key
      in if \<not> mark_due now r mark then care_cycles now room_name owner cycles r h
         else let m = next_mark now mark;
                  (s, h1) = make_care_signal room_name r
                    (cycle_draft now r owner cycle (ck_signal_count m)) h
              in if already_owned_or_done r h1 (c_attention_id s)
                 then care_cycles now room_name owner cycles r h1
                 else let (res, h2) = with_store (enqueue_care_with_mark room_name key
                        (ck_last_signal_at m) (ck_signal_count m) (c_room s) s) h1
                      in case res of
                           Inl _ \<Rightarrow> care_cycles now room_name owner cycles r h2
                         | Inr _ \<Rightarrow> (Some s, set_mark key m r, h2))"

subsection \<open>Overdue waits\<close>

definition signalled_wait :: "u64 \<Rightarrow> wait_state \<Rightarrow> wait_state" where
  "signalled_wait now w = w\<lparr>w_last_signal_at := Some now,
     w_signal_count := u32_saturating_add (w_signal_count w) 1\<rparr>"

definition wait_draft :: "u64 \<Rightarrow> room \<Rightarrow> string option \<Rightarrow> string \<Rightarrow> wait_state \<Rightarrow> care_draft" where
  "wait_draft now r owner name w =
     \<lparr> cd_attention_key = ''wait:'' @ name @ '':'' @ dec (w_since w), cd_owner = owner,
       cd_owner_principal_id = None, cd_group = None, cd_reason = WaitOverdue,
       cd_target = Some (w_waiting_for w), cd_participants = [w_waiter w, w_waiting_for w],
       cd_subject = w_waiter w @ '' waits for '' @ w_waiting_for w @ '': '' @ w_reason w,
       cd_attempt = w_signal_count w, cd_at = now,
       cd_escalated = (w_signal_count w > st_care_max_attempts (r_settings r)) \<rparr>"

fun care_waits ::
  "u64 \<Rightarrow> string \<Rightarrow> string option \<Rightarrow> string list \<Rightarrow> room \<Rightarrow> hub \<Rightarrow> care_signal option \<times> room \<times> hub" where
  "care_waits now room_name owner [] r h = (None, r, h)"
| "care_waits now room_name owner (name # names) r h = (case hm_get (r_waits r) name of
     None \<Rightarrow> care_waits now room_name owner names r h
   | Some w \<Rightarrow>
       if \<not> wait_due now r w then care_waits now room_name owner names r h
       else let w' = signalled_wait now w;
                (s, h1) = make_care_signal room_name r (wait_draft now r owner name w') h
            in if already_owned_or_done r h1 (c_attention_id s)
               then care_waits now room_name owner names r h1
               else let (res, h2) = with_store (enqueue_care_with_waits [w'] (c_room s) s) h1
                    in case res of
                         Inl _ \<Rightarrow> care_waits now room_name owner names r h2
                       | Inr _ \<Rightarrow> (Some s, r\<lparr>r_waits := hm_insert name w' (r_waits r)\<rparr>, h2))"

subsection \<open>Stale tasks, stale goal, silence\<close>

text \<open>Mark key, attention key, reason, target, participants and subject.\<close>

record care_candidate =
  cc_key :: string
  cc_attention_key :: string
  cc_reason :: CareReason
  cc_target :: "string option"
  cc_participants :: "string list"
  cc_subject :: string

definition task_candidate :: "task \<Rightarrow> care_candidate" where
  "task_candidate t =
     \<lparr> cc_key = ''task:'' @ dec (t_id t),
       cc_attention_key = ''task:'' @ dec (t_id t) @ '':'' @ dec (max (t_progress_at t) (t_created_at t)),
       cc_reason = TaskReminder, cc_target = t_assigned_to t,
       cc_participants = (case t_assigned_to t of None \<Rightarrow> [] | Some n \<Rightarrow> [n]),
       cc_subject = ''task #'' @ dec (t_id t) @ '' is still ''
         @ (if t_status t = TaskTaken then ''taken'' else ''open'') @ '': '' @ t_title t \<rparr>"

definition goal_candidate :: "goal \<Rightarrow> care_candidate" where
  "goal_candidate g =
     \<lparr> cc_key = ''goal:'' @ dec (g_id g),
       cc_attention_key = ''goal:'' @ dec (g_id g) @ '':'' @ dec (max (g_progress_at g) (g_created_at g)),
       cc_reason = GoalReminder, cc_target = None, cc_participants = [],
       cc_subject = ''Goal: '' @ g_outcome g \<rparr>"

definition silence_candidate :: "room \<Rightarrow> care_candidate" where
  "silence_candidate r =
     \<lparr> cc_key = ''silence'', cc_attention_key = ''silence:'' @ dec (r_last_msg_ms r),
       cc_reason = RoomSilence, cc_target = None, cc_participants = [],
       cc_subject = ''operator-enabled room silence check'' \<rparr>"

definition stale_tasks :: "u64 \<Rightarrow> room \<Rightarrow> task list" where
  "stale_tasks now r =
     (if st_care_task_secs (r_settings r) > 0
      then filter (\<lambda>t. u64_saturating_sub now (max (t_progress_at t) (t_created_at t))
                         \<ge> st_care_task_secs (r_settings r) * 1000)
             (sort_key t_id (filter (\<lambda>t. t_status t = TaskOpen \<or> t_status t = TaskTaken)
                (hm_values (r_tasks r))))
      else [])"

definition stale_goal :: "u64 \<Rightarrow> room \<Rightarrow> goal list" where
  "stale_goal now r = (case find (\<lambda>g. g_status g = GoalActive) (hm_values (r_goals r)) of
     None \<Rightarrow> []
   | Some g \<Rightarrow>
       let stale_after_secs = (case g_stale_after_secs g of
             Some s \<Rightarrow> s | None \<Rightarrow> st_care_goal_secs (r_settings r))
       in if stale_after_secs > 0
             \<and> u64_saturating_sub now (max (g_progress_at g) (g_created_at g)) \<ge> stale_after_secs * 1000
          then [g] else [])"

definition gone_silent :: "u64 \<Rightarrow> room \<Rightarrow> bool" where
  "gone_silent now r = (st_care_silence_secs (r_settings r) > 0 \<and> r_last_msg_ms r > 0
     \<and> u64_saturating_sub now (r_last_msg_ms r) \<ge> st_care_silence_secs (r_settings r) * 1000)"

definition reminder_candidates :: "u64 \<Rightarrow> room \<Rightarrow> care_candidate list" where
  "reminder_candidates now r = map task_candidate (stale_tasks now r)
     @ map goal_candidate (stale_goal now r)
     @ (if gone_silent now r then [silence_candidate r] else [])"

subsection \<open>Reminders\<close>

definition candidate_draft ::
  "u64 \<Rightarrow> room \<Rightarrow> string option \<Rightarrow> u32 \<Rightarrow> care_candidate \<Rightarrow> care_draft" where
  "candidate_draft now r owner attempt c =
     (let escalated = (attempt > st_care_max_attempts (r_settings r))
      in \<lparr> cd_attention_key = cc_attention_key c, cd_owner = owner, cd_owner_principal_id = None,
           cd_group = None, cd_reason = cc_reason c, cd_target = cc_target c,
           cd_participants = cc_participants c,
           cd_subject = (if cc_reason c = GoalReminder \<and> owner = Some ''loca-care''
              then goal_caretaker_subject (cc_subject c) escalated else cc_subject c),
           cd_attempt = attempt, cd_at = now, cd_escalated = escalated \<rparr>)"

text \<open>An \<open>Everyone\<close> reminder: one envelope for each member, addressed by principal.\<close>

definition member_draft ::
  "u64 \<Rightarrow> string \<Rightarrow> room \<Rightarrow> u32 \<Rightarrow> care_candidate \<Rightarrow> string \<Rightarrow> string \<Rightarrow> care_draft" where
  "member_draft now room_name r attempt c pid display_name =
     (candidate_draft now r (Some display_name) attempt c)
       \<lparr> cd_attention_key := cc_attention_key c @ '':'' @ pid, cd_owner_principal_id := Some pid,
         cd_group := Some (condition_attention_id room_name (cc_attention_key c)) \<rparr>"

text \<open>A retry goes to the members whose attention of this generation is still open.\<close>

definition open_recipients :: "string \<Rightarrow> room \<Rightarrow> care_candidate \<Rightarrow> (string \<times> string) list" where
  "open_recipients room_name r c =
     (let prefix = condition_attention_id room_name (cc_attention_key c) @ '':''
      in sort (List.map_filter (\<lambda>(i, a). case strip_prefix i prefix of
                   None \<Rightarrow> None | Some pid \<Rightarrow> map_option (Pair pid) (a_owner a))
           (filter (\<lambda>(i, a). starts_with i prefix \<and> a_status a = AttOpen) (r_attentions r))))"

definition generation_recipients ::
  "digest \<Rightarrow> string \<Rightarrow> room \<Rightarrow> care_mark \<Rightarrow> care_candidate \<Rightarrow> hub \<Rightarrow> (string \<times> string) list option" where
  "generation_recipients sha room_name r mark c h =
     (if ck_signal_count mark = 0 then everyone_recipients sha h room_name
      else Some (open_recipients room_name r c))"

fun everyone_signals ::
  "digest \<Rightarrow> u64 \<Rightarrow> string \<Rightarrow> room \<Rightarrow> u32 \<Rightarrow> care_candidate \<Rightarrow> (string \<times> string) list \<Rightarrow> hub \<Rightarrow>
     care_signal list \<times> hub" where
  "everyone_signals sha now room_name r attempt c [] h = ([], h)"
| "everyone_signals sha now room_name r attempt c ((pid, display_name) # recipients) h =
     (if \<not> everyone_recipient_active sha h room_name pid
      then everyone_signals sha now room_name r attempt c recipients h
      else let (s, h1) = make_care_signal room_name r
                 (member_draft now room_name r attempt c pid display_name) h;
               (signals, h2) = everyone_signals sha now room_name r attempt c recipients h1
           in (if already_owned_or_done r h1 (c_attention_id s) then signals else s # signals, h2))"

text \<open>
  One candidate: the signals that became durable (none when the candidate is
  skipped and the sweep of the room goes on), the room and the hub.
\<close>

definition remind_everyone ::
  "digest \<Rightarrow> u64 \<Rightarrow> string \<Rightarrow> care_candidate \<Rightarrow> room \<Rightarrow> hub \<Rightarrow> care_signal list \<times> room \<times> hub" where
  "remind_everyone sha now room_name c r h =
     (let mark = care_mark_of r (cc_key c);
          m = next_mark now mark
      in case generation_recipients sha room_name r mark c h of
           None \<Rightarrow> ([], r, h)
         | Some recipients \<Rightarrow>
             let (signals, h1) = everyone_signals sha now room_name r (ck_signal_count m) c recipients h
             in if signals = [] then ([], r, h1)
                else let (res, h2) = with_store (enqueue_everyone_care room_name (cc_key c)
                       (ck_last_signal_at m) (ck_signal_count m) signals) h1
                     in case res of
                          Inl _ \<Rightarrow> ([], r, h2)
                        | Inr _ \<Rightarrow> (signals, set_mark (cc_key c) m r, h2))"

definition remind_one ::
  "u64 \<Rightarrow> string \<Rightarrow> string option \<Rightarrow> care_candidate \<Rightarrow> room \<Rightarrow> hub \<Rightarrow> care_signal list \<times> room \<times> hub" where
  "remind_one now room_name owner c r h =
     (let m = next_mark now (care_mark_of r (cc_key c));
          (s, h1) = make_care_signal room_name r (candidate_draft now r owner (ck_signal_count m) c) h
      in if already_owned_or_done r h1 (c_attention_id s) then ([], r, h1)
         else if owner = None
         then (if already_visible r h1 (c_attention_id s) then ([], r, h1)
               else let (res, h2) = with_store (enqueue_care (c_room s) s) h1
                    in case res of Inl _ \<Rightarrow> ([], r, h2) | Inr _ \<Rightarrow> ([s], r, h2))
         else let (res, h2) = with_store (enqueue_care_with_mark room_name (cc_key c)
                (ck_last_signal_at m) (ck_signal_count m) (c_room s) s) h1
              in case res of
                   Inl _ \<Rightarrow> ([], r, h2)
                 | Inr _ \<Rightarrow> ([s], set_mark (cc_key c) m r, h2))"

fun care_reminders ::
  "digest \<Rightarrow> u64 \<Rightarrow> string \<Rightarrow> string option \<Rightarrow> bool \<Rightarrow> care_candidate list \<Rightarrow> room \<Rightarrow> hub \<Rightarrow>
     care_signal list \<times> room \<times> hub" where
  "care_reminders sha now room_name owner is_everyone [] r h = ([], r, h)"
| "care_reminders sha now room_name owner is_everyone (c # cs) r h =
     (if \<not> mark_due now r (care_mark_of r (cc_key c))
      then care_reminders sha now room_name owner is_everyone cs r h
      else let (signals, r1, h1) = (if is_everyone then remind_everyone sha now room_name c r h
                                    else remind_one now room_name owner c r h)
           in if signals = [] then care_reminders sha now room_name owner is_everyone cs r1 h1
              else (signals, r1, h1))"

subsection \<open>The sweep\<close>

definition sweep_waits ::
  "u64 \<Rightarrow> string \<Rightarrow> string option \<Rightarrow> room \<Rightarrow> hub \<Rightarrow> care_signal option \<times> room \<times> hub" where
  "sweep_waits now room_name owner r h =
     (let cycles = (if owner \<noteq> None then wait_cycles r else []);
          cycle_members = concat cycles;
          (found, r1, h1) = care_cycles now room_name owner cycles r h
      in if found \<noteq> None \<or> owner = None then (found, r1, h1)
         else care_waits now room_name owner
                (sort (filter (\<lambda>n. n \<notin> set cycle_members) (hm_keys (r_waits r1)))) r1 h1)"

definition sweep_room ::
  "digest \<Rightarrow> u64 \<Rightarrow> string \<Rightarrow> hub \<Rightarrow> (string \<times> care_signal \<times> bool) list \<times> hub" where
  "sweep_room sha now room_name h = (case get_room h room_name of
     None \<Rightarrow> ([], h)
   | Some r \<Rightarrow>
       if st_archived (r_settings r) then ([], h)
       else let owner = care_owner now h room_name;
                is_everyone = (st_care_recipient (r_settings r) = RecAll);
                (found, r1, h1) = sweep_waits now room_name owner r h;
                (signals, r2, h2) = (case found of
                   Some s \<Rightarrow> ([s], r1, h1)
                 | None \<Rightarrow> care_reminders sha now room_name owner is_everyone
                             (reminder_candidates now r1) r1 h1)
            in (map (\<lambda>s. (room_name, s, True)) signals, put_room room_name r2 h2))"

fun care_sweep ::
  "digest \<Rightarrow> u64 \<Rightarrow> string list \<Rightarrow> hub \<Rightarrow> (string \<times> care_signal \<times> bool) list \<times> hub" where
  "care_sweep sha now [] h = ([], h)"
| "care_sweep sha now (name # names) h =
     (let (pending, h1) = sweep_room sha now name h;
          (rest, h2) = care_sweep sha now names h1
      in (pending @ rest, h2))"

definition publish_pending :: "(string \<times> care_signal \<times> bool) list \<Rightarrow> hub \<Rightarrow> hub" where
  "publish_pending = fold (\<lambda>(room, s, persisted). publish_care_signal room s persisted)"

definition tick_care :: "digest \<Rightarrow> u64 \<Rightarrow> hub \<Rightarrow> hub" where
  "tick_care sha now h =
     (let (pending, h1) = care_sweep sha now (hm_keys (h_rooms h)) h in publish_pending pending h1)"

end
