(* ===== verification/Scheduler_Laws.thy ===== *)
theory Scheduler_Laws
  imports Scheduler
begin

text \<open>
  What one sweep does to one room.  The conditions of a room (its waits, wait cycles,
  tasks, goals and its silence) do not change under a sweep; each has a count of the
  reminders sent for it, and a sweep that reminds of a room either raises exactly one
  of these counts by one or makes one attention visible that was not.
\<close>

subsection \<open>Conditions of a room\<close>

datatype care_condition = OnMark string | OnWait string

definition condition_count :: "room \<Rightarrow> care_condition \<Rightarrow> nat" where
  "condition_count r c = (case c of
     OnMark key \<Rightarrow> ck_signal_count (care_mark_of r key)
   | OnWait name \<Rightarrow> (case hm_get (r_waits r) name of None \<Rightarrow> 0 | Some w \<Rightarrow> w_signal_count w))"

definition work_candidates :: "room \<Rightarrow> care_candidate set" where
  "work_candidates r = task_candidate ` set (hm_values (r_tasks r))
     \<union> goal_candidate ` set (hm_values (r_goals r)) \<union> {silence_candidate r}"

definition room_conditions :: "room \<Rightarrow> care_condition set" where
  "room_conditions r = OnWait ` set (hm_keys (r_waits r))
     \<union> (OnMark \<circ> cycle_key 0 r) ` set (wait_cycles r) \<union> (OnMark \<circ> cc_key) ` work_candidates r"

definition room_reminders :: "string \<Rightarrow> room \<Rightarrow> string set" where
  "room_reminders n r = (condition_attention_id n \<circ> cc_attention_key) ` work_candidates r"

text \<open>A room with the same conditions: only counters, attentions and frames may differ.\<close>

definition wait_edge :: "wait_state \<Rightarrow> string \<times> string \<times> string \<times> u64" where
  "wait_edge w = (w_room w, w_waiter w, w_waiting_for w, w_since w)"

definition akin :: "room \<Rightarrow> room \<Rightarrow> bool" where
  "akin r0 r = (r_tasks r = r_tasks r0 \<and> r_goals r = r_goals r0 \<and> r_settings r = r_settings r0
     \<and> r_last_msg_ms r = r_last_msg_ms r0 \<and> hm_keys (r_waits r) = hm_keys (r_waits r0)
     \<and> (\<forall>x. map_option wait_edge (hm_get (r_waits r) x) = map_option wait_edge (hm_get (r_waits r0) x)))"

lemma akin_refl [simp]: "akin r r"
  by (simp add: akin_def)

lemma akin_fields:
  assumes "akin r0 r"
  shows "r_settings r = r_settings r0" "r_tasks r = r_tasks r0" "r_goals r = r_goals r0"
    "r_last_msg_ms r = r_last_msg_ms r0" "hm_keys (r_waits r) = hm_keys (r_waits r0)"
  using assms by (simp_all add: akin_def)

lemma akin_cong:
  assumes "akin r0 r" and "r_tasks r' = r_tasks r" "r_goals r' = r_goals r" "r_settings r' = r_settings r"
    "r_last_msg_ms r' = r_last_msg_ms r" "r_waits r' = r_waits r"
  shows "akin r0 r'"
  using assms by (simp add: akin_def)

lemma akin_edge:
  assumes "akin r0 r" and "hm_get (r_waits r) x = Some w"
  obtains w0 where "hm_get (r_waits r0) x = Some w0" and "wait_edge w = wait_edge w0"
proof -
  have "map_option wait_edge (hm_get (r_waits r0) x) = Some (wait_edge w)"
    using assms unfolding akin_def by (metis option.simps(9))
  then show ?thesis using that by auto
qed

lemma akin_waits_ok:
  assumes "akin r0 r" and "waits_ok n r0"
  shows "waits_ok n r"
  unfolding waits_ok_def
proof (intro conjI allI impI)
  show "hm_ok (r_waits r)"
    using assms by (simp add: akin_def waits_ok_def hm_ok_def hm_keys_def)
  fix x w
  assume "hm_get (r_waits r) x = Some w"
  with assms(1) obtain w0 where "hm_get (r_waits r0) x = Some w0" "wait_edge w = wait_edge w0"
    by (rule akin_edge)
  with assms(2) show "w_waiter w = x" "w_room w = n" "w_waiting_for w \<noteq> x"
    by (simp_all add: waits_ok_def wait_edge_def)
qed

lemma hm_keys_insert_present: "hm_get m k \<noteq> None \<Longrightarrow> hm_keys (hm_insert k v m) = hm_keys m"
proof (induction m)
  case (Cons kv m)
  then show ?case by (cases kv) (auto simp: hm_keys_def hm_insert_def hm_get_def split: if_splits)
qed simp

lemma akin_signalled:
  assumes "akin r0 r" and "hm_get (r_waits r) x = Some w"
  shows "akin r0 (r\<lparr>r_waits := hm_insert x (signalled_wait now w) (r_waits r)\<rparr>)"
proof -
  have e: "map_option wait_edge (hm_get (r_waits r0) x) = Some (wait_edge w)"
    using assms unfolding akin_def by (metis option.simps(9))
  have "wait_edge (signalled_wait now w) = wait_edge w"
    by (simp add: wait_edge_def signalled_wait_def)
  with assms e show ?thesis
    by (auto simp: akin_def hm_keys_insert_present)
qed

lemma akin_map:
  assumes "akin r0 r" and "\<And>w. f w = g (wait_edge w)"
  shows "map_option f (hm_get (r_waits r) x) = map_option f (hm_get (r_waits r0) x)"
proof -
  have f: "map_option f o' = map_option g (map_option wait_edge o')" for o'
    using assms(2) by (cases o') simp_all
  show ?thesis unfolding f using assms(1) by (simp add: akin_def)
qed

subsection \<open>The conditions are stable\<close>

lemma akin_wait_next:
  assumes "akin r0 r" and "wait_edge p = wait_edge p0"
  shows "wait_next r p x = wait_next r0 p0 x"
  using assms(2) akin_map [OF assms(1), of w_waiting_for "\<lambda>(_, _, y, _). y"]
  by (simp add: wait_next_def wait_edge_def)

lemma akin_wait_walk:
  assumes "akin r0 r" and "wait_edge p = wait_edge p0"
  shows "wait_walk r p seen path x = wait_walk r0 p0 seen path x"
  using assms
proof (induction r p seen path x rule: wait_walk.induct)
  case (1 r p seen path x)
  have w: "w_waiter p0 = w_waiter p" using 1(3) by (simp add: wait_edge_def)
  note nx = akin_wait_next [OF 1(2,3), of x]
  show ?case
  proof (cases "x \<in> set seen \<or> wait_next r p x = None")
    case True
    then show ?thesis
      using nx by (auto simp: wait_walk.simps [of r] wait_walk.simps [of r0])
  next
    case False
    then obtain y where y: "x \<notin> set seen" "wait_next r p x = Some y" by auto
    then show ?thesis
      using 1(1) [OF y] 1(2,3) nx w
      by (simp add: wait_walk.simps [of r p seen] wait_walk.simps [of r0 p0 seen])
  qed
qed

lemma akin_cycles:
  assumes "akin r0 r"
  shows "wait_cycles r = wait_cycles r0"
proof -
  have step: "cycle_step r x acc = cycle_step r0 x acc" for x acc
  proof (cases "hm_get (r_waits r) x")
    case None
    then have "hm_get (r_waits r0) x = None"
      using assms unfolding akin_def by (metis map_option_is_None)
    with None show ?thesis by (simp add: cycle_step_def)
  next
    case (Some w)
    then obtain w0 where w0: "hm_get (r_waits r0) x = Some w0" "wait_edge w = wait_edge w0"
      using assms by (elim akin_edge)
    then have "w_waiter w = w_waiter w0" by (simp add: wait_edge_def)
    then have "wait_cycle_after r w = wait_cycle_after r0 w0"
      unfolding wait_cycle_after_def by (simp only: akin_wait_walk [OF assms w0(2)])
    with Some w0 show ?thesis by (simp add: cycle_step_def)
  qed
  then have "cycle_step r = cycle_step r0" by blast
  then show ?thesis by (simp add: wait_cycles_def akin_fields [OF assms])
qed

lemma akin_cycle_key:
  assumes "akin r0 r"
  shows "cycle_key now r c = cycle_key now r0 c"
  using akin_map [OF assms, of w_since "\<lambda>(_, _, _, t). t"]
  by (simp add: cycle_key_def wait_edge_def)

text \<open>Every participant of a cycle waits, so the baseline never falls back on the clock.\<close>

lemma cycle_key_timeless:
  assumes "waits_ok n r" and "c \<in> set (wait_cycles r)"
  shows "cycle_key now r c = cycle_key 0 r c"
proof -
  have "is_wait_cycle r c" using wait_cycles_facts(1) [OF assms(1)] assms(2) by blast
  then have "c \<noteq> []" "stored_next r (hd c) \<noteq> None"
    by (auto simp: is_wait_cycle_def hd_conv_nth)
  then have "List.map_filter (\<lambda>name. map_option w_since (hm_get (r_waits r) name)) c \<noteq> []"
    by (cases c) (auto simp: stored_next_def List.map_filter_simps split: option.split)
  then show ?thesis by (simp add: cycle_key_def)
qed

lemma akin_candidates:
  assumes "akin r0 r" and "c \<in> set (reminder_candidates now r)"
  shows "c \<in> work_candidates r0"
proof -
  have "set (stale_tasks now r) \<subseteq> set (hm_values (r_tasks r))"
    by (auto simp: stale_tasks_def)
  moreover have "set (stale_goal now r) \<subseteq> set (hm_values (r_goals r))"
    by (auto simp: stale_goal_def Let_def find_Some_iff find_Some_iff2 split: option.splits)
  moreover have "silence_candidate r = silence_candidate r0"
    by (simp add: silence_candidate_def akin_fields [OF assms(1)])
  ultimately show ?thesis
    using assms(2) akin_fields [OF assms(1)]
    by (auto simp: reminder_candidates_def work_candidates_def split: if_splits)
qed

subsection \<open>One step of a sweep\<close>

text \<open>The attempt number of an envelope, when it escalates, and its time.\<close>

definition timely :: "nat \<Rightarrow> u64 \<Rightarrow> care_signal \<Rightarrow> bool" where
  "timely limit now s = (1 \<le> c_attempt s \<and> c_attempt s \<le> Suc limit
     \<and> (c_escalated s \<longleftrightarrow> c_attempt s = Suc limit) \<and> c_at s = now \<and> c_attention_id s \<noteq> [])"

definition ledger_grows :: "hub \<Rightarrow> hub \<Rightarrow> bool" where
  "ledger_grows h h' = (h_default_settings h' = h_default_settings h \<and> (\<forall>i. store_attention (h_store h) i \<noteq> None \<longrightarrow> store_attention (h_store h') i \<noteq> None))"

definition raises :: "room \<Rightarrow> care_condition \<Rightarrow> room \<Rightarrow> bool" where
  "raises r c r' = (condition_count r c \<le> st_care_max_attempts (r_settings r)
     \<and> (\<forall>c'. condition_count r' c' = condition_count r c' + (if c' = c then 1 else 0)))"

definition swept ::
  "string \<Rightarrow> u64 \<Rightarrow> room \<Rightarrow> care_signal list \<Rightarrow> room \<Rightarrow> hub \<Rightarrow> room \<Rightarrow> hub \<Rightarrow> bool" where
  "swept n now r0 signals r h r' h' =
     (akin r0 r' \<and> r_attentions r' = r_attentions r \<and> h_rooms h' = h_rooms h \<and> ledger_grows h h'
      \<and> (\<forall>s \<in> set signals. timely (st_care_max_attempts (r_settings r0)) now s)
      \<and> (if signals = [] then r' = r
         else (\<exists>c \<in> room_conditions r0. raises r c r')
           \<or> (r' = r \<and> (\<exists>s. signals = [s] \<and> c_attention_id s \<in> room_reminders n r0
                \<and> \<not> already_visible r h (c_attention_id s)))))"

lemma ledger_grows_refl [simp]: "ledger_grows h h"
  by (simp add: ledger_grows_def)

lemma ledger_grows_trans: "ledger_grows h h1 \<Longrightarrow> ledger_grows h1 h2 \<Longrightarrow> ledger_grows h h2"
  by (auto simp: ledger_grows_def)

lemma already_visible_grows:
  "already_visible r h i \<Longrightarrow> ledger_grows h h' \<Longrightarrow> already_visible r h' i"
  by (auto simp: already_visible_def ledger_grows_def)

lemma swept_idle: "akin r0 r \<Longrightarrow> h_rooms h' = h_rooms h \<Longrightarrow> ledger_grows h h' \<Longrightarrow> swept n now r0 [] r h r h'"
  by (simp add: swept_def)

lemma swept_trans:
  assumes "h_rooms h1 = h_rooms h" "ledger_grows h h1" and "swept n now r0 sigs r h1 r' h'"
  shows "swept n now r0 sigs r h r' h'"
proof -
  have seen: "\<not> already_visible r h1 i \<Longrightarrow> \<not> already_visible r h i" for i
    using already_visible_grows [OF _ assms(2)] by blast
  have "ledger_grows h h'" and "h_rooms h' = h_rooms h"
    using assms(1,3) ledger_grows_trans [OF assms(2)] by (auto simp: swept_def)
  with assms(3) seen show ?thesis unfolding swept_def by metis
qed

lemma rehome_fields [simp]:
  "c_attempt (rehome_caretaker_signal h n s) = c_attempt s"
  "c_escalated (rehome_caretaker_signal h n s) = c_escalated s"
  "c_at (rehome_caretaker_signal h n s) = c_at s" "c_owner (rehome_caretaker_signal h n s) = c_owner s"
  "c_attention_id (rehome_caretaker_signal h n s) = c_attention_id s"
  by (simp_all add: rehome_caretaker_signal_def)

lemma make_care_signal_facts:
  assumes "make_care_signal n r d h = (s, h1)"
  shows "h_rooms h1 = h_rooms h" "h_store h1 = h_store h" "c_attempt s = cd_attempt d"
    "c_escalated s = cd_escalated d" "c_at s = cd_at d" "c_owner s = cd_owner d"
    "c_attention_id s = condition_attention_id n (cd_attention_key d)" "ledger_grows h h1"
  using assms
  by (auto simp: make_care_signal_def secure_token_def ledger_grows_def Let_def)

lemma write_care_contains:
  "hm_contains (db_attentions d) i \<or> i = stable_attention_id s \<Longrightarrow>
     hm_contains (db_attentions (write_care room s d)) i"
  by (auto simp: hm_contains_def write_care_def Let_def split: option.split)

lemma fold_write_care_contains:
  "hm_contains (db_attentions d) i \<Longrightarrow>
     hm_contains (db_attentions (fold (\<lambda>s. write_care (c_room s) s) sigs d)) i"
  by (induction sigs arbitrary: d) (simp_all add: write_care_contains)

lemma store_attention_known:
  "store_attention s i \<noteq> None \<longleftrightarrow> (\<exists>d. sto_conn s = Some d \<and> hm_contains (db_attentions d) i)"
  by (simp add: store_attention_def hm_contains_def split: option.split)

lemma write_grows:
  assumes "with_store (run_write f) h = (res, h')"
    and "\<And>d i. hm_contains (db_attentions d) i \<Longrightarrow> hm_contains (db_attentions (f d)) i"
  shows "h_rooms h' = h_rooms h" and "ledger_grows h h'"
proof -
  have "run_write f (h_store h) = (res, h_store h')" using with_store_store [OF assms(1)] .
  then have "sto_conn (h_store h') = sto_conn (h_store h) \<or> sto_conn (h_store h') = map_option f (sto_conn (h_store h))"
    by (cases res) (auto dest: run_write_errD run_write_okD)
  then show "ledger_grows h h'"
    unfolding ledger_grows_def store_attention_known using assms(2) with_store_frame [OF assms(1)]
    by (cases h, cases h') auto
  show "h_rooms h' = h_rooms h" using with_store_rooms [OF assms(1)] by simp
qed

lemma enqueue_grows:
  assumes st: "with_store f h = (res, h')"
    and f: "f = enqueue_care room s \<or> f = enqueue_care_with_mark n key at k room s
      \<or> f = enqueue_care_with_waits ws room s \<or> f = enqueue_everyone_care n key at k sigs"
  shows "h_rooms h' = h_rooms h" and "ledger_grows h h'"
proof -
  obtain g where "f = run_write g"
    and "\<And>d i. hm_contains (db_attentions d) i \<Longrightarrow> hm_contains (db_attentions (g d)) i"
    using f that
    by (elim disjE) (auto simp: enqueue_care_def enqueue_care_with_mark_def enqueue_care_with_waits_def
      enqueue_everyone_care_def write_care_contains fold_write_care_contains)
  with st show "h_rooms h' = h_rooms h" and "ledger_grows h h'"
    using write_grows [of g h res h'] by simp_all
qed

lemma saturating_next: "k \<le> limit \<Longrightarrow> limit < u32_max \<Longrightarrow> u32_saturating_add k 1 = Suc k"
  by (simp add: u32_saturating_add_def)

lemma condition_count_simps [simp]:
  "condition_count r (OnMark key) = ck_signal_count (care_mark_of r key)"
  "condition_count r (OnWait x) = (case hm_get (r_waits r) x of None \<Rightarrow> 0 | Some w \<Rightarrow> w_signal_count w)"
  by (simp_all add: condition_count_def)

lemma care_mark_of_set [simp]:
  "care_mark_of (set_mark key m r) key' = (if key' = key then m else care_mark_of r key')"
  "r_waits (set_mark key m r) = r_waits r"
  by (simp_all add: care_mark_of_def set_mark_def)

lemma raises_mark:
  assumes "mark_due now r (care_mark_of r key)" and "st_care_max_attempts (r_settings r) < u32_max"
  shows "raises r (OnMark key) (set_mark key (next_mark now (care_mark_of r key)) r)"
proof -
  have k: "ck_signal_count (care_mark_of r key) \<le> st_care_max_attempts (r_settings r)"
    using assms(1) by (simp add: mark_due_def)
  then have "ck_signal_count (next_mark now (care_mark_of r key)) = Suc (ck_signal_count (care_mark_of r key))"
    using saturating_next [OF k assms(2)] by (simp add: next_mark_def)
  with k have "condition_count (set_mark key (next_mark now (care_mark_of r key)) r) c
      = condition_count r c + (if c = OnMark key then 1 else 0)" for c
    by (cases c) simp_all
  with k show ?thesis by (simp add: raises_def)
qed

lemma raises_wait:
  assumes w: "hm_get (r_waits r) x = Some w" "wait_due now r w"
    and "st_care_max_attempts (r_settings r) < u32_max"
  shows "raises r (OnWait x) (r\<lparr>r_waits := hm_insert x (signalled_wait now w) (r_waits r)\<rparr>)"
proof -
  have k: "w_signal_count w \<le> st_care_max_attempts (r_settings r)"
    using w(2) by (simp add: wait_due_def)
  then have "w_signal_count (signalled_wait now w) = Suc (w_signal_count w)"
    using saturating_next [OF k assms(3)] by (simp add: signalled_wait_def)
  moreover have "care_mark_of (r\<lparr>r_waits := ws\<rparr>) key = care_mark_of r key" for ws key
    by (simp add: care_mark_of_def)
  ultimately have "condition_count (r\<lparr>r_waits := hm_insert x (signalled_wait now w) (r_waits r)\<rparr>) c
      = condition_count r c + (if c = OnWait x then 1 else 0)" for c
    using w(1) by (cases c) simp_all
  with k w show ?thesis by (simp add: raises_def)
qed

lemma akin_set_mark [simp]: "akin r0 (set_mark key m r) = akin r0 r"
  by (simp add: akin_def set_mark_def)

lemma set_mark_attentions [simp]: "r_attentions (set_mark key m r) = r_attentions r"
  by (simp add: set_mark_def)

lemma timely_mark:
  assumes "mark_due now r m" and "st_care_max_attempts (r_settings r) < u32_max"
    and "c_attempt s = ck_signal_count (next_mark now m)" "c_escalated s = (c_attempt s > st_care_max_attempts (r_settings r))"
    and "c_at s = now" "c_attention_id s = condition_attention_id n key"
  shows "timely (st_care_max_attempts (r_settings r)) now s"
  using assms by (auto simp: timely_def mark_due_def next_mark_def u32_saturating_add_def condition_attention_id_def)

subsection \<open>The three phases\<close>

definition found_list :: "care_signal option \<Rightarrow> care_signal list" where
  "found_list found = (case found of None \<Rightarrow> [] | Some s \<Rightarrow> [s])"

lemma found_list_simps [simp]: "found_list None = []" "found_list (Some s) = [s]"
  by (simp_all add: found_list_def)

lemma swept_raise:
  assumes "akin r0 r'" "r_attentions r' = r_attentions r" "h_rooms h' = h_rooms h" "ledger_grows h h'"
    and "\<And>s. s \<in> set sigs \<Longrightarrow> timely (st_care_max_attempts (r_settings r0)) now s"
    and "sigs \<noteq> []" "c \<in> room_conditions r0" "raises r c r'"
  shows "swept n now r0 sigs r h r' h'"
  using assms by (auto simp: swept_def)

lemma care_cycles_swept:
  assumes ok: "waits_ok n r0" and akin: "akin r0 r" and lim: "st_care_max_attempts (r_settings r0) < u32_max"
    and "set cycles \<subseteq> set (wait_cycles r0)" and "care_cycles now n owner cycles r h = (found, r', h')"
  shows "swept n now r0 (found_list found) r h r' h'"
  using assms(4,5)
proof (induction cycles arbitrary: h)
  case Nil
  then show ?case using akin by (auto intro: swept_idle)
next
  case (Cons c cs)
  define key where "key = cycle_key now r c"
  define m where "m = next_mark now (care_mark_of r key)"
  have later: "swept n now r0 (found_list found) r h r' h'"
    if "care_cycles now n owner cs r h1 = (found, r', h')" "h_rooms h1 = h_rooms h" "ledger_grows h h1" for h1
    using swept_trans [OF that(2,3) Cons.IH] that(1) Cons.prems(1) by simp
  have K: "OnMark key \<in> room_conditions r0"
    using Cons.prems(1) akin_cycle_key [OF akin] cycle_key_timeless [OF ok, of c now]
    by (force simp: room_conditions_def key_def)
  have lim': "st_care_max_attempts (r_settings r) < u32_max" using lim akin_fields [OF akin] by simp
  obtain s h1 where mk: "make_care_signal n r (cycle_draft now r owner c (ck_signal_count m)) h = (s, h1)"
    by fastforce
  note f = make_care_signal_facts [OF mk]
  obtain res h2 where st: "with_store (enqueue_care_with_mark n key (ck_last_signal_at m)
      (ck_signal_count m) (c_room s) s) h1 = (res, h2)" by fastforce
  note g = enqueue_grows [OF st, of "c_room s" s n key "ck_last_signal_at m" "ck_signal_count m", simplified]
  have h2: "h_rooms h2 = h_rooms h" "ledger_grows h h2" using f g ledger_grows_trans by auto
  consider (skip) "\<not> mark_due now r (care_mark_of r key)"
    | (taken) "mark_due now r (care_mark_of r key)" "already_owned_or_done r h1 (c_attention_id s)"
    | (failed) e where "mark_due now r (care_mark_of r key)"
        "\<not> already_owned_or_done r h1 (c_attention_id s)" "res = Inl e"
    | (sent) "mark_due now r (care_mark_of r key)"
        "\<not> already_owned_or_done r h1 (c_attention_id s)" "res = Inr ()"
    by (cases res) auto
  then show ?case
  proof cases
    case skip
    then show ?thesis using Cons.prems(2) later [of h] by (simp add: key_def Let_def)
  next
    case taken
    then show ?thesis
      using Cons.prems(2) mk later [of h1] f by (simp add: key_def m_def Let_def)
  next
    case failed
    then show ?thesis
      using Cons.prems(2) mk st later [of h2] h2 by (simp add: key_def m_def Let_def)
  next
    case sent
    then have out: "found = Some s" "r' = set_mark key m r" "h' = h2"
      using Cons.prems(2) mk st by (auto simp: key_def m_def Let_def)
    have "timely (st_care_max_attempts (r_settings r)) now s"
      using timely_mark [OF sent(1) lim'] f by (simp add: cycle_draft_def m_def)
    then show ?thesis
      unfolding out using h2 akin akin_fields [OF akin] K raises_mark [OF sent(1) lim']
      by (intro swept_raise [where c = "OnMark key"]) (auto simp: m_def)
  qed
qed

lemma care_waits_swept:
  assumes akin: "akin r0 r" and lim: "st_care_max_attempts (r_settings r0) < u32_max"
    and "care_waits now n owner names r h = (found, r', h')"
  shows "swept n now r0 (found_list found) r h r' h'"
  using assms(3)
proof (induction names arbitrary: h)
  case Nil
  then show ?case using akin by (auto intro: swept_idle)
next
  case (Cons x xs)
  have later: "swept n now r0 (found_list found) r h r' h'"
    if "care_waits now n owner xs r h1 = (found, r', h')" "h_rooms h1 = h_rooms h" "ledger_grows h h1" for h1
    using swept_trans [OF that(2,3) Cons.IH] that(1) by simp
  have lim': "st_care_max_attempts (r_settings r) < u32_max" using lim akin_fields [OF akin] by simp
  show ?case
  proof (cases "hm_get (r_waits r) x")
    case None
    then show ?thesis using Cons.prems later [of h] by simp
  next
    case (Some w)
    define w' where "w' = signalled_wait now w"
    have K: "OnWait x \<in> room_conditions r0"
      using Some akin_fields(5) [OF akin] by (metis UnCI hm_keys_iff imageI option.discI room_conditions_def)
    obtain s h1 where mk: "make_care_signal n r (wait_draft now r owner x w') h = (s, h1)"
      by fastforce
    note f = make_care_signal_facts [OF mk]
    obtain res h2 where st: "with_store (enqueue_care_with_waits [w'] (c_room s) s) h1 = (res, h2)"
      by fastforce
    note g = enqueue_grows [OF st, of "c_room s" s _ _ _ _ "[w']", simplified]
    have h2: "h_rooms h2 = h_rooms h" "ledger_grows h h2" using f g ledger_grows_trans by auto
    consider (skip) "\<not> wait_due now r w"
      | (taken) "wait_due now r w" "already_owned_or_done r h1 (c_attention_id s)"
      | (failed) e where "wait_due now r w"
          "\<not> already_owned_or_done r h1 (c_attention_id s)" "res = Inl e"
      | (sent) "wait_due now r w" "\<not> already_owned_or_done r h1 (c_attention_id s)" "res = Inr ()"
      by (cases res) auto
    then show ?thesis
    proof cases
      case skip
      then show ?thesis using Cons.prems Some later [of h] by simp
    next
      case taken
      then show ?thesis using Cons.prems Some mk later [of h1] f by (simp add: w'_def Let_def)
    next
      case failed
      then show ?thesis using Cons.prems Some mk st later [of h2] h2 by (simp add: w'_def Let_def)
    next
      case sent
      then have out: "found = Some s" "r' = r\<lparr>r_waits := hm_insert x w' (r_waits r)\<rparr>" "h' = h2"
        using Cons.prems Some mk st by (auto simp: w'_def Let_def)
      have k: "w_signal_count w \<le> st_care_max_attempts (r_settings r)"
        using sent(1) by (simp add: wait_due_def)
      have "timely (st_care_max_attempts (r_settings r)) now s"
        using k saturating_next [OF k lim'] f
        by (auto simp: timely_def wait_draft_def w'_def signalled_wait_def condition_attention_id_def)
      then show ?thesis
        unfolding out
        using h2 akin_signalled [OF akin Some] akin_fields [OF akin] K raises_wait [OF Some sent(1) lim']
        by (intro swept_raise [where c = "OnWait x"]) (auto simp: w'_def)
    qed
  qed
qed

lemma everyone_signals_facts:
  assumes "everyone_signals sha now n r k c recipients h = (sigs, h')"
  shows "h_rooms h' = h_rooms h" and "ledger_grows h h'"
    and "s \<in> set sigs \<Longrightarrow> c_attempt s = k \<and> c_escalated s = (k > st_care_max_attempts (r_settings r))
      \<and> c_at s = now \<and> (\<exists>key. c_attention_id s = condition_attention_id n key)"
proof -
  have "h_rooms h' = h_rooms h \<and> ledger_grows h h'
      \<and> (\<forall>s \<in> set sigs. c_attempt s = k \<and> c_escalated s = (k > st_care_max_attempts (r_settings r))
      \<and> c_at s = now \<and> (\<exists>key. c_attention_id s = condition_attention_id n key))"
    using assms
  proof (induction recipients arbitrary: h sigs h')
    case (Cons p ps)
    obtain pid name where p: "p = (pid, name)" by force
    obtain s1 h1 where mk: "make_care_signal n r (member_draft now n r k c pid name) h = (s1, h1)" by fastforce
    obtain rest h2 where rest: "everyone_signals sha now n r k c ps h1 = (rest, h2)" by fastforce
    note f = make_care_signal_facts [OF mk]
    show ?case
    proof (cases "everyone_recipient_active sha h n pid")
      case True
      then have out: "h' = h2" "set sigs \<subseteq> insert s1 (set rest)"
        using Cons.prems p mk rest by (auto simp: Let_def split: if_splits)
      show ?thesis
        using out f ledger_grows_trans [OF f(8)] Cons.IH [OF rest]
        by (auto simp: member_draft_def candidate_draft_def Let_def)
    next
      case False
      then show ?thesis using Cons.IH Cons.prems p by simp
    qed
  qed simp
  then show "h_rooms h' = h_rooms h" and "ledger_grows h h'"
    and "s \<in> set sigs \<Longrightarrow> c_attempt s = k \<and> c_escalated s = (k > st_care_max_attempts (r_settings r))
      \<and> c_at s = now \<and> (\<exists>key. c_attention_id s = condition_attention_id n key)"
    by blast+
qed

lemma remind_everyone_swept:
  assumes akin: "akin r0 r" and lim: "st_care_max_attempts (r_settings r0) < u32_max"
    and c: "c \<in> work_candidates r0" and due: "mark_due now r (care_mark_of r (cc_key c))"
    and out: "remind_everyone sha now n c r h = (sigs, r', h')"
  shows "swept n now r0 sigs r h r' h'"
proof (cases "generation_recipients sha n r (care_mark_of r (cc_key c)) c h")
  case None
  then show ?thesis using out akin by (auto simp: remind_everyone_def Let_def intro: swept_idle)
next
  case (Some recipients)
  define m where "m = next_mark now (care_mark_of r (cc_key c))"
  have lim': "st_care_max_attempts (r_settings r) < u32_max" using lim akin_fields [OF akin] by simp
  obtain ss h1 where ev: "everyone_signals sha now n r (ck_signal_count m) c recipients h = (ss, h1)"
    by fastforce
  note f = everyone_signals_facts [OF ev]
  obtain res h2 where st: "with_store (enqueue_everyone_care n (cc_key c) (ck_last_signal_at m)
      (ck_signal_count m) ss) h1 = (res, h2)" by fastforce
  note g = enqueue_grows [OF st, of _ _ n "cc_key c" "ck_last_signal_at m" "ck_signal_count m" _ ss, simplified]
  have h1: "h_rooms h1 = h_rooms h" "ledger_grows h h1" using f(1,2) by simp_all
  have h2: "h_rooms h2 = h_rooms h" "ledger_grows h h2" using h1 g ledger_grows_trans by auto
  have timely: "timely (st_care_max_attempts (r_settings r)) now s" if "s \<in> set ss" for s
    using f(3) [OF that] timely_mark [OF due lim'] by (auto simp: m_def)
  have K: "OnMark (cc_key c) \<in> room_conditions r0" using c by (auto simp: room_conditions_def)
  consider (idle) "sigs = []" "r' = r" "h' = h1 \<or> h' = h2"
    | (sent) "ss \<noteq> []" "sigs = ss" "r' = set_mark (cc_key c) m r" "h' = h2"
    using out Some ev st
    by (auto simp: remind_everyone_def m_def Let_def split: if_splits sum.splits)
  then show ?thesis
  proof cases
    case idle
    then show ?thesis using h1 h2 akin by (auto intro: swept_idle)
  next
    case sent
    then show ?thesis
      using h2 akin akin_fields [OF akin] K raises_mark [OF due lim'] timely
      by (intro swept_raise [where c = "OnMark (cc_key c)"]) (auto simp: m_def)
  qed
qed

lemma remind_one_swept:
  assumes akin: "akin r0 r" and lim: "st_care_max_attempts (r_settings r0) < u32_max"
    and c: "c \<in> work_candidates r0" and due: "mark_due now r (care_mark_of r (cc_key c))"
    and out: "remind_one now n owner c r h = (sigs, r', h')"
  shows "swept n now r0 sigs r h r' h'" and "length sigs \<le> 1"
proof -
  define m where "m = next_mark now (care_mark_of r (cc_key c))"
  have lim': "st_care_max_attempts (r_settings r) < u32_max" using lim akin_fields [OF akin] by simp
  obtain s h1 where mk: "make_care_signal n r (candidate_draft now r owner (ck_signal_count m) c) h = (s, h1)"
    by fastforce
  note f = make_care_signal_facts [OF mk]
  obtain res h2 where st: "with_store (enqueue_care_with_mark n (cc_key c) (ck_last_signal_at m)
      (ck_signal_count m) (c_room s) s) h1 = (res, h2)" by fastforce
  note g = enqueue_grows [OF st, of "c_room s" s n "cc_key c" "ck_last_signal_at m" "ck_signal_count m", simplified]
  obtain res' h3 where st': "with_store (enqueue_care (c_room s) s) h1 = (res', h3)" by fastforce
  note g' = enqueue_grows [OF st', of "c_room s" s, simplified]
  have hs: "h_rooms h2 = h_rooms h" "ledger_grows h h2" "h_rooms h3 = h_rooms h" "ledger_grows h h3"
    using f g g' ledger_grows_trans by auto
  have timely: "timely (st_care_max_attempts (r_settings r)) now s"
    using timely_mark [OF due lim'] f by (simp add: m_def candidate_draft_def Let_def)
  have i: "c_attention_id s \<in> room_reminders n r0"
    using f c by (auto simp: room_reminders_def candidate_draft_def Let_def)
  have K: "OnMark (cc_key c) \<in> room_conditions r0" using c by (auto simp: room_conditions_def)
  consider (idle) "sigs = []" "r' = r" "h' = h1 \<or> h' = h2 \<or> h' = h3"
    | (shown) "sigs = [s]" "r' = r" "h' = h3" "\<not> already_visible r h1 (c_attention_id s)"
    | (sent) "sigs = [s]" "r' = set_mark (cc_key c) m r" "h' = h2"
    using out mk st st'
    by (auto simp: remind_one_def m_def Let_def split: if_splits sum.splits)
  then show "swept n now r0 sigs r h r' h'"
  proof cases
    case idle
    then show ?thesis using f hs akin by (auto intro: swept_idle)
  next
    case shown
    then show ?thesis
      using hs f(2) akin akin_fields [OF akin] timely i by (auto simp: swept_def already_visible_def)
  next
    case sent
    then show ?thesis
      using hs akin akin_fields [OF akin] K raises_mark [OF due lim'] timely
      by (intro swept_raise [where c = "OnMark (cc_key c)"]) (auto simp: m_def)
  qed
  show "length sigs \<le> 1"
    using out mk st st' by (auto simp: remind_one_def m_def Let_def split: if_splits sum.splits)
qed

lemma swept_idleD:
  assumes "swept n now r0 [] r h r' h'"
  shows "r' = r" "h_rooms h' = h_rooms h" "ledger_grows h h'"
  using assms by (simp_all add: swept_def)

lemma care_reminders_swept:
  assumes akin: "akin r0 r" and lim: "st_care_max_attempts (r_settings r0) < u32_max"
    and "set cs \<subseteq> work_candidates r0" and "care_reminders sha now n owner every cs r h = (sigs, r', h')"
  shows "swept n now r0 sigs r h r' h' \<and> (every \<or> length sigs \<le> 1)"
  using assms(3,4)
proof (induction cs arbitrary: h)
  case Nil
  then show ?case using akin by (auto intro: swept_idle)
next
  case (Cons c cs)
  show ?case
  proof (cases "mark_due now r (care_mark_of r (cc_key c))")
    case False
    then show ?thesis using Cons by simp
  next
    case True
    obtain ss r1 h1 where one: "(if every then remind_everyone sha now n c r h
        else remind_one now n owner c r h) = (ss, r1, h1)" by (metis prod_cases3)
    then have sw: "swept n now r0 ss r h r1 h1" and len: "every \<or> length ss \<le> 1"
      using remind_everyone_swept [OF akin lim _ True] remind_one_swept [OF akin lim _ True] Cons.prems(1)
      by (auto split: if_splits)
    show ?thesis
    proof (cases "ss = []")
      case idle: True
      then have "care_reminders sha now n owner every cs r h1 = (sigs, r', h')"
        using Cons.prems(2) True one swept_idleD(1) [OF sw [unfolded idle]] by simp
      then show ?thesis
        using Cons.IH Cons.prems(1) swept_trans [OF swept_idleD(2,3) [OF sw [unfolded idle]]] by simp
    next
      case False
      then show ?thesis using Cons.prems(2) True one sw len by simp
    qed
  qed
qed

lemma sweep_waits_swept:
  assumes ok: "waits_ok n r0" and akin: "akin r0 r" and lim: "st_care_max_attempts (r_settings r0) < u32_max"
    and out: "sweep_waits now n owner r h = (found, r', h')"
  shows "swept n now r0 (found_list found) r h r' h'"
proof -
  define cycles where "cycles = (if owner \<noteq> None then wait_cycles r else [])"
  have sub: "set cycles \<subseteq> set (wait_cycles r0)" by (auto simp: cycles_def akin_cycles [OF akin])
  obtain f1 r1 h1 where cyc: "care_cycles now n owner cycles r h = (f1, r1, h1)" by (metis prod_cases3)
  note sw = care_cycles_swept [OF ok akin lim sub cyc]
  show ?thesis
  proof (cases "f1 \<noteq> None \<or> owner = None")
    case True
    then show ?thesis using out cyc sw by (auto simp: sweep_waits_def cycles_def Let_def)
  next
    case False
    then have idle: "r1 = r" "h_rooms h1 = h_rooms h" "ledger_grows h h1"
      using sw by (simp_all add: swept_def)
    have "care_waits now n owner (sort (filter (\<lambda>x. x \<notin> set (concat cycles)) (hm_keys (r_waits r1)))) r1 h1
        = (found, r', h')"
      using out cyc False by (auto simp: sweep_waits_def cycles_def Let_def)
    then show ?thesis
      using swept_trans [OF idle(2,3)] care_waits_swept [OF akin lim] idle(1) by simp
  qed
qed

subsection \<open>A sweep over all rooms\<close>

definition care_state :: "hub \<Rightarrow> bool" where
  "care_state h = (hm_ok (h_rooms h) \<and> waits_inv h \<and> st_care_max_attempts (h_default_settings h) < u32_max
     \<and> (\<forall>n r. get_room h n = Some r \<longrightarrow> st_care_max_attempts (r_settings r) < u32_max))"

lemma care_state_room:
  assumes "care_state h" and "get_room h n = Some r"
  shows "waits_ok n r" and "st_care_max_attempts (r_settings r) < u32_max"
  using assms by (simp_all add: care_state_def waits_inv_def)

lemma care_state_same:
  "care_state h \<Longrightarrow> h_rooms h1 = h_rooms h \<Longrightarrow> h_default_settings h1 = h_default_settings h \<Longrightarrow> care_state h1"
  by (simp add: care_state_def waits_inv_def get_room_def)

lemma care_state_akin:
  assumes "care_state h" "get_room h n = Some r" "akin r r'" "h_rooms h1 = h_rooms h"
    "h_default_settings h1 = h_default_settings h"
  shows "care_state (put_room n r' h1)"
proof -
  have "get_room h1 m = get_room h m" for m using assms(4) by (simp add: get_room_def)
  then show ?thesis
    using assms care_state_room [OF assms(1,2)] akin_waits_ok [OF assms(3)] akin_fields(1) [OF assms(3)]
    by (auto simp: care_state_def waits_inv_def)
qed

text \<open>The envelopes a sweep has produced for one room.\<close>

definition raised_for :: "string \<Rightarrow> (string \<times> care_signal \<times> bool) list \<Rightarrow> care_signal list" where
  "raised_for n pending = map (\<lambda>(_, s, _). s) (filter (\<lambda>(m, _, _). m = n) pending)"

lemma raised_for_simps [simp]:
  "raised_for n [] = []" "raised_for n (p @ q) = raised_for n p @ raised_for n q"
  "raised_for n (map (\<lambda>s. (m, s, b)) sigs) = (if m = n then sigs else [])"
  by (simp_all add: raised_for_def comp_def filter_map)

lemma sweep_room_step:
  assumes st: "care_state h" and r: "get_room h n = Some r" and akin: "akin r0 r" and ok: "waits_ok n r0"
    and out: "sweep_room sha now n h = (pending, h')"
  obtains sigs r' h1 where "pending = map (\<lambda>s. (n, s, True)) sigs" and "swept n now r0 sigs r h r' h1"
    and "h' = put_room n r' h1 \<or> h' = h1 \<and> r' = r"
    and "st_care_recipient (r_settings r) = RecAll \<or> length sigs \<le> 1"
proof (cases "st_archived (r_settings r)")
  case True
  then show ?thesis
    using that [of "[]" r h] out r akin by (simp add: sweep_room_def swept_idle)
next
  case False
  have lim: "st_care_max_attempts (r_settings r0) < u32_max"
    using care_state_room(2) [OF st r] akin_fields(1) [OF akin] by simp
  define owner where "owner = care_owner now h n"
  obtain f r1 h1 where w: "sweep_waits now n owner r h = (f, r1, h1)" by (metis prod_cases3)
  note sw = sweep_waits_swept [OF ok akin lim w]
  obtain sigs r2 h2 where rest: "(case f of Some s \<Rightarrow> ([s], r1, h1)
      | None \<Rightarrow> care_reminders sha now n owner (st_care_recipient (r_settings r) = RecAll)
          (reminder_candidates now r1) r1 h1) = (sigs, r2, h2)" by (metis prod_cases3)
  have out': "pending = map (\<lambda>s. (n, s, True)) sigs" "h' = put_room n r2 h2"
    using out r False w [unfolded owner_def] rest [unfolded owner_def] by (simp_all add: sweep_room_def Let_def)
  have "swept n now r0 sigs r h r2 h2 \<and> (st_care_recipient (r_settings r) = RecAll \<or> length sigs \<le> 1)"
  proof (cases f)
    case (Some s)
    then show ?thesis using rest sw by auto
  next
    case None
    then have idle: "r1 = r" "h_rooms h1 = h_rooms h" "ledger_grows h h1"
      using sw by (simp_all add: swept_def)
    have "set (reminder_candidates now r) \<subseteq> work_candidates r0"
      using akin_candidates [OF akin] by blast
    from care_reminders_swept [OF akin lim this] show ?thesis
      using rest None idle swept_trans [OF idle(2,3)] by simp
  qed
  with that out' show ?thesis by blast
qed

lemma sweep_other:
  assumes st: "care_state h" and out: "sweep_room sha now m h = (pending, h')"
  shows "care_state h'" and "ledger_grows h h'" and "n \<noteq> m \<Longrightarrow> get_room h' n = get_room h n"
    and "n \<noteq> m \<Longrightarrow> raised_for n pending = []"
proof -
  have "care_state h' \<and> ledger_grows h h' \<and> (n \<noteq> m \<longrightarrow> get_room h' n = get_room h n \<and> raised_for n pending = [])"
  proof (cases "get_room h m")
    case None
    then show ?thesis using out st by (auto simp: sweep_room_def)
  next
    case (Some r)
    from sweep_room_step [OF st Some akin_refl care_state_room(1) [OF st Some] out]
    obtain sigs r' h1 where p: "pending = map (\<lambda>s. (m, s, True)) sigs" "swept m now r sigs r h r' h1"
      "h' = put_room m r' h1 \<or> h' = h1 \<and> r' = r" by blast
    then have "akin r r'" "h_rooms h1 = h_rooms h" "ledger_grows h h1" by (simp_all add: swept_def)
    then show ?thesis
      using p(1,3) st care_state_akin [OF st Some, of r' h1] care_state_same [OF st, of h1]
      by (auto simp: ledger_grows_def get_room_def put_room_def)
  qed
  then show "care_state h'" and "ledger_grows h h'" and "n \<noteq> m \<Longrightarrow> get_room h' n = get_room h n"
    and "n \<noteq> m \<Longrightarrow> raised_for n pending = []"
    by simp_all
qed

lemma care_sweep_other:
  assumes "care_state h" and "care_sweep sha now names h = (pending, h')" and "n \<notin> set names"
  shows "care_state h' \<and> ledger_grows h h' \<and> get_room h' n = get_room h n \<and> raised_for n pending = []"
  using assms
proof (induction names arbitrary: h pending)
  case (Cons m names)
  obtain p1 h1 where one: "sweep_room sha now m h = (p1, h1)" by fastforce
  obtain p2 h2 where rest: "care_sweep sha now names h1 = (p2, h2)" by fastforce
  have out: "pending = p1 @ p2" "h' = h2" using Cons.prems(2) one rest by simp_all
  have nm: "n \<noteq> m" "n \<notin> set names" using Cons.prems(3) by simp_all
  note f = sweep_other [OF Cons.prems(1) one]
  from Cons.IH [OF f(1) rest [folded out(2)] nm(2)] f nm(1) out show ?case
    using ledger_grows_trans by auto
qed simp

text \<open>What the sweep of all rooms does to the room \<open>n\<close>, seen from outside.\<close>

lemma care_sweep_step:
  assumes "care_state h" "get_room h n = Some r" "akin r0 r" "waits_ok n r0" "distinct names"
    and "care_sweep sha now names h = (pending, h')"
  shows "care_state h' \<and> (\<exists>r' h1 h2. get_room h' n = Some r' \<and> swept n now r0 (raised_for n pending) r h1 r' h2
      \<and> ledger_grows h h1 \<and> ledger_grows h2 h')
      \<and> (st_care_recipient (r_settings r) = RecAll \<or> length (raised_for n pending) \<le> 1)"
  using assms
proof (induction names arbitrary: h pending)
  case Nil
  then show ?case by (auto intro!: exI [of _ r] exI [of _ h'] swept_idle)
next
  case (Cons m names)
  obtain p1 h1 where one: "sweep_room sha now m h = (p1, h1)" by fastforce
  obtain p2 h2 where rest: "care_sweep sha now names h1 = (p2, h2)" by fastforce
  have out: "pending = p1 @ p2" "h' = h2" using Cons.prems(6) one rest by simp_all
  note f = sweep_other [OF Cons.prems(1) one]
  show ?case
  proof (cases "m = n")
    case False
    then have "get_room h1 n = Some r" "raised_for n p1 = []" using f(3,4) Cons.prems(2) by simp_all
    with Cons.IH [OF f(1) _ Cons.prems(3,4) _ rest [folded out(2)]] Cons.prems(5) f(2) out(1)
    show ?thesis using ledger_grows_trans by fastforce
  next
    case True
    from sweep_room_step [OF Cons.prems(1-4) one [unfolded True]]
    obtain sigs r' h3 where p: "p1 = map (\<lambda>s. (n, s, True)) sigs" "swept n now r0 sigs r h r' h3"
      "h1 = put_room n r' h3 \<or> h1 = h3 \<and> r' = r"
      "st_care_recipient (r_settings r) = RecAll \<or> length sigs \<le> 1" by blast
    have "h_rooms h3 = h_rooms h" using p(2) by (simp add: swept_def)
    then have r1: "get_room h1 n = Some r'" and "ledger_grows h3 h1"
      using p(3) Cons.prems(2) by (auto simp: ledger_grows_def get_room_def put_room_def)
    have "n \<notin> set names" using Cons.prems(5) True by simp
    note o = care_sweep_other [OF f(1) rest [folded out(2)] this]
    have "ledger_grows h3 h'" using o \<open>ledger_grows h3 h1\<close> ledger_grows_trans by blast
    moreover have "raised_for n pending = sigs" using o by (simp add: out(1) p(1))
    ultimately show ?thesis using o r1 p(2,4) ledger_grows_refl by (metis (no_types, lifting))
  qed
qed

subsection \<open>Publication\<close>

text \<open>A room after a publication: new frames and attentions, nothing else.\<close>

definition displayed :: "room \<Rightarrow> room \<Rightarrow> bool" where
  "displayed r r' = (r_tasks r' = r_tasks r \<and> r_goals r' = r_goals r \<and> r_settings r' = r_settings r
     \<and> r_last_msg_ms r' = r_last_msg_ms r \<and> r_waits r' = r_waits r \<and> r_care_marks r' = r_care_marks r
     \<and> (\<forall>i. hm_contains (r_attentions r) i \<longrightarrow> hm_contains (r_attentions r') i))"

lemma displayed_refl [simp]: "displayed r r"
  by (simp add: displayed_def)

lemma displayed_trans: "displayed r r1 \<Longrightarrow> displayed r1 r2 \<Longrightarrow> displayed r r2"
  by (simp add: displayed_def)

lemma displayed_send [simp]: "displayed r (send f r)"
  by (simp add: displayed_def)

lemma displayed_care [simp]: "displayed r (display_care s a r)"
  by (simp add: displayed_def display_care_def hm_contains_def Let_def)

lemma displayed_akin: "displayed r r' \<Longrightarrow> akin r0 r \<Longrightarrow> akin r0 r'"
  by (simp add: displayed_def akin_def)

lemma displayed_count: "displayed r r' \<Longrightarrow> condition_count r' c = condition_count r c"
  by (simp add: displayed_def condition_count_def care_mark_of_def split: care_condition.split)

definition publishes :: "hub \<Rightarrow> hub \<Rightarrow> bool" where
  "publishes h h' = ((care_state h \<longrightarrow> care_state h') \<and> ledger_grows h h'
     \<and> (\<forall>n r. get_room h n = Some r \<longrightarrow> (\<exists>r'. get_room h' n = Some r' \<and> displayed r r')))"

lemma publishes_refl [simp]: "publishes h h"
  by (simp add: publishes_def)

lemma publishes_trans: "publishes h h1 \<Longrightarrow> publishes h1 h2 \<Longrightarrow> publishes h h2"
  unfolding publishes_def by (meson displayed_trans ledger_grows_trans)

lemma publishes_put:
  assumes "displayed (room_mut n h) r'"
  shows "publishes h (put_room n r' h)"
proof -
  have "care_state (put_room n r' h)" if st: "care_state h"
  proof (cases "get_room h n")
    case None
    then have "room_mut n h = room_with Free (h_default_settings h) 1"
      by (simp add: room_mut_def get_room_def)
    with assms have "waits_ok n r'" "st_care_max_attempts (r_settings r') < u32_max"
      using st by (simp_all add: displayed_def waits_ok_def room_with_def care_state_def)
    then show ?thesis using st by (auto simp: care_state_def waits_inv_def)
  next
    case (Some r)
    then show ?thesis
      using care_state_akin [OF st Some, of r' h] assms displayed_akin akin_refl by auto
  qed
  then show ?thesis using assms by (auto simp: publishes_def ledger_grows_def)
qed

lemma show_care_publishes: "publishes h (show_care n s h)"
proof -
  define h1 where "h1 = (case get_room h n of None \<Rightarrow> h
    | Some r \<Rightarrow> put_room n (display_care s (care_attention s h) r) h)"
  have one: "publishes h h1"
    unfolding h1_def by (auto intro!: publishes_put split: option.split)
  have "show_care n s h = (if c_owner s = Some ''loca-care'' \<and> n \<noteq> h_home_room h1
      then put_room (h_home_room h1) (send (FCare s) (room_mut (h_home_room h1) h1)) h1 else h1)"
    by (simp add: show_care_def h1_def [symmetric] Let_def)
  then show ?thesis
    using one publishes_trans [OF one publishes_put [OF displayed_send]] by simp
qed

lemma publish_publishes: "publishes h (publish_care_signal n s p h)"
proof -
  obtain res h1 where st: "(if p then (Ok (), h) else with_store (enqueue_care (c_room s) s) h) = (res, h1)"
    by fastforce
  have "h_rooms h1 = h_rooms h" "ledger_grows h h1"
    using st enqueue_grows [of "enqueue_care (c_room s) s" h res h1 "c_room s" s] by (auto split: if_splits)
  then have h2: "publishes h (h1\<lparr>h_care_deliveries := ds\<rparr>)" "publishes h h1" for ds
    by (auto simp: publishes_def ledger_grows_def get_room_def care_state_def waits_inv_def)
  show ?thesis
    using st h2 publishes_trans [OF h2(1) show_care_publishes] show_care_publishes
    by (auto simp: publish_care_signal_def Let_def split: sum.splits)
qed

lemma show_care_visible:
  assumes "get_room h n = Some r"
  shows "\<exists>r'. get_room (show_care n s h) n = Some r' \<and> already_visible r' (show_care n s h) (stable_attention_id s)"
proof -
  define i where "i = stable_attention_id s"
  have store: "h_store (show_care n s h) = h_store h"
    using assms by (simp add: show_care_def Let_def)
  show ?thesis
  proof (cases "store_attention (h_store h) i")
    case None
    have "get_room (show_care n s h) n = Some (display_care s (care_attention s h) r)"
      using assms by (simp add: show_care_def Let_def)
    moreover have "a_id (care_attention s h) = i"
      using None by (simp add: care_attention_def attention_of_signal_def i_def)
    ultimately show ?thesis
      by (simp add: already_visible_def hm_contains_def display_care_def i_def Let_def)
  next
    case (Some a)
    then show ?thesis
      using show_care_publishes [of h n s] assms store by (auto simp: publishes_def already_visible_def i_def)
  qed
qed

lemma publish_visible:
  assumes "get_room h n = Some r"
  shows "\<exists>r'. get_room (publish_care_signal n s True h) n = Some r'
    \<and> already_visible r' (publish_care_signal n s True h) (stable_attention_id s)"
proof (cases "known_resolved n (stable_attention_id s) h")
  case True
  then show ?thesis
    using assms by (auto simp: publish_care_signal_def known_resolved_def already_visible_def hm_contains_def
        split: option.splits)
next
  case False
  then show ?thesis
    using assms show_care_visible [OF assms]
      show_care_visible [of "h\<lparr>h_care_deliveries := hm_insert (c_id s) (c_attention_id s) (h_care_deliveries h)\<rparr>" n r s]
    by (auto simp: publish_care_signal_def get_room_def)
qed

end
