(* ===== verification/Scheduler_Properties.thy ===== *)
theory Scheduler_Properties
  imports Scheduler_Laws Samples
begin

text \<open>
  The reminders of the scheduler come to an end: as long as nothing happens in a
  room, only so many sweeps can remind of it, whatever the clock, the health of the
  runtimes, the presence of the members and the storage do meanwhile.
\<close>

subsection \<open>A run of ticks\<close>




subsection \<open>What is left to remind of\<close>


lemma finite_work_candidates [simp]: "finite (work_candidates r)"
  by (simp add: work_candidates_def)

lemma finite_room_conditions [simp]: "finite (room_conditions r)"
  by (simp add: room_conditions_def)

lemma finite_room_reminders [simp]: "finite (room_reminders n r)"
  by (simp add: room_reminders_def)









subsection \<open>One tick\<close>









subsection \<open>Reminders end\<close>


text \<open>A wait nobody answers: two nudges, one escalation, then silence.\<close>

definition sample_overdue :: hub where
  "sample_overdue = (let h = snd (set_wait ''loca'' (sample_wait_body ''bob'' ''ada'') 0 sample_hub);
     r = room_mut ''loca'' h
   in put_room ''loca'' (r\<lparr>r_members := [(''k'', ''ada'', Agent, 1)]\<rparr>)
     (h\<lparr>h_runtime_health := [(''ada'', \<lparr> rt_wake = ''IDLE'', rt_ack = ''IDLE'', rt_delivery_id = None,
        rt_attention_id = None, rt_stored = False, rt_accepted = False, rt_first_response = False,
        rt_final_response = False, rt_turn_completed = False, rt_seen_at = 9000000,
        rt_progress_at = 0 \<rparr>)]\<rparr>))"

fun sample_ticks :: "u64 list \<Rightarrow> hub \<Rightarrow> (u64 \<times> (string \<times> care_signal \<times> bool) list) list \<times> hub" where
  "sample_ticks [] h = ([], h)"
| "sample_ticks (t # ts) h =
     (let (log, h') = sample_ticks ts h
      in (log @ [(t, fst (care_sweep (map of_char) t (hm_keys (h_rooms h')) h'))], tick_care (map of_char) t h'))"


definition sample_reminders :: "(u64 \<times> (string \<times> care_signal \<times> bool) list) list" where
  "sample_reminders = fst (sample_ticks [1800000, 1400000, 1000000, 600000, 200000] sample_overdue)"

lemma sample_reminders_log:
  "map (\<lambda>(t, p). (t, map (\<lambda>s. (c_attempt s, c_escalated s)) (raised_for ''loca'' p))) sample_reminders
     = [(200000, [(1, False)]), (600000, [(2, False)]), (1000000, [(3, True)]), (1400000, []), (1800000, [])]"
  by code_simp



end
