(* ===== verification/Store_Memory.thy ===== *)
theory Store_Memory
  imports Database
begin

text \<open>
  \<^verbatim>\<open>crates/server/src/store/memory.rs\<close>: the memory of a loca.  The short memory is
  one bounded text; the long memory is an append-only ledger kept twice, as the rows
  of its entries and as one flattened text, and both views have to agree.  Sizes are
  in bytes of the UTF-8 encoding.
\<close>

datatype MemoryWriteError = MwPersistenceUnavailable | MwOwnerUnassigned | MwNotOwner | MwShortTooLarge
  | MwEntryTooLarge | MwLongTooLarge | MwStorage

datatype MemoryReadError = MrPersistenceUnavailable | MrNotConfigured | MrInvariantViolation | MrStorage

record memory_actor =
  ma_name :: string
  ma_principal_id :: "string option"
  ma_allow_legacy_name :: bool

record loca_memory_entry =
  ln_id :: u64
  ln_room :: string
  ln_text :: string
  ln_decided_by :: "string option"
  ln_decided_at :: "u64 option"
  ln_over_budget :: bool

record entry_provenance =
  ev_id :: u64
  ev_text :: string
  ev_decided_by :: "string option"
  ev_decided_at :: "u64 option"

record memory_entry_page =
  pg_entries :: "entry_provenance list"
  pg_next_after_id :: "u64 option"

record memory_metadata =
  mm_loca :: string
  mm_owner :: "string option"
  mm_short_updated_at :: "u64 option"
  mm_long_updated_at :: "u64 option"
  mm_long_entries_without_provenance :: nat
  mm_over_budget :: bool

definition SHORT_MEMORY_MAX_BYTES :: nat where
  "SHORT_MEMORY_MAX_BYTES = 4 * 1024"

definition LONG_MEMORY_ENTRY_MAX_BYTES :: nat where
  "LONG_MEMORY_ENTRY_MAX_BYTES = 8 * 1024"

definition LONG_MEMORY_SOFT_BYTES :: nat where
  "LONG_MEMORY_SOFT_BYTES = 32 * 1024"

definition LONG_MEMORY_HARD_BYTES :: nat where
  "LONG_MEMORY_HARD_BYTES = 64 * 1024"

text \<open>The separator between two entries of the flattened text.\<close>

definition entry_separator :: string where
  "entry_separator = [CHR 0x0A, CHR 0x0A]"

subsection \<open>Reads\<close>

definition loca_memory_version :: "string \<Rightarrow> store \<Rightarrow> (sql_error, u64) result \<times> store" where
  "loca_memory_version room = run_txn 0 (\<lambda>d.
     Ok (case hm_get (db_memory d) room of None \<Rightarrow> 0 | Some row \<Rightarrow> my_version row, d))"

definition memory_of_row :: "string \<Rightarrow> memory_row \<Rightarrow> loca_memory" where
  "memory_of_row room row =
     \<lparr> lm_room = room, lm_owner = my_owner row, lm_short = my_short row, lm_long = my_long row,
       lm_short_updated_at = my_short_updated_at row, lm_long_updated_at = my_long_updated_at row,
       lm_over_budget = (str_len (my_long row) > LONG_MEMORY_SOFT_BYTES), lm_version = my_version row \<rparr>"

definition store_loca_memory :: "string \<Rightarrow> store \<Rightarrow> (sql_error, loca_memory option) result \<times> store" where
  "store_loca_memory room = run_txn None (\<lambda>d.
     Ok (map_option (memory_of_row room) (hm_get (db_memory d) room), d))"

text \<open>\<open>SELECT ... FROM loca_memory_entries WHERE room = ?1 ORDER BY id\<close>.\<close>

definition memory_entries_of :: "db \<Rightarrow> string \<Rightarrow> (u64 \<times> memory_entry_row) list" where
  "memory_entries_of d room = sort_key fst (filter (\<lambda>(_, e). ey_room e = room) (db_memory_entries d))"

definition flattened :: "(u64 \<times> memory_entry_row) list \<Rightarrow> string" where
  "flattened entries = join_with entry_separator (map (ey_text \<circ> snd) entries)"

text \<open>
  The selection of a snapshot, newest entry first: the texts selected so far, their
  bytes, whether the suffix is closed, and the ids of the entries too large to inject.
\<close>

fun select_suffix ::
  "(u64 \<times> string) list \<Rightarrow> string list \<Rightarrow> nat \<Rightarrow> bool \<Rightarrow> u64 list \<Rightarrow> string list \<times> u64 list" where
  "select_suffix [] selected selected_bytes suffix_closed uninjectable = (selected, uninjectable)"
| "select_suffix ((i, text) # entries) selected selected_bytes suffix_closed uninjectable =
     (if str_len text > LONG_MEMORY_ENTRY_MAX_BYTES
      then select_suffix entries selected selected_bytes suffix_closed (uninjectable @ [i])
      else if suffix_closed
      then select_suffix entries selected selected_bytes suffix_closed uninjectable
      else let separator_bytes = (if selected = [] then 0 else 2);
               candidate_bytes = selected_bytes + separator_bytes + str_len text
           in if candidate_bytes \<le> LONG_MEMORY_ENTRY_MAX_BYTES
              then select_suffix entries (selected @ [text]) candidate_bytes suffix_closed uninjectable
              else select_suffix entries selected selected_bytes True uninjectable)"

definition snapshot_of :: "loca_memory \<Rightarrow> (u64 \<times> memory_entry_row) list \<Rightarrow> loca_memory_snapshot" where
  "snapshot_of memory entries =
     (let full_long = lm_long memory;
          (selected, uninjectable_ids) =
            select_suffix (rev (map (\<lambda>(i, e). (i, ey_text e)) entries)) [] 0 False [];
          long = join_with entry_separator (rev selected);
          long_omitted_bytes = str_len full_long - str_len long
      in \<lparr> ls_memory = memory\<lparr>lm_long := long\<rparr>,
           ls_provenance_inconsistent = (flattened entries \<noteq> full_long),
           ls_long_truncated = (long_omitted_bytes > 0), ls_long_omitted_bytes = long_omitted_bytes,
           ls_long_omitted_entries = length entries - length selected,
           ls_long_uninjectable_entry_ids = uninjectable_ids \<rparr>)"

definition store_memory_snapshot ::
  "string \<Rightarrow> store \<Rightarrow> (sql_error, loca_memory_snapshot option) result \<times> store" where
  "store_memory_snapshot room s = (case store_loca_memory room s of
     (Inl e, s1) \<Rightarrow> (Err e, s1)
   | (Inr None, s1) \<Rightarrow> (Ok None, s1)
   | (Inr (Some memory), s1) \<Rightarrow>
       run_txn None (\<lambda>d. Ok (Some (snapshot_of memory (memory_entries_of d room)), d)) s1)"

text \<open>SQLite's \<open>trim\<close> removes spaces only.\<close>

definition sql_trim :: "string \<Rightarrow> string" where
  "sql_trim s = rev (dropWhile (\<lambda>c. c = CHR '' '') (rev (dropWhile (\<lambda>c. c = CHR '' '') s)))"

definition loca_memory_metadata :: "store \<Rightarrow> (sql_error, memory_metadata list) result \<times> store" where
  "loca_memory_metadata = run_txn [] (\<lambda>d. Ok (map (\<lambda>(room, row).
       \<lparr> mm_loca = room, mm_owner = my_owner row, mm_short_updated_at = my_short_updated_at row,
         mm_long_updated_at = my_long_updated_at row,
         mm_long_entries_without_provenance = length (filter (\<lambda>(_, e).
            sql_trim (ey_decided_by e) = [] \<or> ey_decided_at e = 0) (memory_entries_of d room)),
         mm_over_budget = (str_len (my_long row) > LONG_MEMORY_SOFT_BYTES) \<rparr>)
     (sort_key fst (db_memory d)), d))"

definition provenance_of :: "u64 \<times> memory_entry_row \<Rightarrow> entry_provenance" where
  "provenance_of = (\<lambda>(i, e). \<lparr> ev_id = i, ev_text = ey_text e,
     ev_decided_by = (if str_trim (ey_decided_by e) \<noteq> [] then Some (ey_decided_by e) else None),
     ev_decided_at = (if ey_decided_at e \<noteq> 0 then Some (ey_decided_at e) else None) \<rparr>)"

definition entry_page :: "(u64 \<times> memory_entry_row) list \<Rightarrow> u64 \<Rightarrow> usize \<Rightarrow> memory_entry_page" where
  "entry_page entries after_id limit =
     (let fetched = take (limit + 1) (filter (\<lambda>(i, _). i > after_id) entries);
          has_more = (length fetched > limit);
          page = map provenance_of (take limit fetched)
      in \<lparr> pg_entries = page, pg_next_after_id = (if has_more then Some (ev_id (last page)) else None) \<rparr>)"

definition store_memory_entries ::
  "string \<Rightarrow> u64 \<Rightarrow> usize \<Rightarrow> store \<Rightarrow> (MemoryReadError, memory_entry_page) result \<times> store" where
  "store_memory_entries room after_id limit = answer_txn MrPersistenceUnavailable MrStorage (\<lambda>d.
     case hm_get (db_memory d) room of
       None \<Rightarrow> Err MrNotConfigured
     | Some row \<Rightarrow>
         if flattened (memory_entries_of d room) \<noteq> my_long row then Err MrInvariantViolation
         else Ok (entry_page (memory_entries_of d room) after_id limit, d))"

subsection \<open>Writes\<close>

definition store_set_memory_owner ::
  "string \<Rightarrow> string option \<Rightarrow> string option \<Rightarrow> store \<Rightarrow> (sql_error, unit) result \<times> store" where
  "store_set_memory_owner room owner pid = run_write (\<lambda>d. d\<lparr>db_memory := hm_insert room
     (case hm_get (db_memory d) room of
        None \<Rightarrow> \<lparr> my_owner = owner, my_owner_principal_id = pid, my_short = [], my_long = [],
                  my_short_updated_at = None, my_long_updated_at = None, my_version = 1 \<rparr>
      | Some row \<Rightarrow> row\<lparr>my_owner := owner, my_owner_principal_id := pid, my_version := my_version row + 1\<rparr>)
     (db_memory d)\<rparr>)"

definition require_memory_owner :: "db \<Rightarrow> string \<Rightarrow> memory_actor \<Rightarrow> (MemoryWriteError, memory_row) result" where
  "require_memory_owner d room actor = (case hm_get (db_memory d) room of
     None \<Rightarrow> Err MwOwnerUnassigned
   | Some row \<Rightarrow>
       (case my_owner row of
          None \<Rightarrow> Err MwOwnerUnassigned
        | Some name \<Rightarrow>
            (case my_owner_principal_id row of
               Some pid \<Rightarrow> if ma_principal_id actor = Some pid then Ok row else Err MwNotOwner
             | None \<Rightarrow> if ma_allow_legacy_name actor \<and> name = ma_name actor then Ok row
                       else Err MwNotOwner)))"

definition short_rows ::
  "string \<Rightarrow> memory_actor \<Rightarrow> string \<Rightarrow> u64 \<Rightarrow> db \<Rightarrow> (MemoryWriteError, unit \<times> db) result" where
  "short_rows room actor text at d = (case require_memory_owner d room actor of
     Inl e \<Rightarrow> Err e
   | Inr row \<Rightarrow>
       if str_len text > SHORT_MEMORY_MAX_BYTES then Err MwShortTooLarge
       else Ok ((), d\<lparr>db_memory := hm_insert room
         (row\<lparr>my_short := text, my_short_updated_at := Some at, my_version := my_version row + 1\<rparr>)
         (db_memory d)\<rparr>))"

definition store_write_short_memory ::
  "string \<Rightarrow> memory_actor \<Rightarrow> string \<Rightarrow> u64 \<Rightarrow> store \<Rightarrow> (MemoryWriteError, loca_memory) result \<times> store" where
  "store_write_short_memory room actor text at s =
     (case answer_txn MwPersistenceUnavailable MwStorage (short_rows room actor text at) s of
        (Inl e, s1) \<Rightarrow> (Err e, s1)
      | (Inr _, s1) \<Rightarrow>
          (case store_loca_memory room s1 of
             (Inr (Some memory), s2) \<Rightarrow> (Ok memory, s2)
           | (_, s2) \<Rightarrow> (Err MwStorage, s2)))"

text \<open>\<open>AUTOINCREMENT\<close>: larger than every id there is; rows are never deleted.\<close>

definition next_entry_id :: "db \<Rightarrow> u64" where
  "next_entry_id d = Suc (fold max (hm_keys (db_memory_entries d)) 0)"

definition append_rows ::
  "string \<Rightarrow> memory_actor \<Rightarrow> string \<Rightarrow> u64 \<Rightarrow> db \<Rightarrow> (MemoryWriteError, loca_memory_entry \<times> db) result" where
  "append_rows room actor text at d = (case require_memory_owner d room actor of
     Inl e \<Rightarrow> Err e
   | Inr row \<Rightarrow>
       if str_len text > LONG_MEMORY_ENTRY_MAX_BYTES then Err MwEntryTooLarge
       else let current_bytes = str_len (my_long row);
                separator_bytes = (if current_bytes > 0 then 2 else 0);
                next_bytes = current_bytes + separator_bytes + str_len text;
                i = next_entry_id d
            in if next_bytes > LONG_MEMORY_HARD_BYTES then Err MwLongTooLarge
               else Ok (\<lparr> ln_id = i, ln_room = room, ln_text = text, ln_decided_by = Some (ma_name actor),
                          ln_decided_at = Some at, ln_over_budget = (next_bytes > LONG_MEMORY_SOFT_BYTES) \<rparr>,
                        d\<lparr>db_memory_entries := hm_insert i \<lparr> ey_room = room, ey_text = text,
                            ey_decided_by = ma_name actor, ey_decided_at = at \<rparr> (db_memory_entries d),
                          db_memory := hm_insert room
                            (row\<lparr>my_long := (if my_long row = [] then text
                                   else my_long row @ entry_separator @ text),
                                 my_long_updated_at := Some at, my_version := my_version row + 1\<rparr>)
                            (db_memory d)\<rparr>))"

definition store_append_long_memory ::
  "string \<Rightarrow> memory_actor \<Rightarrow> string \<Rightarrow> u64 \<Rightarrow> store \<Rightarrow> (MemoryWriteError, loca_memory_entry) result \<times> store" where
  "store_append_long_memory room actor text at =
     answer_txn MwPersistenceUnavailable MwStorage (append_rows room actor text at)"

end
