(* ===== verification/Memory.thy ===== *)
theory Memory
  imports Store_Memory Access Rooms
begin

text \<open>
  The memory operations of \<^verbatim>\<open>crates/server/src/hub.rs\<close> and the guards of their handlers
  in \<^verbatim>\<open>crates/server/src/routes/content.rs\<close>: the assignment of the owner by the master,
  the two writes of the owner, and the snapshot every client of the loca is sent after
  each of them.
\<close>

subsection \<open>The hub\<close>

definition broadcast_memory_snapshot :: "string \<Rightarrow> hub \<Rightarrow> hub" where
  "broadcast_memory_snapshot room h =
     (let (res, h1) = with_store (store_memory_snapshot room) h
      in case res of
           Inl _ \<Rightarrow> h1
         | Inr snapshot \<Rightarrow> broadcast_to room (memory_frame_of room snapshot) h1)"

text \<open>The principal of the new owner: the one active identity of that name.\<close>

definition memory_owner_principal :: "string option \<Rightarrow> hub \<Rightarrow> (sql_error, string option) result \<times> hub" where
  "memory_owner_principal owner h = (case owner of
     None \<Rightarrow> (Ok None, h)
   | Some name \<Rightarrow>
       (case with_store (run_txn [] (\<lambda>d. Ok (active_principals_named (h_store h) name, d))) h of
          (Inl e, h1) \<Rightarrow> (Err e, h1)
        | (Inr [identity], h1) \<Rightarrow> (Ok (Some (pi_id identity)), h1)
        | (Inr [], h1) \<Rightarrow> (if admin_open h1 then Ok None else Err (InvalidParameterName ''owner''), h1)
        | (Inr _, h1) \<Rightarrow> (Err (InvalidParameterName ''owner''), h1)))"

definition set_memory_owner :: "string \<Rightarrow> string option \<Rightarrow> hub \<Rightarrow> (sql_error, unit) result \<times> hub" where
  "set_memory_owner room owner h = (case memory_owner_principal owner h of
     (Inl e, h1) \<Rightarrow> (Err e, h1)
   | (Inr pid, h1) \<Rightarrow>
       let (res, h2) = with_store (store_set_memory_owner room owner pid) h1
       in case res of
            Inl e \<Rightarrow> (Err e, h2)
          | Inr _ \<Rightarrow> (Ok (), broadcast_memory_snapshot room h2))"

definition actor_of_session :: "hub \<Rightarrow> session_identity \<Rightarrow> memory_actor" where
  "actor_of_session h idy = \<lparr> ma_name = si_name idy, ma_principal_id = si_principal_id idy,
     ma_allow_legacy_name = admin_open h \<rparr>"

definition write_short_memory ::
  "string \<Rightarrow> session_identity \<Rightarrow> string \<Rightarrow> u64 \<Rightarrow> hub \<Rightarrow> (MemoryWriteError, loca_memory) result \<times> hub" where
  "write_short_memory room idy text now h =
     (let (res, h1) = with_store (store_write_short_memory room (actor_of_session h idy) text now) h
      in case res of
           Inl e \<Rightarrow> (Err e, h1)
         | Inr memory \<Rightarrow> (Ok memory, broadcast_memory_snapshot room h1))"

definition append_long_memory ::
  "string \<Rightarrow> session_identity \<Rightarrow> string \<Rightarrow> u64 \<Rightarrow> hub \<Rightarrow> (MemoryWriteError, loca_memory_entry) result \<times> hub" where
  "append_long_memory room idy text now h =
     (let (res, h1) = with_store (store_append_long_memory room (actor_of_session h idy) text now) h
      in case res of
           Inl e \<Rightarrow> (Err e, h1)
         | Inr entry \<Rightarrow> (Ok entry, broadcast_memory_snapshot room h1))"

subsection \<open>The handlers\<close>

text \<open>
  The answers of the handlers, one constructor for each status: 409, 400, 401, the
  statuses of a refused write, and success.  The extractor has admitted the caller to
  the loca before a handler runs; a master's request is recognised from its headers,
  which is the argument \<open>master\<close>.
\<close>

datatype 'a memory_response = ReadOnlyLoca | EmptyMemory | NoSession
  | WriteRefused MemoryWriteError | Written 'a

datatype owner_response = MasterOnly | OwnerAssigned | OwnerAmbiguous | OwnerUnavailable

definition write_short_memory_route ::
  "digest \<Rightarrow> u64 \<Rightarrow> u64 \<Rightarrow> string \<Rightarrow> string option \<Rightarrow> string \<Rightarrow> hub \<Rightarrow> loca_memory memory_response \<times> hub" where
  "write_short_memory_route sha now clock room token text h =
     (if \<not> is_writable h room then (ReadOnlyLoca, h)
      else if str_trim text = [] then (EmptyMemory, h)
      else (case session_identity_of sha now clock token h of
              (None, h1) \<Rightarrow> (NoSession, h1)
            | (Some idy, h1) \<Rightarrow>
                (case write_short_memory room idy (str_trim text) now h1 of
                   (Inl e, h2) \<Rightarrow> (WriteRefused e, h2)
                 | (Inr memory, h2) \<Rightarrow> (Written memory, h2))))"

definition append_long_memory_route ::
  "digest \<Rightarrow> u64 \<Rightarrow> u64 \<Rightarrow> string \<Rightarrow> string option \<Rightarrow> string \<Rightarrow> hub \<Rightarrow>
     loca_memory_entry memory_response \<times> hub" where
  "append_long_memory_route sha now clock room token text h =
     (if \<not> is_writable h room then (ReadOnlyLoca, h)
      else if str_trim text = [] then (EmptyMemory, h)
      else (case session_identity_of sha now clock token h of
              (None, h1) \<Rightarrow> (NoSession, h1)
            | (Some idy, h1) \<Rightarrow>
                (case append_long_memory room idy (str_trim text) now h1 of
                   (Inl e, h2) \<Rightarrow> (WriteRefused e, h2)
                 | (Inr entry, h2) \<Rightarrow> (Written entry, h2))))"

definition set_loca_memory_owner :: "bool \<Rightarrow> string \<Rightarrow> string option \<Rightarrow> hub \<Rightarrow> owner_response \<times> hub" where
  "set_loca_memory_owner master room owner h =
     (if \<not> master then (MasterOnly, h)
      else let wanted = (case map_option str_trim owner of Some v \<Rightarrow> if v = [] then None else Some v | None \<Rightarrow> None)
           in case set_memory_owner room wanted h of
                (Inr _, h1) \<Rightarrow> (OwnerAssigned, h1)
              | (Inl (InvalidParameterName _), h1) \<Rightarrow> (OwnerAmbiguous, h1)
              | (Inl _, h1) \<Rightarrow> (OwnerUnavailable, h1))"

definition list_long_memory_entries ::
  "string \<Rightarrow> u64 option \<Rightarrow> usize option \<Rightarrow> hub \<Rightarrow> (MemoryReadError, memory_entry_page) result \<times> hub" where
  "list_long_memory_entries room after_id limit h =
     (if \<not> is_persistent (h_store h) then (Err MrPersistenceUnavailable, h)
      else with_store (store_memory_entries room (case after_id of Some i \<Rightarrow> i | None \<Rightarrow> 0)
             (clamp (case limit of Some n \<Rightarrow> n | None \<Rightarrow> 50) 1 200)) h)"

end
