(* ===== verification/Ordered_Rows.thy ===== *)
theory Ordered_Rows
  imports Prelude
begin

text \<open>
  Rows read back in the order of a key: a row whose key is larger than those before it
  comes last, both in the table and in every ordered selection of it.
\<close>

lemma hm_insert_fresh: "hm_get m k = None \<Longrightarrow> hm_insert k v m = m @ [(k, v)]"
  by (induction m) (auto simp: hm_insert_def hm_get_def split: if_splits)

lemma insort_key_snoc: "f y \<le> f x \<Longrightarrow> insort_key f y (zs @ [x]) = insort_key f y zs @ [x]"
  by (induction zs) auto

lemma sort_key_snoc: "\<forall>y \<in> set xs. f y \<le> f x \<Longrightarrow> sort_key f (xs @ [x]) = sort_key f xs @ [x]"
  by (induction xs) (auto simp: insort_key_snoc)

lemma fold_max: "fold max xs (a::nat) = Max (insert a (set xs))"
  by (metis Max.set_eq_fold list.simps(15))

text \<open>A selection of a table is not affected by a row outside it.\<close>

lemma filter_update_other: "\<not> P k \<Longrightarrow> filter (\<lambda>(j, _). P j) (hm_insert k v m) = filter (\<lambda>(j, _). P j) m"
  by (induction m) (auto simp: hm_insert_def)

text \<open>Building a map from rows with distinct keys.\<close>

lemma hm_get_fold_insert:
  "distinct (map f xs) \<Longrightarrow> hm_get (fold (\<lambda>x. hm_insert (f x) (g x)) xs m) k
     = (case find (\<lambda>x. f x = k) xs of Some x \<Rightarrow> Some (g x) | None \<Rightarrow> hm_get m k)"
proof (induction xs arbitrary: m)
  case (Cons a xs)
  show ?case
  proof (cases "f a = k")
    case True
    then have "find (\<lambda>x. f x = k) xs = None" using Cons.prems by (auto simp: find_None_iff) (metis image_eqI)
    with True Cons show ?thesis by simp
  next
    case False
    with Cons show ?thesis by (simp split: option.split)
  qed
qed simp

end
