(* ===== verification/Memory_Laws.thy ===== *)
theory Memory_Laws
  imports Memory Rooms_Durable Ordered_Rows
begin

text \<open>
  The two views of the long memory agree: a flattened text that is the join of the
  entries, in their order, and sizes that stay within their budgets.  The snapshot is
  the longest suffix of the ledger that fits the injection budget, and the pages of the
  ledger are consecutive pieces of it.
\<close>

subsection \<open>Joined texts\<close>

lemma str_len_append [simp]: "str_len (a @ b) = str_len a + str_len b"
  by (simp add: str_len_def)

lemma str_len_Nil [simp]: "str_len [] = 0"
  by (simp add: str_len_def)

lemma str_len_eq_0 [simp]: "str_len s = 0 \<longleftrightarrow> s = []"
  by (cases s) (auto simp: str_len_def)

lemma separator_len [simp]: "str_len entry_separator = 2"
  by (simp add: str_len_def entry_separator_def)

lemma join_Cons: "join_with sep (x # xs) = (if xs = [] then x else x @ sep @ join_with sep xs)"
  by (cases xs) simp_all

lemma join_snoc: "join_with sep (xs @ [x]) = (if xs = [] then x else join_with sep xs @ sep @ x)"
  by (induction xs) (auto simp: join_Cons)

lemma join_empty: "\<forall>x \<in> set xs. x \<noteq> [] \<Longrightarrow> join_with sep xs = [] \<longleftrightarrow> xs = []"
  by (cases xs) (auto simp: join_Cons)

subsection \<open>The ledger\<close>

definition ledger_texts :: "db \<Rightarrow> string \<Rightarrow> string list" where
  "ledger_texts d room = map (ey_text \<circ> snd) (memory_entries_of d room)"

definition memory_ok :: "db \<Rightarrow> bool" where
  "memory_ok d = (hm_ok (db_memory_entries d)
     \<and> (\<forall>e \<in> set (hm_values (db_memory_entries d)). ey_text e \<noteq> [] \<and> str_len (ey_text e) \<le> LONG_MEMORY_ENTRY_MAX_BYTES)
     \<and> (\<forall>room. hm_get (db_memory d) room = None \<longrightarrow> memory_entries_of d room = [])
     \<and> (\<forall>room row. hm_get (db_memory d) room = Some row \<longrightarrow>
          join_with entry_separator (ledger_texts d room) = my_long row
          \<and> str_len (my_short row) \<le> SHORT_MEMORY_MAX_BYTES \<and> str_len (my_long row) \<le> LONG_MEMORY_HARD_BYTES))"

lemma memory_okD:
  assumes "memory_ok d" "hm_get (db_memory d) room = Some row"
  shows "join_with entry_separator (ledger_texts d room) = my_long row"
    and "str_len (my_short row) \<le> SHORT_MEMORY_MAX_BYTES" "str_len (my_long row) \<le> LONG_MEMORY_HARD_BYTES"
  using assms by (auto simp: memory_ok_def)

lemma entries_sub: "set (memory_entries_of d room) \<subseteq> set (db_memory_entries d)"
  by (auto simp: memory_entries_of_def)

lemma ledger_text_ok:
  assumes "memory_ok d" "(i, e) \<in> set (memory_entries_of d room)"
  shows "ey_text e \<noteq> []" "str_len (ey_text e) \<le> LONG_MEMORY_ENTRY_MAX_BYTES"
  using assms entries_sub by (force simp: memory_ok_def hm_values_def)+

lemma ledger_texts_nonempty: "memory_ok d \<Longrightarrow> \<forall>x \<in> set (ledger_texts d room). x \<noteq> []"
  using ledger_text_ok(1) by (fastforce simp: ledger_texts_def)

lemma next_entry_id_fresh: "i \<in> set (hm_keys (db_memory_entries d)) \<Longrightarrow> i < next_entry_id d"
  by (simp add: next_entry_id_def fold_max less_Suc_eq_le)

text \<open>An appended row is the last entry of its loca and of no other.\<close>

lemma next_entry_row:
  "hm_insert (next_entry_id d) e (db_memory_entries d) = db_memory_entries d @ [(next_entry_id d, e)]"
proof -
  have "\<forall>p \<in> set (db_memory_entries d). fst p < next_entry_id d"
    using next_entry_id_fresh [of _ d] by (auto simp: hm_keys_def)
  then have "hm_get (db_memory_entries d) (next_entry_id d) = None"
    by (metis fst_conv hm_get_def less_irrefl map_of_SomeD not_None_eq)
  then show ?thesis by (rule hm_insert_fresh)
qed

lemma entries_append:
  fixes e :: memory_entry_row
  assumes "db_memory_entries d' = hm_insert (next_entry_id d) e (db_memory_entries d)"
  shows "memory_entries_of d' room
     = memory_entries_of d room @ (if ey_room e = room then [(next_entry_id d, e)] else [])"
proof -
  have "\<forall>p \<in> set (filter (\<lambda>(_, e). ey_room e = room) (db_memory_entries d)). fst p \<le> fst (next_entry_id d, e)"
    using next_entry_id_fresh [of _ d] by (auto simp: hm_keys_def less_imp_le)
  from sort_key_snoc [OF this] show ?thesis
    by (simp add: memory_entries_of_def assms next_entry_row)
qed

lemma memory_entries_cong: "db_memory_entries d' = db_memory_entries d \<Longrightarrow> memory_entries_of d' room = memory_entries_of d room"
  by (simp add: memory_entries_of_def)

lemma require_owner_row:
  "require_memory_owner d room actor = Ok row \<Longrightarrow> hm_get (db_memory d) room = Some row"
  by (auto simp: require_memory_owner_def split: option.splits if_splits)

lemma append_rows_okD:
  assumes "append_rows room actor text at d = Ok (entry, d')"
  obtains row where "require_memory_owner d room actor = Ok row" "hm_get (db_memory d) room = Some row"
    and "str_len text \<le> LONG_MEMORY_ENTRY_MAX_BYTES"
    and "str_len (my_long row) + (if my_long row = [] then 0 else 2) + str_len text \<le> LONG_MEMORY_HARD_BYTES"
    and "db_memory_entries d' = hm_insert (next_entry_id d) \<lparr> ey_room = room, ey_text = text,
           ey_decided_by = ma_name actor, ey_decided_at = at \<rparr> (db_memory_entries d)"
    and "db_memory d' = hm_insert room (row\<lparr>my_long := (if my_long row = [] then text
           else my_long row @ entry_separator @ text), my_long_updated_at := Some at,
           my_version := my_version row + 1\<rparr>) (db_memory d)"
proof -
  obtain row where row: "require_memory_owner d room actor = Ok row"
    using assms by (auto simp: append_rows_def split: sum.splits)
  show ?thesis
    using assms row that [OF row require_owner_row [OF row]]
    by (auto simp: append_rows_def Let_def split: if_splits)
qed

lemma append_rows_ok:
  assumes ok: "memory_ok d" and nonempty: "text \<noteq> []" and app: "append_rows room actor text at d = Ok (entry, d')"
  shows "memory_ok d'" and "ledger_texts d' room = ledger_texts d room @ [text]"
proof -
  from app obtain row where row: "hm_get (db_memory d) room = Some row"
    and len: "str_len text \<le> LONG_MEMORY_ENTRY_MAX_BYTES"
      "str_len (my_long row) + (if my_long row = [] then 0 else 2) + str_len text \<le> LONG_MEMORY_HARD_BYTES"
    and entries: "db_memory_entries d' = hm_insert (next_entry_id d) \<lparr> ey_room = room, ey_text = text,
           ey_decided_by = ma_name actor, ey_decided_at = at \<rparr> (db_memory_entries d)"
    and mem: "db_memory d' = hm_insert room (row\<lparr>my_long := (if my_long row = [] then text
           else my_long row @ entry_separator @ text), my_long_updated_at := Some at,
           my_version := my_version row + 1\<rparr>) (db_memory d)"
    by (rule append_rows_okD)
  note ea = entries_append [OF entries]
  show lt: "ledger_texts d' room = ledger_texts d room @ [text]"
    by (simp add: ledger_texts_def ea)
  have other: "ledger_texts d' m = ledger_texts d m" if "m \<noteq> room" for m
    using that by (simp add: ledger_texts_def ea)
  have none: "ledger_texts d room = [] \<longleftrightarrow> my_long row = []"
    using memory_okD(1) [OF ok row] join_empty [OF ledger_texts_nonempty [OF ok]] by metis
  have long: "join_with entry_separator (ledger_texts d' room)
      = (if my_long row = [] then text else my_long row @ entry_separator @ text)"
    using memory_okD(1) [OF ok row] none by (simp add: lt join_snoc)
  have rows: "hm_ok (db_memory_entries d')" using ok by (simp add: entries memory_ok_def)
  show "memory_ok d'"
    unfolding memory_ok_def
  proof (intro conjI allI ballI impI rows)
    fix e
    assume "e \<in> set (hm_values (db_memory_entries d'))"
    then have "e = \<lparr> ey_room = room, ey_text = text, ey_decided_by = ma_name actor, ey_decided_at = at \<rparr>
        \<or> e \<in> set (hm_values (db_memory_entries d))"
      by (auto simp: entries next_entry_row hm_values_def)
    then show "ey_text e \<noteq> []" and "str_len (ey_text e) \<le> LONG_MEMORY_ENTRY_MAX_BYTES"
      using ok nonempty len(1) by (auto simp: memory_ok_def)
  next
    fix m
    assume "hm_get (db_memory d') m = None"
    then show "memory_entries_of d' m = []" using ok mem ea by (auto simp: memory_ok_def split: if_splits)
  next
    fix m r
    assume r: "hm_get (db_memory d') m = Some r"
    show "join_with entry_separator (ledger_texts d' m) = my_long r"
      using r mem long other [of m] memory_okD(1) [OF ok] by (cases "m = room") auto
    show "str_len (my_short r) \<le> SHORT_MEMORY_MAX_BYTES"
      using r mem memory_okD(2) [OF ok] row by (cases "m = room") auto
    show "str_len (my_long r) \<le> LONG_MEMORY_HARD_BYTES"
      using r mem memory_okD(3) [OF ok] len(2) by (cases "m = room") (auto split: if_splits)
  qed
qed

text \<open>The owner assignment and the short memory leave the ledger alone.\<close>

lemma memory_ok_row:
  assumes ok: "memory_ok d" and "db_memory_entries d' = db_memory_entries d"
    and "db_memory d' = hm_insert room row' (db_memory d)" and "str_len (my_short row') \<le> SHORT_MEMORY_MAX_BYTES"
    and long: "my_long row' = (case hm_get (db_memory d) room of None \<Rightarrow> [] | Some row \<Rightarrow> my_long row)"
  shows "memory_ok d'"
proof -
  have "memory_entries_of d' m = memory_entries_of d m" for m
    using assms(2) by (rule memory_entries_cong)
  moreover have "join_with entry_separator (ledger_texts d room) = my_long row'
      \<and> str_len (my_long row') \<le> LONG_MEMORY_HARD_BYTES"
    using ok long by (cases "hm_get (db_memory d) room") (auto simp: memory_ok_def ledger_texts_def)
  ultimately show ?thesis
    using ok assms(2-4) by (auto simp: memory_ok_def ledger_texts_def)
qed

lemma short_rows_ok:
  assumes ok: "memory_ok d" and "short_rows room actor text at d = Ok (u, d')"
  shows "memory_ok d'"
proof -
  obtain row where row: "require_memory_owner d room actor = Ok row"
    using assms(2) by (auto simp: short_rows_def split: sum.splits)
  then have len: "\<not> str_len text > SHORT_MEMORY_MAX_BYTES"
    and d': "d' = d\<lparr>db_memory := hm_insert room (row\<lparr>my_short := text, my_short_updated_at := Some at,
       my_version := my_version row + 1\<rparr>) (db_memory d)\<rparr>"
    using assms(2) by (auto simp: short_rows_def split: if_splits)
  show ?thesis
    by (rule memory_ok_row [OF ok, where room = room and row' = "row\<lparr>my_short := text,
          my_short_updated_at := Some at, my_version := my_version row + 1\<rparr>"]) (use d' len require_owner_row [OF row] in auto)
qed

subsection \<open>The snapshot\<close>

text \<open>The bytes of a selection, newest entry first.\<close>

definition selection_bytes :: "string list \<Rightarrow> nat" where
  "selection_bytes sel = str_len (join_with entry_separator (rev sel))"

lemma selection_bytes_snoc:
  "selection_bytes (sel @ [t]) = selection_bytes sel + (if sel = [] then 0 else 2) + str_len t"
  by (simp add: selection_bytes_def join_Cons)

lemma selection_bytes_Nil [simp]: "selection_bytes [] = 0"
  by (simp add: selection_bytes_def)

lemma select_closed:
  "\<forall>(i, t) \<in> set es. str_len t \<le> LONG_MEMORY_ENTRY_MAX_BYTES \<Longrightarrow> select_suffix es sel b True un = (sel, un)"
  by (induction es) auto

lemma select_open:
  assumes "\<forall>(i, t) \<in> set es. str_len t \<le> LONG_MEMORY_ENTRY_MAX_BYTES"
    and "b = selection_bytes sel" "b \<le> LONG_MEMORY_ENTRY_MAX_BYTES"
  shows "\<exists>k \<le> length es. select_suffix es sel b False un = (sel @ map snd (take k es), un)
     \<and> selection_bytes (sel @ map snd (take k es)) \<le> LONG_MEMORY_ENTRY_MAX_BYTES
     \<and> (k < length es \<longrightarrow> LONG_MEMORY_ENTRY_MAX_BYTES < selection_bytes (sel @ map snd (take (Suc k) es)))"
  using assms
proof (induction es arbitrary: sel b)
  case Nil
  then show ?case by simp
next
  case (Cons p es)
  obtain i t where p: "p = (i, t)" by force
  define c where "c = selection_bytes (sel @ [t])"
  have c: "c = b + (if sel = [] then 0 else 2) + str_len t"
    using Cons.prems(2) by (simp add: c_def selection_bytes_snoc)
  have t: "\<not> str_len t > LONG_MEMORY_ENTRY_MAX_BYTES" using Cons.prems(1) by (simp add: p)
  show ?case
  proof (cases "c \<le> LONG_MEMORY_ENTRY_MAX_BYTES")
    case True
    then have go: "select_suffix (p # es) sel b False un = select_suffix es (sel @ [t]) c False un"
      using t by (simp add: p c Let_def)
    from Cons.IH [of c "sel @ [t]"] True Cons.prems(1) obtain k where
      "k \<le> length es" "select_suffix es (sel @ [t]) c False un = ((sel @ [t]) @ map snd (take k es), un)"
      "selection_bytes ((sel @ [t]) @ map snd (take k es)) \<le> LONG_MEMORY_ENTRY_MAX_BYTES"
      "k < length es \<longrightarrow> LONG_MEMORY_ENTRY_MAX_BYTES < selection_bytes ((sel @ [t]) @ map snd (take (Suc k) es))"
      by (auto simp: c_def)
    then show ?thesis using go by (intro exI [of _ "Suc k"]) (simp add: p)
  next
    case False
    then have "select_suffix (p # es) sel b False un = (sel, un)"
      using t select_closed [of es sel b un] Cons.prems(1) by (simp add: p c Let_def)
    then show ?thesis
      using False Cons.prems(2,3) by (intro exI [of _ 0]) (simp add: p c_def)
  qed
qed

text \<open>The snapshot holds the longest suffix of the ledger that fits, and says so.\<close>

lemma snapshot_suffix:
  assumes ok: "memory_ok d" and row: "hm_get (db_memory d) room = Some row"
  defines "texts \<equiv> ledger_texts d room"
    and "snap \<equiv> snapshot_of (memory_of_row room row) (memory_entries_of d room)"
  shows "\<exists>k \<le> length texts. lm_long (ls_memory snap) = join_with entry_separator (drop k texts)
      \<and> str_len (lm_long (ls_memory snap)) \<le> LONG_MEMORY_ENTRY_MAX_BYTES
      \<and> (0 < k \<longrightarrow> LONG_MEMORY_ENTRY_MAX_BYTES < str_len (join_with entry_separator (drop (k - 1) texts)))
      \<and> ls_long_omitted_entries snap = k
      \<and> \<not> ls_provenance_inconsistent snap \<and> ls_long_uninjectable_entry_ids snap = []"
proof -
  define es where "es = rev (map (\<lambda>(i, e). (i, ey_text e)) (memory_entries_of d room))"
  have small: "\<forall>(i, t) \<in> set es. str_len t \<le> LONG_MEMORY_ENTRY_MAX_BYTES"
    using ledger_text_ok(2) [OF ok] by (auto simp: es_def)
  have texts: "map snd es = rev texts" "length es = length texts"
    by (simp_all add: es_def texts_def ledger_texts_def rev_map case_prod_beta comp_def)
  from select_open [OF small, of 0 "[]" "[]"] obtain j where j: "j \<le> length es"
    "select_suffix es [] 0 False [] = (map snd (take j es), [])"
    "selection_bytes (map snd (take j es)) \<le> LONG_MEMORY_ENTRY_MAX_BYTES"
    "j < length es \<longrightarrow> LONG_MEMORY_ENTRY_MAX_BYTES < selection_bytes (map snd (take (Suc j) es))"
    by auto
  have take: "rev (map snd (take m es)) = drop (length texts - m) texts" if "m \<le> length es" for m
    using that by (simp add: take_map [symmetric] texts rev_take)
  define k where "k = length texts - j"
  have flat: "flattened (memory_entries_of d room) = my_long row"
    using memory_okD(1) [OF ok row] by (simp add: flattened_def ledger_texts_def)
  have snap: "lm_long (ls_memory snap) = join_with entry_separator (drop k texts)"
    "ls_long_omitted_entries snap = k" "\<not> ls_provenance_inconsistent snap"
    "ls_long_uninjectable_entry_ids snap = []"
    using j(1,2) flat take [OF j(1)]
    by (simp_all add: snap_def snapshot_of_def es_def [symmetric] Let_def k_def memory_of_row_def texts(2)
        [unfolded es_def, simplified])
  have "0 < k \<longrightarrow> LONG_MEMORY_ENTRY_MAX_BYTES < str_len (join_with entry_separator (drop (k - 1) texts))"
    using j(4) take [of "Suc j"] texts(2) by (auto simp: k_def selection_bytes_def Suc_diff_Suc)
  moreover have "str_len (join_with entry_separator (drop k texts)) \<le> LONG_MEMORY_ENTRY_MAX_BYTES"
    using j(3) take [OF j(1)] by (simp add: selection_bytes_def k_def)
  ultimately show ?thesis using snap by (intro exI [of _ k]) (simp add: k_def)
qed

subsection \<open>Pages\<close>

lemma entries_ordered: "memory_ok d \<Longrightarrow> sorted_wrt (<) (map fst (memory_entries_of d room))"
proof -
  assume "memory_ok d"
  then have "distinct (map fst (filter (\<lambda>(_, e). ey_room e = room) (db_memory_entries d)))"
    by (simp add: memory_ok_def hm_ok_def distinct_map_filter)
  then show ?thesis
    unfolding memory_entries_of_def
    by (simp add: strict_sorted_iff distinct_map)
qed

lemma filter_after:
  fixes xs :: "(u64 \<times> 'a) list"
  assumes "sorted_wrt (<) (map fst xs)" and n: "n < length xs"
  shows "filter (\<lambda>(i, _). i > fst (xs ! n)) xs = drop (Suc n) xs"
proof -
  have lt: "fst (xs ! a) < fst (xs ! b)" if "a < b" "b < length xs" for a b
    using assms(1) that by (auto simp: sorted_wrt_iff_nth_less)
  have low: "filter (\<lambda>(i, _). i > fst (xs ! n)) (take (Suc n) xs) = []"
    unfolding filter_empty_conv
  proof
    fix p
    assume "p \<in> set (take (Suc n) xs)"
    then obtain j where "j < Suc n" "p = xs ! j"
      by (auto simp: in_set_conv_nth)
    then show "\<not> (case p of (i, _) \<Rightarrow> i > fst (xs ! n))"
      using lt [of j n] n by (cases "j = n") (auto split: prod.split)
  qed
  have high: "filter (\<lambda>(i, _). i > fst (xs ! n)) (drop (Suc n) xs) = drop (Suc n) xs"
    unfolding filter_id_conv
  proof
    fix p
    assume "p \<in> set (drop (Suc n) xs)"
    then obtain j where "j < length xs - Suc n" "p = xs ! (Suc n + j)"
      by (auto simp: in_set_conv_nth)
    then show "case p of (i, _) \<Rightarrow> i > fst (xs ! n)" using lt [of n "Suc n + j"] by (auto split: prod.split)
  qed
  have "filter (\<lambda>(i, _). i > fst (xs ! n)) (take (Suc n) xs @ drop (Suc n) xs) = drop (Suc n) xs"
    unfolding filter_append low high by simp
  then show ?thesis by simp
qed

text \<open>
  A page is the next piece of the ledger, and the cursor it returns names exactly the
  piece after it; no cursor means that nothing is left.
\<close>

lemma entry_page_piece:
  assumes ord: "sorted_wrt (<) (map fst entries)" and "1 \<le> limit"
    and rest_def: "rest = filter (\<lambda>(i, _). i > after_id) entries"
    and page_def: "page = entry_page entries after_id limit"
  shows "pg_entries page = map provenance_of (take limit rest)"
    and "pg_next_after_id page = None \<Longrightarrow> length rest \<le> limit"
    and "pg_next_after_id page = Some i \<Longrightarrow> filter (\<lambda>(j, _). j > i) entries = drop limit rest"
proof -
  show one: "pg_entries page = map provenance_of (take limit rest)"
    by (simp add: page_def entry_page_def rest_def [symmetric] Let_def)
  show "pg_next_after_id page = None \<Longrightarrow> length rest \<le> limit"
    by (simp add: page_def entry_page_def rest_def [symmetric] Let_def split: if_splits)
  assume i: "pg_next_after_id page = Some i"
  then have more: "limit < length rest" and "i = ev_id (last (map provenance_of (take limit rest)))"
    by (auto simp: page_def entry_page_def rest_def [symmetric] Let_def min_def split: if_splits)
  moreover have ne: "take limit rest \<noteq> []" using more assms(2) by auto
  moreover have "last (take limit rest) = rest ! (limit - 1)"
    using more assms(2) by (simp add: last_conv_nth [OF ne] min_def)
  ultimately have last: "i = fst (rest ! (limit - 1))"
    by (simp add: last_map provenance_of_def case_prod_beta)
  have "rest ! (limit - 1) \<in> set rest" using more by simp
  then have "after_id < i" using last by (auto simp: rest_def)
  then have "filter (\<lambda>(j, _). j > i) entries = filter (\<lambda>(j, _). j > i) rest"
    unfolding rest_def filter_filter by (intro filter_cong) auto
  also have "sorted_wrt (<) (map fst rest)"
    using ord unfolding rest_def sorted_wrt_map by (rule sorted_wrt_filter)
  then have "filter (\<lambda>(j, _). j > i) rest = drop limit rest"
    using filter_after [of rest "limit - 1"] more assms(2) last by simp
  finally show "filter (\<lambda>(j, _). j > i) entries = drop limit rest" .
qed

subsection \<open>Every operation keeps the ledger\<close>

lemma attachment_refs_memory:
  "write_attachment_refs m as d = Inr d' \<Longrightarrow>
     db_memory d' = db_memory d \<and> db_memory_entries d' = db_memory_entries d"
  by (induction m as d rule: write_attachment_refs.induct)
    (auto simp: write_attachment_ref_def split: sum.splits if_splits)

definition memory_tables :: "db \<Rightarrow> (string, memory_row) hashmap \<times> (u64, memory_entry_row) hashmap" where
  "memory_tables d = (db_memory d, db_memory_entries d)"

lemma memory_ok_cong: "memory_tables d' = memory_tables d \<Longrightarrow> memory_ok d' = memory_ok d"
  by (simp add: memory_tables_def memory_ok_def ledger_texts_def memory_entries_of_def)

lemma retire_condition_memory [simp]: "memory_tables (retire_condition room key at d) = memory_tables d"
  by (simp add: memory_tables_def retire_condition_def ack_rows_def resolve_rows_def delete_mark_def Let_def)

lemma insert_core_memory: "insert_core m operation d = Ok d' \<Longrightarrow> memory_tables d' = memory_tables d"
  by (auto simp: insert_core_def insert_message_row_def reset_silence_care_def memory_tables_def
      retire_condition_def ack_rows_def resolve_rows_def delete_mark_def Let_def
      split: sum.splits if_splits dest!: attachment_refs_memory)

text \<open>No operation on rooms touches the tables of the memory, hence none breaks the ledger.\<close>

interpretation memory_rows: db_law "\<lambda>d. memory_tables d = v" for v
  by unfold_locales
    (auto simp: memory_tables_def write_room_state_def pause_room_attentions_def ack_rows_def
      retire_room_attentions_def resolve_rows_def revoke_davets_where_def Let_def seat_operator_def
      insert_assignment_def appoint_rows_def close_seat_def revoke_rows_def
      split: if_splits sum.splits option.splits dest: insert_core_memory [unfolded memory_tables_def])

interpretation recall: db_law memory_ok
  by unfold_locales
    (blast intro: memory_ok_cong [THEN iffD2] memory_rows.on_room_state memory_rows.on_pause memory_rows.on_insert
      memory_rows.on_bans memory_rows.on_davets memory_rows.on_reactions memory_rows.on_seal memory_rows.on_seat
      memory_rows.on_appoint memory_rows.on_revoke)+

end
