(* ===== verification/Memory_Properties.thy ===== *)
theory Memory_Properties
  imports Memory_Laws Samples
begin

text \<open>
  The memory of a loca over any interleaving of its operations with the operations on
  rooms, storage failures included.
\<close>

subsection \<open>Steps\<close>

inductive memory_step :: "hub \<Rightarrow> hub \<Rightarrow> bool" where
  owner: "memory_step h (snd (set_loca_memory_owner master room owner h))"
| short: "memory_step h (snd (write_short_memory_route sha now clock room token txt h))"
| append: "memory_step h (snd (append_long_memory_route sha now clock room token txt h))"
| page: "memory_step h (snd (list_long_memory_entries room after_id limit h))"
| rooms: "room_step h h' \<Longrightarrow> memory_step h h'"

abbreviation memory_open :: "hub \<Rightarrow> bool" where
  "memory_open \<equiv> recall.durable"

lemma memory_open_def: "memory_open h = (\<exists>d. sto_conn (h_store h) = Some d \<and> memory_ok d)"
  by (simp add: recall.durable_def recall.stored_def)

lemma stored_cong: "sto_conn s' = sto_conn s \<Longrightarrow> recall.stored s' = recall.stored s"
  by (simp add: recall.stored_def)

subsection \<open>Every step keeps the ledger\<close>

lemma store_loca_memory_reads: "store_loca_memory room s = (res, s') \<Longrightarrow> sto_conn s' = sto_conn s"
  by (auto simp: store_loca_memory_def run_txn_def split: option.splits list.splits bool.splits)

lemma snapshot_reads: "store_memory_snapshot room s = (res, s') \<Longrightarrow> sto_conn s' = sto_conn s"
  using store_loca_memory_reads [of room s]
  by (auto simp: store_memory_snapshot_def run_txn_def
      split: prod.splits sum.splits option.splits list.splits bool.splits)

lemma broadcast_memory_open: "memory_open h \<Longrightarrow> memory_open (broadcast_memory_snapshot room h)"
proof -
  assume h: "memory_open h"
  obtain res h1 where st: "with_store (store_memory_snapshot room) h = (res, h1)" by fastforce
  have "memory_open h1"
    using recall.durable_store [OF st h] snapshot_reads [OF prod.collapse [symmetric]] stored_cong by blast
  then show ?thesis using st by (auto simp: broadcast_memory_snapshot_def split: sum.splits)
qed

lemma owner_principal_open:
  assumes "memory_open h" "memory_owner_principal owner h = (res, h')"
  shows "memory_open h'"
proof (cases owner)
  case None
  then show ?thesis using assms by (simp add: memory_owner_principal_def)
next
  case (Some name)
  obtain r h1 where st: "with_store (run_txn [] (\<lambda>d. Ok (active_principals_named (h_store h) name, d))) h = (r, h1)"
    by fastforce
  have "memory_open h1"
    by (rule recall.durable_store [OF st assms(1)]) (rule recall.stored_txn, auto)
  moreover have "h' = h1"
    using assms(2) Some st by (auto simp: memory_owner_principal_def split: sum.splits list.splits)
  ultimately show ?thesis by simp
qed

lemma stored_owner_row:
  assumes "recall.stored s"
  shows "recall.stored (snd (store_set_memory_owner room owner pid s))"
  unfolding store_set_memory_owner_def
proof (rule recall.stored_write [OF assms], rule memory_ok_row)
  fix d
  assume "memory_ok d"
  then show "str_len (my_short (case hm_get (db_memory d) room of
        None \<Rightarrow> \<lparr> my_owner = owner, my_owner_principal_id = pid, my_short = [], my_long = [],
                  my_short_updated_at = None, my_long_updated_at = None, my_version = 1 \<rparr>
      | Some row \<Rightarrow> row\<lparr>my_owner := owner, my_owner_principal_id := pid, my_version := my_version row + 1\<rparr>))
      \<le> SHORT_MEMORY_MAX_BYTES"
    using memory_okD(2) by (auto split: option.split)
qed (auto split: option.split)

lemma set_owner_open:
  assumes "memory_open h"
  shows "memory_open (snd (set_memory_owner room owner h))"
proof -
  obtain pr h1 where pr: "memory_owner_principal owner h = (pr, h1)" by fastforce
  have h1: "memory_open h1" by (rule owner_principal_open [OF assms pr])
  obtain res h2 where st: "with_store (store_set_memory_owner room owner (projr pr)) h1 = (res, h2)" by fastforce
  have "memory_open h2" by (rule recall.durable_store [OF st h1 stored_owner_row])
  then show ?thesis
    using pr h1 st broadcast_memory_open by (auto simp: set_memory_owner_def Let_def split: sum.splits)
qed

lemma stored_session:
  assumes "recall.stored s"
  shows "recall.stored (snd (delete_admin_session sha clock t s))"
proof -
  have ok: "memory_ok (d\<lparr>db_admin_sessions := x\<rparr>) = memory_ok d"
    "memory_ok (d\<lparr>db_principal_sessions := y\<rparr>) = memory_ok d" for d x y
    by (rule memory_ok_cong, simp add: memory_tables_def)+
  obtain r s1 where w: "run_write (\<lambda>d. d\<lparr>db_admin_sessions := hm_remove t (db_admin_sessions d)\<rparr>) s = (r, s1)"
    by fastforce
  have s1: "recall.stored s1"
    using recall.stored_write [OF assms, of "\<lambda>d. d\<lparr>db_admin_sessions := hm_remove t (db_admin_sessions d)\<rparr>"] w
    by (simp add: ok)
  have "recall.stored (snd (revoke_principal_session sha t clock s1))"
    unfolding revoke_principal_session_def by (rule recall.stored_write [OF s1]) (simp add: ok)
  with w s1 show ?thesis by (simp add: delete_admin_session_def split: sum.split)
qed

lemma session_open:
  assumes "memory_open h" "session_identity_of sha now clock token h = (idy, h')"
  shows "memory_open h'"
proof -
  have "memory_open (snd (with_store (delete_admin_session sha clock t) h1))" if "memory_open h1" for t h1
    using recall.durable_store [OF prod.collapse [symmetric] that stored_session] .
  moreover have "memory_open (h\<lparr>h_sessions := x\<rparr>)" for x
    using assms(1) by (simp add: recall.durable_def)
  ultimately show ?thesis
    using assms by (auto simp: session_identity_of_def Let_def split: option.splits if_splits)
qed

lemma stored_short:
  assumes "recall.stored s"
  shows "recall.stored (snd (store_write_short_memory room actor txt at s))"
proof -
  obtain r s1 where w: "answer_txn MwPersistenceUnavailable MwStorage (short_rows room actor txt at) s = (r, s1)"
    by fastforce
  have s1: "recall.stored s1"
    using recall.stored_answer [OF assms, of "short_rows room actor txt at"] short_rows_ok w by (metis snd_conv)
  obtain r' s2 where rd: "store_loca_memory room s1 = (r', s2)" by fastforce
  have "recall.stored s2" using s1 stored_cong [OF store_loca_memory_reads [OF rd]] by simp
  with w s1 rd show ?thesis
    by (auto simp: store_write_short_memory_def split: sum.splits option.splits)
qed

lemma write_short_open:
  assumes "memory_open h"
  shows "memory_open (snd (write_short_memory room idy txt now h))"
proof -
  obtain res h1 where st: "with_store (store_write_short_memory room (actor_of_session h idy) txt now) h = (res, h1)"
    by fastforce
  have "memory_open h1" by (rule recall.durable_store [OF st assms stored_short])
  then show ?thesis
    using st broadcast_memory_open by (auto simp: write_short_memory_def split: sum.splits)
qed

lemma append_long_open:
  assumes "memory_open h" and "txt \<noteq> []"
  shows "memory_open (snd (append_long_memory room idy txt now h))"
proof -
  obtain res h1 where st: "with_store (store_append_long_memory room (actor_of_session h idy) txt now) h = (res, h1)"
    by fastforce
  have "memory_open h1"
    by (rule recall.durable_store [OF st assms(1)])
      (simp add: store_append_long_memory_def recall.stored_answer append_rows_ok(1) [OF _ assms(2)])
  then show ?thesis
    using st broadcast_memory_open by (auto simp: append_long_memory_def split: sum.splits)
qed

lemma list_entries_open:
  assumes "memory_open h"
  shows "memory_open (snd (list_long_memory_entries room after_id limit h))"
proof -
  have "recall.stored (snd (store_memory_entries room a l s))" if "recall.stored s" for a l s
    unfolding store_memory_entries_def by (rule recall.stored_answer [OF that]) (auto split: option.splits if_splits)
  from recall.durable_store [OF prod.collapse [symmetric] assms this] show ?thesis
    using assms by (simp add: list_long_memory_entries_def)
qed

lemma routes_open:
  assumes h: "memory_open h"
  shows "memory_open (snd (write_short_memory_route sha now clock room token txt h))"
    and "memory_open (snd (append_long_memory_route sha now clock room token txt h))"
    and "memory_open (snd (set_loca_memory_owner master room owner h))"
proof -
  obtain idy h1 where s: "session_identity_of sha now clock token h = (idy, h1)" by fastforce
  have h1: "memory_open h1" by (rule session_open [OF h s])
  show "memory_open (snd (write_short_memory_route sha now clock room token txt h))"
    using h h1 s write_short_open [OF h1, of room "the idy" "str_trim txt" now]
    by (auto simp: write_short_memory_route_def split: option.split prod.splits sum.split)
  show "memory_open (snd (append_long_memory_route sha now clock room token txt h))"
    using h h1 s append_long_open [OF h1, of "str_trim txt" room "the idy" now]
    by (auto simp: append_long_memory_route_def split: option.split prod.splits sum.split)
  show "memory_open (snd (set_loca_memory_owner master room owner h))"
    using h set_owner_open [OF h, of room "case map_option str_trim owner of
        Some v \<Rightarrow> if v = [] then None else Some v | None \<Rightarrow> None"]
    by (auto simp: set_loca_memory_owner_def Let_def split: prod.splits sum.split sql_error.split)
qed

lemma memory_step_keeps:
  assumes "memory_open h" "memory_step h h'"
  shows "memory_open h'"
  using assms(2,1)
  by (induction rule: memory_step.induct) (auto intro: routes_open list_entries_open recall.durable_step)

interpretation memory_system: step_invariant memory_step memory_open
  by unfold_locales (rule memory_step_keeps)

subsection \<open>The ledger of a loca\<close>

text \<open>
  C29: the two views of the long memory never diverge.  After any sequence of owner
  assignments, writes, reads, operations on rooms and storage failures, the flattened
  text of a loca is the join of its entries in the order they were decided; the short
  memory stays within 4 KiB and the long one within 64 KiB; the snapshot sent to the
  clients is the longest suffix of the ledger that fits into 8 KiB, it is never
  reported inconsistent and leaves out exactly the older entries; and a page request
  is never refused as inconsistent but answered with the next piece of the ledger and
  a cursor for the piece after it.
\<close>

theorem memory_ledger_sound:
  assumes "memory_step\<^sup>*\<^sup>* h h'" and "memory_open h" and "sto_conn (h_store h') = Some d"
    and "hm_get (db_memory d) room = Some row"
  shows "join_with entry_separator (ledger_texts d room) = my_long row
    \<and> str_len (my_short row) \<le> 4096 \<and> str_len (my_long row) \<le> 65536
    \<and> (let snap = snapshot_of (memory_of_row room row) (memory_entries_of d room)
       in \<not> ls_provenance_inconsistent snap \<and> ls_long_uninjectable_entry_ids snap = []
        \<and> str_len (lm_long (ls_memory snap)) \<le> 8192
        \<and> lm_long (ls_memory snap) = join_with entry_separator (drop (ls_long_omitted_entries snap) (ledger_texts d room))
        \<and> (0 < ls_long_omitted_entries snap \<longrightarrow>
             8192 < str_len (join_with entry_separator (drop (ls_long_omitted_entries snap - 1) (ledger_texts d room)))))
    \<and> (\<forall>after_id limit. \<exists>page. fst (list_long_memory_entries room after_id limit
          (h'\<lparr>h_store := (h_store h')\<lparr>sto_faults := []\<rparr>\<rparr>)) = Ok page
        \<and> (let n = clamp (case limit of Some l \<Rightarrow> l | None \<Rightarrow> 50) 1 200;
               rest = filter (\<lambda>(i, _). i > (case after_id of Some a \<Rightarrow> a | None \<Rightarrow> 0)) (memory_entries_of d room)
           in pg_entries page = map provenance_of (take n rest)
              \<and> (case pg_next_after_id page of
                   None \<Rightarrow> length rest \<le> n
                 | Some i \<Rightarrow> filter (\<lambda>(j, _). j > i) (memory_entries_of d room) = drop n rest)))"
proof -
  have ok: "memory_ok d"
    using memory_system.reach_keeps [OF assms(1,2)] assms(3) by (simp add: memory_open_def)
  show ?thesis
  proof (intro conjI allI)
    show "join_with entry_separator (ledger_texts d room) = my_long row" by (rule memory_okD(1) [OF ok assms(4)])
    show "str_len (my_short row) \<le> 4096" "str_len (my_long row) \<le> 65536"
      using memory_okD(2,3) [OF ok assms(4)] by (simp_all add: SHORT_MEMORY_MAX_BYTES_def LONG_MEMORY_HARD_BYTES_def)
    show "let snap = snapshot_of (memory_of_row room row) (memory_entries_of d room)
       in \<not> ls_provenance_inconsistent snap \<and> ls_long_uninjectable_entry_ids snap = []
        \<and> str_len (lm_long (ls_memory snap)) \<le> 8192
        \<and> lm_long (ls_memory snap) = join_with entry_separator (drop (ls_long_omitted_entries snap) (ledger_texts d room))
        \<and> (0 < ls_long_omitted_entries snap \<longrightarrow>
             8192 < str_len (join_with entry_separator (drop (ls_long_omitted_entries snap - 1) (ledger_texts d room))))"
      using snapshot_suffix [OF ok assms(4)] by (auto simp: Let_def LONG_MEMORY_ENTRY_MAX_BYTES_def)
    fix after_id :: "u64 option" and limit :: "usize option"
    define n where "n = clamp (case limit of Some l \<Rightarrow> l | None \<Rightarrow> 50) 1 200"
    define a where "a = (case after_id of Some a \<Rightarrow> a | None \<Rightarrow> 0)"
    define page where "page = entry_page (memory_entries_of d room) a n"
    have n: "1 \<le> n" using clamp_bounds [of 1 200] by (simp add: n_def)
    have "flattened (memory_entries_of d room) = my_long row"
      using memory_okD(1) [OF ok assms(4)] by (simp add: flattened_def ledger_texts_def)
    then have "fst (list_long_memory_entries room after_id limit
          (h'\<lparr>h_store := (h_store h')\<lparr>sto_faults := []\<rparr>\<rparr>)) = Ok page"
      using assms(3,4)
      by (simp add: list_long_memory_entries_def is_persistent_def with_store_def store_memory_entries_def
          answer_txn_def page_def n_def a_def)
    moreover note entry_page_piece [OF entries_ordered [OF ok] n refl refl, of room a]
    ultimately show "\<exists>page. fst (list_long_memory_entries room after_id limit
          (h'\<lparr>h_store := (h_store h')\<lparr>sto_faults := []\<rparr>\<rparr>)) = Ok page
        \<and> (let n = clamp (case limit of Some l \<Rightarrow> l | None \<Rightarrow> 50) 1 200;
               rest = filter (\<lambda>(i, _). i > (case after_id of Some a \<Rightarrow> a | None \<Rightarrow> 0)) (memory_entries_of d room)
           in pg_entries page = map provenance_of (take n rest)
              \<and> (case pg_next_after_id page of
                   None \<Rightarrow> length rest \<le> n
                 | Some i \<Rightarrow> filter (\<lambda>(j, _). j > i) (memory_entries_of d room) = drop n rest))"
      unfolding n_def [symmetric] a_def [symmetric] page_def Let_def by (auto split: option.split)
  qed
qed

definition sample_remembering :: hub where
  "sample_remembering = sample_hub\<lparr>h_admin_token := [], h_sessions := [(''s1'',
     \<lparr> si_principal_id = None, si_building_role = MemberRole, si_name = ''ada'', si_kind = Agent,
       si_loca = None, si_member = None, si_admin = False, si_expires_at = 0 \<rparr>)]\<rparr>"

definition sample_remembered :: hub where
  "sample_remembered =
     snd (append_long_memory_route (map of_char) 9 9 ''loca'' (Some ''s1'') '' use words '' (
     snd (append_long_memory_route (map of_char) 8 8 ''loca'' (Some ''s1'') ''be brief'' (
     snd (set_loca_memory_owner True ''loca'' (Some ''ada'') sample_remembering)))))"

lemma sample_remembered_reached: "memory_step\<^sup>*\<^sup>* sample_remembering sample_remembered"
  unfolding sample_remembered_def
  by (rule rtranclp.rtrancl_into_rtrancl [OF rtranclp.rtrancl_into_rtrancl [OF r_into_rtranclp]]; rule memory_step.intros)

lemma sample_remembering_open: "memory_open sample_remembering"
  by (simp add: memory_open_def sample_remembering_def sample_defs memory_ok_def hm_values_def memory_entries_of_def)

definition sample_memory_row :: memory_row where
  "sample_memory_row = \<lparr> my_owner = Some ''ada'', my_owner_principal_id = None, my_short = [],
     my_long = ''be brief'' @ entry_separator @ ''use words'', my_short_updated_at = None,
     my_long_updated_at = Some 9, my_version = 3 \<rparr>"

theorem memory_ledger_sound_witness:
  "sto_conn (h_store sample_remembered) = Some (the (sto_conn (h_store sample_remembered)))
   \<and> hm_get (db_memory (the (sto_conn (h_store sample_remembered)))) ''loca'' = Some sample_memory_row
   \<and> ledger_texts (the (sto_conn (h_store sample_remembered))) ''loca'' = [''be brief'', ''use words'']
   \<and> join_with entry_separator (ledger_texts (the (sto_conn (h_store sample_remembered))) ''loca'')
       = my_long sample_memory_row"
proof -
  have d: "sto_conn (h_store sample_remembered) = Some (the (sto_conn (h_store sample_remembered)))" by code_simp
  have row: "hm_get (db_memory (the (sto_conn (h_store sample_remembered)))) ''loca'' = Some sample_memory_row"
    by code_simp
  have "ledger_texts (the (sto_conn (h_store sample_remembered))) ''loca'' = [''be brief'', ''use words'']"
    by code_simp
  with d row memory_ledger_sound [OF sample_remembered_reached sample_remembering_open d row] show ?thesis by blast
qed

end
