(* ===== verification/Notes.thy ===== *)
theory Notes
  imports Hub_State Store_Messages
begin

text \<open>
  The notes and the journal of a loca in \<^verbatim>\<open>crates/server/src/hub.rs\<close>.  A note is living
  state under a key, replaced in place; every replaced version is archived with its
  revision number.  The journal is append-only.  As everywhere the table is written
  first and the memory follows.
\<close>

datatype NoteError = NoteExists | NoteNotFound | NoteStorage

subsection \<open>Journal\<close>

definition journal_view :: "hub \<Rightarrow> string \<Rightarrow> journal_entry list" where
  "journal_view h room = (case get_room h room of None \<Rightarrow> [] | Some r \<Rightarrow> r_journal r)"

definition append_journal ::
  "string \<Rightarrow> string \<Rightarrow> SenderType \<Rightarrow> string \<Rightarrow> u64 \<Rightarrow> hub \<Rightarrow> (sql_error, journal_entry) result \<times> hub" where
  "append_journal room who by_type txt now h =
     (let i = (case get_room h room of None \<Rightarrow> 1 | Some r \<Rightarrow> r_next_journal_id r);
          entry = \<lparr> j_id = i, j_room = room, j_by = who, j_by_type = by_type, j_text = txt, j_at = now \<rparr>;
          (res, h1) = with_store (store_append_journal entry) h
      in case res of
           Inl e \<Rightarrow> (Err e, h1)
         | Inr _ \<Rightarrow>
             let r = room_mut room h1
             in (Ok entry, put_room room (send (FJournal entry)
                   (r\<lparr>r_next_journal_id := u64_add i 1, r_journal := r_journal r @ [entry]\<rparr>)) h1))"

subsection \<open>Notes\<close>

definition notes_view :: "hub \<Rightarrow> string \<Rightarrow> room_note list" where
  "notes_view h room = (case get_room h room of None \<Rightarrow> []
     | Some r \<Rightarrow> sort_key n_key (hm_values (r_notes r)))"

definition note_view :: "hub \<Rightarrow> string \<Rightarrow> string \<Rightarrow> room_note option" where
  "note_view h room key = (case get_room h room of None \<Rightarrow> None | Some r \<Rightarrow> hm_get (r_notes r) key)"

definition create_note ::
  "string \<Rightarrow> create_note_body \<Rightarrow> u64 \<Rightarrow> hub \<Rightarrow> (NoteError, room_note) result \<times> hub" where
  "create_note room req now h =
     (if note_view h room (cn_key req) \<noteq> None then (Err NoteExists, h)
      else let rv = (case get_room h room of None \<Rightarrow> 1 | Some r \<Rightarrow> r_next_rev r);
               note = \<lparr> n_key = cn_key req, n_title = cn_title req, n_body = cn_body req,
                        n_can_write = cn_can_write req, n_updated_by = cn_by req, n_updated_at = now,
                        n_rev = rv \<rparr>;
               (res, h1) = with_store (upsert_note room note) h
           in case res of
                Inl _ \<Rightarrow> (Err NoteStorage, h1)
              | Inr _ \<Rightarrow>
                  let r = room_mut room h1
                  in (Ok note, put_room room (send (FNote note)
                        (r\<lparr>r_next_rev := u64_add rv 1, r_notes := hm_insert (cn_key req) note (r_notes r)\<rparr>)) h1))"

text \<open>The new version of a note; only an operator reassigns who may write.\<close>

definition updated_note :: "update_note_body \<Rightarrow> bool \<Rightarrow> u64 \<Rightarrow> u64 \<Rightarrow> room_note \<Rightarrow> room_note" where
  "updated_note req is_operator now rv note = note\<lparr>
     n_title := (case un_title req of Some t \<Rightarrow> t | None \<Rightarrow> n_title note),
     n_body := (case un_body req of Some b \<Rightarrow> b | None \<Rightarrow> n_body note),
     n_can_write := (case un_can_write req of
        Some cw \<Rightarrow> if is_operator then cw else n_can_write note | None \<Rightarrow> n_can_write note),
     n_updated_by := un_by req, n_updated_at := now, n_rev := rv \<rparr>"

text \<open>The permission is advisory: a writer who is not listed succeeds and is reported.\<close>

definition note_warning :: "string \<Rightarrow> update_note_body \<Rightarrow> room_note \<Rightarrow> ServerFrame option" where
  "note_warning key req note =
     (if n_can_write note = [] \<or> un_by req \<in> set (n_can_write note) then None
      else Some (FNoteWarn key (un_by req) (n_can_write note)))"

definition update_note ::
  "string \<Rightarrow> string \<Rightarrow> update_note_body \<Rightarrow> bool \<Rightarrow> u64 \<Rightarrow> hub \<Rightarrow> (NoteError, room_note) result \<times> hub" where
  "update_note room key req is_operator now h = (case get_room h room of
     None \<Rightarrow> (Err NoteNotFound, h)
   | Some r \<Rightarrow>
       (case hm_get (r_notes r) key of
          None \<Rightarrow> (Err NoteNotFound, h)
        | Some previous \<Rightarrow>
            let updated = updated_note req is_operator now (r_next_rev r) previous;
                (res, h1) = with_store (replace_note room previous updated) h
            in case res of
                 Inl _ \<Rightarrow> (Err NoteStorage, h1)
               | Inr _ \<Rightarrow>
                   let r1 = send (FNote updated) (r\<lparr>r_next_rev := u64_add (r_next_rev r) 1,
                              r_notes := hm_insert key updated (r_notes r)\<rparr>)
                   in (Ok updated, put_room room (case note_warning key req previous of
                        None \<Rightarrow> r1 | Some w \<Rightarrow> send w r1) h1)))"

definition delete_note :: "string \<Rightarrow> string \<Rightarrow> hub \<Rightarrow> (sql_error, bool) result \<times> hub" where
  "delete_note room key h = (case get_room h room of
     None \<Rightarrow> (Ok False, h)
   | Some r \<Rightarrow>
       if \<not> hm_contains (r_notes r) key then (Ok False, h)
       else let (res, h1) = with_store (store_delete_note room key) h
            in case res of
                 Inl e \<Rightarrow> (Err e, h1)
               | Inr _ \<Rightarrow> (Ok True, put_room room (send (FControl (''note-deleted:'' @ key))
                   (r\<lparr>r_notes := hm_remove key (r_notes r)\<rparr>)) h1))"

end
