(* ===== verification/Restart.thy ===== *)
theory Restart
  imports Hub_State Store_Messages Store_Members
begin

text \<open>
  What a restart reads: \<open>load\<close> and \<open>load_room\<close> of \<^verbatim>\<open>crates/server/src/store/rooms.rs\<close>, the
  journal of \<^verbatim>\<open>store/content.rs\<close>, and the block of \<open>Hub::build\<close> in \<^verbatim>\<open>hub.rs\<close> that restores the
  rooms, the counters and the registries from it.
\<close>

record room_snapshot =
  sn_room :: string
  sn_messages :: "message list"
  sn_notes :: "room_note list"
  sn_mode :: ChatMode
  sn_settings :: room_settings
  sn_max_msg_id :: u64
  sn_max_rev :: u64

subsection \<open>The rows of a loca\<close>

text \<open>Every loca that a durable row or a live davet mentions, in alphabetical order.\<close>

definition mentioned_rooms :: "db \<Rightarrow> string list" where
  "mentioned_rooms d = sort_dedup (map (mr_room \<circ> snd) (db_messages d) @ map (fst \<circ> fst) (db_notes d)
     @ map (fst \<circ> fst) (db_tasks d) @ map (fst \<circ> fst) (db_goals d) @ map (fst \<circ> fst) (db_waits d)
     @ map (fst \<circ> fst) (db_care_marks d) @ map (ar_room \<circ> snd) (db_attentions d)
     @ map (fst \<circ> fst) (db_journal d) @ hm_keys (db_rooms d)
     @ map (iv_room \<circ> in_invite \<circ> snd) (filter (\<lambda>(_, i). in_revoked_at i = None) (db_invites d)))"

definition tail_messages :: "db \<Rightarrow> string \<Rightarrow> message list" where
  "tail_messages d room =
     (let rows = sort_key fst (filter (\<lambda>(_, m). mr_room m = room) (db_messages d))
      in map (\<lambda>(i, m). row_to_message room i m) (drop (length rows - 200) rows))"

definition room_notes :: "db \<Rightarrow> string \<Rightarrow> room_note list" where
  "room_notes d room = map snd (filter (\<lambda>((rm, _), _). rm = room) (db_notes d))"

definition load_journal :: "db \<Rightarrow> string \<Rightarrow> journal_entry list" where
  "load_journal d room = map snd (sort_key (snd \<circ> fst) (filter (\<lambda>((rm, _), _). rm = room) (db_journal d)))"

definition load_room :: "db \<Rightarrow> string \<Rightarrow> room_snapshot" where
  "load_room d room =
     \<lparr> sn_room = room, sn_messages = tail_messages d room, sn_notes = room_notes d room,
       sn_mode = (case hm_get (db_rooms d) room of None \<Rightarrow> Free | Some row \<Rightarrow> rr_mode row),
       sn_settings = (case hm_get (db_rooms d) room of None \<Rightarrow> default_settings_value | Some row \<Rightarrow> rr_settings row),
       sn_max_msg_id = fold max (map fst (filter (\<lambda>(_, m). mr_room m = room) (db_messages d))) 0,
       sn_max_rev = fold max (map n_rev (room_notes d room)) 0 \<rparr>"

definition load_rooms :: "store \<Rightarrow> room_snapshot list" where
  "load_rooms s = (case sto_conn s of None \<Rightarrow> []
     | Some d \<Rightarrow> map (load_room d) (filter (\<lambda>room. \<not> db_sealed d room) (mentioned_rooms d)))"

subsection \<open>The rooms in memory\<close>

text \<open>The part of an id after its last colon.\<close>

definition last_part :: "string \<Rightarrow> string" where
  "last_part s = rev (takeWhile (\<lambda>c. c \<noteq> CHR '':'') (rev s))"

definition attention_generation :: "attention \<Rightarrow> u64" where
  "attention_generation a = max (a_created_at a) (case parse_u64 (last_part (a_id a)) of Some g \<Rightarrow> g | None \<Rightarrow> 0)"

definition last_ts :: "message list \<Rightarrow> u64" where
  "last_ts ms = (if ms = [] then 0 else m_ts (last ms))"

definition restore_room :: "store \<Rightarrow> db \<Rightarrow> room_snapshot \<Rightarrow> room" where
  "restore_room s d snap =
     (let r = room_with (sn_mode snap) (sn_settings snap) (u64_add (sn_max_rev snap) 1);
          tasks = load_tasks s (sn_room snap);
          goals = load_goals s (sn_room snap);
          journal = load_journal d (sn_room snap)
      in r\<lparr> r_history := sn_messages snap,
            r_notes := fold (\<lambda>n. hm_insert (n_key n) n) (sn_notes snap) [],
            r_next_task_id := fold (\<lambda>t i. max i (u64_add (t_id t) 1)) tasks 1,
            r_tasks := fold (\<lambda>t. hm_insert (t_id t) t) tasks [],
            r_next_goal_id := fold (\<lambda>g i. max i (u64_add (g_id g) 1)) goals 1,
            r_goals := fold (\<lambda>g. hm_insert (g_id g) g) goals [],
            r_waits := fold (\<lambda>w. hm_insert (w_waiter w) w) (load_waits s (sn_room snap)) [],
            r_care_marks := fold (\<lambda>(key, at, count). hm_insert key
              \<lparr> ck_last_signal_at = at, ck_signal_count = count \<rparr>) (load_care_marks s (sn_room snap)) [],
            r_attentions := fold (\<lambda>a. hm_insert (a_id a) a) (store_attentions s (sn_room snap)) [],
            r_last_msg_ms := last_ts (sn_messages snap),
            r_journal := journal,
            r_next_journal_id := (if journal = [] then 1 else u64_add (j_id (last journal)) 1) \<rparr>)"

definition room_generation :: "store \<Rightarrow> room_snapshot \<Rightarrow> u64" where
  "room_generation s snap = fold max (last_ts (sn_messages snap)
     # map t_progress_at (load_tasks s (sn_room snap)) @ map g_progress_at (load_goals s (sn_room snap))
     @ map w_since (load_waits s (sn_room snap))
     @ map attention_generation (store_attentions s (sn_room snap))) 0"

definition restore_state :: "hub \<Rightarrow> hub" where
  "restore_state h = (case sto_conn (h_store h) of
     None \<Rightarrow> h
   | Some d \<Rightarrow>
       let s = h_store h; snaps = load_rooms s
       in h\<lparr> h_invites := fold (\<lambda>i. hm_insert (iv_token i) i) (load_invites s) [],
             h_rooms := fold (\<lambda>snap. hm_insert (sn_room snap) (restore_room s d snap)) snaps [],
             h_next_id := u64_add (fold max (max_message_id s # map sn_max_msg_id snaps) 0) 1,
             h_condition_generation := fold max (map (room_generation s) snaps) 0,
             h_members := fold (\<lambda>m. hm_insert (mb_token m) m) (load_members s) [],
             h_smasters := fold (\<lambda>(t, n). hm_insert t n) (load_smasters s) [] \<rparr>)"

end
