(* ===== verification/Notes_Laws.thy ===== *)
theory Notes_Laws
  imports Notes Restart Ordered_Rows
begin

text \<open>
  Notes and journal in memory and in the tables.  The invariant says that the tables
  hold exactly the notes and the journal in memory, and that the revision counter of a
  loca is past every revision that is live or archived, so that archiving a replaced
  version never collides.
\<close>

subsection \<open>The invariant\<close>

definition notes_match :: "string \<Rightarrow> room \<Rightarrow> db \<Rightarrow> bool" where
  "notes_match n r d = (hm_ok (r_notes r) \<and> (\<forall>key. hm_get (db_notes d) (n, key) = hm_get (r_notes r) key)
     \<and> (\<forall>key note. hm_get (r_notes r) key = Some note \<longrightarrow> n_key note = key \<and> n_rev note < r_next_rev r)
     \<and> (\<forall>key rv old. hm_get (db_note_revisions d) (n, key, rv) = Some old \<longrightarrow>
          n_key old = key \<and> n_rev old = rv \<and> rv < r_next_rev r
          \<and> (\<forall>note. hm_get (r_notes r) key = Some note \<longrightarrow> rv < n_rev note)))"

definition journal_match :: "string \<Rightarrow> room \<Rightarrow> db \<Rightarrow> bool" where
  "journal_match n r d = (load_journal d n = r_journal r
     \<and> (\<forall>i e. hm_get (db_journal d) (n, i) = Some e \<longrightarrow> i = j_id e \<and> i < r_next_journal_id r)
     \<and> (r_journal r \<noteq> [] \<longrightarrow> r_next_journal_id r = Suc (j_id (last (r_journal r))))
     \<and> (r_journal r = [] \<longrightarrow> r_next_journal_id r = 1))"

definition content_rows_ok :: "db \<Rightarrow> bool" where
  "content_rows_ok d = (hm_ok (db_notes d) \<and> hm_ok (db_note_revisions d) \<and> hm_ok (db_journal d))"

definition content_state :: "hub \<Rightarrow> bool" where
  "content_state h = (\<exists>d. sto_conn (h_store h) = Some d \<and> content_rows_ok d
     \<and> (\<forall>n. notes_match n (room_mut n h) d \<and> journal_match n (room_mut n h) d))"

lemma content_stateE:
  assumes "content_state h"
  obtains d where "sto_conn (h_store h) = Some d" "content_rows_ok d"
    and "\<And>n. notes_match n (room_mut n h) d" "\<And>n. journal_match n (room_mut n h) d"
  using assms by (auto simp: content_state_def)

lemma content_stateI:
  assumes "sto_conn (h_store h) = Some d" "content_rows_ok d"
    and "\<And>n. notes_match n (room_mut n h) d" "\<And>n. journal_match n (room_mut n h) d"
  shows "content_state h"
  using assms by (auto simp: content_state_def)

lemma match_cong:
  assumes "r_notes r' = r_notes r" "r_next_rev r' = r_next_rev r" "r_journal r' = r_journal r"
    "r_next_journal_id r' = r_next_journal_id r"
  shows "notes_match n r' d = notes_match n r d" "journal_match n r' d = journal_match n r d"
  using assms by (simp_all add: notes_match_def journal_match_def)

lemma content_rooms_same:
  assumes "content_state h" "h_rooms h' = h_rooms h" "h_default_settings h' = h_default_settings h"
    "sto_conn (h_store h') = sto_conn (h_store h)"
  shows "content_state h'"
proof -
  have "room_mut n h' = room_mut n h" for n using assms(2,3) by (simp add: room_mut_def split: option.split)
  then show ?thesis using assms(1,4) by (simp add: content_state_def)
qed

text \<open>One loca changes; the rows of the others are untouched.\<close>

lemma content_put:
  assumes "content_state h" and conn: "sto_conn (h_store h) = Some d" "sto_conn (h_store h1) = Some d1"
    and "h_rooms h1 = h_rooms h" "h_default_settings h1 = h_default_settings h" and "content_rows_ok d1"
    and "\<And>m key. m \<noteq> n \<Longrightarrow> hm_get (db_notes d1) (m, key) = hm_get (db_notes d) (m, key)"
    and "\<And>m key rv. m \<noteq> n \<Longrightarrow> hm_get (db_note_revisions d1) (m, key, rv) = hm_get (db_note_revisions d) (m, key, rv)"
    and "\<And>m i. m \<noteq> n \<Longrightarrow> hm_get (db_journal d1) (m, i) = hm_get (db_journal d) (m, i)"
    and "\<And>m. m \<noteq> n \<Longrightarrow> load_journal d1 m = load_journal d m"
    and here: "notes_match n r' d1" "journal_match n r' d1"
  shows "content_state (put_room n r' h1)"
proof (rule content_stateI)
  show "sto_conn (h_store (put_room n r' h1)) = Some d1" using conn by simp
  show "content_rows_ok d1" by fact
  fix m
  from assms(1) conn(1) have old: "notes_match m (room_mut m h) d" "journal_match m (room_mut m h) d"
    by (auto elim!: content_stateE)
  have "room_mut m (put_room n r' h1) = (if m = n then r' else room_mut m h)"
    using assms(4,5) by (simp add: room_mut_def put_room_def split: option.split)
  with old here assms(7-10) show "notes_match m (room_mut m (put_room n r' h1)) d1"
    "journal_match m (room_mut m (put_room n r' h1)) d1"
    by (auto simp: notes_match_def journal_match_def)
qed

subsection \<open>The operations\<close>

lemma with_store_same:
  assumes "with_store f h = (res, h1)"
  shows "h_rooms h1 = h_rooms h" "h_default_settings h1 = h_default_settings h" "f (h_store h) = (res, h_store h1)"
  using assms by (auto simp: with_store_def split: prod.splits)

lemma create_note_content:
  assumes st: "content_state h" and bound: "r_next_rev (room_mut room h) < u64_max"
  shows "content_state (snd (create_note room req now h))"
proof (cases "note_view h room (cn_key req) = None")
  case False
  then show ?thesis using st by (simp add: create_note_def)
next
  case True
  obtain d where d: "sto_conn (h_store h) = Some d" "content_rows_ok d"
    "notes_match room (room_mut room h) d" "journal_match room (room_mut room h) d"
    using st by (auto elim!: content_stateE)
  define r where "r = room_mut room h"
  have rv: "(case get_room h room of None \<Rightarrow> 1 | Some r \<Rightarrow> r_next_rev r) = r_next_rev r"
    by (simp add: r_def room_mut_def get_room_def room_with_def split: option.split)
  have new: "hm_get (r_notes r) (cn_key req) = None"
    using True by (auto simp: note_view_def r_def room_mut_def get_room_def room_with_def split: option.splits)
  define nt where "nt = \<lparr> n_key = cn_key req, n_title = cn_title req, n_body = cn_body req,
     n_can_write = cn_can_write req, n_updated_by = cn_by req, n_updated_at = now, n_rev = r_next_rev r \<rparr>"
  obtain res h1 where w: "with_store (upsert_note room nt) h = (res, h1)" by fastforce
  note same = with_store_same [OF w]
  show ?thesis
  proof (cases res)
    case (Inl e)
    then have "sto_conn (h_store h1) = sto_conn (h_store h)"
      using same(3) unfolding upsert_note_def by (simp add: run_write_errD)
    then have "content_state h1" using content_rooms_same [OF st same(1,2)] by simp
    then show ?thesis using True w Inl by (simp add: create_note_def rv nt_def [symmetric] Let_def)
  next
    case (Inr u)
    define d1 where "d1 = d\<lparr>db_notes := hm_insert (room, n_key nt) nt (db_notes d)\<rparr>"
    have d1: "sto_conn (h_store h1) = Some d1"
      using same(3) Inr d(1) unfolding upsert_note_def d1_def by (auto dest: run_write_okD)
    define r' where "r' = send (FNote nt) (r\<lparr>r_next_rev := u64_add (r_next_rev r) 1,
       r_notes := hm_insert (cn_key req) nt (r_notes r)\<rparr>)"
    have out: "snd (create_note room req now h) = put_room room r' h1"
    proof -
      have "room_mut room h1 = r" using same(1,2) by (simp add: room_mut_def r_def split: option.split)
      then show ?thesis using True w Inr by (simp add: create_note_def rv nt_def [symmetric] r'_def Let_def)
    qed
    have nx: "u64_add (r_next_rev r) (Suc 0) = Suc (r_next_rev r)" using bound by (simp add: r_def)
    show ?thesis
      unfolding out
    proof (rule content_put [OF st d(1) d1 same(1,2)])
      show "content_rows_ok d1" using d(2) by (simp add: content_rows_ok_def d1_def)
      show "notes_match room r' d1"
        using d(3) new unfolding r_def [symmetric]
        by (auto simp: notes_match_def r'_def d1_def nx nt_def less_Suc_eq)
      show "journal_match room r' d1"
        using d(4) unfolding r_def [symmetric] by (simp add: journal_match_def r'_def d1_def load_journal_def)
    qed (simp_all add: d1_def load_journal_def)
  qed
qed

text \<open>An update archives the version it replaces under its revision, which is free.\<close>

lemma update_note_cases:
  assumes st: "content_state h" and r: "get_room h room = Some r" and old: "hm_get (r_notes r) key = Some old"
    and bound: "r_next_rev r < u64_max" and d: "sto_conn (h_store h) = Some d"
    and new_def: "new = updated_note req op now (r_next_rev r) old"
  obtains (failed) h1 where "update_note room key req op now h = (Err NoteStorage, h1)" "h_rooms h1 = h_rooms h"
      "h_default_settings h1 = h_default_settings h" "sto_conn (h_store h1) = Some d" "sto_faults (h_store h) \<noteq> []"
    | (saved) h1 r' where "update_note room key req op now h = (Ok new, put_room room r' h1)"
      "h_rooms h1 = h_rooms h" "h_default_settings h1 = h_default_settings h"
      "r_notes r' = hm_insert key new (r_notes r)" "r_next_rev r' = Suc (r_next_rev r)"
      "r_journal r' = r_journal r" "r_next_journal_id r' = r_next_journal_id r"
      "sto_conn (h_store h1) = Some (d\<lparr>
         db_note_revisions := hm_insert (room, key, n_rev old) old (db_note_revisions d),
         db_notes := hm_insert (room, key) new (db_notes d)\<rparr>)"
proof -
  have room: "room_mut room h = r" using r by simp
  have m: "notes_match room r d" using st d room by (auto elim!: content_stateE)
  have key: "n_key old = key" using m old by (simp add: notes_match_def)
  have free: "\<not> hm_contains (db_note_revisions d) (room, n_key old, n_rev old)"
    using m old unfolding notes_match_def hm_contains_def key by fastforce
  have nkey: "n_key new = key" by (simp add: new_def updated_note_def key)
  obtain res h1 where w: "with_store (replace_note room old new) h = (res, h1)" by fastforce
  note same = with_store_same [OF w]
  have nx: "u64_add (r_next_rev r) 1 = Suc (r_next_rev r)" using bound by simp
  show thesis
  proof (cases res)
    case (Inl e)
    then have "sto_conn (h_store h1) = Some d"
      using run_txn_err_keeps_db [OF same(3) [unfolded Inl replace_note_def]] d by simp
    moreover have "sto_faults (h_store h) \<noteq> []"
      using same(3) Inl d free by (auto simp: replace_note_def run_txn_def)
    ultimately show thesis
      using failed same(1,2) r old w Inl by (simp add: update_note_def new_def [symmetric] Let_def)
  next
    case (Inr u)
    have "sto_conn (h_store h1) = Some (d\<lparr>
         db_note_revisions := hm_insert (room, key, n_rev old) old (db_note_revisions d),
         db_notes := hm_insert (room, key) new (db_notes d)\<rparr>)"
      using run_txn_okD [OF same(3) [unfolded Inr replace_note_def] d] free by (auto simp: key nkey)
    then show thesis
      using saved same(1,2) r old w Inr nx
      by (simp add: update_note_def new_def [symmetric] Let_def split: option.split)
  qed
qed

lemma update_note_content:
  assumes st: "content_state h" and bound: "r_next_rev (room_mut room h) < u64_max"
  shows "content_state (snd (update_note room key req op now h))"
proof -
  consider "get_room h room = None" | r where "get_room h room = Some r" "hm_get (r_notes r) key = None"
    | (found) r old where "get_room h room = Some r" "hm_get (r_notes r) key = Some old"
    by (metis not_None_eq)
  then show ?thesis
  proof cases
    case found
    obtain d where d: "sto_conn (h_store h) = Some d" "content_rows_ok d" "notes_match room r d" "journal_match room r d"
      using st found(1) by (metis content_stateE room_mut_present)
    have bound': "r_next_rev r < u64_max" using bound found(1) by simp
    show ?thesis
    proof (cases rule: update_note_cases [OF st found bound' d(1) refl, where req = req and op = op and now = now])
      case failed: (1 h1)
      then show ?thesis using content_rooms_same [OF st] d(1) by simp
    next
      case saved: (2 h1 r')
      define d1 where "d1 = d\<lparr>db_note_revisions := hm_insert (room, key, n_rev old) old (db_note_revisions d),
         db_notes := hm_insert (room, key) (updated_note req op now (r_next_rev r) old) (db_notes d)\<rparr>"
      have "content_state (put_room room r' h1)"
      proof (rule content_put [OF st d(1) _ saved(2,3)])
        show "sto_conn (h_store h1) = Some d1" using saved(8) by (simp add: d1_def)
        show "content_rows_ok d1" using d(2) by (simp add: content_rows_ok_def d1_def)
        show "notes_match room r' d1"
          using d(3) found(2) by (auto simp: notes_match_def saved d1_def updated_note_def less_Suc_eq)
        show "journal_match room r' d1"
          using d(4) by (simp add: journal_match_def saved d1_def load_journal_def)
      qed (simp_all add: d1_def load_journal_def)
      with saved(1) show ?thesis by simp
    qed
  qed (use st in \<open>simp_all add: update_note_def\<close>)
qed

lemma delete_note_content:
  assumes st: "content_state h"
  shows "content_state (snd (delete_note room key h))"
proof (cases "\<exists>r. get_room h room = Some r \<and> hm_contains (r_notes r) key")
  case False
  then show ?thesis using st by (auto simp: delete_note_def split: option.split)
next
  case True
  then obtain r where r: "get_room h room = Some r" "hm_contains (r_notes r) key" by blast
  obtain d where d: "sto_conn (h_store h) = Some d" "content_rows_ok d" "notes_match room r d" "journal_match room r d"
    using st r(1) by (metis content_stateE room_mut_present)
  obtain res h1 where w: "with_store (store_delete_note room key) h = (res, h1)" by fastforce
  note same = with_store_same [OF w]
  show ?thesis
  proof (cases res)
    case (Inl e)
    then have "sto_conn (h_store h1) = sto_conn (h_store h)"
      using same(3) unfolding store_delete_note_def by (simp add: run_write_errD)
    then show ?thesis using content_rooms_same [OF st same(1,2)] r w Inl by (simp add: delete_note_def)
  next
    case (Inr u)
    define d1 where "d1 = d\<lparr>db_notes := hm_remove (room, key) (db_notes d)\<rparr>"
    have "sto_conn (h_store h1) = Some d1"
      using same(3) Inr d(1) unfolding store_delete_note_def d1_def by (auto dest: run_write_okD)
    then have "content_state (put_room room (send (FControl (''note-deleted:'' @ key))
        (r\<lparr>r_notes := hm_remove key (r_notes r)\<rparr>)) h1)"
    proof (rule content_put [OF st d(1) _ same(1,2)])
      show "content_rows_ok d1" using d(2) by (simp add: content_rows_ok_def d1_def)
    qed (use d(3,4) in \<open>auto simp: d1_def notes_match_def journal_match_def load_journal_def\<close>)
    with r w Inr show ?thesis by (simp add: delete_note_def)
  qed
qed

text \<open>A journal entry gets the next number and is read back last.\<close>

lemma load_journal_append:
  assumes "\<And>i e. hm_get (db_journal d) (room, i) = Some e \<Longrightarrow> i < j_id entry" and "j_room entry = room"
    and "hm_ok (db_journal d)"
  shows "load_journal (d\<lparr>db_journal := hm_insert (room, j_id entry) entry (db_journal d)\<rparr>) n
     = load_journal d n @ (if n = room then [entry] else [])"
proof -
  have "hm_get (db_journal d) (room, j_id entry) = None"
    using assms(1) by (metis less_irrefl not_None_eq)
  then have rows: "hm_insert (room, j_id entry) entry (db_journal d) = db_journal d @ [((room, j_id entry), entry)]"
    by (rule hm_insert_fresh)
  have "\<forall>y \<in> set (filter (\<lambda>((rm, _), _). rm = room) (db_journal d)). (snd \<circ> fst) y \<le> (snd \<circ> fst) ((room, j_id entry), entry)"
    using assms(1,3) by (auto simp: hm_entry_iff [symmetric] less_imp_le)
  from sort_key_snoc [OF this] show ?thesis by (simp add: load_journal_def rows comp_def)
qed

lemma append_journal_content:
  assumes st: "content_state h" and bound: "r_next_journal_id (room_mut room h) < u64_max"
  shows "content_state (snd (append_journal room who kind txt now h))"
proof -
  define r where "r = room_mut room h"
  obtain d where d: "sto_conn (h_store h) = Some d" "content_rows_ok d" "notes_match room r d" "journal_match room r d"
    using st unfolding r_def by (auto elim!: content_stateE)
  have i: "(case get_room h room of None \<Rightarrow> 1 | Some r \<Rightarrow> r_next_journal_id r) = r_next_journal_id r"
    by (simp add: r_def room_mut_def get_room_def room_with_def split: option.split)
  define entry where "entry = \<lparr> j_id = r_next_journal_id r, j_room = room, j_by = who, j_by_type = kind,
     j_text = txt, j_at = now \<rparr>"
  obtain res h1 where w: "with_store (store_append_journal entry) h = (res, h1)" by fastforce
  note same = with_store_same [OF w]
  show ?thesis
  proof (cases res)
    case (Inl e)
    then have "sto_conn (h_store h1) = sto_conn (h_store h)"
      using run_txn_err_keeps_db [OF same(3) [unfolded Inl store_append_journal_def]] by simp
    then show ?thesis
      using content_rooms_same [OF st same(1,2)] w Inl by (simp add: append_journal_def i entry_def [symmetric] Let_def)
  next
    case (Inr u)
    define d1 where "d1 = d\<lparr>db_journal := hm_insert (room, j_id entry) entry (db_journal d)\<rparr>"
    have d1: "sto_conn (h_store h1) = Some d1"
      using run_txn_okD [OF same(3) [unfolded Inr store_append_journal_def] d(1)]
      by (auto simp: d1_def entry_def split: if_splits)
    define r' where "r' = send (FJournal entry) (r\<lparr>r_next_journal_id := u64_add (r_next_journal_id r) 1,
       r_journal := r_journal r @ [entry]\<rparr>)"
    have nx: "u64_add (r_next_journal_id r) (Suc 0) = Suc (r_next_journal_id r)" using bound by (simp add: r_def)
    have "room_mut room h1 = r" using same(1,2) by (simp add: room_mut_def r_def split: option.split)
    then have out: "snd (append_journal room who kind txt now h) = put_room room r' h1"
      using w Inr by (simp add: append_journal_def i entry_def [symmetric] r'_def Let_def)
    have below: "i < j_id entry" if "hm_get (db_journal d) (room, i) = Some e" for i e
      using d(4) that by (auto simp: journal_match_def entry_def)
    have load: "load_journal d1 n = load_journal d n @ (if n = room then [entry] else [])" for n
      unfolding d1_def
      by (rule load_journal_append) (use below d(2) in \<open>auto simp: entry_def content_rows_ok_def\<close>)
    show ?thesis
      unfolding out
    proof (rule content_put [OF st d(1) d1 same(1,2)])
      show "content_rows_ok d1" using d(2) by (simp add: content_rows_ok_def d1_def)
      show "notes_match room r' d1" using d(3) by (simp add: notes_match_def r'_def d1_def)
      show "journal_match room r' d1"
        using d(4) load [of room] below
        by (auto simp: journal_match_def r'_def d1_def nx entry_def less_Suc_eq)
    qed (use load in \<open>simp_all add: d1_def entry_def\<close>)
  qed
qed

subsection \<open>The archive of a note\<close>

lemma note_history_insert:
  assumes d: "sto_conn s = Some d" "sto_conn s' = Some d'"
    and rows: "db_note_revisions d' = hm_insert (room, key, rv) old (db_note_revisions d)"
    and fresh: "\<And>i o'. hm_get (db_note_revisions d) (room, key, i) = Some o' \<Longrightarrow> i < rv"
    and ok: "hm_ok (db_note_revisions d)"
  shows "note_history s' room key = old\<lparr>n_key := key, n_can_write := []\<rparr> # note_history s room key"
proof -
  have "hm_get (db_note_revisions d) (room, key, rv) = None"
    using fresh by (metis less_irrefl not_None_eq)
  then have snoc: "db_note_revisions d' = db_note_revisions d @ [((room, key, rv), old)]"
    using rows hm_insert_fresh by metis
  have "\<forall>y \<in> set (filter (\<lambda>((rm, k, _), _). rm = room \<and> k = key) (db_note_revisions d)).
      (\<lambda>((_, _, i), _). i) y \<le> (\<lambda>((_, _, i), _). i) ((room, key, rv), old)"
    using fresh ok by (auto simp: hm_entry_iff [symmetric] less_imp_le)
  from sort_key_snoc [OF this] show ?thesis using d by (simp add: note_history_def snoc)
qed

subsection \<open>A restart\<close>

lemma restored_notes:
  assumes ok: "content_rows_ok d" and m: "notes_match n r d"
  shows "hm_get (r_notes (restore_room s d (load_room d n))) key = hm_get (r_notes r) key"
proof -
  define rows where "rows = filter (\<lambda>((rm, _), _). rm = n) (db_notes d)"
  have key: "n_key x = k" if "((n, k), x) \<in> set (db_notes d)" for k x
    using that m ok by (simp add: notes_match_def content_rows_ok_def hm_entry_iff)
  have sub: "(k, x) \<in> set rows \<Longrightarrow> k = (n, n_key x) \<and> (k, x) \<in> set (db_notes d)" for k x
    using key by (auto simp: rows_def)
  have "distinct (map fst rows)"
    using ok by (simp add: rows_def content_rows_ok_def hm_ok_def distinct_map_filter)
  moreover have "map fst rows = map (Pair n) (map n_key (map snd rows))"
    using sub by (auto simp: comp_def intro!: map_cong)
  ultimately have dist: "distinct (map n_key (map snd rows))"
    by (metis distinct_map)
  have eq: "r_notes (restore_room s d (load_room d n)) = fold (\<lambda>x. hm_insert (n_key x) x) (map snd rows) []"
    by (simp add: restore_room_def load_room_def room_notes_def rows_def Let_def)
  have "hm_get (fold (\<lambda>x. hm_insert (n_key x) x) (map snd rows) []) key
      = (case find (\<lambda>x. n_key x = key) (map snd rows) of Some x \<Rightarrow> Some x | None \<Rightarrow> None)"
    using hm_get_fold_insert [OF dist, of "\<lambda>x. x" "[]" key] by (simp cong: option.case_cong)
  also have "\<dots> = hm_get (db_notes d) (n, key)"
  proof (cases "find (\<lambda>x. n_key x = key) (map snd rows)")
    case (Some x)
    then obtain k where "(k, x) \<in> set rows" "n_key x = key"
      by (auto simp: find_Some_iff in_set_conv_nth) (metis nth_mem prod.collapse)
    then have "((n, key), x) \<in> set (db_notes d)" using sub [of k x] by auto
    then show ?thesis using Some ok by (simp add: content_rows_ok_def hm_entry_iff)
  next
    case None
    have "hm_get (db_notes d) (n, key) = None"
    proof (rule ccontr)
      assume "hm_get (db_notes d) (n, key) \<noteq> None"
      then obtain x where "((n, key), x) \<in> set (db_notes d)"
        using ok by (auto simp: content_rows_ok_def hm_entry_iff)
      then have "x \<in> set (map snd rows)" "n_key x = key" using key by (force simp: rows_def)+
      then show False using None by (auto simp: find_None_iff)
    qed
    with None show ?thesis by simp
  qed
  also have "\<dots> = hm_get (r_notes r) key" using m by (simp add: notes_match_def)
  finally show ?thesis by (simp add: eq)
qed

lemma restored_journal:
  assumes "journal_match n r d" and "r_next_journal_id r \<le> u64_max"
  shows "r_journal (restore_room s d (load_room d n)) = r_journal r"
    and "r_next_journal_id (restore_room s d (load_room d n)) = r_next_journal_id r"
  using assms by (auto simp: journal_match_def restore_room_def load_room_def Let_def)

end
