(* ===== verification/Notes_Properties.thy ===== *)
theory Notes_Properties
  imports Notes_Laws Samples
begin

text \<open>
  Notes and journal over any sequence of operations and storage failures of one run of
  the server, and what the next run reads.
\<close>

inductive content_step :: "hub \<Rightarrow> hub \<Rightarrow> bool" where
  append_journal: "r_next_journal_id (room_mut room h) < u64_max \<Longrightarrow>
     content_step h (snd (append_journal room who kind txt now h))"
| create_note: "r_next_rev (room_mut room h) < u64_max \<Longrightarrow> content_step h (snd (create_note room req now h))"
| update_note: "r_next_rev (room_mut room h) < u64_max \<Longrightarrow>
     content_step h (snd (update_note room key ureq op now h))"
| delete_note: "content_step h (snd (delete_note room key h))"
| faults: "content_step h (h\<lparr>h_store := (h_store h)\<lparr>sto_faults := fs\<rparr>\<rparr>)"

lemma content_step_keeps:
  assumes "content_state h" "content_step h h'"
  shows "content_state h'"
  using assms(2,1)
proof (induction rule: content_step.induct)
  case (faults h fs)
  then show ?case using content_rooms_same [OF faults] by simp
qed (simp_all add: append_journal_content create_note_content update_note_content delete_note_content)

interpretation content_system: step_invariant content_step content_state
  by unfold_locales (rule content_step_keeps)

text \<open>
  C30: no version of a note and no line of the journal is lost.  In every state reached
  by notes being created, updated and deleted and the journal being appended to, with
  any storage failures: a restart reads exactly the notes and the journal that were in
  memory; an update of a note either fails because the storage failed, and then changes
  nothing at all, or it makes the new version durable under a larger revision number and
  puts the version it replaced, its text and author unchanged, in front of the archived
  history of the note.
\<close>

theorem notes_never_lost:
  assumes "content_step\<^sup>*\<^sup>* h h'" and "content_state h" and d: "sto_conn (h_store h') = Some d"
    and r: "get_room h' room = Some r" and bounds: "r_next_rev r < u64_max" "r_next_journal_id r \<le> u64_max"
  shows "(let restored = restore_room (h_store h') d (load_room d room)
      in (\<forall>key. hm_get (r_notes restored) key = hm_get (r_notes r) key)
         \<and> r_journal restored = r_journal r \<and> r_next_journal_id restored = r_next_journal_id r)
    \<and> (\<forall>key old. hm_get (r_notes r) key = Some old \<longrightarrow>
        (let (res, h2) = update_note room key req op now h';
             new = updated_note req op now (r_next_rev r) old
         in case res of
              Inl e \<Rightarrow> e = NoteStorage \<and> sto_faults (h_store h') \<noteq> [] \<and> h_rooms h2 = h_rooms h'
                \<and> sto_conn (h_store h2) = sto_conn (h_store h')
            | Inr note \<Rightarrow> note = new \<and> n_rev old < n_rev new \<and> note_view h2 room key = Some new
                \<and> (\<exists>d2. sto_conn (h_store h2) = Some d2 \<and> hm_get (db_notes d2) (room, key) = Some new)
                \<and> note_history (h_store h2) room key
                    = old\<lparr>n_can_write := []\<rparr> # note_history (h_store h') room key))"
proof -
  have st: "content_state h'" using content_system.reach_keeps [OF assms(1,2)] .
  have d': "content_rows_ok d" "notes_match room r d" "journal_match room r d"
    using st r d by (auto elim!: content_stateE) (metis room_mut_present)+
  show ?thesis
  proof (intro conjI allI impI)
    show "let restored = restore_room (h_store h') d (load_room d room)
      in (\<forall>key. hm_get (r_notes restored) key = hm_get (r_notes r) key)
         \<and> r_journal restored = r_journal r \<and> r_next_journal_id restored = r_next_journal_id r"
      using restored_notes [OF d'(1,2)] restored_journal [OF d'(3) bounds(2)] by (simp add: Let_def)
  next
    fix key old
    assume old: "hm_get (r_notes r) key = Some old"
    have m: "n_key old = key" "n_rev old < r_next_rev r"
      "\<And>i o'. hm_get (db_note_revisions d) (room, key, i) = Some o' \<Longrightarrow> i < n_rev old"
      using d'(2) old by (auto simp: notes_match_def)
    have keep: "old\<lparr>n_key := key, n_can_write := []\<rparr> = old\<lparr>n_can_write := []\<rparr>"
      using m(1) by (cases old) simp
    show "let (res, h2) = update_note room key req op now h';
             new = updated_note req op now (r_next_rev r) old
         in case res of
              Inl e \<Rightarrow> e = NoteStorage \<and> sto_faults (h_store h') \<noteq> [] \<and> h_rooms h2 = h_rooms h'
                \<and> sto_conn (h_store h2) = sto_conn (h_store h')
            | Inr note \<Rightarrow> note = new \<and> n_rev old < n_rev new \<and> note_view h2 room key = Some new
                \<and> (\<exists>d2. sto_conn (h_store h2) = Some d2 \<and> hm_get (db_notes d2) (room, key) = Some new)
                \<and> note_history (h_store h2) room key
                    = old\<lparr>n_can_write := []\<rparr> # note_history (h_store h') room key"
    proof (cases rule: update_note_cases [OF st r old bounds(1) d refl, where req = req and op = op and now = now])
      case (1 h1)
      then show ?thesis using d by simp
    next
      case (2 h1 r')
      define d2 where "d2 = d\<lparr>db_note_revisions := hm_insert (room, key, n_rev old) old (db_note_revisions d),
         db_notes := hm_insert (room, key) (updated_note req op now (r_next_rev r) old) (db_notes d)\<rparr>"
      have d2: "sto_conn (h_store (put_room room r' h1)) = Some d2" using 2(8) by (simp add: d2_def)
      have "note_history (h_store (put_room room r' h1)) room key
          = old\<lparr>n_key := key, n_can_write := []\<rparr> # note_history (h_store h') room key"
        by (rule note_history_insert [OF d d2, where rv = "n_rev old"])
          (use m(3) d'(1) in \<open>auto simp: d2_def content_rows_ok_def\<close>)
      then show ?thesis
        using 2 m(2) d2 unfolding keep by (simp add: note_view_def updated_note_def d2_def)
    qed
  qed
qed

subsection \<open>Samples\<close>

definition sample_note_body :: create_note_body where
  "sample_note_body = \<lparr> cn_key = ''plan'', cn_title = ''Plan'', cn_body = ''one'', cn_by = ''ada'', cn_can_write = [] \<rparr>"

definition sample_edit :: update_note_body where
  "sample_edit = \<lparr> un_title = None, un_body = Some ''two'', un_by = ''bob'', un_can_write = None \<rparr>"

definition sample_noted :: hub where
  "sample_noted = snd (append_journal ''loca'' ''ada'' User ''hello'' 11
     (snd (create_note ''loca'' sample_note_body 10 sample_hub)))"

lemma sample_hub_content: "content_state sample_hub"
proof (rule content_stateI)
  show "sto_conn (h_store sample_hub) = Some empty_db" by (simp add: sample_hub_def sample_store_def)
  show "content_rows_ok empty_db" by (simp add: content_rows_ok_def empty_db_def hm_ok_def)
  fix n
  have "room_mut n sample_hub = (if n = ''loca'' then room_with Free sample_settings 1
      else room_with Free default_settings_value 1)"
    by (simp add: room_mut_def sample_hub_def hm_get_def)
  then show "notes_match n (room_mut n sample_hub) empty_db" "journal_match n (room_mut n sample_hub) empty_db"
    by (simp_all add: notes_match_def journal_match_def room_with_def empty_db_def hm_ok_def load_journal_def)
qed

lemma sample_noted_reached: "content_step\<^sup>*\<^sup>* sample_hub sample_noted"
proof -
  have "content_step sample_hub (snd (create_note ''loca'' sample_note_body 10 sample_hub))"
    by (rule content_step.create_note) code_simp
  moreover have "content_step (snd (create_note ''loca'' sample_note_body 10 sample_hub)) sample_noted"
    unfolding sample_noted_def by (rule content_step.append_journal) code_simp
  ultimately show ?thesis by (meson converse_rtranclp_into_rtranclp rtranclp.rtrancl_refl)
qed

theorem notes_never_lost_witness:
  "\<exists>r d. get_room sample_noted ''loca'' = Some r \<and> sto_conn (h_store sample_noted) = Some d
     \<and> length (r_journal (restore_room (h_store sample_noted) d (load_room d ''loca''))) = 1
     \<and> hm_get (r_notes (restore_room (h_store sample_noted) d (load_room d ''loca''))) ''plan'' = hm_get (r_notes r) ''plan''
     \<and> map n_body (note_history (h_store (snd (update_note ''loca'' ''plan'' sample_edit False 20 sample_noted))) ''loca'' ''plan'')
         = [''one'']"
proof -
  define r where "r = room_mut ''loca'' sample_noted"
  define d where "d = the (sto_conn (h_store sample_noted))"
  have r: "get_room sample_noted ''loca'' = Some r" and d: "sto_conn (h_store sample_noted) = Some d"
    and bounds: "r_next_rev r < u64_max" "r_next_journal_id r \<le> u64_max"
    and one: "length (r_journal r) = 1"
    unfolding r_def d_def by code_simp+
  have "map_option n_body (hm_get (r_notes r) ''plan'') = Some ''one''"
    unfolding r_def by code_simp
  then obtain old where old: "hm_get (r_notes r) ''plan'' = Some old" "n_body old = ''one''" by auto
  have empty: "note_history (h_store sample_noted) ''loca'' ''plan'' = []" by code_simp
  have ok: "is_ok (fst (update_note ''loca'' ''plan'' sample_edit False 20 sample_noted))" by code_simp
  obtain new h2 where run: "update_note ''loca'' ''plan'' sample_edit False 20 sample_noted = (Ok new, h2)"
    using ok_run [OF ok] by auto
  note kept = notes_never_lost [OF sample_noted_reached sample_hub_content d r bounds,
      where req = sample_edit and op = False and now = 20]
  have hist: "note_history (h_store h2) ''loca'' ''plan'' = [old\<lparr>n_can_write := []\<rparr>]"
    using conjunct2 [OF kept, rule_format, OF old(1)] by (simp add: run empty Let_def)
  have "hm_get (r_notes (restore_room (h_store sample_noted) d (load_room d ''loca''))) ''plan'' = hm_get (r_notes r) ''plan''"
    "r_journal (restore_room (h_store sample_noted) d (load_room d ''loca'')) = r_journal r"
    using kept by (auto simp: Let_def)
  then show ?thesis using r d one hist old(2) by (simp add: run)
qed

subsection \<open>Across a restart\<close>

text \<open>
  The counter a restart derives looks at the live notes only.  A note that was updated,
  deleted, and created again after a restart gets a revision its archive already has,
  and from then on every update of it is refused although no storage fault occurs.
\<close>

definition recreated :: hub where
  "recreated =
     (let h1 = snd (update_note ''loca'' ''plan'' sample_edit False 20 sample_noted);
          h2 = snd (delete_note ''loca'' ''plan'' h1)
      in snd (create_note ''loca'' sample_note_body 30 (restore_state h2)))"

lemma recreated_note_refuses_updates:
  "fst (update_note ''loca'' ''plan'' sample_edit False 40 recreated) = Err NoteStorage
   \<and> sto_faults (h_store recreated) = []"
  by (rule conjI; code_simp)

end
