(* ===== verification/Store_Wiki.thy ===== *)
theory Store_Wiki
  imports Database
begin

text \<open>
  \<^verbatim>\<open>crates/server/src/store/wiki.rs\<close>: the pages of a loca's wiki, their append-only history,
  and the one transaction through which the assigned editor, a review worker with a
  lease, or an operator publishes.  \<open>lease_valid\<close> is of \<^verbatim>\<open>store/wiki_maintenance.rs\<close>.
\<close>

datatype WikiError = WkPersistenceUnavailable | WkNotConfigured | WkPageNotFound | WkNotEditor
  | WkConflict | WkInvalidInput | WkStorage

record wiki_snapshot =
  ws_room :: string
  ws_editor_principal :: string
  ws_editor_name :: "string option"
  ws_enabled :: bool
  ws_interval_messages :: u64
  ws_revision :: u64
  ws_reviewed_through :: u64
  ws_reviewed_at :: "u64 option"
  ws_edited_at :: "u64 option"
  ws_pages :: "wiki_page list"

record wiki_page_snapshot =
  wq_room :: string
  wq_revision :: u64
  wq_reviewed_through :: u64
  wq_reviewed_at :: "u64 option"
  wq_page :: wiki_page

definition PAGE_MAX_BYTES :: nat where
  "PAGE_MAX_BYTES = 32 * 1024"

definition COMMIT_MAX_PAGES :: nat where
  "COMMIT_MAX_PAGES = 32"

type_synonym 'a wiki_body = "db \<Rightarrow> (WikiError, 'a \<times> db) result"

definition wiki_txn :: "'a wiki_body \<Rightarrow> store \<Rightarrow> (WikiError, 'a) result \<times> store" where
  "wiki_txn = answer_txn WkPersistenceUnavailable WkStorage"

definition set_wiki :: "wiki_tables \<Rightarrow> db \<Rightarrow> db" where
  "set_wiki w d = d\<lparr>db_wiki := w\<rparr>"

subsection \<open>Slugs and batches\<close>

definition slug_char :: "char \<Rightarrow> bool" where
  "slug_char c = (97 \<le> code_point c \<and> code_point c \<le> 122 \<or> 48 \<le> code_point c \<and> code_point c \<le> 57 \<or> c = CHR ''-'')"

definition slug_ok :: "string \<Rightarrow> bool" where
  "slug_ok slug = (slug \<noteq> [] \<and> str_len slug \<le> 80 \<and> list_all slug_char slug)"

definition wiki_pending :: "wiki_batch_row \<Rightarrow> bool" where
  "wiki_pending b = (bw_status b \<in> {''queued'', ''running'', ''blocked''})"

text \<open>\<open>UPDATE loca_wiki_batches SET status='cancelled' WHERE room=?1 AND status IN (...) AND ...\<close>.\<close>

definition cancel_batches :: "string \<Rightarrow> (wiki_batch_row \<Rightarrow> bool) \<Rightarrow> wiki_tables \<Rightarrow> wiki_tables" where
  "cancel_batches room P w = w\<lparr>wk_batches := hm_map (\<lambda>_ b.
     if bw_room b = room \<and> wiki_pending b \<and> P b then b\<lparr>bw_status := ''cancelled''\<rparr> else b) (wk_batches w)\<rparr>"

definition lease_valid :: "wiki_tables \<Rightarrow> string \<Rightarrow> string \<Rightarrow> wiki_lease \<Rightarrow> u64 \<Rightarrow> bool" where
  "lease_valid w room prin lease at = (case hm_get (wk_batches w) (wl_batch_id lease) of
     None \<Rightarrow> False
   | Some b \<Rightarrow> bw_epoch b = wl_epoch lease \<and> bw_room b = room \<and> bw_editor b = prin
       \<and> bw_status b = ''running'' \<and> bw_expires b > at
       \<and> (case hm_get (wk_config w) (bw_room b) of None \<Rightarrow> False
          | Some row \<Rightarrow> wi_enabled row \<and> wi_editor row = bw_editor b))"

subsection \<open>Removal and configuration\<close>

definition remove_page_rows :: "string \<Rightarrow> string \<Rightarrow> string \<Rightarrow> wiki_page_removal \<Rightarrow> u64 \<Rightarrow> u64 wiki_body" where
  "remove_page_rows room prin slug removal at d =
     (let w = db_wiki d
      in case hm_get (wk_config w) room of
           None \<Rightarrow> Err WkNotConfigured
         | Some row \<Rightarrow>
             if wi_editor row \<noteq> prin then Err WkNotEditor
             else if wi_revision row \<noteq> wd_expected_revision removal then Err WkConflict
             else if wi_revision row = u64_max then Err WkStorage
             else let nxt = wi_revision row + 1
                  in case hm_get (wk_pages w) (room, slug) of
                       None \<Rightarrow> Err WkPageNotFound
                     | Some page \<Rightarrow>
                         if hm_contains (wk_history w) (room, slug, nxt) then Err WkStorage
                         else Ok (nxt, set_wiki (cancel_batches room (\<lambda>_. True) (w\<lparr>
                           wk_history := hm_insert (room, slug, nxt)
                             \<lparr> hw_title = gw_title page, hw_body = gw_body page, hw_sources = gw_sources page,
                               hw_editor = prin, hw_reason = ''page removed: '' @ wd_reason removal,
                               hw_edited_at = at \<rparr> (wk_history w),
                           wk_pages := hm_remove (room, slug) (wk_pages w),
                           wk_config := hm_insert room (row\<lparr>wi_revision := nxt, wi_edited_at := Some at\<rparr>)
                             (wk_config w)\<rparr>)) d))"

definition store_remove_wiki_page ::
  "string \<Rightarrow> string \<Rightarrow> string \<Rightarrow> wiki_page_removal \<Rightarrow> u64 \<Rightarrow> store \<Rightarrow> (WikiError, u64) result \<times> store" where
  "store_remove_wiki_page room prin slug removal at s =
     (if slug = ''overview'' \<or> slug = ''working'' \<or> \<not> slug_ok slug
         \<or> str_trim (wd_reason removal) = [] \<or> str_len (wd_reason removal) > 4096
      then (Err WkInvalidInput, s)
      else wiki_txn (remove_page_rows room prin slug removal at) s)"

definition insert_or_ignore_page :: "string \<Rightarrow> string \<Rightarrow> string \<Rightarrow> wiki_tables \<Rightarrow> wiki_tables" where
  "insert_or_ignore_page room slug title w =
     (if hm_contains (wk_pages w) (room, slug) then w
      else w\<lparr>wk_pages := hm_insert (room, slug) \<lparr> gw_title = title, gw_body = [], gw_sources = [], gw_revision = 0 \<rparr>
             (wk_pages w)\<rparr>)"

definition configure_rows :: "string \<Rightarrow> string \<Rightarrow> bool \<Rightarrow> u64 \<Rightarrow> wiki_tables \<Rightarrow> wiki_tables" where
  "configure_rows room editor enabled interval w =
     (let w1 = cancel_batches room (\<lambda>b. bw_editor b \<noteq> editor \<or> \<not> enabled) w;
          row = (case hm_get (wk_config w1) room of
             None \<Rightarrow> \<lparr> wi_editor = editor, wi_enabled = enabled, wi_interval = interval, wi_revision = 0,
                       wi_reviewed_through = 0, wi_reviewed_at = None, wi_edited_at = None \<rparr>
           | Some row \<Rightarrow> row\<lparr>wi_editor := editor, wi_enabled := enabled, wi_interval := interval\<rparr>)
      in insert_or_ignore_page room ''working'' ''Working area''
           (insert_or_ignore_page room ''overview'' ''Overview'' (w1\<lparr>wk_config := hm_insert room row (wk_config w1)\<rparr>)))"

definition store_configure_wiki ::
  "string \<Rightarrow> string \<Rightarrow> bool \<Rightarrow> u64 \<Rightarrow> store \<Rightarrow> (WikiError, unit) result \<times> store" where
  "store_configure_wiki room editor enabled interval s =
     (if str_trim editor = [] \<or> \<not> (1 \<le> interval \<and> interval \<le> 1000) then (Err WkInvalidInput, s)
      else wiki_txn (\<lambda>d. Ok ((), set_wiki (configure_rows room editor enabled interval (db_wiki d)) d)) s)"

subsection \<open>Reads\<close>

definition page_of_row :: "string \<Rightarrow> wiki_page_row \<Rightarrow> wiki_page" where
  "page_of_row slug row = \<lparr> wp_slug = slug, wp_title = gw_title row, wp_body = gw_body row,
     wp_sources = gw_sources row, wp_revision = gw_revision row \<rparr>"

definition wiki_pages :: "wiki_tables \<Rightarrow> string \<Rightarrow> wiki_page list" where
  "wiki_pages w room = map (\<lambda>((_, slug), row). page_of_row slug row)
     (sort_key (snd \<circ> fst) (filter (\<lambda>((rm, _), _). rm = room) (wk_pages w)))"

definition snapshot_of_row :: "db \<Rightarrow> string \<Rightarrow> wiki_row \<Rightarrow> wiki_snapshot" where
  "snapshot_of_row d room row =
     \<lparr> ws_room = room, ws_editor_principal = wi_editor row,
       ws_editor_name = (case hm_get (db_principals d) (wi_editor row) of None \<Rightarrow> None
          | Some p \<Rightarrow> if pp_disabled_at p = None then Some (pp_display_name p) else None),
       ws_enabled = wi_enabled row, ws_interval_messages = wi_interval row, ws_revision = wi_revision row,
       ws_reviewed_through = wi_reviewed_through row, ws_reviewed_at = wi_reviewed_at row,
       ws_edited_at = wi_edited_at row, ws_pages = wiki_pages (db_wiki d) room \<rparr>"

definition store_wiki_snapshot :: "string \<Rightarrow> store \<Rightarrow> (WikiError, wiki_snapshot) result \<times> store" where
  "store_wiki_snapshot room = wiki_txn (\<lambda>d. case hm_get (wk_config (db_wiki d)) room of
     None \<Rightarrow> Err WkNotConfigured | Some row \<Rightarrow> Ok (snapshot_of_row d room row, d))"

definition store_wiki_page :: "string \<Rightarrow> string \<Rightarrow> store \<Rightarrow> (WikiError, wiki_page_snapshot) result \<times> store" where
  "store_wiki_page room slug = wiki_txn (\<lambda>d. case hm_get (wk_config (db_wiki d)) room of
     None \<Rightarrow> Err WkNotConfigured
   | Some row \<Rightarrow>
       (case hm_get (wk_pages (db_wiki d)) (room, slug) of
          None \<Rightarrow> Err WkPageNotFound
        | Some page \<Rightarrow> Ok (\<lparr> wq_room = room, wq_revision = wi_revision row,
            wq_reviewed_through = wi_reviewed_through row, wq_reviewed_at = wi_reviewed_at row,
            wq_page = page_of_row slug page \<rparr>, d)))"

subsection \<open>Publication\<close>

text \<open>\<open>SELECT EXISTS(SELECT 1 FROM messages WHERE room=?1 AND id=?2)\<close>.\<close>

definition message_in :: "db \<Rightarrow> string \<Rightarrow> u64 \<Rightarrow> bool" where
  "message_in d room i = (case hm_get (db_messages d) i of None \<Rightarrow> False | Some m \<Rightarrow> mr_room m = room)"

text \<open>The checks on the pages of an update, in order; \<open>seen\<close> are the slugs so far.\<close>

fun pages_ok :: "db \<Rightarrow> string \<Rightarrow> u64 \<Rightarrow> string list \<Rightarrow> wiki_page list \<Rightarrow> bool" where
  "pages_ok d room through seen [] = True"
| "pages_ok d room through seen (page # pages) =
     (slug_ok (wp_slug page) \<and> wp_slug page \<notin> set seen
      \<and> str_trim (wp_title page) \<noteq> [] \<and> str_len (wp_title page) \<le> 256
      \<and> str_len (wp_body page) \<le> PAGE_MAX_BYTES \<and> length (wp_sources page) \<le> 256
      \<and> list_all (\<lambda>source. source \<le> through \<and> message_in d room source) (wp_sources page)
      \<and> pages_ok d room through (wp_slug page # seen) pages)"

definition page_unchanged :: "wiki_tables \<Rightarrow> string \<Rightarrow> wiki_page \<Rightarrow> bool" where
  "page_unchanged w room page = (case hm_get (wk_pages w) (room, wp_slug page) of
     None \<Rightarrow> False
   | Some row \<Rightarrow> gw_title row = wp_title page \<and> gw_body row = wp_body page \<and> gw_sources row = wp_sources page)"

definition write_page :: "string \<Rightarrow> string \<Rightarrow> string \<Rightarrow> u64 \<Rightarrow> u64 \<Rightarrow> wiki_page \<Rightarrow> wiki_tables \<Rightarrow> wiki_tables" where
  "write_page room prin reason at nxt page w = w\<lparr>
     wk_pages := hm_insert (room, wp_slug page) \<lparr> gw_title = wp_title page, gw_body = wp_body page,
       gw_sources = wp_sources page, gw_revision = nxt \<rparr> (wk_pages w),
     wk_history := hm_insert (room, wp_slug page, nxt) \<lparr> hw_title = wp_title page, hw_body = wp_body page,
       hw_sources = wp_sources page, hw_editor = prin, hw_reason = reason, hw_edited_at = at \<rparr> (wk_history w)\<rparr>"

text \<open>The fence of a leased update, before anything is written: \<open>Ok (Some r)\<close> replays a receipt.\<close>

definition lease_fence ::
  "wiki_tables \<Rightarrow> string \<Rightarrow> string \<Rightarrow> wiki_commit \<Rightarrow> u64 \<Rightarrow> u64 \<Rightarrow> wiki_lease \<Rightarrow> (WikiError, u64 option) result" where
  "lease_fence w room prin upd cursor at lease =
     (case hm_get (wk_receipts w) (room, wl_batch_id lease, wl_epoch lease) of
        Some receipt \<Rightarrow>
          if rw_editor receipt = prin \<and> rw_request receipt = upd then Ok (Some (rw_revision receipt))
          else Err WkConflict
      | None \<Rightarrow>
          if \<not> lease_valid w room prin lease at then Err WkConflict
          else case hm_get (wk_batches w) (wl_batch_id lease) of
                 None \<Rightarrow> Err WkStorage
               | Some b \<Rightarrow>
                   if cursor \<noteq> bw_after b \<or> wc_reviewed_through upd \<noteq> bw_through b then Err WkConflict
                   else Ok None)"

definition settle_batches ::
  "string \<Rightarrow> string \<Rightarrow> wiki_commit \<Rightarrow> wiki_lease option \<Rightarrow> bool \<Rightarrow> bool \<Rightarrow> u64 \<Rightarrow> wiki_tables \<Rightarrow> wiki_tables" where
  "settle_batches room prin upd lease human_edit changed nxt w = (case lease of
     Some l \<Rightarrow> w\<lparr>
       wk_receipts := hm_insert (room, wl_batch_id l, wl_epoch l)
         \<lparr> rw_editor = prin, rw_request = upd, rw_revision = nxt \<rparr> (wk_receipts w),
       wk_batches := hm_map (\<lambda>i b. if i = wl_batch_id l then b\<lparr>bw_status := ''completed''\<rparr> else b) (wk_batches w)\<rparr>
   | None \<Rightarrow>
       if human_edit then if changed then cancel_batches room (\<lambda>_. True) w else w
       else cancel_batches room (\<lambda>b. bw_after b < wc_reviewed_through upd) w)"

definition publish_rows ::
  "string \<Rightarrow> string \<Rightarrow> wiki_commit \<Rightarrow> u64 \<Rightarrow> wiki_lease option \<Rightarrow> bool \<Rightarrow> wiki_row \<Rightarrow> u64 wiki_body" where
  "publish_rows room prin upd at lease human_edit row d =
     (let w = db_wiki d
      in if wc_expected_revision upd \<noteq> wi_revision row \<or> wc_reviewed_through upd < wi_reviewed_through row
         then Err WkConflict
         else if wc_reviewed_through upd \<noteq> 0 \<and> \<not> message_in d room (wc_reviewed_through upd)
         then Err WkInvalidInput
         else if \<not> pages_ok d room (wc_reviewed_through upd) [] (wc_pages upd) then Err WkInvalidInput
         else let changed = filter (\<lambda>page. \<not> page_unchanged w room page) (wc_pages upd);
                  nxt = wi_revision row + (if changed = [] then 0 else 1)
              in if nxt > u64_max then Err WkStorage
                 else if list_ex (\<lambda>page. hm_contains (wk_history w) (room, wp_slug page, nxt)) changed
                 then Err WkStorage
                 else let w1 = fold (write_page room prin (wc_reason upd) at nxt) changed w;
                          row' = row\<lparr>wi_revision := nxt, wi_reviewed_through := wc_reviewed_through upd,
                            wi_reviewed_at := (if human_edit then wi_reviewed_at row else Some at),
                            wi_edited_at := (if changed \<noteq> [] then Some at else wi_edited_at row)\<rparr>
                      in Ok (nxt, set_wiki (settle_batches room prin upd lease human_edit (changed \<noteq> []) nxt
                           (w1\<lparr>wk_config := hm_insert room row' (wk_config w1)\<rparr>)) d))"

definition commit_rows ::
  "string \<Rightarrow> string \<Rightarrow> wiki_commit \<Rightarrow> u64 \<Rightarrow> wiki_lease option \<Rightarrow> bool \<Rightarrow> u64 wiki_body" where
  "commit_rows room prin upd at lease human_edit d = (case hm_get (wk_config (db_wiki d)) room of
     None \<Rightarrow> Err WkNotConfigured
   | Some row \<Rightarrow>
       if \<not> human_edit \<and> wi_editor row \<noteq> prin then Err WkNotEditor
       else if human_edit \<and> (lease \<noteq> None \<or> wc_reviewed_through upd \<noteq> wi_reviewed_through row)
       then Err WkConflict
       else case lease of
              None \<Rightarrow> publish_rows room prin upd at lease human_edit row d
            | Some l \<Rightarrow>
                (case lease_fence (db_wiki d) room prin upd (wi_reviewed_through row) at l of
                   Inl e \<Rightarrow> Err e
                 | Inr (Some accepted) \<Rightarrow> Ok (accepted, d)
                 | Inr None \<Rightarrow> publish_rows room prin upd at lease human_edit row d))"

definition commit_wiki_checked ::
  "string \<Rightarrow> string \<Rightarrow> wiki_commit \<Rightarrow> u64 \<Rightarrow> wiki_lease option \<Rightarrow> bool \<Rightarrow> store \<Rightarrow> (WikiError, u64) result \<times> store" where
  "commit_wiki_checked room prin upd at lease human_edit s =
     (if length (wc_pages upd) > COMMIT_MAX_PAGES \<or> str_trim (wc_reason upd) = [] \<or> str_len (wc_reason upd) > 4096
      then (Err WkInvalidInput, s)
      else wiki_txn (commit_rows room prin upd at lease human_edit) s)"

definition store_commit_wiki ::
  "string \<Rightarrow> string \<Rightarrow> wiki_commit \<Rightarrow> u64 \<Rightarrow> store \<Rightarrow> (WikiError, u64) result \<times> store" where
  "store_commit_wiki room prin upd at = commit_wiki_checked room prin upd at None False"

definition human_update :: "string \<Rightarrow> wiki_page_edit \<Rightarrow> wiki_snapshot \<Rightarrow> wiki_commit" where
  "human_update slug edit snapshot =
     \<lparr> wc_expected_revision = we_expected_revision edit, wc_reviewed_through = ws_reviewed_through snapshot,
       wc_reason = ''human page edit; not a conversation review'',
       wc_pages = [\<lparr> wp_slug = slug, wp_title = we_title edit, wp_body = we_body edit, wp_sources = [],
         wp_revision = 0 \<rparr>] \<rparr>"

definition store_edit_wiki_page ::
  "string \<Rightarrow> string \<Rightarrow> string \<Rightarrow> wiki_page_edit \<Rightarrow> u64 \<Rightarrow> store \<Rightarrow> (WikiError, u64) result \<times> store" where
  "store_edit_wiki_page room actor slug edit at s = (case store_wiki_snapshot room s of
     (Inl e, s1) \<Rightarrow> (Err e, s1)
   | (Inr snapshot, s1) \<Rightarrow> commit_wiki_checked room actor (human_update slug edit snapshot) at None True s1)"

definition store_finish_wiki_review ::
  "string \<Rightarrow> string \<Rightarrow> wiki_commit \<Rightarrow> wiki_lease \<Rightarrow> u64 \<Rightarrow> store \<Rightarrow> (WikiError, u64) result \<times> store" where
  "store_finish_wiki_review room prin upd lease at = commit_wiki_checked room prin upd at (Some lease) False"

end
