(* ===== verification/Store_Wiki_Review.thy ===== *)
theory Store_Wiki_Review
  imports Store_Wiki Store_Messages
begin

text \<open>
  \<^verbatim>\<open>crates/server/src/store/wiki_maintenance.rs\<close>: batches of messages waiting for a review,
  the leases of the workers that read them, and their renewal.
\<close>

record wiki_batch =
  wb_lease :: wiki_lease
  wb_room :: string
  wb_after_id :: u64
  wb_through_id :: u64
  wb_reason :: string
  wb_lease_expires_at :: u64
  wb_attempts :: u64
  wb_messages :: "message list"

definition MAX_BATCH_MESSAGES :: nat where
  "MAX_BATCH_MESSAGES = 100"

definition MAX_PENDING_AGE_MS :: u64 where
  "MAX_PENDING_AGE_MS = 15 * 60 * 1000"

definition LEASE_MS :: u64 where
  "LEASE_MS = 5 * 60 * 1000"

definition MAX_WORKER_MS :: u64 where
  "MAX_WORKER_MS = 30 * 60 * 1000"

subsection \<open>Scheduling\<close>

definition store_cancel_wiki_review :: "string \<Rightarrow> store \<Rightarrow> (WikiError, unit) result \<times> store" where
  "store_cancel_wiki_review room =
     wiki_txn (\<lambda>d. Ok ((), set_wiki (cancel_batches room (\<lambda>_. True) (db_wiki d)) d))"

definition wiki_maintenance_rooms :: "store \<Rightarrow> (WikiError, string list) result \<times> store" where
  "wiki_maintenance_rooms = wiki_txn (\<lambda>d. Ok (map fst (filter (\<lambda>(_, row). wi_enabled row) (wk_config (db_wiki d))), d))"

definition newest_batch :: "wiki_tables \<Rightarrow> string \<Rightarrow> (u64 \<times> wiki_batch_row) option" where
  "newest_batch w room = (case sort_key fst (filter (\<lambda>(_, b). bw_room b = room) (wk_batches w)) of
     [] \<Rightarrow> None | bs \<Rightarrow> Some (last bs))"

definition store_wiki_batch_status :: "string \<Rightarrow> store \<Rightarrow> (WikiError, string option) result \<times> store" where
  "store_wiki_batch_status room =
     wiki_txn (\<lambda>d. Ok (map_option (bw_status \<circ> snd) (newest_batch (db_wiki d) room), d))"

text \<open>A message the wiki is to be written from: said by a participant, not by the house.\<close>

definition wiki_source :: "string \<Rightarrow> message_row \<Rightarrow> bool" where
  "wiki_source room m = (mr_room m = room \<and> mr_kind m = ''say'' \<and> mr_sender_type m \<in> {''user'', ''agent''}
     \<and> mr_sender m \<noteq> ''loca'')"

definition wiki_sources :: "db \<Rightarrow> string \<Rightarrow> (u64 \<Rightarrow> bool) \<Rightarrow> (u64 \<times> message_row) list" where
  "wiki_sources d room window =
     sort_key fst (filter (\<lambda>(i, m). wiki_source room m \<and> window i) (db_messages d))"

text \<open>The row id of a new batch: the table's ids only grow (\<open>AUTOINCREMENT\<close>), and no row is deleted.\<close>

definition next_batch_id :: "wiki_tables \<Rightarrow> u64" where
  "next_batch_id w = fold max (hm_keys (wk_batches w)) 0 + 1"

definition review_due :: "u64 \<Rightarrow> u64 \<Rightarrow> (u64 \<times> message_row) list \<Rightarrow> string option" where
  "review_due interval at inputs =
     (if inputs = [] then None
      else if length inputs \<ge> interval then Some ''message_threshold''
      else if u64_saturating_sub at (fold min (map (mr_ts \<circ> snd) inputs) (mr_ts (snd (hd inputs)))) \<ge> MAX_PENDING_AGE_MS
      then Some ''source_age'' else None)"

definition queued_batch :: "string \<Rightarrow> wiki_row \<Rightarrow> (u64 \<times> message_row) list \<Rightarrow> string \<Rightarrow> u64 \<Rightarrow> wiki_batch_row" where
  "queued_batch room row inputs reason at =
     \<lparr> bw_room = room, bw_editor = wi_editor row, bw_after = wi_reviewed_through row,
       bw_through = fst (inputs ! (min (length inputs) MAX_BATCH_MESSAGES - 1)),
       bw_status = ''queued'', bw_reason = reason, bw_created_at = at, bw_epoch = 0, bw_attempts = 0,
       bw_expires = 0 \<rparr>"

definition schedule_rows :: "string \<Rightarrow> u64 \<Rightarrow> bool wiki_body" where
  "schedule_rows room at d =
     (let w = db_wiki d
      in case hm_get (wk_config w) room of
           None \<Rightarrow> Ok (False, d)
         | Some row \<Rightarrow>
             if \<not> wi_enabled row \<or> list_ex (\<lambda>b. bw_room b = room \<and> wiki_pending b) (hm_values (wk_batches w))
             then Ok (False, d)
             else let inputs = take 1000 (wiki_sources d room (\<lambda>i. wi_reviewed_through row < i))
                  in case review_due (wi_interval row) at inputs of
                       None \<Rightarrow> Ok (False, d)
                     | Some reason \<Rightarrow>
                         Ok (True, set_wiki (w\<lparr>wk_batches := hm_insert (next_batch_id w)
                           (queued_batch room row inputs reason at) (wk_batches w)\<rparr>) d))"

definition store_schedule_wiki_review :: "string \<Rightarrow> u64 \<Rightarrow> store \<Rightarrow> (WikiError, bool) result \<times> store" where
  "store_schedule_wiki_review room at = wiki_txn (schedule_rows room at)"

subsection \<open>Leases\<close>

text \<open>A worker that lost its lease three times blocks the batch.\<close>

definition block_expired :: "string \<Rightarrow> u64 \<Rightarrow> wiki_tables \<Rightarrow> wiki_tables" where
  "block_expired room at w = w\<lparr>wk_batches := hm_map (\<lambda>_ b.
     if bw_room b = room \<and> bw_status b = ''running'' \<and> bw_expires b \<le> at \<and> bw_attempts b \<ge> 3
     then b\<lparr>bw_status := ''blocked''\<rparr> else b) (wk_batches w)\<rparr>"

definition batch_claimable :: "string \<Rightarrow> string \<Rightarrow> u64 \<Rightarrow> wiki_batch_row \<Rightarrow> bool" where
  "batch_claimable room prin at b = (bw_room b = room \<and> bw_editor b = prin
     \<and> (bw_status b = ''queued'' \<or> bw_status b = ''running'' \<and> bw_expires b \<le> at))"

definition leased_row :: "u64 \<Rightarrow> wiki_batch_row \<Rightarrow> wiki_batch_row" where
  "leased_row at b = b\<lparr>bw_status := ''running'', bw_epoch := bw_epoch b + 1, bw_attempts := bw_attempts b + 1,
     bw_expires := at + LEASE_MS\<rparr>"

definition batch_messages :: "db \<Rightarrow> string \<Rightarrow> wiki_batch_row \<Rightarrow> message list" where
  "batch_messages d room b = map (\<lambda>(i, m). row_to_message room i m)
     (take 100 (wiki_sources d room (\<lambda>i. bw_after b < i \<and> i \<le> bw_through b)))"

definition claim_rows :: "string \<Rightarrow> string \<Rightarrow> u64 \<Rightarrow> wiki_batch option wiki_body" where
  "claim_rows room prin at d = (case hm_get (wk_config (db_wiki d)) room of
     None \<Rightarrow> Err WkNotConfigured
   | Some row \<Rightarrow>
       if wi_editor row \<noteq> prin then Err WkNotEditor
       else if \<not> wi_enabled row then Ok (None, d)
       else let w = block_expired room at (db_wiki d)
            in case find (\<lambda>(_, b). batch_claimable room prin at b) (wk_batches w) of
                 None \<Rightarrow> Ok (None, set_wiki w d)
               | Some (i, b) \<Rightarrow>
                   if at + LEASE_MS > u64_max then Err WkInvalidInput
                   else if bw_epoch b + 1 > u64_max then Err WkStorage
                   else if hm_contains (wk_leases w) (i, bw_epoch b + 1) then Err WkStorage
                   else Ok (Some \<lparr> wb_lease = \<lparr> wl_batch_id = i, wl_epoch = bw_epoch b + 1 \<rparr>, wb_room = room,
                          wb_after_id = bw_after b, wb_through_id = bw_through b, wb_reason = bw_reason b,
                          wb_lease_expires_at = at + LEASE_MS, wb_attempts = bw_attempts b + 1,
                          wb_messages = batch_messages d room b \<rparr>,
                        set_wiki (w\<lparr>
                          wk_batches := hm_map (\<lambda>j b. if j = i then leased_row at b else b) (wk_batches w),
                          wk_leases := hm_insert (i, bw_epoch b + 1) at (wk_leases w)\<rparr>) d))"

definition store_claim_wiki_review ::
  "string \<Rightarrow> string \<Rightarrow> u64 \<Rightarrow> store \<Rightarrow> (WikiError, wiki_batch option) result \<times> store" where
  "store_claim_wiki_review room prin at = wiki_txn (claim_rows room prin at)"

definition renew_rows :: "string \<Rightarrow> string \<Rightarrow> wiki_lease \<Rightarrow> u64 \<Rightarrow> u64 wiki_body" where
  "renew_rows room prin lease at d =
     (let w = db_wiki d; i = wl_batch_id lease
      in if \<not> lease_valid w room prin lease at then Err WkConflict
         else case (hm_get (wk_leases w) (i, wl_epoch lease), hm_get (wk_batches w) i) of
                (Some started, Some b) \<Rightarrow>
                  if started + MAX_WORKER_MS > u64_max then Err WkInvalidInput
                  else if at + LEASE_MS > u64_max then Err WkInvalidInput
                  else let expires = min (max (bw_expires b) (at + LEASE_MS)) (started + MAX_WORKER_MS)
                       in if expires \<le> at then Err WkConflict
                          else Ok (expires, set_wiki (w\<lparr>wk_batches := hm_map (\<lambda>j b.
                            if j = i then b\<lparr>bw_expires := expires\<rparr> else b) (wk_batches w)\<rparr>) d)
              | _ \<Rightarrow> Err WkStorage)"

definition store_renew_wiki_review ::
  "string \<Rightarrow> string \<Rightarrow> wiki_lease \<Rightarrow> u64 \<Rightarrow> store \<Rightarrow> (WikiError, u64) result \<times> store" where
  "store_renew_wiki_review room prin lease at = wiki_txn (renew_rows room prin lease at)"

end
