(* ===== verification/Store_Wiki_Context.thy ===== *)
theory Store_Wiki_Context
  imports Store_Wiki
begin

text \<open>
  \<^verbatim>\<open>crates/server/src/store/wiki_context.rs\<close>: the pages an agent wants in its context, the
  heartbeat of its runtime, and the receipts of what it accepted.
\<close>

record wiki_context_request =
  wu_target :: string
  wu_slugs :: "string list"
  wu_reason :: string
  wu_version :: u64

record wiki_context_value =
  wv_room :: string
  wv_revision :: u64
  wv_selection_version :: u64
  wv_slugs :: "string list"
  wv_pages :: "wiki_page list"
  wv_missing :: "string list"

subsection \<open>Runtimes\<close>

definition store_wiki_native_ready ::
  "string \<Rightarrow> string \<Rightarrow> string \<Rightarrow> u64 \<Rightarrow> store \<Rightarrow> (WikiError, unit) result \<times> store" where
  "store_wiki_native_ready room prin runtime at s =
     (if runtime \<noteq> ''codex'' \<and> runtime \<noteq> ''claude'' then (Err WkInvalidInput, s)
      else wiki_txn (\<lambda>d. Ok ((), set_wiki ((db_wiki d)\<lparr>
        wk_runtime := hm_insert (room, prin) (runtime, at) (wk_runtime (db_wiki d))\<rparr>) d)) s)"

definition store_wiki_editor_runtime_ready ::
  "string \<Rightarrow> string \<Rightarrow> u64 \<Rightarrow> store \<Rightarrow> (WikiError, bool) result \<times> store" where
  "store_wiki_editor_runtime_ready room prin at = wiki_txn (\<lambda>d.
     Ok (case hm_get (wk_runtime (db_wiki d)) (room, prin) of None \<Rightarrow> False
         | Some (_, ready_at) \<Rightarrow> ready_at \<le> at \<and> ready_at \<ge> u64_saturating_sub at 120000, d))"

subsection \<open>Selections\<close>

definition store_wiki_context_requests ::
  "string \<Rightarrow> store \<Rightarrow> (WikiError, wiki_context_request list) result \<times> store" where
  "store_wiki_context_requests room = wiki_txn (\<lambda>d.
     let rows = rev (sort_key (\<lambda>(_, v). vw_requested_at v)
           (filter (\<lambda>((rm, _), _). rm = room) (wk_selection (db_wiki d))));
         request = (\<lambda>((_, prin), v). case hm_get (db_principals d) prin of
           None \<Rightarrow> None
         | Some p \<Rightarrow> if pp_kind p = ''agent'' \<and> pp_disabled_at p = None
                     then Some \<lparr> wu_target = pp_display_name p, wu_slugs = vw_slugs v, wu_reason = vw_reason v,
                       wu_version = vw_version v \<rparr> else None)
     in Ok (take 128 (List.map_filter request rows), d))"

definition select_rows :: "string \<Rightarrow> string \<Rightarrow> wiki_context_selection \<Rightarrow> u64 \<Rightarrow> wiki_tables \<Rightarrow> wiki_tables" where
  "select_rows room prin selection at w = w\<lparr>wk_selection := (case hm_get (wk_selection w) (room, prin) of
     None \<Rightarrow> hm_insert (room, prin) \<lparr> vw_slugs = wx_slugs selection, vw_reason = wx_reason selection,
       vw_version = 1, vw_requested_at = at \<rparr> (wk_selection w)
   | Some v \<Rightarrow>
       if vw_slugs v \<noteq> wx_slugs selection \<or> vw_reason v \<noteq> wx_reason selection
       then hm_insert (room, prin) (v\<lparr>vw_slugs := wx_slugs selection, vw_reason := wx_reason selection,
         vw_version := vw_version v + 1, vw_requested_at := at\<rparr>) (wk_selection w)
       else wk_selection w)\<rparr>"

definition store_select_wiki_context ::
  "string \<Rightarrow> string \<Rightarrow> wiki_context_selection \<Rightarrow> u64 \<Rightarrow> store \<Rightarrow> (WikiError, unit) result \<times> store" where
  "store_select_wiki_context room prin selection at s =
     (if wx_slugs selection = [] \<or> length (wx_slugs selection) > 16 \<or> str_trim (wx_reason selection) = []
         \<or> str_len (wx_reason selection) > 1024 \<or> \<not> list_all slug_ok (wx_slugs selection)
         \<or> \<not> distinct (wx_slugs selection)
      then (Err WkInvalidInput, s)
      else wiki_txn (\<lambda>d. Ok ((), set_wiki (select_rows room prin selection at (db_wiki d)) d)) s)"

definition selection_of :: "wiki_tables \<Rightarrow> string \<Rightarrow> string \<Rightarrow> string list \<times> u64" where
  "selection_of w room prin = (case hm_get (wk_selection w) (room, prin) of
     Some v \<Rightarrow> (vw_slugs v, vw_version v) | None \<Rightarrow> ([''overview'', ''working''], 0))"

text \<open>A page that was never written, revision 0, counts as missing.\<close>

definition written_page :: "wiki_tables \<Rightarrow> string \<Rightarrow> string \<Rightarrow> wiki_page option" where
  "written_page w room slug = (case hm_get (wk_pages w) (room, slug) of
     None \<Rightarrow> None | Some row \<Rightarrow> if gw_revision row > 0 then Some (page_of_row slug row) else None)"

definition store_wiki_context_for ::
  "string \<Rightarrow> string \<Rightarrow> store \<Rightarrow> (WikiError, wiki_context_value) result \<times> store" where
  "store_wiki_context_for room prin = wiki_txn (\<lambda>d.
     let w = db_wiki d
     in case hm_get (wk_config w) room of
          None \<Rightarrow> Err WkNotConfigured
        | Some row \<Rightarrow>
            let (slugs, version) = selection_of w room prin
            in Ok (\<lparr> wv_room = room, wv_revision = wi_revision row, wv_selection_version = version, wv_slugs = slugs,
                 wv_pages = List.map_filter (written_page w room) slugs,
                 wv_missing = filter (\<lambda>slug. written_page w room slug = None) slugs \<rparr>, d))"

subsection \<open>Receipts\<close>

definition is_hex_digit :: "char \<Rightarrow> bool" where
  "is_hex_digit c = (48 \<le> code_point c \<and> code_point c \<le> 57 \<or> 97 \<le> code_point c \<and> code_point c \<le> 102
     \<or> 65 \<le> code_point c \<and> code_point c \<le> 70)"

text \<open>The newest 128 receipts of a principal in a room are kept.\<close>

definition prune_receipts ::
  "string \<Rightarrow> string \<Rightarrow> (string \<times> string \<times> string \<times> string, wiki_context_receipt) hashmap \<Rightarrow>
     (string \<times> string \<times> string \<times> string, wiki_context_receipt) hashmap" where
  "prune_receipts room prin rs =
     (let own = filter (\<lambda>((rm, p, _, _), _). rm = room \<and> p = prin) rs;
          kept = map fst (drop (length own - 128) own)
      in filter (\<lambda>((rm, p, x, y), _). rm = room \<and> p = prin \<longrightarrow> (rm, p, x, y) \<in> set kept) rs)"

definition accept_rows :: "string \<Rightarrow> string \<Rightarrow> wiki_context_ack \<Rightarrow> u64 \<Rightarrow> unit wiki_body" where
  "accept_rows room prin ack at d =
     (let w = db_wiki d; k = (room, prin, wa_context_id ack, wa_packet_id ack)
      in case hm_get (wk_context_receipts w) k of
           Some prior \<Rightarrow>
             if cw_revision prior = wa_revision ack \<and> cw_selection_version prior = wa_selection_version ack
             then Ok ((), d) else Err WkConflict
         | None \<Rightarrow>
             let version = (case hm_get (wk_selection w) (room, prin) of Some v \<Rightarrow> vw_version v | None \<Rightarrow> 0)
             in if map_option wi_revision (hm_get (wk_config w) room) \<noteq> Some (wa_revision ack)
                   \<or> version \<noteq> wa_selection_version ack
                then Err WkConflict
                else Ok ((), set_wiki (w\<lparr>wk_context_receipts := prune_receipts room prin (hm_insert k
                  \<lparr> cw_revision = wa_revision ack, cw_selection_version = wa_selection_version ack,
                    cw_accepted_at = at \<rparr> (wk_context_receipts w))\<rparr>) d))"

definition store_accept_wiki_context ::
  "string \<Rightarrow> string \<Rightarrow> wiki_context_ack \<Rightarrow> u64 \<Rightarrow> store \<Rightarrow> (WikiError, unit) result \<times> store" where
  "store_accept_wiki_context room prin ack at s =
     (if wa_context_id ack = [] \<or> str_len (wa_context_id ack) > 256 \<or> str_len (wa_packet_id ack) \<noteq> 64
         \<or> \<not> list_all is_hex_digit (wa_packet_id ack)
      then (Err WkInvalidInput, s)
      else wiki_txn (accept_rows room prin ack at) s)"

end
