(* ===== verification/Wiki.thy ===== *)
theory Wiki
  imports Store_Wiki_Review Store_Wiki_Context Access Rooms
begin

text \<open>
  The wiki in \<^verbatim>\<open>crates/server/src/hub.rs\<close> and the guards of its handlers in
  \<^verbatim>\<open>crates/server/src/routes/wiki.rs\<close>: who may configure, review, edit and read, and the
  periodic tick that queues reviews of writable locas and cancels those of the others.
\<close>

subsection \<open>The hub\<close>

text \<open>One round over the locas whose wiki is enabled; a failure of one does not stop the others.\<close>

definition tick_wiki_room :: "u64 \<Rightarrow> string \<Rightarrow> hub \<Rightarrow> hub" where
  "tick_wiki_room now room h =
     (if is_writable h room then snd (with_store (store_schedule_wiki_review room now) h)
      else snd (with_store (store_cancel_wiki_review room) h))"

definition tick_wiki :: "u64 \<Rightarrow> hub \<Rightarrow> hub" where
  "tick_wiki now h =
     (if \<not> is_persistent (h_store h) then h
      else case with_store wiki_maintenance_rooms h of
             (Inl _, h1) \<Rightarrow> h1
           | (Inr rooms, h1) \<Rightarrow> fold (tick_wiki_room now) rooms h1)"

text \<open>The one active agent of a name.\<close>

definition wiki_agent_named :: "string \<Rightarrow> hub \<Rightarrow> (WikiError, principal_identity) result \<times> hub" where
  "wiki_agent_named name h =
     (case with_store (run_txn [] (\<lambda>d. Ok (active_principals_named (h_store h) name, d))) h of
        (Inl _, h1) \<Rightarrow> (Err WkStorage, h1)
      | (Inr [identity], h1) \<Rightarrow> (if pi_kind identity = Agent then Ok identity else Err WkInvalidInput, h1)
      | (Inr _, h1) \<Rightarrow> (Err WkInvalidInput, h1))"

definition configure_wiki :: "string \<Rightarrow> string \<Rightarrow> bool \<Rightarrow> u64 \<Rightarrow> u64 \<Rightarrow> hub \<Rightarrow> (WikiError, unit) result \<times> hub" where
  "configure_wiki room editor enabled interval now h = (case wiki_agent_named editor h of
     (Inl e, h1) \<Rightarrow> (Err e, h1)
   | (Inr identity, h1) \<Rightarrow>
       (case (if enabled then with_store (store_wiki_editor_runtime_ready room (pi_id identity) now) h1
              else (Ok True, h1)) of
          (Inl e, h2) \<Rightarrow> (Err e, h2)
        | (Inr ready, h2) \<Rightarrow>
            if \<not> ready then (Err WkConflict, h2)
            else with_store (store_configure_wiki room (pi_id identity) enabled interval) h2))"

definition wiki_context_requests ::
  "string \<Rightarrow> string option \<Rightarrow> bool \<Rightarrow> hub \<Rightarrow> (WikiError, wiki_context_request list) result \<times> hub" where
  "wiki_context_requests room prin operator h =
     (case (if operator then (Ok True, h)
            else case with_store (store_wiki_snapshot room) h of
                   (Inl e, h1) \<Rightarrow> (Err e, h1)
                 | (Inr snapshot, h1) \<Rightarrow> (Ok (prin = Some (ws_editor_principal snapshot)), h1)) of
        (Inl e, h1) \<Rightarrow> (Err e, h1)
      | (Inr allowed, h1) \<Rightarrow>
          if \<not> allowed then (Err WkNotEditor, h1)
          else case with_store (store_wiki_context_requests room) h1 of
                 (Inl e, h2) \<Rightarrow> (Err e, h2)
               | (Inr requests, h2) \<Rightarrow>
                   (Ok (filter (\<lambda>r. wu_target r \<in> set (map iv_name (invites_of h2 room))) requests), h2))"

definition offer_wiki_context ::
  "string \<Rightarrow> string option \<Rightarrow> bool \<Rightarrow> string \<Rightarrow> wiki_context_selection \<Rightarrow> u64 \<Rightarrow> hub \<Rightarrow> (WikiError, unit) result \<times> hub" where
  "offer_wiki_context room actor operator target selection now h =
     (case with_store (store_wiki_snapshot room) h of
        (Inl e, h1) \<Rightarrow> (Err e, h1)
      | (Inr snapshot, h1) \<Rightarrow>
          if \<not> operator \<and> actor \<noteq> Some (ws_editor_principal snapshot) then (Err WkNotEditor, h1)
          else case wiki_agent_named target h1 of
                 (Inl e, h2) \<Rightarrow> (Err e, h2)
               | (Inr identity, h2) \<Rightarrow>
                   if target \<notin> set (map iv_name (invites_of h2 room)) then (Err WkInvalidInput, h2)
                   else with_store (store_select_wiki_context room (pi_id identity) selection now) h2)"

subsection \<open>The handlers\<close>

text \<open>
  One constructor for each answer.  The extractor has admitted the caller to the loca
  before a handler runs; its headers carry a session and an administrator token.
\<close>

datatype wiki_response = WikiReadOnly | WikiUnauthorized | WikiForbidden | WikiRefused WikiError
  | WikiRevised u64 | WikiConfigured | WikiClaimed "wiki_batch option" | WikiRenewed u64 | WikiReady
  | WikiContext wiki_context_value | WikiRequested | WikiAccepted | WikiOffered
  | WikiRequests "wiki_context_request list" | WikiShown wiki_snapshot | WikiPageShown wiki_page_snapshot
  | WikiStatus "string option"

definition wiki_answer :: "('a \<Rightarrow> wiki_response) \<Rightarrow> (WikiError, 'a) result \<times> hub \<Rightarrow> wiki_response \<times> hub" where
  "wiki_answer f = (\<lambda>(res, h). (case res of Inl e \<Rightarrow> WikiRefused e | Inr x \<Rightarrow> f x, h))"

definition get_wiki_route :: "string \<Rightarrow> hub \<Rightarrow> wiki_response \<times> hub" where
  "get_wiki_route room h = wiki_answer WikiShown (with_store (store_wiki_snapshot room) h)"

definition get_wiki_page_route :: "string \<Rightarrow> string \<Rightarrow> hub \<Rightarrow> wiki_response \<times> hub" where
  "get_wiki_page_route room slug h = wiki_answer WikiPageShown (with_store (store_wiki_page room slug) h)"

definition wiki_maintenance_status_route :: "string \<Rightarrow> hub \<Rightarrow> wiki_response \<times> hub" where
  "wiki_maintenance_status_route room h = wiki_answer WikiStatus (with_store (store_wiki_batch_status room) h)"

definition session_principal :: "digest \<Rightarrow> u64 \<Rightarrow> u64 \<Rightarrow> string option \<Rightarrow> hub \<Rightarrow> string option \<times> hub" where
  "session_principal sha now clock token h = (case session_identity_of sha now clock token h of
     (None, h1) \<Rightarrow> (None, h1) | (Some idy, h1) \<Rightarrow> (si_principal_id idy, h1))"

text \<open>The guard the editor's handlers share: a writable loca and a principal-bound session.\<close>

definition as_editor ::
  "digest \<Rightarrow> u64 \<Rightarrow> u64 \<Rightarrow> string \<Rightarrow> string option \<Rightarrow> (string \<Rightarrow> hub \<Rightarrow> wiki_response \<times> hub) \<Rightarrow> hub \<Rightarrow>
     wiki_response \<times> hub" where
  "as_editor sha now clock room session act h =
     (if \<not> is_writable h room then (WikiReadOnly, h)
      else case session_principal sha now clock session h of
             (None, h1) \<Rightarrow> (WikiUnauthorized, h1)
           | (Some prin, h1) \<Rightarrow> act prin h1)"

definition remove_wiki_page_route ::
  "digest \<Rightarrow> u64 \<Rightarrow> u64 \<Rightarrow> string \<Rightarrow> string option \<Rightarrow> string \<Rightarrow> wiki_page_removal \<Rightarrow> hub \<Rightarrow> wiki_response \<times> hub" where
  "remove_wiki_page_route sha now clock room session slug removal =
     as_editor sha now clock room session
       (\<lambda>prin h. wiki_answer WikiRevised (with_store (store_remove_wiki_page room prin slug removal now) h))"

definition claim_wiki_review_route ::
  "digest \<Rightarrow> u64 \<Rightarrow> u64 \<Rightarrow> string \<Rightarrow> string option \<Rightarrow> hub \<Rightarrow> wiki_response \<times> hub" where
  "claim_wiki_review_route sha now clock room session =
     as_editor sha now clock room session
       (\<lambda>prin h. wiki_answer WikiClaimed (with_store (store_claim_wiki_review room prin now) h))"

definition renew_wiki_review_route ::
  "digest \<Rightarrow> u64 \<Rightarrow> u64 \<Rightarrow> string \<Rightarrow> string option \<Rightarrow> wiki_lease \<Rightarrow> hub \<Rightarrow> wiki_response \<times> hub" where
  "renew_wiki_review_route sha now clock room session lease =
     as_editor sha now clock room session
       (\<lambda>prin h. wiki_answer WikiRenewed (with_store (store_renew_wiki_review room prin lease now) h))"

definition finish_wiki_review_route ::
  "digest \<Rightarrow> u64 \<Rightarrow> u64 \<Rightarrow> string \<Rightarrow> string option \<Rightarrow> wiki_commit \<Rightarrow> wiki_lease \<Rightarrow> hub \<Rightarrow> wiki_response \<times> hub" where
  "finish_wiki_review_route sha now clock room session review lease =
     as_editor sha now clock room session
       (\<lambda>prin h. wiki_answer WikiRevised (with_store (store_finish_wiki_review room prin review lease now) h))"

definition commit_wiki_route ::
  "digest \<Rightarrow> u64 \<Rightarrow> u64 \<Rightarrow> string \<Rightarrow> string option \<Rightarrow> wiki_commit \<Rightarrow> hub \<Rightarrow> wiki_response \<times> hub" where
  "commit_wiki_route sha now clock room session upd h =
     (if \<not> is_writable h room then (WikiReadOnly, h)
      else case session_identity_of sha now clock session h of
             (None, h1) \<Rightarrow> (WikiUnauthorized, h1)
           | (Some idy, h1) \<Rightarrow>
               (case si_principal_id idy of
                  None \<Rightarrow> (WikiForbidden, h1)
                | Some prin \<Rightarrow> wiki_answer WikiRevised (with_store (store_commit_wiki room prin upd now) h1)))"

definition edit_wiki_page_route ::
  "digest \<Rightarrow> u64 \<Rightarrow> u64 \<Rightarrow> string \<Rightarrow> string option \<Rightarrow> string option \<Rightarrow> string \<Rightarrow> wiki_page_edit \<Rightarrow> hub \<Rightarrow>
     wiki_response \<times> hub" where
  "edit_wiki_page_route sha now clock room admin session slug edit h =
     (if \<not> is_writable h room then (WikiReadOnly, h)
      else case is_loca_operator sha now clock room admin session [] h of
             (False, h1) \<Rightarrow> (WikiForbidden, h1)
           | (True, h1) \<Rightarrow>
               (case session_principal sha now clock session h1 of (prin, h2) \<Rightarrow>
                  let actor = (case prin of Some i \<Rightarrow> ''operator:'' @ i | None \<Rightarrow> ''operator:master'')
                  in wiki_answer WikiRevised (with_store (store_edit_wiki_page room actor slug edit now) h2)))"

definition configure_wiki_route ::
  "digest \<Rightarrow> u64 \<Rightarrow> u64 \<Rightarrow> string \<Rightarrow> string option \<Rightarrow> string option \<Rightarrow> string \<Rightarrow> bool \<Rightarrow> u64 \<Rightarrow> hub \<Rightarrow>
     wiki_response \<times> hub" where
  "configure_wiki_route sha now clock room admin session editor enabled interval h =
     (if \<not> is_writable h room then (WikiReadOnly, h)
      else case is_loca_operator sha now clock room admin session [] h of
             (False, h1) \<Rightarrow> (WikiForbidden, h1)
           | (True, h1) \<Rightarrow>
               wiki_answer (\<lambda>_. WikiConfigured) (configure_wiki room (str_trim editor) enabled interval now h1))"

definition wiki_native_ready_route ::
  "digest \<Rightarrow> u64 \<Rightarrow> u64 \<Rightarrow> string \<Rightarrow> string option \<Rightarrow> string \<Rightarrow> hub \<Rightarrow> wiki_response \<times> hub" where
  "wiki_native_ready_route sha now clock room session runtime h =
     (case session_identity_of sha now clock session h of
        (None, h1) \<Rightarrow> (WikiUnauthorized, h1)
      | (Some idy, h1) \<Rightarrow>
          if si_kind idy \<noteq> Agent \<or> \<not> is_writable h1 room then (WikiForbidden, h1)
          else case si_principal_id idy of
                 None \<Rightarrow> (WikiUnauthorized, h1)
               | Some prin \<Rightarrow>
                   wiki_answer (\<lambda>_. WikiReady) (with_store (store_wiki_native_ready room prin runtime now) h1))"

definition wiki_context_route ::
  "digest \<Rightarrow> u64 \<Rightarrow> u64 \<Rightarrow> string \<Rightarrow> string option \<Rightarrow> hub \<Rightarrow> wiki_response \<times> hub" where
  "wiki_context_route sha now clock room session h = (case session_principal sha now clock session h of
     (None, h1) \<Rightarrow> (WikiUnauthorized, h1)
   | (Some prin, h1) \<Rightarrow> wiki_answer WikiContext (with_store (store_wiki_context_for room prin) h1))"

text \<open>The two writes of an agent's own context: a principal-bound session and a writable loca.\<close>

definition as_reader ::
  "digest \<Rightarrow> u64 \<Rightarrow> u64 \<Rightarrow> string \<Rightarrow> string option \<Rightarrow> (string \<Rightarrow> hub \<Rightarrow> wiki_response \<times> hub) \<Rightarrow> hub \<Rightarrow>
     wiki_response \<times> hub" where
  "as_reader sha now clock room session act h = (case session_principal sha now clock session h of
     (None, h1) \<Rightarrow> (WikiUnauthorized, h1)
   | (Some prin, h1) \<Rightarrow> if \<not> is_writable h1 room then (WikiReadOnly, h1) else act prin h1)"

definition wiki_context_request_route ::
  "digest \<Rightarrow> u64 \<Rightarrow> u64 \<Rightarrow> string \<Rightarrow> string option \<Rightarrow> wiki_context_selection \<Rightarrow> hub \<Rightarrow> wiki_response \<times> hub" where
  "wiki_context_request_route sha now clock room session selection =
     as_reader sha now clock room session
       (\<lambda>prin h. wiki_answer (\<lambda>_. WikiRequested) (with_store (store_select_wiki_context room prin selection now) h))"

definition wiki_context_accept_route ::
  "digest \<Rightarrow> u64 \<Rightarrow> u64 \<Rightarrow> string \<Rightarrow> string option \<Rightarrow> wiki_context_ack \<Rightarrow> hub \<Rightarrow> wiki_response \<times> hub" where
  "wiki_context_accept_route sha now clock room session ack =
     as_reader sha now clock room session
       (\<lambda>prin h. wiki_answer (\<lambda>_. WikiAccepted) (with_store (store_accept_wiki_context room prin ack now) h))"

definition wiki_context_offer_route ::
  "digest \<Rightarrow> u64 \<Rightarrow> u64 \<Rightarrow> string \<Rightarrow> string option \<Rightarrow> string option \<Rightarrow> string \<Rightarrow> wiki_context_selection \<Rightarrow> hub \<Rightarrow>
     wiki_response \<times> hub" where
  "wiki_context_offer_route sha now clock room admin session target selection h =
     (if \<not> is_writable h room then (WikiReadOnly, h)
      else case session_principal sha now clock session h of (prin, h1) \<Rightarrow>
             (case is_loca_operator sha now clock room admin session [] h1 of (operator, h2) \<Rightarrow>
                wiki_answer (\<lambda>_. WikiOffered) (offer_wiki_context room prin operator target selection now h2)))"

definition wiki_context_requests_route ::
  "digest \<Rightarrow> u64 \<Rightarrow> u64 \<Rightarrow> string \<Rightarrow> string option \<Rightarrow> string option \<Rightarrow> hub \<Rightarrow> wiki_response \<times> hub" where
  "wiki_context_requests_route sha now clock room admin session h =
     (case session_principal sha now clock session h of (prin, h1) \<Rightarrow>
        (case is_loca_operator sha now clock room admin session [] h1 of (operator, h2) \<Rightarrow>
           wiki_answer WikiRequests (wiki_context_requests room prin operator h2)))"

end
