(* ===== verification/Wiki_Laws.thy ===== *)
theory Wiki_Laws
  imports Wiki Rooms_Durable Ordered_Rows
begin

text \<open>
  The two invariants of the wiki.  Of the archive: every written page is in the history
  under its own revision, and the revisions of a loca are exactly those of its history.
  Of the reviews: one pending batch for a loca, at most three claims of a batch, leases
  of bounded age, and a receipt for exactly the batches that were completed.  Both are
  kept by every operation, and every operation only adds to what was published.
\<close>

subsection \<open>The archive\<close>

definition archived :: "wiki_tables \<Rightarrow> string \<Rightarrow> string \<Rightarrow> wiki_page_row \<Rightarrow> bool" where
  "archived w room slug pg = (if gw_revision pg = 0 then gw_body pg = [] \<and> gw_sources pg = []
     else \<exists>hr. hm_get (wk_history w) (room, slug, gw_revision pg) = Some hr \<and> hw_title hr = gw_title pg
       \<and> hw_body hr = gw_body pg \<and> hw_sources hr = gw_sources pg)"

definition archive_ok :: "wiki_tables \<Rightarrow> bool" where
  "archive_ok w = (
     (\<forall>room slug pg. hm_get (wk_pages w) (room, slug) = Some pg \<longrightarrow> archived w room slug pg)
   \<and> (\<forall>room slug rv hr. hm_get (wk_history w) (room, slug, rv) = Some hr \<longrightarrow>
        0 < rv \<and> (\<exists>row. hm_get (wk_config w) room = Some row \<and> rv \<le> wi_revision row))
   \<and> (\<forall>room row rv. hm_get (wk_config w) room = Some row \<and> 0 < rv \<and> rv \<le> wi_revision row \<longrightarrow>
        (\<exists>slug. hm_get (wk_history w) (room, slug, rv) \<noteq> None)))"

definition archive_later :: "wiki_tables \<Rightarrow> wiki_tables \<Rightarrow> bool" where
  "archive_later w w' = (
     (\<forall>k hr. hm_get (wk_history w) k = Some hr \<longrightarrow> hm_get (wk_history w') k = Some hr)
   \<and> (\<forall>room row. hm_get (wk_config w) room = Some row \<longrightarrow>
        (\<exists>row'. hm_get (wk_config w') room = Some row' \<and> wi_revision row \<le> wi_revision row'
           \<and> wi_reviewed_through row \<le> wi_reviewed_through row')))"

definition archive_goes :: "wiki_tables \<Rightarrow> wiki_tables \<Rightarrow> bool" where
  "archive_goes w w' = (archive_ok w \<longrightarrow> archive_ok w' \<and> archive_later w w')"

lemma archive_okD:
  assumes "archive_ok w"
  shows "hm_get (wk_pages w) (room, slug) = Some pg \<Longrightarrow> archived w room slug pg"
    and "hm_get (wk_history w) (room, slug, rv) = Some hr \<Longrightarrow> 0 < rv"
    and "hm_get (wk_history w) (room, slug, rv) = Some hr \<Longrightarrow>
           \<exists>row. hm_get (wk_config w) room = Some row \<and> rv \<le> wi_revision row"
    and "hm_get (wk_config w) room = Some row \<Longrightarrow> 0 < rv \<Longrightarrow> rv \<le> wi_revision row \<Longrightarrow>
           \<exists>slug hr. hm_get (wk_history w) (room, slug, rv) = Some hr"
  using assms unfolding archive_ok_def by blast+

lemma archive_okI:
  assumes "\<And>room slug pg. hm_get (wk_pages w) (room, slug) = Some pg \<Longrightarrow> archived w room slug pg"
    and "\<And>room slug rv hr. hm_get (wk_history w) (room, slug, rv) = Some hr \<Longrightarrow>
           0 < rv \<and> (\<exists>row. hm_get (wk_config w) room = Some row \<and> rv \<le> wi_revision row)"
    and "\<And>room row rv. hm_get (wk_config w) room = Some row \<Longrightarrow> 0 < rv \<Longrightarrow> rv \<le> wi_revision row \<Longrightarrow>
           \<exists>slug hr. hm_get (wk_history w) (room, slug, rv) = Some hr"
  shows "archive_ok w"
  using assms unfolding archive_ok_def by blast

lemma archive_goes_same:
  assumes "wk_pages w' = wk_pages w" "wk_history w' = wk_history w" "wk_config w' = wk_config w"
  shows "archive_goes w w'"
proof -
  have "archived w' = archived w" by (intro ext) (simp add: archived_def assms)
  then show ?thesis using assms by (auto simp: archive_goes_def archive_later_def intro!: archive_okI dest: archive_okD)
qed

lemma archive_goes_trans:
  assumes "archive_goes w w1" "archive_goes w1 w2"
  shows "archive_goes w w2"
proof -
  have "archive_later w w2" if "archive_later w w1" "archive_later w1 w2"
    using that unfolding archive_later_def by (meson le_trans)
  then show ?thesis using assms by (auto simp: archive_goes_def)
qed

text \<open>A loca's row changes but not its content.\<close>

lemma archive_goes_row:
  assumes row: "case hm_get (wk_config w) room of None \<Rightarrow> wi_revision row' = 0
      | Some row \<Rightarrow> wi_revision row' = wi_revision row \<and> wi_reviewed_through row \<le> wi_reviewed_through row'"
    and same: "wk_pages w' = wk_pages w" "wk_history w' = wk_history w"
    and cf: "wk_config w' = hm_insert room row' (wk_config w)"
  shows "archive_goes w w'"
proof -
  have later: "archive_later w w'"
    unfolding archive_later_def
  proof (intro conjI allI impI)
    fix rm r
    assume r: "hm_get (wk_config w) rm = Some r"
    show "\<exists>r'. hm_get (wk_config w') rm = Some r' \<and> wi_revision r \<le> wi_revision r'
        \<and> wi_reviewed_through r \<le> wi_reviewed_through r'"
      using r row by (cases "rm = room") (simp_all add: cf)
  qed (simp add: same)
  have "archive_ok w'" if ok: "archive_ok w"
  proof (rule archive_okI)
    have ar: "archived w' = archived w" by (intro ext) (simp add: archived_def same)
    fix rm slug pg
    assume "hm_get (wk_pages w') (rm, slug) = Some pg"
    then show "archived w' rm slug pg" using archive_okD(1) [OF ok] by (simp add: ar same)
  next
    fix rm slug rv hr
    assume "hm_get (wk_history w') (rm, slug, rv) = Some hr"
    then have h: "hm_get (wk_history w) (rm, slug, rv) = Some hr" by (simp add: same)
    from archive_okD(3) [OF ok h] obtain r where "hm_get (wk_config w) rm = Some r" "rv \<le> wi_revision r"
      by blast
    then show "0 < rv \<and> (\<exists>r. hm_get (wk_config w') rm = Some r \<and> rv \<le> wi_revision r)"
      using archive_okD(2) [OF ok h] later unfolding archive_later_def by (meson le_trans)
  next
    fix rm r rv
    assume r: "hm_get (wk_config w') rm = Some r" "0 < rv" "rv \<le> wi_revision r"
    then have "\<exists>q. hm_get (wk_config w) rm = Some q \<and> rv \<le> wi_revision q"
      using row by (cases "rm = room"; cases "hm_get (wk_config w) room") (auto simp: cf)
    then show "\<exists>slug hr. hm_get (wk_history w') (rm, slug, rv) = Some hr"
      using archive_okD(4) [OF ok _ r(2)] by (auto simp: same)
  qed
  with later show ?thesis by (simp add: archive_goes_def)
qed

text \<open>A page that was not there is inserted empty.\<close>

lemma insert_or_ignore_goes: "archive_goes w (insert_or_ignore_page room slug title w)"
proof (cases "hm_contains (wk_pages w) (room, slug)")
  case False
  define w' where "w' = insert_or_ignore_page room slug title w"
  have w': "wk_pages w' = hm_insert (room, slug) \<lparr> gw_title = title, gw_body = [], gw_sources = [], gw_revision = 0 \<rparr>
      (wk_pages w)" "wk_history w' = wk_history w" "wk_config w' = wk_config w"
    using False by (simp_all add: w'_def insert_or_ignore_page_def)
  have ar: "archived w' = archived w" by (intro ext) (simp add: archived_def w')
  have "archive_ok w'" if ok: "archive_ok w"
    by (rule archive_okI)
      (use archive_okD [OF ok] in \<open>auto simp: w' ar split: if_splits\<close>, simp add: archived_def)
  then show ?thesis unfolding w'_def [symmetric] by (simp add: archive_goes_def archive_later_def w')
qed (simp add: insert_or_ignore_page_def archive_goes_same)

lemma configure_goes: "archive_goes w (configure_rows room editor enabled interval w)"
proof -
  define w1 where "w1 = cancel_batches room (\<lambda>b. bw_editor b \<noteq> editor \<or> \<not> enabled) w"
  define row where "row = (case hm_get (wk_config w1) room of
       None \<Rightarrow> \<lparr> wi_editor = editor, wi_enabled = enabled, wi_interval = interval, wi_revision = 0,
                 wi_reviewed_through = 0, wi_reviewed_at = None, wi_edited_at = None \<rparr>
     | Some row \<Rightarrow> row\<lparr>wi_editor := editor, wi_enabled := enabled, wi_interval := interval\<rparr>)"
  define w2 where "w2 = w1\<lparr>wk_config := hm_insert room row (wk_config w1)\<rparr>"
  have "archive_goes w w1" by (rule archive_goes_same) (simp_all add: w1_def cancel_batches_def)
  moreover have "archive_goes w1 w2"
    by (rule archive_goes_row [where row' = row and room = room])
      (simp_all add: w2_def row_def split: option.split)
  ultimately show ?thesis
    unfolding configure_rows_def Let_def w1_def [symmetric] row_def [symmetric] w2_def [symmetric]
    by (meson archive_goes_trans insert_or_ignore_goes)
qed

text \<open>A new revision of a loca: its rows in the history are new, the pages are old or archived.\<close>

lemma archive_goes_revise:
  assumes row: "hm_get (wk_config w) room = Some row"
    and cf: "wk_config w' = hm_insert room row' (wk_config w)"
    and rv: "wi_revision row' = Suc (wi_revision row)" "wi_reviewed_through row \<le> wi_reviewed_through row'"
    and old: "\<And>rm slug i. rm \<noteq> room \<or> i \<noteq> Suc (wi_revision row) \<Longrightarrow>
           hm_get (wk_history w') (rm, slug, i) = hm_get (wk_history w) (rm, slug, i)"
    and new: "hm_get (wk_history w') (room, slug0, Suc (wi_revision row)) = Some hr0"
    and pages: "\<And>rm slug pg. hm_get (wk_pages w') (rm, slug) = Some pg \<Longrightarrow>
           hm_get (wk_pages w) (rm, slug) = Some pg \<or> archived w' rm slug pg"
  shows "archive_goes w w'"
proof -
  have "archive_ok w' \<and> archive_later w w'" if ok: "archive_ok w"
  proof
    have persist: "hm_get (wk_history w') (rm, slug, i) = Some hr"
      if h: "hm_get (wk_history w) (rm, slug, i) = Some hr" for rm slug i hr
    proof -
      from archive_okD(3) [OF ok h] row have "rm \<noteq> room \<or> i \<noteq> Suc (wi_revision row)" by auto
      with h old show ?thesis by simp
    qed
    then show later: "archive_later w w'" using row rv by (auto simp: archive_later_def cf)
    show "archive_ok w'"
    proof (rule archive_okI)
      fix rm slug pg
      assume "hm_get (wk_pages w') (rm, slug) = Some pg"
      then have "archived w rm slug pg \<or> archived w' rm slug pg" using pages archive_okD(1) [OF ok] by blast
      then show "archived w' rm slug pg" using persist by (auto simp: archived_def split: if_splits)
    next
      fix rm slug i hr
      assume h: "hm_get (wk_history w') (rm, slug, i) = Some hr"
      show "0 < i \<and> (\<exists>r. hm_get (wk_config w') rm = Some r \<and> i \<le> wi_revision r)"
      proof (cases "rm = room \<and> i = Suc (wi_revision row)")
        case True
        then show ?thesis by (simp add: cf rv)
      next
        case False
        then have h': "hm_get (wk_history w) (rm, slug, i) = Some hr" using h old by auto
        from archive_okD(3) [OF ok this] obtain r where "hm_get (wk_config w) rm = Some r" "i \<le> wi_revision r"
          by blast
        then show ?thesis
          using archive_okD(2) [OF ok h'] later unfolding archive_later_def by (meson le_trans)
      qed
    next
      fix rm r i
      assume r: "hm_get (wk_config w') rm = Some r" "0 < i" "i \<le> wi_revision r"
      show "\<exists>slug hr. hm_get (wk_history w') (rm, slug, i) = Some hr"
      proof (cases "rm = room \<and> i = Suc (wi_revision row)")
        case True
        then show ?thesis using new by blast
      next
        case False
        then obtain q where "hm_get (wk_config w) rm = Some q" "i \<le> wi_revision q"
          using r row rv by (auto simp: cf split: if_splits)
        from archive_okD(4) [OF ok this(1) r(2) this(2)] show ?thesis using persist by blast
      qed
    qed
  qed
  then show ?thesis by (simp add: archive_goes_def)
qed

subsection \<open>Publication and removal\<close>

lemma write_pages_frame [simp]:
  "wk_config (fold (write_page room prin reason at nxt) ps w) = wk_config w"
  "wk_batches (fold (write_page room prin reason at nxt) ps w) = wk_batches w"
  "wk_leases (fold (write_page room prin reason at nxt) ps w) = wk_leases w"
  "wk_receipts (fold (write_page room prin reason at nxt) ps w) = wk_receipts w"
  by (induction ps arbitrary: w) (simp_all add: write_page_def)

lemma write_pages_get:
  assumes "distinct (map wp_slug ps)"
  shows "hm_get (wk_pages (fold (write_page room prin reason at nxt) ps w)) (rm, slug)
     = (case if rm = room then find (\<lambda>p. wp_slug p = slug) ps else None of
          Some p \<Rightarrow> Some \<lparr> gw_title = wp_title p, gw_body = wp_body p, gw_sources = wp_sources p, gw_revision = nxt \<rparr>
        | None \<Rightarrow> hm_get (wk_pages w) (rm, slug))"
    and "hm_get (wk_history (fold (write_page room prin reason at nxt) ps w)) (rm, slug, i)
     = (case if rm = room \<and> i = nxt then find (\<lambda>p. wp_slug p = slug) ps else None of
          Some p \<Rightarrow> Some \<lparr> hw_title = wp_title p, hw_body = wp_body p, hw_sources = wp_sources p, hw_editor = prin,
            hw_reason = reason, hw_edited_at = at \<rparr>
        | None \<Rightarrow> hm_get (wk_history w) (rm, slug, i))"
proof -
  have found: "slug \<in> wp_slug ` set ps" if "find (\<lambda>p. wp_slug p = slug) ps = Some p" for ps p
    using that by (auto simp: find_Some_iff)
  show "hm_get (wk_pages (fold (write_page room prin reason at nxt) ps w)) (rm, slug)
     = (case if rm = room then find (\<lambda>p. wp_slug p = slug) ps else None of
          Some p \<Rightarrow> Some \<lparr> gw_title = wp_title p, gw_body = wp_body p, gw_sources = wp_sources p, gw_revision = nxt \<rparr>
        | None \<Rightarrow> hm_get (wk_pages w) (rm, slug))"
    using assms by (induction ps arbitrary: w) (auto simp: write_page_def dest!: found split: option.split)
  show "hm_get (wk_history (fold (write_page room prin reason at nxt) ps w)) (rm, slug, i)
     = (case if rm = room \<and> i = nxt then find (\<lambda>p. wp_slug p = slug) ps else None of
          Some p \<Rightarrow> Some \<lparr> hw_title = wp_title p, hw_body = wp_body p, hw_sources = wp_sources p, hw_editor = prin,
            hw_reason = reason, hw_edited_at = at \<rparr>
        | None \<Rightarrow> hm_get (wk_history w) (rm, slug, i))"
    using assms by (induction ps arbitrary: w) (auto simp: write_page_def dest!: found split: option.split)
qed

lemma pages_ok_distinct:
  "pages_ok d room through seen ps \<Longrightarrow> distinct (map wp_slug ps) \<and> wp_slug ` set ps \<inter> set seen = {}"
  by (induction d room through seen ps rule: pages_ok.induct) auto

lemma settle_frame [simp]:
  "wk_pages (settle_batches room prin upd lease human changed nxt w) = wk_pages w"
  "wk_history (settle_batches room prin upd lease human changed nxt w) = wk_history w"
  "wk_config (settle_batches room prin upd lease human changed nxt w) = wk_config w"
  "wk_leases (settle_batches room prin upd lease human changed nxt w) = wk_leases w"
  by (simp_all add: settle_batches_def cancel_batches_def split: option.split)

text \<open>What an accepted update did.\<close>

lemma publish_rows_okD:
  assumes "publish_rows room prin upd at lease human row d = Ok (nxt, d')"
  obtains changed row' w' where
    "wc_expected_revision upd = wi_revision row" "wi_reviewed_through row \<le> wc_reviewed_through upd"
    and "pages_ok d room (wc_reviewed_through upd) [] (wc_pages upd)"
    and "changed = filter (\<lambda>page. \<not> page_unchanged (db_wiki d) room page) (wc_pages upd)"
    and "nxt = wi_revision row + (if changed = [] then 0 else 1)"
    and "row' = row\<lparr>wi_revision := nxt, wi_reviewed_through := wc_reviewed_through upd,
           wi_reviewed_at := (if human then wi_reviewed_at row else Some at),
           wi_edited_at := (if changed \<noteq> [] then Some at else wi_edited_at row)\<rparr>"
    and "w' = settle_batches room prin upd lease human (changed \<noteq> []) nxt
           ((fold (write_page room prin (wc_reason upd) at nxt) changed (db_wiki d))
              \<lparr>wk_config := hm_insert room row' (wk_config (db_wiki d))\<rparr>)"
    and "d' = d\<lparr>db_wiki := w'\<rparr>"
proof -
  define changed where "changed = filter (\<lambda>page. \<not> page_unchanged (db_wiki d) room page) (wc_pages upd)"
  define n where "n = wi_revision row + (if changed = [] then 0 else 1)"
  show ?thesis
    using assms unfolding publish_rows_def Let_def changed_def [symmetric] n_def [symmetric]
    by (intro that [OF _ _ _ changed_def _ refl refl, folded n_def]) (auto simp: set_wiki_def split: if_splits)
qed

lemma publish_archive:
  assumes pub: "publish_rows room prin upd at lease human row d = Ok (nxt, d')"
    and row: "hm_get (wk_config (db_wiki d)) room = Some row"
  shows "archive_goes (db_wiki d) (db_wiki d')"
  using pub
proof (cases rule: publish_rows_okD)
  case published: (1 changed row' w')
  have w': "db_wiki d' = w'" using published(8) by simp
  note w' = w' [unfolded published(7)]
  show ?thesis
  proof (cases "changed = []")
    case True
    show ?thesis
      by (rule archive_goes_row [where row' = row' and room = room])
        (use published row True in \<open>simp_all add: w'\<close>)
  next
    case False
    have dist: "distinct (map wp_slug changed)"
      using pages_ok_distinct [OF published(3)] by (simp add: published(4) distinct_map_filter)
    have nxt: "nxt = Suc (wi_revision row)" using published(5) False by simp
    obtain p ps where ps: "changed = p # ps" using False by (cases changed) auto
    show ?thesis
    proof (rule archive_goes_revise [OF row, where row' = row' and ?slug0.0 = "wp_slug p"])
      show "wk_config (db_wiki d') = hm_insert room row' (wk_config (db_wiki d))" by (simp add: w')
      show "hm_get (wk_history (db_wiki d')) (rm, slug, i) = hm_get (wk_history (db_wiki d)) (rm, slug, i)"
        if "rm \<noteq> room \<or> i \<noteq> Suc (wi_revision row)" for rm slug i
        using that by (auto simp: w' write_pages_get(2) [OF dist] nxt)
      show "hm_get (wk_history (db_wiki d')) (room, wp_slug p, Suc (wi_revision row))
          = Some \<lparr> hw_title = wp_title p, hw_body = wp_body p, hw_sources = wp_sources p, hw_editor = prin,
              hw_reason = wc_reason upd, hw_edited_at = at \<rparr>"
        using write_pages_get(2) [OF dist, of room prin "wc_reason upd" at nxt "db_wiki d" room "wp_slug p" nxt]
        by (simp add: w' nxt) (simp add: ps)
      show "hm_get (wk_pages (db_wiki d)) (rm, slug) = Some pg \<or> archived (db_wiki d') rm slug pg"
        if "hm_get (wk_pages (db_wiki d')) (rm, slug) = Some pg" for rm slug pg
        using that by (auto simp: w' archived_def write_pages_get [OF dist] nxt split: option.splits if_splits)
    qed (use published nxt in simp_all)
  qed
qed

lemma remove_rows_okD:
  assumes "remove_page_rows room prin slug removal at d = Ok (nxt, d')"
  obtains row page where "hm_get (wk_config (db_wiki d)) room = Some row" "wi_editor row = prin"
    and "wi_revision row = wd_expected_revision removal" "nxt = Suc (wi_revision row)"
    and "hm_get (wk_pages (db_wiki d)) (room, slug) = Some page"
    and "db_wiki d' = cancel_batches room (\<lambda>_. True) ((db_wiki d)\<lparr>
           wk_history := hm_insert (room, slug, nxt)
             \<lparr> hw_title = gw_title page, hw_body = gw_body page, hw_sources = gw_sources page,
               hw_editor = prin, hw_reason = ''page removed: '' @ wd_reason removal,
               hw_edited_at = at \<rparr> (wk_history (db_wiki d)),
           wk_pages := hm_remove (room, slug) (wk_pages (db_wiki d)),
           wk_config := hm_insert room (row\<lparr>wi_revision := nxt, wi_edited_at := Some at\<rparr>)
             (wk_config (db_wiki d))\<rparr>)"
  using assms by (auto simp: remove_page_rows_def Let_def set_wiki_def split: option.splits if_splits)

lemma cancel_frame [simp]:
  "wk_pages (cancel_batches room P w) = wk_pages w" "wk_history (cancel_batches room P w) = wk_history w"
  "wk_config (cancel_batches room P w) = wk_config w" "wk_leases (cancel_batches room P w) = wk_leases w"
  "wk_receipts (cancel_batches room P w) = wk_receipts w"
  by (simp_all add: cancel_batches_def)

lemma remove_archive:
  assumes "remove_page_rows room prin slug removal at d = Ok (nxt, d')"
  shows "archive_goes (db_wiki d) (db_wiki d')"
  using assms
proof (cases rule: remove_rows_okD)
  case removed: (1 row page)
  show ?thesis
    by (rule archive_goes_revise [OF removed(1), where ?slug0.0 = slug
          and row' = "row\<lparr>wi_revision := nxt, wi_edited_at := Some at\<rparr>"])
      (use removed in \<open>auto split: if_splits\<close>)
qed

end
