(* ===== verification/Wiki_Review_Laws.thy ===== *)
theory Wiki_Review_Laws
  imports Wiki_Laws
begin

text \<open>
  The reviews of the wiki: the invariant of the batches, the leases and the receipts, kept
  by every transaction, and the contract of an operation of the wiki that the hub relies on.
\<close>

subsection \<open>The invariant\<close>

definition batch_ok :: "wiki_tables \<Rightarrow> u64 \<Rightarrow> wiki_batch_row \<Rightarrow> bool" where
  "batch_ok w i b = (bw_attempts b \<le> 3 \<and> bw_epoch b = bw_attempts b
     \<and> (bw_status b = ''queued'' \<longrightarrow> bw_attempts b = 0)
     \<and> (bw_status b = ''running'' \<longrightarrow>
          (\<exists>st. hm_get (wk_leases w) (i, bw_epoch b) = Some st \<and> bw_expires b \<le> st + MAX_WORKER_MS))
     \<and> (bw_status b = ''completed'' \<longrightarrow> hm_get (wk_receipts w) (bw_room b, i, bw_epoch b) \<noteq> None))"

definition review_ok :: "wiki_tables \<Rightarrow> bool" where
  "review_ok w = (hm_ok (wk_batches w)
   \<and> (\<forall>i b. hm_get (wk_batches w) i = Some b \<longrightarrow> batch_ok w i b)
   \<and> (\<forall>i j b c. hm_get (wk_batches w) i = Some b \<and> hm_get (wk_batches w) j = Some c \<and> wiki_pending b
        \<and> wiki_pending c \<and> bw_room b = bw_room c \<longrightarrow> i = j)
   \<and> (\<forall>i e st. hm_get (wk_leases w) (i, e) = Some st \<longrightarrow>
        (\<exists>b. hm_get (wk_batches w) i = Some b \<and> e \<le> bw_epoch b))
   \<and> (\<forall>rm i e rc. hm_get (wk_receipts w) (rm, i, e) = Some rc \<longrightarrow>
        (\<exists>b. hm_get (wk_batches w) i = Some b \<and> bw_room b = rm \<and> bw_status b = ''completed'' \<and> bw_epoch b = e)))"

lemma review_okD:
  assumes "review_ok w"
  shows "hm_ok (wk_batches w)"
    and "hm_get (wk_batches w) i = Some b \<Longrightarrow> batch_ok w i b"
    and "hm_get (wk_batches w) i = Some b \<Longrightarrow> hm_get (wk_batches w) j = Some c \<Longrightarrow> wiki_pending b \<Longrightarrow>
           wiki_pending c \<Longrightarrow> bw_room b = bw_room c \<Longrightarrow> i = j"
    and "hm_get (wk_leases w) (i, e) = Some st \<Longrightarrow> \<exists>b. hm_get (wk_batches w) i = Some b \<and> e \<le> bw_epoch b"
    and "hm_get (wk_receipts w) (rm, i, e) = Some rc \<Longrightarrow>
           \<exists>b. hm_get (wk_batches w) i = Some b \<and> bw_room b = rm \<and> bw_status b = ''completed'' \<and> bw_epoch b = e"
  using assms unfolding review_ok_def by blast+

lemma review_okI:
  assumes "hm_ok (wk_batches w)"
    and "\<And>i b. hm_get (wk_batches w) i = Some b \<Longrightarrow> batch_ok w i b"
    and "\<And>i j b c. hm_get (wk_batches w) i = Some b \<Longrightarrow> hm_get (wk_batches w) j = Some c \<Longrightarrow> wiki_pending b \<Longrightarrow>
           wiki_pending c \<Longrightarrow> bw_room b = bw_room c \<Longrightarrow> i = j"
    and "\<And>i e st. hm_get (wk_leases w) (i, e) = Some st \<Longrightarrow> \<exists>b. hm_get (wk_batches w) i = Some b \<and> e \<le> bw_epoch b"
    and "\<And>rm i e rc. hm_get (wk_receipts w) (rm, i, e) = Some rc \<Longrightarrow>
           \<exists>b. hm_get (wk_batches w) i = Some b \<and> bw_room b = rm \<and> bw_status b = ''completed'' \<and> bw_epoch b = e"
  shows "review_ok w"
  unfolding review_ok_def using assms by blast

text \<open>Receipts stay, and a batch keeps its window; what is not pending any more does not change.\<close>

definition batch_later :: "wiki_batch_row \<Rightarrow> wiki_batch_row \<Rightarrow> bool" where
  "batch_later b b' = (bw_room b' = bw_room b \<and> bw_editor b' = bw_editor b \<and> bw_after b' = bw_after b
     \<and> bw_through b' = bw_through b \<and> bw_epoch b \<le> bw_epoch b' \<and> (\<not> wiki_pending b \<longrightarrow> b' = b))"

definition review_later :: "wiki_tables \<Rightarrow> wiki_tables \<Rightarrow> bool" where
  "review_later w w' = (
     (\<forall>k rc. hm_get (wk_receipts w) k = Some rc \<longrightarrow> hm_get (wk_receipts w') k = Some rc)
   \<and> (\<forall>i b. hm_get (wk_batches w) i = Some b \<longrightarrow> (\<exists>b'. hm_get (wk_batches w') i = Some b' \<and> batch_later b b')))"

definition review_goes :: "wiki_tables \<Rightarrow> wiki_tables \<Rightarrow> bool" where
  "review_goes w w' = (review_ok w \<longrightarrow> review_ok w' \<and> review_later w w')"

lemma batch_later_refl [simp]: "batch_later b b"
  by (simp add: batch_later_def)

lemma batch_later_trans: "batch_later a b \<Longrightarrow> batch_later b c \<Longrightarrow> batch_later a c"
  by (auto simp: batch_later_def)

lemma review_later_trans: "review_later w w1 \<Longrightarrow> review_later w1 w2 \<Longrightarrow> review_later w w2"
  unfolding review_later_def by (meson batch_later_trans)

lemma review_goes_trans: "review_goes w w1 \<Longrightarrow> review_goes w1 w2 \<Longrightarrow> review_goes w w2"
  by (auto simp: review_goes_def intro: review_later_trans)

lemma review_goes_cong:
  assumes "wk_batches w' = wk_batches w" "wk_leases w' = wk_leases w" "wk_receipts w' = wk_receipts w"
  shows "review_goes w w'" "review_goes v w = review_goes v w'"
proof -
  have b: "batch_ok w' = batch_ok w" by (intro ext) (simp add: batch_ok_def assms)
  show "review_goes w w'" using assms b by (auto simp: review_goes_def review_ok_def review_later_def)
  show "review_goes v w = review_goes v w'"
    unfolding review_goes_def review_ok_def review_later_def by (simp add: assms b)
qed

text \<open>The batches evolve one by one.\<close>

lemma review_goes_map:
  assumes bs: "wk_batches w' = hm_map f (wk_batches w)" and rs: "wk_receipts w' = wk_receipts w"
    and leases: "\<And>i e st. review_ok w \<Longrightarrow> hm_get (wk_leases w') (i, e) = Some st \<Longrightarrow>
           \<exists>b. hm_get (wk_batches w) i = Some b \<and> e \<le> bw_epoch (f i b)"
    and each: "\<And>i b. review_ok w \<Longrightarrow> hm_get (wk_batches w) i = Some b \<Longrightarrow> batch_ok w i b \<Longrightarrow>
           batch_ok w' i (f i b) \<and> batch_later b (f i b) \<and> (wiki_pending (f i b) \<longrightarrow> wiki_pending b)"
  shows "review_goes w w'"
proof -
  have get: "hm_get (wk_batches w') i = Some b' \<longleftrightarrow> (\<exists>b. hm_get (wk_batches w) i = Some b \<and> b' = f i b)" for i b'
    by (auto simp: bs)
  have "review_ok w' \<and> review_later w w'" if ok: "review_ok w"
  proof
    note each = each [OF ok _ review_okD(2) [OF ok]]
    show "review_later w w'"
      unfolding review_later_def using each by (auto simp: rs get)
    show "review_ok w'"
    proof (rule review_okI)
      show "hm_ok (wk_batches w')" using review_okD(1) [OF ok] by (simp add: bs)
    next
      fix i b'
      assume "hm_get (wk_batches w') i = Some b'"
      then show "batch_ok w' i b'" using each by (auto simp: get)
    next
      fix i j b c
      assume "hm_get (wk_batches w') i = Some b" "hm_get (wk_batches w') j = Some c" "wiki_pending b"
        "wiki_pending c" "bw_room b = bw_room c"
      then obtain b0 c0 where bc: "hm_get (wk_batches w) i = Some b0" "hm_get (wk_batches w) j = Some c0"
        "b = f i b0" "c = f j c0" "wiki_pending (f i b0)" "wiki_pending (f j c0)" "bw_room (f i b0) = bw_room (f j c0)"
        unfolding get by blast
      show "i = j"
        by (rule review_okD(3) [OF ok bc(1,2)])
          (use each [OF bc(1,1)] each [OF bc(2,2)] bc(5-7) in \<open>simp_all add: batch_later_def\<close>)
    next
      fix i e st
      assume "hm_get (wk_leases w') (i, e) = Some st"
      then show "\<exists>b. hm_get (wk_batches w') i = Some b \<and> e \<le> bw_epoch b" using leases [OF ok, of i e st] by (auto simp: get)
    next
      fix rm i e rc
      assume "hm_get (wk_receipts w') (rm, i, e) = Some rc"
      then obtain b where b: "hm_get (wk_batches w) i = Some b" "bw_room b = rm" "bw_status b = ''completed''"
        "bw_epoch b = e"
        using review_okD(5) [OF ok, of rm i e rc] by (auto simp: rs)
      then have "f i b = b" using each [OF b(1) b(1)] by (simp add: batch_later_def wiki_pending_def)
      then show "\<exists>b. hm_get (wk_batches w') i = Some b \<and> bw_room b = rm \<and> bw_status b = ''completed'' \<and> bw_epoch b = e"
        using b by (auto simp: get)
    qed
  qed
  then show ?thesis by (simp add: review_goes_def)
qed

subsection \<open>The transactions\<close>

lemma cancel_review: "review_goes w (cancel_batches room P w)"
proof (rule review_goes_map)
  show "wk_batches (cancel_batches room P w) = hm_map (\<lambda>_ b.
     if bw_room b = room \<and> wiki_pending b \<and> P b then b\<lparr>bw_status := ''cancelled''\<rparr> else b) (wk_batches w)"
    by (simp add: cancel_batches_def)
  fix i e st
  assume "review_ok w" "hm_get (wk_leases (cancel_batches room P w)) (i, e) = Some st"
  then show "\<exists>b. hm_get (wk_batches w) i = Some b
      \<and> e \<le> bw_epoch (if bw_room b = room \<and> wiki_pending b \<and> P b then b\<lparr>bw_status := ''cancelled''\<rparr> else b)"
    using review_okD(4) [of w] by fastforce
qed (auto simp: batch_ok_def batch_later_def wiki_pending_def)

lemma configure_review: "review_goes w (configure_rows room editor enabled interval w)"
proof -
  have "review_goes w (cancel_batches room (\<lambda>b. bw_editor b \<noteq> editor \<or> \<not> enabled) w)" by (rule cancel_review)
  then show ?thesis
    by (rule iffD1 [OF review_goes_cong(2), rotated -1])
      (simp_all add: configure_rows_def insert_or_ignore_page_def Let_def)
qed

lemma remove_review:
  assumes "remove_page_rows room prin slug removal at d = Ok (nxt, d')"
  shows "review_goes (db_wiki d) (db_wiki d')"
  using assms
proof (cases rule: remove_rows_okD)
  case removed: (1 row page)
  show ?thesis
    unfolding removed(6) by (rule review_goes_trans [OF review_goes_cong(1) cancel_review]) simp_all
qed

lemma next_batch_fresh: "hm_get (wk_batches w) (next_batch_id w) = None"
proof -
  have "i < next_batch_id w" if "i \<in> set (hm_keys (wk_batches w))" for i
    using that by (simp add: next_batch_id_def fold_max less_Suc_eq_le)
  then show ?thesis by (metis hm_keys_iff less_irrefl not_None_eq)
qed

lemma new_batch_review:
  assumes bs: "wk_batches w' = hm_insert (next_batch_id w) b (wk_batches w)" and "wk_leases w' = wk_leases w"
    "wk_receipts w' = wk_receipts w"
    and free: "\<And>i c. hm_get (wk_batches w) i = Some c \<Longrightarrow> bw_room c = bw_room b \<Longrightarrow> \<not> wiki_pending c"
    and new: "bw_status b = ''queued''" "bw_epoch b = 0" "bw_attempts b = 0"
  shows "review_goes w w'"
proof -
  have other: "i \<noteq> next_batch_id w" if "hm_get (wk_batches w) i = Some c" for i c
    using that next_batch_fresh [of w] by auto
  have ok_cong: "batch_ok w' = batch_ok w" by (intro ext) (simp add: batch_ok_def assms(2,3))
  have "review_ok w' \<and> review_later w w'" if ok: "review_ok w"
  proof
    show "review_later w w'" using other by (fastforce simp: review_later_def assms(3) bs)
    show "review_ok w'"
    proof (rule review_okI)
      show "hm_ok (wk_batches w')" using review_okD(1) [OF ok] by (simp add: bs)
    next
      fix i c
      assume "hm_get (wk_batches w') i = Some c"
      then show "batch_ok w' i c"
        using review_okD(2) [OF ok, of i c] new
        by (cases "i = next_batch_id w") (auto simp: bs ok_cong batch_ok_def)
    next
      fix i j c e
      assume "hm_get (wk_batches w') i = Some c" "hm_get (wk_batches w') j = Some e" "wiki_pending c"
        "wiki_pending e" "bw_room c = bw_room e"
      then show "i = j" using review_okD(3) [OF ok] free by (auto simp: bs split: if_splits)
    next
      fix i e st
      assume "hm_get (wk_leases w') (i, e) = Some st"
      then obtain c where "hm_get (wk_batches w) i = Some c" "e \<le> bw_epoch c"
        using review_okD(4) [OF ok, of i e st] by (auto simp: assms(2))
      then show "\<exists>c. hm_get (wk_batches w') i = Some c \<and> e \<le> bw_epoch c" using other by (auto simp: bs)
    next
      fix rm i e rc
      assume "hm_get (wk_receipts w') (rm, i, e) = Some rc"
      then obtain c where c: "hm_get (wk_batches w) i = Some c" "bw_room c = rm" "bw_status c = ''completed''"
        "bw_epoch c = e"
        using review_okD(5) [OF ok, of rm i e rc] by (auto simp: assms(3))
      then have "hm_get (wk_batches w') i = Some c" using other by (simp add: bs)
      with c show "\<exists>c. hm_get (wk_batches w') i = Some c \<and> bw_room c = rm \<and> bw_status c = ''completed'' \<and> bw_epoch c = e"
        by blast
    qed
  qed
  then show ?thesis by (simp add: review_goes_def)
qed

lemma schedule_rows_okD:
  assumes "schedule_rows room at d = Ok (x, d')"
  obtains (idle) "\<not> x" "d' = d"
  | (queued) row inputs reason where "x" "hm_get (wk_config (db_wiki d)) room = Some row" "wi_enabled row"
      "\<not> list_ex (\<lambda>b. bw_room b = room \<and> wiki_pending b) (hm_values (wk_batches (db_wiki d)))"
      "inputs = take 1000 (wiki_sources d room (\<lambda>i. wi_reviewed_through row < i))"
      "review_due (wi_interval row) at inputs = Some reason"
      "d' = set_wiki ((db_wiki d)\<lparr>wk_batches := hm_insert (next_batch_id (db_wiki d))
         (queued_batch room row inputs reason at) (wk_batches (db_wiki d))\<rparr>) d"
proof (cases "hm_get (wk_config (db_wiki d)) room")
  case None
  with assms show ?thesis by (intro idle) (simp_all add: schedule_rows_def)
next
  case (Some row)
  define inputs where "inputs = take 1000 (wiki_sources d room (\<lambda>i. wi_reviewed_through row < i))"
  define busy where "busy = (\<not> wi_enabled row
      \<or> list_ex (\<lambda>b. bw_room b = room \<and> wiki_pending b) (hm_values (wk_batches (db_wiki d))))"
  note run = assms [unfolded schedule_rows_def Let_def Some option.case inputs_def [symmetric] busy_def [symmetric]]
  show ?thesis
  proof (cases "busy \<or> review_due (wi_interval row) at inputs = None")
    case True
    then show ?thesis using run by (intro idle) (auto split: if_splits)
  next
    case False
    then obtain reason where "review_due (wi_interval row) at inputs = Some reason" "\<not> busy" by auto
    then show ?thesis using run Some by (intro queued [OF _ _ _ _ inputs_def]) (auto simp: busy_def)
  qed
qed

lemma schedule_goes:
  assumes "schedule_rows room at d = Ok (x, d')"
  shows "review_goes (db_wiki d) (db_wiki d') \<and> archive_goes (db_wiki d) (db_wiki d')"
  using assms
proof (cases rule: schedule_rows_okD)
  case idle
  then show ?thesis by (simp add: review_goes_cong(1) archive_goes_same)
next
  case (queued row inputs reason)
  have w: "db_wiki d' = (db_wiki d)\<lparr>wk_batches := hm_insert (next_batch_id (db_wiki d))
      (queued_batch room row inputs reason at) (wk_batches (db_wiki d))\<rparr>"
    using queued(7) by (simp add: set_wiki_def)
  have free: "\<not> wiki_pending c" if "hm_get (wk_batches (db_wiki d)) i = Some c" "bw_room c = room" for i c
    using that queued(4) hm_values_get [of "wk_batches (db_wiki d)" i c] by (auto simp: list_ex_iff)
  have "review_goes (db_wiki d) (db_wiki d')"
    by (rule new_batch_review [where b = "queued_batch room row inputs reason at"])
      (use free in \<open>simp_all add: w queued_batch_def\<close>)
  then show ?thesis by (simp add: w archive_goes_same)
qed

lemma block_review: "review_goes w (block_expired room at w)"
proof (rule review_goes_map)
  show "wk_batches (block_expired room at w) = hm_map (\<lambda>_ b.
     if bw_room b = room \<and> bw_status b = ''running'' \<and> bw_expires b \<le> at \<and> bw_attempts b \<ge> 3
     then b\<lparr>bw_status := ''blocked''\<rparr> else b) (wk_batches w)"
    by (simp add: block_expired_def)
  fix i e st
  assume "review_ok w" "hm_get (wk_leases (block_expired room at w)) (i, e) = Some st"
  then show "\<exists>b. hm_get (wk_batches w) i = Some b \<and> e \<le> bw_epoch
      (if bw_room b = room \<and> bw_status b = ''running'' \<and> bw_expires b \<le> at \<and> bw_attempts b \<ge> 3
       then b\<lparr>bw_status := ''blocked''\<rparr> else b)"
    using review_okD(4) [of w i e st] by (fastforce simp: block_expired_def)
qed (auto simp: batch_ok_def batch_later_def wiki_pending_def block_expired_def)

lemma claim_rows_okD:
  assumes "claim_rows room prin at d = Ok (x, d')"
  obtains (idle) "x = None" "d' = d"
  | (none) "x = None" "d' = set_wiki (block_expired room at (db_wiki d)) d"
  | (claimed) i b w where "w = block_expired room at (db_wiki d)"
      "find (\<lambda>(_, b). batch_claimable room prin at b) (wk_batches w) = Some (i, b)"
      "hm_get (wk_leases w) (i, bw_epoch b + 1) = None"
      "x = Some \<lparr> wb_lease = \<lparr> wl_batch_id = i, wl_epoch = bw_epoch b + 1 \<rparr>, wb_room = room,
         wb_after_id = bw_after b, wb_through_id = bw_through b, wb_reason = bw_reason b,
         wb_lease_expires_at = at + LEASE_MS, wb_attempts = bw_attempts b + 1,
         wb_messages = batch_messages d room b \<rparr>"
      "d' = set_wiki (w\<lparr>wk_batches := hm_map (\<lambda>j b. if j = i then leased_row at b else b) (wk_batches w),
         wk_leases := hm_insert (i, bw_epoch b + 1) at (wk_leases w)\<rparr>) d"
proof (cases "hm_get (wk_config (db_wiki d)) room")
  case None
  with assms show ?thesis by (simp add: claim_rows_def)
next
  case (Some row)
  define w where "w = block_expired room at (db_wiki d)"
  note run = assms [unfolded claim_rows_def Let_def Some option.case w_def [symmetric]]
  have run': "(case find (\<lambda>(_, b). batch_claimable room prin at b) (wk_batches w) of
      None \<Rightarrow> x = None \<and> d' = set_wiki w d
    | Some (i, b) \<Rightarrow> hm_get (wk_leases w) (i, bw_epoch b + 1) = None
        \<and> x = Some \<lparr> wb_lease = \<lparr> wl_batch_id = i, wl_epoch = bw_epoch b + 1 \<rparr>, wb_room = room,
           wb_after_id = bw_after b, wb_through_id = bw_through b, wb_reason = bw_reason b,
           wb_lease_expires_at = at + LEASE_MS, wb_attempts = bw_attempts b + 1,
           wb_messages = batch_messages d room b \<rparr>
        \<and> d' = set_wiki (w\<lparr>wk_batches := hm_map (\<lambda>j b. if j = i then leased_row at b else b) (wk_batches w),
           wk_leases := hm_insert (i, bw_epoch b + 1) at (wk_leases w)\<rparr>) d)" if "wi_enabled row"
    using run that by (simp add: hm_contains_def split: if_splits option.splits prod.splits)
  show ?thesis
  proof (cases "wi_enabled row")
    case False
    then show ?thesis using run by (intro idle) (simp_all split: if_splits)
  next
    case True
    show ?thesis
    proof (cases "find (\<lambda>(_, b). batch_claimable room prin at b) (wk_batches w)")
      case None
      then show ?thesis using run' [OF True] by (intro none) (simp_all add: w_def)
    next
      case (Some p)
      then show ?thesis using run' [OF True] by (cases p) (rule claimed [OF w_def], auto)
    qed
  qed
qed

lemma claim_step_review:
  assumes b: "hm_get (wk_batches w) i = Some b" and few: "bw_attempts b < 3"
    and pending: "wiki_pending b"
    and new: "hm_get (wk_leases w) (i, bw_epoch b + 1) = None"
    and w': "wk_batches w' = hm_map (\<lambda>j b. if j = i then leased_row at b else b) (wk_batches w)"
      "wk_leases w' = hm_insert (i, bw_epoch b + 1) at (wk_leases w)" "wk_receipts w' = wk_receipts w"
  shows "review_goes w w'"
proof (rule review_goes_map [OF w'(1,3)])
  fix j e st
  assume ok: "review_ok w" and l: "hm_get (wk_leases w') (j, e) = Some st"
  show "\<exists>c. hm_get (wk_batches w) j = Some c \<and> e \<le> bw_epoch (if j = i then leased_row at c else c)"
  proof (cases "(j, e) = (i, bw_epoch b + 1)")
    case True
    then show ?thesis using b by (simp add: leased_row_def)
  next
    case False
    then have "hm_get (wk_leases w) (j, e) = Some st" using l by (simp add: w' split: if_splits)
    from review_okD(4) [OF ok this] show ?thesis by (auto simp: leased_row_def)
  qed
next
  fix j c
  assume c: "hm_get (wk_batches w) j = Some c" "batch_ok w j c"
  show "batch_ok w' j (if j = i then leased_row at c else c)
      \<and> batch_later c (if j = i then leased_row at c else c)
      \<and> (wiki_pending (if j = i then leased_row at c else c) \<longrightarrow> wiki_pending c)"
  proof (cases "j = i")
    case True
    then show ?thesis
      using b c few pending
      by (auto simp: batch_ok_def batch_later_def leased_row_def w' LEASE_MS_def MAX_WORKER_MS_def)
  next
    case False
    then have "batch_ok w' j c = batch_ok w j c" by (simp add: batch_ok_def w')
    with c False show ?thesis by simp
  qed
qed

lemma batch_claimable_few:
  assumes "review_ok w" and "hm_get (wk_batches (block_expired room at w)) i = Some b" "batch_claimable room prin at b"
  shows "bw_attempts b < 3" "wiki_pending b"
proof -
  obtain c where c: "hm_get (wk_batches w) i = Some c"
    "b = (if bw_room c = room \<and> bw_status c = ''running'' \<and> bw_expires c \<le> at \<and> bw_attempts c \<ge> 3
          then c\<lparr>bw_status := ''blocked''\<rparr> else c)"
    using assms(2) by (auto simp: block_expired_def)
  have "batch_ok w i c" using review_okD(2) [OF assms(1) c(1)] .
  then show "bw_attempts b < 3" "wiki_pending b"
    using assms(3) c(2) by (auto simp: batch_claimable_def batch_ok_def wiki_pending_def split: if_splits)
qed

lemma claimed_batch:
  assumes "review_ok w" "find (\<lambda>(_, b). batch_claimable room prin at b) (wk_batches (block_expired room at w)) = Some (i, b)"
  shows "hm_get (wk_batches (block_expired room at w)) i = Some b" "batch_claimable room prin at b"
proof -
  have "review_ok (block_expired room at w)" using block_review assms(1) by (auto simp: review_goes_def)
  moreover from assms(2) have "(i, b) \<in> set (wk_batches (block_expired room at w))" "batch_claimable room prin at b"
    by (auto simp: find_Some_iff) (metis nth_mem)
  ultimately show "hm_get (wk_batches (block_expired room at w)) i = Some b" "batch_claimable room prin at b"
    using review_okD(1) by (simp_all add: hm_entry_iff)
qed

lemma claim_goes:
  assumes "claim_rows room prin at d = Ok (x, d')"
  shows "review_goes (db_wiki d) (db_wiki d') \<and> archive_goes (db_wiki d) (db_wiki d')"
  using assms
proof (cases rule: claim_rows_okD)
  case idle
  then show ?thesis by (simp add: review_goes_cong(1) archive_goes_same)
next
  case none
  then have w': "db_wiki d' = block_expired room at (db_wiki d)" by (simp add: set_wiki_def)
  have "archive_goes (db_wiki d) (db_wiki d')" by (rule archive_goes_same) (simp_all add: w' block_expired_def)
  then show ?thesis by (simp add: w' block_review)
next
  case (claimed i b w)
  have "review_goes (db_wiki d) (db_wiki d')"
    unfolding review_goes_def
  proof
    assume ok: "review_ok (db_wiki d)"
    note b = claimed_batch [OF ok claimed(2) [unfolded claimed(1)]]
    have "review_goes w (db_wiki d')"
      by (rule claim_step_review [OF b(1) batch_claimable_few [OF ok b] claimed(3) [unfolded claimed(1)],
            folded claimed(1)]) (simp_all add: claimed(5) set_wiki_def)
    with block_review have "review_goes (db_wiki d) (db_wiki d')"
      unfolding claimed(1) by (rule review_goes_trans)
    then show "review_ok (db_wiki d') \<and> review_later (db_wiki d) (db_wiki d')"
      using ok by (simp add: review_goes_def)
  qed
  moreover have "archive_goes (db_wiki d) (db_wiki d')"
    by (rule archive_goes_same) (simp_all add: claimed(1,5) set_wiki_def block_expired_def)
  ultimately show ?thesis ..
qed

lemma renew_rows_okD:
  assumes "renew_rows room prin lease at d = Ok (expires, d')"
  obtains started b where "lease_valid (db_wiki d) room prin lease at"
    and "hm_get (wk_leases (db_wiki d)) (wl_batch_id lease, wl_epoch lease) = Some started"
    and "hm_get (wk_batches (db_wiki d)) (wl_batch_id lease) = Some b"
    and "expires = min (max (bw_expires b) (at + LEASE_MS)) (started + MAX_WORKER_MS)" "\<not> expires \<le> at"
    and "d' = set_wiki ((db_wiki d)\<lparr>wk_batches := hm_map (\<lambda>j b.
           if j = wl_batch_id lease then b\<lparr>bw_expires := expires\<rparr> else b) (wk_batches (db_wiki d))\<rparr>) d"
  using assms by (auto simp: renew_rows_def Let_def split: option.splits if_splits)

lemma renew_goes:
  assumes "renew_rows room prin lease at d = Ok (expires, d')"
  shows "review_goes (db_wiki d) (db_wiki d') \<and> archive_goes (db_wiki d) (db_wiki d')"
  using assms
proof (cases rule: renew_rows_okD)
  case renewed: (1 started b)
  define w where "w = db_wiki d"
  have w': "db_wiki d' = w\<lparr>wk_batches := hm_map (\<lambda>j b.
      if j = wl_batch_id lease then b\<lparr>bw_expires := expires\<rparr> else b) (wk_batches w)\<rparr>"
    using renewed(6) by (simp add: set_wiki_def w_def)
  have run: "bw_status b = ''running''" "bw_epoch b = wl_epoch lease"
    using renewed(1,3) by (auto simp: lease_valid_def)
  have "expires \<le> started + MAX_WORKER_MS" using renewed(4) by simp
  note bound = this renewed(2,3) [folded w_def] run
  have "review_goes w (db_wiki d')"
  proof (rule review_goes_map)
    show "wk_batches (db_wiki d') = hm_map (\<lambda>j b.
        if j = wl_batch_id lease then b\<lparr>bw_expires := expires\<rparr> else b) (wk_batches w)" by (simp add: w')
    show "wk_receipts (db_wiki d') = wk_receipts w" by (simp add: w')
  next
    fix i e st
    assume "review_ok w" "hm_get (wk_leases (db_wiki d')) (i, e) = Some st"
    then show "\<exists>b. hm_get (wk_batches w) i = Some b
        \<and> e \<le> bw_epoch (if i = wl_batch_id lease then b\<lparr>bw_expires := expires\<rparr> else b)"
      using review_okD(4) [of w i e st] by (fastforce simp: w')
  next
    fix i c
    assume c: "hm_get (wk_batches w) i = Some c" "batch_ok w i c"
    have "batch_ok (db_wiki d') = batch_ok w" by (intro ext) (simp add: batch_ok_def w')
    then show "batch_ok (db_wiki d') i (if i = wl_batch_id lease then c\<lparr>bw_expires := expires\<rparr> else c)
        \<and> batch_later c (if i = wl_batch_id lease then c\<lparr>bw_expires := expires\<rparr> else c)
        \<and> (wiki_pending (if i = wl_batch_id lease then c\<lparr>bw_expires := expires\<rparr> else c) \<longrightarrow> wiki_pending c)"
      using c bound
      by (cases "i = wl_batch_id lease") (simp add: batch_ok_def batch_later_def wiki_pending_def, simp)
  qed
  moreover have "archive_goes w (db_wiki d')" by (rule archive_goes_same) (simp_all add: w')
  ultimately show ?thesis by (simp add: w_def)
qed

subsection \<open>Publication\<close>

text \<open>The fence lets a worker through only while his lease is the last one of a running batch.\<close>

lemma lease_fence_freshD:
  assumes "lease_fence w room prin upd cursor at l = Ok None"
  obtains b where "hm_get (wk_receipts w) (room, wl_batch_id l, wl_epoch l) = None"
    "hm_get (wk_batches w) (wl_batch_id l) = Some b" "lease_valid w room prin l at"
    "bw_epoch b = wl_epoch l" "bw_room b = room" "bw_editor b = prin" "bw_status b = ''running''" "at < bw_expires b"
    "cursor = bw_after b" "wc_reviewed_through upd = bw_through b"
  using assms by (auto simp: lease_fence_def lease_valid_def split: option.splits if_splits)

lemma lease_fence_replayD:
  assumes "lease_fence w room prin upd cursor at l = Ok (Some rv)"
  obtains rc where "hm_get (wk_receipts w) (room, wl_batch_id l, wl_epoch l) = Some rc"
    "rw_editor rc = prin" "rw_request rc = upd" "rw_revision rc = rv"
  using assms by (auto simp: lease_fence_def split: option.splits if_splits)

lemma complete_review:
  assumes b: "hm_get (wk_batches w) (wl_batch_id l) = Some b" "bw_status b = ''running''" "bw_epoch b = wl_epoch l"
      "bw_room b = room"
    and none: "hm_get (wk_receipts w) (room, wl_batch_id l, wl_epoch l) = None"
    and w': "wk_receipts w' = hm_insert (room, wl_batch_id l, wl_epoch l) rc (wk_receipts w)"
      "wk_batches w' = hm_map (\<lambda>i b. if i = wl_batch_id l then b\<lparr>bw_status := ''completed''\<rparr> else b) (wk_batches w)"
      "wk_leases w' = wk_leases w"
  shows "review_goes w w'"
proof -
  define i where "i = wl_batch_id l"
  define b' where "b' = b\<lparr>bw_status := ''completed''\<rparr>"
  have get: "hm_get (wk_batches w') j = (if j = i then Some b' else hm_get (wk_batches w) j)" for j
    using b(1) by (cases "hm_get (wk_batches w) j") (auto simp: w' i_def b'_def)
  have rcs: "hm_get (wk_receipts w') k = (if k = (room, i, wl_epoch l) then Some rc else hm_get (wk_receipts w) k)" for k
    by (simp add: w' i_def)
  have "review_ok w' \<and> review_later w w'" if ok: "review_ok w"
  proof
    have later: "batch_later b b'" using b(2) by (simp add: batch_later_def b'_def wiki_pending_def)
    show "review_later w w'"
      using none b(1) later by (auto simp: review_later_def get rcs i_def)
    have bok: "batch_ok w i b" using review_okD(2) [OF ok] b(1) by (simp add: i_def)
    show "review_ok w'"
    proof (rule review_okI)
      show "hm_ok (wk_batches w')" using review_okD(1) [OF ok] by (simp add: w')
    next
      fix j c
      assume "hm_get (wk_batches w') j = Some c"
      then show "batch_ok w' j c"
        using review_okD(2) [OF ok, of j c] bok b
        by (auto simp: get rcs batch_ok_def b'_def w'(3) split: if_splits)
    next
      fix j k c e
      assume "hm_get (wk_batches w') j = Some c" "hm_get (wk_batches w') k = Some e" "wiki_pending c"
        "wiki_pending e" "bw_room c = bw_room e"
      then show "j = k"
        using review_okD(3) [OF ok, of j c k e] by (auto simp: get b'_def wiki_pending_def split: if_splits)
    next
      fix j e st
      assume "hm_get (wk_leases w') (j, e) = Some st"
      then show "\<exists>c. hm_get (wk_batches w') j = Some c \<and> e \<le> bw_epoch c"
        using review_okD(4) [OF ok, of j e st] b(1) by (auto simp: w'(3) get b'_def i_def)
    next
      fix rm j e r
      assume "hm_get (wk_receipts w') (rm, j, e) = Some r"
      then show "\<exists>c. hm_get (wk_batches w') j = Some c \<and> bw_room c = rm \<and> bw_status c = ''completed'' \<and> bw_epoch c = e"
        using review_okD(5) [OF ok, of rm j e r] b by (auto simp: get rcs b'_def i_def split: if_splits)
    qed
  qed
  then show ?thesis by (simp add: review_goes_def)
qed

lemma commit_rows_okD:
  assumes "commit_rows room prin upd at lease human d = Ok (nxt, d')"
  obtains (replayed) l rc row where "lease = Some l" "\<not> human" "d' = d"
      "hm_get (wk_config (db_wiki d)) room = Some row" "wi_editor row = prin"
      "hm_get (wk_receipts (db_wiki d)) (room, wl_batch_id l, wl_epoch l) = Some rc"
      "rw_editor rc = prin" "rw_request rc = upd" "rw_revision rc = nxt"
  | (fresh) row where "hm_get (wk_config (db_wiki d)) room = Some row" "human \<or> wi_editor row = prin"
      "human \<longrightarrow> lease = None \<and> wc_reviewed_through upd = wi_reviewed_through row"
      "\<And>l. lease = Some l \<Longrightarrow>
         lease_fence (db_wiki d) room prin upd (wi_reviewed_through row) at l = Ok None"
      "publish_rows room prin upd at lease human row d = Ok (nxt, d')"
  using assms
  by (auto simp: commit_rows_def split: option.splits if_splits sum.splits elim!: lease_fence_replayD)

lemma commit_goes:
  assumes "commit_rows room prin upd at lease human d = Ok (nxt, d')"
  shows "review_goes (db_wiki d) (db_wiki d') \<and> archive_goes (db_wiki d) (db_wiki d')"
  using assms
proof (cases rule: commit_rows_okD)
  case (replayed l rc)
  then show ?thesis by (simp add: review_goes_cong(1) archive_goes_same)
next
  case (fresh row)
  have "review_goes (db_wiki d) (db_wiki d')"
    using fresh(5)
  proof (cases rule: publish_rows_okD)
    case published: (1 changed row' w')
    define w0 where "w0 = (fold (write_page room prin (wc_reason upd) at nxt) changed (db_wiki d))
        \<lparr>wk_config := hm_insert room row' (wk_config (db_wiki d))\<rparr>"
    have w': "db_wiki d' = settle_batches room prin upd lease human (changed \<noteq> []) nxt w0"
      using published(7,8) by (simp add: w0_def)
    have w0: "review_goes (db_wiki d) w0" by (rule review_goes_cong) (simp_all add: w0_def)
    show ?thesis
    proof (cases lease)
      case None
      have "review_goes w0 (db_wiki d')"
        by (simp add: w' settle_batches_def None cancel_review review_goes_cong(1))
      with w0 show ?thesis by (rule review_goes_trans)
    next
      case (Some l)
      from fresh(4) [OF Some] show ?thesis
      proof (cases rule: lease_fence_freshD)
        case (1 b)
        have "review_goes w0 (db_wiki d')"
          by (rule complete_review [where b = b and l = l and room = room and
                rc = "\<lparr> rw_editor = prin, rw_request = upd, rw_revision = nxt \<rparr>"])
            (use 1 in \<open>simp_all add: w0_def w' settle_batches_def Some\<close>)
        with w0 show ?thesis by (rule review_goes_trans)
      qed
    qed
  qed
  then show ?thesis using publish_archive [OF fresh(5,1)] by simp
qed

end
