(* ===== verification/Wiki_System.thy ===== *)
theory Wiki_System
  imports Wiki_Review_Laws Access_Laws
begin

text \<open>
  The wiki as a system: the contract each of its operations keeps, the handlers and the
  periodic tick built on them, and the steps of the building as far as the wiki sees them.
\<close>

subsection \<open>The contract of an operation\<close>

definition wiki_goes :: "wiki_tables \<Rightarrow> wiki_tables \<Rightarrow> bool" where
  "wiki_goes w w' = (review_goes w w' \<and> archive_goes w w')"

definition h_wiki :: "hub \<Rightarrow> wiki_tables option" where
  "h_wiki h = map_option db_wiki (sto_conn (h_store h))"

definition hub_goes :: "hub \<Rightarrow> hub \<Rightarrow> bool" where
  "hub_goes h h' = rel_option wiki_goes (h_wiki h) (h_wiki h')"

lemma wiki_goes_refl [simp]: "wiki_goes w w"
  by (simp add: wiki_goes_def review_goes_cong(1) archive_goes_same)

lemma wiki_goes_trans: "wiki_goes a b \<Longrightarrow> wiki_goes b c \<Longrightarrow> wiki_goes a c"
  unfolding wiki_goes_def using review_goes_trans archive_goes_trans by blast

lemma hub_goes_same: "h_wiki h' = h_wiki h \<Longrightarrow> hub_goes h h'"
  by (cases "h_wiki h") (simp_all add: hub_goes_def)

lemma hub_goes_trans: "hub_goes a b \<Longrightarrow> hub_goes b c \<Longrightarrow> hub_goes a c"
  unfolding hub_goes_def by (cases "h_wiki a"; cases "h_wiki b"; cases "h_wiki c") (auto intro: wiki_goes_trans)

locale wiki_operation =
  fixes op :: "store \<Rightarrow> (WikiError, 'a) result \<times> store"
  assumes refusal: "op s = (Err e, s') \<Longrightarrow> sto_conn s' = sto_conn s"
    and success: "op s = (Ok x, s') \<Longrightarrow> sto_conn s = Some d \<Longrightarrow> \<exists>d'. sto_conn s' = Some d' \<and> wiki_goes (db_wiki d) (db_wiki d')"
    and offline: "sto_conn s = None \<Longrightarrow> \<exists>e. op s = (Err e, s)"
begin

lemma goes: "hub_goes h (snd (with_store op h))"
proof -
  obtain r s' where op: "op (h_store h) = (r, s')" by fastforce
  then have h: "snd (with_store op h) = h\<lparr>h_store := s'\<rparr>" by (simp add: with_store_def)
  show ?thesis
  proof (cases r)
    case (Inl e)
    then show ?thesis using refusal op by (intro hub_goes_same) (simp add: h h_wiki_def)
  next
    case (Inr x)
    show ?thesis
    proof (cases "sto_conn (h_store h)")
      case None
      then show ?thesis using offline [of "h_store h"] op Inr by auto
    next
      case (Some d)
      then show ?thesis using success op Inr by (fastforce simp: h h_wiki_def hub_goes_def)
    qed
  qed
qed

lemma refused_unchanged: "with_store op h = (Err e, h') \<Longrightarrow> h_wiki h' = h_wiki h"
  by (auto simp: h_wiki_def elim!: with_storeE dest!: refusal)

end

lemma txn_operation:
  assumes "\<And>d x d'. body d = Ok (x, d') \<Longrightarrow> wiki_goes (db_wiki d) (db_wiki d')"
  shows "wiki_operation (wiki_txn body)"
proof
  fix s s' e
  assume "wiki_txn body s = (Err e, s')"
  then show "sto_conn s' = sto_conn s" unfolding wiki_txn_def by (rule answer_txn_errD)
next
  fix s s' x d
  assume "wiki_txn body s = (Ok x, s')" "sto_conn s = Some d"
  then show "\<exists>d'. sto_conn s' = Some d' \<and> wiki_goes (db_wiki d) (db_wiki d')"
    unfolding wiki_txn_def using assms by (fastforce dest!: answer_txn_okD)
qed (simp add: wiki_txn_def answer_txn_def)

text \<open>An operation that checks its input before it opens the transaction.\<close>

lemma checked_operation:
  assumes "wiki_operation op"
  shows "wiki_operation (\<lambda>s. if bad then (Err WkInvalidInput, s) else op s)"
proof
  fix s s' e
  assume "(if bad then (Err WkInvalidInput, s) else op s) = (Err e, s')"
  then show "sto_conn s' = sto_conn s" using wiki_operation.refusal [OF assms] by (auto split: if_splits)
next
  fix s s' x d
  assume "(if bad then (Err WkInvalidInput, s) else op s) = (Ok x, s')" "sto_conn s = Some d"
  then show "\<exists>d'. sto_conn s' = Some d' \<and> wiki_goes (db_wiki d) (db_wiki d')"
    using wiki_operation.success [OF assms] by (auto split: if_splits)
next
  fix s :: store
  assume "sto_conn s = None"
  then show "\<exists>e. (if bad then (Err WkInvalidInput, s) else op s) = (Err e, s)"
    using wiki_operation.offline [OF assms] by auto
qed

lemma read_operation: "(\<And>d x d'. body d = Ok (x, d') \<Longrightarrow> db_wiki d' = db_wiki d) \<Longrightarrow> wiki_operation (wiki_txn body)"
  by (rule txn_operation) simp

lemma write_operation:
  assumes "\<And>w. wiki_goes w (f w)"
  shows "wiki_operation (wiki_txn (\<lambda>d. Ok (x, set_wiki (f (db_wiki d)) d)))"
  by (rule txn_operation) (use assms in \<open>auto simp: set_wiki_def\<close>)

lemma passive_goes:
  assumes "wk_pages w' = wk_pages w" "wk_history w' = wk_history w" "wk_config w' = wk_config w"
    "wk_batches w' = wk_batches w" "wk_leases w' = wk_leases w" "wk_receipts w' = wk_receipts w"
  shows "wiki_goes w w'"
  using assms by (simp add: wiki_goes_def review_goes_cong(1) archive_goes_same)

lemma cancel_goes: "wiki_goes w (cancel_batches room P w)"
  by (simp add: wiki_goes_def cancel_review archive_goes_same)

subsection \<open>The operations of the store\<close>

interpretation removal: wiki_operation "store_remove_wiki_page room prin slug removal at" for room prin slug removal at
  unfolding store_remove_wiki_page_def [abs_def]
  by (intro checked_operation txn_operation) (simp add: wiki_goes_def remove_review remove_archive)

interpretation configuration: wiki_operation "store_configure_wiki room editor enabled interval" for room editor enabled interval
  unfolding store_configure_wiki_def [abs_def]
  by (intro checked_operation write_operation) (simp add: wiki_goes_def configure_review configure_goes)

interpretation snapshot: wiki_operation "store_wiki_snapshot room" for room
  unfolding store_wiki_snapshot_def [abs_def] by (rule read_operation) (auto split: option.splits)

interpretation checked_commit: wiki_operation "commit_wiki_checked room prin upd at lease human" for room prin upd at lease human
  unfolding commit_wiki_checked_def [abs_def]
  by (intro checked_operation txn_operation) (use commit_goes in \<open>auto simp: wiki_goes_def\<close>)

interpretation commit: wiki_operation "store_commit_wiki room prin upd at" for room prin upd at
  unfolding store_commit_wiki_def by (rule checked_commit.wiki_operation_axioms)

interpretation finish: wiki_operation "store_finish_wiki_review room prin upd lease at" for room prin upd lease at
  unfolding store_finish_wiki_review_def by (rule checked_commit.wiki_operation_axioms)

lemma snapshot_keeps: "store_wiki_snapshot room s = (r, s') \<Longrightarrow> sto_conn s' = sto_conn s"
  by (auto simp: store_wiki_snapshot_def wiki_txn_def answer_txn_def
      split: option.splits list.splits bool.splits sum.splits)

interpretation edit: wiki_operation "store_edit_wiki_page room actor slug edit at" for room actor slug edit at
proof
  fix s s' e
  assume "store_edit_wiki_page room actor slug edit at s = (Err e, s')"
  then show "sto_conn s' = sto_conn s"
    by (auto simp: store_edit_wiki_page_def split: prod.splits sum.splits
        dest!: snapshot_keeps checked_commit.refusal)
next
  fix s s' x d
  assume "store_edit_wiki_page room actor slug edit at s = (Ok x, s')" "sto_conn s = Some d"
  then show "\<exists>d'. sto_conn s' = Some d' \<and> wiki_goes (db_wiki d) (db_wiki d')"
    by (auto simp: store_edit_wiki_page_def split: prod.splits sum.splits
        dest!: snapshot_keeps intro: checked_commit.success)
next
  fix s :: store
  assume "sto_conn s = None"
  then show "\<exists>e. store_edit_wiki_page room actor slug edit at s = (Err e, s)"
    using snapshot.offline [of s room] by (auto simp: store_edit_wiki_page_def)
qed

interpretation schedule: wiki_operation "store_schedule_wiki_review room at" for room at
  unfolding store_schedule_wiki_review_def by (rule txn_operation) (use schedule_goes in \<open>auto simp: wiki_goes_def\<close>)

interpretation cancellation: wiki_operation "store_cancel_wiki_review room" for room
  unfolding store_cancel_wiki_review_def by (intro write_operation cancel_goes)

interpretation scan: wiki_operation wiki_maintenance_rooms
  unfolding wiki_maintenance_rooms_def by (rule read_operation) auto

interpretation claim: wiki_operation "store_claim_wiki_review room prin at" for room prin at
  unfolding store_claim_wiki_review_def by (rule txn_operation) (use claim_goes in \<open>auto simp: wiki_goes_def\<close>)

interpretation renewal: wiki_operation "store_renew_wiki_review room prin lease at" for room prin lease at
  unfolding store_renew_wiki_review_def by (rule txn_operation) (use renew_goes in \<open>auto simp: wiki_goes_def\<close>)

interpretation heartbeat: wiki_operation "store_wiki_native_ready room prin runtime at" for room prin runtime at
  unfolding store_wiki_native_ready_def [abs_def]
  by (intro checked_operation write_operation passive_goes) simp_all

interpretation readiness: wiki_operation "store_wiki_editor_runtime_ready room prin at" for room prin at
  unfolding store_wiki_editor_runtime_ready_def by (rule read_operation) auto

interpretation requests: wiki_operation "store_wiki_context_requests room" for room
  unfolding store_wiki_context_requests_def Let_def by (rule read_operation) auto

interpretation selection: wiki_operation "store_select_wiki_context room prin selection at" for room prin selection at
  unfolding store_select_wiki_context_def [abs_def]
  by (intro checked_operation write_operation passive_goes) (simp_all add: select_rows_def)

interpretation context_read: wiki_operation "store_wiki_context_for room prin" for room prin
  unfolding store_wiki_context_for_def Let_def by (rule read_operation) (auto split: option.splits prod.splits)

interpretation acceptance: wiki_operation "store_accept_wiki_context room prin ack at" for room prin ack at
  unfolding store_accept_wiki_context_def [abs_def]
  by (intro checked_operation txn_operation passive_goes)
    (auto simp: accept_rows_def Let_def set_wiki_def split: option.splits if_splits)

subsection \<open>What the rest of the server does to the wiki\<close>

lemma insert_core_wiki: "insert_core m operation d = Ok d' \<Longrightarrow> db_wiki d' = db_wiki d"
proof -
  have refs: "write_attachment_refs m as d = Inr d' \<Longrightarrow> db_wiki d' = db_wiki d" for m as d d'
    by (induction m as d rule: write_attachment_refs.induct)
      (auto simp: write_attachment_ref_def split: sum.splits if_splits)
  show "insert_core m operation d = Ok d' \<Longrightarrow> db_wiki d' = db_wiki d"
    by (auto simp: insert_core_def insert_message_row_def reset_silence_care_def
        retire_condition_def ack_rows_def resolve_rows_def delete_mark_def Let_def
        split: sum.splits if_splits dest!: refs)
qed

text \<open>No operation on rooms touches the tables of the wiki.\<close>

interpretation wiki_rows: db_law "\<lambda>d. db_wiki d = v" for v
  by unfold_locales
    (auto simp: write_room_state_def pause_room_attentions_def ack_rows_def
      retire_room_attentions_def resolve_rows_def revoke_davets_where_def Let_def seat_operator_def
      insert_assignment_def appoint_rows_def close_seat_def revoke_rows_def
      split: if_splits sum.splits option.splits dest: insert_core_wiki)

lemma run_write_wiki:
  assumes "run_write f s = (r, s')" "\<And>d. db_wiki (f d) = db_wiki d"
  shows "map_option db_wiki (sto_conn s') = map_option db_wiki (sto_conn s)"
proof (cases r)
  case (Inl e)
  then show ?thesis using assms(1) by (simp add: run_write_errD)
next
  case (Inr u)
  then show ?thesis using run_write_okD [OF assms(1) [unfolded Inr]] assms(2)
    by (simp add: option.map_comp comp_def)
qed

lemma session_wiki:
  assumes "session_identity_of sha now clock token h = (idy, h')"
  shows "h_wiki h' = h_wiki h"
proof -
  have del: "map_option db_wiki (sto_conn s') = map_option db_wiki (sto_conn s)"
    if "delete_admin_session sha clock t s = (r, s')" for t s r s'
    using that unfolding delete_admin_session_def revoke_principal_session_def
    by (auto split: prod.splits sum.splits dest!: run_write_wiki)
  have "h_wiki (snd (with_store (delete_admin_session sha clock t) h1)) = h_wiki h1" for t h1
    using del [of t "h_store h1"] by (simp add: h_wiki_def with_store_def split: prod.split)
  then show ?thesis
    using assms by (auto simp: session_identity_of_def h_wiki_def Let_def split: option.splits if_splits)
qed

lemma glanced_wiki: "glanced h h' \<Longrightarrow> h_wiki h' = h_wiki h"
  by (auto simp: glanced_def store_used_def used_def h_wiki_def option_rel_Some1 rel_option_iff
      split: option.splits)

lemma authority_wiki: "resolve_authority sha now clock admin session h = (a, h') \<Longrightarrow> h_wiki h' = h_wiki h"
  by (auto simp: resolve_authority_def split: prod.splits option.splits
      dest!: session_wiki glanced_token_authority glanced_wiki)

lemma operator_wiki: "is_loca_operator sha now clock room admin session name h = (b, h') \<Longrightarrow> h_wiki h' = h_wiki h"
  by (auto simp: is_loca_operator_def Let_def split: prod.splits dest!: authority_wiki)

lemma principal_wiki: "session_principal sha now clock token h = (p, h') \<Longrightarrow> h_wiki h' = h_wiki h"
  by (auto simp: session_principal_def split: prod.splits option.splits dest!: session_wiki)

lemma agent_named_wiki: "wiki_agent_named name h = (r, h') \<Longrightarrow> h_wiki h' = h_wiki h"
  by (auto simp: wiki_agent_named_def with_store_def run_txn_def h_wiki_def
      split: prod.splits sum.splits list.splits option.splits bool.splits)

subsection \<open>The hub and the handlers\<close>

lemma hub_goes_after: "h_wiki h1 = h_wiki h \<Longrightarrow> hub_goes h1 h2 \<Longrightarrow> hub_goes h h2"
  by (simp add: hub_goes_def)

lemma hub_goes_refl [simp]: "hub_goes h h"
  by (rule hub_goes_same) simp

lemma snd_wiki_answer [simp]: "snd (wiki_answer f p) = snd p"
  by (simp add: wiki_answer_def case_prod_beta)

lemma tick_goes: "hub_goes h (tick_wiki now h)"
proof -
  have room: "hub_goes h (tick_wiki_room now room h)" for room h
    by (simp add: tick_wiki_room_def schedule.goes cancellation.goes)
  have rooms: "hub_goes h (fold (tick_wiki_room now) rooms h)" for rooms h
    by (induction rooms arbitrary: h) (auto intro: hub_goes_trans room)
  show ?thesis
    using scan.goes [of h] rooms
    by (auto simp: tick_wiki_def split: prod.split sum.split intro: hub_goes_trans)
qed

lemma configure_wiki_goes: "hub_goes h (snd (configure_wiki room editor enabled interval now h))"
proof -
  obtain r h1 where a: "wiki_agent_named editor h = (r, h1)" by fastforce
  note h1 = agent_named_wiki [OF a]
  show ?thesis
  proof (cases r)
    case (Inl e)
    then show ?thesis using a h1 by (simp add: configure_wiki_def hub_goes_same)
  next
    case (Inr identity)
    obtain q h2 where q: "(if enabled then with_store (store_wiki_editor_runtime_ready room (pi_id identity) now) h1
        else (Ok True, h1)) = (q, h2)" by fastforce
    then have h2: "hub_goes h1 h2" using readiness.goes [of h1 room "pi_id identity" now] by (auto split: if_splits)
    have "hub_goes h1 (snd (configure_wiki room editor enabled interval now h))"
      using h2 configuration.goes hub_goes_trans [OF h2]
      by (auto simp: configure_wiki_def a Inr q split: sum.split)
    then show ?thesis by (rule hub_goes_after [OF h1])
  qed
qed

lemma offer_goes: "hub_goes h (snd (offer_wiki_context room actor operator target selection now h))"
proof -
  obtain r h1 where r: "with_store (store_wiki_snapshot room) h = (r, h1)" by fastforce
  have h1: "hub_goes h h1" using snapshot.goes [of h room] by (simp add: r)
  obtain q h2 where q: "wiki_agent_named target h1 = (q, h2)" by fastforce
  have h2: "hub_goes h h2" by (rule hub_goes_trans [OF h1 hub_goes_same [OF agent_named_wiki [OF q]]])
  show ?thesis
    using h1 h2 hub_goes_trans [OF h2 selection.goes]
    by (auto simp: offer_wiki_context_def r q split: sum.split)
qed

lemma requests_goes: "hub_goes h (snd (wiki_context_requests room prin operator h))"
proof -
  obtain r h1 where r: "(if operator then (Ok True, h)
      else case with_store (store_wiki_snapshot room) h of
             (Inl e, h1) \<Rightarrow> (Err e, h1)
           | (Inr snapshot, h1) \<Rightarrow> (Ok (prin = Some (ws_editor_principal snapshot)), h1)) = (r, h1)"
    by fastforce
  then have h1: "hub_goes h h1"
    using snapshot.goes [of h room] by (auto split: if_splits prod.splits sum.splits)
  show ?thesis
    using h1 hub_goes_trans [OF h1 requests.goes [of h1 room]]
    by (auto simp: wiki_context_requests_def r split: sum.split prod.split)
qed

subsection \<open>Steps\<close>

text \<open>
  The operations of the hub on the wiki, by anybody and at any time, and whatever leaves
  its tables alone: every other operation, a storage failure, a restart.
\<close>

inductive wiki_step :: "hub \<Rightarrow> hub \<Rightarrow> bool" where
  configure: "wiki_step h (snd (configure_wiki room editor enabled interval now h))"
| tick: "wiki_step h (tick_wiki now h)"
| claim: "wiki_step h (snd (with_store (store_claim_wiki_review room prin now) h))"
| renew: "wiki_step h (snd (with_store (store_renew_wiki_review room prin lease now) h))"
| finish: "wiki_step h (snd (with_store (store_finish_wiki_review room prin upd lease now) h))"
| commit: "wiki_step h (snd (with_store (store_commit_wiki room prin upd now) h))"
| edit: "wiki_step h (snd (with_store (store_edit_wiki_page room actor slug edit now) h))"
| remove: "wiki_step h (snd (with_store (store_remove_wiki_page room prin slug removal now) h))"
| heartbeat: "wiki_step h (snd (with_store (store_wiki_native_ready room prin runtime now) h))"
| select: "wiki_step h (snd (with_store (store_select_wiki_context room prin selection now) h))"
| offer: "wiki_step h (snd (offer_wiki_context room actor operator target selection now h))"
| accept: "wiki_step h (snd (with_store (store_accept_wiki_context room prin ack now) h))"
| elsewhere: "h_wiki h' = h_wiki h \<Longrightarrow> wiki_step h h'"

definition wiki_state :: "hub \<Rightarrow> bool" where
  "wiki_state h = (\<exists>w. h_wiki h = Some w \<and> review_ok w \<and> archive_ok w)"

lemma wiki_step_goes: "wiki_step h h' \<Longrightarrow> hub_goes h h'"
  by (induction rule: wiki_step.induct)
    (simp_all add: configure_wiki_goes tick_goes claim.goes renewal.goes finish.goes commit.goes edit.goes
      removal.goes heartbeat.goes selection.goes offer_goes acceptance.goes hub_goes_same)

lemma wiki_run_goes: "wiki_step\<^sup>*\<^sup>* h h' \<Longrightarrow> hub_goes h h'"
  by (induction rule: rtranclp_induct) (auto intro: hub_goes_trans wiki_step_goes)

lemma goes_state:
  assumes "hub_goes h h'" "wiki_state h"
  obtains w w' where "h_wiki h = Some w" "h_wiki h' = Some w'" "review_ok w'" "archive_ok w'"
    "review_later w w'" "archive_later w w'"
  using assms by (cases "h_wiki h'")
    (auto simp: wiki_state_def hub_goes_def wiki_goes_def review_goes_def archive_goes_def)

lemma wiki_step_keeps: "wiki_state h \<Longrightarrow> wiki_step h h' \<Longrightarrow> wiki_state h'"
  by (blast dest: wiki_step_goes elim: goes_state intro: wiki_state_def [THEN iffD2])

interpretation wiki_system: step_invariant wiki_step wiki_state
  by unfold_locales (rule wiki_step_keeps)

text \<open>Every operation on rooms is a step that leaves the tables alone.\<close>

lemma room_step_elsewhere:
  assumes "room_step h h'" "h_wiki h = Some w"
  shows "wiki_step h h'"
proof -
  obtain d where "sto_conn (h_store h) = Some d" "db_wiki d = w" using assms(2) by (auto simp: h_wiki_def)
  then have "wiki_rows.durable w h" by (auto simp: wiki_rows.durable_def wiki_rows.stored_def)
  from wiki_rows.durable_step [OF assms(1) this] have "h_wiki h' = Some w"
    by (auto simp: wiki_rows.durable_def wiki_rows.stored_def h_wiki_def)
  with assms(2) show ?thesis by (intro wiki_step.elsewhere) simp
qed

subsection \<open>Every handler is a run of steps\<close>

lemma run_after: "h_wiki h1 = h_wiki h \<Longrightarrow> wiki_step h1 h2 \<Longrightarrow> wiki_step\<^sup>*\<^sup>* h h2"
  by (meson converse_rtranclp_into_rtranclp r_into_rtranclp wiki_step.elsewhere)

lemma run_elsewhere: "h_wiki h1 = h_wiki h \<Longrightarrow> wiki_step\<^sup>*\<^sup>* h h1"
  by (simp add: r_into_rtranclp wiki_step.elsewhere)

lemma as_editor_runs:
  assumes "\<And>prin h. wiki_step h (snd (act prin h))"
  shows "wiki_step\<^sup>*\<^sup>* h (snd (as_editor sha now clock room session act h))"
  using assms by (auto simp: as_editor_def split: prod.splits option.splits
      intro: run_after run_elsewhere dest!: principal_wiki)

lemma as_reader_runs:
  assumes "\<And>prin h. wiki_step h (snd (act prin h))"
  shows "wiki_step\<^sup>*\<^sup>* h (snd (as_reader sha now clock room session act h))"
  using assms by (auto simp: as_reader_def split: prod.splits option.splits
      intro: run_after run_elsewhere dest!: principal_wiki)

lemma editor_routes_run:
  "wiki_step\<^sup>*\<^sup>* h (snd (remove_wiki_page_route sha now clock room session slug removal h))"
  "wiki_step\<^sup>*\<^sup>* h (snd (claim_wiki_review_route sha now clock room session h))"
  "wiki_step\<^sup>*\<^sup>* h (snd (renew_wiki_review_route sha now clock room session lease h))"
  "wiki_step\<^sup>*\<^sup>* h (snd (finish_wiki_review_route sha now clock room session upd lease h))"
  unfolding remove_wiki_page_route_def claim_wiki_review_route_def renew_wiki_review_route_def
    finish_wiki_review_route_def
  by (rule as_editor_runs, simp add: wiki_step.intros)+

lemma reader_routes_run:
  "wiki_step\<^sup>*\<^sup>* h (snd (wiki_context_request_route sha now clock room session selection h))"
  "wiki_step\<^sup>*\<^sup>* h (snd (wiki_context_accept_route sha now clock room session ack h))"
  unfolding wiki_context_request_route_def wiki_context_accept_route_def
  by (rule as_reader_runs, simp add: wiki_step.intros)+

lemma commit_route_runs: "wiki_step\<^sup>*\<^sup>* h (snd (commit_wiki_route sha now clock room session upd h))"
  by (auto simp: commit_wiki_route_def split: prod.splits option.splits
      intro: run_after run_elsewhere wiki_step.commit dest!: session_wiki)

lemma ready_route_runs: "wiki_step\<^sup>*\<^sup>* h (snd (wiki_native_ready_route sha now clock room session runtime h))"
  by (auto simp: wiki_native_ready_route_def split: prod.splits option.splits
      intro: run_after run_elsewhere wiki_step.heartbeat dest!: session_wiki)

lemma operator_routes_run:
  "wiki_step\<^sup>*\<^sup>* h (snd (edit_wiki_page_route sha now clock room admin session slug edit h))"
  "wiki_step\<^sup>*\<^sup>* h (snd (configure_wiki_route sha now clock room admin session editor enabled interval h))"
  "wiki_step\<^sup>*\<^sup>* h (snd (wiki_context_offer_route sha now clock room admin session target selection h))"
proof -
  show "wiki_step\<^sup>*\<^sup>* h (snd (edit_wiki_page_route sha now clock room admin session slug edit h))"
  proof (cases "is_writable h room")
    case True
    obtain ok h1 where ok: "is_loca_operator sha now clock room admin session [] h = (ok, h1)" by fastforce
    obtain prin h2 where prin: "session_principal sha now clock session h1 = (prin, h2)" by fastforce
    show ?thesis
      using operator_wiki [OF ok] principal_wiki [OF prin]
      by (cases ok) (auto simp: edit_wiki_page_route_def True ok prin Let_def intro: run_elsewhere
          run_after wiki_step.edit)
  qed (simp add: edit_wiki_page_route_def)
  show "wiki_step\<^sup>*\<^sup>* h (snd (configure_wiki_route sha now clock room admin session editor enabled interval h))"
    by (auto simp: configure_wiki_route_def split: prod.splits bool.splits
        intro: run_after run_elsewhere wiki_step.configure dest!: operator_wiki)
  obtain prin h1 where prin: "session_principal sha now clock session h = (prin, h1)" by fastforce
  obtain ok h2 where ok: "is_loca_operator sha now clock room admin session [] h1 = (ok, h2)" by fastforce
  have "h_wiki h2 = h_wiki h" using principal_wiki [OF prin] operator_wiki [OF ok] by simp
  then show "wiki_step\<^sup>*\<^sup>* h (snd (wiki_context_offer_route sha now clock room admin session target selection h))"
    using run_after wiki_step.offer by (simp add: wiki_context_offer_route_def prin ok)
qed

end
