(* ===== verification/Wiki_Properties.thy ===== *)
theory Wiki_Properties
  imports Wiki_System Samples
begin

text \<open>
  The wiki over any sequence of its operations, by anybody, with any storage failures and
  any other operation of the building in between.
\<close>

lemma state_tables:
  assumes "wiki_step\<^sup>*\<^sup>* h h'" "wiki_state h"
  obtains w w' where "h_wiki h = Some w" "h_wiki h' = Some w'" "review_ok w'" "archive_ok w'"
    "review_later w w'" "archive_later w w'"
  using goes_state [OF wiki_run_goes [OF assms(1)] assms(2)] by blast

text \<open>An accepted operation ran its transaction on the tables.\<close>

lemma wiki_txn_run:
  assumes "with_store (wiki_txn body) h = (Ok x, h')"
  obtains d d' where "sto_conn (h_store h) = Some d" "body d = Ok (x, d')" "sto_conn (h_store h') = Some d'"
    "h_wiki h = Some (db_wiki d)" "h_wiki h' = Some (db_wiki d')"
proof -
  from assms have "wiki_txn body (h_store h) = (Ok x, h_store h')" by (rule with_store_store)
  then show ?thesis
    using answer_txn_okD [of WkPersistenceUnavailable WkStorage body "h_store h" x "h_store h'"] that
    by (auto simp: wiki_txn_def h_wiki_def)
qed

lemma finish_run:
  assumes "with_store (store_finish_wiki_review room prin upd lease now) h = (Ok rv, h')"
  obtains d d' where "h_wiki h = Some (db_wiki d)" "h_wiki h' = Some (db_wiki d')"
    "sto_conn (h_store h) = Some d" "commit_rows room prin upd now (Some lease) False d = Ok (rv, d')"
    "length (wc_pages upd) \<le> COMMIT_MAX_PAGES" "str_trim (wc_reason upd) \<noteq> []" "str_len (wc_reason upd) \<le> 4096"
proof -
  define bad where "bad = (length (wc_pages upd) > COMMIT_MAX_PAGES \<or> str_trim (wc_reason upd) = []
      \<or> str_len (wc_reason upd) > 4096)"
  have "\<not> bad" "with_store (wiki_txn (commit_rows room prin upd now (Some lease) False)) h = (Ok rv, h')"
    using assms unfolding store_finish_wiki_review_def commit_wiki_checked_def bad_def [symmetric]
    by (auto simp: with_store_def split: if_splits)
  from this(2) obtain d d' where "sto_conn (h_store h) = Some d"
    "commit_rows room prin upd now (Some lease) False d = Ok (rv, d')"
    "h_wiki h = Some (db_wiki d)" "h_wiki h' = Some (db_wiki d')"
    by (rule wiki_txn_run)
  with \<open>\<not> bad\<close> show ?thesis by (intro that) (auto simp: bad_def)
qed

subsection \<open>Reviews\<close>

text \<open>The receipt decides: a lease whose batch has one under another lease is refused.\<close>

lemma finish_settled:
  assumes ok: "review_ok (db_wiki d)"
    and rc: "hm_get (wk_receipts (db_wiki d)) (room, i, e) = Some rc"
    and fin: "commit_rows room' prin' upd' now (Some lease') False d = Ok (rv', d')"
    and same: "wl_batch_id lease' = i"
  shows "room' = room \<and> wl_epoch lease' = e \<and> prin' = rw_editor rc \<and> upd' = rw_request rc
    \<and> rv' = rw_revision rc \<and> d' = d"
proof -
  obtain b where b: "hm_get (wk_batches (db_wiki d)) i = Some b" "bw_room b = room" "bw_status b = ''completed''"
    "bw_epoch b = e"
    using review_okD(5) [OF ok rc] by blast
  show ?thesis
    using fin
  proof (cases rule: commit_rows_okD)
    case (replayed l rc' row)
    from review_okD(5) [OF ok replayed(6)] have "room' = room \<and> wl_epoch lease' = e"
      using b same replayed(1) by auto
    then show ?thesis using replayed rc same by auto
  next
    case (fresh row)
    from fresh(4) [OF refl] have "lease_valid (db_wiki d) room' prin' lease' now" by (rule lease_fence_freshD)
    then show ?thesis using b same by (simp add: lease_valid_def)
  qed
qed

text \<open>The first review of a batch: who may publish it, when, and how far the cursor moves.\<close>

definition first_review ::
  "wiki_tables \<Rightarrow> string \<Rightarrow> string \<Rightarrow> wiki_lease \<Rightarrow> u64 \<Rightarrow> u64 \<Rightarrow> wiki_tables \<Rightarrow> bool" where
  "first_review w room prin lease now rv w1 = (\<exists>b st row row1.
       (\<forall>rm e. hm_get (wk_receipts w) (rm, wl_batch_id lease, e) = None)
     \<and> hm_get (wk_batches w) (wl_batch_id lease) = Some b \<and> bw_status b = ''running''
     \<and> bw_epoch b = wl_epoch lease \<and> bw_room b = room
     \<and> hm_get (wk_leases w) (wl_batch_id lease, wl_epoch lease) = Some st
     \<and> now < bw_expires b \<and> bw_expires b \<le> st + MAX_WORKER_MS
     \<and> hm_get (wk_config w) room = Some row \<and> wi_enabled row \<and> wi_editor row = prin
     \<and> wi_reviewed_through row = bw_after b
     \<and> hm_get (wk_config w1) room = Some row1 \<and> wi_reviewed_through row1 = bw_through b \<and> wi_revision row1 = rv)"

lemma finish_effect:
  assumes ok: "review_ok (db_wiki d)" and run: "commit_rows room prin review now (Some lease) False d = Ok (rv, d1)"
  shows "hm_get (wk_receipts (db_wiki d1)) (room, wl_batch_id lease, wl_epoch lease)
      = Some \<lparr> rw_editor = prin, rw_request = review, rw_revision = rv \<rparr>
    \<and> (db_wiki d1 = db_wiki d \<or> first_review (db_wiki d) room prin lease now rv (db_wiki d1))"
  using run
proof (cases rule: commit_rows_okD)
  case (replayed l rc row)
  then show ?thesis by (cases rc) simp
next
  case (fresh row)
  from fresh(4) [OF refl] obtain b where
    b: "hm_get (wk_receipts (db_wiki d)) (room, wl_batch_id lease, wl_epoch lease) = None"
    "hm_get (wk_batches (db_wiki d)) (wl_batch_id lease) = Some b" "lease_valid (db_wiki d) room prin lease now"
    "bw_epoch b = wl_epoch lease" "bw_room b = room" "bw_status b = ''running''" "now < bw_expires b"
    "wi_reviewed_through row = bw_after b" "wc_reviewed_through review = bw_through b"
    by (rule lease_fence_freshD)
  have unpublished: "hm_get (wk_receipts (db_wiki d)) (rm, wl_batch_id lease, e) = None" for rm e
    using review_okD(5) [OF ok, of rm "wl_batch_id lease" e] b(2,6)
    by (cases "hm_get (wk_receipts (db_wiki d)) (rm, wl_batch_id lease, e)") auto
  obtain st where st: "hm_get (wk_leases (db_wiki d)) (wl_batch_id lease, wl_epoch lease) = Some st"
    "bw_expires b \<le> st + MAX_WORKER_MS"
    using review_okD(2) [OF ok b(2)] b(4,6) by (auto simp: batch_ok_def)
  have row: "wi_enabled row" "wi_editor row = prin"
    using b(2,3,5) fresh(1,2) by (auto simp: lease_valid_def)
  from fresh(5) show ?thesis
  proof (cases rule: publish_rows_okD)
    case published: (1 changed row' w')
    have "hm_get (wk_receipts (db_wiki d1)) (room, wl_batch_id lease, wl_epoch lease)
        = Some \<lparr> rw_editor = prin, rw_request = review, rw_revision = rv \<rparr>"
      "hm_get (wk_config (db_wiki d1)) room = Some row'"
      using published(7,8) by (simp_all add: settle_batches_def)
    then show ?thesis using published(6) b st row fresh(1) unpublished by (auto simp: first_review_def)
  qed
qed

text \<open>
  C31: a batch of the wiki is published at most once, by the worker whose lease it is.
  Whenever, in a state reached by any sequence of operations, a worker's review is
  accepted, it is either the answer already given to the same request, and nothing
  changes, or the first review of the batch: the lease is the last one handed out, not
  expired and claimed at most thirty minutes ago, its holder is the assigned editor of an
  enabled wiki, the cursor of the loca stands where the batch begins, and it moves to where
  the batch ends.  Afterwards, whatever else happens, every accepted review of the same
  batch is the same request of the same worker, is answered with the same revision, and
  changes nothing; and the worker who repeats his request is answered so while he is the
  editor and the storage works.
\<close>

theorem wiki_published_once:
  assumes "wiki_step\<^sup>*\<^sup>* h0 h" "wiki_state h0"
    and acc: "with_store (store_finish_wiki_review room prin review lease now) h = (Ok rv, h1)"
    and later: "wiki_step\<^sup>*\<^sup>* h1 h2"
  shows "\<exists>w w1 w2. h_wiki h = Some w \<and> h_wiki h1 = Some w1 \<and> h_wiki h2 = Some w2
    \<and> (w1 = w \<or> first_review w room prin lease now rv w1)
    \<and> (\<forall>room' prin' review' lease' now' rv' h3. wl_batch_id lease' = wl_batch_id lease
         \<and> with_store (store_finish_wiki_review room' prin' review' lease' now') h2 = (Ok rv', h3) \<longrightarrow>
         room' = room \<and> wl_epoch lease' = wl_epoch lease \<and> prin' = prin \<and> review' = review \<and> rv' = rv
         \<and> h_wiki h3 = h_wiki h2)
    \<and> (\<forall>row2 now'. hm_get (wk_config w2) room = Some row2 \<and> wi_editor row2 = prin \<and> sto_faults (h_store h2) = [] \<longrightarrow>
         fst (with_store (store_finish_wiki_review room prin review lease now') h2) = Ok rv)"
proof -
  have st: "wiki_state h" by (rule wiki_system.reach_keeps [OF assms(1,2)])
  obtain d d1 where d: "h_wiki h = Some (db_wiki d)" "h_wiki h1 = Some (db_wiki d1)"
    and run: "commit_rows room prin review now (Some lease) False d = Ok (rv, d1)"
    and input: "length (wc_pages review) \<le> COMMIT_MAX_PAGES" "str_trim (wc_reason review) \<noteq> []"
      "str_len (wc_reason review) \<le> 4096"
    using finish_run [OF acc] by metis
  have st1: "wiki_state h1"
    using wiki_system.step_keeps [OF st wiki_step.finish [of h room prin review lease now]] acc by simp
  have ok: "review_ok (db_wiki d)" using st d by (simp add: wiki_state_def)
  obtain w2 where w2: "h_wiki h2 = Some w2" "review_ok w2" "review_later (db_wiki d1) w2"
    using state_tables [OF later st1] d(2) by auto
  then obtain d2 where d2: "sto_conn (h_store h2) = Some d2" "db_wiki d2 = w2" by (auto simp: h_wiki_def)
  have receipt: "hm_get (wk_receipts (db_wiki d1)) (room, wl_batch_id lease, wl_epoch lease)
      = Some \<lparr> rw_editor = prin, rw_request = review, rw_revision = rv \<rparr>"
    and first: "db_wiki d1 = db_wiki d \<or> first_review (db_wiki d) room prin lease now rv (db_wiki d1)"
    using finish_effect [OF ok run] by auto
  have receipt2: "hm_get (wk_receipts w2) (room, wl_batch_id lease, wl_epoch lease)
      = Some \<lparr> rw_editor = prin, rw_request = review, rw_revision = rv \<rparr>"
    using w2(3) receipt by (simp add: review_later_def)
  have again: "room' = room \<and> wl_epoch lease' = wl_epoch lease \<and> prin' = prin \<and> review' = review \<and> rv' = rv
      \<and> h_wiki h3 = h_wiki h2"
    if "wl_batch_id lease' = wl_batch_id lease"
      "with_store (store_finish_wiki_review room' prin' review' lease' now') h2 = (Ok rv', h3)"
    for room' prin' review' lease' now' rv' h3
    using finish_run [OF that(2)]
      finish_settled [of d2 room "wl_batch_id lease" "wl_epoch lease"] receipt2 w2(1,2) d2 that(1)
    by (metis (no_types, lifting) option.inject wiki_receipt_row.select_convs)
  have retry: "fst (with_store (store_finish_wiki_review room prin review lease now') h2) = Ok rv"
    if "hm_get (wk_config w2) room = Some row2" "wi_editor row2 = prin" "sto_faults (h_store h2) = []" for row2 now'
    using that d2 receipt2 input
    by (simp add: store_finish_wiki_review_def commit_wiki_checked_def with_store_def wiki_txn_def answer_txn_def
        commit_rows_def lease_fence_def split: prod.split)
  show ?thesis using d w2(1) first again retry by blast
qed

subsection \<open>Claims\<close>

lemma claim_effect:
  assumes ok: "review_ok (db_wiki d)" and run: "claim_rows room prin now d = Ok (Some batch, d1)"
  shows "wb_attempts batch \<le> 3 \<and> wl_epoch (wb_lease batch) = wb_attempts batch
    \<and> hm_get (wk_leases (db_wiki d)) (wl_batch_id (wb_lease batch), wl_epoch (wb_lease batch)) = None
    \<and> hm_get (wk_leases (db_wiki d1)) (wl_batch_id (wb_lease batch), wl_epoch (wb_lease batch)) = Some now
    \<and> lease_valid (db_wiki d1) room prin (wb_lease batch) now
    \<and> (\<exists>b. hm_get (wk_batches (db_wiki d1)) (wl_batch_id (wb_lease batch)) = Some b
         \<and> bw_epoch b = wl_epoch (wb_lease batch) \<and> bw_after b = wb_after_id batch
         \<and> bw_through b = wb_through_id batch \<and> bw_expires b = now + LEASE_MS
         \<and> wb_messages batch = batch_messages d room b)"
  using run
proof (cases rule: claim_rows_okD)
  case (claimed i b w)
  note b = claimed_batch [OF ok claimed(2) [unfolded claimed(1)]]
  have w1: "db_wiki d1 = w\<lparr>wk_batches := hm_map (\<lambda>j b. if j = i then leased_row now b else b) (wk_batches w),
      wk_leases := hm_insert (i, bw_epoch b + 1) now (wk_leases w)\<rparr>"
    using claimed(5) by (simp add: set_wiki_def)
  have get1: "hm_get (wk_batches (db_wiki d1)) i = Some (leased_row now b)"
    using b(1) [folded claimed(1)] by (simp add: w1)
  have frame: "wk_leases w = wk_leases (db_wiki d)" "wk_config w = wk_config (db_wiki d)"
    by (simp_all add: claimed(1) block_expired_def)
  have "review_ok w" using block_review ok unfolding claimed(1) by (auto simp: review_goes_def)
  from review_okD(2) [OF this b(1) [folded claimed(1)]] have "bw_epoch b = bw_attempts b"
    by (simp add: batch_ok_def)
  moreover obtain row where "hm_get (wk_config (db_wiki d)) room = Some row" "wi_editor row = prin" "wi_enabled row"
    using run by (auto simp: claim_rows_def split: option.splits if_splits)
  ultimately show ?thesis
    using claimed(3,4) b(2) batch_claimable_few(1) [OF ok b] get1
    by (auto simp: lease_valid_def leased_row_def batch_claimable_def LEASE_MS_def batch_messages_def w1 frame)
qed simp_all

lemma stale_refused:
  assumes ok: "review_ok w" and b: "hm_get (wk_batches w) (wl_batch_id old) = Some b" "wl_epoch old < bw_epoch b"
    and w: "db_wiki d = w"
  shows "commit_rows room prin review now (Some old) False d \<noteq> Ok x" "renew_rows room prin old now d \<noteq> Ok y"
proof -
  have invalid: "\<not> lease_valid w room prin old now" for room prin now using b by (simp add: lease_valid_def)
  have norc: "hm_get (wk_receipts w) (rm, wl_batch_id old, wl_epoch old) = None" for rm
    using review_okD(5) [OF ok, of rm "wl_batch_id old" "wl_epoch old"] b
    by (cases "hm_get (wk_receipts w) (rm, wl_batch_id old, wl_epoch old)") auto
  then show "commit_rows room prin review now (Some old) False d \<noteq> Ok x"
    using invalid by (auto simp: commit_rows_def lease_fence_def w split: option.splits if_splits)
  show "renew_rows room prin old now d \<noteq> Ok y" using invalid by (simp add: renew_rows_def Let_def w)
qed

lemma batch_messages_window:
  "length (batch_messages d room b) \<le> 100"
  "m \<in> set (batch_messages d room b) \<Longrightarrow> bw_after b < m_id m \<and> m_id m \<le> bw_through b \<and> m_room m = room"
proof -
  show "length (batch_messages d room b) \<le> 100" by (simp add: batch_messages_def)
  assume "m \<in> set (batch_messages d room b)"
  then show "bw_after b < m_id m \<and> m_id m \<le> bw_through b \<and> m_room m = room"
    by (auto simp: batch_messages_def wiki_sources_def row_to_message_def dest!: in_set_takeD)
qed

text \<open>
  C32: the work on a batch is bounded and fenced.  Whenever a worker is handed a batch, in
  any reachable state, it is at most the third time, under a lease never handed out
  before that is valid from now on for five minutes, with at most a hundred messages, all
  of them of the loca and inside the window of the batch, and no other batch of the loca
  is pending.  From then on, whatever else happens, an earlier lease of the batch neither
  publishes nor is renewed.
\<close>

theorem wiki_review_fenced:
  assumes "wiki_step\<^sup>*\<^sup>* h0 h" "wiki_state h0"
    and claim: "with_store (store_claim_wiki_review room prin now) h = (Ok (Some batch), h1)"
    and later: "wiki_step\<^sup>*\<^sup>* h1 h2"
  shows "wb_attempts batch \<le> 3 \<and> wb_lease_expires_at batch = now + LEASE_MS \<and> length (wb_messages batch) \<le> 100
    \<and> (\<forall>m \<in> set (wb_messages batch). wb_after_id batch < m_id m \<and> m_id m \<le> wb_through_id batch \<and> m_room m = room)
    \<and> (\<exists>w w1. h_wiki h = Some w \<and> h_wiki h1 = Some w1
         \<and> hm_get (wk_leases w) (wl_batch_id (wb_lease batch), wl_epoch (wb_lease batch)) = None
         \<and> lease_valid w1 room prin (wb_lease batch) now
         \<and> (\<forall>i b. hm_get (wk_batches w1) i = Some b \<and> bw_room b = room \<and> wiki_pending b \<longrightarrow>
              i = wl_batch_id (wb_lease batch)))
    \<and> (\<forall>old room' prin' review now' rv h3.
         wl_batch_id old = wl_batch_id (wb_lease batch) \<and> wl_epoch old < wl_epoch (wb_lease batch) \<longrightarrow>
         with_store (store_finish_wiki_review room' prin' review old now') h2 \<noteq> (Ok rv, h3)
         \<and> with_store (store_renew_wiki_review room' prin' old now') h2 \<noteq> (Ok rv, h3))"
proof -
  have st: "wiki_state h" by (rule wiki_system.reach_keeps [OF assms(1,2)])
  obtain d d1 where d: "h_wiki h = Some (db_wiki d)" "h_wiki h1 = Some (db_wiki d1)"
    and run: "claim_rows room prin now d = Ok (Some batch, d1)"
    using wiki_txn_run [OF claim [unfolded store_claim_wiki_review_def]] by metis
  have ok: "review_ok (db_wiki d)" using st d by (simp add: wiki_state_def)
  have st1: "wiki_state h1"
    using wiki_system.step_keeps [OF st wiki_step.claim [of h room prin now]] claim by simp
  have ok1: "review_ok (db_wiki d1)" using st1 d by (simp add: wiki_state_def)
  note eff = claim_effect [OF ok run]
  obtain b where b: "hm_get (wk_batches (db_wiki d1)) (wl_batch_id (wb_lease batch)) = Some b"
    "bw_epoch b = wl_epoch (wb_lease batch)" "bw_after b = wb_after_id batch" "bw_through b = wb_through_id batch"
    "wb_messages batch = batch_messages d room b"
    using eff by blast
  have expires: "wb_lease_expires_at batch = now + LEASE_MS" using run by (cases rule: claim_rows_okD) simp_all
  have pending: "wiki_pending b" "bw_room b = room"
    using eff b(1) by (auto simp: lease_valid_def wiki_pending_def)
  have one: "i = wl_batch_id (wb_lease batch)"
    if "hm_get (wk_batches (db_wiki d1)) i = Some c" "bw_room c = room" "wiki_pending c" for i c
    using review_okD(3) [OF ok1 that(1) b(1)] that pending by simp
  obtain w2 where w2: "h_wiki h2 = Some w2" "review_ok w2" "review_later (db_wiki d1) w2"
    using state_tables [OF later st1] d(2) by auto
  obtain b2 where b2: "hm_get (wk_batches w2) (wl_batch_id (wb_lease batch)) = Some b2" "bw_epoch b \<le> bw_epoch b2"
    using w2(3) b(1) unfolding review_later_def batch_later_def by blast
  have stale: "with_store (store_finish_wiki_review room' prin' review old now') h2 \<noteq> (Ok rv, h3)
      \<and> with_store (store_renew_wiki_review room' prin' old now') h2 \<noteq> (Ok rv, h3)"
    if old: "wl_batch_id old = wl_batch_id (wb_lease batch)" "wl_epoch old < wl_epoch (wb_lease batch)"
    for old room' prin' review now' rv h3
  proof (intro conjI notI)
    have ep: "wl_epoch old < bw_epoch b2" using old(2) b2(2) b(2) by simp
    note refused = stale_refused [OF w2(2) _ ep, unfolded old(1), OF b2(1)]
    { assume "with_store (store_finish_wiki_review room' prin' review old now') h2 = (Ok rv, h3)"
      then show False by (rule finish_run) (use refused(1) w2(1) in auto) }
    { assume "with_store (store_renew_wiki_review room' prin' old now') h2 = (Ok rv, h3)"
      then show False
        unfolding store_renew_wiki_review_def by (rule wiki_txn_run) (use refused(2) w2(1) in auto) }
  qed
  show ?thesis
    using eff expires b(3,4,5) batch_messages_window(1) [of d room b] batch_messages_window(2) [of _ d room b] d one stale by auto
qed

subsection \<open>Pages\<close>

text \<open>
  C33: nothing that was published in the wiki is lost.  In every reachable state a page a
  reader is shown, once it was written, is in the history word for word under its own
  revision; each revision number of a loca up to the current one has a row there; no row
  of the history is ever changed or deleted; and the revision of a loca and the position
  up to which it was reviewed never move back.
\<close>

theorem wiki_history_complete:
  assumes run: "wiki_step\<^sup>*\<^sup>* h h'" and st: "wiki_state h"
  shows "\<exists>w w'. h_wiki h = Some w \<and> h_wiki h' = Some w'
    \<and> (\<forall>room slug pg s. store_wiki_page room slug (h_store h') = (Ok pg, s) \<and> 0 < wp_revision (wq_page pg) \<longrightarrow>
         wp_revision (wq_page pg) \<le> wq_revision pg
         \<and> (\<exists>hr. hm_get (wk_history w') (room, slug, wp_revision (wq_page pg)) = Some hr
              \<and> hw_title hr = wp_title (wq_page pg) \<and> hw_body hr = wp_body (wq_page pg)
              \<and> hw_sources hr = wp_sources (wq_page pg)))
    \<and> (\<forall>room row i. hm_get (wk_config w') room = Some row \<and> 0 < i \<and> i \<le> wi_revision row \<longrightarrow>
         (\<exists>slug hr. hm_get (wk_history w') (room, slug, i) = Some hr))
    \<and> (\<forall>k hr. hm_get (wk_history w) k = Some hr \<longrightarrow> hm_get (wk_history w') k = Some hr)
    \<and> (\<forall>room row. hm_get (wk_config w) room = Some row \<longrightarrow>
         (\<exists>row'. hm_get (wk_config w') room = Some row' \<and> wi_revision row \<le> wi_revision row'
            \<and> wi_reviewed_through row \<le> wi_reviewed_through row'))"
proof -
  obtain w w' where w: "h_wiki h = Some w" "h_wiki h' = Some w'" and ok: "archive_ok w'" and later: "archive_later w w'"
    using state_tables [OF run st] by blast
  have shown: "wp_revision (wq_page pg) \<le> wq_revision pg
      \<and> (\<exists>hr. hm_get (wk_history w') (room, slug, wp_revision (wq_page pg)) = Some hr
           \<and> hw_title hr = wp_title (wq_page pg) \<and> hw_body hr = wp_body (wq_page pg)
           \<and> hw_sources hr = wp_sources (wq_page pg))"
    if "store_wiki_page room slug (h_store h') = (Ok pg, s)" "0 < wp_revision (wq_page pg)" for room slug pg s
  proof -
    from that(1) w(2) obtain row p where row: "hm_get (wk_config w') room = Some row"
      "hm_get (wk_pages w') (room, slug) = Some p" "wq_revision pg = wi_revision row" "wq_page pg = page_of_row slug p"
      unfolding store_wiki_page_def wiki_txn_def
      by (auto simp: h_wiki_def dest!: answer_txn_okD split: option.splits)
    with archive_okD(1) [OF ok row(2)] that(2) obtain hr where
      hr: "hm_get (wk_history w') (room, slug, gw_revision p) = Some hr" "hw_title hr = gw_title p"
      "hw_body hr = gw_body p" "hw_sources hr = gw_sources p"
      by (auto simp: archived_def page_of_row_def)
    with archive_okD(3) [OF ok hr(1)] row show ?thesis by (auto simp: page_of_row_def)
  qed
  show ?thesis using w shown archive_okD(4) [OF ok] later unfolding archive_later_def by blast
qed

subsection \<open>Samples\<close>

text \<open>
  A loca with one message and an enabled wiki; the tick queues a review, the editor claims
  it, and his review writes one page from the message.
\<close>

definition sample_wiki_db :: db where
  "sample_wiki_db = empty_db\<lparr>
     db_messages := [(7, \<lparr> mr_room = ''loca'', mr_sender = ''ada'', mr_sender_type = ''user'', mr_target = None,
       mr_text = ''we ship'', mr_reply_to = None, mr_ts = 5, mr_kind = ''say'', mr_principal = None, mr_op_id = None,
       mr_attachments = None \<rparr>)],
     db_wiki := empty_wiki\<lparr>
       wk_config := [(''loca'', \<lparr> wi_editor = ''p1'', wi_enabled = True, wi_interval = 1, wi_revision = 0,
         wi_reviewed_through = 0, wi_reviewed_at = None, wi_edited_at = None \<rparr>)],
       wk_pages := [((''loca'', ''working''), \<lparr> gw_title = ''Working area'', gw_body = [], gw_sources = [],
         gw_revision = 0 \<rparr>)]\<rparr>\<rparr>"

definition sample_wiki :: hub where
  "sample_wiki = sample_hub\<lparr>h_store := \<lparr> sto_conn = Some sample_wiki_db, sto_faults = [] \<rparr>\<rparr>"

definition sample_queued :: hub where
  "sample_queued = tick_wiki 100 sample_wiki"

definition sample_leased :: hub where
  "sample_leased = snd (with_store (store_claim_wiki_review ''loca'' ''p1'' 200) sample_queued)"

definition sample_review :: wiki_commit where
  "sample_review = \<lparr> wc_expected_revision = 0, wc_reviewed_through = 7, wc_reason = ''review'',
     wc_pages = [\<lparr> wp_slug = ''working'', wp_title = ''Working area'', wp_body = ''shipping'', wp_sources = [7],
       wp_revision = 0 \<rparr>] \<rparr>"

definition sample_lease :: wiki_lease where
  "sample_lease = \<lparr> wl_batch_id = 1, wl_epoch = 1 \<rparr>"

definition sample_reviewed :: hub where
  "sample_reviewed = snd (with_store (store_finish_wiki_review ''loca'' ''p1'' sample_review sample_lease 300) sample_leased)"

lemma sample_wiki_state: "wiki_state sample_wiki"
proof -
  have "review_ok (db_wiki sample_wiki_db)"
    by (rule review_okI) (simp_all add: sample_wiki_db_def empty_wiki_def)
  moreover have "archive_ok (db_wiki sample_wiki_db)"
    by (rule archive_okI)
      (auto simp: sample_wiki_db_def empty_wiki_def hm_get_def archived_def split: if_splits)
  ultimately show ?thesis by (simp add: wiki_state_def h_wiki_def sample_wiki_def)
qed

lemma sample_queued_reached: "wiki_step\<^sup>*\<^sup>* sample_wiki sample_queued"
  by (simp add: sample_queued_def wiki_step.tick r_into_rtranclp)

lemma sample_leased_reached: "wiki_step\<^sup>*\<^sup>* sample_wiki sample_leased"
  unfolding sample_leased_def by (rule rtranclp.rtrancl_into_rtrancl [OF sample_queued_reached wiki_step.claim])

lemma sample_reviewed_reached: "wiki_step\<^sup>*\<^sup>* sample_wiki sample_reviewed"
  unfolding sample_reviewed_def by (rule rtranclp.rtrancl_into_rtrancl [OF sample_leased_reached wiki_step.finish])

lemma sample_review_accepted:
  "with_store (store_finish_wiki_review ''loca'' ''p1'' sample_review sample_lease 300) sample_leased = (Ok 1, sample_reviewed)"
proof -
  have "fst (with_store (store_finish_wiki_review ''loca'' ''p1'' sample_review sample_lease 300) sample_leased) = Ok 1"
    by code_simp
  then show ?thesis by (simp add: sample_reviewed_def prod_eq_iff)
qed

theorem wiki_published_once_witness:
  "\<exists>w w1. h_wiki sample_leased = Some w \<and> h_wiki sample_reviewed = Some w1
     \<and> first_review w ''loca'' ''p1'' sample_lease 300 1 w1
     \<and> fst (with_store (store_finish_wiki_review ''loca'' ''p1'' sample_review sample_lease 400) sample_reviewed) = Ok 1"
proof -
  note once = wiki_published_once [OF sample_leased_reached sample_wiki_state sample_review_accepted rtranclp.rtrancl_refl]
  obtain w w1 w2 where w: "h_wiki sample_leased = Some w" "h_wiki sample_reviewed = Some w1"
    and first: "w1 = w \<or> first_review w ''loca'' ''p1'' sample_lease 300 1 w1"
    and again: "\<And>row now'. hm_get (wk_config w2) ''loca'' = Some row \<Longrightarrow> wi_editor row = ''p1'' \<Longrightarrow>
      sto_faults (h_store sample_reviewed) = [] \<Longrightarrow>
      fst (with_store (store_finish_wiki_review ''loca'' ''p1'' sample_review sample_lease now') sample_reviewed) = Ok 1"
    and w2: "h_wiki sample_reviewed = Some w2"
    using once by (elim exE conjE) (rule that, assumption+, simp_all)
  have "map_option (\<lambda>w. length (wk_receipts w)) (h_wiki sample_leased) = Some 0"
    "map_option (\<lambda>w. length (wk_receipts w)) (h_wiki sample_reviewed) = Some 1"
    "map_option (\<lambda>w. map_option wi_editor (hm_get (wk_config w) ''loca'')) (h_wiki sample_reviewed) = Some (Some ''p1'')"
    "sto_faults (h_store sample_reviewed) = []"
    by code_simp+
  with w w2 first again show ?thesis by auto
qed

theorem wiki_review_fenced_witness:
  "\<exists>batch. fst (with_store (store_claim_wiki_review ''loca'' ''p1'' 200) sample_queued) = Ok (Some batch)
     \<and> map m_id (wb_messages batch) = [7] \<and> wb_attempts batch \<le> 3
     \<and> fst (with_store (store_renew_wiki_review ''loca'' ''p1'' (\<lparr> wl_batch_id = 1, wl_epoch = 0 \<rparr>) 250) sample_leased)
         = Err WkConflict"
proof -
  have "map_option (map_option (\<lambda>b. map m_id (wb_messages b)))
      (case fst (with_store (store_claim_wiki_review ''loca'' ''p1'' 200) sample_queued) of Inl _ \<Rightarrow> None | Inr b \<Rightarrow> Some b)
      = Some (Some [7])"
    by code_simp
  then obtain batch where claim: "fst (with_store (store_claim_wiki_review ''loca'' ''p1'' 200) sample_queued) = Ok (Some batch)"
    and ids: "map m_id (wb_messages batch) = [7]"
    by (auto split: sum.splits)
  from claim have run: "with_store (store_claim_wiki_review ''loca'' ''p1'' 200) sample_queued = (Ok (Some batch), sample_leased)"
    by (simp add: sample_leased_def prod_eq_iff)
  have "fst (with_store (store_renew_wiki_review ''loca'' ''p1'' (\<lparr> wl_batch_id = 1, wl_epoch = 0 \<rparr>) 250) sample_leased)
      = Err WkConflict"
    by code_simp
  then show ?thesis
    using wiki_review_fenced [OF sample_queued_reached sample_wiki_state run rtranclp.rtrancl_refl] claim ids by simp
qed

theorem wiki_history_complete_witness:
  "\<exists>w. h_wiki sample_reviewed = Some w
     \<and> map_option hw_body (hm_get (wk_history w) (''loca'', ''working'', 1)) = Some ''shipping''"
proof -
  obtain w where w: "h_wiki sample_reviewed = Some w"
    and shown: "\<And>room slug pg s. store_wiki_page room slug (h_store sample_reviewed) = (Ok pg, s) \<Longrightarrow>
       0 < wp_revision (wq_page pg) \<Longrightarrow>
       \<exists>hr. hm_get (wk_history w) (room, slug, wp_revision (wq_page pg)) = Some hr \<and> hw_body hr = wp_body (wq_page pg)"
    using wiki_history_complete [OF sample_reviewed_reached sample_wiki_state]
    by (elim exE conjE) (rule that, assumption, meson)
  have "(case fst (store_wiki_page ''loca'' ''working'' (h_store sample_reviewed)) of
      Inl _ \<Rightarrow> None | Inr pg \<Rightarrow> Some (wp_revision (wq_page pg), wp_body (wq_page pg))) = Some (1, ''shipping'')"
    by code_simp
  then obtain pg s where "store_wiki_page ''loca'' ''working'' (h_store sample_reviewed) = (Ok pg, s)"
    "wp_revision (wq_page pg) = 1" "wp_body (wq_page pg) = ''shipping''"
    by (cases "store_wiki_page ''loca'' ''working'' (h_store sample_reviewed)") (auto split: sum.splits)
  with shown [of "''loca''" "''working''" pg s] w show ?thesis by auto
qed

end
