(* ===== verification/Blob_Store.thy ===== *)
theory Blob_Store
  imports Prelude "HOL-Library.Word"
begin

text \<open>
  \<^verbatim>\<open>crates/server/src/store/attachments.rs\<close>: the content-addressed files of attachments, as
  the Unix build has them.  The directory is a table of entries by path below its root.
  What a symbolic link points to lies outside the table and is a function from the rest
  of a path to what is found there.  Whether a system call works is not up to the
  program: for each kind of call, \<open>dk_faults\<close> lists the outcomes of the coming calls
  (\<^const>\<open>True\<close> is a failure; past the end every call does what its arguments allow).  A failed
  call changes nothing.  SHA-256 is the parameter \<open>digest\<close>.
\<close>

subsection \<open>The directory\<close>

type_synonym bytes = "8 word list"
type_synonym path = "string list"

datatype node = Directory nat | Regular bytes nat | Symlink "path \<Rightarrow> node option" | Special

datatype io_error = NotFound | AlreadyExists | InvalidData | InvalidInput | NotADirectory | IoFailure

datatype io_call = Stat | Mkdir | Chmod | OpenRead | OpenDir | CreateNew | WriteAll | SyncAll | Rename | Unlink

record disk =
  dk_entries :: "(path, node) hashmap"
  dk_faults :: "io_call \<Rightarrow> bool list"
  dk_counter :: u64

type_synonym 'a io = "disk \<Rightarrow> (io_error, 'a) result \<times> disk"

definition io_return :: "'a \<Rightarrow> 'a io" where
  "io_return x d = (Ok x, d)"

definition io_fail :: "io_error \<Rightarrow> 'a io" where
  "io_fail e d = (Err e, d)"

definition io_bind :: "'a io \<Rightarrow> ('a \<Rightarrow> 'b io) \<Rightarrow> 'b io" where
  "io_bind f g d = (case f d of (Inl e, d1) \<Rightarrow> (Err e, d1) | (Inr x, d1) \<Rightarrow> g x d1)"

text \<open>The early return of Rust inside a \<open>match\<close> on a result.\<close>

definition io_match :: "'a io \<Rightarrow> (io_error \<Rightarrow> 'b io) \<Rightarrow> ('a \<Rightarrow> 'b io) \<Rightarrow> 'b io" where
  "io_match f h g d = (case f d of (Inl e, d1) \<Rightarrow> h e d1 | (Inr x, d1) \<Rightarrow> g x d1)"

definition syscall :: "io_call \<Rightarrow> (disk \<Rightarrow> (io_error, 'a \<times> (path, node) hashmap) result) \<Rightarrow> 'a io" where
  "syscall c act d =
    (let d1 = d\<lparr>dk_faults := (dk_faults d)(c := tl (dk_faults d c))\<rparr>
     in case dk_faults d c of
          True # _ \<Rightarrow> (Err IoFailure, d1)
        | _ \<Rightarrow> (case act d of
              Inl e \<Rightarrow> (Err e, d1)
            | Inr (x, entries) \<Rightarrow> (Ok x, d1\<lparr>dk_entries := entries\<rparr>)))"

subsection \<open>What a path names\<close>

text \<open>Links in the middle of a path are followed, one at its end is not.\<close>

fun resolve_path :: "(path, node) hashmap \<Rightarrow> path \<Rightarrow> path \<Rightarrow> (io_error, node) result" where
  "resolve_path t pre [] = (case hm_get t pre of None \<Rightarrow> Err NotFound | Some n \<Rightarrow> Ok n)"
| "resolve_path t pre (c # cs) = (case hm_get t pre of
     None \<Rightarrow> Err NotFound
   | Some (Directory _) \<Rightarrow> resolve_path t (pre @ [c]) cs
   | Some (Symlink f) \<Rightarrow> (case f (c # cs) of None \<Rightarrow> Err NotFound | Some n \<Rightarrow> Ok n)
   | Some _ \<Rightarrow> Err NotADirectory)"

definition look :: "disk \<Rightarrow> path \<Rightarrow> (io_error, node) result" where
  "look d p = resolve_path (dk_entries d) [] p"

definition is_file :: "node \<Rightarrow> bool" where
  "is_file n = (case n of Regular _ _ \<Rightarrow> True | _ \<Rightarrow> False)"

definition has_parent :: "disk \<Rightarrow> path \<Rightarrow> bool" where
  "has_parent d p = (p = [] \<or> (case look d (butlast p) of Inr (Directory _) \<Rightarrow> True | _ \<Rightarrow> False))"

text \<open>A path of the table leads through directories only; what is done behind a link is not in the table.\<close>

definition in_table :: "disk \<Rightarrow> path \<Rightarrow> bool" where
  "in_table d p = list_all (\<lambda>n. case hm_get (dk_entries d) (take n p) of Some (Directory _) \<Rightarrow> True | _ \<Rightarrow> False)
     [0..<length p]"

definition with_entry :: "disk \<Rightarrow> path \<Rightarrow> node \<Rightarrow> (path, node) hashmap \<Rightarrow> (path, node) hashmap" where
  "with_entry d p n t = (if in_table d p then hm_insert p n t else t)"

definition without_entry :: "disk \<Rightarrow> path \<Rightarrow> (path, node) hashmap \<Rightarrow> (path, node) hashmap" where
  "without_entry d p t = (if in_table d p then hm_remove p t else t)"

definition symlink_metadata :: "path \<Rightarrow> node io" where
  "symlink_metadata p = syscall Stat (\<lambda>d. map_sum id (\<lambda>n. (n, dk_entries d)) (look d p))"

definition create_dir :: "path \<Rightarrow> unit io" where
  "create_dir p = syscall Mkdir (\<lambda>d.
     if is_ok (look d p) then Err AlreadyExists
     else if \<not> has_parent d p then Err NotFound
     else Ok ((), with_entry d p (Directory 493) (dk_entries d)))"

definition set_permissions :: "path \<Rightarrow> nat \<Rightarrow> unit io" where
  "set_permissions p mode = syscall Chmod (\<lambda>d. case look d p of
     Inl e \<Rightarrow> Err e
   | Inr (Directory _) \<Rightarrow> Ok ((), with_entry d p (Directory mode) (dk_entries d))
   | Inr (Regular b _) \<Rightarrow> Ok ((), with_entry d p (Regular b mode) (dk_entries d))
   | Inr _ \<Rightarrow> Ok ((), dk_entries d))"

text \<open>Opening with \<open>create_new\<close>, then \<open>write_all\<close>, on the file just made.\<close>

definition create_new :: "path \<Rightarrow> nat \<Rightarrow> unit io" where
  "create_new p mode = syscall CreateNew (\<lambda>d.
     if is_ok (look d p) then Err AlreadyExists
     else if \<not> has_parent d p then Err NotFound
     else Ok ((), with_entry d p (Regular [] mode) (dk_entries d)))"

definition write_all :: "path \<Rightarrow> bytes \<Rightarrow> unit io" where
  "write_all p b = syscall WriteAll (\<lambda>d. case look d p of
     Inr (Regular _ mode) \<Rightarrow> Ok ((), with_entry d p (Regular b mode) (dk_entries d))
   | _ \<Rightarrow> Err NotFound)"

definition sync_all :: "path \<Rightarrow> unit io" where
  "sync_all p = syscall SyncAll (\<lambda>d. map_sum id (\<lambda>_. ((), dk_entries d)) (look d p))"

definition fs_rename :: "path \<Rightarrow> path \<Rightarrow> unit io" where
  "fs_rename a b = syscall Rename (\<lambda>d. case look d a of
     Inl e \<Rightarrow> Err e
   | Inr n \<Rightarrow> (if \<not> has_parent d b then Err NotFound
       else (case look d b of
          Inr (Directory _) \<Rightarrow> Err IoFailure
        | _ \<Rightarrow> Ok ((), with_entry d b n (without_entry d a (dk_entries d))))))"

definition unlink :: "path \<Rightarrow> unit io" where
  "unlink p = syscall Unlink (\<lambda>d. case look d p of
     Inl e \<Rightarrow> Err e
   | Inr (Directory _) \<Rightarrow> Err IoFailure
   | Inr _ \<Rightarrow> Ok ((), without_entry d p (dk_entries d)))"

subsection \<open>The blob store\<close>

definition DIR_MODE :: nat where "DIR_MODE = 448"
definition FILE_MODE :: nat where "FILE_MODE = 384"
definition MAX_BLOB_BYTES :: nat where "MAX_BLOB_BYTES = 32 * 1024 * 1024"

definition is_sha256_hex :: "string \<Rightarrow> bool" where
  "is_sha256_hex s = (length s = 64
     \<and> list_all (\<lambda>c. 48 \<le> code_point c \<and> code_point c \<le> 57 \<or> 97 \<le> code_point c \<and> code_point c \<le> 102) s)"

definition ensure_dir :: "path \<Rightarrow> unit io" where
  "ensure_dir p = io_match (symlink_metadata p)
     (\<lambda>e. if e = NotFound then io_bind (create_dir p) (\<lambda>_. set_permissions p DIR_MODE) else io_fail e)
     (\<lambda>n. case n of
        Symlink _ \<Rightarrow> io_fail AlreadyExists
      | Directory _ \<Rightarrow> set_permissions p DIR_MODE
      | _ \<Rightarrow> io_fail AlreadyExists)"

definition blob_store_new :: "unit io" where
  "blob_store_new = io_bind (ensure_dir []) (\<lambda>_. io_bind (set_permissions [] DIR_MODE) (\<lambda>_. ensure_dir [''tmp'']))"

definition blob_path :: "string \<Rightarrow> path" where
  "blob_path s = [take 2 s, s]"

definition path_for :: "string \<Rightarrow> path option" where
  "path_for s = (if is_sha256_hex s then Some (blob_path s) else None)"

definition blob_exists :: "string \<Rightarrow> disk \<Rightarrow> bool \<times> disk" where
  "blob_exists s d = (case path_for s of
     None \<Rightarrow> (False, d)
   | Some p \<Rightarrow> (case symlink_metadata p d of
        (Inl _, d1) \<Rightarrow> (False, d1)
      | (Inr n, d1) \<Rightarrow> (is_file n, d1)))"

definition read_no_follow :: "path \<Rightarrow> bytes io" where
  "read_no_follow p = syscall OpenRead (\<lambda>d. case look d p of
     Inl e \<Rightarrow> Err e
   | Inr (Symlink _) \<Rightarrow> Err IoFailure
   | Inr (Regular b _) \<Rightarrow> (if length b > MAX_BLOB_BYTES then Err InvalidData else Ok (b, dk_entries d))
   | Inr _ \<Rightarrow> Err NotFound)"

definition read_at :: "(bytes \<Rightarrow> string) \<Rightarrow> path \<Rightarrow> string \<Rightarrow> bytes io" where
  "read_at digest p s = io_bind (read_no_follow p)
     (\<lambda>b. if digest b \<noteq> s then io_fail InvalidData else io_return b)"

definition replace_existing :: "path \<Rightarrow> path \<Rightarrow> io_error \<Rightarrow> unit io" where
  "replace_existing tmp final orig = io_match (symlink_metadata final)
     (\<lambda>_. io_fail orig)
     (\<lambda>n. if is_file n then io_bind (unlink final) (\<lambda>_. fs_rename tmp final) else io_fail orig)"

definition publish :: "(bytes \<Rightarrow> string) \<Rightarrow> path \<Rightarrow> path \<Rightarrow> string \<Rightarrow> unit io" where
  "publish digest tmp final s = io_match (fs_rename tmp final)
     (\<lambda>e. io_match (read_at digest final s) (\<lambda>_. replace_existing tmp final e) (\<lambda>_. io_return ()))
     (\<lambda>_. io_return ())"

text \<open>The process id and the nanoseconds of the clock are the argument \<open>uniq\<close>.\<close>

definition unique_name :: "string \<Rightarrow> disk \<Rightarrow> string \<times> disk" where
  "unique_name uniq d = (uniq @ ''-'' @ dec (dk_counter d), d\<lparr>dk_counter := u64_add (dk_counter d) 1\<rparr>)"

text \<open>\<open>TempGuard\<close>: whatever the body answers, the staged file is removed, and a failure of that is ignored.\<close>

definition temp_guard :: "path \<Rightarrow> 'a io \<Rightarrow> 'a io" where
  "temp_guard tmp body d = (case body d of (r, d1) \<Rightarrow> (r, snd (unlink tmp d1)))"

definition stage_and_publish :: "(bytes \<Rightarrow> string) \<Rightarrow> string \<Rightarrow> bytes \<Rightarrow> string \<Rightarrow> string io" where
  "stage_and_publish digest uniq b s d =
    (let (name, d1) = unique_name uniq d; tmp = [''tmp'', name]
     in temp_guard tmp
          (io_bind (create_new tmp FILE_MODE) (\<lambda>_.
           io_bind (write_all tmp b) (\<lambda>_.
           io_bind (sync_all tmp) (\<lambda>_.
           io_bind (set_permissions tmp FILE_MODE) (\<lambda>_.
           io_bind (publish digest tmp (blob_path s) s) (\<lambda>_.
           io_bind (sync_all [take 2 s]) (\<lambda>_. io_return s))))))) d1)"

definition blob_put :: "(bytes \<Rightarrow> string) \<Rightarrow> string \<Rightarrow> bytes \<Rightarrow> string io" where
  "blob_put digest uniq b =
    (let s = digest b; store = stage_and_publish digest uniq b s
     in io_bind (ensure_dir []) (\<lambda>_.
        io_bind (ensure_dir [''tmp'']) (\<lambda>_.
        io_bind (ensure_dir [take 2 s]) (\<lambda>_.
        io_match (symlink_metadata (blob_path s))
          (\<lambda>e. if e = NotFound then store else io_fail e)
          (\<lambda>n. case n of
             Symlink _ \<Rightarrow> io_fail AlreadyExists
           | Regular _ _ \<Rightarrow> io_match (read_at digest (blob_path s) s) (\<lambda>_. store) (\<lambda>_. io_return s)
           | _ \<Rightarrow> io_fail AlreadyExists)))))"

definition blob_read :: "(bytes \<Rightarrow> string) \<Rightarrow> string \<Rightarrow> bytes io" where
  "blob_read digest s = (case path_for s of None \<Rightarrow> io_fail InvalidInput | Some p \<Rightarrow> read_at digest p s)"

text \<open>
  The directory of the blob is opened without following a link at its end; the entry is
  then removed by name.
\<close>

definition open_directory :: "path \<Rightarrow> unit io" where
  "open_directory p = syscall OpenDir (\<lambda>d. case look d p of
     Inl e \<Rightarrow> Err e
   | Inr (Directory _) \<Rightarrow> Ok ((), dk_entries d)
   | Inr _ \<Rightarrow> Err NotADirectory)"

definition delete_no_follow :: "path \<Rightarrow> unit io" where
  "delete_no_follow p = io_match (open_directory (butlast p))
     (\<lambda>e. if e = NotFound then io_return () else io_fail e)
     (\<lambda>_. io_match (unlink p) (\<lambda>e. if e = NotFound then io_return () else io_fail e) (\<lambda>_. io_return ()))"

definition blob_delete :: "string \<Rightarrow> unit io" where
  "blob_delete s = (case path_for s of None \<Rightarrow> io_return () | Some p \<Rightarrow> delete_no_follow p)"

end
