(* ===== verification/Attachments.thy ===== *)
theory Attachments
  imports Blob_Store Access
begin

text \<open>
  Attachments of messages: the index over the blobs in
  \<^verbatim>\<open>crates/server/src/store/attachment_index.rs\<close> (uploads, reads and the sweep; the citation
  by a message is in the theory of the message archive), the part of \<^verbatim>\<open>hub.rs\<close> that
  passes the configured limits on, and the two handlers of \<^verbatim>\<open>routes/attachments.rs\<close>.
  Every SQL statement outside a transaction can fail by itself and consumes one outcome
  of the storage.  The texts of the refusals are left out, their status codes are kept.
\<close>

datatype AttachError = AttachDisabled | AttachQuotaRoom | AttachQuotaBuilding | AttachStorage

record blob_serve =
  bs_bytes :: bytes
  bs_mime :: string
  bs_name :: string

text \<open>
  The server with its blob directory: \<open>va_open\<close> says whether the blob store could be opened at
  the start, the field \<open>blobs\<close> of \<open>Store\<close>.
\<close>

record vault =
  va_hub :: hub
  va_disk :: disk
  va_open :: bool

definition open_blobs :: "vault \<Rightarrow> vault" where
  "open_blobs v = (case blob_store_new (va_disk v) of (r, d) \<Rightarrow> v\<lparr>va_disk := d, va_open := is_ok r\<rparr>)"

subsection \<open>The index\<close>

definition store_attachments_enabled :: "store \<Rightarrow> bool \<Rightarrow> bool" where
  "store_attachments_enabled s blobs = (blobs \<and> sto_conn s \<noteq> None)"

definition attach_read :: "(db \<Rightarrow> 'a) \<Rightarrow> store \<Rightarrow> (AttachError, 'a) result \<times> store" where
  "attach_read f = answer_txn AttachDisabled AttachStorage (\<lambda>d. Ok (f d, d))"

definition attach_write :: "(db \<Rightarrow> db) \<Rightarrow> store \<Rightarrow> (AttachError, unit) result \<times> store" where
  "attach_write f = answer_txn AttachDisabled AttachStorage (\<lambda>d. Ok ((), f d))"

definition then_store :: "(store \<Rightarrow> (AttachError, 'a) result \<times> store) \<Rightarrow> ('a \<Rightarrow> store \<Rightarrow> (AttachError, 'b) result \<times> store) \<Rightarrow>
    store \<Rightarrow> (AttachError, 'b) result \<times> store" where
  "then_store f g s = (case f s of (Inl e, s1) \<Rightarrow> (Err e, s1) | (Inr x, s1) \<Rightarrow> g x s1)"

definition room_has_sha :: "string \<Rightarrow> string \<Rightarrow> db \<Rightarrow> bool" where
  "room_has_sha room sh d = (list_ex (\<lambda>((rm, _, sh'), _). rm = room \<and> sh' = sh) (db_refs d)
     \<or> list_ex (\<lambda>((sh', rm), _). rm = room \<and> sh' = sh) (db_pending d))"

definition building_used :: "db \<Rightarrow> u64" where
  "building_used d = sum_list (map bl_size (hm_values (db_blobs d)))"

definition room_used :: "string \<Rightarrow> db \<Rightarrow> u64" where
  "room_used room d = sum_list (map snd (remdups
     (map (\<lambda>((_, _, sh), f). (sh, rf_size f)) (filter (\<lambda>((rm, _, _), _). rm = room) (db_refs d))
      @ map (\<lambda>((sh, _), p). (sh, pr_size p)) (filter (\<lambda>((_, rm), _). rm = room) (db_pending d)))))"

definition check_quota :: "string \<Rightarrow> string \<Rightarrow> u64 \<Rightarrow> u64 \<Rightarrow> u64 \<Rightarrow> store \<Rightarrow> (AttachError, unit) result \<times> store" where
  "check_quota room sh sz room_max building_max =
     then_store (attach_read (\<lambda>d. \<not> hm_contains (db_blobs d) sh)) (\<lambda>blob_is_new.
     then_store (attach_read (\<lambda>d. \<not> room_has_sha room sh d)) (\<lambda>new_to_room.
     then_store (if blob_is_new
        then then_store (attach_read building_used) (\<lambda>used s.
          (if u64_saturating_add used sz > building_max then Err AttachQuotaBuilding else Ok (), s))
        else Pair (Ok ())) (\<lambda>_.
     if new_to_room
        then then_store (attach_read (room_used room)) (\<lambda>used s.
          (if u64_saturating_add used sz > room_max then Err AttachQuotaRoom else Ok (), s))
        else Pair (Ok ()))))"

definition insert_blob_row :: "string \<Rightarrow> string \<Rightarrow> u64 \<Rightarrow> u64 \<Rightarrow> db \<Rightarrow> db" where
  "insert_blob_row sh mime sz now d =
     (if hm_contains (db_blobs d) sh then d
      else d\<lparr>db_blobs := hm_insert sh \<lparr> bl_mime = mime, bl_size = sz, bl_created_at = now \<rparr> (db_blobs d)\<rparr>)"

definition insert_pending_row :: "string \<Rightarrow> string \<Rightarrow> string \<Rightarrow> string \<Rightarrow> string \<Rightarrow> u64 \<Rightarrow> u64 \<Rightarrow> db \<Rightarrow> db" where
  "insert_pending_row sh room uploader name mime sz now d =
     d\<lparr>db_pending := hm_insert (sh, room) \<lparr> pr_uploader = uploader, pr_name = name, pr_mime = mime, pr_size = sz,
        pr_created_at = now \<rparr> (db_pending d)\<rparr>"

definition store_put_pending_attachment ::
  "(bytes \<Rightarrow> string) \<Rightarrow> string \<Rightarrow> string \<Rightarrow> string \<Rightarrow> string \<Rightarrow> string \<Rightarrow> bytes \<Rightarrow> u64 \<Rightarrow> u64 \<Rightarrow> u64 \<Rightarrow>
     store \<times> disk \<times> bool \<Rightarrow> (AttachError, attachment) result \<times> store \<times> disk" where
  "store_put_pending_attachment digest uniq room uploader name mime b now room_max building_max = (\<lambda>(s, dk, blobs).
     if \<not> store_attachments_enabled s blobs then (Err AttachDisabled, s, dk)
     else let sh = digest b; sz = length b
       in case check_quota room sh sz room_max building_max s of
            (Inl e, s1) \<Rightarrow> (Err e, s1, dk)
          | (Inr _, s1) \<Rightarrow>
              (case blob_put digest uniq b dk of
                 (Inl _, dk1) \<Rightarrow> (Err AttachStorage, s1, dk1)
               | (Inr _, dk1) \<Rightarrow>
                   (case then_store (attach_write (insert_blob_row sh mime sz now))
                           (\<lambda>_. attach_write (insert_pending_row sh room uploader name mime sz now)) s1 of
                      (Inl e, s2) \<Rightarrow> (Err e, s2, dk1)
                    | (Inr _, s2) \<Rightarrow>
                        (Ok \<lparr> at_id = sh, at_sha256 = sh, at_name = name, at_mime = mime, at_size = sz \<rparr>, s2, dk1))))"

definition store_read_room_attachment ::
  "(bytes \<Rightarrow> string) \<Rightarrow> string \<Rightarrow> string \<Rightarrow> store \<times> disk \<times> bool \<Rightarrow> blob_serve option \<times> disk" where
  "store_read_room_attachment digest room i = (\<lambda>(s, dk, blobs).
     if \<not> blobs then (None, dk)
     else case sto_conn s of
       None \<Rightarrow> (None, dk)
     | Some d \<Rightarrow>
         (case find (\<lambda>((rm, _, sh), _). rm = room \<and> sh = i) (db_refs d) of
            None \<Rightarrow> (None, dk)
          | Some (_, f) \<Rightarrow>
              (case blob_read digest i dk of
                 (Inl _, dk1) \<Rightarrow> (None, dk1)
               | (Inr b, dk1) \<Rightarrow> (Some \<lparr> bs_bytes = b, bs_mime = rf_mime f, bs_name = rf_name f \<rparr>, dk1))))"

text \<open>The casts to \<open>i64\<close> of the sweep.\<close>

definition as_i64 :: "u64 \<Rightarrow> int" where
  "as_i64 n = (let m = n mod 2 ^ 64 in if m < 2 ^ 63 then int m else int m - 2 ^ 64)"

definition i64_saturating_sub :: "int \<Rightarrow> int \<Rightarrow> int" where
  "i64_saturating_sub a b = max (- (2 ^ 63)) (min (2 ^ 63 - 1) (a - b))"

definition drop_pending :: "int \<Rightarrow> db \<Rightarrow> db" where
  "drop_pending cutoff d = d\<lparr>db_pending := hm_retain (\<lambda>_ p. \<not> as_i64 (pr_created_at p) < cutoff) (db_pending d)\<rparr>"

definition orphan_blobs :: "db \<Rightarrow> string list" where
  "orphan_blobs d = filter (\<lambda>sh. \<not> list_ex (\<lambda>((_, _, sh'), _). sh' = sh) (db_refs d)
     \<and> \<not> list_ex (\<lambda>((sh', _), _). sh' = sh) (db_pending d)) (hm_keys (db_blobs d))"

definition drop_blob :: "string \<Rightarrow> db \<Rightarrow> db" where
  "drop_blob sh d = d\<lparr>db_blobs := hm_remove sh (db_blobs d)\<rparr>"

fun collect_orphans :: "string list \<Rightarrow> store \<times> disk \<Rightarrow> nat \<times> store \<times> disk" where
  "collect_orphans [] (s, dk) = (0, s, dk)"
| "collect_orphans (sh # shs) (s, dk) = (case blob_delete sh dk of
     (Inl _, dk1) \<Rightarrow> collect_orphans shs (s, dk1)
   | (Inr _, dk1) \<Rightarrow>
       (case collect_orphans shs (snd (attach_write (drop_blob sh) s), dk1) of (n, rest) \<Rightarrow> (Suc n, rest)))"

definition store_sweep_attachments :: "u64 \<Rightarrow> u64 \<Rightarrow> store \<times> disk \<times> bool \<Rightarrow> nat \<times> store \<times> disk" where
  "store_sweep_attachments now ttl = (\<lambda>(s, dk, blobs).
     if \<not> store_attachments_enabled s blobs then (0, s, dk)
     else let s1 = snd (attach_write (drop_pending (i64_saturating_sub (as_i64 now) (as_i64 ttl))) s)
       in case attach_read orphan_blobs s1 of
            (Inl _, s2) \<Rightarrow> (0, s2, dk)
          | (Inr orphans, s2) \<Rightarrow> collect_orphans orphans (s2, dk))"

subsection \<open>The limits\<close>

definition attachment_env_u64 :: "(string \<Rightarrow> string option) \<Rightarrow> string \<Rightarrow> u64 \<Rightarrow> u64" where
  "attachment_env_u64 env key fallback = (case Option.bind (env key) parse_u64 of
     Some v \<Rightarrow> if v > 0 then v else fallback
   | None \<Rightarrow> fallback)"

definition ATTACHMENT_MAX_BYTES_DEFAULT :: u64 where "ATTACHMENT_MAX_BYTES_DEFAULT = 10 * 1024 * 1024"
definition ATTACHMENT_ROOM_MAX_BYTES_DEFAULT :: u64 where "ATTACHMENT_ROOM_MAX_BYTES_DEFAULT = 200 * 1024 * 1024"
definition ATTACHMENT_BUILDING_MAX_BYTES_DEFAULT :: u64 where
  "ATTACHMENT_BUILDING_MAX_BYTES_DEFAULT = 2 * 1024 * 1024 * 1024"
definition ATTACHMENT_PENDING_TTL_MS_DEFAULT :: u64 where "ATTACHMENT_PENDING_TTL_MS_DEFAULT = 60 * 60 * 1000"

definition attachment_max_bytes :: "(string \<Rightarrow> string option) \<Rightarrow> u64" where
  "attachment_max_bytes env = attachment_env_u64 env ''ATTACHMENT_MAX_BYTES'' ATTACHMENT_MAX_BYTES_DEFAULT"

definition room_quota :: "(string \<Rightarrow> string option) \<Rightarrow> u64" where
  "room_quota env = attachment_env_u64 env ''ATTACHMENT_ROOM_MAX_BYTES'' ATTACHMENT_ROOM_MAX_BYTES_DEFAULT"

definition building_quota :: "(string \<Rightarrow> string option) \<Rightarrow> u64" where
  "building_quota env = attachment_env_u64 env ''ATTACHMENT_BUILDING_MAX_BYTES'' ATTACHMENT_BUILDING_MAX_BYTES_DEFAULT"

subsection \<open>The hub\<close>

definition attachments_enabled :: "vault \<Rightarrow> bool" where
  "attachments_enabled v = store_attachments_enabled (h_store (va_hub v)) (va_open v)"

definition put_pending_attachment ::
  "(bytes \<Rightarrow> string) \<Rightarrow> (string \<Rightarrow> string option) \<Rightarrow> string \<Rightarrow> string \<Rightarrow> string \<Rightarrow> string \<Rightarrow> string \<Rightarrow> bytes \<Rightarrow> u64 \<Rightarrow>
     vault \<Rightarrow> (AttachError, attachment) result \<times> vault" where
  "put_pending_attachment digest env uniq room uploader name mime b now v =
    (case store_put_pending_attachment digest uniq room uploader name mime b now (room_quota env) (building_quota env)
            (h_store (va_hub v), va_disk v, va_open v) of
       (r, s, dk) \<Rightarrow> (r, v\<lparr>va_hub := (va_hub v)\<lparr>h_store := s\<rparr>, va_disk := dk\<rparr>))"

definition read_room_attachment :: "(bytes \<Rightarrow> string) \<Rightarrow> string \<Rightarrow> string \<Rightarrow> vault \<Rightarrow> blob_serve option \<times> vault" where
  "read_room_attachment digest room i v =
    (case store_read_room_attachment digest room i (h_store (va_hub v), va_disk v, va_open v) of
       (r, dk) \<Rightarrow> (r, v\<lparr>va_disk := dk\<rparr>))"

definition sweep_attachments :: "(string \<Rightarrow> string option) \<Rightarrow> u64 \<Rightarrow> vault \<Rightarrow> nat \<times> vault" where
  "sweep_attachments env now v =
    (case store_sweep_attachments now (attachment_env_u64 env ''ATTACHMENT_PENDING_TTL_MS'' ATTACHMENT_PENDING_TTL_MS_DEFAULT)
            (h_store (va_hub v), va_disk v, va_open v) of
       (n, s, dk) \<Rightarrow> (n, v\<lparr>va_hub := (va_hub v)\<lparr>h_store := s\<rparr>, va_disk := dk\<rparr>))"

subsection \<open>What the handlers decide from the bytes and the headers\<close>

text \<open>\<open>std::str::from_utf8\<close>: the well-formed byte sequences.\<close>

definition cont :: "nat \<Rightarrow> bool" where
  "cont b = (128 \<le> b \<and> b \<le> 191)"

fun utf8_valid :: "nat list \<Rightarrow> bool" where
  "utf8_valid [] = True"
| "utf8_valid (a # bs) =
    (if a < 128 then utf8_valid bs
     else case bs of
       [] \<Rightarrow> False
     | b # cs \<Rightarrow>
         if 194 \<le> a \<and> a \<le> 223 then cont b \<and> utf8_valid cs
         else case cs of
           [] \<Rightarrow> False
         | c # ds \<Rightarrow>
             if 224 \<le> a \<and> a \<le> 239
             then cont b \<and> (a = 224 \<longrightarrow> 160 \<le> b) \<and> (a = 237 \<longrightarrow> b \<le> 159) \<and> cont c \<and> utf8_valid ds
             else case ds of
               [] \<Rightarrow> False
             | e # es \<Rightarrow>
                 240 \<le> a \<and> a \<le> 244 \<and> cont b \<and> (a = 240 \<longrightarrow> 144 \<le> b) \<and> (a = 244 \<longrightarrow> b \<le> 143)
                 \<and> cont c \<and> cont e \<and> utf8_valid es)"

definition byte_prefix :: "nat list \<Rightarrow> bytes \<Rightarrow> bool" where
  "byte_prefix p b = (map unat (take (length p) b) = p)"

definition ascii_bytes :: "string \<Rightarrow> nat list" where
  "ascii_bytes s = map code_point s"

definition sniff_mime :: "bytes \<Rightarrow> string option" where
  "sniff_mime b =
    (if byte_prefix [137, 80, 78, 71, 13, 10, 26, 10] b then Some ''image/png''
     else if byte_prefix [255, 216, 255] b then Some ''image/jpeg''
     else if length b \<ge> 12 \<and> byte_prefix (ascii_bytes ''RIFF'') b \<and> byte_prefix (ascii_bytes ''WEBP'') (drop 8 b)
     then Some ''image/webp''
     else if byte_prefix (ascii_bytes ''%PDF-'') b then Some ''application/pdf''
     else if 0 \<notin> set b \<and> utf8_valid (map unat b) then Some ''text/plain''
     else None)"

definition mime_matches :: "string \<Rightarrow> string \<Rightarrow> bool" where
  "mime_matches claimed sniffed =
    (let c = map to_ascii_lower_char (str_trim (takeWhile (\<lambda>x. x \<noteq> CHR '';'') claimed))
     in if sniffed = ''text/plain'' then c \<in> {''text/plain'', ''text/markdown'', ''text/x-markdown''} else c = sniffed)"

definition default_name :: "string \<Rightarrow> string" where
  "default_name sniffed =
    (if sniffed = ''image/png'' then ''attachment.png''
     else if sniffed = ''image/jpeg'' then ''attachment.jpg''
     else if sniffed = ''image/webp'' then ''attachment.webp''
     else if sniffed = ''application/pdf'' then ''attachment.pdf''
     else ''attachment.txt'')"

definition is_char_boundary :: "string \<Rightarrow> nat \<Rightarrow> bool" where
  "is_char_boundary s n = (n \<in> set (map (\<lambda>k. str_len (take k s)) [0..<Suc (length s)]))"

fun boundary_below :: "string \<Rightarrow> nat \<Rightarrow> nat" where
  "boundary_below s 0 = 0"
| "boundary_below s (Suc n) = (if is_char_boundary s (Suc n) then Suc n else boundary_below s n)"

fun byte_slice :: "string \<Rightarrow> nat \<Rightarrow> string" where
  "byte_slice [] n = []"
| "byte_slice (c # cs) n = (if str_len [c] \<le> n then c # byte_slice cs (n - str_len [c]) else [])"

definition cap_bytes :: "string \<Rightarrow> nat \<Rightarrow> string" where
  "cap_bytes s m = (if str_len s \<le> m then s else byte_slice s (boundary_below s m))"

definition sanitize_filename :: "string option \<Rightarrow> string \<Rightarrow> string" where
  "sanitize_filename raw sniffed =
    (let cleaned = map (\<lambda>c. if c = CHR ''/'' \<or> c = CHR 0x5C then CHR ''_'' else c)
           (filter (\<lambda>c. \<not> is_control c) (case raw of None \<Rightarrow> [] | Some r \<Rightarrow> r));
         capped = cap_bytes (str_trim cleaned) 255
     in if capped = [] then default_name sniffed else capped)"

definition disposition_safe :: "string \<Rightarrow> string" where
  "disposition_safe name = map (\<lambda>c. if c = CHR 0x22 \<or> c = CHR 0x5C then CHR ''_'' else c) name"

subsection \<open>The handlers\<close>

record attach_headers =
  ah_content_type :: string
  ah_nosniff :: bool
  ah_disposition :: string

datatype attach_response = AttachRefused nat | AttachCreated attachment | AttachServed attach_headers bytes

definition uploader_of :: "session_identity \<Rightarrow> string" where
  "uploader_of idy = (case si_member idy of
     Some m \<Rightarrow> ''mb:'' @ m
   | None \<Rightarrow> (case si_kind idy of Agent \<Rightarrow> ''agent'' | User \<Rightarrow> ''user'') @ '':'' @ si_name idy)"

definition attach_status :: "AttachError \<Rightarrow> nat" where
  "attach_status e = (case e of AttachDisabled \<Rightarrow> 503 | AttachQuotaRoom \<Rightarrow> 413 | AttachQuotaBuilding \<Rightarrow> 413
     | AttachStorage \<Rightarrow> 503)"

definition upload_attachment ::
  "(bytes \<Rightarrow> string) \<Rightarrow> digest \<Rightarrow> (string \<Rightarrow> string option) \<Rightarrow> string \<Rightarrow> u64 \<Rightarrow> u64 \<Rightarrow> string \<Rightarrow> string option \<Rightarrow>
     string option \<Rightarrow> string option \<Rightarrow> bytes \<Rightarrow> vault \<Rightarrow> attach_response \<times> vault" where
  "upload_attachment digest sha env uniq now clock room session content_type filename b v =
    (if \<not> attachments_enabled v then (AttachRefused 503, v)
     else case session_identity_of sha now clock session (va_hub v) of
       (identity, h1) \<Rightarrow>
         let v1 = v\<lparr>va_hub := h1\<rparr>
         in if identity = None \<and> (session \<noteq> None \<or> h_require_sessions h1) then (AttachRefused 401, v1)
            else if b = [] then (AttachRefused 400, v1)
            else if length b > attachment_max_bytes env then (AttachRefused 413, v1)
            else case sniff_mime b of
              None \<Rightarrow> (AttachRefused 415, v1)
            | Some sniffed \<Rightarrow>
                if (case content_type of None \<Rightarrow> False | Some claimed \<Rightarrow> \<not> mime_matches claimed sniffed)
                then (AttachRefused 415, v1)
                else (case put_pending_attachment digest env uniq room
                        (case identity of Some idy \<Rightarrow> uploader_of idy | None \<Rightarrow> ''anon'')
                        (sanitize_filename filename sniffed) sniffed b now v1 of
                    (Inl e, v2) \<Rightarrow> (AttachRefused (attach_status e), v2)
                  | (Inr att, v2) \<Rightarrow> (AttachCreated att, v2)))"

text \<open>Which strings the HTTP library takes as a header value is the parameter \<open>valid_header\<close>.\<close>

definition get_attachment ::
  "(bytes \<Rightarrow> string) \<Rightarrow> (string \<Rightarrow> bool) \<Rightarrow> string \<Rightarrow> string \<Rightarrow> vault \<Rightarrow> attach_response \<times> vault" where
  "get_attachment digest valid_header room i v =
    (if \<not> attachments_enabled v then (AttachRefused 503, v)
     else case read_room_attachment digest room i v of
       (None, v1) \<Rightarrow> (AttachRefused 404, v1)
     | (Some srv, v1) \<Rightarrow>
         let disposition = ''attachment; filename='' @ [CHR 0x22] @ disposition_safe (bs_name srv) @ [CHR 0x22]
         in (AttachServed
               \<lparr> ah_content_type = (if valid_header (bs_mime srv) then bs_mime srv else ''application/octet-stream''),
                 ah_nosniff = True,
                 ah_disposition = (if valid_header disposition then disposition else ''attachment'') \<rparr>
               (bs_bytes srv), v1))"

end
