(* ===== verification/Blob_Laws.thy ===== *)
theory Blob_Laws
  imports Blob_Store
begin

text \<open>
  What the blob store promises: no call damages an intact file of another blob, a stored
  blob is intact, and only bytes with the right hash are ever read.
\<close>

lemma syscallE:
  assumes "syscall c act d = (r, d')"
  obtains (refused) e where "r = Err e" "dk_entries d' = dk_entries d"
      "\<And>c'. dk_faults d c' = [] \<Longrightarrow> dk_faults d' c' = []"
  | (worked) x t where "r = Ok x" "act d = Ok (x, t)" "dk_entries d' = t"
      "\<And>c'. dk_faults d c' = [] \<Longrightarrow> dk_faults d' c' = []"
proof -
  define d1 where "d1 = d\<lparr>dk_faults := (dk_faults d)(c := tl (dk_faults d c))\<rparr>"
  have d1: "dk_entries d1 = dk_entries d" "\<And>c'. dk_faults d c' = [] \<Longrightarrow> dk_faults d1 c' = []"
    by (auto simp: d1_def)
  consider "(r, d') = (Err IoFailure, d1)" | e where "act d = Err e" "(r, d') = (Err e, d1)"
    | x t where "act d = Ok (x, t)" "(r, d') = (Ok x, d1\<lparr>dk_entries := t\<rparr>)"
    using assms by (auto simp: syscall_def Let_def d1_def [symmetric] split: list.splits bool.splits sum.splits)
  then show thesis using d1 by cases (auto intro: refused worked)
qed

subsection \<open>Intact blobs\<close>

definition calm :: "disk \<Rightarrow> bool" where
  "calm d = (dk_faults d OpenRead = [])"

definition is_dir :: "disk \<Rightarrow> path \<Rightarrow> bool" where
  "is_dir d p = (\<exists>m. hm_get (dk_entries d) p = Some (Directory m))"

definition holds :: "disk \<Rightarrow> path \<Rightarrow> bytes \<Rightarrow> bool" where
  "holds d p b = (\<exists>m. hm_get (dk_entries d) p = Some (Regular b m))"

definition intact :: "(bytes \<Rightarrow> string) \<Rightarrow> disk \<Rightarrow> string \<Rightarrow> bool" where
  "intact digest d s = (is_sha256_hex s \<and> is_dir d [] \<and> is_dir d [take 2 s]
     \<and> (\<exists>b. holds d (blob_path s) b \<and> digest b = s \<and> length b \<le> MAX_BLOB_BYTES))"

lemma hex_prefix: "is_sha256_hex s \<Longrightarrow> length (take 2 s) = 2"
  by (simp add: is_sha256_hex_def)

lemma hex_not_tmp [simp]: "is_sha256_hex s \<Longrightarrow> take 2 s \<noteq> ''tmp''"
  by (auto dest!: hex_prefix dest: arg_cong [where f = length])

lemma blob_path_inj [simp]: "blob_path a = blob_path b \<longleftrightarrow> a = b"
  by (auto simp: blob_path_def)

lemma look_root: "look d [] = Ok n \<longleftrightarrow> hm_get (dk_entries d) [] = Some n"
  by (auto simp: look_def split: option.splits)

lemma look_below:
  "is_dir d [] \<Longrightarrow> look d [a] = (case hm_get (dk_entries d) [a] of None \<Rightarrow> Err NotFound | Some n \<Rightarrow> Ok n)"
  "is_dir d [] \<Longrightarrow> is_dir d [a] \<Longrightarrow>
     look d [a, b] = (case hm_get (dk_entries d) [a, b] of None \<Rightarrow> Err NotFound | Some n \<Rightarrow> Ok n)"
  by (auto simp: look_def is_dir_def)

text \<open>An operation that takes nothing away but the files in \<open>E\<close>: other entries keep their content.\<close>

definition same_kind :: "node option \<Rightarrow> node option \<Rightarrow> bool" where
  "same_kind a b = (a = None \<or> b = a \<or> (\<exists>m m'. a = Some (Directory m) \<and> b = Some (Directory m'))
     \<or> (\<exists>x m m'. a = Some (Regular x m) \<and> b = Some (Regular x m')))"

definition spares :: "path set \<Rightarrow> disk \<Rightarrow> disk \<Rightarrow> bool" where
  "spares E d d' = ((\<forall>p. p \<notin> E \<longrightarrow> same_kind (hm_get (dk_entries d) p) (hm_get (dk_entries d') p))
     \<and> (calm d \<longrightarrow> calm d'))"

lemma same_kind_refl [simp]: "same_kind a a"
  by (simp add: same_kind_def)

lemma same_kind_trans: "same_kind a b \<Longrightarrow> same_kind b c \<Longrightarrow> same_kind a c"
  by (auto simp: same_kind_def)

lemma spares_refl [simp]: "spares E d d"
  by (simp add: spares_def is_dir_def)

lemma spares_trans: "spares E a b \<Longrightarrow> spares E b c \<Longrightarrow> spares E a c"
  unfolding spares_def is_dir_def by (meson same_kind_trans)

lemma spares_mono: "spares E d d' \<Longrightarrow> E \<subseteq> F \<Longrightarrow> spares F d d'"
  by (auto simp: spares_def)

lemma spares_dir: "spares E d d' \<Longrightarrow> p \<notin> E \<Longrightarrow> is_dir d p \<Longrightarrow> is_dir d' p"
  unfolding spares_def is_dir_def same_kind_def by fastforce

lemma spares_holds: "spares E d d' \<Longrightarrow> p \<notin> E \<Longrightarrow> holds d p b \<Longrightarrow> holds d' p b"
  unfolding spares_def holds_def same_kind_def by fastforce

text \<open>\<open>E\<close> holds paths of files: two names below the root.\<close>

lemma spares_intact:
  assumes "spares E d d'" "\<And>p. p \<in> E \<Longrightarrow> length p = 2" "blob_path s \<notin> E" "intact digest d s"
  shows "intact digest d' s"
proof -
  have "[] \<notin> E" "[take 2 s] \<notin> E" using assms(2) by fastforce+
  with assms show ?thesis unfolding intact_def by (blast intro: spares_dir spares_holds)
qed

locale disk_operation =
  fixes E :: "path set" and op :: "'a io"
  assumes footprint: "op d = (r, d') \<Longrightarrow> spares E d d'" and files: "p \<in> E \<Longrightarrow> length p = 2"
begin

lemma leaves_intact: "op d = (r, d') \<Longrightarrow> blob_path s \<notin> E \<Longrightarrow> intact digest d s \<Longrightarrow> intact digest d' s"
  using spares_intact footprint files by blast

lemma stays_calm: "op d = (r, d') \<Longrightarrow> calm d \<Longrightarrow> calm d'"
  using footprint by (auto simp: spares_def)

lemma keeps_dir: "op d = (r, d') \<Longrightarrow> length p \<noteq> 2 \<Longrightarrow> is_dir d p \<Longrightarrow> is_dir d' p"
  using footprint spares_dir files by blast

lemma keeps_file: "op d = (r, d') \<Longrightarrow> p \<notin> E \<Longrightarrow> holds d p b \<Longrightarrow> holds d' p b"
  using footprint spares_holds by blast

end

lemma op_match:
  assumes "disk_operation E f" "\<And>e. disk_operation E (h e)" "\<And>x. disk_operation E (g x)"
  shows "disk_operation E (io_match f h g)"
proof
  fix d r d'
  assume op: "io_match f h g d = (r, d')"
  obtain q d1 where f: "f d = (q, d1)" by fastforce
  have "spares E d1 d'"
  proof (cases q)
    case (Inl e)
    then show ?thesis using disk_operation.footprint [OF assms(2)] op f by (simp add: io_match_def)
  next
    case (Inr x)
    then show ?thesis using disk_operation.footprint [OF assms(3)] op f by (simp add: io_match_def)
  qed
  then show "spares E d d'" using disk_operation.footprint [OF assms(1) f] spares_trans by blast
qed (rule disk_operation.files [OF assms(1)])

lemma io_bind_match: "io_bind f g = io_match f io_fail g"
  by (rule ext) (simp add: io_bind_def io_match_def io_fail_def split: prod.split sum.split)

lemma op_pure:
  "(\<And>p. p \<in> E \<Longrightarrow> length p = 2) \<Longrightarrow> disk_operation E (io_return x)"
  "(\<And>p. p \<in> E \<Longrightarrow> length p = 2) \<Longrightarrow> disk_operation E (io_fail e)"
  by (unfold_locales; auto simp: io_return_def io_fail_def)+

lemma op_bind:
  assumes "disk_operation E f" "\<And>x. disk_operation E (g x)"
  shows "disk_operation E (io_bind f g)"
  unfolding io_bind_match
  by (intro op_match assms op_pure) (rule disk_operation.files [OF assms(1)])

lemma op_if: "disk_operation E f \<Longrightarrow> disk_operation E g \<Longrightarrow> disk_operation E (if c then f else g)"
  by simp

lemma op_node:
  "(\<And>m. disk_operation E (f m)) \<Longrightarrow> (\<And>b m. disk_operation E (g b m)) \<Longrightarrow> (\<And>t. disk_operation E (h t)) \<Longrightarrow>
    disk_operation E k \<Longrightarrow> disk_operation E (case n of Directory m \<Rightarrow> f m | Regular b m \<Rightarrow> g b m | Symlink t \<Rightarrow> h t | Special \<Rightarrow> k)"
  by (cases n) auto

lemma op_syscall:
  assumes "\<And>d x t p. act d = Ok (x, t) \<Longrightarrow> p \<notin> E \<Longrightarrow> same_kind (hm_get (dk_entries d) p) (hm_get t p)"
    and "\<And>p. p \<in> E \<Longrightarrow> length p = 2"
  shows "disk_operation E (syscall c act)"
proof
  fix d r d'
  assume "syscall c act d = (r, d')"
  then show "spares E d d'"
    by (cases rule: syscallE) (use assms(1) in \<open>auto simp: spares_def calm_def\<close>)
qed (rule assms(2))

subsection \<open>The system calls\<close>

lemma in_table_iff: "in_table d p \<longleftrightarrow> (\<forall>n < length p. is_dir d (take n p))"
proof -
  have "(case x of Some (Directory _) \<Rightarrow> True | _ \<Rightarrow> False) \<longleftrightarrow> (\<exists>m. x = Some (Directory m))" for x :: "node option"
    by (auto split: option.splits node.splits)
  then show ?thesis by (simp add: in_table_def is_dir_def list_all_iff Ball_def)
qed

lemma look_in_table:
  assumes "in_table d p"
  shows "look d p = (case hm_get (dk_entries d) p of None \<Rightarrow> Err NotFound | Some n \<Rightarrow> Ok n)"
proof -
  have "resolve_path (dk_entries d) pre cs = (case hm_get (dk_entries d) (pre @ cs) of None \<Rightarrow> Err NotFound | Some n \<Rightarrow> Ok n)"
    if "\<forall>n < length cs. \<exists>m. hm_get (dk_entries d) (pre @ take n cs) = Some (Directory m)" for pre cs
    using that
  proof (induction cs arbitrary: pre)
    case (Cons c cs)
    from Cons.prems [rule_format, of 0] obtain m where "hm_get (dk_entries d) pre = Some (Directory m)" by auto
    moreover have "\<forall>n < length cs. \<exists>m. hm_get (dk_entries d) ((pre @ [c]) @ take n cs) = Some (Directory m)"
      using Cons.prems by (auto dest: spec [where x = "Suc _"])
    ultimately show ?case using Cons.IH [of "pre @ [c]"] by simp
  qed simp
  from this [of p "[]"] show ?thesis
    using assms by (simp add: look_def in_table_iff is_dir_def)
qed

lemma in_table_below [simp]:
  "in_table d []" "in_table d [a] \<longleftrightarrow> is_dir d []" "in_table d [a, b] \<longleftrightarrow> is_dir d [] \<and> is_dir d [a]"
  by (auto simp: in_table_iff less_Suc_eq numeral_2_eq_2)

lemma keep_with:
  "same_kind (hm_get t p) (hm_get (with_entry d p n t) p) \<Longrightarrow> same_kind (hm_get t q) (hm_get (with_entry d p n t) q)"
  by (cases "q = p") (auto simp: with_entry_def)

lemma get_with: "hm_get (with_entry d p n t) q = (if q = p \<and> in_table d p then Some n else hm_get t q)"
  by (simp add: with_entry_def)

lemma get_without: "hm_get (without_entry d p t) q = (if q = p \<and> in_table d p then None else hm_get t q)"
  by (simp add: without_entry_def)

lemma entry_written: "with_entry d p n t = dk_entries d' \<Longrightarrow> in_table d p \<Longrightarrow> hm_get (dk_entries d') p = Some n"
  by (drule sym) (simp add: get_with)

lemmas entry_simps = get_with get_without look_in_table same_kind_def

lemma calls_harmless:
  assumes "\<And>p. p \<in> E \<Longrightarrow> length p = 2"
  shows "disk_operation E (symlink_metadata p)" "disk_operation E (create_dir p)" "disk_operation E (set_permissions p mode)"
    "disk_operation E (create_new p mode)" "disk_operation E (sync_all p)" "disk_operation E (read_no_follow p)"
    "disk_operation E (open_directory p)"
  unfolding symlink_metadata_def create_dir_def set_permissions_def create_new_def sync_all_def read_no_follow_def
    open_directory_def
  by (rule op_syscall, use assms in \<open>auto simp: entry_simps map_sum_def split: sum.splits if_splits option.splits node.splits\<close>)+

lemma calls_on_files:
  assumes "\<And>p. p \<in> E \<Longrightarrow> length p = 2" and "p \<in> E"
  shows "disk_operation E (write_all p b)" "disk_operation E (unlink p)" "q \<in> E \<Longrightarrow> disk_operation E (fs_rename p q)"
  unfolding write_all_def unlink_def fs_rename_def
  by (rule op_syscall, use assms in \<open>auto simp: entry_simps split: sum.splits if_splits option.splits node.splits\<close>)+

subsection \<open>The operations\<close>

definition staging :: "path set" where
  "staging = {p. length p = 2 \<and> hd p = ''tmp''}"

lemma staged_path [simp]: "[''tmp'', name] \<in> staging"
  by (simp add: staging_def)

lemma blob_not_staging [simp]: "is_sha256_hex s \<Longrightarrow> blob_path s \<notin> staging"
  by (simp add: staging_def blob_path_def)

lemma files_of_put: "p \<in> insert (blob_path s) staging \<Longrightarrow> length p = 2"
  by (auto simp: staging_def blob_path_def)

interpretation directory: disk_operation "{}" "ensure_dir p" for p
  unfolding ensure_dir_def by (intro op_match op_if op_bind op_node op_pure calls_harmless) simp_all

interpretation reading: disk_operation "{}" "read_at digest p s" for digest p s
  unfolding read_at_def by (intro op_bind op_if op_pure calls_harmless) simp_all

interpretation serving: disk_operation "{}" "blob_read digest s" for digest s
  unfolding blob_read_def
  by (cases "path_for s") (auto intro: op_pure reading.disk_operation_axioms)

lemma op_wider: "disk_operation {} f \<Longrightarrow> (\<And>p. p \<in> E \<Longrightarrow> length p = 2) \<Longrightarrow> disk_operation E f"
  unfolding disk_operation_def using spares_mono by blast

interpretation publishing: disk_operation "insert (blob_path s) staging" "publish digest [''tmp'', name] (blob_path s) s"
  for digest s name
  unfolding publish_def replace_existing_def
  by (intro op_match op_bind op_if op_pure calls_harmless calls_on_files
      op_wider [OF reading.disk_operation_axioms] files_of_put) simp_all

lemma op_guard: "disk_operation E f \<Longrightarrow> tmp \<in> E \<Longrightarrow> disk_operation E (temp_guard tmp f)"
  using calls_on_files(2) [of E tmp]
  unfolding disk_operation_def temp_guard_def by (auto split: prod.splits) (metis prod.collapse spares_trans)

interpretation staging: disk_operation "insert (blob_path s) staging" "stage_and_publish digest uniq b s"
  for digest uniq b s
proof
  fix d r d'
  define d1 where "d1 = snd (unique_name uniq d)"
  define tmp where "tmp = [''tmp'', fst (unique_name uniq d)]"
  have guarded: "disk_operation (insert (blob_path s) staging) (temp_guard tmp
      (io_bind (create_new tmp FILE_MODE) (\<lambda>_. io_bind (write_all tmp b) (\<lambda>_. io_bind (sync_all tmp) (\<lambda>_.
       io_bind (set_permissions tmp FILE_MODE) (\<lambda>_. io_bind (publish digest tmp (blob_path s) s) (\<lambda>_.
       io_bind (sync_all [take 2 s]) (\<lambda>_. io_return s))))))))"
    unfolding tmp_def
    by (intro op_guard op_bind op_pure calls_harmless calls_on_files publishing.disk_operation_axioms files_of_put)
      (simp_all add: staging_def)
  assume "stage_and_publish digest uniq b s d = (r, d')"
  with disk_operation.footprint [OF guarded, of d1] have "spares (insert (blob_path s) staging) d1 d'"
    by (simp add: stage_and_publish_def d1_def tmp_def case_prod_beta Let_def)
  then show "spares (insert (blob_path s) staging) d d'"
    by (simp add: spares_def d1_def unique_name_def calm_def)
qed (rule files_of_put)

interpretation putting: disk_operation "insert (blob_path (digest b)) staging" "blob_put digest uniq b" for digest uniq b
  unfolding blob_put_def Let_def
  by (intro op_match op_bind op_if op_node op_pure calls_harmless staging.disk_operation_axioms
      op_wider [OF reading.disk_operation_axioms] op_wider [OF directory.disk_operation_axioms] files_of_put)

interpretation deletion: disk_operation "{blob_path s}" "blob_delete s" for s
  unfolding blob_delete_def delete_no_follow_def path_for_def
  by (auto intro!: op_match op_if op_pure calls_harmless calls_on_files simp: blob_path_def)

subsection \<open>Reading\<close>

lemma read_at_okD:
  assumes "read_at digest p s d = (Ok b, d')"
  shows "digest b = s \<and> length b \<le> MAX_BLOB_BYTES \<and> (\<exists>m. look d p = Ok (Regular b m)) \<and> dk_entries d' = dk_entries d"
proof -
  obtain q d1 where r: "read_no_follow p d = (q, d1)" by fastforce
  from r [unfolded read_no_follow_def] show ?thesis
    using assms r by (cases rule: syscallE)
      (auto simp: read_at_def io_bind_def io_return_def io_fail_def split: if_splits sum.splits node.splits)
qed

lemma read_at_intact:
  assumes "calm d" "intact digest d s"
  obtains b d' where "read_at digest (blob_path s) s d = (Ok b, d')"
proof -
  from assms(2) obtain b m where b: "is_dir d []" "is_dir d [take 2 s]" "digest b = s" "length b \<le> MAX_BLOB_BYTES"
    "hm_get (dk_entries d) (blob_path s) = Some (Regular b m)" by (auto simp: intact_def holds_def)
  then have "look d (blob_path s) = Ok (Regular b m)" by (simp add: look_in_table blob_path_def)
  then have "\<exists>d'. read_at digest (blob_path s) s d = (Ok b, d')"
    using b assms(1)
    by (simp add: read_at_def read_no_follow_def syscall_def calm_def io_bind_def io_return_def Let_def)
  then show thesis using that by blast
qed

lemma blob_read_okD:
  "blob_read digest s d = (Ok b, d') \<Longrightarrow> digest b = s \<and> length b \<le> MAX_BLOB_BYTES"
  by (auto simp: blob_read_def io_fail_def split: option.splits dest: read_at_okD)

lemma blob_read_intact:
  assumes "calm d" "intact digest d s"
  shows "\<exists>b d'. blob_read digest s d = (Ok b, d') \<and> digest b = s"
proof -
  obtain b d' where "read_at digest (blob_path s) s d = (Ok b, d')" by (rule read_at_intact [OF assms])
  moreover have "path_for s = Some (blob_path s)" using assms(2) by (simp add: path_for_def intact_def)
  ultimately have "blob_read digest s d = (Ok b, d')" by (simp add: blob_read_def)
  with blob_read_okD show ?thesis by blast
qed

subsection \<open>A stored blob is intact\<close>

lemma bind_okE:
  assumes "io_bind f g d = (Ok y, d')"
  obtains x d1 where "f d = (Ok x, d1)" "g x d1 = (Ok y, d')"
  using assms by (auto simp: io_bind_def split: prod.splits sum.splits)

lemma calls_okD:
  "create_new p mode d = (Ok u, d') \<Longrightarrow> in_table d p \<Longrightarrow> holds d' p []"
  "write_all p b d = (Ok u, d') \<Longrightarrow> in_table d p \<Longrightarrow> holds d' p b"
  "fs_rename p q d = (Ok u, d') \<Longrightarrow> in_table d p \<Longrightarrow> in_table d q \<Longrightarrow> holds d p b \<Longrightarrow> holds d' q b"
  unfolding create_new_def write_all_def fs_rename_def
  by (auto elim!: syscallE simp: holds_def look_in_table entry_written split: if_splits sum.splits node.splits option.splits)

lemma made_directory:
  assumes "ensure_dir p d = (Ok u, d')" "in_table d p"
  shows "is_dir d' p"
proof -
  have mode: "set_permissions p m d1 = (Ok u, d') \<Longrightarrow> is_dir d1 p \<Longrightarrow> is_dir d' p" for m d1
    using disk_operation.footprint [OF calls_harmless(3) [of "{}"]] spares_dir by blast
  obtain q d1 where st: "symlink_metadata p d = (q, d1)" by fastforce
  then have d1: "dk_entries d1 = dk_entries d" "\<And>n. q = Ok n \<Longrightarrow> look d p = Ok n"
    unfolding symlink_metadata_def by (auto elim!: syscallE simp: map_sum_def split: sum.splits)
  show ?thesis
  proof (cases q)
    case (Inl e)
    then obtain x d2 where c: "create_dir p d1 = (Ok x, d2)" and m: "set_permissions p DIR_MODE d2 = (Ok u, d')"
      using assms(1) st by (auto simp: ensure_dir_def io_match_def io_fail_def split: if_splits elim!: bind_okE)
    have "in_table d1 p" using assms(2) d1(1) by (simp add: in_table_def)
    then have "is_dir d2 p" using c unfolding create_dir_def
      by (auto elim!: syscallE simp: is_dir_def entry_written split: if_splits)
    then show ?thesis using mode m by blast
  next
    case (Inr n)
    then show ?thesis using assms st d1 mode [of DIR_MODE d1]
      by (auto simp: ensure_dir_def io_match_def io_fail_def look_in_table is_dir_def split: node.splits option.splits)
  qed
qed

lemma published:
  assumes "publish digest [''tmp'', name] (blob_path s) s d = (Ok u, d')"
    and "is_dir d []" "is_dir d [''tmp'']" "is_dir d [take 2 s]" "holds d [''tmp'', name] b" "digest b = s"
    and "length b \<le> MAX_BLOB_BYTES" "is_sha256_hex s"
  shows "\<exists>b. holds d' (blob_path s) b \<and> digest b = s \<and> length b \<le> MAX_BLOB_BYTES"
proof -
  let ?tmp = "[''tmp'', name]" and ?final = "blob_path s"
  have tables: "in_table x ?tmp" "in_table x ?final" if "spares {?final} d x" for x
    using that assms spares_dir [OF that] by (auto simp: blob_path_def)
  have tmp: "holds x ?tmp b" if "spares {?final} d x" for x
    using spares_holds [OF that, of ?tmp b] assms(5) hex_not_tmp [OF assms(8)] by (auto simp: blob_path_def dest: sym)
  obtain q d1 where r: "fs_rename ?tmp ?final d = (q, d1)" by fastforce
  show ?thesis
  proof (cases q)
    case (Inr x)
    then have "d' = d1" using assms(1) r by (simp add: publish_def io_match_def io_return_def)
    moreover have "holds d1 ?final b" using calls_okD(3) [OF r [unfolded Inr]] tables [of d] tmp [of d] by simp
    ultimately show ?thesis using assms by blast
  next
    case (Inl e)
    then have d1: "dk_entries d1 = dk_entries d" "spares {?final} d d1"
      using r unfolding fs_rename_def by (auto elim!: syscallE simp: spares_def calm_def)
    obtain q2 d2 where rd: "read_at digest ?final s d1 = (q2, d2)" by fastforce
    show ?thesis
    proof (cases q2)
      case (Inr b')
      with rd Inl r assms(1) have "d' = d2" by (simp add: publish_def io_match_def io_return_def)
      then show ?thesis using read_at_okD [OF rd [unfolded Inr]] tables(2) [OF d1(2)]
        by (auto simp: holds_def look_in_table split: option.splits)
    next
      case (Inl e2)
      have d2: "spares {?final} d d2"
        using reading.footprint [OF rd] d1(2) spares_trans spares_mono by blast
      obtain q3 d3 where st: "symlink_metadata ?final d2 = (q3, d3)" by fastforce
      have d3: "spares {?final} d d3"
        using disk_operation.footprint [OF calls_harmless(1) [of "{}"] st] d2 spares_trans spares_mono by blast
      have "replace_existing ?tmp ?final e d2 = (Ok u, d')"
        using assms(1) r \<open>q = Inl e\<close> rd Inl by (simp add: publish_def io_match_def)
      then obtain x d4 where un: "unlink ?final d3 = (Ok x, d4)" and mv: "fs_rename ?tmp ?final d4 = (Ok u, d')"
        by (auto simp: replace_existing_def io_match_def st io_fail_def split: sum.splits if_splits elim!: bind_okE)
      have "spares {?final} d d4"
        using disk_operation.footprint [OF calls_on_files(2) [of "{?final}"] un] d3 spares_trans
        by (auto simp: blob_path_def)
      then have "holds d' ?final b" using calls_okD(3) [OF mv] tables tmp by blast
      then show ?thesis using assms by blast
    qed
  qed
qed

lemma staged_intact:
  assumes "stage_and_publish digest uniq b s d = (Ok r, d')"
    and "is_dir d []" "is_dir d [''tmp'']" "is_dir d [take 2 s]" "digest b = s"
    and "length b \<le> MAX_BLOB_BYTES" "is_sha256_hex s"
  shows "r = s \<and> intact digest d' s"
proof -
  obtain name d1 where u: "unique_name uniq d = (name, d1)" by fastforce
  let ?tmp = "[''tmp'', name]"
  have e1: "dk_entries d1 = dk_entries d" using u by (auto simp: unique_name_def)
  have dirs: "is_dir d1 []" "is_dir d1 [''tmp'']" "is_dir d1 [take 2 s]" using assms(2-4) e1 by (simp_all add: is_dir_def)
  obtain d7 where body: "io_bind (create_new ?tmp FILE_MODE) (\<lambda>_. io_bind (write_all ?tmp b) (\<lambda>_.
      io_bind (sync_all ?tmp) (\<lambda>_. io_bind (set_permissions ?tmp FILE_MODE) (\<lambda>_.
      io_bind (publish digest ?tmp (blob_path s) s) (\<lambda>_. io_bind (sync_all [take 2 s]) (\<lambda>_. io_return s)))))) d1 = (Ok r, d7)"
    and d': "d' = snd (unlink ?tmp d7)"
    using assms(1) by (simp add: stage_and_publish_def u Let_def temp_guard_def split: prod.splits)
  obtain u0 d2 where c: "create_new ?tmp FILE_MODE d1 = (Ok u0, d2)"
    and b2: "io_bind (write_all ?tmp b) (\<lambda>_. io_bind (sync_all ?tmp) (\<lambda>_. io_bind (set_permissions ?tmp FILE_MODE) (\<lambda>_.
      io_bind (publish digest ?tmp (blob_path s) s) (\<lambda>_. io_bind (sync_all [take 2 s]) (\<lambda>_. io_return s))))) d2 = (Ok r, d7)"
    by (rule bind_okE [OF body]) (rule that)
  obtain u1 d3 where w: "write_all ?tmp b d2 = (Ok u1, d3)"
    and b3: "io_bind (sync_all ?tmp) (\<lambda>_. io_bind (set_permissions ?tmp FILE_MODE) (\<lambda>_.
      io_bind (publish digest ?tmp (blob_path s) s) (\<lambda>_. io_bind (sync_all [take 2 s]) (\<lambda>_. io_return s)))) d3 = (Ok r, d7)"
    by (rule bind_okE [OF b2]) (rule that)
  obtain u2 d4 where s: "sync_all ?tmp d3 = (Ok u2, d4)"
    and b4: "io_bind (set_permissions ?tmp FILE_MODE) (\<lambda>_.
      io_bind (publish digest ?tmp (blob_path s) s) (\<lambda>_. io_bind (sync_all [take 2 s]) (\<lambda>_. io_return s))) d4 = (Ok r, d7)"
    by (rule bind_okE [OF b3]) (rule that)
  obtain u3 d5 where m: "set_permissions ?tmp FILE_MODE d4 = (Ok u3, d5)"
    and b5: "io_bind (publish digest ?tmp (blob_path s) s) (\<lambda>_. io_bind (sync_all [take 2 s]) (\<lambda>_. io_return s)) d5 = (Ok r, d7)"
    by (rule bind_okE [OF b4]) (rule that)
  obtain u4 d6 where p: "publish digest ?tmp (blob_path s) s d5 = (Ok u4, d6)"
    and b6: "io_bind (sync_all [take 2 s]) (\<lambda>_. io_return s) d6 = (Ok r, d7)"
    by (rule bind_okE [OF b5]) (rule that)
  from b6 obtain u5 where f: "sync_all [take 2 s] d6 = (Ok u5, d7)" and r: "r = s"
    by (auto simp: io_bind_def io_return_def split: prod.splits sum.splits)
  have no: "spares {} x y" if "sync_all p x = (q, y) \<or> set_permissions p n x = (q, y) \<or> create_new p n x = (q, y)" for p q x y n
    using that disk_operation.footprint [OF calls_harmless(3) [of "{}"]] disk_operation.footprint [OF calls_harmless(4) [of "{}"]]
      disk_operation.footprint [OF calls_harmless(5) [of "{}"]] by blast
  have t2: "spares {} d1 d2" using no c by blast
  then have dirs2: "is_dir d2 []" "is_dir d2 [''tmp'']" "is_dir d2 [take 2 s]" using dirs spares_dir by blast+
  have t3: "spares staging d2 d3"
    using disk_operation.footprint [OF calls_on_files(1) [of staging] w] by (simp add: staging_def)
  then have dirs3: "is_dir d3 []" "is_dir d3 [''tmp'']" "is_dir d3 [take 2 s]"
    using dirs2 spares_dir [OF t3] by (simp_all add: staging_def)
  have h3: "holds d3 ?tmp b" using calls_okD(2) [OF w] dirs2 by simp
  have t5: "spares {} d3 d5" using no s m spares_trans by blast
  then have dirs5: "is_dir d5 []" "is_dir d5 [''tmp'']" "is_dir d5 [take 2 s]" and h5: "holds d5 ?tmp b"
    using dirs3 h3 spares_dir spares_holds by blast+
  from published [OF p dirs5 h5 assms(5-7)] obtain b' where
    h6: "holds d6 (blob_path s) b'" "digest b' = s" "length b' \<le> MAX_BLOB_BYTES" by blast
  have "is_dir d6 []" "is_dir d6 [take 2 s]" using publishing.keeps_dir [OF p] dirs5 by simp_all
  then have i6: "intact digest d6 s" using h6 assms(7) by (auto simp: intact_def)
  have "spares {} d6 d7" using no f by blast
  then have i7: "intact digest d7 s" using i6 spares_intact by blast
  obtain q d8 where un: "unlink ?tmp d7 = (q, d8)" by fastforce
  have "spares staging d7 d8"
    using disk_operation.footprint [OF calls_on_files(2) [of staging] un] by (simp add: staging_def)
  then have "intact digest d8 s"
    by (rule spares_intact) (use i7 assms(7) in \<open>auto simp: staging_def blob_path_def\<close>)
  then show ?thesis using r d' un by simp
qed

lemma put_okD:
  assumes "blob_put digest uniq b d = (Ok r, d')" "is_sha256_hex (digest b)" "length b \<le> MAX_BLOB_BYTES"
  shows "r = digest b \<and> intact digest d' (digest b)"
proof -
  let ?s = "digest b"
  from assms(1) obtain u0 u1 u2 d1 d2 d3 where
    root: "ensure_dir [] d = (Ok u0, d1)" and tmp: "ensure_dir [''tmp''] d1 = (Ok u1, d2)"
    and shard: "ensure_dir [take 2 ?s] d2 = (Ok u2, d3)"
    and rest: "io_match (symlink_metadata (blob_path ?s))
          (\<lambda>e. if e = NotFound then stage_and_publish digest uniq b ?s else io_fail e)
          (\<lambda>n. case n of
             Symlink _ \<Rightarrow> io_fail AlreadyExists
           | Regular _ _ \<Rightarrow> io_match (read_at digest (blob_path ?s) ?s) (\<lambda>_. stage_and_publish digest uniq b ?s) (\<lambda>_. io_return ?s)
           | _ \<Rightarrow> io_fail AlreadyExists) d3 = (Ok r, d')"
    by (auto simp: blob_put_def Let_def elim!: bind_okE)
  have d1: "is_dir d1 []" by (rule made_directory [OF root]) simp
  have d2: "is_dir d2 []" using directory.keeps_dir [OF tmp _ d1] by simp
  have t2: "is_dir d2 [''tmp'']" by (rule made_directory [OF tmp]) (simp add: d1)
  have d3: "is_dir d3 []" "is_dir d3 [''tmp'']" using directory.keeps_dir [OF shard] d2 t2 by simp_all
  have s3: "is_dir d3 [take 2 ?s]" by (rule made_directory [OF shard]) (simp add: d2)
  obtain q d4 where st: "symlink_metadata (blob_path ?s) d3 = (q, d4)" by fastforce
  have t4: "spares {} d3 d4" using disk_operation.footprint [OF calls_harmless(1) [of "{}"] st] by simp
  have store: "r = ?s \<and> intact digest d' ?s" if "stage_and_publish digest uniq b ?s x = (Ok r, d')" "spares {} d3 x" for x
    using spares_dir [OF that(2)] d3 s3 assms(2,3) by (intro staged_intact [OF that(1)]) auto
  show ?thesis
  proof (cases q)
    case (Inl e)
    then show ?thesis using rest st store t4 by (auto simp: io_match_def io_fail_def split: if_splits)
  next
    case (Inr n)
    obtain q5 d5 where rd: "read_at digest (blob_path ?s) ?s d4 = (q5, d5)" by fastforce
    have t5: "spares {} d3 d5" using reading.footprint [OF rd] t4 spares_trans by blast
    from rest Inr st have "n \<noteq> Special \<and> (\<exists>x m. n = Regular x m)" by (cases n) (auto simp: io_match_def io_fail_def)
    then have cont: "(case q5 of Inl _ \<Rightarrow> stage_and_publish digest uniq b ?s d5 | Inr _ \<Rightarrow> (Ok ?s, d5)) = (Ok r, d')"
      using rest Inr st rd by (auto simp: io_match_def io_return_def split: sum.splits)
    show ?thesis
    proof (cases q5)
      case (Inl e)
      then show ?thesis using cont store t5 by simp
    next
      case (Inr x)
      have "is_dir d4 []" "is_dir d4 [take 2 ?s]" using spares_dir [OF t4] d3 s3 by auto
      then have "intact digest d4 ?s"
        using read_at_okD [OF rd [unfolded Inr]] assms(2)
        by (auto simp: intact_def holds_def look_in_table blob_path_def split: option.splits)
      then have "intact digest d5 ?s" by (rule reading.leaves_intact [OF rd, rotated]) simp
      then show ?thesis using cont Inr by simp
    qed
  qed
qed

text \<open>While files can be read, storing bytes damages nothing: an intact file is found and left alone.\<close>

lemma put_leaves_intact:
  assumes "blob_put digest uniq b d = (r, d')" "calm d" "intact digest d s"
  shows "intact digest d' s"
proof (cases "s = digest b")
  case False
  then show ?thesis using putting.leaves_intact [OF assms(1) _ assms(3)] assms(3) by (auto simp: intact_def)
next
  case True
  have good: "calm y \<and> intact digest y s" if "f x = (q, y)" "disk_operation {} f" "calm x \<and> intact digest x s"
    for f :: "'x io" and q x y
    using that disk_operation.leaves_intact [OF that(2,1)] disk_operation.stays_calm [OF that(2,1)] by blast
  obtain q1 d1 where e1: "ensure_dir [] d = (q1, d1)" by fastforce
  obtain q2 d2 where e2: "ensure_dir [''tmp''] d1 = (q2, d2)" by fastforce
  obtain q3 d3 where e3: "ensure_dir [take 2 s] d2 = (q3, d3)" by fastforce
  obtain q4 d4 where st: "symlink_metadata (blob_path s) d3 = (q4, d4)" by fastforce
  obtain q5 d5 where rd: "read_at digest (blob_path s) s d4 = (q5, d5)" by fastforce
  note op = directory.disk_operation_axioms
  have 1: "calm d1 \<and> intact digest d1 s" using good [OF e1 op] assms by blast
  have 2: "calm d2 \<and> intact digest d2 s" using good [OF e2 op] 1 by blast
  have 3: "calm d3 \<and> intact digest d3 s" using good [OF e3 op] 2 by blast
  have 4: "calm d4 \<and> intact digest d4 s" using good [OF st calls_harmless(1)] 3 by simp
  have 5: "intact digest d5 s" using good [OF rd reading.disk_operation_axioms] 4 by blast
  have ok: "is_ok q5" using read_at_intact [of d4 digest s] 4 rd by (metis is_ok_simps(1) fst_conv)
  from 3 obtain b0 m where "look d3 (blob_path s) = Ok (Regular b0 m)"
    by (auto simp: intact_def holds_def look_in_table blob_path_def)
  then have found: "q4 = Err IoFailure \<or> q4 = Ok (Regular b0 m)"
    using st by (auto simp: symlink_metadata_def syscall_def Let_def split: list.splits bool.splits)
  have rest: "d' = d4 \<or> d' = d5" if "q1 = Ok u1" "q2 = Ok u2" "q3 = Ok u3" for u1 u2 u3
    using assms(1) e1 e2 e3 st rd found ok that
    by (cases q5) (auto simp: blob_put_def Let_def True [symmetric] io_bind_def io_match_def io_fail_def io_return_def)
  have "d' \<in> {d1, d2, d3, d4, d5}"
  proof (cases "is_ok q1 \<and> is_ok q2 \<and> is_ok q3")
    case True
    then show ?thesis using rest by (cases q1; cases q2; cases q3) auto
  next
    case False
    then show ?thesis using assms(1) e1 e2 e3 \<open>s = digest b\<close>
      by (cases q1; cases q2; cases q3) (auto simp: blob_put_def Let_def io_bind_def)
  qed
  then show ?thesis using 1 2 3 4 5 by auto
qed

end
