(* ===== verification/Attachments_Laws.thy ===== *)
theory Attachments_Laws
  imports Attachments Blob_Laws Post_Laws Rooms_Durable
begin

text \<open>
  Attachments as a system: which blobs the tables hold on to, what every operation of the
  building, the uploads and the sweep do to them, and the invariant that joins the tables
  with the files.
\<close>

subsection \<open>Posting keeps what the tables promise\<close>

text \<open>A property of the tables that accepting a message keeps as well.\<close>

locale posted_law = db_law +
  assumes on_care: "Q d \<Longrightarrow> Q (write_care room sig d)"
    and on_wait: "Q d \<Longrightarrow> Q (write_wait w d)"
    and on_answered: "Q d \<Longrightarrow> Q (db_resolve_wait_attentions room waiter at d)"
begin

lemma on_cares: "Q d \<Longrightarrow> Q (fold (write_care room) sigs d)"
  by (induction sigs arbitrary: d) (auto intro: on_care)

lemma on_post_care: "Q d \<Longrightarrow> Q (post_care room home summons wake now d)"
  by (auto simp: post_care_def on_cares intro: on_care on_wait on_answered split: option.split)

lemma durable_fresh:
  assumes "fresh_post room body adm prin now h m h'" "durable h"
  shows "durable h'"
proof -
  obtain d where d: "sto_conn (h_store h) = Some d" and q: "Q d" using assms(2) by (auto simp: durable_def stored_def)
  from assms(1) obtain rs summons wake s atts rts ts where
    s: "sto_conn s = sto_conn (h_store h)" and m: "m = post_message_of room body atts rts (h_next_id h) ts"
    and ps: "persist_post room m (operation_of body prin) rs summons wake now (h_home_room h) s = (Inr (), h_store h')"
    by (rule fresh_postE) (rule that, assumption+)
  have "m_room m = room" by (simp add: m post_message_of_def)
  from persist_post_txn [OF ps _ this, of d] s d obtain d1 d2 where
    d1: "write_optional_state room rs d = Inr d1" and d2: "insert_core m (operation_of body prin) d1 = Inr d2"
    and d': "sto_conn (h_store h') = Some (post_care room (h_home_room h) summons wake now d2)" by auto
  have "Q d1" using d1 q by (auto simp: write_optional_state_def split: option.splits prod.splits dest: on_room_state)
  then have "Q d2" using d2 by (rule on_insert)
  then show ?thesis using d' by (auto simp: durable_def stored_def on_post_care)
qed

lemma durable_post: "durable h \<Longrightarrow> durable (snd (post room body adm prin now h))"
proof -
  assume dur: "durable h"
  obtain r h' where p: "post room body adm prin now h = (r, h')" by fastforce
  have same: "sto_conn (h_store h') = sto_conn (h_store h) \<Longrightarrow> durable h'"
    using dur by (auto simp: durable_def stored_def)
  have "durable h'"
  proof (cases r)
    case (Inl e)
    then show ?thesis using same post_err_quiet p by (auto simp: quiet_def)
  next
    case (Inr m)
    then have "post room body adm prin now h = (Ok m, h')" using p by simp
    then show ?thesis
    proof (cases rule: post_ok_cases)
      case (stored s i d)
      then show ?thesis using same by simp
    next
      case (remembered s key)
      then show ?thesis using same by simp
    next
      case fresh
      then show ?thesis using durable_fresh dur by blast
    qed
  qed
  then show ?thesis by (simp add: p)
qed

end

subsection \<open>Blobs the tables hold on to\<close>

definition cited :: "string \<Rightarrow> string \<Rightarrow> db \<Rightarrow> bool" where
  "cited room sh d = (\<exists>i f. ((room, i, sh), f) \<in> set (db_refs d))"

definition held :: "db \<Rightarrow> string set" where
  "held d = {sh. (\<exists>room. cited room sh d) \<or> (\<exists>room p. ((sh, room), p) \<in> set (db_pending d))}"

lemma hm_insert_sub: "set (hm_insert k v m) \<subseteq> insert (k, v) (set m)"
  by (induction m) (auto simp: hm_insert_def)

lemma hm_insert_keys: "fst ` set (hm_insert k v m) = insert k (fst ` set m)"
  by (simp add: hm_insert_def dom_update)

lemma hm_remove_sub: "set (hm_remove k m) \<subseteq> set m"
  by (auto simp: hm_remove_def AList.delete_eq)

lemma cited_keys: "cited room sh d \<longleftrightarrow> (\<exists>i. (room, i, sh) \<in> fst ` set (db_refs d))"
  by (force simp: cited_def)

lemma claimable_held: "claimable room sh d \<Longrightarrow> sh \<in> held d"
  unfolding claimable_def held_def cited_def hm_contains_def
  by (auto dest: map_of_SomeD simp: hm_get_def)

lemma write_ref:
  assumes "write_attachment_ref m a d = Ok d'"
  shows "held d' \<subseteq> held d" "db_blobs d' = db_blobs d" "cited (m_room m) (at_sha256 a) d'"
    "cited room sh d \<Longrightarrow> cited room sh d'"
proof -
  from assms have c: "claimable (m_room m) (at_sha256 a) d"
    and d': "d' = d\<lparr>db_refs := hm_insert (m_room m, m_id m, at_sha256 a)
             \<lparr> rf_name = at_name a, rf_mime = at_mime a, rf_size = at_size a, rf_created_at = m_ts m \<rparr> (db_refs d),
           db_pending := hm_remove (at_sha256 a, m_room m) (db_pending d)\<rparr>"
    by (auto simp: write_attachment_ref_def split: if_splits)
  show "db_blobs d' = db_blobs d" "cited (m_room m) (at_sha256 a) d'" "cited room sh d \<Longrightarrow> cited room sh d'"
    by (auto simp: d' cited_keys hm_insert_keys)
  show "held d' \<subseteq> held d"
    using claimable_held [OF c] hm_remove_sub [of "(at_sha256 a, m_room m)" "db_pending d"]
    by (auto simp: held_def cited_keys hm_insert_keys d')
qed

lemma write_refs:
  "write_attachment_refs m as d = Ok d' \<Longrightarrow> held d' \<subseteq> held d \<and> db_blobs d' = db_blobs d
     \<and> (\<forall>a \<in> set as. cited (m_room m) (at_sha256 a) d') \<and> (\<forall>room sh. cited room sh d \<longrightarrow> cited room sh d')"
proof (induction m as d arbitrary: d' rule: write_attachment_refs.induct)
  case (2 m a as d)
  then obtain d1 where d1: "write_attachment_ref m a d = Ok d1" and rest: "write_attachment_refs m as d1 = Ok d'"
    by (auto split: sum.splits)
  show ?case using "2.IH" [OF d1 rest] write_ref [OF d1] by auto
qed simp

lemma tables_insert_core:
  assumes "insert_core m operation d = Ok d'"
  shows "held d' \<subseteq> held d \<and> db_blobs d' = db_blobs d
     \<and> (\<forall>a \<in> set (m_attachments m). cited (m_room m) (at_sha256 a) d') \<and> (\<forall>room sh. cited room sh d \<longrightarrow> cited room sh d')"
proof -
  from assms obtain d1 where w: "write_attachment_refs m (m_attachments m) d1 = Ok d'"
    and same: "db_refs d1 = db_refs d" "db_pending d1 = db_pending d" "db_blobs d1 = db_blobs d"
    by (auto simp: insert_core_def insert_message_row_def reset_silence_care_def retire_condition_def ack_rows_def
        resolve_rows_def delete_mark_def Let_def split: sum.splits if_splits)
  have "held d1 = held d" "\<And>room sh. cited room sh d1 = cited room sh d"
    using same by (simp_all add: held_def cited_def)
  with write_refs [OF w] same show ?thesis by auto
qed

lemma held_cong: "db_refs d' = db_refs d \<Longrightarrow> db_pending d' = db_pending d \<Longrightarrow> held d' = held d"
  "db_refs d' = db_refs d \<Longrightarrow> cited room sh d' = cited room sh d"
  by (simp_all add: held_def cited_def)

definition att_tables :: "db \<Rightarrow> (string \<times> u64 \<times> string, ref_row) hashmap \<times> (string \<times> string, pending_row) hashmap \<times> (string, blob_row) hashmap" where
  "att_tables d = (db_refs d, db_pending d, db_blobs d)"

lemma held_tables:
  "held d \<subseteq> B \<and> db_blobs d = rows \<Longrightarrow> att_tables d' = att_tables d \<Longrightarrow> held d' \<subseteq> B \<and> db_blobs d' = rows"
  "cited room sh d \<Longrightarrow> att_tables d' = att_tables d \<Longrightarrow> cited room sh d'"
  unfolding att_tables_def by (metis held_cong(1) Pair_inject) (metis held_cong(2) Pair_inject)

lemma att_frames:
  "att_tables (pause_room_attentions room at d) = att_tables d"
  "att_tables (d\<lparr>db_bans := bans\<rparr>) = att_tables d"
  "att_tables (revoke_davets_where p at d) = att_tables d"
  "att_tables (d\<lparr>db_reactions := reactions\<rparr>) = att_tables d"
  "att_tables (retire_room_attentions room at (d\<lparr>db_rooms := rooms\<rparr>)) = att_tables d"
  by (simp_all add: att_tables_def pause_room_attentions_def ack_rows_def retire_room_attentions_def resolve_rows_def
      revoke_davets_where_def Let_def)

lemma att_room_state: "write_room_state room mode settings d = Ok d' \<Longrightarrow> att_tables d' = att_tables d"
  by (auto simp: att_tables_def write_room_state_def Let_def split: if_splits sum.splits option.splits)

lemma att_seats:
  "seat_operator room prin actor role at d = Ok (a, d') \<Longrightarrow> att_tables d' = att_tables d"
  "appoint_rows room prin by_row at d = Ok (b, d') \<Longrightarrow> att_tables d' = att_tables d"
  "revoke_rows room who at d = Ok (c, d') \<Longrightarrow> att_tables d' = att_tables d"
  unfolding att_tables_def
  by (auto simp: Let_def seat_operator_def insert_assignment_def appoint_rows_def close_seat_def revoke_rows_def
      split: if_splits sum.splits option.splits)

lemma att_care:
  "att_tables (write_care room sig d) = att_tables d"
  "att_tables (write_wait w d) = att_tables d"
  "att_tables (db_resolve_wait_attentions room waiter at d) = att_tables d"
proof -
  have cycle: "att_tables (fold (resolve_cycle_id room at) ids d) = att_tables d" for ids d
    by (induction ids arbitrary: d)
      (simp_all add: resolve_cycle_id_def att_tables_def ack_rows_def resolve_rows_def delete_mark_def Let_def split: option.split)
  show "att_tables (write_care room sig d) = att_tables d"
    by (simp add: write_care_def write_outbox_def att_tables_def Let_def split: option.split)
  show "att_tables (write_wait w d) = att_tables d" by (simp add: write_wait_def att_tables_def)
  show "att_tables (db_resolve_wait_attentions room waiter at d) = att_tables d"
    by (simp add: db_resolve_wait_attentions_def Let_def cycle)
      (simp add: att_tables_def ack_rows_def resolve_rows_def)
qed

text \<open>
  The building takes up no blob by itself: a message cites what its loca holds already, and
  what is cited stays cited.
\<close>

interpretation holding: posted_law "\<lambda>d. held d \<subseteq> B \<and> db_blobs d = rows" for B rows
proof unfold_locales
  fix d d' m operation
  assume "held d \<subseteq> B \<and> db_blobs d = rows" "insert_core m operation d = Ok d'"
  then show "held d' \<subseteq> B \<and> db_blobs d' = rows" using tables_insert_core by blast
qed (rule held_tables, assumption, (rule att_frames att_care | erule att_room_state att_seats))+

interpretation citing: posted_law "cited room sh" for room sh
proof unfold_locales
  fix d d' m operation
  assume "cited room sh d" "insert_core m operation d = Ok d'"
  then show "cited room sh d'" using tables_insert_core by blast
qed (rule held_tables, assumption, (rule att_frames att_care | erule att_room_state att_seats))+

subsection \<open>Uploads and the sweep\<close>

lemma attach_read_keeps: "attach_read f s = (r, s') \<Longrightarrow> sto_conn s' = sto_conn s"
  by (auto simp: attach_read_def answer_txn_def split: option.splits list.splits bool.splits)

lemma attach_read_errD: "attach_read f s = (Err e, s') \<Longrightarrow> sto_conn s' = sto_conn s"
  by (simp add: attach_read_keeps)

lemma attach_read_okD: "attach_read f s = (Ok x, s') \<Longrightarrow> \<exists>d. sto_conn s = Some d \<and> sto_conn s' = Some d \<and> x = f d"
  by (auto simp: attach_read_def dest!: answer_txn_okD)

lemma attach_write_conn:
  assumes "attach_write f s = (r, s')" "sto_conn s = Some d"
  shows "sto_conn s' = Some (if is_ok r then f d else d)"
proof (cases r)
  case (Inl e)
  then show ?thesis using assms answer_txn_errD unfolding attach_write_def by fastforce
next
  case (Inr u)
  then show ?thesis using assms unfolding attach_write_def by (auto dest!: answer_txn_okD)
qed

lemma then_storeE:
  assumes "then_store f g s = (r, s')"
  obtains (stop) e where "f s = (Err e, s')" "r = Err e" | (go) x s1 where "f s = (Ok x, s1)" "g x s1 = (r, s')"
  using assms by (auto simp: then_store_def split: prod.splits sum.splits)

lemma check_quota:
  assumes "check_quota room sh sz room_max building_max s = (r, s')" "sto_conn s = Some d"
  shows "sto_conn s' = Some d"
    "is_ok r \<Longrightarrow> hm_contains (db_blobs d) sh \<or> u64_saturating_add (building_used d) sz \<le> building_max"
    "is_ok r \<Longrightarrow> room_has_sha room sh d \<or> u64_saturating_add (room_used room d) sz \<le> room_max"
proof -
  have "sto_conn s' = Some d \<and> (is_ok r \<longrightarrow> (hm_contains (db_blobs d) sh \<or> u64_saturating_add (building_used d) sz \<le> building_max)
      \<and> (room_has_sha room sh d \<or> u64_saturating_add (room_used room d) sz \<le> room_max))"
    using assms unfolding check_quota_def
    by (auto elim!: then_storeE split: if_splits dest!: attach_read_errD attach_read_okD)
  then show "sto_conn s' = Some d"
    "is_ok r \<Longrightarrow> hm_contains (db_blobs d) sh \<or> u64_saturating_add (building_used d) sz \<le> building_max"
    "is_ok r \<Longrightarrow> room_has_sha room sh d \<or> u64_saturating_add (room_used room d) sz \<le> room_max" by auto
qed

lemma recorded:
  assumes "then_store (attach_write (insert_blob_row sh mime sz now))
      (\<lambda>_. attach_write (insert_pending_row sh room uploader name mime' sz' now')) s = (r, s')" "sto_conn s = Some d"
  obtains d' where "sto_conn s' = Some d'"
    "d' \<in> {d, insert_blob_row sh mime sz now d,
       insert_pending_row sh room uploader name mime' sz' now' (insert_blob_row sh mime sz now d)}"
    "is_ok r \<Longrightarrow> d' = insert_pending_row sh room uploader name mime' sz' now' (insert_blob_row sh mime sz now d)"
  using assms(1)
proof (cases rule: then_storeE)
  case (stop e)
  then show thesis using attach_write_conn [OF stop(1) assms(2)] by (intro that [of d]) simp_all
next
  case (go x s1)
  have s1: "sto_conn s1 = Some (insert_blob_row sh mime sz now d)" using attach_write_conn [OF go(1) assms(2)] by simp
  show thesis using attach_write_conn [OF go(2) s1] by (cases "is_ok r") (auto intro: that)
qed

lemma insert_rows:
  "held (insert_blob_row sh mime sz now d) = held d"
  "held (insert_pending_row sh room uploader name mime sz now d) \<subseteq> insert sh (held d)"
  "db_refs (insert_blob_row sh mime sz now d) = db_refs d"
  "db_refs (insert_pending_row sh room uploader name mime sz now d) = db_refs d"
  "db_blobs (insert_pending_row sh room uploader name mime sz now d) = db_blobs d"
proof -
  show refs: "db_refs (insert_blob_row sh mime sz now d) = db_refs d"
    "db_refs (insert_pending_row sh room uploader name mime sz now d) = db_refs d"
    "db_blobs (insert_pending_row sh room uploader name mime sz now d) = db_blobs d"
    by (simp_all add: insert_blob_row_def insert_pending_row_def)
  show "held (insert_blob_row sh mime sz now d) = held d"
    by (rule held_cong(1)) (simp_all add: insert_blob_row_def)
  show "held (insert_pending_row sh room uploader name mime sz now d) \<subseteq> insert sh (held d)"
  proof
    fix x
    assume "x \<in> held (insert_pending_row sh room uploader name mime sz now d)"
    then consider rm where "cited rm x d" | rm p where "((x, rm), p) \<in> set (db_pending (insert_pending_row sh room uploader name mime sz now d))"
      by (auto simp: held_def held_cong(2) [OF refs(2)])
    then show "x \<in> insert sh (held d)"
    proof cases
      case (2 rm p)
      then have "(x, rm) \<in> insert (sh, room) (fst ` set (db_pending d))"
        by (auto simp: insert_pending_row_def dest!: subsetD [OF hm_insert_sub] intro: rev_image_eqI)
      then show ?thesis by (force simp: held_def)
    qed (auto simp: held_def)
  qed
qed

lemma sum_insert_new: "\<not> hm_contains m k \<Longrightarrow> sum_list (map f (hm_values (hm_insert k v m))) = sum_list (map f (hm_values m)) + (f v :: nat)"
  by (induction m) (auto simp: hm_contains_def hm_values_def hm_insert_def hm_get_def split: if_splits)

lemma blob_row_used:
  "building_used (insert_blob_row sh mime sz now d) =
     (if hm_contains (db_blobs d) sh then building_used d else building_used d + sz)"
  by (simp add: building_used_def insert_blob_row_def sum_insert_new)

text \<open>What an upload does to the tables and the files, whatever it answers.\<close>

lemma upload_effect:
  assumes "store_put_pending_attachment digest uniq room uploader name mime b now room_max building_max (s, dk, blobs) = (r, s', dk')"
    and "sto_conn s = Some d" "calm dk" "is_sha256_hex (digest b)" "length b \<le> MAX_BLOB_BYTES" "building_max < u64_max"
  obtains d' where "sto_conn s' = Some d'" "db_refs d' = db_refs d" "calm dk'"
    "\<forall>sh. sh \<in> held d' \<longrightarrow> sh \<in> held d \<or> intact digest dk' sh"
    "\<forall>sh. intact digest dk sh \<longrightarrow> intact digest dk' sh"
    "building_used d' \<le> max (building_used d) building_max"
proof -
  let ?sh = "digest b" and ?sz = "length b"
  note goal = that
  have idle: thesis if "sto_conn s' = Some d" "dk' = dk" using that assms(3) by (intro goal [of d]) auto
  show thesis
  proof (cases "store_attachments_enabled s blobs")
    case False
    then show ?thesis using assms(1,2) idle by (simp add: store_put_pending_attachment_def)
  next
    case True
    obtain q s1 where quota: "check_quota room ?sh ?sz room_max building_max s = (q, s1)" by fastforce
    note s1 = check_quota(1) [OF quota assms(2)]
    show ?thesis
    proof (cases q)
      case (Inl e)
      then show ?thesis using assms(1) True quota s1 idle by (simp add: store_put_pending_attachment_def Let_def)
    next
      case (Inr u)
      obtain p dk1 where put: "blob_put digest uniq b dk = (p, dk1)" by fastforce
      have calm1: "calm dk1" using putting.stays_calm [OF put] assms(3) .
      have keep: "\<And>sh. intact digest dk sh \<Longrightarrow> intact digest dk1 sh" using put_leaves_intact [OF put assms(3)] .
      show ?thesis
      proof (cases p)
        case (Inl e)
        then have "s' = s1" "dk' = dk1" using assms(1) True quota Inr put
          by (auto simp: store_put_pending_attachment_def Let_def)
        then show ?thesis using s1 calm1 keep by (intro that [of d]) auto
      next
        case (Inr p')
        note ok = put_okD [OF put [unfolded Inr] assms(4,5)]
        obtain w s2 where rec: "then_store (attach_write (insert_blob_row ?sh mime ?sz now))
            (\<lambda>_. attach_write (insert_pending_row ?sh room uploader name mime ?sz now)) s1 = (w, s2)" by fastforce
        have s2: "s' = s2" "dk' = dk1" using assms(1) True quota \<open>q = Inr u\<close> put Inr rec
          by (auto simp: store_put_pending_attachment_def Let_def split: sum.splits)
        obtain d' where d': "sto_conn s2 = Some d'" and alts: "d' \<in> {d, insert_blob_row ?sh mime ?sz now d,
            insert_pending_row ?sh room uploader name mime ?sz now (insert_blob_row ?sh mime ?sz now d)}"
          by (rule recorded [OF rec s1])
        have "held d' \<subseteq> insert ?sh (held d)" "db_refs d' = db_refs d"
          using alts insert_rows(1,3,4) subsetD [OF insert_rows(2)] by fastforce+
        moreover have "building_used d' \<le> max (building_used d) building_max"
        proof -
          have "building_used (insert_blob_row ?sh mime ?sz now d) \<le> max (building_used d) building_max"
            using check_quota(2) [OF quota assms(2)] \<open>q = Inr u\<close> assms(6)
            by (auto simp: blob_row_used u64_saturating_add_def split: if_splits)
          then show ?thesis using alts by (auto simp: building_used_def insert_rows)
        qed
        ultimately show ?thesis using d' s2 calm1 keep ok by (intro that [of d']) auto
      qed
    qed
  qed
qed

lemma dropped_rows:
  "held (drop_pending cutoff d) \<subseteq> held d" "db_refs (drop_pending cutoff d) = db_refs d"
  "db_blobs (drop_pending cutoff d) = db_blobs d"
  "held (drop_blob sh d) = held d" "db_refs (drop_blob sh d) = db_refs d" "building_used (drop_blob sh d) \<le> building_used d"
proof -
  show "held (drop_pending cutoff d) \<subseteq> held d" "db_refs (drop_pending cutoff d) = db_refs d"
    "db_blobs (drop_pending cutoff d) = db_blobs d" "db_refs (drop_blob sh d) = db_refs d"
    by (auto simp: held_def cited_def drop_pending_def drop_blob_def hm_retain_def)
  show "held (drop_blob sh d) = held d" by (rule held_cong(1)) (simp_all add: drop_blob_def)
  have "sum_list (map bl_size (hm_values (hm_remove sh m))) \<le> sum_list (map bl_size (hm_values m))" for m
    by (induction m) (auto simp: hm_remove_def hm_values_def)
  then show "building_used (drop_blob sh d) \<le> building_used d" by (simp add: building_used_def drop_blob_def)
qed

lemma orphans_not_held: "sh \<in> set (orphan_blobs d) \<Longrightarrow> sh \<notin> held d"
  by (auto simp: orphan_blobs_def held_def cited_def list_ex_iff)

lemma collect_effect:
  assumes "collect_orphans shs (s, dk) = (n, s', dk')" "sto_conn s = Some d" "calm dk"
  obtains d' where "sto_conn s' = Some d'" "db_refs d' = db_refs d" "held d' = held d" "calm dk'"
    "building_used d' \<le> building_used d" "\<forall>sh. sh \<notin> set shs \<longrightarrow> intact digest dk sh \<longrightarrow> intact digest dk' sh"
  using assms
proof (induction shs arbitrary: s dk n d thesis)
  case (Cons sh shs)
  obtain q dk1 where del: "blob_delete sh dk = (q, dk1)" by fastforce
  have dk1: "calm dk1" "\<And>x. x \<noteq> sh \<Longrightarrow> intact digest dk x \<Longrightarrow> intact digest dk1 x"
    using deletion.stays_calm [OF del] deletion.leaves_intact [OF del] Cons.prems(4) by auto
  obtain s1 m where rest: "collect_orphans shs (s1, dk1) = (m, s', dk')"
    and s1: "s1 = s \<or> s1 = snd (attach_write (drop_blob sh) s)"
    using Cons.prems(2) del by (auto split: sum.splits prod.splits)
  obtain d1 where d1: "sto_conn s1 = Some d1" "d1 = d \<or> d1 = drop_blob sh d"
    using s1 attach_write_conn [of "drop_blob sh" s "fst (attach_write (drop_blob sh) s)" "snd (attach_write (drop_blob sh) s)" d]
      Cons.prems(3) by (cases "is_ok (fst (attach_write (drop_blob sh) s))") auto
  have same: "db_refs d1 = db_refs d" "held d1 = held d" "building_used d1 \<le> building_used d"
    using d1(2) dropped_rows(4-6) by auto
  obtain d' where "sto_conn s' = Some d'" "db_refs d' = db_refs d1" "held d' = held d1" "calm dk'"
    "building_used d' \<le> building_used d1" "\<forall>x. x \<notin> set shs \<longrightarrow> intact digest dk1 x \<longrightarrow> intact digest dk' x"
    using Cons.IH [OF _ rest d1(1) dk1(1)] by blast
  then show ?case using Cons.prems(1) [of d'] same dk1 by auto
qed auto

lemma sweep_effect:
  assumes "store_sweep_attachments now ttl (s, dk, blobs) = (n, s', dk')" "sto_conn s = Some d" "calm dk"
  obtains d' where "sto_conn s' = Some d'" "db_refs d' = db_refs d" "held d' \<subseteq> held d" "calm dk'"
    "building_used d' \<le> building_used d" "\<forall>sh. sh \<in> held d' \<longrightarrow> intact digest dk sh \<longrightarrow> intact digest dk' sh"
proof (cases "store_attachments_enabled s blobs")
  case False
  then show thesis using assms by (intro that [of d]) (auto simp: store_sweep_attachments_def)
next
  case True
  let ?drop = "drop_pending (i64_saturating_sub (as_i64 now) (as_i64 ttl))"
  obtain w s1 where drop: "attach_write ?drop s = (w, s1)" by fastforce
  obtain d1 where d1: "sto_conn s1 = Some d1" "d1 = d \<or> d1 = ?drop d"
    using attach_write_conn [OF drop assms(2)] by (cases "is_ok w") auto
  have same: "db_refs d1 = db_refs d" "held d1 \<subseteq> held d" "building_used d1 = building_used d"
    using d1(2) dropped_rows(1-3) by (auto simp: building_used_def)
  obtain q s2 where q: "attach_read orphan_blobs s1 = (q, s2)" by fastforce
  have s2: "sto_conn s2 = Some d1" using attach_read_keeps [OF q] d1(1) by simp
  show thesis
  proof (cases q)
    case (Inl e)
    then have "s' = s2" "dk' = dk" using assms(1) True drop q by (simp_all add: store_sweep_attachments_def)
    then show thesis using s2 same assms(3) by (intro that [of d1]) auto
  next
    case (Inr orphans)
    then have o: "orphans = orphan_blobs d1" using attach_read_okD q d1(1) by fastforce
    have "collect_orphans orphans (s2, dk) = (n, s', dk')"
      using assms(1) True drop q Inr by (simp add: store_sweep_attachments_def)
    then obtain d' where "sto_conn s' = Some d'" "db_refs d' = db_refs d1" "held d' = held d1" "calm dk'"
      "building_used d' \<le> building_used d1" "\<forall>sh. sh \<notin> set orphans \<longrightarrow> intact digest dk sh \<longrightarrow> intact digest dk' sh"
      by (rule collect_effect [where digest = digest, OF _ s2 assms(3)])
    moreover have "\<forall>sh \<in> held d1. sh \<notin> set orphans" using orphans_not_held o by blast
    ultimately show thesis using same by (intro that [of d']) auto
  qed
qed

subsection \<open>The system\<close>

definition h_attachments :: "hub \<Rightarrow> ((string \<times> u64 \<times> string, ref_row) hashmap \<times> (string \<times> string, pending_row) hashmap
    \<times> (string, blob_row) hashmap) option" where
  "h_attachments h = map_option att_tables (sto_conn (h_store h))"

text \<open>
  The steps of the building as attachments see them: both handlers, the sweep, posts and
  the operations on rooms, a restart, and whatever leaves the tables and the files alone,
  such as every other operation.  The outcomes of the system calls may change at any time,
  except that reading a file that is there works.
\<close>

inductive vault_step :: "(bytes \<Rightarrow> string) \<Rightarrow> (string \<Rightarrow> string option) \<Rightarrow> vault \<Rightarrow> vault \<Rightarrow> bool" for digest env where
  upload: "vault_step digest env v (snd (upload_attachment digest sha env uniq now clock room session ct fname b v))"
| fetch: "vault_step digest env v (snd (get_attachment digest valid_header room i v))"
| sweep: "vault_step digest env v (snd (sweep_attachments env now v))"
| post: "vault_step digest env v (v\<lparr>va_hub := snd (post room body adm prin now (va_hub v))\<rparr>)"
| room: "room_step (va_hub v) h \<Longrightarrow> vault_step digest env v (v\<lparr>va_hub := h\<rparr>)"
| restart: "h_attachments h = h_attachments (va_hub v) \<Longrightarrow> vault_step digest env v (open_blobs (v\<lparr>va_hub := h\<rparr>))"
| elsewhere: "h_attachments h = h_attachments (va_hub v) \<Longrightarrow> vault_step digest env v (v\<lparr>va_hub := h\<rparr>)"
| outcomes: "faults OpenRead = [] \<Longrightarrow> vault_step digest env v (v\<lparr>va_disk := (va_disk v)\<lparr>dk_faults := faults\<rparr>\<rparr>)"

definition vault_ok :: "(bytes \<Rightarrow> string) \<Rightarrow> (string \<Rightarrow> string option) \<Rightarrow> vault \<Rightarrow> bool" where
  "vault_ok digest env v = (calm (va_disk v) \<and> (\<exists>d. sto_conn (h_store (va_hub v)) = Some d
     \<and> (\<forall>sh \<in> held d. intact digest (va_disk v) sh) \<and> building_used d \<le> building_quota env))"

lemma vault_okE:
  assumes "vault_ok digest env v"
  obtains d where "calm (va_disk v)" "sto_conn (h_store (va_hub v)) = Some d"
    "\<forall>sh \<in> held d. intact digest (va_disk v) sh" "building_used d \<le> building_quota env"
  using assms by (auto simp: vault_ok_def)

lemma vault_okI:
  "calm (va_disk v) \<Longrightarrow> sto_conn (h_store (va_hub v)) = Some d \<Longrightarrow> (\<And>sh. sh \<in> held d \<Longrightarrow> intact digest (va_disk v) sh) \<Longrightarrow>
     building_used d \<le> building_quota env \<Longrightarrow> vault_ok digest env v"
  by (auto simp: vault_ok_def)

lemma tables_goes:
  assumes "h_attachments h = h_attachments (va_hub v)" "vault_ok digest env v"
  shows "vault_ok digest env (v\<lparr>va_hub := h\<rparr>)"
proof -
  from assms(2) obtain d where d: "calm (va_disk v)" "sto_conn (h_store (va_hub v)) = Some d"
    "\<forall>sh \<in> held d. intact digest (va_disk v) sh" "building_used d \<le> building_quota env" by (rule vault_okE)
  with assms(1) obtain d' where d': "sto_conn (h_store h) = Some d'" "att_tables d' = att_tables d"
    by (auto simp: h_attachments_def)
  have "held d' \<subseteq> held d \<and> db_blobs d' = db_blobs d" by (rule held_tables(1) [OF _ d'(2)]) simp
  then show ?thesis using d d'(1) by (intro vault_okI [of _ d']) (auto simp: building_used_def)
qed

lemma durable_goes:
  assumes "\<And>B rows. holding.durable B rows (va_hub v) \<Longrightarrow> holding.durable B rows h" "vault_ok digest env v"
  shows "vault_ok digest env (v\<lparr>va_hub := h\<rparr>)"
proof -
  from assms(2) obtain d where d: "calm (va_disk v)" "sto_conn (h_store (va_hub v)) = Some d"
    "\<forall>sh \<in> held d. intact digest (va_disk v) sh" "building_used d \<le> building_quota env" by (rule vault_okE)
  then have "holding.durable (held d) (db_blobs d) (va_hub v)" by (simp add: holding.durable_def holding.stored_def)
  from assms(1) [OF this] obtain d' where "sto_conn (h_store h) = Some d'" "held d' \<subseteq> held d" "db_blobs d' = db_blobs d"
    by (auto simp: holding.durable_def holding.stored_def)
  then show ?thesis using d by (intro vault_okI [of _ d']) (auto simp: building_used_def)
qed

lemma run_write_att:
  assumes "run_write f s = (r, s')" "\<And>d. att_tables (f d) = att_tables d"
  shows "map_option att_tables (sto_conn s') = map_option att_tables (sto_conn s)"
proof (cases r)
  case (Inl e)
  then show ?thesis using assms(1) by (simp add: run_write_errD)
next
  case (Inr u)
  then show ?thesis using run_write_okD [OF assms(1) [unfolded Inr]] assms(2)
    by (simp add: option.map_comp comp_def)
qed

lemma session_tables:
  assumes "session_identity_of sha now clock token h = (idy, h')"
  shows "h_attachments h' = h_attachments h"
proof -
  have del: "map_option att_tables (sto_conn s') = map_option att_tables (sto_conn s)"
    if "delete_admin_session sha clock t s = (r, s')" for t s r s'
    using that unfolding delete_admin_session_def revoke_principal_session_def
    by (auto simp: att_tables_def split: prod.splits sum.splits dest!: run_write_att)
  have "h_attachments (snd (with_store (delete_admin_session sha clock t) h1)) = h_attachments h1" for t h1
    using del [of t "h_store h1"] by (simp add: h_attachments_def with_store_def split: prod.split)
  then show ?thesis
    using assms by (auto simp: session_identity_of_def h_attachments_def Let_def split: option.splits if_splits)
qed

subsection \<open>Every step keeps the blobs the tables hold on to\<close>

text \<open>What is documented of SHA-256 and asked of the configuration.\<close>

definition sha_shape :: "(bytes \<Rightarrow> string) \<Rightarrow> bool" where
  "sha_shape digest = (\<forall>b. is_sha256_hex (digest b))"

definition limits_ok :: "(string \<Rightarrow> string option) \<Rightarrow> bool" where
  "limits_ok env = (attachment_max_bytes env \<le> MAX_BLOB_BYTES \<and> building_quota env < u64_max)"

lemma upload_cases:
  assumes "upload_attachment digest sha env uniq now clock room session ct fname b v = (resp, v')"
  obtains (refused) code h where "resp = AttachRefused code" "v' = v\<lparr>va_hub := h\<rparr>" "h_attachments h = h_attachments (va_hub v)"
  | (stored) h r sniffed uploader where "h_attachments h = h_attachments (va_hub v)" "length b \<le> attachment_max_bytes env" "b \<noteq> []"
      "sniff_mime b = Some sniffed" "\<forall>claimed. ct = Some claimed \<longrightarrow> mime_matches claimed sniffed"
      "put_pending_attachment digest env uniq room uploader (sanitize_filename fname sniffed) sniffed b now (v\<lparr>va_hub := h\<rparr>) = (r, v')"
      "resp = (case r of Inl e \<Rightarrow> AttachRefused (attach_status e) | Inr att \<Rightarrow> AttachCreated att)"
proof -
  obtain idy h where s: "session_identity_of sha now clock session (va_hub v) = (idy, h)" by fastforce
  note h = session_tables [OF s]
  let ?put = "\<lambda>m. put_pending_attachment digest env uniq room (case idy of Some x \<Rightarrow> uploader_of x | None \<Rightarrow> ''anon'')
      (sanitize_filename fname m) m b now (v\<lparr>va_hub := h\<rparr>)"
  show thesis
  proof (cases "\<not> attachments_enabled v \<or> idy = None \<and> (session \<noteq> None \<or> h_require_sessions h) \<or> b = []
      \<or> attachment_max_bytes env < length b \<or> sniff_mime b = None
      \<or> (\<exists>claimed. ct = Some claimed \<and> \<not> mime_matches claimed (the (sniff_mime b)))")
    case True
    show thesis
    proof (cases "attachments_enabled v")
      case on: True
      then have "\<exists>code. (resp, v') = (AttachRefused code, v\<lparr>va_hub := h\<rparr>)"
        using True assms by (simp add: upload_attachment_def s Let_def split: if_splits option.splits) auto
      then show thesis using refused h by blast
    next
      case False
      then show thesis using assms by (intro refused [of 503 "va_hub v"]) (simp_all add: upload_attachment_def)
    qed
  next
    case False
    then obtain m where m: "sniff_mime b = Some m" by auto
    obtain r v2 where put: "?put m = (r, v2)" by fastforce
    have "(resp, v') = (case r of Inl e \<Rightarrow> AttachRefused (attach_status e) | Inr att \<Rightarrow> AttachCreated att, v2)"
      using False m assms put
      by (auto simp: upload_attachment_def s Let_def split: sum.splits option.splits if_splits)
    then show thesis using False m put h by (intro stored) auto
  qed
qed

lemma put_goes:
  assumes "put_pending_attachment digest env uniq room uploader name mime b now v = (r, v')"
    and "vault_ok digest env v" "sha_shape digest" "limits_ok env" "length b \<le> attachment_max_bytes env"
  shows "vault_ok digest env v'"
proof -
  from assms(2) obtain d where d: "calm (va_disk v)" "sto_conn (h_store (va_hub v)) = Some d"
    "\<forall>sh \<in> held d. intact digest (va_disk v) sh" "building_used d \<le> building_quota env" by (rule vault_okE)
  obtain s' dk' where p: "store_put_pending_attachment digest uniq room uploader name mime b now (room_quota env) (building_quota env)
      (h_store (va_hub v), va_disk v, va_open v) = (r, s', dk')" and v': "v' = v\<lparr>va_hub := (va_hub v)\<lparr>h_store := s'\<rparr>, va_disk := dk'\<rparr>"
    using assms(1) by (auto simp: put_pending_attachment_def split: prod.splits)
  have "is_sha256_hex (digest b)" "length b \<le> MAX_BLOB_BYTES" "building_quota env < u64_max"
    using assms(3-5) by (auto simp: sha_shape_def limits_ok_def)
  then obtain d' where "sto_conn s' = Some d'" "calm dk'"
    "\<forall>sh. sh \<in> held d' \<longrightarrow> sh \<in> held d \<or> intact digest dk' sh" "\<forall>sh. intact digest (va_disk v) sh \<longrightarrow> intact digest dk' sh"
    "building_used d' \<le> max (building_used d) (building_quota env)" by (rule upload_effect [OF p d(2,1)])
  then show ?thesis using d by (intro vault_okI [of _ d']) (auto simp: v')
qed

lemma disk_goes:
  assumes "op (va_disk v) = (r, dk)" "disk_operation {} op" "vault_ok digest env v"
  shows "vault_ok digest env (v\<lparr>va_disk := dk\<rparr>)"
proof -
  from assms(3) obtain d where d: "calm (va_disk v)" "sto_conn (h_store (va_hub v)) = Some d"
    "\<forall>sh \<in> held d. intact digest (va_disk v) sh" "building_used d \<le> building_quota env" by (rule vault_okE)
  then show ?thesis
    using disk_operation.stays_calm [OF assms(2,1)] disk_operation.leaves_intact [OF assms(2,1)]
    by (intro vault_okI [of _ d]) auto
qed

lemma vault_open [simp]: "vault_ok digest env (v\<lparr>va_open := x\<rparr>) = vault_ok digest env v"
  by (simp add: vault_ok_def)

lemma read_disk:
  assumes "read_room_attachment digest room i v = (r, v')"
  shows "v' = v \<or> (\<exists>q dk. blob_read digest i (va_disk v) = (q, dk) \<and> v' = v\<lparr>va_disk := dk\<rparr>)"
  using assms by (auto simp: read_room_attachment_def store_read_room_attachment_def
      split: prod.splits option.splits sum.splits if_splits)

lemma get_disk:
  assumes "get_attachment digest valid_header room i v = (r, v')"
  shows "v' = v \<or> (\<exists>q dk. blob_read digest i (va_disk v) = (q, dk) \<and> v' = v\<lparr>va_disk := dk\<rparr>)"
  using assms read_disk [of digest room i v] by (auto simp: get_attachment_def Let_def split: if_splits prod.splits option.splits)

interpretation startup: disk_operation "{}" blob_store_new
  unfolding blob_store_new_def by (intro op_bind directory.disk_operation_axioms calls_harmless) simp

lemma sweep_goes:
  assumes "vault_ok digest env v"
  shows "vault_ok digest env (snd (sweep_attachments env now v))"
proof -
  from assms obtain d where d: "calm (va_disk v)" "sto_conn (h_store (va_hub v)) = Some d"
    "\<forall>sh \<in> held d. intact digest (va_disk v) sh" "building_used d \<le> building_quota env" by (rule vault_okE)
  obtain n s' dk' where sw: "store_sweep_attachments now (attachment_env_u64 env ''ATTACHMENT_PENDING_TTL_MS''
      ATTACHMENT_PENDING_TTL_MS_DEFAULT) (h_store (va_hub v), va_disk v, va_open v) = (n, s', dk')" by (metis prod_cases3)
  obtain d' where d': "sto_conn s' = Some d'" "held d' \<subseteq> held d" "calm dk'" "building_used d' \<le> building_used d"
    "\<forall>sh. sh \<in> held d' \<longrightarrow> intact digest (va_disk v) sh \<longrightarrow> intact digest dk' sh"
    by (rule sweep_effect [where digest = digest, OF sw d(2,1)])
  show ?thesis by (rule vault_okI [of _ d']) (use d d' in \<open>auto simp: sweep_attachments_def sw\<close>)
qed

lemma vault_step_keeps:
  assumes "vault_step digest env v v'" "vault_ok digest env v" "sha_shape digest" "limits_ok env"
  shows "vault_ok digest env v'"
  using assms(1)
proof cases
  case (upload sha uniq now clock room session ct fname b)
  then obtain resp where u: "upload_attachment digest sha env uniq now clock room session ct fname b v = (resp, v')"
    by (metis prod.collapse)
  then show ?thesis
  proof (cases rule: upload_cases)
    case (refused code h)
    then show ?thesis using tables_goes assms(2) by simp
  next
    case (stored h r sniffed uploader)
    then show ?thesis using put_goes tables_goes [OF stored(1) assms(2)] assms(3,4) by blast
  qed
next
  case (fetch valid_header room i)
  then obtain r where "get_attachment digest valid_header room i v = (r, v')" by (metis prod.collapse)
  from get_disk [OF this] show ?thesis using disk_goes [OF _ serving.disk_operation_axioms] assms(2) by blast
next
  case (sweep now)
  then show ?thesis using sweep_goes assms(2) by simp
next
  case (post room body adm prin now)
  then show ?thesis using durable_goes holding.durable_post assms(2) by simp
next
  case (room h)
  then show ?thesis using durable_goes holding.durable_step assms(2) by blast
next
  case (restart h)
  obtain r dk where n: "blob_store_new (va_disk v) = (r, dk)" by fastforce
  have "vault_ok digest env (v\<lparr>va_hub := h, va_disk := dk\<rparr>)"
    using disk_goes [OF _ startup.disk_operation_axioms tables_goes [OF restart(2) assms(2)]] n by simp
  then show ?thesis by (simp add: restart open_blobs_def n)
next
  case (elsewhere h)
  then show ?thesis using tables_goes assms(2) by simp
next
  case (outcomes faults)
  then show ?thesis using assms(2)
    by (auto simp: vault_ok_def calm_def intact_def is_dir_def holds_def)
qed

interpretation vault_system: step_invariant
  "\<lambda>v v'. vault_step digest env v v' \<and> sha_shape digest \<and> limits_ok env" "vault_ok digest env" for digest env
  by unfold_locales (blast intro: vault_step_keeps)

subsection \<open>What is cited stays cited\<close>

definition citing_ok :: "(bytes \<Rightarrow> string) \<Rightarrow> (string \<Rightarrow> string option) \<Rightarrow> string \<Rightarrow> string \<Rightarrow> vault \<Rightarrow> bool" where
  "citing_ok digest env room sh v = (vault_ok digest env v \<and> citing.durable room sh (va_hub v))"

lemma cited_tables:
  assumes "h_attachments h' = h_attachments h" "citing.durable room sh h"
  shows "citing.durable room sh h'"
proof -
  from assms(2) obtain d where d: "sto_conn (h_store h) = Some d" "cited room sh d"
    by (auto simp: citing.durable_def citing.stored_def)
  with assms(1) obtain d' where "sto_conn (h_store h') = Some d'" "att_tables d' = att_tables d"
    by (auto simp: h_attachments_def)
  with held_tables(2) [OF d(2)] show ?thesis by (auto simp: citing.durable_def citing.stored_def)
qed

lemma cited_refs:
  "sto_conn (h_store h) = Some d \<Longrightarrow> sto_conn (h_store h') = Some d' \<Longrightarrow> db_refs d' = db_refs d \<Longrightarrow>
     citing.durable room sh h \<Longrightarrow> citing.durable room sh h'"
  using held_cong(2) [of d' d room sh] by (simp add: citing.durable_def citing.stored_def)

lemma put_cited:
  assumes "put_pending_attachment digest env uniq rm uploader name mime b now v = (r, v')"
    and "vault_ok digest env v" "sha_shape digest" "limits_ok env" "length b \<le> attachment_max_bytes env"
    and "citing.durable room sh (va_hub v)"
  shows "citing.durable room sh (va_hub v')"
proof -
  from assms(2) obtain d where d: "calm (va_disk v)" "sto_conn (h_store (va_hub v)) = Some d" by (rule vault_okE)
  obtain s' dk' where p: "store_put_pending_attachment digest uniq rm uploader name mime b now (room_quota env) (building_quota env)
      (h_store (va_hub v), va_disk v, va_open v) = (r, s', dk')" and v': "v' = v\<lparr>va_hub := (va_hub v)\<lparr>h_store := s'\<rparr>, va_disk := dk'\<rparr>"
    using assms(1) by (auto simp: put_pending_attachment_def split: prod.splits)
  have "is_sha256_hex (digest b)" "length b \<le> MAX_BLOB_BYTES" "building_quota env < u64_max"
    using assms(3-5) by (auto simp: sha_shape_def limits_ok_def)
  then obtain d' where "sto_conn s' = Some d'" "db_refs d' = db_refs d" by (rule upload_effect [OF p d(2,1)])
  then show ?thesis using cited_refs [OF d(2), of "va_hub v'" d'] assms(6) by (simp add: v')
qed

lemma sweep_cited:
  assumes "vault_ok digest env v" "citing.durable room sh (va_hub v)"
  shows "citing.durable room sh (va_hub (snd (sweep_attachments env now v)))"
proof -
  from assms(1) obtain d where d: "calm (va_disk v)" "sto_conn (h_store (va_hub v)) = Some d" by (rule vault_okE)
  obtain n s' dk' where sw: "store_sweep_attachments now (attachment_env_u64 env ''ATTACHMENT_PENDING_TTL_MS''
      ATTACHMENT_PENDING_TTL_MS_DEFAULT) (h_store (va_hub v), va_disk v, va_open v) = (n, s', dk')" by (metis prod_cases3)
  obtain d' where "sto_conn s' = Some d'" "db_refs d' = db_refs d" by (rule sweep_effect [OF sw d(2,1)])
  then show ?thesis using cited_refs [OF d(2), of "va_hub (snd (sweep_attachments env now v))" d'] assms(2)
    by (simp add: sweep_attachments_def sw)
qed

lemma vault_step_cited:
  assumes "vault_step digest env v v'" "citing_ok digest env room sh v" "sha_shape digest" "limits_ok env"
  shows "citing_ok digest env room sh v'"
proof -
  have v: "vault_ok digest env v" and c: "citing.durable room sh (va_hub v)" using assms(2) by (auto simp: citing_ok_def)
  from assms(1) have "citing.durable room sh (va_hub v')"
  proof cases
    case (upload sha uniq now clock rm session ct fname b)
    then obtain resp where u: "upload_attachment digest sha env uniq now clock rm session ct fname b v = (resp, v')"
      by (metis prod.collapse)
    then show ?thesis
    proof (cases rule: upload_cases)
      case (refused code h)
      then show ?thesis using cited_tables c by simp
    next
      case (stored h r sniffed uploader)
      have "citing.durable room sh h" using cited_tables [OF stored(1) c] .
      then show ?thesis using put_cited [OF stored(6) tables_goes [OF stored(1) v] assms(3,4) stored(2)] by simp
    qed
  next
    case (fetch valid_header rm i)
    then obtain r where "get_attachment digest valid_header rm i v = (r, v')" by (metis prod.collapse)
    from get_disk [OF this] show ?thesis using c by auto
  next
    case (sweep now)
    then show ?thesis using sweep_cited [OF v c] by simp
  next
    case (post rm body adm prin now)
    then show ?thesis using citing.durable_post [OF c] by simp
  next
    case (room h)
    then show ?thesis using citing.durable_step c by simp
  next
    case (restart h)
    then show ?thesis using cited_tables [OF restart(2) c] by (simp add: open_blobs_def split: prod.split)
  next
    case (elsewhere h)
    then show ?thesis using cited_tables c by simp
  next
    case (outcomes faults)
    then show ?thesis using c by simp
  qed
  then show ?thesis using vault_step_keeps [OF assms(1) v assms(3,4)] by (simp add: citing_ok_def)
qed

interpretation citing_system: step_invariant
  "\<lambda>v v'. vault_step digest env v v' \<and> sha_shape digest \<and> limits_ok env" "citing_ok digest env room sh" for digest env room sh
  by unfold_locales (blast intro: vault_step_cited)

lemma vault_run:
  assumes "(vault_step digest env)\<^sup>*\<^sup>* v v'" "sha_shape digest" "limits_ok env"
  shows "(\<lambda>v v'. vault_step digest env v v' \<and> sha_shape digest \<and> limits_ok env)\<^sup>*\<^sup>* v v'"
  using assms(1) by (rule rtranclp_mono [THEN predicate2D, rotated]) (use assms(2,3) in auto)

text \<open>An accepted message cites all of its attachments.\<close>

lemma fresh_cites:
  assumes "fresh_post room body adm prin now h m h'" "sto_conn (h_store h) = Some d" "a \<in> set (m_attachments m)"
  shows "citing.durable room (at_sha256 a) h'"
proof -
  from assms(1) obtain rs summons wake s atts rts ts where
    s: "sto_conn s = sto_conn (h_store h)" and m: "m = post_message_of room body atts rts (h_next_id h) ts"
    and ps: "persist_post room m (operation_of body prin) rs summons wake now (h_home_room h) s = (Inr (), h_store h')"
    by (rule fresh_postE) (rule that, assumption+)
  have room: "m_room m = room" by (simp add: m post_message_of_def)
  from persist_post_txn [OF ps _ room, of d] s assms(2) obtain d1 d2 where
    d2: "insert_core m (operation_of body prin) d1 = Inr d2"
    and d': "sto_conn (h_store h') = Some (post_care room (h_home_room h) summons wake now d2)" by auto
  have "cited room (at_sha256 a) d2" using tables_insert_core [OF d2] assms(3) room by auto
  then show ?thesis using d' citing.on_post_care by (auto simp: citing.durable_def citing.stored_def)
qed

lemma cited_served:
  assumes "citing_ok digest env room sh v" "attachments_enabled v"
  shows "\<exists>hd b v'. get_attachment digest valid_header room sh v = (AttachServed hd b, v') \<and> digest b = sh"
proof -
  from assms(1) obtain d where d: "sto_conn (h_store (va_hub v)) = Some d" "cited room sh d" and v: "vault_ok digest env v"
    by (auto simp: citing_ok_def citing.durable_def citing.stored_def)
  from d(2) have "find (\<lambda>((rm, _, s), _). rm = room \<and> s = sh) (db_refs d) \<noteq> None"
    by (auto simp: cited_def find_None_iff)
  then obtain k f where f: "find (\<lambda>((rm, _, s), _). rm = room \<and> s = sh) (db_refs d) = Some (k, f)" by auto
  have "sh \<in> held d" using d(2) by (auto simp: held_def)
  then have "calm (va_disk v)" "intact digest (va_disk v) sh" using v d(1) by (auto simp: vault_ok_def)
  from blob_read_intact [OF this] obtain b dk where b: "blob_read digest sh (va_disk v) = (Ok b, dk)" "digest b = sh" by blast
  have on: "va_open v" using assms(2) by (simp add: attachments_enabled_def store_attachments_enabled_def)
  show ?thesis
    using assms(2) on d(1) f b by (simp add: get_attachment_def read_room_attachment_def store_read_room_attachment_def Let_def)
qed

subsection \<open>An accepted upload\<close>

lemma put_created:
  assumes "put_pending_attachment digest env uniq room uploader name mime b now v = (Ok att, v')"
  obtains d where "sto_conn (h_store (va_hub v)) = Some d"
    "att = \<lparr> at_id = digest b, at_sha256 = digest b, at_name = name, at_mime = mime, at_size = length b \<rparr>"
    "sto_conn (h_store (va_hub v')) = Some (insert_pending_row (digest b) room uploader name mime (length b) now
       (insert_blob_row (digest b) mime (length b) now d))"
    "room_has_sha room (digest b) d \<or> u64_saturating_add (room_used room d) (length b) \<le> room_quota env"
proof -
  let ?sh = "digest b" and ?sz = "length b"
  obtain s' dk' where p: "store_put_pending_attachment digest uniq room uploader name mime b now (room_quota env) (building_quota env)
      (h_store (va_hub v), va_disk v, va_open v) = (Ok att, s', dk')" and v': "v' = v\<lparr>va_hub := (va_hub v)\<lparr>h_store := s'\<rparr>, va_disk := dk'\<rparr>"
    using assms by (auto simp: put_pending_attachment_def split: prod.splits)
  then have "store_attachments_enabled (h_store (va_hub v)) (va_open v)"
    by (auto simp: store_put_pending_attachment_def split: if_splits)
  then obtain d where d: "sto_conn (h_store (va_hub v)) = Some d" and on: "va_open v" by (auto simp: store_attachments_enabled_def)
  obtain q s1 where quota: "check_quota room ?sh ?sz (room_quota env) (building_quota env) (h_store (va_hub v)) = (q, s1)" by fastforce
  obtain r dk1 where put: "blob_put digest uniq b (va_disk v) = (r, dk1)" by fastforce
  obtain w s2 where rec: "then_store (attach_write (insert_blob_row ?sh mime ?sz now))
      (\<lambda>_. attach_write (insert_pending_row ?sh room uploader name mime ?sz now)) s1 = (w, s2)" by fastforce
  have ok: "is_ok q" "is_ok w" "s' = s2"
    "att = \<lparr> at_id = ?sh, at_sha256 = ?sh, at_name = name, at_mime = mime, at_size = ?sz \<rparr>"
    using p d on quota put rec
    by (auto simp: store_put_pending_attachment_def store_attachments_enabled_def Let_def split: sum.splits)
  obtain d' where "sto_conn s2 = Some d'"
    "is_ok w \<Longrightarrow> d' = insert_pending_row ?sh room uploader name mime ?sz now (insert_blob_row ?sh mime ?sz now d)"
    by (rule recorded [OF rec check_quota(1) [OF quota d]]) (rule that)
  then show thesis using ok d v' check_quota(3) [OF quota d] by (intro that [of d]) simp_all
qed

lemma append_new: "\<not> hm_contains m k \<Longrightarrow> hm_insert k v m = m @ [(k, v)]"
  by (induction m) (auto simp: hm_insert_def hm_contains_def hm_get_def split: if_splits)

lemma remdups_snoc_new: "x \<notin> set xs \<Longrightarrow> remdups (xs @ [x]) = remdups xs @ [x]"
  by (induction xs) auto

lemma room_used_new:
  assumes "\<not> room_has_sha room sh d"
  shows "room_used room (insert_pending_row sh room uploader name mime sz now d) = room_used room d + sz"
proof -
  let ?refs = "map (\<lambda>((_, _, s), f). (s, rf_size f)) (filter (\<lambda>((rm, _, _), _). rm = room) (db_refs d))"
  let ?pend = "map (\<lambda>((s, _), p). (s, pr_size p)) (filter (\<lambda>((_, rm), _). rm = room) (db_pending d))"
  have refs: "((room, i, sh), f) \<notin> set (db_refs d)" and pend: "((sh, room), p) \<notin> set (db_pending d)" for i f p
    using assms by (auto simp: room_has_sha_def list_ex_iff)
  have new: "(sh, sz) \<notin> set (?refs @ ?pend)" using refs pend by auto
  have "\<not> hm_contains (db_pending d) (sh, room)" using pend
    by (cases "map_of (db_pending d) (sh, room)") (auto simp: hm_contains_def hm_get_def dest: map_of_SomeD)
  then have "room_used room (insert_pending_row sh room uploader name mime sz now d)
      = sum_list (map snd (remdups ((?refs @ ?pend) @ [(sh, sz)])))"
    by (simp add: room_used_def insert_pending_row_def append_new)
  also have "remdups ((?refs @ ?pend) @ [(sh, sz)]) = remdups (?refs @ ?pend) @ [(sh, sz)]"
    by (rule remdups_snoc_new [OF new])
  finally show ?thesis by (simp add: room_used_def)
qed

subsection \<open>Names\<close>

lemma byte_slice_short: "str_len (byte_slice s n) \<le> n"
  by (induction s n rule: byte_slice.induct) (auto simp: str_len_def)

lemma byte_slice_prefix: "\<exists>rest. s = byte_slice s n @ rest"
  by (induction s n rule: byte_slice.induct) auto

lemma boundary_below_le: "boundary_below s n \<le> n"
  by (induction n) auto

lemma cap_bytes_props: "str_len (cap_bytes s n) \<le> n" "set (cap_bytes s n) \<subseteq> set s"
proof -
  show "str_len (cap_bytes s n) \<le> n"
    using byte_slice_short [of s "boundary_below s n"] boundary_below_le [of s n] by (simp add: cap_bytes_def)
  show "set (cap_bytes s n) \<subseteq> set s"
    using byte_slice_prefix [of s "boundary_below s n"] by (auto simp: cap_bytes_def) (metis Un_iff set_append)
qed

lemma trim_set: "set (str_trim s) \<subseteq> set s"
  by (auto simp: str_trim_def dest!: set_dropWhileD)

definition plain_name :: "string \<Rightarrow> bool" where
  "plain_name s = (s \<noteq> [] \<and> str_len s \<le> 255
     \<and> list_all (\<lambda>c. \<not> is_control c \<and> c \<noteq> CHR ''/'' \<and> c \<noteq> CHR 0x5C) s)"

lemma default_plain: "plain_name (default_name m)"
  by (simp add: plain_name_def default_name_def str_len_def is_control_def)

lemma sanitized_plain: "plain_name (sanitize_filename raw m)"
proof -
  define cleaned where "cleaned = map (\<lambda>c. if c = CHR ''/'' \<or> c = CHR 0x5C then CHR ''_'' else c)
      (filter (\<lambda>c. \<not> is_control c) (case raw of None \<Rightarrow> [] | Some r \<Rightarrow> r))"
  have good: "\<not> is_control c \<and> c \<noteq> CHR ''/'' \<and> c \<noteq> CHR 0x5C" if "c \<in> set cleaned" for c
    using that by (auto simp: cleaned_def is_control_def split: if_splits)
  have "set (cap_bytes (str_trim cleaned) 255) \<subseteq> set cleaned" using cap_bytes_props(2) trim_set by blast
  then have "list_all (\<lambda>c. \<not> is_control c \<and> c \<noteq> CHR ''/'' \<and> c \<noteq> CHR 0x5C) (cap_bytes (str_trim cleaned) 255)"
    using good by (auto simp: list_all_iff)
  then show ?thesis using cap_bytes_props(1) [of "str_trim cleaned" 255] default_plain [of m]
    by (simp add: sanitize_filename_def Let_def cleaned_def [symmetric] plain_name_def)
qed

lemma sniffed_type:
  "sniff_mime b = Some m \<Longrightarrow> m \<in> {''image/png'', ''image/jpeg'', ''image/webp'', ''application/pdf'', ''text/plain''}"
  by (auto simp: sniff_mime_def split: if_splits)

subsection \<open>Limits of the blob store\<close>

text \<open>A file above the bound of the reader is stored but can never be read back.\<close>

lemma oversize_unreadable: "holds d (blob_path s) b \<Longrightarrow> is_dir d [] \<Longrightarrow> is_dir d [take 2 s] \<Longrightarrow> length b > MAX_BLOB_BYTES \<Longrightarrow>
    \<not> is_ok (fst (blob_read digest s d))"
  by (auto simp: blob_read_def path_for_def io_fail_def read_at_def read_no_follow_def io_bind_def syscall_def Let_def holds_def
      look_in_table blob_path_def split: option.splits prod.splits sum.splits list.splits bool.splits)

text \<open>
  Replacing a file removes it first: when the renaming fails once more the file is gone.  An
  intact file gets there only when it could not be read although it was there.
\<close>

lemma replacing_may_lose:
  assumes "in_table d p" "hm_get (dk_entries d) p = Some (Regular b m)" "dk_faults d Stat = []" "dk_faults d Unlink = []"
    "dk_faults d Rename = [True]"
  shows "hm_get (dk_entries (snd (replace_existing tmp p e d))) p = None"
proof -
  have look: "look x p = Ok (Regular b m)" if "dk_entries x = dk_entries d" for x
    using assms(1,2) that by (simp add: look_def [abs_def] look_in_table [unfolded look_def])
  have table: "in_table x p" if "dk_entries x = dk_entries d" for x using assms(1) that by (simp add: in_table_def)
  show ?thesis
    using assms(3-5)
    by (simp add: replace_existing_def io_match_def io_bind_def symlink_metadata_def unlink_def fs_rename_def syscall_def Let_def
        look is_file_def get_without table)
qed

text \<open>A file without a row is never collected: the sweep deletes files of blob rows only.\<close>

lemma rowless_never_swept:
  assumes "collect_orphans shs (s, dk) = (n, s', dk')" "p \<notin> blob_path ` set shs" "holds dk p b"
  shows "holds dk' p b"
  using assms
proof (induction shs arbitrary: s dk n)
  case (Cons sh shs)
  obtain q dk1 where del: "blob_delete sh dk = (q, dk1)" by fastforce
  have "holds dk1 p b" using deletion.keeps_file [OF del _ Cons.prems(3)] Cons.prems(2) by simp
  moreover obtain s1 m where "collect_orphans shs (s1, dk1) = (m, s', dk')"
    using Cons.prems(1) del by (auto split: sum.splits prod.splits)
  ultimately show ?case using Cons.IH Cons.prems(2) by auto
qed simp

end
