(* ===== verification/Sessions.thy ===== *)
theory Sessions
  imports Access
begin

text \<open>
  How authority is lent and taken back in \<^verbatim>\<open>crates/server/src/hub.rs\<close>: one-use pairing codes,
  sessions, second masters, the credentials of a profile, and the sessions a restart brings
  back.  Random tokens come from the stream of the hub.
\<close>

unbundle bit_operations_syntax

subsection \<open>Pairing a browser\<close>

definition ADMIN_SESSION_TTL_MS :: u64 where "ADMIN_SESSION_TTL_MS = 12 * 60 * 60 * 1000"
definition MIN_ADMIN_SESSION_TTL_MS :: u64 where "MIN_ADMIN_SESSION_TTL_MS = 60 * 60 * 1000"
definition MAX_ADMIN_SESSION_TTL_MS :: u64 where "MAX_ADMIN_SESSION_TTL_MS = 365 * 24 * 60 * 60 * 1000"
definition ADMIN_PAIRING_TTL_MS :: u64 where "ADMIN_PAIRING_TTL_MS = 5 * 60 * 1000"

definition admin_pairing_code :: "u64 \<Rightarrow> hub \<Rightarrow> string option" where
  "admin_pairing_code now h = (if h_admin_token h = [] then None
     else if now < ap_expires_at_ms (h_admin_pairing h) then Some (ap_code (h_admin_pairing h)) else None)"

definition rotate_admin_pairing_for :: "u64 \<Rightarrow> u64 \<Rightarrow> hub \<Rightarrow> (string \<times> u64) option \<times> hub" where
  "rotate_admin_pairing_for ttl now h =
    (if h_admin_token h = [] then (None, h)
     else let (code, h1) = secure_token ''pair_'' h;
              expires = u64_saturating_add now ADMIN_PAIRING_TTL_MS
       in (Some (code, expires), h1\<lparr>h_admin_pairing := \<lparr> ap_code = code,
             ap_session_ttl_ms = clamp ttl MIN_ADMIN_SESSION_TTL_MS MAX_ADMIN_SESSION_TTL_MS,
             ap_expires_at_ms = expires \<rparr>\<rparr>))"

text \<open>The bytes of a string, and the comparison that walks all of them.\<close>

fun as_bytes :: "string \<Rightarrow> nat list" where
  "as_bytes [] = []"
| "as_bytes (c # cs) = (if code_point c < 128 then [code_point c]
     else [192 + code_point c div 64, 128 + code_point c mod 64]) @ as_bytes cs"

definition byte_at :: "nat list \<Rightarrow> nat \<Rightarrow> nat" where
  "byte_at a i = (if i < length a then a ! i else 0)"

definition byte_difference :: "nat list \<Rightarrow> nat list \<Rightarrow> nat" where
  "byte_difference a b = fold (\<lambda>i diff. diff OR (byte_at a i XOR byte_at b i)) [0..<max (length a) (length b)]
     (length a XOR length b)"

definition next_pairing :: "u64 \<Rightarrow> hub \<Rightarrow> hub" where
  "next_pairing now h = (let (code, h1) = secure_token ''pair_'' h
     in h1\<lparr>h_admin_pairing := \<lparr> ap_code = code, ap_session_ttl_ms = ADMIN_SESSION_TTL_MS,
          ap_expires_at_ms = u64_saturating_add now ADMIN_PAIRING_TTL_MS \<rparr>\<rparr>)"

definition consume_admin_pairing :: "string \<Rightarrow> u64 \<Rightarrow> hub \<Rightarrow> u64 option \<times> hub" where
  "consume_admin_pairing candidate now h =
    (let current = h_admin_pairing h
     in if h_admin_token h = [] then (None, h)
        else if ap_expires_at_ms current \<le> now then (None, next_pairing now h)
        else if byte_difference (as_bytes (ap_code current)) (as_bytes candidate) \<noteq> 0 then (None, h)
        else (Some (ap_session_ttl_ms current), next_pairing now h))"

subsection \<open>Grants\<close>

record admin_session_grant =
  ag_ttl_ms :: u64
  ag_credential_id :: "string option"
  ag_authority :: request_authority

definition admin_session_grant_for ::
  "digest \<Rightarrow> u64 \<Rightarrow> u64 \<Rightarrow> string option \<Rightarrow> u64 \<Rightarrow> hub \<Rightarrow> admin_session_grant option \<times> hub" where
  "admin_session_grant_for sha now clock credential ttl h =
    (case resolve_authority sha now clock credential None h of
       (a, h1) \<Rightarrow>
         (if ra_principal_id a \<noteq> None \<or> is_building_admin a
          then Some \<lparr> ag_ttl_ms = ttl,
                 ag_credential_id = Option.bind credential (credential_id_for_secret sha (h_store h1)),
                 ag_authority = a \<rparr>
          else None, h1))"

definition master_pairing_grant :: "digest \<Rightarrow> u64 \<Rightarrow> hub \<Rightarrow> admin_session_grant" where
  "master_pairing_grant sha ttl h =
    \<lparr> ag_ttl_ms = ttl, ag_credential_id = credential_id_for_secret sha (h_store h) (h_admin_token h),
      ag_authority = (case authority_from_principal (active_master_principal (h_store h)) of
         None \<Rightarrow> root_authority | Some a \<Rightarrow> a) \<rparr>"

definition credential_id_for_request :: "digest \<Rightarrow> u64 \<Rightarrow> string option \<Rightarrow> string option \<Rightarrow> hub \<Rightarrow> string option" where
  "credential_id_for_request sha now credential session h =
    (case Option.bind session (\<lambda>secret. credential_id_for_session sha (h_store h) secret now) of
       Some i \<Rightarrow> Some i
     | None \<Rightarrow> Option.bind credential (credential_id_for_secret sha (h_store h)))"

subsection \<open>Credentials of a profile\<close>

definition create_profile_credential ::
  "digest \<Rightarrow> string \<Rightarrow> string \<Rightarrow> u64 \<Rightarrow> hub \<Rightarrow> (CredentialError, credential_summary \<times> string) result \<times> hub" where
  "create_profile_credential sha prin label now h =
    (let (secret, h1) = secure_token ''ak_'' h
     in case with_store (create_credential sha prin label secret now) h1 of
          (Inl e, h2) \<Rightarrow> (Err e, h2)
        | (Inr summary, h2) \<Rightarrow> (Ok (summary, secret), h2))"

definition revoke_profile_credential ::
  "digest \<Rightarrow> string \<Rightarrow> string \<Rightarrow> u64 \<Rightarrow> hub \<Rightarrow> (CredentialError, unit) result \<times> hub" where
  "revoke_profile_credential sha prin cid now h =
    (let legacy = legacy_credential_source sha (h_store h) prin cid
     in case with_store (revoke_credential sha prin cid now) h of
          (Inl e, h1) \<Rightarrow> (Err e, h1)
        | (Inr _, h1) \<Rightarrow>
            let h2 = h1\<lparr>h_sessions := hm_retain (\<lambda>t _. \<not> session_uses_credential sha (h_store h1) t cid) (h_sessions h1)\<rparr>
            in (Ok (), case legacy of
                  Some (role, token) \<Rightarrow>
                    if role = ''smaster'' then h2\<lparr>h_smasters := hm_remove token (h_smasters h2)\<rparr> else h2
                | None \<Rightarrow> h2))"

subsection \<open>Second masters\<close>

definition add_smaster :: "digest \<Rightarrow> string \<Rightarrow> u64 \<Rightarrow> hub \<Rightarrow> (sql_error, string) result \<times> hub" where
  "add_smaster sha name now h =
    (let (t, h1) = new_invite_token h; token = replacen_one ''dv_'' ''sm_'' t
     in case with_store (store_add_smaster sha token name now) h1 of
          (Inl e, h2) \<Rightarrow> (Err e, h2)
        | (Inr _, h2) \<Rightarrow> (Ok token, h2\<lparr>h_smasters := hm_insert token name (h_smasters h2)\<rparr>))"

definition revoke_smaster :: "digest \<Rightarrow> string \<Rightarrow> u64 \<Rightarrow> hub \<Rightarrow> (sql_error, bool) result \<times> hub" where
  "revoke_smaster sha token now h =
    (if \<not> hm_contains (h_smasters h) token then (Ok False, h)
     else case with_store (store_revoke_smaster sha token now) h of
       (Inl e, h1) \<Rightarrow> (Err e, h1)
     | (Inr _, h1) \<Rightarrow> (Ok True, h1\<lparr>h_smasters := hm_remove token (h_smasters h1)\<rparr>))"

definition smaster_management_id :: "digest \<Rightarrow> string \<Rightarrow> string" where
  "smaster_management_id sha token = hashed_id sha ''smid_'' (''smaster:'' @ token)"

definition revoke_smaster_ref :: "digest \<Rightarrow> string \<Rightarrow> u64 \<Rightarrow> hub \<Rightarrow> (sql_error, bool) result \<times> hub" where
  "revoke_smaster_ref sha ref now h =
    (case find (\<lambda>t. t = ref \<or> smaster_management_id sha t = ref) (hm_keys (h_smasters h)) of
       Some token \<Rightarrow> revoke_smaster sha token now h
     | None \<Rightarrow> (Ok False, h))"

subsection \<open>Sessions\<close>

record create_session_body =
  cn_name :: string
  cn_kind :: "SenderType option"

record session_info =
  sf_participant_id :: string
  sf_session_token :: string
  sf_name :: string
  sf_admin :: bool
  sf_expires_at :: "u64 option"

definition davet_identity :: "digest \<Rightarrow> u64 \<Rightarrow> invite \<Rightarrow> hub \<Rightarrow> session_identity \<times> hub" where
  "davet_identity sha clock ivt h =
    (let (name, kind) = (case member_of h (Some (iv_member ivt)) of
             Some m \<Rightarrow> (mb_name m, mb_kind m) | None \<Rightarrow> (iv_name ivt, iv_kind ivt));
         (p, h1) = with_store (principal_for_credential sha clock (iv_member ivt)) h
     in (\<lparr> si_principal_id = map_option pi_id p, si_building_role = MemberRole, si_name = name,
           si_kind = (if kind = ''user'' then User else Agent), si_loca = Some (iv_room ivt),
           si_member = Some (iv_member ivt), si_admin = False, si_expires_at = 0 \<rparr>, h1))"

definition granted_identity :: "create_session_body \<Rightarrow> admin_session_grant option \<Rightarrow> u64 \<Rightarrow> session_identity" where
  "granted_identity req grant now =
    (let a = map_option ag_authority grant
     in \<lparr> si_principal_id = Option.bind a ra_principal_id,
          si_building_role = (case Option.bind a ra_building_role of Some r \<Rightarrow> r | None \<Rightarrow> MemberRole),
          si_name = (case Option.bind a ra_display_name of Some n \<Rightarrow> n | None \<Rightarrow> cn_name req),
          si_kind = (case Option.bind a ra_kind of Some k \<Rightarrow> k
             | None \<Rightarrow> (case cn_kind req of Some k \<Rightarrow> k | None \<Rightarrow> Agent)),
          si_loca = None, si_member = None,
          si_admin = (case a of Some x \<Rightarrow> is_building_admin x | None \<Rightarrow> False),
          si_expires_at = (case grant of Some g \<Rightarrow> u64_saturating_add now (ag_ttl_ms g) | None \<Rightarrow> 0) \<rparr>)"

definition create_session_scoped ::
  "digest \<Rightarrow> create_session_body \<Rightarrow> invite option \<Rightarrow> admin_session_grant option \<Rightarrow> u64 \<Rightarrow> u64 \<Rightarrow> hub \<Rightarrow>
     (sql_error, session_info) result \<times> hub" where
  "create_session_scoped sha req davet grant now clock h =
    (let i = h_next_id h;
         (t, h1) = secure_token ''st_'' (h\<lparr>h_next_id := u64_add i 1\<rparr>);
         (idy, h2) = (case davet of Some ivt \<Rightarrow> davet_identity sha clock ivt h1
                      | None \<Rightarrow> (granted_identity req grant now, h1));
         (saved, h3) = (if si_admin idy
            then with_store (save_admin_session t (si_name idy) (si_kind idy) (si_expires_at idy)) h2 else (Ok (), h2))
     in case saved of
          Inl e \<Rightarrow> (Err e, h3)
        | Inr _ \<Rightarrow>
            let cid = (case davet of Some ivt \<Rightarrow> credential_id_for_secret sha (h_store h3) (iv_member ivt)
                       | None \<Rightarrow> Option.bind grant ag_credential_id);
                (bound, h4) = (case (si_principal_id idy, cid) of
                    (Some p, Some c) \<Rightarrow> with_store (save_principal_session sha t p c now (si_expires_at idy)) h3
                  | _ \<Rightarrow> (Ok (), h3))
            in case bound of
                 Inl e \<Rightarrow> (Err e, h4)
               | Inr _ \<Rightarrow>
                   (Ok \<lparr> sf_participant_id = ''p_'' @ dec i, sf_session_token = t, sf_name = si_name idy, sf_admin = si_admin idy,
                        sf_expires_at = (if si_expires_at idy \<noteq> 0 then Some (si_expires_at idy) else None) \<rparr>,
                    h4\<lparr>h_sessions := hm_insert t idy (h_sessions h4)\<rparr>))"

definition is_admin_session :: "digest \<Rightarrow> u64 \<Rightarrow> u64 \<Rightarrow> string option \<Rightarrow> hub \<Rightarrow> bool \<times> hub" where
  "is_admin_session sha now clock session h =
    (case resolve_authority sha now clock None session h of (a, h1) \<Rightarrow> (is_building_admin a, h1))"

definition revoke_session :: "digest \<Rightarrow> string \<Rightarrow> u64 \<Rightarrow> u64 \<Rightarrow> hub \<Rightarrow> (sql_error, bool) result \<times> hub" where
  "revoke_session sha token now clock h =
    (let admin = (case hm_get (h_sessions h) token of Some idy \<Rightarrow> si_admin idy | None \<Rightarrow> False);
         (deleted, h1) = (if admin then with_store (delete_admin_session sha clock token) h else (Ok (), h))
     in case deleted of
          Inl e \<Rightarrow> (Err e, h1)
        | Inr _ \<Rightarrow>
            (case with_store (revoke_principal_session sha token now) h1 of
               (Inl e, h2) \<Rightarrow> (Err e, h2)
             | (Inr _, h2) \<Rightarrow>
                 (Ok (hm_contains (h_sessions h2) token), h2\<lparr>h_sessions := hm_remove token (h_sessions h2)\<rparr>)))"

subsection \<open>Sessions after a restart\<close>

text \<open>\<open>None\<close> is a server that refuses to start.\<close>

definition drop_persisted :: "digest \<Rightarrow> u64 \<Rightarrow> string \<Rightarrow> hub \<Rightarrow> hub option" where
  "drop_persisted sha clock token h = (case with_store (delete_admin_session sha clock token) h of
     (Inl _, _) \<Rightarrow> None | (Inr _, h1) \<Rightarrow> Some h1)"

definition restore_session :: "digest \<Rightarrow> u64 \<Rightarrow> u64 \<Rightarrow> string \<times> string \<times> SenderType \<times> u64 \<Rightarrow> hub \<Rightarrow> hub option" where
  "restore_session sha now clock row h = (case row of (token, _, _, expires_at) \<Rightarrow>
     (case principal_for_session sha (h_store h) token now of
        None \<Rightarrow> drop_persisted sha clock token h
      | Some p \<Rightarrow>
          if pi_role p = MemberRole then drop_persisted sha clock token h
          else Some (h\<lparr>h_sessions := hm_insert token
            \<lparr> si_principal_id = Some (pi_id p), si_building_role = pi_role p, si_name = pi_display_name p,
              si_kind = pi_kind p, si_loca = None, si_member = None, si_admin = True, si_expires_at = expires_at \<rparr>
            (h_sessions h)\<rparr>)))"

definition restore_sessions :: "digest \<Rightarrow> u64 \<Rightarrow> u64 \<Rightarrow> hub \<Rightarrow> hub option" where
  "restore_sessions sha now clock h =
    (case load_admin_sessions now (h_store h) of (rows, s) \<Rightarrow>
       fold (\<lambda>row acc. Option.bind acc (restore_session sha now clock row)) rows (Some (h\<lparr>h_store := s, h_sessions := []\<rparr>)))"

end
