(* ===== verification/Sessions_Properties.thy ===== *)
theory Sessions_Properties
  imports Sessions Access_Laws Samples
begin

text \<open>
  Authority that was lent comes to an end: a pairing code works once, a session that was
  ended and a credential that was revoked are dead at once and after every restart.
\<close>

subsection \<open>Comparing all bytes is comparing the strings\<close>






subsection \<open>Pairing\<close>








subsection \<open>Sessions\<close>

definition dead :: "digest \<Rightarrow> string \<Rightarrow> db \<Rightarrow> bool" where
  "dead sha token d = (case hm_get (db_principal_sessions d) (secret_hash sha token) of
     None \<Rightarrow> True | Some r \<Rightarrow> ps_revoked_at r \<noteq> None)"

definition dead_store :: "digest \<Rightarrow> string \<Rightarrow> store \<Rightarrow> bool" where
  "dead_store sha token s = (case sto_conn s of None \<Rightarrow> True | Some d \<Rightarrow> dead sha token d)"

lemma dead_unbound: "dead_store sha token s \<Longrightarrow> principal_for_session sha s token now = None"
  by (auto simp: dead_store_def dead_def principal_for_session_def live_session_def split: option.splits)

lemma dead_write:
  assumes "run_write f s = (r, s')" "dead_store sha token s" "\<And>d. dead sha token d \<Longrightarrow> dead sha token (f d)"
  shows "dead_store sha token s'"
proof (cases r)
  case (Inl e)
  then show ?thesis using run_write_errD assms(1,2) by (auto simp: dead_store_def)
next
  case (Inr u)
  then show ?thesis using run_write_okD [OF assms(1) [unfolded Inr]] assms(2,3)
    by (auto simp: dead_store_def split: option.splits)
qed

lemma dead_revoke:
  assumes "revoke_principal_session sha t at s = (r, s')"
  shows "dead_store sha token s \<Longrightarrow> dead_store sha token s'" "is_ok r \<Longrightarrow> dead_store sha t s'"
proof -
  show "dead_store sha token s \<Longrightarrow> dead_store sha token s'"
    using assms unfolding revoke_principal_session_def
    by (rule dead_write) (auto simp: dead_def stamp_def split: option.splits)
  show "is_ok r \<Longrightarrow> dead_store sha t s'"
    using run_write_okD assms unfolding revoke_principal_session_def
    by (cases r) (auto simp: dead_store_def dead_def stamp_def split: option.splits dest!: run_write_okD)
qed

lemma dead_delete:
  assumes "delete_admin_session sha clock t s = (r, s')" "dead_store sha token s"
  shows "dead_store sha token s'"
proof -
  obtain q s1 where w: "run_write (\<lambda>d. d\<lparr>db_admin_sessions := hm_remove t (db_admin_sessions d)\<rparr>) s = (q, s1)" by fastforce
  have "dead_store sha token s1" by (rule dead_write [OF w assms(2)]) (simp add: dead_def)
  then show ?thesis using assms(1) w dead_revoke(1) by (cases q) (auto simp: delete_admin_session_def)
qed

definition absent :: "digest \<Rightarrow> string \<Rightarrow> hub \<Rightarrow> bool" where
  "absent sha token h = (dead_store sha token (h_store h) \<and> hm_get (h_sessions h) token = None)"

lemma drop_absent: "drop_persisted sha clock t h = Some h' \<Longrightarrow> absent sha token h \<Longrightarrow> absent sha token h'"
  by (auto simp: drop_persisted_def with_store_def absent_def split: prod.splits sum.splits dest: dead_delete)

lemma restore_absent:
  assumes "restore_session sha now clock row h = Some h'" "absent sha token h"
  shows "absent sha token h'"
proof -
  obtain t n k x where row: "row = (t, n, k, x)" by (cases row)
  show ?thesis
  proof (cases "principal_for_session sha (h_store h) t now")
    case None
    then show ?thesis using assms drop_absent by (simp add: restore_session_def row)
  next
    case (Some p)
    then have "t \<noteq> token" using assms(2) dead_unbound by (auto simp: absent_def)
    then show ?thesis using assms Some drop_absent by (auto simp: restore_session_def row absent_def split: if_splits)
  qed
qed

lemma restore_all_absent:
  "fold (\<lambda>row acc. Option.bind acc (restore_session sha now clock row)) rows (Some h) = Some h' \<Longrightarrow> absent sha token h \<Longrightarrow>
     absent sha token h'"
proof (induction rows arbitrary: h)
  case (Cons row rows)
  have none: "fold (\<lambda>row acc. Option.bind acc (restore_session sha now clock row)) rows None = None" for rows
    by (induction rows) auto
  from Cons.prems(1) obtain h1 where "restore_session sha now clock row h = Some h1"
    using none [of rows] by (cases "restore_session sha now clock row h") auto
  then show ?case using Cons restore_absent by auto
qed simp

lemma restart_absent:
  assumes "restore_sessions sha now clock h = Some h'" "dead_store sha token (h_store h)"
  shows "hm_get (h_sessions h') token = None"
proof -
  obtain rows s where l: "load_admin_sessions now (h_store h) = (rows, s)" by fastforce
  obtain q where w: "run_write (\<lambda>d. d\<lparr>db_admin_sessions := hm_retain (\<lambda>_ r. now < as_expires_at r) (db_admin_sessions d)\<rparr>)
      (h_store h) = (q, s)" using l by (metis (no_types, lifting) load_admin_sessions_def prod.collapse snd_conv)
  have "dead_store sha token s" by (rule dead_write [OF w assms(2)]) (simp add: dead_def)
  then have "absent sha token (h\<lparr>h_store := s, h_sessions := []\<rparr>)" by (simp add: absent_def)
  then show ?thesis using restore_all_absent assms(1) l by (auto simp: restore_sessions_def absent_def)
qed

text \<open>
  C39: ending a session ends it.  When \<open>revoke_session\<close> reports success the token proves no identity
  any more, at whatever time it is presented, and no later start of the server on these
  tables brings the session back, even if its row among the administrative sessions was
  not removed.
\<close>

theorem session_ended:
  assumes "revoke_session sha token now clock h = (Ok existed, h')"
  shows "fst (session_identity_of sha now' clock' (Some token) h') = None
     \<and> (case restore_sessions sha now' clock' h' of None \<Rightarrow> True
        | Some h2 \<Rightarrow> fst (session_identity_of sha now' clock' (Some token) h2) = None)"
proof -
  from assms obtain h1 u h2 where
    w: "with_store (revoke_principal_session sha token now) h1 = (Inr u, h2)"
    and h': "h' = h2\<lparr>h_sessions := hm_remove token (h_sessions h2)\<rparr>"
    by (auto simp: revoke_session_def Let_def split: prod.splits sum.splits)
  obtain s where s: "revoke_principal_session sha token now (h_store h1) = (Inr u, s)" "h2 = h1\<lparr>h_store := s\<rparr>"
    using w by (auto simp: with_store_def split: prod.splits)
  have dead: "dead_store sha token (h_store h')" using dead_revoke(2) [OF s(1)] by (simp add: h' s(2))
  have gone: "fst (session_identity_of sha now' clock' (Some token) x) = None" if "hm_get (h_sessions x) token = None" for x
    using that by (simp add: session_identity_of_def)
  have "hm_get (h_sessions h') token = None" by (simp add: h')
  then show ?thesis using gone restart_absent [OF _ dead] by (auto split: option.split)
qed

definition sample_session :: "(sql_error, session_info) result \<times> hub" where
  "sample_session = create_session_scoped (\<lambda>_. []) \<lparr> cn_name = ''ada'', cn_kind = None \<rparr> None
     (Some (master_pairing_grant (\<lambda>_. []) 60000 sample_hub)) 5 5 sample_hub"

theorem session_ended_witness:
  "(case fst sample_session of Inr info \<Rightarrow> sf_admin info \<and> sf_session_token info = ''st_t0'' | Inl _ \<Rightarrow> False)
     \<and> fst (session_identity_of (\<lambda>_. []) 6 6 (Some ''st_t0'') (snd sample_session)) \<noteq> None
     \<and> fst (session_identity_of (\<lambda>_. []) 8 8 (Some ''st_t0'') (snd (revoke_session (\<lambda>_. []) ''st_t0'' 7 7 (snd sample_session)))) = None"
proof -
  have made: "(case fst sample_session of Inr info \<Rightarrow> sf_admin info \<and> sf_session_token info = ''st_t0'' | Inl _ \<Rightarrow> False)"
    "is_ok (fst (revoke_session (\<lambda>_. []) ''st_t0'' 7 7 (snd sample_session)))" by code_simp+
  have live: "(case fst (session_identity_of (\<lambda>_. []) 6 6 (Some ''st_t0'') (snd sample_session)) of None \<Rightarrow> False | Some _ \<Rightarrow> True)"
    by code_simp
  obtain b where "revoke_session (\<lambda>_. []) ''st_t0'' 7 7 (snd sample_session)
      = (Ok b, snd (revoke_session (\<lambda>_. []) ''st_t0'' 7 7 (snd sample_session)))" using ok_run [OF made(2)] by blast
  from session_ended [OF this] made(1) live show ?thesis by (simp split: option.splits)
qed

subsection \<open>Credentials\<close>





end
