(* ===== verification/Spec2Isabelle.thy ===== *)
theory Spec2Isabelle
  imports Work_Properties Waits_Properties Post_Properties Attention_Properties Rooms_Properties
    Access_Properties Admission_Properties Scheduler_Properties Memory_Properties Notes_Properties Wiki_Properties
    Attachments_Properties Sessions_Properties
begin

text \<open>
  Verification library of the loca server, the crate \<^verbatim>\<open>crates/server\<close> of this repository.

  \<^bold>\<open>The program.\<close>  A loca is a chat room shared by people and agents; the building is the
  set of all locas of one server.  The server keeps its working state in memory (\<open>Hub\<close>,
  \<^verbatim>\<open>hub.rs\<close>) and writes through to a SQLite database (\<open>Store\<close>, \<^verbatim>\<open>store.rs\<close> and
  \<^verbatim>\<open>store/*.rs\<close>), from which it is rebuilt at a restart.  HTTP and websocket handlers
  (\<^verbatim>\<open>main.rs\<close>, \<^verbatim>\<open>routes/*.rs\<close>) call operations of the hub; an operation takes the lock on
  the rooms, checks its guards, writes a transaction and only then changes the memory
  and sends frames to the clients of the room.

  \<^bold>\<open>How it is modelled.\<close>  Every operation is a function of the explicit state \<^typ>\<open>hub\<close>,
  returning its answer (\<open>Ok\<close> or \<open>Err\<close> of the operation's own error type) and the new
  state.  The database is the record \<^typ>\<open>db\<close> of its tables; a transaction is a function on
  it, run by \<^const>\<open>run_txn\<close> or \<^const>\<open>answer_txn\<close>.  Whether SQLite completes a transaction is
  decided by the list \<^const>\<open>sto_faults\<close> in the store, so a statement about all stores
  covers every pattern of storage failures.  A hash map is an association list whose
  order is the iteration order.  A broadcast channel is the list of frames sent.  The
  clock is an argument (\<open>now\<close> of the hub, \<open>clock\<close> where the store reads it itself), the
  random source the field \<^const>\<open>h_rng\<close>, and SHA-256 the parameter \<open>sha\<close>, about which
  nothing is assumed.  Unsigned integers are natural numbers, with saturation and
  wrap-around written out where the code can reach them.  A string is a list of the
  first 256 code points, its length in bytes counted as UTF-8 does, and the few literals
  outside that range are written as their UTF-8 bytes.  Operations are atomic, as the
  lock on the rooms makes them.  No function of the model has a fuel argument or a
  bound: loops are structural recursion over the data they walk, and the one that is
  not, the walk along declared waits (\<^const>\<open>wait_walk\<close>), is shown to terminate.

  \<^bold>\<open>The theories.\<close>
  \<^item> \<^verbatim>\<open>Prelude\<close>: integers, hash maps, strings, results, the locale of step invariants.
  \<^item> \<^verbatim>\<open>Protocol\<close> (\<^verbatim>\<open>crates/protocol/src/lib.rs\<close>): the types exchanged and the frames.
  \<^item> \<^verbatim>\<open>Database\<close> (\<^verbatim>\<open>store.rs\<close>): tables, transactions, failures.
  \<^item> \<^verbatim>\<open>Store_Attention\<close>, \<^verbatim>\<open>Store_Work\<close>, \<^verbatim>\<open>Store_Messages\<close>, \<^verbatim>\<open>Store_Identity\<close>, \<^verbatim>\<open>Store_Members\<close>,
    \<^verbatim>\<open>Store_Operators\<close>, \<^verbatim>\<open>Store_Admission\<close>, \<^verbatim>\<open>Store_Memory\<close>: the transactions of the files of
    the same names under \<^verbatim>\<open>store/\<close> (\<open>Store_Members\<close> is the second half of \<^verbatim>\<open>identity.rs\<close>,
    \<open>Store_Admission\<close> the admission stock and join requests of \<^verbatim>\<open>store.rs\<close>).
  \<^item> \<^verbatim>\<open>Wiki_Tables\<close>, \<^verbatim>\<open>Store_Wiki\<close>, \<^verbatim>\<open>Store_Wiki_Review\<close>, \<^verbatim>\<open>Store_Wiki_Context\<close> (\<^verbatim>\<open>store/wiki.rs\<close>,
    \<^verbatim>\<open>wiki_maintenance.rs\<close>, \<^verbatim>\<open>wiki_context.rs\<close>): pages and their history, the review batches and
    their leases, the contexts handed to agents; \<^verbatim>\<open>Wiki\<close>: the hub's part and the handlers of \<^verbatim>\<open>routes/wiki.rs\<close>.
  \<^item> \<^verbatim>\<open>Blob_Store\<close> (\<^verbatim>\<open>store/attachments.rs\<close>): the content-addressed files over a table of directory
    entries, where any system call may fail; \<^verbatim>\<open>Attachments\<close> (\<^verbatim>\<open>store/attachment_index.rs\<close>, the end of
    \<^verbatim>\<open>hub.rs\<close>, \<^verbatim>\<open>routes/attachments.rs\<close>): uploads, reads, the sweep and both handlers.
  \<^item> \<^verbatim>\<open>Hub_State\<close> (\<^verbatim>\<open>hub.rs\<close>): the state of a room and of the building.
  \<^item> \<^verbatim>\<open>Conditions\<close>, \<^verbatim>\<open>Attention\<close> (\<^verbatim>\<open>hub/attention/lifecycle.rs\<close>), \<^verbatim>\<open>Health\<close>
    (\<^verbatim>\<open>runtime_health.rs\<close>, \<^verbatim>\<open>owner.rs\<close>, \<^verbatim>\<open>addressing.rs\<close>), \<^verbatim>\<open>Scheduler\<close> (\<^verbatim>\<open>scheduler.rs\<close>).
  \<^item> \<^verbatim>\<open>Work\<close> (\<^verbatim>\<open>hub/work/{task,goal,policy,mod}.rs\<close>) and \<^verbatim>\<open>Waits\<close> (\<^verbatim>\<open>hub/work/wait.rs\<close>).
  \<^item> \<^verbatim>\<open>Post\<close>: accepting a message; \<^verbatim>\<open>Rooms\<close>: joining, moderation, settings, sealing,
    operators; \<^verbatim>\<open>Access\<close>: memberships, davets (invitations to one loca), sessions, the door;
    \<^verbatim>\<open>Admission\<close>: join requests; \<^verbatim>\<open>Sessions\<close>: pairing, taking and ending sessions, second masters and
    credentials of a profile, and the sessions a restart restores; all of \<^verbatim>\<open>hub.rs\<close>.  \<^verbatim>\<open>Memory\<close>: the memory of a loca in \<^verbatim>\<open>hub.rs\<close> and
    the guards of its handlers in \<^verbatim>\<open>routes/content.rs\<close>; \<^verbatim>\<open>Notes\<close>: notes and journal; \<^verbatim>\<open>Restart\<close>:
    loading the rooms (\<^verbatim>\<open>store/rooms.rs\<close>) and the part of \<open>Hub::build\<close> that restores them.
  \<^item> \<^verbatim>\<open>Work_Durable\<close>, \<^verbatim>\<open>Frames\<close>, \<^verbatim>\<open>Post_Laws\<close>, \<^verbatim>\<open>Rooms_Laws\<close>, \<^verbatim>\<open>Rooms_Durable\<close>, \<^verbatim>\<open>Access_Laws\<close>,
    \<^verbatim>\<open>Admission_Laws\<close>, \<^verbatim>\<open>Scheduler_Laws\<close>, \<^verbatim>\<open>Memory_Laws\<close>, \<^verbatim>\<open>Notes_Laws\<close>, \<^verbatim>\<open>Wiki_Laws\<close>,
    \<^verbatim>\<open>Wiki_Review_Laws\<close>, \<^verbatim>\<open>Wiki_System\<close>, \<^verbatim>\<open>Blob_Laws\<close>, \<^verbatim>\<open>Attachments_Laws\<close>: the laws of the operations; \<^verbatim>\<open>Ordered_Rows\<close>: rows read in the order of a key that grows;
    \<^verbatim>\<open>Admission_Desk\<close>: the abstract admission desk; \<^verbatim>\<open>Samples\<close>: the building the examples use.
  \<^item> \<^verbatim>\<open>*_Properties\<close>: the theorems named below.

  \<^bold>\<open>Interfaces.\<close>  \<open>step_invariant\<close> (an invariant of a step relation holds in every reachable
  state) is interpreted for each system of operations; \<open>durable_write\<close> (a failed write
  changes nothing), \<open>room_write\<close> (a write of one loca leaves the rows of the others),
  \<open>room_invariant\<close> and \<open>room_law\<close> (a property of single rooms that the operations on rooms
  keep), \<open>db_law\<close> (a property of the tables that they keep) and its extension \<open>posted_law\<close>
  (that posting keeps as well), \<open>wiki_operation\<close> (a call that moves the wiki forward or changes
  nothing) and \<open>disk_operation\<close> (a call that damages no file but those it names) are contracts
  between the store, the disk, the rooms and the components built on them, each interpreted
  on the model.

  \<^bold>\<open>What is shown.\<close>
  \<^item> \<^emph>\<open>Declared work\<close> (\<open>Work_Properties\<close>, \<open>Waits_Properties\<close>): tasks and goals stay well formed
    under every sequence of operations and failures and are read back exactly after a
    restart; without being an operator a participant acts only on his own tasks; a refused
    operation is invisible; the last task of a goal achieves it; the wait cycles
    reported are exactly the cycles of the wait relation, each once.
  \<^item> \<^emph>\<open>Attention\<close> (\<open>Attention_Properties\<close>, \<open>Scheduler_Properties\<close>): memory and ledger agree; an
    attention only moves from open to claimed to resolved; claims are exclusive;
    resolution and receipts need the addressed principal; what is created is replayed,
    and only to its addressee; the reminders of a room where nothing happens come to an
    end after a number of ticks computed from its conditions.
  \<^item> \<^emph>\<open>Messages\<close> (\<open>Post_Properties\<close>): what is answered is archived and broadcast; a retry is
    answered with the first message; an accepted post has passed every gate; the rate
    limit holds over every window; the round-robin turn moves exactly on the speaker's
    post; a direct answer wakes the participant who waited for it.
  \<^item> \<^emph>\<open>Rooms and access\<close> (\<open>Rooms_Properties\<close>, \<open>Access_Properties\<close>): seats, davets and settings stay
    in their bounds; sealing is final; one operator per loca, and the master's
    appointment is protected; memory and tables agree on who may enter; the door opens
    only to rank or to a davet; bans, revocations and suspensions take effect at once.
  \<^item> \<^emph>\<open>Admission\<close> (\<open>Admission_Properties\<close>): every operation of the building refines the abstract
    desk, on which an admission costs one right; an approval has exactly one effect; an
    approved key is delivered until it is acknowledged.
  \<^item> \<^emph>\<open>Sessions\<close> (\<open>Sessions_Properties\<close>): a pairing code works once; an ended session and whatever a
    revoked credential opened are dead at once and after every restart.
  \<^item> \<^emph>\<open>Memory\<close> (\<open>Memory_Properties\<close>): the two views of the long memory never diverge, the
    snapshot is the longest fitting suffix, and pages read the ledger back.
  \<^item> \<^emph>\<open>Notes\<close> (\<open>Notes_Properties\<close>): a restart reads exactly the notes and the journal of the
    memory, and an update archives the version it replaces or changes nothing.  The
    counter a restart derives ignores the archive; the theory shows what follows.
  \<^item> \<^emph>\<open>Wiki\<close> (\<open>Wiki_Properties\<close>): a batch of messages is published at most once, by the assigned
    editor under the last lease; it is handed out a bounded number of times and an older
    lease is dead; every page shown is in the history, which is never changed.
  \<^item> \<^emph>\<open>Attachments\<close> (\<open>Attachments_Properties\<close>): what a message cites is served from its loca for
    ever; nothing else is served, and never bytes with another hash; the quotas hold; an
    accepted upload has the type of its bytes and a clean name.  Reading a file that is there is
    assumed to work in the first and the third; the laws show what happens otherwise.

  \<^bold>\<open>Not modelled.\<close>  Parsing of requests and writing of responses, sockets, timers and the
  process itself (\<^verbatim>\<open>main.rs\<close>, most of \<^verbatim>\<open>routes/\<close>): input and output around the operations.
  Opening and migrating the database, and the Windows variants of the file operations.  The renaming of a loca, which rewrites the name in every table at once, and the migrations
  of old databases at a start are left out.  Full-text search relies on SQLite's index.  The
  command-line client, the skill bundles, the desktop shell and the lock helper have no state
  of the building.  Interleavings inside one operation are not modelled; where the code
  releases a lock in between, that is recorded as a finding of the manifest.
\<close>

end
